(* ===== verification/Prelude.thy ===== *)
theory Prelude
  imports Main
begin

text \<open>
  Shared vocabulary of the development: the Go values every component uses (byte strings,
  instants, durations), the relational-table helpers the store is written with, and the
  generic lemmas on them.

  A Go \<^verbatim>\<open>string\<close> and a Go \<^verbatim>\<open>[]byte\<close> are both byte sequences, so both are Isabelle's
  \<^typ>\<open>string\<close> (a list of 8-bit characters) and the conversions between them are the identity.
  A \<^verbatim>\<open>time.Time\<close> is a number of nanoseconds since the Unix epoch and a \<^verbatim>\<open>time.Duration\<close>
  a number of nanoseconds; \<^verbatim>\<open>Unix()\<close> rounds down to seconds.
\<close>

section \<open>Go values\<close>

type_synonym bytes = string
type_synonym instant = int
type_synonym duration = int

abbreviation nsec :: int where
  "nsec \<equiv> 1000000000"

definition seconds :: "int \<Rightarrow> duration" where
  "seconds n = n * nsec"

definition minutes :: "int \<Rightarrow> duration" where
  "minutes n = seconds (60 * n)"

definition unix :: "instant \<Rightarrow> int" where
  "unix t = t div nsec"

lemma unix_mono: "s \<le> t \<Longrightarrow> unix s \<le> unix t"
  by (simp add: unix_def zdiv_mono1)

lemma unix_seconds [simp]: "unix (seconds n) = n"
  by (simp add: unix_def seconds_def)

lemma unix_add_seconds [simp]: "unix (t + seconds n) = unix t + n"
  by (simp add: unix_def seconds_def)

text \<open>A concrete function with 32-byte results, with which the witnesses show that hypotheses on the
  hash parameter can hold together.\<close>

definition pad32 :: "bytes \<Rightarrow> bytes" where
  "pad32 x = take 32 (x @ replicate 32 (CHR 0xFF))"

lemma length_pad32 [simp]: "length (pad32 x) = 32"
  by (simp add: pad32_def)

section \<open>Collections of rules\<close>

named_theorems service_defs \<open>definitions of service operations, unfolded by the component proofs\<close>
named_theorems table_simps \<open>rewrite rules for rows, filters and updates of tables\<close>

section \<open>Tables\<close>

text \<open>
  A table is the list of its rows in insertion order. \<open>select_rows\<close> is
  \<^verbatim>\<open>SELECT ... WHERE\<close>, \<open>first_row\<close> the same query with \<^verbatim>\<open>LIMIT 1\<close> on a key that has at
  most one match, \<open>update_rows\<close> is \<^verbatim>\<open>UPDATE ... WHERE\<close> and \<open>exists_row\<close> is
  \<^verbatim>\<open>SELECT EXISTS\<close>.
\<close>

abbreviation (input) select_rows :: "('r \<Rightarrow> bool) \<Rightarrow> 'r list \<Rightarrow> 'r list" where
  "select_rows \<equiv> filter"

abbreviation (input) first_row :: "('r \<Rightarrow> bool) \<Rightarrow> 'r list \<Rightarrow> 'r option" where
  "first_row \<equiv> List.find"

abbreviation (input) exists_row :: "('r \<Rightarrow> bool) \<Rightarrow> 'r list \<Rightarrow> bool" where
  "exists_row \<equiv> list_ex"

definition update_rows :: "('r \<Rightarrow> bool) \<Rightarrow> ('r \<Rightarrow> 'r) \<Rightarrow> 'r list \<Rightarrow> 'r list" where
  "update_rows P f rs = map (\<lambda>r. if P r then f r else r) rs"

lemma update_rows_Nil [simp]: "update_rows P f [] = []"
  by (simp add: update_rows_def)

lemma update_rows_Cons [simp]:
  "update_rows P f (r # rs) = (if P r then f r else r) # update_rows P f rs"
  by (simp add: update_rows_def)

lemma update_rows_append [simp]:
  "update_rows P f (rs @ qs) = update_rows P f rs @ update_rows P f qs"
  by (simp add: update_rows_def)

lemma length_update_rows [simp]: "length (update_rows P f rs) = length rs"
  by (simp add: update_rows_def)

lemma update_rows_id: "(\<And>r. r \<in> set rs \<Longrightarrow> \<not> P r) \<Longrightarrow> update_rows P f rs = rs"
  by (induction rs) auto

lemma in_set_update_rows_if:
  "r \<in> set (update_rows P f rs) \<longleftrightarrow> (\<exists>q \<in> set rs. r = (if P q then f q else q))"
  by (auto simp: update_rows_def)

lemma in_set_update_rows:
  "r \<in> set (update_rows P f rs) \<longleftrightarrow> (\<exists>q \<in> set rs. P q \<and> r = f q) \<or> r \<in> set rs \<and> \<not> P r"
  by (auto simp: update_rows_def)

lemma ball_update_rows [simp]:
  "(\<forall>r \<in> set (update_rows P f rs). Q r) \<longleftrightarrow> (\<forall>r \<in> set rs. if P r then Q (f r) else Q r)"
  by (auto simp: update_rows_def)

lemma bex_update_rows [simp]:
  "(\<exists>r \<in> set (update_rows P f rs). Q r) \<longleftrightarrow> (\<exists>r \<in> set rs. if P r then Q (f r) else Q r)"
  by (auto simp: update_rows_def)

lemma list_ex_update_rows [simp]:
  "list_ex Q (update_rows P f rs) \<longleftrightarrow> list_ex (\<lambda>r. if P r then Q (f r) else Q r) rs"
  by (induction rs) auto

lemma update_rows_twice:
  "(\<And>r. P (f r) = P r) \<Longrightarrow> update_rows P g (update_rows P f rs) = update_rows P (\<lambda>r. g (f r)) rs"
  by (induction rs) auto

lemma filter_update_rows_other:
  "(\<And>r. P r \<Longrightarrow> Q (f r) = Q r) \<Longrightarrow> (\<And>r. P r \<Longrightarrow> Q r \<Longrightarrow> f r = r) \<Longrightarrow>
     filter Q (update_rows P f rs) = filter Q rs"
  by (induction rs) auto

lemma map_update_rows [simp]:
  "(\<And>r. P r \<Longrightarrow> g (f r) = g r) \<Longrightarrow> map g (update_rows P f rs) = map g rs"
  by (induction rs) auto

lemma find_SomeD:
  "List.find P xs = Some x \<Longrightarrow> x \<in> set xs \<and> P x"
  by (auto simp: find_Some_iff)

lemma find_NoneD:
  "List.find P xs = None \<Longrightarrow> x \<in> set xs \<Longrightarrow> \<not> P x"
  by (auto simp: find_None_iff)

lemma find_append:
  "List.find P (xs @ ys) = (case List.find P xs of Some x \<Rightarrow> Some x | None \<Rightarrow> List.find P ys)"
  by (induction xs) auto

lemma length_filter_eq_iff: "length (filter P xs) = length xs \<longleftrightarrow> (\<forall>x \<in> set xs. P x)"
proof (induction xs)
  case (Cons x xs)
  have "length (filter P xs) \<noteq> Suc (length xs)" using length_filter_le [of P xs] by linarith
  with Cons show ?case by auto
qed simp

text \<open>A primary key: a projection that is distinct over the rows.\<close>

lemma distinct_key_unique:
  "distinct (map k rs) \<Longrightarrow> r \<in> set rs \<Longrightarrow> q \<in> set rs \<Longrightarrow> k r = k q \<Longrightarrow> r = q"
  by (auto simp: distinct_map inj_on_def)

lemma distinct_key_snoc:
  "distinct (map k (rs @ [r])) \<longleftrightarrow> distinct (map k rs) \<and> (\<forall>q \<in> set rs. k q \<noteq> k r)"
  by (auto simp: image_iff)

lemma find_key_SomeI:
  "distinct (map k rs) \<Longrightarrow> r \<in> set rs \<Longrightarrow> List.find (\<lambda>q. k q = k r) rs = Some r"
proof (induction rs)
  case (Cons q rs)
  then show ?case by (cases "k q = k r") force+
qed simp

text \<open>A partial unique index over the rows that satisfy a condition.\<close>

definition unique_where :: "('r \<Rightarrow> bool) \<Rightarrow> ('r \<Rightarrow> 'k) \<Rightarrow> 'r list \<Rightarrow> bool" where
  "unique_where P k rs \<longleftrightarrow> distinct (map k (filter P rs))"

lemma unique_where_Nil [simp]: "unique_where P k []"
  by (simp add: unique_where_def)

lemma unique_where_snoc:
  "unique_where P k (rs @ [r]) \<longleftrightarrow>
     unique_where P k rs \<and> (P r \<longrightarrow> (\<forall>q \<in> set rs. P q \<longrightarrow> k q \<noteq> k r))"
  by (auto simp: unique_where_def image_iff)

lemma unique_whereD:
  "unique_where P k rs \<Longrightarrow> r \<in> set rs \<Longrightarrow> q \<in> set rs \<Longrightarrow> P r \<Longrightarrow> P q \<Longrightarrow> k r = k q \<Longrightarrow> r = q"
  by (auto simp: unique_where_def distinct_map inj_on_def)

text \<open>An update that keeps the key and never puts a row under the index keeps the index.\<close>

lemma unique_where_update:
  assumes "unique_where P k rs"
    and "\<And>r. r \<in> set rs \<Longrightarrow> Q r \<Longrightarrow> P (f r) \<Longrightarrow> P r \<and> k (f r) = k r"
  shows "unique_where P k (update_rows Q f rs)"
  using assms
proof (induction rs)
  case Nil
  then show ?case by simp
next
  case (Cons r rs)
  have tail: "unique_where P k rs"
    using Cons.prems(1) by (auto simp: unique_where_def split: if_splits)
  have IH: "unique_where P k (update_rows Q f rs)"
    using Cons.IH [OF tail] Cons.prems(2) by simp
  have fresh: "k q \<noteq> k r" if "P r" "q \<in> set rs" "P q" for q
    using Cons.prems(1) that by (auto simp: unique_where_def image_iff)
  have "k q \<noteq> k r'" if a: "r' = (if Q r then f r else r)" "P r'" and b: "q \<in> set (update_rows Q f rs)" "P q" for q r'
  proof -
    obtain p where p: "p \<in> set rs" "q = (if Q p then f p else p)"
      using b(1) by (auto simp: in_set_update_rows_if)
    have "P p \<and> k q = k p"
      using p b(2) Cons.prems(2) [of p] by (auto split: if_splits)
    moreover have "P r \<and> k r' = k r"
      using a Cons.prems(2) [of r] by (auto split: if_splits)
    ultimately show ?thesis using fresh p(1) by simp
  qed
  from this [OF refl] IH show ?case
    by (cases "P (if Q r then f r else r)") (force simp: unique_where_def image_iff)+
qed

end
