(* ===== verification/Codec.thy ===== *)
theory Codec
  imports Prelude "HOL-Library.Word"
begin

text \<open>
  The byte-level encodings of the Go standard library that the program relies on: big-endian
  integers and the length-prefixed fields built from them (\<^verbatim>\<open>encoding/binary\<close>), splitting of
  strings (\<^verbatim>\<open>strings.Split\<close>) and unpadded base64 (\<^verbatim>\<open>base64.RawURLEncoding\<close>).

  The locale \<open>framed\<close> states what a self-delimiting encoding promises: the value and the rest of
  the stream can be recovered from their concatenation. It is interpreted on the three encoders
  that the canonical payloads of the audit log and of the consent ledger are written with.
\<close>

section \<open>Big-endian integers\<close>

fun be_bytes :: "nat \<Rightarrow> nat \<Rightarrow> bytes" where
  "be_bytes 0 v = []"
| "be_bytes (Suc k) v = be_bytes k (v div 256) @ [char_of (v mod 256)]"

fun be_value :: "bytes \<Rightarrow> nat" where
  "be_value [] = 0"
| "be_value (c # cs) = of_char c * 256 ^ length cs + be_value cs"

lemma length_be_bytes [simp]: "length (be_bytes k v) = k"
  by (induction k arbitrary: v) auto

lemma be_value_append: "be_value (xs @ ys) = be_value xs * 256 ^ length ys + be_value ys"
  by (induction xs) (auto simp: algebra_simps power_add)

lemma be_value_be_bytes [simp]: "be_value (be_bytes k v) = v mod 256 ^ k"
proof (induction k arbitrary: v)
  case (Suc k)
  have "be_value (be_bytes (Suc k) v) = (v div 256 mod 256 ^ k) * 256 + v mod 256"
    using Suc [of "v div 256"] by (simp add: be_value_append of_char_mod_256)
  then show ?case by (simp add: mod_mult2_eq mult.commute)
qed simp

definition putUint32 :: "32 word \<Rightarrow> bytes" where
  "putUint32 n = be_bytes 4 (unat n)"

definition putUint64 :: "64 word \<Rightarrow> bytes" where
  "putUint64 n = be_bytes 8 (unat n)"

text \<open>\<^verbatim>\<open>putField\<close>: the length as a (wrapping) 32-bit integer, then the bytes.\<close>

definition putField :: "bytes \<Rightarrow> bytes" where
  "putField p = putUint32 (word_of_nat (length p)) @ p"

definition putBool :: "bool \<Rightarrow> bytes" where
  "putBool g = (if g then [CHR 0x01] else [CHR 0x00])"

lemma length_putUint [simp]: "length (putUint32 n) = 4" "length (putUint64 m) = 8"
  by (simp_all add: putUint32_def putUint64_def)

lemma be_value_putUint [simp]: "be_value (putUint32 n) = unat n" "be_value (putUint64 m) = unat m"
proof -
  have "unat n < 2 ^ LENGTH(32)" "unat m < 2 ^ LENGTH(64)" by (rule unsigned_less)+
  then show "be_value (putUint32 n) = unat n" "be_value (putUint64 m) = unat m"
    by (simp_all add: putUint32_def putUint64_def)
qed

section \<open>Self-delimiting encodings\<close>

locale framed =
  fixes enc :: "'a \<Rightarrow> bytes" and ok :: "'a \<Rightarrow> bool"
  assumes unframe: "\<lbrakk>ok x; ok y; enc x @ r = enc y @ s\<rbrakk> \<Longrightarrow> x = y \<and> r = s"
begin

lemma frame_eq_iff: "\<lbrakk>ok x; ok y\<rbrakk> \<Longrightarrow> enc x @ r = enc y @ s \<longleftrightarrow> x = y \<and> r = s"
  using unframe by blast

lemma enc_inj: "inj_on enc {x. ok x}"
proof (rule inj_onI)
  fix x y assume "x \<in> {x. ok x}" "y \<in> {x. ok x}" "enc x = enc y"
  then show "x = y" using unframe [of x y "[]" "[]"] by simp
qed

lemma concat_frames_inj:
  "\<lbrakk>list_all ok xs; list_all ok ys; length xs = length ys; concat (map enc xs) = concat (map enc ys)\<rbrakk>
   \<Longrightarrow> xs = ys"
proof (induction xs arbitrary: ys)
  case (Cons x xs)
  then obtain y zs where "ys = y # zs" by (cases ys) auto
  with Cons show ?case using unframe [of x y] by auto
qed simp

end

lemma append_same_length_eq:
  "length (f x) = length (f y) \<Longrightarrow> f x @ r = f y @ s \<longleftrightarrow> f x = f y \<and> r = s"
  by simp

interpretation u32: framed putUint32 "\<lambda>_. True"
proof
  fix x y :: "32 word" and r s
  assume "putUint32 x @ r = putUint32 y @ s"
  then have "putUint32 x = putUint32 y" "r = s" by auto
  moreover from this(1) have "unat x = unat y" by (metis be_value_putUint(1))
  ultimately show "x = y \<and> r = s" by (simp add: word_unat_eq_iff)
qed

interpretation u64: framed putUint64 "\<lambda>_. True"
proof
  fix x y :: "64 word" and r s
  assume "putUint64 x @ r = putUint64 y @ s"
  then have "putUint64 x = putUint64 y" "r = s" by auto
  moreover from this(1) have "unat x = unat y" by (metis be_value_putUint(2))
  ultimately show "x = y \<and> r = s" by (simp add: word_unat_eq_iff)
qed

text \<open>A field is self-delimiting as long as its length fits the 32-bit prefix.\<close>

abbreviation fits32 :: "bytes \<Rightarrow> bool" where
  "fits32 p \<equiv> length p < 2 ^ 32"

interpretation field: framed putField fits32
proof
  fix x y r s :: bytes
  assume fits: "fits32 x" "fits32 y" and eq: "putField x @ r = putField y @ s"
  then have len: "(word_of_nat (length x) :: 32 word) = word_of_nat (length y)" and rest: "x @ r = y @ s"
    using u32.unframe [OF TrueI TrueI, of "word_of_nat (length x)" "x @ r" "word_of_nat (length y)" "y @ s"]
    by (simp_all add: putField_def)
  from arg_cong [where f = unat, OF len] fits have "length x = length y"
    by (simp add: unat_of_nat take_bit_nat_eq_self)
  with rest show "x = y \<and> r = s" by simp
qed

interpretation flag: framed putBool "\<lambda>_. True"
  by unfold_locales (auto simp: putBool_def split: if_splits)

lemmas frame_eqs = u32.frame_eq_iff [OF TrueI TrueI] u64.frame_eq_iff [OF TrueI TrueI]
  flag.frame_eq_iff [OF TrueI TrueI] field.frame_eq_iff


section \<open>Splitting strings\<close>

text \<open>\<^verbatim>\<open>strings.Split(s, sep)\<close> for a one-byte separator: always at least one part.\<close>

fun split_on :: "char \<Rightarrow> string \<Rightarrow> string list" where
  "split_on c [] = [[]]"
| "split_on c (x # xs) =
     (if x = c then [] # split_on c xs
      else case split_on c xs of p # ps \<Rightarrow> (x # p) # ps | [] \<Rightarrow> [[x]])"

fun join_with :: "char \<Rightarrow> string list \<Rightarrow> string" where
  "join_with c [] = []"
| "join_with c [p] = p"
| "join_with c (p # q # ps) = p @ c # join_with c (q # ps)"

lemma split_on_not_Nil [simp]: "split_on c s \<noteq> []"
  by (induction s) (auto split: list.splits)

lemma split_on_no_sep: "c \<notin> set p \<Longrightarrow> split_on c p = [p]"
  by (induction p) auto

lemma split_on_append:
  "c \<notin> set p \<Longrightarrow> split_on c (p @ c # s) = p # split_on c s"
  by (induction p) auto

lemma split_join:
  "ps \<noteq> [] \<Longrightarrow> (\<forall>p \<in> set ps. c \<notin> set p) \<Longrightarrow> split_on c (join_with c ps) = ps"
  by (induction c ps rule: join_with.induct) (auto simp: split_on_no_sep split_on_append)

lemma join_split: "join_with c (split_on c s) = s"
proof (induction s)
  case (Cons x xs)
  then show ?case
    by (cases "split_on c xs"; cases "tl (split_on c xs)") auto
qed simp

section \<open>Unpadded base64\<close>

text \<open>\<^verbatim>\<open>base64.RawURLEncoding\<close>. The decoder skips carriage returns and newlines, rejects any
  other byte outside the alphabet (padding included) and a final group of one character, and
  does not look at the unused low bits of the last character, as Go's non-strict decoder does.\<close>

definition b64_alphabet :: string where
  "b64_alphabet = ''ABCDEFGHIJKLMNOPQRSTUVWXYZabcdefghijklmnopqrstuvwxyz0123456789-_''"

definition b64_char :: "nat \<Rightarrow> char" where
  "b64_char n = b64_alphabet ! n"

fun index_of :: "char \<Rightarrow> string \<Rightarrow> nat option" where
  "index_of c [] = None"
| "index_of c (x # xs) = (if x = c then Some 0 else map_option Suc (index_of c xs))"

definition b64_val :: "char \<Rightarrow> nat option" where
  "b64_val c = index_of c b64_alphabet"

fun EncodeToString :: "bytes \<Rightarrow> string" where
  "EncodeToString [] = []"
| "EncodeToString [a] =
     (let n = of_char a * 65536 :: nat in [b64_char (n div 262144), b64_char (n div 4096 mod 64)])"
| "EncodeToString [a, b] =
     (let n = of_char a * 65536 + of_char b * 256 :: nat
      in [b64_char (n div 262144), b64_char (n div 4096 mod 64), b64_char (n div 64 mod 64)])"
| "EncodeToString (a # b # c # rest) =
     (let n = of_char a * 65536 + of_char b * 256 + of_char c :: nat
      in b64_char (n div 262144) # b64_char (n div 4096 mod 64) # b64_char (n div 64 mod 64)
         # b64_char (n mod 64) # EncodeToString rest)"

fun b64_groups :: "nat list \<Rightarrow> bytes option" where
  "b64_groups [] = Some []"
| "b64_groups [x] = None"
| "b64_groups [x, y] = Some [char_of ((x * 64 + y) div 16 :: nat)]"
| "b64_groups [x, y, z] =
     (let n = x * 4096 + y * 64 + z :: nat in Some [char_of (n div 1024), char_of (n div 4 mod 256)])"
| "b64_groups (x # y # z # w # rest) =
     (let n = x * 262144 + y * 4096 + z * 64 + w :: nat
      in map_option (\<lambda>r. char_of (n div 65536) # char_of (n div 256 mod 256) # char_of (n mod 256) # r)
           (b64_groups rest))"

definition DecodeString :: "string \<Rightarrow> bytes option" where
  "DecodeString s =
     (let vs = map b64_val (filter (\<lambda>c. c \<noteq> CHR 0x0D \<and> c \<noteq> CHR 0x0A) s)
      in if None \<in> set vs then None else b64_groups (map the vs))"

lemma b64_val_char [simp]:
  assumes "n < 64" shows "b64_val (b64_char n) = Some n"
proof -
  have "\<forall>n \<in> set [0..<64]. b64_val (b64_char n) = Some n"
    by (simp add: b64_val_def b64_char_def b64_alphabet_def upt_rec)
  then show ?thesis using assms by simp
qed

lemma b64_char_not_special:
  assumes "n < 64"
  shows "b64_char n \<noteq> CHR 0x0D" "b64_char n \<noteq> CHR 0x0A" "b64_char n \<noteq> CHR ''.''"
proof -
  have "\<forall>n \<in> set [0..<64]. b64_char n \<noteq> CHR 0x0D \<and> b64_char n \<noteq> CHR 0x0A \<and> b64_char n \<noteq> CHR ''.''"
    by (simp add: b64_char_def b64_alphabet_def upt_rec)
  then show "b64_char n \<noteq> CHR 0x0D" "b64_char n \<noteq> CHR 0x0A" "b64_char n \<noteq> CHR ''.''"
    using assms by simp_all
qed


fun sextets :: "bytes \<Rightarrow> nat list" where
  "sextets [] = []"
| "sextets [a] = (let n = of_char a * 65536 in [n div 262144, n div 4096 mod 64])"
| "sextets [a, b] =
     (let n = of_char a * 65536 + of_char b * 256 in [n div 262144, n div 4096 mod 64, n div 64 mod 64])"
| "sextets (a # b # c # rest) =
     (let n = of_char a * 65536 + of_char b * 256 + of_char c
      in n div 262144 # n div 4096 mod 64 # n div 64 mod 64 # n mod 64 # sextets rest)"

lemma of_char_less [simp]: "(of_char c :: nat) < 256"
  using of_char_mod_256 [of c, where ?'a = nat] by (metis mod_less_divisor zero_less_numeral)

lemma Encode_sextets: "EncodeToString x = map b64_char (sextets x)"
  by (induction x rule: sextets.induct) (simp_all add: Let_def)

lemma sextets_less: "\<forall>v \<in> set (sextets x). v < 64"
proof (induction x rule: sextets.induct)
  case (4 a b c rest)
  have "(of_char a * 65536 + of_char b * 256 + of_char c) div 262144 < (64::nat)"
    using of_char_less [of a] of_char_less [of b] of_char_less [of c] by linarith
  with 4 show ?case by (simp add: Let_def)
next
  case (3 a b)
  have "(of_char a * 65536 + of_char b * 256) div 262144 < (64::nat)"
    using of_char_less [of a] of_char_less [of b] by linarith
  then show ?case by (simp add: Let_def)
next
  case (2 a)
  have "(of_char a * 65536) div 262144 < (64::nat)"
    using of_char_less [of a] by linarith
  then show ?case by (simp add: Let_def)
qed simp

lemma Decode_b64_chars:
  assumes "\<forall>v \<in> set vs. v < 64"
  shows "DecodeString (map b64_char vs) = b64_groups vs"
proof -
  have "filter (\<lambda>c. c \<noteq> CHR 0x0D \<and> c \<noteq> CHR 0x0A) (map b64_char vs) = map b64_char vs"
    using assms by (simp add: b64_char_not_special filter_id_conv)
  moreover have "map b64_val (map b64_char vs) = map Some vs"
    using assms by simp
  moreover have "map the (map Some vs) = vs" by (simp add: comp_def)
  ultimately show ?thesis by (auto simp: DecodeString_def Let_def simp del: map_map)
qed

lemma split_bytes3:
  assumes "a < 256" "b < 256" "c < (256::nat)" and n: "n = a * 65536 + b * 256 + c"
  shows "n div 262144 * 262144 + (n div 4096 mod 64) * 4096 + (n div 64 mod 64) * 64 + n mod 64 = n"
    and "n div 65536 = a" and "n div 256 mod 256 = b" and "n mod 256 = c"
proof -
  have d: "n div 4096 = n div 64 div 64" "n div 262144 = n div 64 div 64 div 64"
    by (simp_all add: div_mult2_eq [symmetric])
  show "n div 262144 * 262144 + (n div 4096 mod 64) * 4096 + (n div 64 mod 64) * 64 + n mod 64 = n"
    unfolding d
    using div_mult_mod_eq [of n 64] div_mult_mod_eq [of "n div 64" 64] div_mult_mod_eq [of "n div 64 div 64" 64]
    by linarith
  have "n div 256 = a * 256 + b" using assms by simp
  moreover have "n div 65536 = n div 256 div 256" by (simp add: div_mult2_eq [symmetric])
  ultimately show "n div 65536 = a" "n div 256 mod 256 = b" using assms by simp_all
  show "n mod 256 = c" using assms by (simp add: mod_add_eq [symmetric] mod_mult_right_eq)
qed

lemma split_bytes2:
  assumes "a < 256" "b < (256::nat)" and n: "n = a * 65536 + b * 256"
  shows "(n div 262144 * 4096 + n div 4096 mod 64 * 64 + n div 64 mod 64) div 1024 = a"
    and "(n div 262144 * 4096 + n div 4096 mod 64 * 64 + n div 64 mod 64) div 4 mod 256 = b"
proof -
  have d: "n div 4096 = n div 64 div 64" "n div 262144 = n div 64 div 64 div 64"
    by (simp_all add: div_mult2_eq [symmetric])
  have "n div 64 = a * 1024 + b * 4" using n by simp
  then have "n div 262144 * 4096 + n div 4096 mod 64 * 64 + n div 64 mod 64 = a * 1024 + b * 4"
    unfolding d using div_mult_mod_eq [of "n div 64" 64] div_mult_mod_eq [of "n div 64 div 64" 64]
    by linarith
  then show "(n div 262144 * 4096 + n div 4096 mod 64 * 64 + n div 64 mod 64) div 1024 = a"
    and "(n div 262144 * 4096 + n div 4096 mod 64 * 64 + n div 64 mod 64) div 4 mod 256 = b"
    using assms by simp_all
qed

lemma split_bytes1:
  assumes "a < (256::nat)"
  shows "(a * 65536 div 262144 * 64 + a * 65536 div 4096 mod 64) div 16 = a"
proof -
  have "a * 65536 div 262144 = a * 16 div 64" "a * 65536 div 4096 = a * 16" by simp_all
  then have "a * 65536 div 262144 * 64 + a * 65536 div 4096 mod 64 = a * 16"
    using div_mult_mod_eq [of "a * 16" 64] by (simp only:)
  then show ?thesis by simp
qed

lemma b64_groups_sextets: "b64_groups (sextets x) = Some x"
proof (induction x rule: sextets.induct)
  case (4 a b c rest)
  note n = split_bytes3 [OF of_char_less of_char_less of_char_less refl, of a b c]
  show ?case
    using 4 n(1,2) arg_cong [OF n(3), where f = char_of] arg_cong [OF n(4), where f = char_of]
    by (simp add: Let_def)
next
  case (3 a b)
  note n = split_bytes2 [OF of_char_less of_char_less refl, of a b]
  show ?case
    using n(1) arg_cong [OF n(2), where f = char_of] by (simp add: Let_def)
next
  case (2 a)
  then show ?case using split_bytes1 [OF of_char_less, of a] by (simp add: Let_def)
qed simp

text \<open>Decoding what was encoded gives the bytes back, and an encoding contains no dot: the three
  parts of a token can be told apart.\<close>

lemma Decode_Encode [simp]: "DecodeString (EncodeToString x) = Some x"
  by (simp add: Encode_sextets Decode_b64_chars sextets_less b64_groups_sextets)

lemma Encode_no_dot [simp]: "CHR ''.'' \<notin> set (EncodeToString x)"
  using sextets_less [of x] b64_char_not_special(3) by (fastforce simp: Encode_sextets)

end
