(* ===== verification/Contracts.thy ===== *)
theory Contracts
  imports Codec
begin

text \<open>
  \<^verbatim>\<open>pkg/contracts\<close>: the frozen data contracts of the platform. Token claims and their tier
  predicates, the video grant of a room scope, and the canonical byte encodings of audit entries
  and consent records, with the proof that the encodings are injective.

  String-valued Go types (actions, purposes, verification states) stay strings: the Go values
  come from the wire and may be anything.
\<close>

section \<open>Access-token claims\<close>

abbreviation AccessTokenSchemaVersion :: int where "AccessTokenSchemaVersion \<equiv> 1"
abbreviation TokenIssuer :: string where "TokenIssuer \<equiv> ''auth.platform''"
abbreviation TokenAlg :: string where "TokenAlg \<equiv> ''EdDSA''"
abbreviation TokenTyp :: string where "TokenTyp \<equiv> ''JWT''"

abbreviation IdentityVerified :: string where "IdentityVerified \<equiv> ''verified''"
abbreviation IdentityPhoneVerified :: string where "IdentityPhoneVerified \<equiv> ''phone_verified''"
abbreviation IdentityDeclared :: string where "IdentityDeclared \<equiv> ''declared''"
abbreviation IdentityPending :: string where "IdentityPending \<equiv> ''pending''"
abbreviation IdentityNone :: string where "IdentityNone \<equiv> ''none''"

abbreviation CurrentToSVersion :: string where "CurrentToSVersion \<equiv> ''2025-06-01''"

abbreviation CapCanInstruct :: string where "CapCanInstruct \<equiv> ''can_instruct''"
abbreviation CapPlatformModerator :: string where "CapPlatformModerator \<equiv> ''platform_moderator''"

record AccessTokenClaims =
  Issuer :: string
  Subject :: string
  IssuedAt :: int
  ExpiresAt :: int
  TokenID :: string
  ClaimSchema :: int
  TokenVersion :: int
  IdentityVerification :: string
  Capabilities :: "string list"

definition IsVerifiedAdult :: "AccessTokenClaims \<Rightarrow> bool" where
  "IsVerifiedAdult c = (IdentityVerification c = IdentityVerified)"

definition MeetsPhoneVerification :: "AccessTokenClaims \<Rightarrow> bool" where
  "MeetsPhoneVerification c =
     (IdentityVerification c = IdentityVerified \<or> IdentityVerification c = IdentityPhoneVerified)"

definition MeetsAdultDeclaration :: "AccessTokenClaims \<Rightarrow> bool" where
  "MeetsAdultDeclaration c =
     (IdentityVerification c = IdentityVerified \<or> IdentityVerification c = IdentityPhoneVerified
      \<or> IdentityVerification c = IdentityDeclared)"

fun has_cap :: "string list \<Rightarrow> string \<Rightarrow> bool" where
  "has_cap [] c = False"
| "has_cap (have_c # rest) c = (if have_c = c then True else has_cap rest c)"

definition HasCapability :: "AccessTokenClaims \<Rightarrow> string \<Rightarrow> bool" where
  "HasCapability c cap = has_cap (Capabilities c) cap"

lemma has_cap_iff [simp]: "has_cap cs c \<longleftrightarrow> c \<in> set cs"
  by (induction cs) auto

section \<open>Video grants\<close>

datatype GrantScope = ScopeSubscriber | ScopePublisher | ScopeAdmin

record VideoGrant =
  RoomJoin :: bool
  Room :: string
  CanSubscribe :: bool
  CanPublish :: bool
  CanPublishData :: bool

definition VideoGrantForScope :: "GrantScope \<Rightarrow> string \<Rightarrow> VideoGrant" where
  "VideoGrantForScope scope sessionRoom =
     (let g = \<lparr>RoomJoin = True, Room = sessionRoom, CanSubscribe = True,
               CanPublish = False, CanPublishData = False\<rparr>
      in case scope of
           ScopePublisher \<Rightarrow> g\<lparr>CanPublish := True, CanPublishData := True\<rparr>
         | ScopeAdmin \<Rightarrow> g\<lparr>CanPublish := True, CanPublishData := True\<rparr>
         | ScopeSubscriber \<Rightarrow> g)"

section \<open>Routing subjects\<close>

definition ChatMessageSubject :: "string \<Rightarrow> string" where
  "ChatMessageSubject conversationID = ''chat.conversation.'' @ conversationID @ ''.message''"

definition ChatPresenceSubject :: "string \<Rightarrow> string" where
  "ChatPresenceSubject conversationID = ''chat.conversation.'' @ conversationID @ ''.presence''"

section \<open>Audit entries\<close>

abbreviation AuditSchemaVersion :: int where "AuditSchemaVersion \<equiv> 1"
abbreviation AuditHashLen :: nat where "AuditHashLen \<equiv> 32"

abbreviation ActionUserSuspended :: string where "ActionUserSuspended \<equiv> ''user.suspended''"
abbreviation ActionUserReinstated :: string where "ActionUserReinstated \<equiv> ''user.reinstated''"
abbreviation ActionInstructorGranted :: string where "ActionInstructorGranted \<equiv> ''instructor.granted''"
abbreviation ActionInstructorRevoked :: string where "ActionInstructorRevoked \<equiv> ''instructor.revoked''"
abbreviation ActionInstructorSelfGrant :: string where
  "ActionInstructorSelfGrant \<equiv> ''instructor.self_granted''"
abbreviation ActionPresenceCheckpoint :: string where "ActionPresenceCheckpoint \<equiv> ''presence.checkpoint''"
abbreviation ActionRecordingPlayed :: string where "ActionRecordingPlayed \<equiv> ''recording.played''"
abbreviation ActionEntitlementGranted :: string where "ActionEntitlementGranted \<equiv> ''entitlement.granted''"
abbreviation ActionEntitlementRevoked :: string where "ActionEntitlementRevoked \<equiv> ''entitlement.revoked''"

abbreviation AuditRoleModerator :: string where "AuditRoleModerator \<equiv> ''platform_moderator''"
abbreviation AuditRoleSelf :: string where "AuditRoleSelf \<equiv> ''self''"
abbreviation AuditRoleSystem :: string where "AuditRoleSystem \<equiv> ''system''"

record AuditEntry =
  ae_SchemaVersion :: int
  ae_Seq :: int
  ae_OccurredAt :: int
  ae_ActorID :: string
  ae_ActorRole :: string
  ae_Action :: string
  ae_TargetType :: string
  ae_TargetID :: string
  ae_Metadata :: bytes
  ae_PrevHash :: bytes
  ae_EntryHash :: bytes
  ae_SigningKeyID :: string
  ae_Signature :: bytes

text \<open>The conversions \<^verbatim>\<open>uint32(e.SchemaVersion)\<close> and \<^verbatim>\<open>uint64(e.OccurredAt)\<close> truncate.\<close>

definition AuditSignedPayload :: "AuditEntry \<Rightarrow> bytes" where
  "AuditSignedPayload e =
     putUint32 (word_of_int (ae_SchemaVersion e))
     @ putUint64 (word_of_int (ae_OccurredAt e))
     @ putField (ae_ActorID e)
     @ putField (ae_ActorRole e)
     @ putField (ae_Action e)
     @ putField (ae_TargetType e)
     @ putField (ae_TargetID e)
     @ putField (ae_Metadata e)
     @ putField (ae_PrevHash e)
     @ putField (ae_SigningKeyID e)"

section \<open>Consent records\<close>

abbreviation ConsentSchemaVersion :: int where "ConsentSchemaVersion \<equiv> 1"
abbreviation ConsentPurposeSessionRecording :: string where
  "ConsentPurposeSessionRecording \<equiv> ''session_recording''"

record ConsentRecord =
  cr_SchemaVersion :: int
  cr_ID :: string
  cr_PrevHash :: bytes
  cr_SessionID :: string
  cr_SubjectID :: string
  cr_Purpose :: string
  cr_Granted :: bool
  cr_GrantedAt :: int
  cr_SigningKeyID :: string
  cr_Signature :: bytes

definition ConsentSignedPayload :: "ConsentRecord \<Rightarrow> bytes" where
  "ConsentSignedPayload c =
     putUint32 (word_of_int (cr_SchemaVersion c))
     @ putField (cr_ID c)
     @ putField (cr_PrevHash c)
     @ putField (cr_SessionID c)
     @ putField (cr_SubjectID c)
     @ putField (cr_Purpose c)
     @ putBool (cr_Granted c)
     @ putUint64 (word_of_int (cr_GrantedAt c))
     @ putField (cr_SigningKeyID c)"

definition ConsentHash :: "(bytes \<Rightarrow> bytes) \<Rightarrow> ConsentRecord \<Rightarrow> bytes" where
  "ConsentHash H c = H (ConsentSignedPayload c)"

section \<open>The encodings are injective\<close>

text \<open>The machine ranges the Go types impose on the encoded fields: lengths below \<open>2 ^ 32\<close>, a
  64-bit time and a 32-bit schema version.\<close>

definition int_fits :: "nat \<Rightarrow> int \<Rightarrow> bool" where
  "int_fits w i \<longleftrightarrow> - (2 ^ (w - 1)) \<le> i \<and> i < 2 ^ (w - 1)"

definition audit_wf :: "AuditEntry \<Rightarrow> bool" where
  "audit_wf e \<longleftrightarrow> int_fits 32 (ae_SchemaVersion e) \<and> int_fits 64 (ae_OccurredAt e)
     \<and> list_all fits32 [ae_ActorID e, ae_ActorRole e, ae_Action e, ae_TargetType e, ae_TargetID e,
                        ae_Metadata e, ae_PrevHash e, ae_SigningKeyID e]"

definition consent_wf :: "ConsentRecord \<Rightarrow> bool" where
  "consent_wf c \<longleftrightarrow> int_fits 32 (cr_SchemaVersion c) \<and> int_fits 64 (cr_GrantedAt c)
     \<and> list_all fits32 [cr_ID c, cr_PrevHash c, cr_SessionID c, cr_SubjectID c, cr_Purpose c,
                        cr_SigningKeyID c]"

text \<open>Everything an audit entry signs: all fields but the sequence number, the hash itself and
  the signature.\<close>

definition audit_content :: "AuditEntry \<Rightarrow> AuditEntry" where
  "audit_content e = e\<lparr>ae_Seq := 0, ae_EntryHash := [], ae_Signature := []\<rparr>"

definition consent_content :: "ConsentRecord \<Rightarrow> ConsentRecord" where
  "consent_content c = c\<lparr>cr_Signature := []\<rparr>"

lemma word_of_int_32_eq:
  assumes "int_fits 32 i" "int_fits 32 j"
  shows "(word_of_int i :: 32 word) = word_of_int j \<longleftrightarrow> i = j"
proof -
  have "sint (word_of_int k :: 32 word) = k" if "int_fits 32 k" for k
    using that by (simp add: int_fits_def signed_of_int signed_take_bit_int_eq_self)
  then show ?thesis using assms by metis
qed

lemma word_of_int_64_eq:
  assumes "int_fits 64 i" "int_fits 64 j"
  shows "(word_of_int i :: 64 word) = word_of_int j \<longleftrightarrow> i = j"
proof -
  have "sint (word_of_int k :: 64 word) = k" if "int_fits 64 k" for k
    using that by (simp add: int_fits_def signed_of_int signed_take_bit_int_eq_self)
  then show ?thesis using assms by metis
qed

lemmas payload_eqs = frame_eqs word_of_int_32_eq word_of_int_64_eq

lemma AuditSignedPayload_inj:
  assumes "audit_wf e" "audit_wf e'" and "AuditSignedPayload e = AuditSignedPayload e'"
  shows "audit_content e = audit_content e'"
proof -
  have last: "putField p = putField q \<longleftrightarrow> p = q" if "fits32 p" "fits32 q" for p q
    using field.frame_eq_iff [OF that, of "[]" "[]"] by simp
  show ?thesis
    using assms unfolding AuditSignedPayload_def audit_wf_def
    by (simp add: payload_eqs last audit_content_def)
qed

lemma ConsentSignedPayload_inj:
  assumes "consent_wf c" "consent_wf c'" and "ConsentSignedPayload c = ConsentSignedPayload c'"
  shows "consent_content c = consent_content c'"
proof -
  have last: "putField p = putField q \<longleftrightarrow> p = q" if "fits32 p" "fits32 q" for p q
    using field.frame_eq_iff [OF that, of "[]" "[]"] by simp
  show ?thesis
    using assms unfolding ConsentSignedPayload_def consent_wf_def
    by (simp add: payload_eqs last consent_content_def)
qed

end
