(* ===== verification/Ledger.thy ===== *)
theory Ledger
  imports Prelude
begin

text \<open>
  Hash-chained ledgers. Both the audit log and the consent ledger are lists of entries in which
  every entry carries the hash of its predecessor. The locale \<open>ledger\<close> collects what the two
  record types promise (an injective payload that includes the previous hash, a digest that is
  the hash of the payload for every entry that passes its checks) and derives what chaining
  gives: appending to the tail keeps a chain valid, every prefix of a valid chain is valid, and
  the tail hash binds the whole history.
\<close>

fun linked :: "('e \<Rightarrow> bytes) \<Rightarrow> ('e \<Rightarrow> bytes) \<Rightarrow> ('e \<Rightarrow> bool) \<Rightarrow> bytes \<Rightarrow> 'e list \<Rightarrow> bool" where
  "linked prev digest good h [] = True"
| "linked prev digest good h (e # es) = (prev e = h \<and> good e \<and> linked prev digest good (digest e) es)"

definition tail_hash :: "('e \<Rightarrow> bytes) \<Rightarrow> bytes \<Rightarrow> 'e list \<Rightarrow> bytes" where
  "tail_hash digest h es = (if es = [] then h else digest (last es))"

lemma tail_hash_Nil [simp]: "tail_hash digest h [] = h"
  by (simp add: tail_hash_def)

lemma tail_hash_snoc [simp]: "tail_hash digest h (es @ [e]) = digest e"
  by (simp add: tail_hash_def)

lemma tail_hash_Cons: "tail_hash digest h (e # es) = tail_hash digest (digest e) es"
  by (simp add: tail_hash_def)

lemma linked_append:
  "linked prev digest good h (es @ fs) \<longleftrightarrow>
     linked prev digest good h es \<and> linked prev digest good (tail_hash digest h es) fs"
  by (induction es arbitrary: h) (auto simp: tail_hash_Cons)

lemma linked_snoc:
  "linked prev digest good h (es @ [e]) \<longleftrightarrow>
     linked prev digest good h es \<and> prev e = tail_hash digest h es \<and> good e"
  by (simp add: linked_append)

lemma linked_good: "linked prev digest good h es \<Longrightarrow> e \<in> set es \<Longrightarrow> good e"
  by (induction es arbitrary: h) auto

lemma linked_map:
  "(\<And>e. e \<in> set es \<Longrightarrow> prev (f e) = prev' e \<and> digest (f e) = digest' e \<and> good (f e) = good' e) \<Longrightarrow>
     linked prev digest good h (map f es) = linked prev' digest' good' h es"
  by (induction es arbitrary: h) auto

locale ledger =
  fixes prev :: "'e \<Rightarrow> bytes" and digest :: "'e \<Rightarrow> bytes" and good :: "'e \<Rightarrow> bool"
    and payload :: "'e \<Rightarrow> bytes" and H :: "bytes \<Rightarrow> bytes"
    and wf :: "'e \<Rightarrow> bool" and content :: "'e \<Rightarrow> 'c"
  assumes payload_inj: "\<lbrakk>wf e; wf f; payload e = payload f\<rbrakk> \<Longrightarrow> content e = content f"
    and content_prev: "content e = content f \<Longrightarrow> prev e = prev f"
    and good_digest: "good e \<Longrightarrow> digest e = H (payload e)"
begin

abbreviation valid :: "bytes \<Rightarrow> 'e list \<Rightarrow> bool" where
  "valid g es \<equiv> linked prev digest good g es"

lemma valid_prefix: "valid g (es @ fs) \<Longrightarrow> valid g es"
  by (simp add: linked_append)

lemma same_digest:
  assumes "good e" "good f" "wf e" "wf f" and "inj_on H {payload e, payload f}"
    and "digest e = digest f"
  shows "content e = content f"
proof (rule payload_inj [OF assms(3,4)])
  have "H (payload e) = H (payload f)"
    using assms(6) good_digest [OF assms(1)] good_digest [OF assms(2)] by simp
  then show "payload e = payload f"
    by (rule inj_onD [OF assms(5)]) simp_all
qed

text \<open>Two valid chains with the same tail hash have the same contents, entry by entry: an entry
  cannot be altered, dropped, inserted or moved without changing the tail.\<close>

lemma tail_binds_history:
  assumes "valid g es" "valid g fs" and "\<forall>e \<in> set es \<union> set fs. wf e"
    and "inj_on H (payload ` (set es \<union> set fs))"
    and "g \<notin> H ` payload ` (set es \<union> set fs)"
    and "tail_hash digest g es = tail_hash digest g fs"
  shows "map content es = map content fs"
  using assms
proof (induction es arbitrary: fs rule: rev_induct)
  case Nil
  then show ?case
  proof (cases fs rule: rev_cases)
    case (snoc fs' f)
    with Nil have "good f" by (simp add: linked_snoc)
    with Nil snoc show ?thesis by (auto simp: good_digest)
  qed simp
next
  case (snoc e es)
  have e: "good e" "prev e = tail_hash digest g es" "valid g es"
    using snoc.prems(1) by (simp_all add: linked_snoc)
  show ?case
  proof (cases fs rule: rev_cases)
    case Nil
    with snoc.prems(5,6) e(1) show ?thesis by (auto simp: good_digest)
  next
    case fs: (snoc fs' f)
    have f: "good f" "prev f = tail_hash digest g fs'" "valid g fs'"
      using snoc.prems(2) fs by (simp_all add: linked_snoc)
    have "inj_on H {payload e, payload f}"
      by (rule inj_on_subset [OF snoc.prems(4)]) (auto simp: fs)
    then have c: "content e = content f"
      using same_digest [OF e(1) f(1)] snoc.prems(3,6) fs by simp
    then have tails: "tail_hash digest g es = tail_hash digest g fs'"
      using content_prev e(2) f(2) by metis
    have "map content es = map content fs'"
    proof (rule snoc.IH [OF e(3) f(3) _ _ _ tails])
      show "inj_on H (payload ` (set es \<union> set fs'))"
        by (rule inj_on_subset [OF snoc.prems(4)]) (auto simp: fs)
    qed (use snoc.prems(3,5) fs in auto)
    with c fs show ?thesis by simp
  qed
qed

end

end
