(* ===== verification/Db.thy ===== *)
theory Db
  imports Prelude
begin

text \<open>
  The PostgreSQL database behind \<^verbatim>\<open>internal/store\<close>: the row types of
  \<^verbatim>\<open>internal/store/sqlcdb/models.go\<close> and of the hand-written store files, the tables, and the
  rules the migrations attach to them (primary keys, unique indexes, foreign keys, checks and
  triggers).

  A statement maps the database time \<^verbatim>\<open>now()\<close> and the tables either to an error, which leaves the
  tables untouched, or to a result and the new tables. Sequences (\<^verbatim>\<open>bigserial\<close>) are counters of
  the database; they are never rolled back. Rows are kept in insertion order; \<^verbatim>\<open>ORDER BY\<close> is a
  stable sort of them, one of the orders SQL allows for ties. \<^verbatim>\<open>lower()\<close> is modelled on ASCII.
\<close>

section \<open>Errors\<close>

text \<open>A Go sentinel error is identified by its message; the remaining constructors are the errors
  of the database driver: no row, a violated unique index (SQLSTATE 23505), check, foreign key,
  an exception raised by a trigger, or a lost connection.\<close>

datatype error =
    Err string
  | ErrNoRows
  | UniqueViolation string
  | CheckViolation string
  | ForeignKeyViolation string
  | RaiseException string
  | OutOfRange
  | ConnLost

type_synonym 'a res = "error + 'a"

section \<open>Rows\<close>

record User =
  u_ID :: string
  u_Handle :: string
  u_DisplayName :: string
  u_Bio :: "string option"
  u_Locale :: string
  u_Status :: string
  u_CanInstruct :: bool
  u_IsPlatformModerator :: bool
  u_TokenVersion :: int
  u_CreatedAt :: instant
  u_DeletedAt :: "instant option"

record IdentityVault =
  iv_UserID :: string
  iv_VerificationStatus :: string
  iv_IsAdult :: bool
  iv_ProviderRef :: "string option"
  iv_FullNameEnc :: bytes
  iv_DobEnc :: bytes
  iv_EmailEnc :: bytes
  iv_VerifiedAt :: "instant option"
  iv_RetainUntil :: "instant option"

record TosAcceptance =
  ta_UserID :: string
  ta_TosVersion :: string
  ta_AdultAttested :: bool
  ta_AcceptedAt :: instant

record RefreshToken =
  rt_ID :: string
  rt_UserID :: string
  rt_FamilyID :: string
  rt_TokenHash :: bytes
  rt_ExpiresAt :: instant
  rt_RevokedAt :: "instant option"
  rt_ReplacedByID :: "string option"
  rt_CreatedAt :: instant

record RevokedToken =
  rv_Jti :: string
  rv_ExpiresAt :: instant
  rv_RevokedAt :: instant

record FederatedIdentity =
  fi_Provider :: string
  fi_Subject :: string
  fi_UserID :: string
  fi_CreatedAt :: instant
  fi_LastLogin :: "instant option"

record EmailIdentity =
  ei_Email :: string
  ei_UserID :: string
  ei_CreatedAt :: instant
  ei_LastLogin :: "instant option"

record PhoneIdentity =
  pi_Phone :: string
  pi_UserID :: string
  pi_CreatedAt :: instant
  pi_LastLogin :: "instant option"

text \<open>\<^verbatim>\<open>login_challenges\<close> and \<^verbatim>\<open>phone_challenges\<close> have the same shape; the address column is the
  email or the phone number.\<close>

record Challenge =
  ch_ID :: string
  ch_Addr :: string
  ch_CodeHash :: bytes
  ch_Attempts :: int
  ch_ExpiresAt :: instant
  ch_ConsumedAt :: "instant option"
  ch_CreatedAt :: instant

record Class =
  c_ID :: string
  c_InstructorID :: string
  c_Title :: string
  c_Description :: string
  c_Status :: string
  c_CreatedAt :: instant
  c_PriceCents :: int
  c_Capacity :: int

record ClassMember =
  cm_ClassID :: string
  cm_UserID :: string
  cm_EnrolledAt :: instant

record Session =
  s_ID :: string
  s_Kind :: string
  s_ClassID :: "string option"
  s_LivekitRoom :: string
  s_Status :: string
  s_ScheduledStart :: "instant option"
  s_StartedAt :: "instant option"
  s_EndedAt :: "instant option"
  s_CreatedAt :: instant

record SessionParticipant =
  sp_SessionID :: string
  sp_UserID :: string
  sp_Role :: string
  sp_JoinedAt :: instant
  sp_LeftAt :: "instant option"

record AuditRow =
  al_Seq :: int
  al_OccurredAt :: int
  al_ActorID :: "string option"
  al_ActorRole :: string
  al_Action :: string
  al_TargetType :: string
  al_TargetID :: string
  al_Metadata :: bytes
  al_PrevHash :: bytes
  al_EntryHash :: bytes
  al_SigningKeyID :: string
  al_Signature :: bytes

record ConsentRow =
  cn_Seq :: int
  cn_ID :: string
  cn_SessionID :: string
  cn_SubjectID :: string
  cn_Purpose :: string
  cn_Granted :: bool
  cn_GrantedAt :: int
  cn_PrevHash :: bytes
  cn_RecordHash :: bytes
  cn_SigningKeyID :: string
  cn_Signature :: bytes

record Recording =
  rc_ID :: string
  rc_SessionID :: string
  rc_EgressID :: "string option"
  rc_Status :: string
  rc_OutputURI :: "string option"
  rc_Error :: "string option"
  rc_StartedAt :: instant
  rc_EndedAt :: "instant option"

record PresenceEvent =
  pe_Seq :: int
  pe_ID :: string
  pe_SessionID :: string
  pe_UserID :: string
  pe_Action :: string
  pe_Role :: string
  pe_OccurredAt :: instant

record PresenceCheckpoint =
  pk_ID :: string
  pk_FromSeq :: int
  pk_ToSeq :: int
  pk_LeafCount :: int
  pk_MerkleRoot :: bytes
  pk_AuditSeq :: int
  pk_CreatedAt :: instant

record Entitlement =
  en_ID :: string
  en_SubjectID :: string
  en_ResourceType :: string
  en_ResourceID :: string
  en_Source :: string
  en_PriceCents :: int
  en_GrantedAt :: instant
  en_ExpiresAt :: "instant option"
  en_RevokedAt :: "instant option"

record LoginEvent =
  le_ID :: string
  le_UserID :: string
  le_Method :: string
  le_CreatedAt :: instant

record StepUpGrant =
  sg_ID :: string
  sg_UserID :: string
  sg_TokenHash :: bytes
  sg_ExpiresAt :: instant
  sg_CreatedAt :: instant

section \<open>Tables\<close>

record db =
  users :: "User list"
  identity_vault :: "IdentityVault list"
  tos_acceptances :: "TosAcceptance list"
  refresh_tokens :: "RefreshToken list"
  revoked_tokens :: "RevokedToken list"
  auth_providers :: "string list"
  federated_identities :: "FederatedIdentity list"
  email_identities :: "EmailIdentity list"
  login_challenges :: "Challenge list"
  phone_identities :: "PhoneIdentity list"
  phone_challenges :: "Challenge list"
  classes :: "Class list"
  class_members :: "ClassMember list"
  sessions :: "Session list"
  session_participants :: "SessionParticipant list"
  audit_log :: "AuditRow list"
  consent_records :: "ConsentRow list"
  recordings :: "Recording list"
  presence_events :: "PresenceEvent list"
  presence_checkpoints :: "PresenceCheckpoint list"
  entitlements :: "Entitlement list"
  login_events :: "LoginEvent list"
  stepup_grants :: "StepUpGrant list"
  audit_log_seq :: int
  consent_records_seq :: int
  presence_events_seq :: int

text \<open>The database after the migrations: empty tables and the three seeded login providers.\<close>

definition empty_db :: db where
  "empty_db = \<lparr>users = [], identity_vault = [], tos_acceptances = [], refresh_tokens = [],
     revoked_tokens = [], auth_providers = [''google'', ''apple'', ''zalo''],
     federated_identities = [], email_identities = [], login_challenges = [],
     phone_identities = [], phone_challenges = [], classes = [], class_members = [],
     sessions = [], session_participants = [], audit_log = [], consent_records = [],
     recordings = [], presence_events = [], presence_checkpoints = [], entitlements = [],
     login_events = [], stepup_grants = [],
     audit_log_seq = 1, consent_records_seq = 1, presence_events_seq = 1\<rparr>"

text \<open>Rolling back restores every table and keeps the sequences where they are.\<close>

definition rolled_back :: "db \<Rightarrow> db \<Rightarrow> db" where
  "rolled_back d0 d1 = d0\<lparr>
     audit_log_seq := max (audit_log_seq d0) (audit_log_seq d1),
     consent_records_seq := max (consent_records_seq d0) (consent_records_seq d1),
     presence_events_seq := max (presence_events_seq d0) (presence_events_seq d1)\<rparr>"

type_synonym 'a stmt = "instant \<Rightarrow> db \<Rightarrow> error + ('a \<times> db)"

section \<open>Shared pieces of statements\<close>

definition order_by_desc :: "('r \<Rightarrow> int) \<Rightarrow> 'r list \<Rightarrow> 'r list" where
  "order_by_desc k rs = sort_key (\<lambda>r. - k r) rs"

fun row :: "'r option \<Rightarrow> db \<Rightarrow> error + ('r \<times> db)" where
  "row None d = Inl ErrNoRows"
| "row (Some r) d = Inr (r, d)"

definition user_exists :: "string \<Rightarrow> db \<Rightarrow> bool" where
  "user_exists uid d = exists_row (\<lambda>u. u_ID u = uid) (users d)"

definition to_lower :: "char \<Rightarrow> char" where
  "to_lower c = (let n = of_char c :: nat in if 65 \<le> n \<and> n \<le> 90 then char_of (n + 32) else c)"

definition lower :: "string \<Rightarrow> string" where
  "lower = map to_lower"

abbreviation maxint32 :: int where
  "maxint32 \<equiv> 2147483647"

lemma set_order_by_desc [simp]: "set (order_by_desc k rs) = set rs"
  by (simp add: order_by_desc_def)

lemma order_by_desc_Nil [simp]: "order_by_desc k [] = []"
  by (simp add: order_by_desc_def)

lemma order_by_desc_eq_Nil [simp]: "order_by_desc k rs = [] \<longleftrightarrow> rs = []"
  by (metis set_order_by_desc set_empty)

lemma row_InrD: "row q d = Inr (x, d') \<Longrightarrow> q = Some x \<and> d' = d"
  by (cases q) auto

end
