(* ===== verification/Queries.thy ===== *)
theory Queries
  imports Db
begin

text \<open>
  The SQL statements: one definition per query of \<^verbatim>\<open>internal/store/sqlcdb\<close> (prefix \<open>q_\<close>), with the
  constraints and triggers of the migrations that guard it, followed by the lemmas on what each
  statement does to the rows. Parameter structs are written as the arguments they carry.
\<close>

section \<open>Accounts\<close>

definition q_CreateUser :: "string \<Rightarrow> string \<Rightarrow> string \<Rightarrow> string \<Rightarrow> bool \<Rightarrow> User stmt" where
  "q_CreateUser uid handle displayName locale canInstruct now d =
     (let u = \<lparr>u_ID = uid, u_Handle = handle, u_DisplayName = displayName, u_Bio = None,
               u_Locale = locale, u_Status = ''pending'', u_CanInstruct = canInstruct,
               u_IsPlatformModerator = False, u_TokenVersion = 1, u_CreatedAt = now, u_DeletedAt = None\<rparr>
      in if exists_row (\<lambda>r. u_ID r = uid) (users d) then Inl (UniqueViolation ''users_pkey'')
         else if exists_row (\<lambda>r. lower (u_Handle r) = lower handle) (users d)
         then Inl (UniqueViolation ''idx_users_handle_lower'')
         else Inr (u, d\<lparr>users := users d @ [u]\<rparr>))"

definition q_GetUser :: "string \<Rightarrow> User stmt" where
  "q_GetUser uid now d = row (first_row (\<lambda>u. u_ID u = uid) (users d)) d"

definition q_GetUserByHandle :: "string \<Rightarrow> User stmt" where
  "q_GetUserByHandle handle now d =
     row (first_row (\<lambda>u. lower (u_Handle u) = lower handle \<and> u_DeletedAt u = None) (users d)) d"

definition q_UserExists :: "string \<Rightarrow> bool stmt" where
  "q_UserExists uid now d = Inr (user_exists uid d, d)"

definition update_user :: "string \<Rightarrow> (User \<Rightarrow> User) \<Rightarrow> db \<Rightarrow> db" where
  "update_user uid f d = d\<lparr>users := update_rows (\<lambda>u. u_ID u = uid) f (users d)\<rparr>"

definition q_UpdateProfile :: "string \<Rightarrow> string \<Rightarrow> string \<Rightarrow> string option \<Rightarrow> unit stmt" where
  "q_UpdateProfile uid handle displayName bio now d =
     (if user_exists uid d
         \<and> exists_row (\<lambda>r. u_ID r \<noteq> uid \<and> lower (u_Handle r) = lower handle) (users d)
      then Inl (UniqueViolation ''idx_users_handle_lower'')
      else Inr ((), update_user uid
             (\<lambda>u. u\<lparr>u_Handle := handle, u_DisplayName := displayName, u_Bio := bio\<rparr>) d))"

text \<open>The basis for an active account: a verified adult identity or an adult attestation under any
  Terms-of-Service version (\<^verbatim>\<open>enforce_adult_activation\<close>, migration 00007).\<close>

definition verified_adult :: "string \<Rightarrow> db \<Rightarrow> bool" where
  "verified_adult uid d = exists_row
     (\<lambda>v. iv_UserID v = uid \<and> iv_IsAdult v \<and> iv_VerificationStatus v = ''verified'') (identity_vault d)"

definition adult_attested :: "string \<Rightarrow> db \<Rightarrow> bool" where
  "adult_attested uid d = exists_row (\<lambda>t. ta_UserID t = uid \<and> ta_AdultAttested t) (tos_acceptances d)"

definition q_ActivateUser :: "string \<Rightarrow> unit stmt" where
  "q_ActivateUser uid now d =
     (if user_exists uid d \<and> \<not> verified_adult uid d \<and> \<not> adult_attested uid d
      then Inl (RaiseException ''cannot activate user: requires verified adult identity or adult attestation'')
      else Inr ((), update_user uid (\<lambda>u. u\<lparr>u_Status := ''active''\<rparr>) d))"

definition q_PromoteToModerator :: "string \<Rightarrow> unit stmt" where
  "q_PromoteToModerator uid now d = Inr ((), update_user uid (\<lambda>u. u\<lparr>u_IsPlatformModerator := True\<rparr>) d)"

definition q_GrantInstructor :: "string \<Rightarrow> unit stmt" where
  "q_GrantInstructor uid now d = Inr ((), update_user uid (\<lambda>u. u\<lparr>u_CanInstruct := True\<rparr>) d)"

definition q_RevokeInstructor :: "string \<Rightarrow> unit stmt" where
  "q_RevokeInstructor uid now d = Inr ((), update_user uid (\<lambda>u. u\<lparr>u_CanInstruct := False\<rparr>) d)"

definition q_SuspendUser :: "string \<Rightarrow> unit stmt" where
  "q_SuspendUser uid now d = Inr ((), update_user uid (\<lambda>u. u\<lparr>u_Status := ''suspended''\<rparr>) d)"

definition q_SoftDeleteUser :: "string \<Rightarrow> unit stmt" where
  "q_SoftDeleteUser uid now d =
     Inr ((), update_user uid (\<lambda>u. u\<lparr>u_Status := ''deleted'', u_DeletedAt := Some now\<rparr>) d)"

definition version_exhausted :: "string \<Rightarrow> db \<Rightarrow> bool" where
  "version_exhausted uid d = exists_row (\<lambda>u. u_ID u = uid \<and> u_TokenVersion u \<ge> maxint32) (users d)"

definition q_CloseAccount :: "string \<Rightarrow> unit stmt" where
  "q_CloseAccount uid now d =
     (if version_exhausted uid d then Inl OutOfRange
      else Inr ((), update_user uid (\<lambda>u. u\<lparr>u_Status := ''deleted'', u_DeletedAt := Some now,
             u_TokenVersion := u_TokenVersion u + 1\<rparr>) d))"

definition q_ListUsers :: "nat \<Rightarrow> User list stmt" where
  "q_ListUsers n now d =
     Inr (take n (order_by_desc u_CreatedAt (select_rows (\<lambda>u. u_DeletedAt u = None) (users d))), d)"

section \<open>Revocation state\<close>

definition q_IsAccessTokenRevoked :: "string \<Rightarrow> bool stmt" where
  "q_IsAccessTokenRevoked jti now d = Inr (exists_row (\<lambda>r. rv_Jti r = jti) (revoked_tokens d), d)"

definition q_RevokeAccessToken :: "string \<Rightarrow> instant \<Rightarrow> unit stmt" where
  "q_RevokeAccessToken jti expiresAt now d =
     (if exists_row (\<lambda>r. rv_Jti r = jti) (revoked_tokens d) then Inr ((), d)
      else Inr ((), d\<lparr>revoked_tokens := revoked_tokens d
                       @ [\<lparr>rv_Jti = jti, rv_ExpiresAt = expiresAt, rv_RevokedAt = now\<rparr>]\<rparr>))"

definition q_CurrentTokenVersion :: "string \<Rightarrow> int stmt" where
  "q_CurrentTokenVersion uid now d =
     row (map_option u_TokenVersion (first_row (\<lambda>u. u_ID u = uid) (users d))) d"

definition q_BumpTokenVersion :: "string \<Rightarrow> int stmt" where
  "q_BumpTokenVersion uid now d =
     (case first_row (\<lambda>u. u_ID u = uid) (users d) of
        None \<Rightarrow> Inl ErrNoRows
      | Some u \<Rightarrow>
          if u_TokenVersion u \<ge> maxint32 then Inl OutOfRange
          else Inr (u_TokenVersion u + 1,
                    update_user uid (\<lambda>u. u\<lparr>u_TokenVersion := u_TokenVersion u + 1\<rparr>) d))"

section \<open>Refresh tokens\<close>

definition q_IssueRefreshToken ::
  "string \<Rightarrow> string \<Rightarrow> string \<Rightarrow> bytes \<Rightarrow> instant \<Rightarrow> unit stmt" where
  "q_IssueRefreshToken tid uid fam hash expiresAt now d =
     (if exists_row (\<lambda>r. rt_ID r = tid) (refresh_tokens d) then Inl (UniqueViolation ''refresh_tokens_pkey'')
      else if exists_row (\<lambda>r. rt_TokenHash r = hash) (refresh_tokens d)
      then Inl (UniqueViolation ''idx_refresh_tokens_token_hash'')
      else if \<not> user_exists uid d then Inl (ForeignKeyViolation ''refresh_tokens_user_id_fkey'')
      else Inr ((), d\<lparr>refresh_tokens := refresh_tokens d
             @ [\<lparr>rt_ID = tid, rt_UserID = uid, rt_FamilyID = fam, rt_TokenHash = hash,
                 rt_ExpiresAt = expiresAt, rt_RevokedAt = None, rt_ReplacedByID = None,
                 rt_CreatedAt = now\<rparr>]\<rparr>))"

definition q_GetRefreshTokenByHashForUpdate :: "bytes \<Rightarrow> RefreshToken stmt" where
  "q_GetRefreshTokenByHashForUpdate hash now d =
     row (first_row (\<lambda>r. rt_TokenHash r = hash) (refresh_tokens d)) d"

definition q_GetFamilyByHash :: "bytes \<Rightarrow> string stmt" where
  "q_GetFamilyByHash hash now d =
     row (map_option rt_FamilyID (first_row (\<lambda>r. rt_TokenHash r = hash) (refresh_tokens d))) d"

definition q_MarkRefreshTokenReplaced :: "string \<Rightarrow> string option \<Rightarrow> unit stmt" where
  "q_MarkRefreshTokenReplaced tid replacedBy now d =
     (if exists_row (\<lambda>r. rt_ID r = tid) (refresh_tokens d)
         \<and> (case replacedBy of None \<Rightarrow> False
            | Some b \<Rightarrow> \<not> exists_row (\<lambda>r. rt_ID r = b) (refresh_tokens d))
      then Inl (ForeignKeyViolation ''refresh_tokens_replaced_by_id_fkey'')
      else Inr ((), d\<lparr>refresh_tokens := update_rows (\<lambda>r. rt_ID r = tid)
             (\<lambda>r. r\<lparr>rt_RevokedAt := Some now, rt_ReplacedByID := replacedBy\<rparr>) (refresh_tokens d)\<rparr>))"

definition q_RevokeRefreshFamily :: "string \<Rightarrow> unit stmt" where
  "q_RevokeRefreshFamily fam now d =
     Inr ((), d\<lparr>refresh_tokens := update_rows (\<lambda>r. rt_FamilyID r = fam \<and> rt_RevokedAt r = None)
            (\<lambda>r. r\<lparr>rt_RevokedAt := Some now\<rparr>) (refresh_tokens d)\<rparr>)"

definition q_RevokeAllRefreshTokens :: "string \<Rightarrow> unit stmt" where
  "q_RevokeAllRefreshTokens uid now d =
     Inr ((), d\<lparr>refresh_tokens := update_rows (\<lambda>r. rt_UserID r = uid \<and> rt_RevokedAt r = None)
            (\<lambda>r. r\<lparr>rt_RevokedAt := Some now\<rparr>) (refresh_tokens d)\<rparr>)"

section \<open>Identity vault and Terms of Service\<close>

definition q_CreateIdentityRecord :: "string \<Rightarrow> unit stmt" where
  "q_CreateIdentityRecord uid now d =
     (if exists_row (\<lambda>v. iv_UserID v = uid) (identity_vault d) then Inr ((), d)
      else if \<not> user_exists uid d then Inl (ForeignKeyViolation ''identity_vault_user_id_fkey'')
      else Inr ((), d\<lparr>identity_vault := identity_vault d
             @ [\<lparr>iv_UserID = uid, iv_VerificationStatus = ''none'', iv_IsAdult = False,
                 iv_ProviderRef = None, iv_FullNameEnc = [], iv_DobEnc = [], iv_EmailEnc = [], iv_VerifiedAt = None, iv_RetainUntil = None\<rparr>]\<rparr>))"

text \<open>\<^verbatim>\<open>trg_enforce_identity_downgrade\<close> runs after an update of the verification columns: when the new
  row is not a verified adult and no attestation exists, an active account is suspended and its
  token version bumped, in the same statement.\<close>

definition downgrade_trigger :: "IdentityVault \<Rightarrow> db \<Rightarrow> error + db" where
  "downgrade_trigger v d =
     (if \<not> (iv_IsAdult v \<and> iv_VerificationStatus v = ''verified'') \<and> \<not> adult_attested (iv_UserID v) d then
        (if exists_row (\<lambda>u. u_ID u = iv_UserID v \<and> u_Status u = ''active'' \<and> u_TokenVersion u \<ge> maxint32) (users d)
         then Inl OutOfRange
         else Inr (d\<lparr>users := update_rows (\<lambda>u. u_ID u = iv_UserID v \<and> u_Status u = ''active'')
                  (\<lambda>u. u\<lparr>u_Status := ''suspended'', u_TokenVersion := u_TokenVersion u + 1\<rparr>) (users d)\<rparr>))
      else Inr d)"

definition update_identity :: "string \<Rightarrow> (IdentityVault \<Rightarrow> IdentityVault) \<Rightarrow> unit stmt" where
  "update_identity uid f now d =
     (case first_row (\<lambda>v. iv_UserID v = uid) (identity_vault d) of
        None \<Rightarrow> Inr ((), d)
      | Some v \<Rightarrow>
          (case downgrade_trigger (f v)
                  (d\<lparr>identity_vault := update_rows (\<lambda>v. iv_UserID v = uid) f (identity_vault d)\<rparr>) of
             Inl e \<Rightarrow> Inl e
           | Inr d' \<Rightarrow> Inr ((), d')))"

definition q_SetIdentityVerificationPending :: "string \<Rightarrow> unit stmt" where
  "q_SetIdentityVerificationPending uid =
     update_identity uid (\<lambda>v. v\<lparr>iv_VerificationStatus := ''pending''\<rparr>)"

definition q_VerifyAdultIdentity :: "string \<Rightarrow> string option \<Rightarrow> instant option \<Rightarrow> unit stmt" where
  "q_VerifyAdultIdentity uid providerRef retainUntil now =
     update_identity uid (\<lambda>v. v\<lparr>iv_VerificationStatus := ''verified'', iv_IsAdult := True,
       iv_ProviderRef := providerRef, iv_VerifiedAt := Some now, iv_RetainUntil := retainUntil\<rparr>) now"

definition q_RevokeIdentityVerification :: "string \<Rightarrow> unit stmt" where
  "q_RevokeIdentityVerification uid =
     update_identity uid (\<lambda>v. v\<lparr>iv_VerificationStatus := ''none'', iv_IsAdult := False,
       iv_VerifiedAt := None\<rparr>)"

definition q_GetIdentity :: "string \<Rightarrow> IdentityVault stmt" where
  "q_GetIdentity uid now d = row (first_row (\<lambda>v. iv_UserID v = uid) (identity_vault d)) d"

definition q_AcceptToS :: "string \<Rightarrow> string \<Rightarrow> bool \<Rightarrow> unit stmt" where
  "q_AcceptToS uid version attested now d =
     (if exists_row (\<lambda>t. ta_UserID t = uid \<and> ta_TosVersion t = version) (tos_acceptances d)
      then Inr ((), d\<lparr>tos_acceptances := update_rows (\<lambda>t. ta_UserID t = uid \<and> ta_TosVersion t = version)
             (\<lambda>t. t\<lparr>ta_AdultAttested := attested, ta_AcceptedAt := now\<rparr>) (tos_acceptances d)\<rparr>)
      else if \<not> user_exists uid d then Inl (ForeignKeyViolation ''tos_acceptances_user_id_fkey'')
      else Inr ((), d\<lparr>tos_acceptances := tos_acceptances d
             @ [\<lparr>ta_UserID = uid, ta_TosVersion = version, ta_AdultAttested = attested,
                 ta_AcceptedAt = now\<rparr>]\<rparr>))"

definition q_HasAdultAttestation :: "string \<Rightarrow> bool stmt" where
  "q_HasAdultAttestation uid now d = Inr (adult_attested uid d, d)"

section \<open>Login factors\<close>

definition q_GetFederatedIdentity :: "string \<Rightarrow> string \<Rightarrow> FederatedIdentity stmt" where
  "q_GetFederatedIdentity provider subject now d =
     row (first_row (\<lambda>r. fi_Provider r = provider \<and> fi_Subject r = subject) (federated_identities d)) d"

definition q_LinkFederatedIdentity :: "string \<Rightarrow> string \<Rightarrow> string \<Rightarrow> unit stmt" where
  "q_LinkFederatedIdentity provider subject uid now d =
     (if exists_row (\<lambda>r. fi_Provider r = provider \<and> fi_Subject r = subject) (federated_identities d)
      then Inl (UniqueViolation ''federated_identities_pkey'')
      else if provider \<notin> set (auth_providers d) then Inl (ForeignKeyViolation ''federated_identities_provider_fk'')
      else if \<not> user_exists uid d then Inl (ForeignKeyViolation ''federated_identities_user_id_fkey'')
      else Inr ((), d\<lparr>federated_identities := federated_identities d
             @ [\<lparr>fi_Provider = provider, fi_Subject = subject, fi_UserID = uid,
                 fi_CreatedAt = now, fi_LastLogin = None\<rparr>]\<rparr>))"

definition q_TouchFederatedLogin :: "string \<Rightarrow> string \<Rightarrow> unit stmt" where
  "q_TouchFederatedLogin provider subject now d =
     Inr ((), d\<lparr>federated_identities := update_rows (\<lambda>r. fi_Provider r = provider \<and> fi_Subject r = subject)
            (\<lambda>r. r\<lparr>fi_LastLogin := Some now\<rparr>) (federated_identities d)\<rparr>)"

definition q_GetEmailIdentity :: "string \<Rightarrow> EmailIdentity stmt" where
  "q_GetEmailIdentity email now d = row (first_row (\<lambda>r. ei_Email r = email) (email_identities d)) d"

definition q_LinkEmailIdentity :: "string \<Rightarrow> string \<Rightarrow> unit stmt" where
  "q_LinkEmailIdentity email uid now d =
     (if exists_row (\<lambda>r. ei_Email r = email) (email_identities d)
      then Inl (UniqueViolation ''email_identities_pkey'')
      else if \<not> user_exists uid d then Inl (ForeignKeyViolation ''email_identities_user_id_fkey'')
      else Inr ((), d\<lparr>email_identities := email_identities d
             @ [\<lparr>ei_Email = email, ei_UserID = uid, ei_CreatedAt = now, ei_LastLogin = None\<rparr>]\<rparr>))"

definition q_TouchEmailLogin :: "string \<Rightarrow> unit stmt" where
  "q_TouchEmailLogin email now d =
     Inr ((), d\<lparr>email_identities := update_rows (\<lambda>r. ei_Email r = email)
            (\<lambda>r. r\<lparr>ei_LastLogin := Some now\<rparr>) (email_identities d)\<rparr>)"

definition q_GetPhoneIdentity :: "string \<Rightarrow> PhoneIdentity stmt" where
  "q_GetPhoneIdentity phone now d = row (first_row (\<lambda>r. pi_Phone r = phone) (phone_identities d)) d"

definition q_GetPhoneIdentityByUser :: "string \<Rightarrow> PhoneIdentity stmt" where
  "q_GetPhoneIdentityByUser uid now d = row (first_row (\<lambda>r. pi_UserID r = uid) (phone_identities d)) d"

definition q_LinkPhoneIdentity :: "string \<Rightarrow> string \<Rightarrow> unit stmt" where
  "q_LinkPhoneIdentity phone uid now d =
     (if exists_row (\<lambda>r. pi_Phone r = phone) (phone_identities d)
      then Inl (UniqueViolation ''phone_identities_pkey'')
      else if \<not> user_exists uid d then Inl (ForeignKeyViolation ''phone_identities_user_id_fkey'')
      else Inr ((), d\<lparr>phone_identities := phone_identities d
             @ [\<lparr>pi_Phone = phone, pi_UserID = uid, pi_CreatedAt = now, pi_LastLogin = None\<rparr>]\<rparr>))"

definition q_TouchPhoneLogin :: "string \<Rightarrow> unit stmt" where
  "q_TouchPhoneLogin phone now d =
     Inr ((), d\<lparr>phone_identities := update_rows (\<lambda>r. pi_Phone r = phone)
            (\<lambda>r. r\<lparr>pi_LastLogin := Some now\<rparr>) (phone_identities d)\<rparr>)"

definition q_HasVerifiedPhone :: "string \<Rightarrow> bool stmt" where
  "q_HasVerifiedPhone uid now d = Inr (exists_row (\<lambda>r. pi_UserID r = uid) (phone_identities d), d)"

text \<open>One-time-code challenges: the two tables share the shape, so the statements share the row
  operations.\<close>

definition new_challenge :: "string \<Rightarrow> string \<Rightarrow> bytes \<Rightarrow> instant \<Rightarrow> instant \<Rightarrow> Challenge" where
  "new_challenge cid addr hash expiresAt now =
     \<lparr>ch_ID = cid, ch_Addr = addr, ch_CodeHash = hash, ch_Attempts = 0, ch_ExpiresAt = expiresAt,
      ch_ConsumedAt = None, ch_CreatedAt = now\<rparr>"

definition active_challenge :: "string \<Rightarrow> instant \<Rightarrow> Challenge list \<Rightarrow> Challenge option" where
  "active_challenge addr now cs =
     (case order_by_desc ch_CreatedAt
             (select_rows (\<lambda>c. ch_Addr c = addr \<and> ch_ConsumedAt c = None \<and> ch_ExpiresAt c > now) cs) of
        [] \<Rightarrow> None | c # _ \<Rightarrow> Some c)"

definition attempts_exhausted :: "string \<Rightarrow> Challenge list \<Rightarrow> bool" where
  "attempts_exhausted cid cs = exists_row (\<lambda>c. ch_ID c = cid \<and> ch_Attempts c \<ge> maxint32) cs"

definition count_attempt :: "string \<Rightarrow> Challenge list \<Rightarrow> Challenge list" where
  "count_attempt cid = update_rows (\<lambda>c. ch_ID c = cid) (\<lambda>c. c\<lparr>ch_Attempts := ch_Attempts c + 1\<rparr>)"

definition consume :: "string \<Rightarrow> instant \<Rightarrow> Challenge list \<Rightarrow> Challenge list" where
  "consume cid now = update_rows (\<lambda>c. ch_ID c = cid) (\<lambda>c. c\<lparr>ch_ConsumedAt := Some now\<rparr>)"

definition q_CreateLoginChallenge :: "string \<Rightarrow> string \<Rightarrow> bytes \<Rightarrow> instant \<Rightarrow> unit stmt" where
  "q_CreateLoginChallenge cid email hash expiresAt now d =
     (if exists_row (\<lambda>c. ch_ID c = cid) (login_challenges d)
      then Inl (UniqueViolation ''login_challenges_pkey'')
      else Inr ((), d\<lparr>login_challenges := login_challenges d @ [new_challenge cid email hash expiresAt now]\<rparr>))"

definition q_GetActiveLoginChallenge :: "string \<Rightarrow> Challenge stmt" where
  "q_GetActiveLoginChallenge email now d = row (active_challenge email now (login_challenges d)) d"

definition q_IncrementLoginChallengeAttempts :: "string \<Rightarrow> unit stmt" where
  "q_IncrementLoginChallengeAttempts cid now d =
     (if attempts_exhausted cid (login_challenges d) then Inl OutOfRange
      else Inr ((), d\<lparr>login_challenges := count_attempt cid (login_challenges d)\<rparr>))"

definition q_ConsumeLoginChallenge :: "string \<Rightarrow> unit stmt" where
  "q_ConsumeLoginChallenge cid now d =
     Inr ((), d\<lparr>login_challenges := consume cid now (login_challenges d)\<rparr>)"

definition q_CreatePhoneChallenge :: "string \<Rightarrow> string \<Rightarrow> bytes \<Rightarrow> instant \<Rightarrow> unit stmt" where
  "q_CreatePhoneChallenge cid phone hash expiresAt now d =
     (if exists_row (\<lambda>c. ch_ID c = cid) (phone_challenges d)
      then Inl (UniqueViolation ''phone_challenges_pkey'')
      else Inr ((), d\<lparr>phone_challenges := phone_challenges d @ [new_challenge cid phone hash expiresAt now]\<rparr>))"

definition q_GetActivePhoneChallenge :: "string \<Rightarrow> Challenge stmt" where
  "q_GetActivePhoneChallenge phone now d = row (active_challenge phone now (phone_challenges d)) d"

definition q_IncrementPhoneChallengeAttempts :: "string \<Rightarrow> unit stmt" where
  "q_IncrementPhoneChallengeAttempts cid now d =
     (if attempts_exhausted cid (phone_challenges d) then Inl OutOfRange
      else Inr ((), d\<lparr>phone_challenges := count_attempt cid (phone_challenges d)\<rparr>))"

definition q_ConsumePhoneChallenge :: "string \<Rightarrow> unit stmt" where
  "q_ConsumePhoneChallenge cid now d =
     Inr ((), d\<lparr>phone_challenges := consume cid now (phone_challenges d)\<rparr>)"

section \<open>Classes and sessions\<close>

definition q_CreateClass :: "string \<Rightarrow> string \<Rightarrow> string \<Rightarrow> string \<Rightarrow> Class stmt" where
  "q_CreateClass cid instructor title description now d =
     (let c = \<lparr>c_ID = cid, c_InstructorID = instructor, c_Title = title, c_Description = description,
               c_Status = ''draft'', c_CreatedAt = now, c_PriceCents = 0, c_Capacity = 0\<rparr>
      in if exists_row (\<lambda>r. c_ID r = cid) (classes d) then Inl (UniqueViolation ''classes_pkey'')
         else if \<not> user_exists instructor d then Inl (ForeignKeyViolation ''classes_instructor_id_fkey'')
         else Inr (c, d\<lparr>classes := classes d @ [c]\<rparr>))"

definition q_GetClass :: "string \<Rightarrow> Class stmt" where
  "q_GetClass cid now d = row (first_row (\<lambda>c. c_ID c = cid) (classes d)) d"

definition q_ListClassesByInstructor :: "string \<Rightarrow> Class list stmt" where
  "q_ListClassesByInstructor uid now d =
     Inr (order_by_desc c_CreatedAt (select_rows (\<lambda>c. c_InstructorID c = uid) (classes d)), d)"

definition q_ListPublishedClasses :: "Class list stmt" where
  "q_ListPublishedClasses now d =
     Inr (take 100 (order_by_desc c_CreatedAt (select_rows (\<lambda>c. c_Status c = ''published'') (classes d))), d)"

definition q_UpdateClassStatus :: "string \<Rightarrow> string \<Rightarrow> unit stmt" where
  "q_UpdateClassStatus cid status now d =
     (if exists_row (\<lambda>c. c_ID c = cid) (classes d) \<and> status \<notin> {''draft'', ''published'', ''archived''}
      then Inl (CheckViolation ''classes_status_check'')
      else Inr ((), d\<lparr>classes := update_rows (\<lambda>c. c_ID c = cid) (\<lambda>c. c\<lparr>c_Status := status\<rparr>) (classes d)\<rparr>))"

text \<open>The kind/class coherence check, the unique room and the class foreign key (00002, 00009).\<close>

definition q_CreateSession ::
  "string \<Rightarrow> string \<Rightarrow> string option \<Rightarrow> string \<Rightarrow> instant option \<Rightarrow> Session stmt" where
  "q_CreateSession sid kind classID room scheduledStart now d =
     (let s = \<lparr>s_ID = sid, s_Kind = kind, s_ClassID = classID, s_LivekitRoom = room,
               s_Status = ''scheduled'', s_ScheduledStart = scheduledStart, s_StartedAt = None,
               s_EndedAt = None, s_CreatedAt = now\<rparr>
      in if kind \<notin> {''class'', ''direct''} then Inl (CheckViolation ''sessions_kind_check'')
         else if (kind = ''direct'') \<noteq> (classID = None) then Inl (CheckViolation ''sessions_kind_class'')
         else if exists_row (\<lambda>r. s_ID r = sid) (sessions d) then Inl (UniqueViolation ''sessions_pkey'')
         else if exists_row (\<lambda>r. s_LivekitRoom r = room) (sessions d)
         then Inl (UniqueViolation ''sessions_livekit_room_key'')
         else if (case classID of None \<Rightarrow> False | Some c \<Rightarrow> \<not> exists_row (\<lambda>r. c_ID r = c) (classes d))
         then Inl (ForeignKeyViolation ''sessions_class_id_fkey'')
         else Inr (s, d\<lparr>sessions := sessions d @ [s]\<rparr>))"

definition q_GetSession :: "string \<Rightarrow> Session stmt" where
  "q_GetSession sid now d = row (first_row (\<lambda>s. s_ID s = sid) (sessions d)) d"

definition q_StartSession :: "string \<Rightarrow> unit stmt" where
  "q_StartSession sid now d =
     Inr ((), d\<lparr>sessions := update_rows (\<lambda>s. s_ID s = sid)
            (\<lambda>s. s\<lparr>s_Status := ''live'', s_StartedAt := Some now\<rparr>) (sessions d)\<rparr>)"

definition q_EndSession :: "string \<Rightarrow> unit stmt" where
  "q_EndSession sid now d =
     Inr ((), d\<lparr>sessions := update_rows (\<lambda>s. s_ID s = sid)
            (\<lambda>s. s\<lparr>s_Status := ''ended'', s_EndedAt := Some now\<rparr>) (sessions d)\<rparr>)"

text \<open>\<^verbatim>\<open>trg_enforce_direct_session_cap\<close> (00004) counts the participants that have not left; the primary
  key counts every row, departed ones included.\<close>

definition present :: "string \<Rightarrow> db \<Rightarrow> SessionParticipant list" where
  "present sid d = select_rows (\<lambda>p. sp_SessionID p = sid \<and> sp_LeftAt p = None) (session_participants d)"

definition q_AddParticipant :: "string \<Rightarrow> string \<Rightarrow> string \<Rightarrow> unit stmt" where
  "q_AddParticipant sid uid role now d =
     (if exists_row (\<lambda>s. s_ID s = sid \<and> s_Kind s = ''direct'') (sessions d) \<and> length (present sid d) \<ge> 2
      then Inl (RaiseException ''direct session is limited to 2 participants'')
      else if exists_row (\<lambda>p. sp_SessionID p = sid \<and> sp_UserID p = uid) (session_participants d)
      then Inl (UniqueViolation ''session_participants_pkey'')
      else if \<not> exists_row (\<lambda>s. s_ID s = sid) (sessions d)
      then Inl (ForeignKeyViolation ''session_participants_session_id_fkey'')
      else if \<not> user_exists uid d then Inl (ForeignKeyViolation ''session_participants_user_id_fkey'')
      else Inr ((), d\<lparr>session_participants := session_participants d
             @ [\<lparr>sp_SessionID = sid, sp_UserID = uid, sp_Role = role, sp_JoinedAt = now,
                 sp_LeftAt = None\<rparr>]\<rparr>))"

definition q_RemoveParticipant :: "string \<Rightarrow> string \<Rightarrow> unit stmt" where
  "q_RemoveParticipant sid uid now d =
     Inr ((), d\<lparr>session_participants := update_rows
            (\<lambda>p. sp_SessionID p = sid \<and> sp_UserID p = uid \<and> sp_LeftAt p = None)
            (\<lambda>p. p\<lparr>sp_LeftAt := Some now\<rparr>) (session_participants d)\<rparr>)"

definition q_ListActiveParticipants :: "string \<Rightarrow> SessionParticipant list stmt" where
  "q_ListActiveParticipants sid now d = Inr (sort_key sp_JoinedAt (present sid d), d)"

text \<open>\<^verbatim>\<open>ORDER BY scheduled_start ASC NULLS LAST, created_at DESC LIMIT 100\<close>.\<close>

definition q_ListSessionsByClass :: "string option \<Rightarrow> Session list stmt" where
  "q_ListSessionsByClass classID now d =
     (let rs = order_by_desc s_CreatedAt (select_rows (\<lambda>s. s_ClassID s \<noteq> None \<and> s_ClassID s = classID) (sessions d))
      in Inr (take 100 (sort_key (\<lambda>s. the (s_ScheduledStart s)) (filter (\<lambda>s. s_ScheduledStart s \<noteq> None) rs)
               @ filter (\<lambda>s. s_ScheduledStart s = None) rs), d))"

end
