(* ===== verification/Effects.thy ===== *)
theory Effects
  imports Queries
begin

text \<open>
  The state a service operation runs in and the way its steps are put together.

  A \<open>world\<close> holds the database, the two clocks the code reads (\<^verbatim>\<open>now()\<close> of PostgreSQL and
  \<^verbatim>\<open>time.Now\<close> of the process; an operation reads each at one instant), the faults that the
  connection to the database will show, the replies the media server and the message senders
  will give, and the calls made to them. An operation is a function from a world to a result and
  the world after it: the result is an error or a value, as in Go.

  A statement sent over a connection may run and answer (\<open>NoFault\<close>), fail before it runs
  (\<open>Lost\<close>) or run and lose its answer (\<open>LostReply\<close>). A transaction commits or rolls back as a
  whole; its commit may itself be lost before or after it took effect.
\<close>

datatype fault = NoFault | Lost | LostReply

datatype egress_call = CallStart string string | CallStop string

datatype egress_reply = ReplyOk string | ReplyErr

record world =
  w_db :: db
  w_pgnow :: instant
  w_now :: instant
  w_faults :: "fault list"
  w_replies :: "egress_reply list"
  w_calls :: "egress_call list"
  w_outbox :: "(string \<times> string) list"

type_synonym 'a io = "world \<Rightarrow> 'a res \<times> world"

section \<open>Sequencing\<close>

definition ret :: "'a \<Rightarrow> 'a io" where
  "ret x w = (Inr x, w)"

definition fail :: "error \<Rightarrow> 'a io" where
  "fail e w = (Inl e, w)"

text \<open>\<open>bind m f\<close> is \<^verbatim>\<open>x, err := m(); if err != nil { return err }; f(x)\<close>; \<open>attempt\<close> hands the error
  to the caller instead of returning it.\<close>

definition bind :: "'a io \<Rightarrow> ('a \<Rightarrow> 'b io) \<Rightarrow> 'b io" where
  "bind m f w = (case m w of (Inl e, w') \<Rightarrow> (Inl e, w') | (Inr x, w') \<Rightarrow> f x w')"

definition attempt :: "'a io \<Rightarrow> ('a res \<Rightarrow> 'b io) \<Rightarrow> 'b io" where
  "attempt m f w = (case m w of (r, w') \<Rightarrow> f r w')"

definition goNow :: "instant io" where
  "goNow w = (Inr (w_now w), w)"

section \<open>Database calls\<close>

definition take_fault :: "world \<Rightarrow> fault \<times> world" where
  "take_fault w = (case w_faults w of [] \<Rightarrow> (NoFault, w) | f # fs \<Rightarrow> (f, w\<lparr>w_faults := fs\<rparr>))"

definition pg :: "'a stmt \<Rightarrow> 'a io" where
  "pg s w =
     (case take_fault w of (f, w1) \<Rightarrow>
        if f = Lost then (Inl ConnLost, w1)
        else case s (w_pgnow w1) (w_db w1) of
               Inl e \<Rightarrow> (Inl (if f = NoFault then e else ConnLost), w1)
             | Inr (x, d) \<Rightarrow> (if f = NoFault then Inr x else Inl ConnLost, w1\<lparr>w_db := d\<rparr>))"

definition in_tx :: "'a io \<Rightarrow> 'a io" where
  "in_tx body w =
     (case take_fault w of (f, w1) \<Rightarrow>
        if f \<noteq> NoFault then (Inl ConnLost, w1)
        else case body w1 of
               (Inl e, w2) \<Rightarrow> (Inl e, w2\<lparr>w_db := rolled_back (w_db w1) (w_db w2)\<rparr>)
             | (Inr x, w2) \<Rightarrow>
                 (case take_fault w2 of (g, w3) \<Rightarrow>
                    if g = Lost then (Inl ConnLost, w3\<lparr>w_db := rolled_back (w_db w1) (w_db w3)\<rparr>)
                    else (if g = NoFault then Inr x else Inl ConnLost, w3)))"

section \<open>Calls to the media server\<close>

definition take_reply :: "world \<Rightarrow> egress_reply \<times> world" where
  "take_reply w = (case w_replies w of [] \<Rightarrow> (ReplyErr, w) | r # rs \<Rightarrow> (r, w\<lparr>w_replies := rs\<rparr>))"

definition call_egress :: "egress_call \<Rightarrow> string io" where
  "call_egress c w =
     (case take_reply w of (r, w1) \<Rightarrow>
        (case r of ReplyErr \<Rightarrow> Inl (Err ''livekit: egress request failed'') | ReplyOk s \<Rightarrow> Inr s,
         w1\<lparr>w_calls := w_calls w1 @ [c]\<rparr>))"

section \<open>Invariants of the database\<close>

text \<open>\<open>keeps J m\<close>: the operation preserves the property \<open>J\<close> of the database, whatever faults occur.
  \<open>tx_safe\<close> properties survive a rollback. The rules follow the structure of an operation.\<close>

definition keeps :: "(db \<Rightarrow> bool) \<Rightarrow> 'a io \<Rightarrow> bool" where
  "keeps J m \<longleftrightarrow> (\<forall>w. J (w_db w) \<longrightarrow> J (w_db (snd (m w))))"

definition stmt_keeps :: "(db \<Rightarrow> bool) \<Rightarrow> 'a stmt \<Rightarrow> bool" where
  "stmt_keeps J s \<longleftrightarrow> (\<forall>now d x d'. J d \<longrightarrow> s now d = Inr (x, d') \<longrightarrow> J d')"

definition tx_safe :: "(db \<Rightarrow> bool) \<Rightarrow> bool" where
  "tx_safe J \<longleftrightarrow> (\<forall>d0 d1. J d0 \<longrightarrow> J (rolled_back d0 d1))"

named_theorems keeps_rules \<open>the structural rules for \<open>keeps\<close>\<close>

lemma take_fault_fields:
  assumes "take_fault w = (f, w1)"
  shows "w_db w1 = w_db w" "w_pgnow w1 = w_pgnow w" "w_now w1 = w_now w" "w_calls w1 = w_calls w"
    "w_replies w1 = w_replies w" "w_outbox w1 = w_outbox w"
  using assms by (cases "w_faults w"; force simp: take_fault_def)+

lemma take_reply_fields:
  assumes "take_reply w = (r, w1)"
  shows "w_db w1 = w_db w" "w_pgnow w1 = w_pgnow w" "w_now w1 = w_now w" "w_calls w1 = w_calls w"
    "w_faults w1 = w_faults w"
  using assms by (cases "w_replies w"; force simp: take_reply_def)+

lemma keepsI: "(\<And>w. J (w_db w) \<Longrightarrow> J (w_db (snd (m w)))) \<Longrightarrow> keeps J m"
  by (simp add: keeps_def)

lemma keepsD: "keeps J m \<Longrightarrow> m w = (r, w') \<Longrightarrow> J (w_db w) \<Longrightarrow> J (w_db w')"
  by (metis keeps_def snd_conv)

lemma keeps_ret [keeps_rules]: "keeps J (ret x)"
  by (simp add: keeps_def ret_def)

lemma keeps_fail [keeps_rules]: "keeps J (fail e)"
  by (simp add: keeps_def fail_def)

lemma keeps_goNow [keeps_rules]: "keeps J goNow"
  by (simp add: keeps_def goNow_def)

lemma keeps_bind [keeps_rules]:
  assumes "keeps J m" and "\<And>x. keeps J (f x)"
  shows "keeps J (bind m f)"
proof (rule keepsI)
  fix w :: world assume J: "J (w_db w)"
  obtain r w1 where m: "m w = (r, w1)" by force
  with J assms(1) have "J (w_db w1)" by (blast intro: keepsD)
  with m show "J (w_db (snd (bind m f w)))"
    using assms(2) by (cases r) (simp_all add: bind_def keeps_def)
qed

lemma keeps_attempt [keeps_rules]:
  assumes "keeps J m" and "\<And>r. keeps J (f r)"
  shows "keeps J (attempt m f)"
proof (rule keepsI)
  fix w :: world assume J: "J (w_db w)"
  obtain r w1 where m: "m w = (r, w1)" by force
  with J assms(1) have "J (w_db w1)" by (blast intro: keepsD)
  with m show "J (w_db (snd (attempt m f w)))"
    using assms(2) by (simp add: attempt_def keeps_def)
qed

lemma keeps_if [keeps_rules]: "keeps J m \<Longrightarrow> keeps J n \<Longrightarrow> keeps J (if b then m else n)"
  by simp

lemma keeps_case_option [keeps_rules]:
  "keeps J m \<Longrightarrow> (\<And>x. keeps J (f x)) \<Longrightarrow> keeps J (case o' of None \<Rightarrow> m | Some x \<Rightarrow> f x)"
  by (cases o') auto

lemma keeps_case_sum [keeps_rules]:
  "(\<And>x. keeps J (f x)) \<Longrightarrow> (\<And>x. keeps J (g x)) \<Longrightarrow> keeps J (case s of Inl x \<Rightarrow> f x | Inr x \<Rightarrow> g x)"
  by (cases s) auto

lemma keeps_case_prod [keeps_rules]:
  "(\<And>x y. keeps J (f x y)) \<Longrightarrow> keeps J (case p of (x, y) \<Rightarrow> f x y)"
  by (cases p) auto

lemma keeps_call [keeps_rules]: "keeps J (call_egress c)"
  by (rule keepsI) (auto simp: call_egress_def take_reply_fields split: prod.split)

lemma keeps_pg [keeps_rules]:
  assumes "stmt_keeps J s"
  shows "keeps J (pg s)"
proof (rule keepsI)
  fix w :: world assume J: "J (w_db w)"
  obtain f w1 where t: "take_fault w = (f, w1)" by force
  with J assms show "J (w_db (snd (pg s w)))"
    by (cases "s (w_pgnow w1) (w_db w1)") (auto simp: pg_def stmt_keeps_def take_fault_fields)
qed

lemma keeps_in_tx:
  assumes "tx_safe J" and "keeps J body"
  shows "keeps J (in_tx body)"
proof (rule keepsI)
  fix w :: world assume J: "J (w_db w)"
  obtain f w1 where t: "take_fault w = (f, w1)" by force
  obtain r w2 where b: "body w1 = (r, w2)" by force
  obtain g w3 where t2: "take_fault w2 = (g, w3)" by force
  have "w_db w1 = w_db w" "w_db w3 = w_db w2" using t t2 by (simp_all add: take_fault_fields)
  moreover have "J (w_db w2)" using keepsD [OF assms(2) b] J t by (simp add: take_fault_fields)
  moreover have "J (rolled_back (w_db w) (w_db w2))" using assms(1) J by (simp add: tx_safe_def)
  ultimately show "J (w_db (snd (in_tx body w)))"
    using J t b t2 by (cases r) (auto simp: in_tx_def)
qed

lemma keeps_conj: "keeps J m \<Longrightarrow> keeps K m \<Longrightarrow> keeps (\<lambda>d. J d \<and> K d) m"
  by (simp add: keeps_def)

section \<open>Fault-free runs\<close>

text \<open>With no pending faults a call is just its statement: the rules behind the functional
  behaviour of the services.\<close>

definition calm :: "world \<Rightarrow> bool" where
  "calm w \<longleftrightarrow> w_faults w = []"

lemma take_fault_calm [simp]: "calm w \<Longrightarrow> take_fault w = (NoFault, w)"
  by (simp add: calm_def take_fault_def)

lemma calm_update [simp]: "calm (w\<lparr>w_db := d\<rparr>) = calm w"
  by (simp add: calm_def)

lemma pg_calm [simp]:
  "calm w \<Longrightarrow> pg s w =
     (case s (w_pgnow w) (w_db w) of Inl e \<Rightarrow> (Inl e, w) | Inr (x, d) \<Rightarrow> (Inr x, w\<lparr>w_db := d\<rparr>))"
  by (auto simp: pg_def split: sum.split prod.split)

lemma bind_apply [simp]:
  "bind (ret x) f = f x" "bind (fail e) f = fail e"
  by (auto simp: bind_def ret_def fail_def fun_eq_iff)

lemmas io_defs = bind_def attempt_def ret_def fail_def goNow_def

text \<open>What a single call can do: it returns an error, or the value of its statement with the tables
  it produced.\<close>

lemma pg_InrD:
  assumes "pg s w = (Inr x, w')"
  obtains d where "s (w_pgnow w) (w_db w) = Inr (x, d)" "w_db w' = d" "w_pgnow w' = w_pgnow w"
    "w_now w' = w_now w" "w_calls w' = w_calls w"
proof -
  obtain f w1 where t: "take_fault w = (f, w1)" by force
  note w1 = take_fault_fields [OF t]
  show ?thesis
  proof (cases "s (w_pgnow w1) (w_db w1)")
    case (Inl e)
    then show ?thesis using assms t by (cases "f = Lost") (simp_all add: pg_def)
  next
    case (Inr p)
    then obtain y d where "s (w_pgnow w1) (w_db w1) = Inr (y, d)" by (cases p) simp
    with assms t have "f = NoFault" "y = x" "w' = w1\<lparr>w_db := d\<rparr>"
      by (cases f; simp add: pg_def)+
    with \<open>s (w_pgnow w1) (w_db w1) = Inr (y, d)\<close> w1 show ?thesis
      by (intro that) simp_all
  qed
qed

lemma pg_runD:
  assumes "pg s w = (Inr x, w')"
  shows "s (w_pgnow w) (w_db w) = Inr (x, w_db w')" "w_pgnow w' = w_pgnow w" "w_now w' = w_now w"
  using assms by (auto elim!: pg_InrD)

lemma bind_InrD:
  assumes "bind m f w = (Inr y, w')"
  obtains x w1 where "m w = (Inr x, w1)" "f x w1 = (Inr y, w')"
  using assms by (auto simp: bind_def split: prod.splits sum.splits)

lemma attemptD:
  assumes "attempt m f w = (r, w')"
  obtains q w1 where "m w = (q, w1)" "f q w1 = (r, w')"
  using assms by (auto simp: attempt_def split: prod.splits)

lemma ret_Inr [simp]: "ret x w = (Inr y, w') \<longleftrightarrow> x = y \<and> w' = w"
  by (auto simp: ret_def)

lemma fail_not_Inr [simp]: "fail e w \<noteq> (Inr y, w')"
  by (simp add: fail_def)

text \<open>The possible outcomes of one call, of a sequence of two steps and of a transaction. The clocks
  do not move inside an operation.\<close>

definition same_clock :: "world \<Rightarrow> world \<Rightarrow> bool" where
  "same_clock w w' \<longleftrightarrow> w_now w' = w_now w \<and> w_pgnow w' = w_pgnow w"

lemma same_clock_refl [simp]: "same_clock w w"
  by (simp add: same_clock_def)

lemma same_clock_trans: "same_clock w w1 \<Longrightarrow> same_clock w1 w2 \<Longrightarrow> same_clock w w2"
  by (simp add: same_clock_def)

lemma pg_outcome:
  assumes "pg s w = (r, w')"
  shows "same_clock w w' \<and>
    ((\<exists>e. r = Inl e \<and> (e = ConnLost \<or> s (w_pgnow w) (w_db w) = Inl e)) \<and> w_db w' = w_db w \<or>
     (\<exists>x d. s (w_pgnow w) (w_db w) = Inr (x, d) \<and> w_db w' = d \<and> (r = Inr x \<or> r = Inl ConnLost)))"
proof -
  obtain f w1 where t: "take_fault w = (f, w1)" by force
  note w1 = take_fault_fields [OF t]
  show ?thesis
  proof (cases "f = Lost")
    case True
    then show ?thesis using assms t w1 by (auto simp: pg_def same_clock_def)
  next
    case False
    then show ?thesis
      using assms t w1
      by (cases "s (w_pgnow w) (w_db w)") (auto simp: pg_def same_clock_def split: if_splits)
  qed
qed

lemma pg_InlD:
  assumes "pg s w = (Inl e, w')"
  shows "w_db w' = w_db w \<or> (\<exists>x. s (w_pgnow w) (w_db w) = Inr (x, w_db w') \<and> e = ConnLost)"
  using pg_outcome [OF assms] by auto

lemma bind_outcome:
  assumes "bind m f w = (r, w')"
  obtains e w1 where "m w = (Inl e, w1)" "r = Inl e" "w' = w1"
  | x w1 where "m w = (Inr x, w1)" "f x w1 = (r, w')"
  using assms by (cases "m w"; cases "fst (m w)") (auto simp: bind_def)

lemma in_tx_outcome:
  assumes "in_tx body w = (r, w')"
  shows "(\<exists>e. r = Inl e) \<and> (\<exists>d. w_db w' = rolled_back (w_db w) d)
    \<or> (\<exists>w1 x w2. take_fault w = (NoFault, w1) \<and> body w1 = (Inr x, w2) \<and> w_db w' = w_db w2
          \<and> (r = Inr x \<or> r = Inl ConnLost))"
proof -
  obtain f w1 where t: "take_fault w = (f, w1)" by force
  obtain q w2 where b: "body w1 = (q, w2)" by force
  obtain g w3 where t2: "take_fault w2 = (g, w3)" by force
  note fields = take_fault_fields(1) [OF t] take_fault_fields(1) [OF t2]
  have id: "rolled_back d d = d" for d by (simp add: rolled_back_def)
  show ?thesis
  proof (cases "f = NoFault")
    case False
    then have "r = Inl ConnLost" "w_db w' = rolled_back (w_db w) (w_db w)"
      using assms t fields by (auto simp: in_tx_def id)
    then show ?thesis by blast
  next
    case True
    then show ?thesis
      using assms t b t2 fields by (cases q) (auto simp: in_tx_def split: if_splits)
  qed
qed

end
