(* ===== verification/AuditLog.thy ===== *)
theory AuditLog
  imports Contracts Ledger Effects
begin

text \<open>
  The audit log: \<^verbatim>\<open>pkg/signing\<close>, \<^verbatim>\<open>internal/audit/audit.go\<close> (hash, signature and chain
  verification) and \<^verbatim>\<open>internal/store/audit.go\<close> (the transactional append and the audited
  mutations). SHA-256 and Ed25519 are parameters: \<open>H\<close>, a signer that may fail, and
  \<open>edv pub msg sig\<close> for \<^verbatim>\<open>ed25519.Verify\<close>.
\<close>

section \<open>Keys and hashes\<close>

text \<open>A \<^verbatim>\<open>signing.KeySigner\<close>: in-process or remote, so signing may fail.\<close>

record KeySigner =
  KeyID :: string
  SignRaw :: "bytes \<Rightarrow> bytes res"

definition NewLocalKeySigner :: "(bytes \<Rightarrow> bytes \<Rightarrow> bytes) \<Rightarrow> string \<Rightarrow> bytes \<Rightarrow> KeySigner res" where
  "NewLocalKeySigner edsign kid key =
     (if kid = '''' then Inl (Err ''signing: key id required'')
      else if length key \<noteq> 64 then Inl (Err ''signing: invalid ed25519 private key'')
      else Inr \<lparr>KeyID = kid, SignRaw = (\<lambda>msg. Inr (edsign key msg))\<rparr>)"

text \<open>\<^verbatim>\<open>store.Store\<close>: the optional audit signer, the hash, and what PostgreSQL makes of a
  \<^verbatim>\<open>jsonb\<close> value (\<^verbatim>\<open>None\<close> for text that is not JSON).\<close>

record Store =
  auditSigner :: "KeySigner option"
  sha256 :: "bytes \<Rightarrow> bytes"
  jsonb :: "bytes \<Rightarrow> bytes option"

definition GenesisHash :: bytes where
  "GenesisHash = replicate AuditHashLen (CHR 0x00)"

definition AuditHash :: "(bytes \<Rightarrow> bytes) \<Rightarrow> AuditEntry \<Rightarrow> bytes" where
  "AuditHash H e = H (AuditSignedPayload e)"

section \<open>Verification\<close>

datatype audit_error =
    BrokenChain int
  | TamperedEntry int
  | UnknownSigningKey string int
  | BadAuditSignature int

type_synonym verify = "bytes \<Rightarrow> bytes \<Rightarrow> bytes \<Rightarrow> bool"

definition VerifyEntry ::
  "(bytes \<Rightarrow> bytes) \<Rightarrow> verify \<Rightarrow> (string \<rightharpoonup> bytes) \<Rightarrow> AuditEntry \<Rightarrow> audit_error option" where
  "VerifyEntry H edv keys e =
     (if ae_EntryHash e \<noteq> AuditHash H e then Some (TamperedEntry (ae_Seq e))
      else case keys (ae_SigningKeyID e) of
             None \<Rightarrow> Some (UnknownSigningKey (ae_SigningKeyID e) (ae_Seq e))
           | Some pub \<Rightarrow>
               if \<not> edv pub (ae_EntryHash e) (ae_Signature e) then Some (BadAuditSignature (ae_Seq e))
               else None)"

fun verify_chain_loop ::
  "(bytes \<Rightarrow> bytes) \<Rightarrow> verify \<Rightarrow> (string \<rightharpoonup> bytes) \<Rightarrow> bytes \<Rightarrow> AuditEntry list \<Rightarrow> audit_error option" where
  "verify_chain_loop H edv keys prev [] = None"
| "verify_chain_loop H edv keys prev (e # es) =
     (if ae_PrevHash e \<noteq> prev then Some (BrokenChain (ae_Seq e))
      else if ae_EntryHash e \<noteq> AuditHash H e then Some (TamperedEntry (ae_Seq e))
      else case keys (ae_SigningKeyID e) of
             None \<Rightarrow> Some (UnknownSigningKey (ae_SigningKeyID e) (ae_Seq e))
           | Some pub \<Rightarrow>
               if \<not> edv pub (ae_EntryHash e) (ae_Signature e) then Some (BadAuditSignature (ae_Seq e))
               else verify_chain_loop H edv keys (ae_EntryHash e) es)"

definition VerifyChain ::
  "(bytes \<Rightarrow> bytes) \<Rightarrow> verify \<Rightarrow> (string \<rightharpoonup> bytes) \<Rightarrow> AuditEntry list \<Rightarrow> audit_error option" where
  "VerifyChain H edv keys es = verify_chain_loop H edv keys GenesisHash es"

abbreviation entry_good :: "(bytes \<Rightarrow> bytes) \<Rightarrow> verify \<Rightarrow> (string \<rightharpoonup> bytes) \<Rightarrow> AuditEntry \<Rightarrow> bool" where
  "entry_good H edv keys e \<equiv> VerifyEntry H edv keys e = None"

abbreviation audit_linked ::
  "(bytes \<Rightarrow> bytes) \<Rightarrow> verify \<Rightarrow> (string \<rightharpoonup> bytes) \<Rightarrow> bytes \<Rightarrow> AuditEntry list \<Rightarrow> bool" where
  "audit_linked H edv keys \<equiv> linked ae_PrevHash ae_EntryHash (entry_good H edv keys)"

lemma verify_chain_loop_iff:
  "verify_chain_loop H edv keys h es = None \<longleftrightarrow> audit_linked H edv keys h es"
  by (induction es arbitrary: h) (auto simp: VerifyEntry_def split: option.splits)

lemma VerifyChain_iff: "VerifyChain H edv keys es = None \<longleftrightarrow> audit_linked H edv keys GenesisHash es"
  by (simp add: VerifyChain_def verify_chain_loop_iff)

interpretation audit: ledger ae_PrevHash ae_EntryHash "entry_good H edv keys" AuditSignedPayload H
    audit_wf audit_content
  for H edv keys
proof
  fix e f :: AuditEntry
  show "audit_wf e \<Longrightarrow> audit_wf f \<Longrightarrow> AuditSignedPayload e = AuditSignedPayload f \<Longrightarrow>
      audit_content e = audit_content f"
    by (rule AuditSignedPayload_inj)
  show "audit_content e = audit_content f \<Longrightarrow> ae_PrevHash e = ae_PrevHash f"
    by (drule arg_cong [where f = ae_PrevHash]) (simp add: audit_content_def)
  show "entry_good H edv keys e \<Longrightarrow> ae_EntryHash e = H (AuditSignedPayload e)"
    by (auto simp: VerifyEntry_def AuditHash_def split: if_splits)
qed

section \<open>The append\<close>

record AuditInput =
  ai_ActorID :: string
  ai_ActorRole :: string
  ai_Action :: string
  ai_TargetType :: string
  ai_TargetID :: string
  ai_Metadata :: bytes

abbreviation ErrNoAuditSigner :: error where
  "ErrNoAuditSigner \<equiv> Err ''store: audit signer not configured''"

definition advisory_lock :: "int \<Rightarrow> unit stmt" where
  "advisory_lock key now d = Inr ((), d)"

definition latest_by :: "('r \<Rightarrow> int) \<Rightarrow> 'r list \<Rightarrow> 'r option" where
  "latest_by k rs = (case order_by_desc k rs of [] \<Rightarrow> None | r # _ \<Rightarrow> Some r)"

definition q_audit_tail :: "bytes stmt" where
  "q_audit_tail now d = row (map_option al_EntryHash (latest_by al_Seq (audit_log d))) d"

definition q_insert_audit :: "(bytes \<Rightarrow> bytes option) \<Rightarrow> AuditEntry \<Rightarrow> int stmt" where
  "q_insert_audit js e now d =
     (case js (ae_Metadata e) of
        None \<Rightarrow> Inl (CheckViolation ''invalid input syntax for type json'')
      | Some meta \<Rightarrow>
          Inr (audit_log_seq d,
               d\<lparr>audit_log := audit_log d
                   @ [\<lparr>al_Seq = audit_log_seq d, al_OccurredAt = ae_OccurredAt e,
                       al_ActorID = Some (ae_ActorID e), al_ActorRole = ae_ActorRole e,
                       al_Action = ae_Action e, al_TargetType = ae_TargetType e,
                       al_TargetID = ae_TargetID e, al_Metadata = meta, al_PrevHash = ae_PrevHash e,
                       al_EntryHash = ae_EntryHash e, al_SigningKeyID = ae_SigningKeyID e,
                       al_Signature = ae_Signature e\<rparr>],
                  audit_log_seq := audit_log_seq d + 1\<rparr>))"

text \<open>The entry \<^verbatim>\<open>appendAuditTx\<close> assembles before signing.\<close>

definition audit_entry :: "Store \<Rightarrow> KeySigner \<Rightarrow> AuditInput \<Rightarrow> bytes \<Rightarrow> instant \<Rightarrow> AuditEntry" where
  "audit_entry st sg inp prev t =
     (let e = \<lparr>ae_SchemaVersion = AuditSchemaVersion, ae_Seq = 0, ae_OccurredAt = unix t,
               ae_ActorID = ai_ActorID inp, ae_ActorRole = ai_ActorRole inp, ae_Action = ai_Action inp,
               ae_TargetType = ai_TargetType inp, ae_TargetID = ai_TargetID inp,
               ae_Metadata = (if length (ai_Metadata inp) = 0 then ''{}'' else ai_Metadata inp),
               ae_PrevHash = prev, ae_EntryHash = [], ae_SigningKeyID = KeyID sg, ae_Signature = []\<rparr>
      in e\<lparr>ae_EntryHash := AuditHash (sha256 st) e\<rparr>)"

definition sign_and_insert :: "Store \<Rightarrow> KeySigner \<Rightarrow> AuditInput \<Rightarrow> bytes \<Rightarrow> int io" where
  "sign_and_insert st sg inp prev =
     bind goNow (\<lambda>t.
       let e = audit_entry st sg inp prev t
       in case SignRaw sg (ae_EntryHash e) of
            Inl err \<Rightarrow> fail err
          | Inr sig \<Rightarrow> pg (q_insert_audit (jsonb st) (e\<lparr>ae_Signature := sig\<rparr>)))"

definition appendAuditTx :: "Store \<Rightarrow> AuditInput \<Rightarrow> int io" where
  "appendAuditTx st inp =
     (case auditSigner st of
        None \<Rightarrow> fail ErrNoAuditSigner
      | Some sg \<Rightarrow>
          bind (pg (advisory_lock 4915208411)) (\<lambda>_.
          attempt (pg q_audit_tail) (\<lambda>tail.
            case tail of
              Inl err \<Rightarrow> if err \<noteq> ErrNoRows then fail err else sign_and_insert st sg inp GenesisHash
            | Inr prev \<Rightarrow> sign_and_insert st sg inp prev)))"

definition inAuditTx :: "Store \<Rightarrow> AuditInput \<Rightarrow> unit io \<Rightarrow> unit io" where
  "inAuditTx st inp mutate =
     (if auditSigner st = None then fail ErrNoAuditSigner
      else in_tx (bind mutate (\<lambda>_. bind (appendAuditTx st inp) (\<lambda>_. ret ()))))"

section \<open>Audited mutations\<close>

definition SuspendUserAudited :: "Store \<Rightarrow> AuditInput \<Rightarrow> unit io" where
  "SuspendUserAudited st inp =
     inAuditTx st inp
       (bind (pg (q_SuspendUser (ai_TargetID inp))) (\<lambda>_.
        bind (pg (q_RevokeAllRefreshTokens (ai_TargetID inp))) (\<lambda>_.
        bind (pg (q_BumpTokenVersion (ai_TargetID inp))) (\<lambda>_. ret ()))))"

definition ReinstateUserAudited :: "Store \<Rightarrow> AuditInput \<Rightarrow> unit io" where
  "ReinstateUserAudited st inp = inAuditTx st inp (pg (q_ActivateUser (ai_TargetID inp)))"

definition SetInstructorAudited :: "Store \<Rightarrow> AuditInput \<Rightarrow> bool \<Rightarrow> unit io" where
  "SetInstructorAudited st inp grant =
     inAuditTx st inp
       (if grant then pg (q_GrantInstructor (ai_TargetID inp))
        else pg (q_RevokeInstructor (ai_TargetID inp)))"

definition AppendAudit :: "Store \<Rightarrow> AuditInput \<Rightarrow> unit io" where
  "AppendAudit st inp = inAuditTx st inp (ret ())"

section \<open>Reading the log\<close>

definition scan_audit :: "AuditRow \<Rightarrow> AuditEntry" where
  "scan_audit r =
     \<lparr>ae_SchemaVersion = AuditSchemaVersion, ae_Seq = al_Seq r, ae_OccurredAt = al_OccurredAt r,
      ae_ActorID = (case al_ActorID r of None \<Rightarrow> '''' | Some a \<Rightarrow> a), ae_ActorRole = al_ActorRole r,
      ae_Action = al_Action r, ae_TargetType = al_TargetType r, ae_TargetID = al_TargetID r,
      ae_Metadata = al_Metadata r, ae_PrevHash = al_PrevHash r, ae_EntryHash = al_EntryHash r,
      ae_SigningKeyID = al_SigningKeyID r, ae_Signature = al_Signature r\<rparr>"

definition audit_entries :: "db \<Rightarrow> AuditEntry list" where
  "audit_entries d = map scan_audit (sort_key al_Seq (audit_log d))"

definition AuditEntries :: "AuditEntry list io" where
  "AuditEntries = pg (\<lambda>now d. Inr (audit_entries d, d))"

definition AuditEntryBySeq :: "int \<Rightarrow> AuditEntry io" where
  "AuditEntryBySeq seq =
     pg (\<lambda>now d. row (map_option scan_audit (first_row (\<lambda>r. al_Seq r = seq) (audit_log d))) d)"


section \<open>The log stays a valid chain\<close>

lemma insort_key_last: "\<forall>y \<in> set ys. f y < f x \<Longrightarrow> insort_key f x ys = ys @ [x]"
  by (induction ys) (auto simp: not_le)

lemma order_by_desc_ascending:
  "sorted_wrt (<) (map k rs) \<Longrightarrow> order_by_desc k rs = rev rs"
  by (induction rs) (auto simp: order_by_desc_def insort_key_last)

lemma latest_by_ascending:
  "sorted_wrt (<) (map k rs) \<Longrightarrow> latest_by k rs = (if rs = [] then None else Some (last rs))"
  by (cases rs rule: rev_cases) (simp_all add: latest_by_def order_by_desc_ascending)

lemma sort_key_ascending: "sorted_wrt (<) (map k rs) \<Longrightarrow> sort_key k rs = (rs :: 'r list)"
  for k :: "'r \<Rightarrow> int"
  by (rule sort_key_id_if_sorted) (simp add: strict_sorted_imp_sorted)

definition audit_inv ::
  "(bytes \<Rightarrow> bytes) \<Rightarrow> verify \<Rightarrow> (string \<rightharpoonup> bytes) \<Rightarrow> db \<Rightarrow> bool" where
  "audit_inv H edv keys d \<longleftrightarrow>
     sorted_wrt (<) (map al_Seq (audit_log d)) \<and> (\<forall>r \<in> set (audit_log d). al_Seq r < audit_log_seq d)
     \<and> audit_linked H edv keys GenesisHash (map scan_audit (audit_log d))"

lemma audit_entries_eq: "audit_inv H edv keys d \<Longrightarrow> audit_entries d = map scan_audit (audit_log d)"
  by (simp add: audit_inv_def audit_entries_def sort_key_ascending)

text \<open>What the signer promises: its signatures verify under the key published for its id.\<close>

definition signer_ok :: "verify \<Rightarrow> (string \<rightharpoonup> bytes) \<Rightarrow> KeySigner \<Rightarrow> bool" where
  "signer_ok edv keys sg \<longleftrightarrow>
     (\<exists>pub. keys (KeyID sg) = Some pub \<and> (\<forall>m s. SignRaw sg m = Inr s \<longrightarrow> edv pub m s))"

text \<open>\<^verbatim>\<open>jsonb\<close> returns the default metadata \<^verbatim>\<open>{}\<close> unchanged; every caller leaves the metadata empty.\<close>

definition store_ok :: "verify \<Rightarrow> (string \<rightharpoonup> bytes) \<Rightarrow> Store \<Rightarrow> bool" where
  "store_ok edv keys st \<longleftrightarrow> jsonb st ''{}'' = Some ''{}''
     \<and> (\<forall>sg. auditSigner st = Some sg \<longrightarrow> signer_ok edv keys sg)"

definition audit_row :: "int \<Rightarrow> AuditEntry \<Rightarrow> AuditRow" where
  "audit_row n e =
     \<lparr>al_Seq = n, al_OccurredAt = ae_OccurredAt e, al_ActorID = Some (ae_ActorID e),
      al_ActorRole = ae_ActorRole e, al_Action = ae_Action e, al_TargetType = ae_TargetType e,
      al_TargetID = ae_TargetID e, al_Metadata = ae_Metadata e, al_PrevHash = ae_PrevHash e,
      al_EntryHash = ae_EntryHash e, al_SigningKeyID = ae_SigningKeyID e, al_Signature = ae_Signature e\<rparr>"

definition appended :: "AuditEntry \<Rightarrow> db \<Rightarrow> db" where
  "appended e d = d\<lparr>audit_log := audit_log d @ [audit_row (audit_log_seq d) e],
                    audit_log_seq := audit_log_seq d + 1\<rparr>"

definition log_tail :: "db \<Rightarrow> bytes" where
  "log_tail d = tail_hash al_EntryHash GenesisHash (audit_log d)"

lemma q_audit_tail_cases:
  assumes "sorted_wrt (<) (map al_Seq (audit_log d))"
  shows "q_audit_tail now d = (if audit_log d = [] then Inl ErrNoRows else Inr (log_tail d, d))"
  using assms by (simp add: q_audit_tail_def latest_by_ascending log_tail_def tail_hash_def)

lemma sign_and_insert_outcome:
  assumes "sign_and_insert st sg inp prev w = (r, w')" and js: "jsonb st ''{}'' = Some ''{}''"
    and meta: "ai_Metadata inp = []"
  shows "(\<exists>e. r = Inl e) \<and> w_db w' = w_db w \<or>
    (\<exists>sig. SignRaw sg (ae_EntryHash (audit_entry st sg inp prev (w_now w))) = Inr sig
       \<and> w_db w' = appended ((audit_entry st sg inp prev (w_now w))\<lparr>ae_Signature := sig\<rparr>) (w_db w)
       \<and> (r = Inr (audit_log_seq (w_db w)) \<or> r = Inl ConnLost))"
proof -
  define e where "e = audit_entry st sg inp prev (w_now w)"
  have m: "ae_Metadata e = ''{}''" using meta by (simp add: e_def audit_entry_def Let_def)
  show ?thesis
  proof (cases "SignRaw sg (ae_EntryHash e)")
    case (Inl err)
    then show ?thesis using assms(1) by (auto simp: sign_and_insert_def io_defs Let_def e_def)
  next
    case (Inr sig)
    then have "pg (q_insert_audit (jsonb st) (e\<lparr>ae_Signature := sig\<rparr>)) w = (r, w')"
      using assms(1) by (simp add: sign_and_insert_def io_defs Let_def e_def)
    from pg_outcome [OF this] show ?thesis
      using Inr m js by (auto simp: q_insert_audit_def appended_def audit_row_def e_def)
  qed
qed


text \<open>The entry an append would write, given the log it reads.\<close>

definition next_entry :: "Store \<Rightarrow> KeySigner \<Rightarrow> AuditInput \<Rightarrow> bytes \<Rightarrow> instant \<Rightarrow> db \<Rightarrow> AuditEntry" where
  "next_entry st sg inp sig t d = (audit_entry st sg inp (log_tail d) t)\<lparr>ae_Signature := sig\<rparr>"

text \<open>Both ledgers read their tail under an advisory lock and go on with it, or with the genesis hash
  when the table is empty.\<close>

lemma tail_read_outcome:
  assumes run: "bind (pg (advisory_lock k)) (\<lambda>_. attempt (pg q) (\<lambda>tail.
        case tail of Inl err \<Rightarrow> if err \<noteq> ErrNoRows then fail err else f g | Inr p \<Rightarrow> f p)) w = (r, w')"
    and q: "\<And>now. q now (w_db w) = (if mt then Inl ErrNoRows else Inr (t, w_db w))"
    and mt0: "mt \<longrightarrow> t = g"
  shows "(\<exists>e. r = Inl e) \<and> w_db w' = w_db w
    \<or> (\<exists>w2. w_db w2 = w_db w \<and> w_now w2 = w_now w \<and> f t w2 = (r, w'))"
  using run
proof (cases rule: bind_outcome)
  case (1 e w1)
  then show ?thesis using pg_InlD [OF 1(1)] by (auto simp: advisory_lock_def)
next
  case (2 x w1)
  have w1: "w_db w1 = w_db w" "w_now w1 = w_now w"
    using pg_outcome [OF 2(1)] by (auto simp: advisory_lock_def same_clock_def)
  define cont where "cont = (\<lambda>tail. case tail of
      Inl err \<Rightarrow> if err \<noteq> ErrNoRows then fail err else f g | Inr p \<Rightarrow> f p)"
  obtain b w2 where b: "pg q w1 = (b, w2)" "cont b w2 = (r, w')"
    using 2(2) by (auto simp: cont_def elim: attemptD)
  note out = pg_outcome [OF b(1), unfolded w1(1) q]
  have w2: "w_db w2 = w_db w" "w_now w2 = w_now w"
    using out w1 by (auto simp: same_clock_def split: if_splits)
  have "(\<exists>e. b = Inl e \<and> e \<noteq> ErrNoRows) \<or> b = Inl ErrNoRows \<and> mt \<or> b = Inr t"
    using out by (auto split: if_splits)
  then show ?thesis
  proof (elim disjE exE conjE)
    fix e assume "b = Inl e" "e \<noteq> ErrNoRows"
    then have "r = Inl e" "w' = w2" using b(2) by (simp_all add: cont_def fail_def)
    with w2 show ?thesis by simp
  next
    assume "b = Inl ErrNoRows" mt
    then have "f t w2 = (r, w')" using b(2) mt0 by (simp add: cont_def)
    with w2 show ?thesis by blast
  next
    assume "b = Inr t"
    then have "f t w2 = (r, w')" using b(2) by (simp add: cont_def)
    with w2 show ?thesis by blast
  qed
qed

lemma appendAuditTx_outcome:
  assumes run: "appendAuditTx st inp w = (r, w')" and js: "jsonb st ''{}'' = Some ''{}''"
    and meta: "ai_Metadata inp = []"
    and asc: "sorted_wrt (<) (map al_Seq (audit_log (w_db w)))"
  shows "(\<exists>e. r = Inl e) \<and> w_db w' = w_db w \<or>
    (\<exists>sg sig. auditSigner st = Some sg
       \<and> SignRaw sg (ae_EntryHash (next_entry st sg inp sig (w_now w) (w_db w))) = Inr sig
       \<and> w_db w' = appended (next_entry st sg inp sig (w_now w) (w_db w)) (w_db w)
       \<and> (r = Inr (audit_log_seq (w_db w)) \<or> r = Inl ConnLost))"
proof (cases "auditSigner st")
  case None
  then show ?thesis using run by (auto simp: appendAuditTx_def fail_def)
next
  case (Some sg)
  note body = run [unfolded appendAuditTx_def Some option.case]
  have "audit_log (w_db w) = [] \<longrightarrow> log_tail (w_db w) = GenesisHash" by (simp add: log_tail_def)
  from tail_read_outcome [OF body q_audit_tail_cases [OF asc] this]
  show ?thesis
  proof (elim disjE exE conjE)
    fix w2 assume w2: "w_db w2 = w_db w" "w_now w2 = w_now w"
      and go: "sign_and_insert st sg inp (log_tail (w_db w)) w2 = (r, w')"
    show ?thesis
      using sign_and_insert_outcome [OF go js meta] Some w2 by (simp add: next_entry_def)
  qed auto
qed

lemma AuditSignedPayload_update [simp]:
  "AuditSignedPayload (e\<lparr>ae_Seq := n\<rparr>) = AuditSignedPayload e"
  "AuditSignedPayload (e\<lparr>ae_Signature := s\<rparr>) = AuditSignedPayload e"
  "AuditSignedPayload (e\<lparr>ae_EntryHash := h\<rparr>) = AuditSignedPayload e"
  by (simp_all add: AuditSignedPayload_def)

lemma scan_audit_row: "ae_SchemaVersion e = AuditSchemaVersion \<Longrightarrow> scan_audit (audit_row n e) = e\<lparr>ae_Seq := n\<rparr>"
  by (simp add: scan_audit_def audit_row_def)

lemma scan_audit_hash [simp]: "ae_EntryHash (scan_audit r) = al_EntryHash r"
  by (simp add: scan_audit_def)

lemma log_tail_scan: "tail_hash ae_EntryHash GenesisHash (map scan_audit (audit_log d)) = log_tail d"
  by (simp add: tail_hash_def log_tail_def last_map)

lemma next_entry_good:
  assumes "signer_ok edv keys sg"
    and "SignRaw sg (ae_EntryHash (next_entry st sg inp sig t d)) = Inr sig"
  shows "entry_good (sha256 st) edv keys ((next_entry st sg inp sig t d)\<lparr>ae_Seq := n\<rparr>)"
  using assms by (auto simp: signer_ok_def VerifyEntry_def next_entry_def audit_entry_def AuditHash_def
      AuditSignedPayload_def Let_def)

lemma appended_inv:
  assumes inv: "audit_inv (sha256 st) edv keys d" and "signer_ok edv keys sg"
    and "SignRaw sg (ae_EntryHash (next_entry st sg inp sig t d)) = Inr sig"
  shows "audit_inv (sha256 st) edv keys (appended (next_entry st sg inp sig t d) d)"
proof -
  have "scan_audit (audit_row (audit_log_seq d) (next_entry st sg inp sig t d))
      = (next_entry st sg inp sig t d)\<lparr>ae_Seq := audit_log_seq d\<rparr>"
    by (rule scan_audit_row) (simp add: next_entry_def audit_entry_def Let_def)
  moreover have "ae_PrevHash (next_entry st sg inp sig t d) = log_tail d"
    by (simp add: next_entry_def audit_entry_def Let_def)
  ultimately show ?thesis
    using inv next_entry_good [OF assms(2,3)]
    by (fastforce simp: audit_inv_def appended_def linked_snoc log_tail_scan sorted_wrt_append audit_row_def)
qed

lemma keeps_appendAuditTx:
  assumes "store_ok edv keys st" and "ai_Metadata inp = []"
  shows "keeps (audit_inv (sha256 st) edv keys) (appendAuditTx st inp)"
proof (rule keepsI)
  fix w :: world assume J: "audit_inv (sha256 st) edv keys (w_db w)"
  obtain r w' where run: "appendAuditTx st inp w = (r, w')" by force
  have js: "jsonb st ''{}'' = Some ''{}''" and asc: "sorted_wrt (<) (map al_Seq (audit_log (w_db w)))"
    using assms(1) J by (simp_all add: store_ok_def audit_inv_def)
  from appendAuditTx_outcome [OF run js assms(2) asc]
  show "audit_inv (sha256 st) edv keys (w_db (snd (appendAuditTx st inp w)))"
  proof (elim disjE exE conjE)
    fix sg sig
    assume "auditSigner st = Some sg"
      and "SignRaw sg (ae_EntryHash (next_entry st sg inp sig (w_now w) (w_db w))) = Inr sig"
      and "w_db w' = appended (next_entry st sg inp sig (w_now w) (w_db w)) (w_db w)"
    with appended_inv [OF J] assms(1) run show ?thesis by (simp add: store_ok_def)
  qed (use run J assms(1) in \<open>simp_all add: appended_inv store_ok_def\<close>)
qed

text \<open>An append keeps every property that does not look at the log.\<close>

lemma keeps_append_frame:
  assumes "\<And>d l n. J (d\<lparr>audit_log := l, audit_log_seq := n\<rparr>) = J d"
  shows "keeps J (appendAuditTx st inp)"
  unfolding appendAuditTx_def sign_and_insert_def Let_def
  by (intro keeps_rules)
    (auto simp: stmt_keeps_def advisory_lock_def q_audit_tail_def q_insert_audit_def assms split: option.splits dest!: row_InrD)

text \<open>A rollback keeps the log and never moves the sequence back.\<close>

lemma tx_safe_audit_inv: "tx_safe (audit_inv H edv keys)"
  by (auto simp: tx_safe_def audit_inv_def rolled_back_def less_max_iff_disj)

lemma keeps_inAuditTx:
  assumes "store_ok edv keys st" and "ai_Metadata inp = []"
    and "keeps (audit_inv (sha256 st) edv keys) mutate"
  shows "keeps (audit_inv (sha256 st) edv keys) (inAuditTx st inp mutate)"
  using assms
  by (auto simp: inAuditTx_def intro!: keeps_rules keeps_in_tx tx_safe_audit_inv keeps_appendAuditTx)

text \<open>Statements that leave the two ledgers alone.\<close>

definition ledgers :: "db \<Rightarrow> AuditRow list \<times> int \<times> ConsentRow list \<times> int" where
  "ledgers d = (audit_log d, audit_log_seq d, consent_records d, consent_records_seq d)"

definition quiet :: "'a stmt \<Rightarrow> bool" where
  "quiet s \<longleftrightarrow> (\<forall>now d x d'. s now d = Inr (x, d') \<longrightarrow> ledgers d' = ledgers d)"

named_theorems quiet_rules \<open>statements that leave the ledgers alone\<close>

lemma quiet_keeps_audit: "quiet s \<Longrightarrow> stmt_keeps (audit_inv H edv keys) s"
  by (auto simp: quiet_def stmt_keeps_def ledgers_def audit_inv_def)

lemma quiet_user_updates [quiet_rules]:
  "quiet (q_SuspendUser u)" "quiet (q_RevokeAllRefreshTokens u)" "quiet (q_BumpTokenVersion u)"
  "quiet (q_ActivateUser u)" "quiet (q_GrantInstructor u)" "quiet (q_RevokeInstructor u)"
  by (auto simp: quiet_def ledgers_def q_SuspendUser_def q_RevokeAllRefreshTokens_def q_BumpTokenVersion_def
      q_ActivateUser_def q_GrantInstructor_def q_RevokeInstructor_def update_user_def
      split: if_splits option.splits)

lemma keeps_audited [keeps_rules]:
  assumes "store_ok edv keys st" and "ai_Metadata inp = []"
  shows "keeps (audit_inv (sha256 st) edv keys) (SuspendUserAudited st inp)"
    and "keeps (audit_inv (sha256 st) edv keys) (ReinstateUserAudited st inp)"
    and "keeps (audit_inv (sha256 st) edv keys) (SetInstructorAudited st inp g)"
    and "keeps (audit_inv (sha256 st) edv keys) (AppendAudit st inp)"
  unfolding SuspendUserAudited_def ReinstateUserAudited_def SetInstructorAudited_def AppendAudit_def
  by (intro keeps_inAuditTx assms keeps_rules quiet_keeps_audit quiet_rules)+


section \<open>An audited mutation lands with its entry, or not at all\<close>

definition unchanged :: "db \<Rightarrow> db \<Rightarrow> bool" where
  "unchanged d d' \<longleftrightarrow> (\<exists>d1. d' = rolled_back d d1)"

lemma unchanged_refl [simp]: "unchanged d d"
  unfolding unchanged_def by (rule exI [of _ d]) (simp add: rolled_back_def)

lemma unchanged_tables:
  assumes "unchanged d d'"
  shows "users d' = users d" "refresh_tokens d' = refresh_tokens d" "audit_log d' = audit_log d"
    "entitlements d' = entitlements d" "presence_checkpoints d' = presence_checkpoints d"
    "consent_records d' = consent_records d" "presence_events d' = presence_events d"
  using assms by (auto simp: unchanged_def rolled_back_def)

definition records_action :: "AuditInput \<Rightarrow> AuditRow \<Rightarrow> bool" where
  "records_action inp r \<longleftrightarrow> al_ActorID r = Some (ai_ActorID inp) \<and> al_ActorRole r = ai_ActorRole inp
     \<and> al_Action r = ai_Action inp \<and> al_TargetType r = ai_TargetType inp \<and> al_TargetID r = ai_TargetID inp"

lemma records_next_entry: "records_action inp (audit_row n (next_entry st sg inp sig t d))"
  by (simp add: records_action_def audit_row_def next_entry_def audit_entry_def Let_def)

lemma inAuditTx_outcome:
  assumes run: "inAuditTx st inp mutate w = (r, w')" and "jsonb st ''{}'' = Some ''{}''"
    and "ai_Metadata inp = []"
    and asc: "\<And>w1 w2. mutate w1 = (Inr (), w2) \<Longrightarrow> w_db w1 = w_db w \<Longrightarrow>
      sorted_wrt (<) (map al_Seq (audit_log (w_db w2)))"
  shows "(\<exists>e. r = Inl e) \<and> unchanged (w_db w) (w_db w') \<or>
    (r = Inr () \<or> r = Inl ConnLost) \<and>
    (\<exists>w1 w2 row. mutate w1 = (Inr (), w2) \<and> w_db w1 = w_db w \<and> w_pgnow w1 = w_pgnow w \<and> records_action inp row
       \<and> w_db w' = (w_db w2)\<lparr>audit_log := audit_log (w_db w2) @ [row], audit_log_seq := audit_log_seq (w_db w2) + 1\<rparr>)"
proof (cases "auditSigner st = None")
  case True
  then have "r = Inl ErrNoAuditSigner" "w' = w" using run by (simp_all add: inAuditTx_def fail_def)
  moreover have "w_db w = rolled_back (w_db w) (w_db w)" by (simp add: rolled_back_def)
  ultimately show ?thesis by (auto simp: unchanged_def)
next
  case False
  then have "in_tx (bind mutate (\<lambda>_. bind (appendAuditTx st inp) (\<lambda>_. ret ()))) w = (r, w')"
    using run by (auto simp: inAuditTx_def)
  from in_tx_outcome [OF this] show ?thesis
  proof (elim disjE [of "_ \<and> _"] exE conjE)
    fix d e assume "w_db w' = rolled_back (w_db w) d" "r = Inl e"
    then show ?thesis by (auto simp: unchanged_def)
  next
    fix w1 x w2
    assume t: "take_fault w = (NoFault, w1)" and w': "w_db w' = w_db w2"
      and body: "bind mutate (\<lambda>_. bind (appendAuditTx st inp) (\<lambda>_. ret ())) w1 = (Inr x, w2)"
      and r: "r = Inr x \<or> r = Inl ConnLost"
    obtain u w3 where m: "mutate w1 = (Inr u, w3)" and b: "bind (appendAuditTx st inp) (\<lambda>_. ret ()) w3 = (Inr x, w2)"
      using body by (rule bind_InrD)
    from b obtain n w4 where "appendAuditTx st inp w3 = (Inr n, w4)" "ret () w4 = (Inr x, w2)"
      by (rule bind_InrD)
    then have a: "appendAuditTx st inp w3 = (Inr n, w2)" by simp
    have "w_db w1 = w_db w" "w_pgnow w1 = w_pgnow w" using take_fault_fields [OF t] by simp_all
    with appendAuditTx_outcome [OF a assms(2,3) asc [of w1]] m r w' show ?thesis
      by (auto simp: appended_def) (metis records_next_entry)+
  qed
qed


lemma quiet_pg_log: "quiet s \<Longrightarrow> pg s w = (r, w') \<Longrightarrow> audit_log (w_db w') = audit_log (w_db w)"
  using pg_outcome [of s w r w'] by (auto simp: quiet_def ledgers_def)

definition suspended :: "string \<Rightarrow> db \<Rightarrow> db \<Rightarrow> bool" where
  "suspended uid d d' \<longleftrightarrow>
     users d' = update_rows (\<lambda>u. u_ID u = uid)
       (\<lambda>u. u\<lparr>u_Status := ''suspended'', u_TokenVersion := u_TokenVersion u + 1\<rparr>) (users d)
     \<and> (\<forall>t \<in> set (refresh_tokens d'). rt_UserID t = uid \<longrightarrow> rt_RevokedAt t \<noteq> None)
     \<and> user_exists uid d"

lemma suspend_mutation:
  assumes "bind (pg (q_SuspendUser uid)) (\<lambda>_. bind (pg (q_RevokeAllRefreshTokens uid)) (\<lambda>_.
      bind (pg (q_BumpTokenVersion uid)) (\<lambda>_. ret ()))) w = (Inr (), w')"
  shows "suspended uid (w_db w) (w_db w') \<and> audit_log (w_db w') = audit_log (w_db w)"
proof -
  obtain w1 w2 n where 1: "pg (q_SuspendUser uid) w = (Inr (), w1)"
    and 2: "pg (q_RevokeAllRefreshTokens uid) w1 = (Inr (), w2)"
    and 3: "pg (q_BumpTokenVersion uid) w2 = (Inr n, w')"
    using assms by (elim bind_InrD) auto
  have d1: "w_db w1 = update_user uid (\<lambda>u. u\<lparr>u_Status := ''suspended''\<rparr>) (w_db w)"
    using 1 by (elim pg_InrD) (simp add: q_SuspendUser_def)
  obtain t where d2: "w_db w2 = (w_db w1)\<lparr>refresh_tokens := update_rows (\<lambda>r. rt_UserID r = uid \<and> rt_RevokedAt r = None)
            (\<lambda>r. r\<lparr>rt_RevokedAt := Some t\<rparr>) (refresh_tokens (w_db w1))\<rparr>"
    using 2 by (elim pg_InrD) (auto simp: q_RevokeAllRefreshTokens_def)
  have d3: "w_db w' = update_user uid (\<lambda>u. u\<lparr>u_TokenVersion := u_TokenVersion u + 1\<rparr>) (w_db w2)"
    and ex: "\<exists>u \<in> set (users (w_db w2)). u_ID u = uid"
    using 3 by (elim pg_InrD; auto simp: q_BumpTokenVersion_def dest: find_SomeD split: option.splits if_splits)+
  have users2: "users (w_db w2) = update_rows (\<lambda>u. u_ID u = uid) (\<lambda>u. u\<lparr>u_Status := ''suspended''\<rparr>) (users (w_db w))"
    by (simp add: d1 d2 update_user_def)
  have "users (w_db w') = update_rows (\<lambda>u. u_ID u = uid)
       (\<lambda>u. u\<lparr>u_Status := ''suspended'', u_TokenVersion := u_TokenVersion u + 1\<rparr>) (users (w_db w))"
    by (simp add: d3 update_user_def users2 update_rows_twice)
  moreover have "user_exists uid (w_db w)"
    using ex by (auto simp: users2 user_exists_def list_ex_iff split: if_splits)
  moreover have "\<forall>t \<in> set (refresh_tokens (w_db w')). rt_UserID t = uid \<longrightarrow> rt_RevokedAt t \<noteq> None"
    by (simp add: d3 d2 update_user_def)
  moreover have "audit_log (w_db w') = audit_log (w_db w)"
    by (simp add: d3 d2 d1 update_user_def)
  ultimately show ?thesis by (simp add: suspended_def)
qed

text \<open>C9: a suspension is atomic with its audit entry. Whatever faults the connection shows (the
  commit's answer lost included), either no table has changed and an error is returned, or the
  account is suspended, its token version bumped and every refresh token revoked, and the log has
  exactly one new entry that names the actor, the action and the account.\<close>
theorem SuspendUserAudited_atomic:
  assumes "audit_inv (sha256 st) edv keys (w_db w)" and "store_ok edv keys st" and "ai_Metadata inp = []"
    and "SuspendUserAudited st inp w = (r, w')"
  shows "(\<exists>e. r = Inl e) \<and> unchanged (w_db w) (w_db w') \<or>
    (r = Inr () \<or> r = Inl ConnLost) \<and> suspended (ai_TargetID inp) (w_db w) (w_db w')
    \<and> (\<exists>row. audit_log (w_db w') = audit_log (w_db w) @ [row] \<and> records_action inp row)"
proof -
  have js: "jsonb st ''{}'' = Some ''{}''" using assms(2) by (simp add: store_ok_def)
  note mut = suspend_mutation [of "ai_TargetID inp"]
  have asc: "sorted_wrt (<) (map al_Seq (audit_log (w_db w)))" using assms(1) by (simp add: audit_inv_def)
  show ?thesis
    using inAuditTx_outcome [OF assms(4) [unfolded SuspendUserAudited_def] js assms(3)] mut asc
    by (fastforce simp: suspended_def)
qed


text \<open>A concrete store, key set and account for the witnesses.\<close>

definition demo_signer :: KeySigner where
  "demo_signer = \<lparr>KeyID = ''k1'', SignRaw = (\<lambda>m. Inr m)\<rparr>"

definition demo_edv :: verify where
  "demo_edv pub m s = (s = m)"

definition demo_keys :: "string \<rightharpoonup> bytes" where
  "demo_keys = [''k1'' \<mapsto> ''pub'']"

definition demo_store :: Store where
  "demo_store = \<lparr>auditSigner = Some demo_signer, sha256 = pad32, jsonb = (\<lambda>m. Some m)\<rparr>"

definition demo_user :: "string \<Rightarrow> User" where
  "demo_user uid = \<lparr>u_ID = uid, u_Handle = uid, u_DisplayName = uid, u_Bio = None, u_Locale = ''vi'',
     u_Status = ''active'', u_CanInstruct = False, u_IsPlatformModerator = False, u_TokenVersion = 1,
     u_CreatedAt = 0, u_DeletedAt = None\<rparr>"

definition demo_world :: "db \<Rightarrow> world" where
  "demo_world d = \<lparr>w_db = d, w_pgnow = 0, w_now = 0, w_faults = [], w_replies = [], w_calls = [], w_outbox = []\<rparr>"

definition demo_input :: AuditInput where
  "demo_input = \<lparr>ai_ActorID = ''mod'', ai_ActorRole = AuditRoleModerator, ai_Action = ActionUserSuspended,
     ai_TargetType = ''user'', ai_TargetID = ''u1'', ai_Metadata = []\<rparr>"

lemma demo_store_ok: "store_ok demo_edv demo_keys demo_store"
  by (simp add: store_ok_def demo_store_def signer_ok_def demo_signer_def demo_keys_def demo_edv_def)

lemma audit_inv_empty: "audit_log d = [] \<Longrightarrow> audit_inv H edv keys d"
  by (simp add: audit_inv_def)

theorem SuspendUserAudited_atomic_witness:
  "let w = demo_world (empty_db\<lparr>users := [demo_user ''u1'']\<rparr>); (r, w') = SuspendUserAudited demo_store demo_input w
   in (\<exists>e. r = Inl e) \<and> unchanged (w_db w) (w_db w') \<or>
      (r = Inr () \<or> r = Inl ConnLost) \<and> suspended ''u1'' (w_db w) (w_db w')
      \<and> (\<exists>row. audit_log (w_db w') = audit_log (w_db w) @ [row] \<and> records_action demo_input row)"
proof -
  define w where "w = demo_world (empty_db\<lparr>users := [demo_user ''u1'']\<rparr>)"
  obtain r w' where run: "SuspendUserAudited demo_store demo_input w = (r, w')" by force
  have "audit_inv (sha256 demo_store) demo_edv demo_keys (w_db w)"
    by (rule audit_inv_empty) (simp add: w_def demo_world_def empty_db_def)
  from SuspendUserAudited_atomic [OF this demo_store_ok _ run] run show ?thesis
    by (simp add: demo_input_def Let_def flip: w_def)
qed

text \<open>C10: the tail hash binds the audit history. Two logs that both verify and end in the same entry
  hash record the same facts in the same order (every signed field, entry by entry), when SHA-256
  does not collide on the payloads involved and none of them hashes to the genesis value: an entry
  cannot be altered, inserted, dropped or moved without changing the tail.\<close>
theorem VerifyChain_binds_history:
  assumes "VerifyChain H edv keys es = None" and "VerifyChain H edv keys fs = None"
    and "\<forall>e \<in> set es \<union> set fs. audit_wf e"
    and "inj_on H (AuditSignedPayload ` (set es \<union> set fs))"
    and "GenesisHash \<notin> H ` AuditSignedPayload ` (set es \<union> set fs)"
    and "tail_hash ae_EntryHash GenesisHash es = tail_hash ae_EntryHash GenesisHash fs"
  shows "map audit_content es = map audit_content fs"
  using audit.tail_binds_history [OF _ _ assms(3-6)] assms(1,2) by (simp add: VerifyChain_iff)

lemma payload_not_genesis:
  assumes "ae_SchemaVersion e = AuditSchemaVersion"
  shows "pad32 (AuditSignedPayload e) \<noteq> GenesisHash"
proof -
  have head: "be_bytes 4 (unat (1 :: 32 word)) = [CHR 0x00, CHR 0x00, CHR 0x00, CHR 0x01]"
    by code_simp
  obtain rest where "AuditSignedPayload e = putUint32 1 @ rest"
    using assms by (simp add: AuditSignedPayload_def)
  then have "pad32 (AuditSignedPayload e) ! 3 = CHR 0x01"
    by (simp only: pad32_def putUint32_def head) simp
  moreover have "GenesisHash ! 3 = CHR 0x00" by (simp add: GenesisHash_def)
  ultimately show ?thesis by auto
qed

definition demo_chain :: "AuditEntry list" where
  "demo_chain = [next_entry demo_store demo_signer demo_input
      (ae_EntryHash (audit_entry demo_store demo_signer demo_input GenesisHash 0)) 0 empty_db]"

theorem VerifyChain_binds_history_witness:
  "VerifyChain pad32 demo_edv demo_keys demo_chain = None
   \<and> map audit_content demo_chain = map audit_content demo_chain"
proof -
  define e where "e = next_entry demo_store demo_signer demo_input
      (ae_EntryHash (audit_entry demo_store demo_signer demo_input GenesisHash 0)) 0 empty_db"
  have tail: "log_tail empty_db = GenesisHash" by (simp add: log_tail_def empty_db_def)
  have sg: "signer_ok demo_edv demo_keys demo_signer"
    by (simp add: signer_ok_def demo_signer_def demo_keys_def demo_edv_def)
  have "entry_good pad32 demo_edv demo_keys (e\<lparr>ae_Seq := 0\<rparr>)"
    using next_entry_good [OF sg, of demo_store demo_input _ 0 empty_db 0]
    by (simp add: e_def next_entry_def tail demo_signer_def demo_store_def)
  then have v: "VerifyChain pad32 demo_edv demo_keys demo_chain = None"
    by (simp add: VerifyChain_iff demo_chain_def e_def next_entry_def audit_entry_def tail Let_def)
  have wf: "\<forall>e \<in> set demo_chain \<union> set demo_chain. audit_wf e"
    by (simp add: demo_chain_def next_entry_def audit_entry_def tail Let_def audit_wf_def int_fits_def
        unix_def demo_input_def demo_signer_def GenesisHash_def)
  have ne: "pad32 (AuditSignedPayload e) \<noteq> GenesisHash"
    by (rule payload_not_genesis) (simp add: e_def next_entry_def audit_entry_def Let_def)
  have g: "GenesisHash \<notin> pad32 ` AuditSignedPayload ` (set demo_chain \<union> set demo_chain)"
    using ne [symmetric] by (simp add: demo_chain_def flip: e_def)
  have i: "inj_on pad32 (AuditSignedPayload ` (set demo_chain \<union> set demo_chain))"
    by (simp add: demo_chain_def)
  show ?thesis using VerifyChain_binds_history [OF v v wf i g refl] v by simp
qed

end
