(* ===== verification/Repos.thy ===== *)
theory Repos
  imports AuditLog
begin

text \<open>
  The data-access methods of \<^verbatim>\<open>internal/store\<close> that a service calls: thin methods over one query
  (\<^verbatim>\<open>repos.go\<close>), and the files with hand-written SQL for enrollment, recordings, presence,
  entitlements, step-up grants and the account pages. The audit log and the consent ledger have
  theories of their own.
\<close>

section \<open>Accounts\<close>

definition CreateUser :: "string \<Rightarrow> string \<Rightarrow> string \<Rightarrow> string \<Rightarrow> bool \<Rightarrow> User io" where
  "CreateUser uid handle displayName locale canInstruct =
     pg (q_CreateUser uid handle displayName (if locale = '''' then ''vi'' else locale) canInstruct)"

definition GetUser :: "string \<Rightarrow> User io" where
  "GetUser uid = pg (q_GetUser uid)"

abbreviation ErrHandleTaken :: error where "ErrHandleTaken \<equiv> Err ''store: handle already taken''"

definition UpdateProfile :: "string \<Rightarrow> string \<Rightarrow> string \<Rightarrow> string \<Rightarrow> unit io" where
  "UpdateProfile uid handle displayName bio =
     attempt (pg (q_UpdateProfile uid handle displayName (if bio \<noteq> '''' then Some bio else None))) (\<lambda>r.
       case r of
         Inl (UniqueViolation _) \<Rightarrow> fail ErrHandleTaken
       | Inl err \<Rightarrow> fail err
       | Inr _ \<Rightarrow> ret ())"

definition UserExists :: "string \<Rightarrow> bool io" where
  "UserExists uid = pg (q_UserExists uid)"

definition PromoteToModerator :: "string \<Rightarrow> unit io" where
  "PromoteToModerator uid = pg (q_PromoteToModerator uid)"

definition GrantInstructor :: "string \<Rightarrow> unit io" where
  "GrantInstructor uid = pg (q_GrantInstructor uid)"

definition RevokeInstructor :: "string \<Rightarrow> unit io" where
  "RevokeInstructor uid = pg (q_RevokeInstructor uid)"

definition GetUserByHandle :: "string \<Rightarrow> User io" where
  "GetUserByHandle handle = pg (q_GetUserByHandle handle)"

definition ListUsers :: "int \<Rightarrow> User list io" where
  "ListUsers limit = pg (q_ListUsers (nat (if limit \<le> 0 then 200 else limit)))"

definition ActivateUser :: "string \<Rightarrow> unit io" where
  "ActivateUser uid = pg (q_ActivateUser uid)"

definition SuspendUser :: "string \<Rightarrow> unit io" where
  "SuspendUser uid = pg (q_SuspendUser uid)"

definition SoftDeleteUser :: "string \<Rightarrow> unit io" where
  "SoftDeleteUser uid = pg (q_SoftDeleteUser uid)"

definition CloseAccount :: "string \<Rightarrow> unit io" where
  "CloseAccount uid = pg (q_CloseAccount uid)"

definition RevokeAllSessions :: "string \<Rightarrow> unit io" where
  "RevokeAllSessions uid =
     bind (pg (q_RevokeAllRefreshTokens uid)) (\<lambda>_. bind (pg (q_BumpTokenVersion uid)) (\<lambda>_. ret ()))"

section \<open>Identity and Terms of Service\<close>

definition CreateIdentityRecord :: "string \<Rightarrow> unit io" where
  "CreateIdentityRecord uid = pg (q_CreateIdentityRecord uid)"

definition SetIdentityVerificationPending :: "string \<Rightarrow> unit io" where
  "SetIdentityVerificationPending uid = pg (q_SetIdentityVerificationPending uid)"

definition VerifyAdultIdentity :: "string \<Rightarrow> string \<Rightarrow> instant \<Rightarrow> unit io" where
  "VerifyAdultIdentity uid providerRef retainUntil =
     pg (q_VerifyAdultIdentity uid (Some providerRef) (Some retainUntil))"

definition RevokeIdentityVerification :: "string \<Rightarrow> unit io" where
  "RevokeIdentityVerification uid = pg (q_RevokeIdentityVerification uid)"

definition GetIdentity :: "string \<Rightarrow> IdentityVault io" where
  "GetIdentity uid = pg (q_GetIdentity uid)"

definition AcceptToS :: "string \<Rightarrow> string \<Rightarrow> bool \<Rightarrow> unit io" where
  "AcceptToS uid version adultAttested = pg (q_AcceptToS uid version adultAttested)"

definition HasAdultAttestation :: "string \<Rightarrow> bool io" where
  "HasAdultAttestation uid = pg (q_HasAdultAttestation uid)"

section \<open>Login factors\<close>

definition GetFederatedIdentity :: "string \<Rightarrow> string \<Rightarrow> FederatedIdentity io" where
  "GetFederatedIdentity provider subject = pg (q_GetFederatedIdentity provider subject)"

definition LinkFederatedIdentity :: "string \<Rightarrow> string \<Rightarrow> string \<Rightarrow> unit io" where
  "LinkFederatedIdentity provider subject uid = pg (q_LinkFederatedIdentity provider subject uid)"

definition TouchFederatedLogin :: "string \<Rightarrow> string \<Rightarrow> unit io" where
  "TouchFederatedLogin provider subject = pg (q_TouchFederatedLogin provider subject)"

definition GetEmailIdentity :: "string \<Rightarrow> EmailIdentity io" where
  "GetEmailIdentity email = pg (q_GetEmailIdentity email)"

definition LinkEmailIdentity :: "string \<Rightarrow> string \<Rightarrow> unit io" where
  "LinkEmailIdentity email uid = pg (q_LinkEmailIdentity email uid)"

definition TouchEmailLogin :: "string \<Rightarrow> unit io" where
  "TouchEmailLogin email = pg (q_TouchEmailLogin email)"

definition CreateLoginChallenge :: "string \<Rightarrow> string \<Rightarrow> bytes \<Rightarrow> instant \<Rightarrow> unit io" where
  "CreateLoginChallenge cid email codeHash expiresAt = pg (q_CreateLoginChallenge cid email codeHash expiresAt)"

definition GetActiveLoginChallenge :: "string \<Rightarrow> Challenge io" where
  "GetActiveLoginChallenge email = pg (q_GetActiveLoginChallenge email)"

definition IncrementLoginChallengeAttempts :: "string \<Rightarrow> unit io" where
  "IncrementLoginChallengeAttempts cid = pg (q_IncrementLoginChallengeAttempts cid)"

definition ConsumeLoginChallenge :: "string \<Rightarrow> unit io" where
  "ConsumeLoginChallenge cid = pg (q_ConsumeLoginChallenge cid)"

definition GetPhoneIdentity :: "string \<Rightarrow> PhoneIdentity io" where
  "GetPhoneIdentity phone = pg (q_GetPhoneIdentity phone)"

definition GetPhoneIdentityByUser :: "string \<Rightarrow> PhoneIdentity io" where
  "GetPhoneIdentityByUser uid = pg (q_GetPhoneIdentityByUser uid)"

definition LinkPhoneIdentity :: "string \<Rightarrow> string \<Rightarrow> unit io" where
  "LinkPhoneIdentity phone uid = pg (q_LinkPhoneIdentity phone uid)"

definition TouchPhoneLogin :: "string \<Rightarrow> unit io" where
  "TouchPhoneLogin phone = pg (q_TouchPhoneLogin phone)"

definition HasVerifiedPhone :: "string \<Rightarrow> bool io" where
  "HasVerifiedPhone uid = pg (q_HasVerifiedPhone uid)"

definition CreatePhoneChallenge :: "string \<Rightarrow> string \<Rightarrow> bytes \<Rightarrow> instant \<Rightarrow> unit io" where
  "CreatePhoneChallenge cid phone codeHash expiresAt = pg (q_CreatePhoneChallenge cid phone codeHash expiresAt)"

definition GetActivePhoneChallenge :: "string \<Rightarrow> Challenge io" where
  "GetActivePhoneChallenge phone = pg (q_GetActivePhoneChallenge phone)"

definition IncrementPhoneChallengeAttempts :: "string \<Rightarrow> unit io" where
  "IncrementPhoneChallengeAttempts cid = pg (q_IncrementPhoneChallengeAttempts cid)"

definition ConsumePhoneChallenge :: "string \<Rightarrow> unit io" where
  "ConsumePhoneChallenge cid = pg (q_ConsumePhoneChallenge cid)"

section \<open>Classes, enrollment and sessions\<close>

definition store_CreateClass :: "string \<Rightarrow> string \<Rightarrow> string \<Rightarrow> string \<Rightarrow> Class io" where
  "store_CreateClass cid instructor title description = pg (q_CreateClass cid instructor title description)"

definition GetClass :: "string \<Rightarrow> Class io" where
  "GetClass cid = pg (q_GetClass cid)"

definition ListClassesByInstructor :: "string \<Rightarrow> Class list io" where
  "ListClassesByInstructor uid = pg (q_ListClassesByInstructor uid)"

definition UpdateClassStatus :: "string \<Rightarrow> string \<Rightarrow> unit io" where
  "UpdateClassStatus cid status = pg (q_UpdateClassStatus cid status)"

definition ListPublishedClasses :: "Class list io" where
  "ListPublishedClasses = pg q_ListPublishedClasses"

definition EnrollClass :: "string \<Rightarrow> string \<Rightarrow> unit io" where
  "EnrollClass cid uid = pg (\<lambda>now d.
     if exists_row (\<lambda>m. cm_ClassID m = cid \<and> cm_UserID m = uid) (class_members d) then Inr ((), d)
     else if \<not> exists_row (\<lambda>c. c_ID c = cid) (classes d) then Inl (ForeignKeyViolation ''class_members_class_id_fkey'')
     else if \<not> user_exists uid d then Inl (ForeignKeyViolation ''class_members_user_id_fkey'')
     else Inr ((), d\<lparr>class_members := class_members d
            @ [\<lparr>cm_ClassID = cid, cm_UserID = uid, cm_EnrolledAt = now\<rparr>]\<rparr>))"

definition UnenrollClass :: "string \<Rightarrow> string \<Rightarrow> unit io" where
  "UnenrollClass cid uid = pg (\<lambda>now d.
     Inr ((), d\<lparr>class_members := filter (\<lambda>m. \<not> (cm_ClassID m = cid \<and> cm_UserID m = uid)) (class_members d)\<rparr>))"

definition roster :: "string \<Rightarrow> db \<Rightarrow> ClassMember list" where
  "roster cid d = select_rows (\<lambda>m. cm_ClassID m = cid) (class_members d)"

definition CountClassMembers :: "string \<Rightarrow> int io" where
  "CountClassMembers cid = pg (\<lambda>now d. Inr (int (length (roster cid d)), d))"

definition ClassCapacity :: "string \<Rightarrow> (int \<times> bool) io" where
  "ClassCapacity cid = pg (\<lambda>now d.
     case first_row (\<lambda>c. c_ID c = cid) (classes d) of
       None \<Rightarrow> Inr ((0, False), d) | Some c \<Rightarrow> Inr ((c_Capacity c, True), d))"

definition SetClassCapacity :: "string \<Rightarrow> int \<Rightarrow> unit io" where
  "SetClassCapacity cid capacity = pg (\<lambda>now d.
     if exists_row (\<lambda>c. c_ID c = cid) (classes d) \<and> capacity < 0
     then Inl (CheckViolation ''classes_capacity_check'')
     else if capacity > maxint32 then Inl OutOfRange
     else Inr ((), d\<lparr>classes := update_rows (\<lambda>c. c_ID c = cid) (\<lambda>c. c\<lparr>c_Capacity := capacity\<rparr>) (classes d)\<rparr>))"

definition is_enrolled :: "string \<Rightarrow> string \<Rightarrow> db \<Rightarrow> bool" where
  "is_enrolled cid uid d = exists_row (\<lambda>m. cm_ClassID m = cid \<and> cm_UserID m = uid) (class_members d)"

definition IsEnrolled :: "string \<Rightarrow> string \<Rightarrow> bool io" where
  "IsEnrolled cid uid = pg (\<lambda>now d. Inr (is_enrolled cid uid d, d))"

definition EnrolledClassesWithDetails :: "string \<Rightarrow> Class list io" where
  "EnrolledClassesWithDetails uid = pg (\<lambda>now d.
     Inr (concat (map (\<lambda>m. select_rows (\<lambda>c. c_ID c = cm_ClassID m) (classes d))
            (order_by_desc cm_EnrolledAt (select_rows (\<lambda>m. cm_UserID m = uid) (class_members d)))), d))"

definition EnrolledClassIDs :: "string \<Rightarrow> string list io" where
  "EnrolledClassIDs uid = pg (\<lambda>now d.
     Inr (map cm_ClassID (order_by_desc cm_EnrolledAt (select_rows (\<lambda>m. cm_UserID m = uid) (class_members d))), d))"

definition store_CreateSession ::
  "string \<Rightarrow> string \<Rightarrow> string option \<Rightarrow> string \<Rightarrow> instant option \<Rightarrow> Session io" where
  "store_CreateSession sid kind classID room scheduledStart = pg (q_CreateSession sid kind classID room scheduledStart)"

definition GetSession :: "string \<Rightarrow> Session io" where
  "GetSession sid = pg (q_GetSession sid)"

definition StartSession :: "string \<Rightarrow> unit io" where
  "StartSession sid = pg (q_StartSession sid)"

definition EndSession :: "string \<Rightarrow> unit io" where
  "EndSession sid = pg (q_EndSession sid)"

definition AddParticipant :: "string \<Rightarrow> string \<Rightarrow> string \<Rightarrow> unit io" where
  "AddParticipant sid uid role = pg (q_AddParticipant sid uid role)"

definition RemoveParticipant :: "string \<Rightarrow> string \<Rightarrow> unit io" where
  "RemoveParticipant sid uid = pg (q_RemoveParticipant sid uid)"

definition ListActiveParticipants :: "string \<Rightarrow> SessionParticipant list io" where
  "ListActiveParticipants sid = pg (q_ListActiveParticipants sid)"

definition ListSessionsByClass :: "string \<Rightarrow> Session list io" where
  "ListSessionsByClass cid = pg (q_ListSessionsByClass (Some cid))"

section \<open>Recordings\<close>

definition in_flight :: "Recording \<Rightarrow> bool" where
  "in_flight r \<longleftrightarrow> rc_Status r \<in> {''starting'', ''active'', ''stopping''}"

definition recording_status :: "string \<Rightarrow> bool" where
  "recording_status st \<longleftrightarrow> st \<in> {''starting'', ''active'', ''stopping'', ''completed'', ''failed'', ''aborted''}"

definition coalesce :: "string option \<Rightarrow> string" where
  "coalesce o' = (case o' of None \<Rightarrow> '''' | Some s \<Rightarrow> s)"

text \<open>\<^verbatim>\<open>recordings_one_active_idx\<close>: at most one in-flight recording per session.\<close>

definition CreateRecording :: "string \<Rightarrow> string \<Rightarrow> string \<Rightarrow> unit io" where
  "CreateRecording rid sid status = pg (\<lambda>now d.
     let r = \<lparr>rc_ID = rid, rc_SessionID = sid, rc_EgressID = None, rc_Status = status, rc_OutputURI = None,
              rc_Error = None, rc_StartedAt = now, rc_EndedAt = None\<rparr>
     in if \<not> recording_status status then Inl (CheckViolation ''recordings_status_check'')
        else if exists_row (\<lambda>q. rc_ID q = rid) (recordings d) then Inl (UniqueViolation ''recordings_pkey'')
        else if in_flight r \<and> exists_row (\<lambda>q. rc_SessionID q = sid \<and> in_flight q) (recordings d)
        then Inl (UniqueViolation ''recordings_one_active_idx'')
        else if \<not> exists_row (\<lambda>s. s_ID s = sid) (sessions d)
        then Inl (ForeignKeyViolation ''recordings_session_id_fkey'')
        else Inr ((), d\<lparr>recordings := recordings d @ [r]\<rparr>))"

definition SetRecordingEgress :: "string \<Rightarrow> string \<Rightarrow> string \<Rightarrow> unit io" where
  "SetRecordingEgress rid egressID status = pg (\<lambda>now d.
     if exists_row (\<lambda>r. rc_ID r = rid) (recordings d) \<and> \<not> recording_status status
     then Inl (CheckViolation ''recordings_status_check'')
     else if status \<in> {''starting'', ''active'', ''stopping''}
       \<and> exists_row (\<lambda>r. rc_ID r = rid \<and>
             exists_row (\<lambda>q. rc_ID q \<noteq> rid \<and> rc_SessionID q = rc_SessionID r \<and> in_flight q) (recordings d)) (recordings d)
     then Inl (UniqueViolation ''recordings_one_active_idx'')
     else Inr ((), d\<lparr>recordings := update_rows (\<lambda>r. rc_ID r = rid)
            (\<lambda>r. r\<lparr>rc_EgressID := Some egressID, rc_Status := status\<rparr>) (recordings d)\<rparr>))"

definition terminal_status :: "string \<Rightarrow> bool" where
  "terminal_status st \<longleftrightarrow> st \<in> {''completed'', ''failed'', ''aborted''}"

definition UpdateRecordingStatus ::
  "string \<Rightarrow> string \<Rightarrow> bool \<Rightarrow> string option \<Rightarrow> string option \<Rightarrow> unit io" where
  "UpdateRecordingStatus rid status terminal outputURI errMsg = pg (\<lambda>now d.
     if exists_row (\<lambda>r. rc_ID r = rid \<and> \<not> terminal_status (rc_Status r)) (recordings d) \<and> \<not> recording_status status
     then Inl (CheckViolation ''recordings_status_check'')
     else Inr ((), d\<lparr>recordings := update_rows (\<lambda>r. rc_ID r = rid \<and> \<not> terminal_status (rc_Status r))
            (\<lambda>r. r\<lparr>rc_Status := status,
                   rc_OutputURI := (case outputURI of None \<Rightarrow> rc_OutputURI r | Some u \<Rightarrow> Some u),
                   rc_Error := (case errMsg of None \<Rightarrow> rc_Error r | Some m \<Rightarrow> Some m),
                   rc_EndedAt := (if terminal then Some now else rc_EndedAt r)\<rparr>) (recordings d)\<rparr>))"

definition head_row :: "'r list \<Rightarrow> 'r option" where
  "head_row rs = (case rs of [] \<Rightarrow> None | r # _ \<Rightarrow> Some r)"

definition ActiveRecording :: "string \<Rightarrow> Recording option io" where
  "ActiveRecording sid = pg (\<lambda>now d.
     Inr (head_row (order_by_desc rc_StartedAt
            (select_rows (\<lambda>r. rc_SessionID r = sid \<and> in_flight r) (recordings d))), d))"

definition CountInFlightRecordings :: "int io" where
  "CountInFlightRecordings = pg (\<lambda>now d. Inr (int (length (select_rows in_flight (recordings d))), d))"

definition RecordingByID :: "string \<Rightarrow> Recording option io" where
  "RecordingByID rid = pg (\<lambda>now d. Inr (first_row (\<lambda>r. rc_ID r = rid) (recordings d), d))"

definition RecordingByEgress :: "string \<Rightarrow> Recording option io" where
  "RecordingByEgress egressID = pg (\<lambda>now d. Inr (first_row (\<lambda>r. rc_EgressID r = Some egressID) (recordings d), d))"

definition CompletedRecordingsBySession :: "string \<Rightarrow> Recording list io" where
  "CompletedRecordingsBySession sid = pg (\<lambda>now d.
     Inr (order_by_desc rc_StartedAt
            (select_rows (\<lambda>r. rc_SessionID r = sid \<and> rc_Status r = ''completed'') (recordings d)), d))"

definition RecordingsBySession :: "string \<Rightarrow> Recording list io" where
  "RecordingsBySession sid = pg (\<lambda>now d.
     Inr (order_by_desc rc_StartedAt (select_rows (\<lambda>r. rc_SessionID r = sid) (recordings d)), d))"

section \<open>Presence trail\<close>

definition AppendPresenceEvent :: "string \<Rightarrow> string \<Rightarrow> string \<Rightarrow> string \<Rightarrow> string \<Rightarrow> unit io" where
  "AppendPresenceEvent eid sid uid action role = pg (\<lambda>now d.
     if action \<notin> {''join'', ''leave''} then Inl (CheckViolation ''presence_events_action_check'')
     else if exists_row (\<lambda>e. pe_ID e = eid) (presence_events d) then Inl (UniqueViolation ''presence_events_id_key'')
     else if \<not> exists_row (\<lambda>s. s_ID s = sid) (sessions d)
     then Inl (ForeignKeyViolation ''presence_events_session_id_fkey'')
     else if \<not> user_exists uid d then Inl (ForeignKeyViolation ''presence_events_user_id_fkey'')
     else Inr ((), d\<lparr>presence_events := presence_events d
            @ [\<lparr>pe_Seq = presence_events_seq d, pe_ID = eid, pe_SessionID = sid, pe_UserID = uid,
                pe_Action = action, pe_Role = role, pe_OccurredAt = now\<rparr>],
            presence_events_seq := presence_events_seq d + 1\<rparr>))"

definition ListPresenceBySession :: "string \<Rightarrow> PresenceEvent list io" where
  "ListPresenceBySession sid = pg (\<lambda>now d.
     Inr (sort_key pe_Seq (select_rows (\<lambda>e. pe_SessionID e = sid) (presence_events d)), d))"

section \<open>Entitlements\<close>

definition HasActiveEntitlement :: "string \<Rightarrow> string \<Rightarrow> string \<Rightarrow> bool io" where
  "HasActiveEntitlement subject rtype rid = pg (\<lambda>now d.
     Inr (exists_row (\<lambda>e. en_SubjectID e = subject \<and> en_ResourceType e = rtype \<and> en_ResourceID e = rid
            \<and> en_RevokedAt e = None
            \<and> (case en_ExpiresAt e of None \<Rightarrow> True | Some x \<Rightarrow> x > now)) (entitlements d), d))"

definition ListEntitlements :: "string \<Rightarrow> Entitlement list io" where
  "ListEntitlements subject = pg (\<lambda>now d.
     Inr (order_by_desc en_GrantedAt
            (select_rows (\<lambda>e. en_SubjectID e = subject \<and> en_RevokedAt e = None) (entitlements d)), d))"

definition ClassPriceCents :: "string \<Rightarrow> (int \<times> bool) io" where
  "ClassPriceCents cid = pg (\<lambda>now d.
     case first_row (\<lambda>c. c_ID c = cid) (classes d) of
       None \<Rightarrow> Inr ((0, False), d) | Some c \<Rightarrow> Inr ((c_PriceCents c, True), d))"

definition ClassIDForSession :: "string \<Rightarrow> (string \<times> bool) io" where
  "ClassIDForSession sid = pg (\<lambda>now d.
     case first_row (\<lambda>s. s_ID s = sid) (sessions d) of
       None \<Rightarrow> Inr (('''', False), d)
     | Some s \<Rightarrow> (case s_ClassID s of None \<Rightarrow> Inr (('''', True), d) | Some c \<Rightarrow> Inr ((c, True), d)))"

section \<open>Step-up grants\<close>

definition CreateStepUpGrant :: "string \<Rightarrow> string \<Rightarrow> bytes \<Rightarrow> instant \<Rightarrow> unit io" where
  "CreateStepUpGrant gid uid tokenHash expiresAt = pg (\<lambda>now d.
     if exists_row (\<lambda>g. sg_ID g = gid) (stepup_grants d) then Inl (UniqueViolation ''stepup_grants_pkey'')
     else if \<not> user_exists uid d then Inl (ForeignKeyViolation ''stepup_grants_user_id_fkey'')
     else Inr ((), d\<lparr>stepup_grants := stepup_grants d
            @ [\<lparr>sg_ID = gid, sg_UserID = uid, sg_TokenHash = tokenHash, sg_ExpiresAt = expiresAt,
                sg_CreatedAt = now\<rparr>]\<rparr>))"

definition StepUpGrantValid :: "string \<Rightarrow> bytes \<Rightarrow> bool io" where
  "StepUpGrantValid uid tokenHash = pg (\<lambda>now d.
     Inr (exists_row (\<lambda>g. sg_UserID g = uid \<and> sg_TokenHash g = tokenHash \<and> sg_ExpiresAt g > now) (stepup_grants d), d))"

section \<open>Account pages\<close>

record IdentityFactors =
  if_Email :: "string option"
  if_Phone :: "string option"
  if_Federated :: "string list"

fun str_le :: "string \<Rightarrow> string \<Rightarrow> bool" where
  "str_le [] ys = True"
| "str_le (x # xs) [] = False"
| "str_le (x # xs) (y # ys) =
     (of_char x < (of_char y :: nat) \<or> x = y \<and> str_le xs ys)"

fun insert_sorted :: "string \<Rightarrow> string list \<Rightarrow> string list" where
  "insert_sorted x [] = [x]"
| "insert_sorted x (y # ys) = (if str_le x y then x # y # ys else y # insert_sorted x ys)"

definition sort_strings :: "string list \<Rightarrow> string list" where
  "sort_strings xs = foldr insert_sorted xs []"

definition GetIdentityFactors :: "string \<Rightarrow> IdentityFactors io" where
  "GetIdentityFactors uid =
     bind (pg (\<lambda>now d. Inr ((map_option ei_Email (first_row (\<lambda>r. ei_UserID r = uid) (email_identities d)),
                              map_option pi_Phone (first_row (\<lambda>r. pi_UserID r = uid) (phone_identities d))), d)))
       (\<lambda>(email, phone).
     bind (pg (\<lambda>now d. Inr (sort_strings (map fi_Provider
              (select_rows (\<lambda>r. fi_UserID r = uid) (federated_identities d))), d))) (\<lambda>fed.
     ret \<lparr>if_Email = email, if_Phone = phone, if_Federated = fed\<rparr>))"

definition RecordLoginEvent :: "string \<Rightarrow> string \<Rightarrow> string \<Rightarrow> unit io" where
  "RecordLoginEvent lid uid m = pg (\<lambda>now d.
     if exists_row (\<lambda>l. le_ID l = lid) (login_events d) then Inl (UniqueViolation ''login_events_pkey'')
     else if \<not> user_exists uid d then Inl (ForeignKeyViolation ''login_events_user_id_fkey'')
     else Inr ((), d\<lparr>login_events := login_events d
            @ [\<lparr>le_ID = lid, le_UserID = uid, le_Method = m, le_CreatedAt = now\<rparr>]\<rparr>))"

definition ListLoginEvents :: "string \<Rightarrow> LoginEvent list io" where
  "ListLoginEvents uid = pg (\<lambda>now d.
     Inr (take 20 (order_by_desc le_CreatedAt (select_rows (\<lambda>l. le_UserID l = uid) (login_events d))), d))"

definition ListToSAcceptances :: "string \<Rightarrow> TosAcceptance list io" where
  "ListToSAcceptances uid = pg (\<lambda>now d.
     Inr (order_by_desc ta_AcceptedAt (select_rows (\<lambda>t. ta_UserID t = uid) (tos_acceptances d)), d))"

definition ListConsentHistory :: "string \<Rightarrow> ConsentRow list io" where
  "ListConsentHistory uid = pg (\<lambda>now d.
     Inr (take 100 (order_by_desc cn_Seq (select_rows (\<lambda>c. cn_SubjectID c = uid) (consent_records d))), d))"

record SessionEntry =
  se_SessionID :: string
  se_Kind :: string
  se_Status :: string
  se_Role :: string
  se_JoinedAt :: instant
  se_LeftAt :: "instant option"
  se_ClassID :: "string option"
  se_ClassTitle :: "string option"
  se_ScheduledStart :: "instant option"

text \<open>One row of \<^verbatim>\<open>session_participants JOIN sessions LEFT JOIN classes\<close>.\<close>

definition session_entry :: "db \<Rightarrow> SessionParticipant \<Rightarrow> Session \<Rightarrow> SessionEntry" where
  "session_entry d p s =
     \<lparr>se_SessionID = sp_SessionID p, se_Kind = s_Kind s, se_Status = s_Status s, se_Role = sp_Role p,
      se_JoinedAt = sp_JoinedAt p, se_LeftAt = sp_LeftAt p, se_ClassID = s_ClassID s,
      se_ClassTitle = map_option c_Title (first_row (\<lambda>c. Some (c_ID c) = s_ClassID s) (classes d)),
      se_ScheduledStart = s_ScheduledStart s\<rparr>"

definition ListSessionHistory :: "string \<Rightarrow> SessionEntry list io" where
  "ListSessionHistory uid = pg (\<lambda>now d.
     Inr (take 50 (concat (map (\<lambda>p. map (session_entry d p) (select_rows (\<lambda>s. s_ID s = sp_SessionID p) (sessions d)))
            (order_by_desc sp_JoinedAt (select_rows (\<lambda>p. sp_UserID p = uid) (session_participants d))))), d))"

record ClassProgress =
  cp_ClassID :: string
  cp_Title :: string
  cp_TotalSessions :: nat
  cp_Attended :: nat

text \<open>\<^verbatim>\<open>count(DISTINCT sp.session_id)\<close> over the participations of a user in the sessions of a class
  that satisfy a condition.\<close>

definition class_sessions :: "string \<Rightarrow> db \<Rightarrow> Session list" where
  "class_sessions cid d = select_rows (\<lambda>s. s_ClassID s = Some cid) (sessions d)"

definition participations :: "string \<Rightarrow> Session list \<Rightarrow> db \<Rightarrow> SessionParticipant list" where
  "participations uid ss d =
     select_rows (\<lambda>p. sp_UserID p = uid \<and> exists_row (\<lambda>s. s_ID s = sp_SessionID p) ss) (session_participants d)"

definition attended :: "string \<Rightarrow> Session list \<Rightarrow> db \<Rightarrow> nat" where
  "attended uid ss d = length (remdups (map sp_SessionID (participations uid ss d)))"

definition enrolled_classes :: "string \<Rightarrow> db \<Rightarrow> Class list" where
  "enrolled_classes uid d =
     concat (map (\<lambda>m. select_rows (\<lambda>c. c_ID c = cm_ClassID m) (classes d))
       (order_by_desc cm_EnrolledAt (select_rows (\<lambda>m. cm_UserID m = uid) (class_members d))))"

definition class_progress :: "string \<Rightarrow> db \<Rightarrow> Class \<Rightarrow> ClassProgress" where
  "class_progress uid d c =
     \<lparr>cp_ClassID = c_ID c, cp_Title = c_Title c, cp_TotalSessions = length (class_sessions (c_ID c) d),
      cp_Attended = attended uid (class_sessions (c_ID c) d) d\<rparr>"

definition ListClassProgress :: "string \<Rightarrow> ClassProgress list io" where
  "ListClassProgress uid = pg (\<lambda>now d. Inr (map (class_progress uid d) (enrolled_classes uid d), d))"

record ClassCompletion =
  cc_ClassID :: string
  cc_Title :: string
  cc_InstructorName :: string
  cc_TotalSessions :: nat
  cc_EndedSessions :: nat
  cc_AttendedEnded :: nat
  cc_Complete :: bool
  cc_CompletedAt :: "instant option"

definition max_joined :: "SessionParticipant list \<Rightarrow> instant option" where
  "max_joined ps = (case map sp_JoinedAt ps of [] \<Rightarrow> None | t # ts \<Rightarrow> Some (foldl max t ts))"

definition class_completion :: "string \<Rightarrow> db \<Rightarrow> Class \<Rightarrow> User \<Rightarrow> ClassCompletion" where
  "class_completion uid d c iu =
     (let ss = class_sessions (c_ID c) d;
          ended = filter (\<lambda>s. s_Status s = ''ended'') ss;
          total = length ss;
          att = attended uid ended d;
          complete = total > 0 \<and> length ended = total \<and> att = length ended
      in \<lparr>cc_ClassID = c_ID c, cc_Title = c_Title c, cc_InstructorName = u_DisplayName iu,
          cc_TotalSessions = total, cc_EndedSessions = length ended, cc_AttendedEnded = att,
          cc_Complete = complete,
          cc_CompletedAt = (if complete then max_joined (participations uid ended d) else None)\<rparr>)"

definition ListClassCompletions :: "string \<Rightarrow> ClassCompletion list io" where
  "ListClassCompletions uid = pg (\<lambda>now d.
     Inr (concat (map (\<lambda>c. map (class_completion uid d c)
                              (select_rows (\<lambda>u. u_ID u = c_InstructorID c) (users d)))
            (enrolled_classes uid d)), d))"

definition ListAuthProviders :: "string list io" where
  "ListAuthProviders = pg (\<lambda>now d. Inr (sort_strings (auth_providers d), d))"

section \<open>Course completion\<close>

lemma attended_eq_card:
  "attended uid ss d = card {i. \<exists>p \<in> set (session_participants d). sp_UserID p = uid \<and> sp_SessionID p = i
     \<and> (\<exists>s \<in> set ss. s_ID s = i)}"
proof -
  have "attended uid ss d = card (sp_SessionID ` set (participations uid ss d))"
    by (simp add: attended_def length_remdups_card_conv)
  also have "sp_SessionID ` set (participations uid ss d) =
      {i. \<exists>p \<in> set (session_participants d). sp_UserID p = uid \<and> sp_SessionID p = i \<and> (\<exists>s \<in> set ss. s_ID s = i)}"
    by (auto simp: participations_def list_ex_iff)
  finally show ?thesis .
qed

definition attends :: "string \<Rightarrow> Session \<Rightarrow> db \<Rightarrow> bool" where
  "attends uid s d \<longleftrightarrow> (\<exists>p \<in> set (session_participants d). sp_UserID p = uid \<and> sp_SessionID p = s_ID s)"

lemma attended_all_iff:
  assumes "distinct (map s_ID ss)"
  shows "attended uid ss d = length ss \<longleftrightarrow> (\<forall>s \<in> set ss. attends uid s d)"
proof -
  define A where "A = {s \<in> set ss. attends uid s d}"
  have "attended uid ss d = card (s_ID ` A)"
    unfolding attended_eq_card A_def attends_def
    by (rule arg_cong [where f = card]) (auto simp: image_iff, metis)
  also have "\<dots> = card A"
    using assms by (intro card_image) (auto simp: A_def distinct_map inj_on_def)
  finally have "attended uid ss d = card A" .
  moreover have "length ss = card (set ss)" using assms by (metis distinct_card distinct_map)
  moreover have "card A = card (set ss) \<longleftrightarrow> A = set ss"
    by (rule iffI) (auto simp: A_def card_subset_eq intro: card_subset_eq)
  ultimately show ?thesis by (auto simp: A_def)
qed

text \<open>What a certificate says. A class is reported complete for a learner exactly when it has at
  least one session, every one of its sessions has ended and the learner took part in each of them;
  only then does it carry a completion time. (Session ids are the primary key of the table.)\<close>
lemma class_completion_iff:
  assumes "distinct (map s_ID (sessions d))"
  shows "(cc_Complete (class_completion uid d c iu) \<longleftrightarrow>
      class_sessions (c_ID c) d \<noteq> [] \<and>
      (\<forall>s \<in> set (class_sessions (c_ID c) d). s_Status s = ''ended'' \<and> attends uid s d))
    \<and> (cc_CompletedAt (class_completion uid d c iu) \<noteq> None \<longleftrightarrow> cc_Complete (class_completion uid d c iu))"
proof -
  define ss where "ss = class_sessions (c_ID c) d"
  define ended where "ended = filter (\<lambda>s. s_Status s = ''ended'') ss"
  have dist: "distinct (map s_ID ended)"
    using assms by (simp add: ended_def ss_def class_sessions_def distinct_map_filter)
  have all: "length ended = length ss \<longleftrightarrow> (\<forall>s \<in> set ss. s_Status s = ''ended'')"
    by (simp add: ended_def length_filter_eq_iff)
  have sub: "set ended \<subseteq> set ss" by (auto simp: ended_def)
  have complete: "cc_Complete (class_completion uid d c iu) \<longleftrightarrow>
      ss \<noteq> [] \<and> (\<forall>s \<in> set ss. s_Status s = ''ended'' \<and> attends uid s d)"
    using attended_all_iff [OF dist] all
    by (auto simp: class_completion_def Let_def ended_def simp flip: ss_def)
  moreover have "participations uid ended d \<noteq> []" if "cc_Complete (class_completion uid d c iu)"
  proof -
    have "hd ss \<in> set ended" "attends uid (hd ss) d"
      using that complete by (simp_all add: ended_def)
    then obtain s where "s \<in> set ended" "attends uid s d" by blast
    then show ?thesis by (auto simp: attends_def participations_def filter_empty_conv list_ex_iff, metis)
  qed
  moreover have "cc_CompletedAt (class_completion uid d c iu) =
      (if cc_Complete (class_completion uid d c iu) then max_joined (participations uid ended d) else None)"
    by (simp add: class_completion_def Let_def ended_def ss_def)
  moreover have "max_joined ps \<noteq> None" if "ps \<noteq> []" for ps
    using that by (cases ps) (simp_all add: max_joined_def)
  ultimately show ?thesis unfolding ss_def by (simp split: if_splits)
qed

definition demo_session :: "string \<Rightarrow> string \<Rightarrow> Session" where
  "demo_session sid status = \<lparr>s_ID = sid, s_Kind = ''class'', s_ClassID = Some ''c1'', s_LivekitRoom = sid,
     s_Status = status, s_ScheduledStart = None, s_StartedAt = None, s_EndedAt = None, s_CreatedAt = 0\<rparr>"

definition demo_class :: Class where
  "demo_class = \<lparr>c_ID = ''c1'', c_InstructorID = ''u1'', c_Title = ''t'', c_Description = '''',
     c_Status = ''published'', c_CreatedAt = 0, c_PriceCents = 0, c_Capacity = 0\<rparr>"

end
