(* ===== verification/Livekit.thy ===== *)
theory Livekit
  imports Repos
begin

text \<open>
  \<^verbatim>\<open>internal/livekit\<close>: the room token of \<^verbatim>\<open>token.go\<close>, the webhook verification of
  \<^verbatim>\<open>webhook.go\<close> and the output location of \<^verbatim>\<open>egress.go\<close>. HMAC-SHA256 is the parameter \<open>hmac\<close>,
  SHA-256 is \<open>H\<close>, JSON encoding and decoding are parameters.
\<close>

section \<open>Room tokens\<close>

record LkVideoGrant =
  vg_Room :: string
  vg_RoomJoin :: bool
  vg_CanPublish :: bool
  vg_CanSubscribe :: bool
  vg_CanPublishData :: bool

record tokenClaims =
  tc_Iss :: string
  tc_Sub :: string
  tc_Iat :: int
  tc_Nbf :: int
  tc_Exp :: int
  tc_Name :: string
  tc_Video :: LkVideoGrant

record Granter =
  gr_apiKey :: string
  gr_apiSecret :: bytes
  gr_ttl :: duration
  gr_hmac :: "bytes \<Rightarrow> bytes \<Rightarrow> bytes"
  gr_header :: bytes
  gr_marshal :: "tokenClaims \<Rightarrow> bytes res"

definition NewGranter ::
  "(bytes \<Rightarrow> bytes \<Rightarrow> bytes) \<Rightarrow> bytes \<Rightarrow> (tokenClaims \<Rightarrow> bytes res) \<Rightarrow> string \<Rightarrow> string \<Rightarrow> duration \<Rightarrow> Granter res" where
  "NewGranter hmac header marshal apiKey apiSecret ttl =
     (if apiKey = '''' \<or> apiSecret = '''' then Inl (Err ''livekit: api key and secret are required'')
      else if ttl \<le> 0 then Inl (Err ''livekit: ttl must be positive'')
      else Inr \<lparr>gr_apiKey = apiKey, gr_apiSecret = apiSecret, gr_ttl = ttl, gr_hmac = hmac,
                gr_header = header, gr_marshal = marshal\<rparr>)"

definition room_claims :: "Granter \<Rightarrow> string \<Rightarrow> string \<Rightarrow> LkVideoGrant \<Rightarrow> instant \<Rightarrow> tokenClaims" where
  "room_claims g ident name grant now =
     \<lparr>tc_Iss = gr_apiKey g, tc_Sub = ident, tc_Iat = unix now, tc_Nbf = unix now,
      tc_Exp = unix (now + gr_ttl g), tc_Name = name, tc_Video = grant\<rparr>"

definition Granter_Token :: "Granter \<Rightarrow> string \<Rightarrow> string \<Rightarrow> LkVideoGrant \<Rightarrow> string io" where
  "Granter_Token g ident name grant =
     (if ident = '''' then fail (Err ''livekit: identity is required'')
      else bind goNow (\<lambda>now.
        case gr_marshal g (room_claims g ident name grant now) of
          Inl err \<Rightarrow> fail err
        | Inr payload \<Rightarrow>
            let signingInput = EncodeToString (gr_header g) @ ''.'' @ EncodeToString payload
            in ret (signingInput @ ''.'' @ EncodeToString (gr_hmac g (gr_apiSecret g) signingInput))))"

section \<open>Webhooks\<close>

record webhookClaims =
  wc_Issuer :: string
  wc_SHA256 :: string
  wc_JTI :: string
  wc_Exp :: int
  wc_Nbf :: int

record EgressFile =
  ef_Filename :: string
  ef_Location :: string

record EgressInfo =
  eg_EgressID :: string
  eg_RoomName :: string
  eg_Status :: string
  eg_Error :: string
  eg_File :: "EgressFile option"
  eg_FileList :: "EgressFile list"

record WebhookEvent =
  we_Event :: string
  we_EgressInfo :: "EgressInfo option"
  we_DedupKey :: string

fun first_output :: "EgressFile list \<Rightarrow> string" where
  "first_output [] = ''''"
| "first_output (f # fs) =
     (if ef_Location f \<noteq> '''' then ef_Location f
      else if ef_Filename f \<noteq> '''' then ef_Filename f else first_output fs)"

definition Output :: "EgressInfo \<Rightarrow> string" where
  "Output e =
     (case eg_File e of
        Some f \<Rightarrow> if ef_Location f \<noteq> '''' then ef_Location f else ef_Filename f
      | None \<Rightarrow> first_output (eg_FileList e))"

text \<open>\<^verbatim>\<open>strings.SplitN(token, ".", 3)\<close>: the third part keeps any further dots.\<close>

definition split3 :: "string \<Rightarrow> string list" where
  "split3 tok =
     (case split_on CHR ''.'' tok of
        p0 # p1 # p2 # ps \<Rightarrow> [p0, p1, join_with CHR ''.'' (p2 # ps)]
      | ps \<Rightarrow> ps)"

definition verifyWebhookJWT ::
  "(bytes \<Rightarrow> bytes \<Rightarrow> bytes) \<Rightarrow> (bytes \<Rightarrow> webhookClaims option) \<Rightarrow> string \<Rightarrow> bytes \<Rightarrow> webhookClaims res" where
  "verifyWebhookJWT hmac unmarshal tok secret =
     (case split3 tok of
        [p0, p1, p2] \<Rightarrow>
          (let signingInput = p0 @ ''.'' @ p1
           in if EncodeToString (hmac secret signingInput) \<noteq> p2 then Inl (Err ''signature mismatch'')
              else case DecodeString p1 of
                     None \<Rightarrow> Inl (Err ''decoding claims'')
                   | Some claimsJSON \<Rightarrow>
                       (case unmarshal claimsJSON of
                          None \<Rightarrow> Inl (Err ''parsing claims'')
                        | Some c \<Rightarrow> Inr c))
      | _ \<Rightarrow> Inl (Err ''not a three-part JWT''))"

definition hex_digit :: "nat \<Rightarrow> char" where
  "hex_digit n = ''0123456789abcdef'' ! n"

fun hex_encode :: "bytes \<Rightarrow> string" where
  "hex_encode [] = []"
| "hex_encode (c # cs) = hex_digit (of_char c div 16) # hex_digit (of_char c mod 16) # hex_encode cs"

fun equal_fold :: "string \<Rightarrow> string \<Rightarrow> bool" where
  "equal_fold xs ys = (map to_lower xs = map to_lower ys)"

definition is_space :: "char \<Rightarrow> bool" where
  "is_space c \<longleftrightarrow> c \<in> {CHR '' '', CHR 0x09, CHR 0x0A, CHR 0x0B, CHR 0x0C, CHR 0x0D}"

definition trim_space :: "string \<Rightarrow> string" where
  "trim_space s = rev (dropWhile is_space (rev (dropWhile is_space s)))"

text \<open>\<^verbatim>\<open>ParseWebhook\<close> of a request with the given body (already cut at one MiB) and Authorization
  header. \<^verbatim>\<open>strings.TrimSpace\<close> and \<^verbatim>\<open>EqualFold\<close> are modelled on ASCII.\<close>

text \<open>The sum of the expiry and the skew is taken at 64 bits, so an expiry at the end of the range wraps and has passed.\<close>

definition wrap64 :: "int \<Rightarrow> int" where
  "wrap64 x = signed_take_bit 63 x"

lemma wrap64_le: "0 \<le> x \<Longrightarrow> wrap64 x \<le> x"
  by (simp add: wrap64_def signed_take_bit_int_less_eq_self_iff)

definition ParseWebhook ::
  "(bytes \<Rightarrow> bytes \<Rightarrow> bytes) \<Rightarrow> (bytes \<Rightarrow> bytes) \<Rightarrow> (bytes \<Rightarrow> webhookClaims option) \<Rightarrow> (bytes \<Rightarrow> WebhookEvent option) \<Rightarrow>
   bytes \<Rightarrow> string \<Rightarrow> string \<Rightarrow> string \<Rightarrow> instant \<Rightarrow> WebhookEvent res" where
  "ParseWebhook hmac H unmarshalClaims unmarshalEvent body auth apiKey apiSecret now =
     (if length auth \<le> 7 \<or> \<not> equal_fold (take 7 auth) ''Bearer ''
      then Inl (Err ''livekit webhook: missing or malformed Bearer token'')
      else case verifyWebhookJWT hmac unmarshalClaims (trim_space (drop 7 auth)) apiSecret of
             Inl err \<Rightarrow> Inl err
           | Inr claims \<Rightarrow>
               if wc_Issuer claims \<noteq> apiKey then Inl (Err ''livekit webhook: issuer mismatch'')
               else if wc_Exp claims > 0 \<and> unix now > wrap64 (wc_Exp claims + 30)
               then Inl (Err ''livekit webhook: token expired'')
               else if wc_Nbf claims > 0 \<and> unix (now + seconds 30) < wc_Nbf claims
               then Inl (Err ''livekit webhook: token not yet valid'')
               else if hex_encode (H body) \<noteq> wc_SHA256 claims
               then Inl (Err ''livekit webhook: body hash mismatch'')
               else case unmarshalEvent body of
                      None \<Rightarrow> Inl (Err ''livekit webhook: decoding payload'')
                    | Some ev \<Rightarrow>
                        Inr (ev\<lparr>we_DedupKey := (if wc_JTI claims \<noteq> '''' then wc_JTI claims else wc_SHA256 claims)\<rparr>))"

lemma split3_join: "split3 tok = [p0, p1, p2] \<Longrightarrow> tok = p0 @ ''.'' @ p1 @ ''.'' @ p2"
  using join_split [of "CHR ''.''" tok]
  by (auto simp: split3_def split: list.splits)

text \<open>C16: an accepted webhook is authentic. If \<^verbatim>\<open>ParseWebhook\<close> returns an event, the bearer token carries the
  MAC of its header and claims under the project secret, the claims name the project's key, are within
  their lifetime (30 seconds of skew) and bind the SHA-256 of the body the event was decoded from, and
  the event has a non-empty replay key whenever that hash is non-empty.\<close>
theorem ParseWebhook_authentic:
  assumes "ParseWebhook hmac H unmarshalClaims unmarshalEvent body auth apiKey apiSecret now = Inr ev"
  shows "\<exists>p0 p1 claimsJSON claims ev0.
      trim_space (drop 7 auth) = p0 @ ''.'' @ p1 @ ''.'' @ EncodeToString (hmac apiSecret (p0 @ ''.'' @ p1))
      \<and> DecodeString p1 = Some claimsJSON \<and> unmarshalClaims claimsJSON = Some claims
      \<and> wc_Issuer claims = apiKey
      \<and> (wc_Exp claims \<le> 0 \<or> unix now \<le> wc_Exp claims + 30)
      \<and> (wc_Nbf claims \<le> 0 \<or> wc_Nbf claims \<le> unix now + 30)
      \<and> wc_SHA256 claims = hex_encode (H body)
      \<and> unmarshalEvent body = Some ev0
      \<and> ev = ev0\<lparr>we_DedupKey := (if wc_JTI claims \<noteq> '''' then wc_JTI claims else hex_encode (H body))\<rparr>"
proof -
  obtain claims ev0 where v: "verifyWebhookJWT hmac unmarshalClaims (trim_space (drop 7 auth)) apiSecret = Inr claims"
    and c: "wc_Issuer claims = apiKey" "wc_Exp claims \<le> 0 \<or> unix now \<le> wrap64 (wc_Exp claims + 30)"
    "wc_Nbf claims \<le> 0 \<or> wc_Nbf claims \<le> unix now + 30" "wc_SHA256 claims = hex_encode (H body)"
    and e: "unmarshalEvent body = Some ev0"
    "ev = ev0\<lparr>we_DedupKey := (if wc_JTI claims \<noteq> '''' then wc_JTI claims else hex_encode (H body))\<rparr>"
    using assms by (auto simp: ParseWebhook_def not_less split: if_splits sum.splits option.splits)
  have exp: "wc_Exp claims \<le> 0 \<or> unix now \<le> wc_Exp claims + 30"
    using c(2) wrap64_le [of "wc_Exp claims + 30"] by linarith
  obtain p0 p1 p2 claimsJSON where s: "split3 (trim_space (drop 7 auth)) = [p0, p1, p2]"
    and "EncodeToString (hmac apiSecret (p0 @ ''.'' @ p1)) = p2"
    and "DecodeString p1 = Some claimsJSON" "unmarshalClaims claimsJSON = Some claims"
    using v by (auto simp: verifyWebhookJWT_def Let_def split: list.splits option.splits if_splits)
  with split3_join [OF s] c(1,3,4) exp e show ?thesis by blast
qed

definition demo_webhook_claims :: webhookClaims where
  "demo_webhook_claims = \<lparr>wc_Issuer = ''key'', wc_SHA256 = hex_encode ''h'', wc_JTI = ''j'', wc_Exp = 0, wc_Nbf = 0\<rparr>"

definition demo_event :: WebhookEvent where
  "demo_event = \<lparr>we_Event = ''egress_ended'', we_EgressInfo = None, we_DedupKey = ''''\<rparr>"

definition demo_auth :: string where
  "demo_auth = ''Bearer YQ.YQ.bQ''"

theorem ParseWebhook_authentic_witness:
  "ParseWebhook (\<lambda>_ _. ''m'') (\<lambda>_. ''h'') (\<lambda>_. Some demo_webhook_claims) (\<lambda>_. Some demo_event) ''body'' demo_auth ''key'' ''secret'' 0
     = Inr (demo_event\<lparr>we_DedupKey := ''j''\<rparr>)
   \<and> (\<exists>p0 p1 claimsJSON claims. trim_space (drop 7 demo_auth) = p0 @ ''.'' @ p1 @ ''.'' @ EncodeToString ''m''
      \<and> DecodeString p1 = Some claimsJSON \<and> Some demo_webhook_claims = Some claims \<and> wc_Issuer claims = ''key'')"
proof -
  have enc: "EncodeToString ''m'' = ''bQ''"
    by (simp add: b64_char_def b64_alphabet_def of_char_def Let_def)
  have dec: "DecodeString ''YQ'' = Some ''a''"
    using Decode_Encode [of "''a''"] by (simp add: b64_char_def b64_alphabet_def)
  have tok: "trim_space (drop 7 demo_auth) = ''YQ.YQ.bQ''" "split3 ''YQ.YQ.bQ'' = [''YQ'', ''YQ'', ''bQ'']"
    "equal_fold (take 7 demo_auth) ''Bearer ''" "7 < length demo_auth"
    by (simp_all add: demo_auth_def trim_space_def is_space_def split3_def)
  have p: "ParseWebhook (\<lambda>_ _. ''m'') (\<lambda>_. ''h'') (\<lambda>_. Some demo_webhook_claims) (\<lambda>_. Some demo_event) ''body'' demo_auth ''key'' ''secret'' 0
     = Inr (demo_event\<lparr>we_DedupKey := ''j''\<rparr>)"
    using tok enc dec by (simp add: ParseWebhook_def verifyWebhookJWT_def demo_webhook_claims_def wrap64_def Let_def)
  from p ParseWebhook_authentic [OF p] show ?thesis by blast
qed

end
