(* ===== verification/Consent.thy ===== *)
theory Consent
  imports Repos
begin

text \<open>
  Recording consent: \<^verbatim>\<open>internal/store/consent.go\<close> (the append-only, hash-chained ledger and the
  queries over it) and \<^verbatim>\<open>internal/consent/consent.go\<close> (grant, withdrawal, chain verification).
  The abstract view of the ledger is the function \<open>effective\<close>: the latest decision of a subject for
  a session and a purpose. An append changes it at exactly one point.
\<close>

section \<open>Records\<close>

definition scan_consent :: "ConsentRow \<Rightarrow> ConsentRecord" where
  "scan_consent r =
     \<lparr>cr_SchemaVersion = ConsentSchemaVersion, cr_ID = cn_ID r, cr_PrevHash = cn_PrevHash r,
      cr_SessionID = cn_SessionID r, cr_SubjectID = cn_SubjectID r, cr_Purpose = cn_Purpose r,
      cr_Granted = cn_Granted r, cr_GrantedAt = cn_GrantedAt r, cr_SigningKeyID = cn_SigningKeyID r,
      cr_Signature = cn_Signature r\<rparr>"

definition ConsentRecords :: "ConsentRecord list io" where
  "ConsentRecords = pg (\<lambda>now d. Inr (map scan_consent (sort_key cn_Seq (consent_records d)), d))"

section \<open>Append\<close>

record ConsentInput =
  ci_ID :: string
  ci_SessionID :: string
  ci_SubjectID :: string
  ci_Purpose :: string
  ci_Granted :: bool

definition q_consent_tail :: "bytes stmt" where
  "q_consent_tail now d = row (map_option cn_RecordHash (latest_by cn_Seq (consent_records d))) d"

definition q_insert_consent :: "ConsentRecord \<Rightarrow> bytes \<Rightarrow> unit stmt" where
  "q_insert_consent r hash now d =
     (if \<not> user_exists (cr_SubjectID r) d then Inl (ForeignKeyViolation ''consent_records_subject_id_fkey'')
      else Inr ((), d\<lparr>consent_records := consent_records d
             @ [\<lparr>cn_Seq = consent_records_seq d, cn_ID = cr_ID r, cn_SessionID = cr_SessionID r,
                 cn_SubjectID = cr_SubjectID r, cn_Purpose = cr_Purpose r, cn_Granted = cr_Granted r,
                 cn_GrantedAt = cr_GrantedAt r, cn_PrevHash = cr_PrevHash r, cn_RecordHash = hash,
                 cn_SigningKeyID = cr_SigningKeyID r, cn_Signature = cr_Signature r\<rparr>],
             consent_records_seq := consent_records_seq d + 1\<rparr>))"

definition consent_record :: "KeySigner \<Rightarrow> ConsentInput \<Rightarrow> bytes \<Rightarrow> instant \<Rightarrow> ConsentRecord" where
  "consent_record sg inp prev t =
     \<lparr>cr_SchemaVersion = ConsentSchemaVersion, cr_ID = ci_ID inp, cr_PrevHash = prev,
      cr_SessionID = ci_SessionID inp, cr_SubjectID = ci_SubjectID inp, cr_Purpose = ci_Purpose inp,
      cr_Granted = ci_Granted inp, cr_GrantedAt = unix t, cr_SigningKeyID = KeyID sg, cr_Signature = []\<rparr>"

definition sign_and_insert_consent :: "Store \<Rightarrow> KeySigner \<Rightarrow> ConsentInput \<Rightarrow> bytes \<Rightarrow> unit io" where
  "sign_and_insert_consent st sg inp prev =
     bind goNow (\<lambda>t.
       let r = consent_record sg inp prev t
       in case SignRaw sg (ConsentSignedPayload r) of
            Inl err \<Rightarrow> fail err
          | Inr sig \<Rightarrow>
              let r' = r\<lparr>cr_Signature := sig\<rparr>
              in pg (q_insert_consent r' (ConsentHash (sha256 st) r')))"

definition AppendConsent :: "Store \<Rightarrow> ConsentInput \<Rightarrow> unit io" where
  "AppendConsent st inp =
     (case auditSigner st of
        None \<Rightarrow> fail ErrNoAuditSigner
      | Some sg \<Rightarrow>
          in_tx (bind (pg (advisory_lock 4915208412)) (\<lambda>_.
                 attempt (pg q_consent_tail) (\<lambda>tail.
                   case tail of
                     Inl err \<Rightarrow> if err \<noteq> ErrNoRows then fail err
                                else sign_and_insert_consent st sg inp GenesisHash
                   | Inr prev \<Rightarrow> sign_and_insert_consent st sg inp prev))))"

section \<open>Queries\<close>

definition consent_key :: "string \<Rightarrow> string \<Rightarrow> string \<Rightarrow> ConsentRow \<Rightarrow> bool" where
  "consent_key subject session purpose r \<longleftrightarrow>
     cn_SubjectID r = subject \<and> cn_SessionID r = session \<and> cn_Purpose r = purpose"

text \<open>The latest decision; \<^verbatim>\<open>false\<close> when there is none.\<close>

definition effective :: "string \<Rightarrow> string \<Rightarrow> string \<Rightarrow> db \<Rightarrow> bool" where
  "effective subject session purpose d =
     (case latest_by cn_Seq (select_rows (consent_key subject session purpose) (consent_records d)) of
        None \<Rightarrow> False | Some r \<Rightarrow> cn_Granted r)"

definition EffectiveConsent :: "string \<Rightarrow> string \<Rightarrow> string \<Rightarrow> bool io" where
  "EffectiveConsent subject session purpose = pg (\<lambda>now d. Inr (effective subject session purpose d, d))"

text \<open>The two counts of \<^verbatim>\<open>RecordingAllowed\<close>: the participants present, and those among them whose
  latest \<^verbatim>\<open>session_recording\<close> record (\<^verbatim>\<open>DISTINCT ON (subject_id) ... ORDER BY seq DESC\<close>) is granted.\<close>

definition q_recording_counts :: "string \<Rightarrow> (nat \<times> nat) stmt" where
  "q_recording_counts session now d =
     (let active = present session d;
          consented = filter (\<lambda>p. effective (sp_UserID p) session ConsentPurposeSessionRecording d) active
      in Inr ((length active, length consented), d))"

definition RecordingAllowed :: "string \<Rightarrow> bool io" where
  "RecordingAllowed session =
     bind (pg (q_recording_counts session)) (\<lambda>(present, consented). ret (present > 0 \<and> present = consented))"

section \<open>The service\<close>

text \<open>\<^verbatim>\<open>onChange\<close> is the hook that reacts to a committed change; its outcome is ignored.\<close>

definition consent_append ::
  "Store \<Rightarrow> (string \<Rightarrow> unit io) option \<Rightarrow> string \<Rightarrow> string \<Rightarrow> string \<Rightarrow> bool \<Rightarrow> unit io" where
  "consent_append st onChange newID subject session granted =
     bind (AppendConsent st \<lparr>ci_ID = newID, ci_SessionID = session, ci_SubjectID = subject,
             ci_Purpose = ConsentPurposeSessionRecording, ci_Granted = granted\<rparr>) (\<lambda>_.
       case onChange of
         None \<Rightarrow> ret ()
       | Some hook \<Rightarrow> attempt (hook session) (\<lambda>_. ret ()))"

definition consent_Grant ::
  "Store \<Rightarrow> (string \<Rightarrow> unit io) option \<Rightarrow> string \<Rightarrow> string \<Rightarrow> string \<Rightarrow> unit io" where
  "consent_Grant st onChange newID subject session = consent_append st onChange newID subject session True"

definition consent_Withdraw ::
  "Store \<Rightarrow> (string \<Rightarrow> unit io) option \<Rightarrow> string \<Rightarrow> string \<Rightarrow> string \<Rightarrow> unit io" where
  "consent_Withdraw st onChange newID subject session = consent_append st onChange newID subject session False"

definition consent_Effective :: "string \<Rightarrow> string \<Rightarrow> bool io" where
  "consent_Effective subject session = EffectiveConsent subject session ConsentPurposeSessionRecording"

section \<open>Verification\<close>

datatype consent_error =
    BrokenConsentChain string
  | UnknownConsentKey string string
  | BadConsentSignature string

fun consent_chain_loop ::
  "(bytes \<Rightarrow> bytes) \<Rightarrow> verify \<Rightarrow> (string \<rightharpoonup> bytes) \<Rightarrow> bytes \<Rightarrow> ConsentRecord list \<Rightarrow> consent_error option" where
  "consent_chain_loop H edv keys prev [] = None"
| "consent_chain_loop H edv keys prev (r # rs) =
     (if cr_PrevHash r \<noteq> prev then Some (BrokenConsentChain (cr_ID r))
      else case keys (cr_SigningKeyID r) of
             None \<Rightarrow> Some (UnknownConsentKey (cr_SigningKeyID r) (cr_ID r))
           | Some pub \<Rightarrow>
               if \<not> edv pub (ConsentSignedPayload r) (cr_Signature r) then Some (BadConsentSignature (cr_ID r))
               else consent_chain_loop H edv keys (ConsentHash H r) rs)"

definition ConsentVerifyChain ::
  "(bytes \<Rightarrow> bytes) \<Rightarrow> verify \<Rightarrow> (string \<rightharpoonup> bytes) \<Rightarrow> ConsentRecord list \<Rightarrow> consent_error option" where
  "ConsentVerifyChain H edv keys rs = consent_chain_loop H edv keys GenesisHash rs"

definition consent_good :: "verify \<Rightarrow> (string \<rightharpoonup> bytes) \<Rightarrow> ConsentRecord \<Rightarrow> bool" where
  "consent_good edv keys r \<longleftrightarrow>
     (\<exists>pub. keys (cr_SigningKeyID r) = Some pub \<and> edv pub (ConsentSignedPayload r) (cr_Signature r))"

abbreviation consent_linked ::
  "(bytes \<Rightarrow> bytes) \<Rightarrow> verify \<Rightarrow> (string \<rightharpoonup> bytes) \<Rightarrow> bytes \<Rightarrow> ConsentRecord list \<Rightarrow> bool" where
  "consent_linked H edv keys \<equiv> linked cr_PrevHash (ConsentHash H) (consent_good edv keys)"

lemma consent_chain_loop_iff:
  "consent_chain_loop H edv keys h rs = None \<longleftrightarrow> consent_linked H edv keys h rs"
  by (induction rs arbitrary: h) (auto simp: consent_good_def split: option.splits)

lemma ConsentVerifyChain_iff:
  "ConsentVerifyChain H edv keys rs = None \<longleftrightarrow> consent_linked H edv keys GenesisHash rs"
  by (simp add: ConsentVerifyChain_def consent_chain_loop_iff)

interpretation consent: ledger cr_PrevHash "ConsentHash H" "consent_good edv keys" ConsentSignedPayload H
    consent_wf consent_content
  for H edv keys
proof
  fix e f :: ConsentRecord
  show "consent_wf e \<Longrightarrow> consent_wf f \<Longrightarrow> ConsentSignedPayload e = ConsentSignedPayload f \<Longrightarrow>
      consent_content e = consent_content f"
    by (rule ConsentSignedPayload_inj)
  show "consent_content e = consent_content f \<Longrightarrow> cr_PrevHash e = cr_PrevHash f"
    by (drule arg_cong [where f = cr_PrevHash]) (simp add: consent_content_def)
  show "ConsentHash H e = H (ConsentSignedPayload e)"
    by (simp add: ConsentHash_def)
qed

section \<open>What an append does\<close>

definition consent_inv :: "(bytes \<Rightarrow> bytes) \<Rightarrow> verify \<Rightarrow> (string \<rightharpoonup> bytes) \<Rightarrow> db \<Rightarrow> bool" where
  "consent_inv H edv keys d \<longleftrightarrow>
     sorted_wrt (<) (map cn_Seq (consent_records d))
     \<and> (\<forall>r \<in> set (consent_records d). cn_Seq r < consent_records_seq d
          \<and> cn_RecordHash r = ConsentHash H (scan_consent r))
     \<and> consent_linked H edv keys GenesisHash (map scan_consent (consent_records d))"

definition consent_row :: "(bytes \<Rightarrow> bytes) \<Rightarrow> int \<Rightarrow> ConsentRecord \<Rightarrow> ConsentRow" where
  "consent_row H n r =
     \<lparr>cn_Seq = n, cn_ID = cr_ID r, cn_SessionID = cr_SessionID r, cn_SubjectID = cr_SubjectID r,
      cn_Purpose = cr_Purpose r, cn_Granted = cr_Granted r, cn_GrantedAt = cr_GrantedAt r,
      cn_PrevHash = cr_PrevHash r, cn_RecordHash = ConsentHash H r,
      cn_SigningKeyID = cr_SigningKeyID r, cn_Signature = cr_Signature r\<rparr>"

definition consent_appended :: "(bytes \<Rightarrow> bytes) \<Rightarrow> ConsentRecord \<Rightarrow> db \<Rightarrow> db" where
  "consent_appended H r d =
     d\<lparr>consent_records := consent_records d @ [consent_row H (consent_records_seq d) r],
       consent_records_seq := consent_records_seq d + 1\<rparr>"

definition consent_tail :: "db \<Rightarrow> bytes" where
  "consent_tail d = tail_hash cn_RecordHash GenesisHash (consent_records d)"

definition next_record :: "KeySigner \<Rightarrow> ConsentInput \<Rightarrow> bytes \<Rightarrow> instant \<Rightarrow> db \<Rightarrow> ConsentRecord" where
  "next_record sg inp sig t d = (consent_record sg inp (consent_tail d) t)\<lparr>cr_Signature := sig\<rparr>"

lemma scan_consent_row:
  "cr_SchemaVersion r = ConsentSchemaVersion \<Longrightarrow> scan_consent (consent_row H n r) = r"
  by (simp add: scan_consent_def consent_row_def)

lemma q_consent_tail_cases:
  assumes "sorted_wrt (<) (map cn_Seq (consent_records d))"
  shows "q_consent_tail now d = (if consent_records d = [] then Inl ErrNoRows else Inr (consent_tail d, d))"
  using assms by (simp add: q_consent_tail_def latest_by_ascending consent_tail_def tail_hash_def)

lemma sign_and_insert_consent_outcome:
  assumes "sign_and_insert_consent st sg inp prev w = (r, w')"
  shows "(\<exists>e. r = Inl e) \<and> w_db w' = w_db w \<or>
    (\<exists>sig. SignRaw sg (ConsentSignedPayload (consent_record sg inp prev (w_now w))) = Inr sig
       \<and> w_db w' = consent_appended (sha256 st) ((consent_record sg inp prev (w_now w))\<lparr>cr_Signature := sig\<rparr>) (w_db w)
       \<and> (r = Inr () \<or> r = Inl ConnLost))"
proof -
  define c where "c = consent_record sg inp prev (w_now w)"
  show ?thesis
  proof (cases "SignRaw sg (ConsentSignedPayload c)")
    case (Inl err)
    then show ?thesis using assms by (auto simp: sign_and_insert_consent_def io_defs Let_def c_def)
  next
    case (Inr sig)
    then have "pg (q_insert_consent (c\<lparr>cr_Signature := sig\<rparr>) (ConsentHash (sha256 st) (c\<lparr>cr_Signature := sig\<rparr>))) w = (r, w')"
      using assms by (simp add: sign_and_insert_consent_def io_defs Let_def c_def)
    from pg_outcome [OF this] show ?thesis
      using Inr by (auto simp: q_insert_consent_def consent_appended_def consent_row_def c_def split: if_splits)
  qed
qed


lemma AppendConsent_outcome:
  assumes run: "AppendConsent st inp w = (r, w')"
    and asc: "sorted_wrt (<) (map cn_Seq (consent_records (w_db w)))"
  shows "(\<exists>e. r = Inl e) \<and> unchanged (w_db w) (w_db w') \<or>
    (\<exists>sg sig. auditSigner st = Some sg
       \<and> SignRaw sg (ConsentSignedPayload (next_record sg inp sig (w_now w) (w_db w))) = Inr sig
       \<and> w_db w' = consent_appended (sha256 st) (next_record sg inp sig (w_now w) (w_db w)) (w_db w)
       \<and> (r = Inr () \<or> r = Inl ConnLost))"
proof (cases "auditSigner st")
  case None
  then have "r = Inl ErrNoAuditSigner" "w' = w" using run by (simp_all add: AppendConsent_def fail_def)
  then show ?thesis by (simp add: unchanged_refl)
next
  case (Some sg)
  note tx = run [unfolded AppendConsent_def Some option.case]
  from in_tx_outcome [OF tx] show ?thesis
  proof (elim disjE [of "_ \<and> _"] exE conjE)
    fix d e assume "w_db w' = rolled_back (w_db w) d" "r = Inl e"
    then show ?thesis by (auto simp: unchanged_def)
  next
    fix w1 x w2
    assume t: "take_fault w = (NoFault, w1)" and w': "w_db w' = w_db w2"
      and body: "bind (pg (advisory_lock 4915208412)) (\<lambda>_. attempt (pg q_consent_tail) (\<lambda>tail.
           case tail of Inl err \<Rightarrow> if err \<noteq> ErrNoRows then fail err else sign_and_insert_consent st sg inp GenesisHash
           | Inr prev \<Rightarrow> sign_and_insert_consent st sg inp prev)) w1 = (Inr x, w2)"
      and r: "r = Inr x \<or> r = Inl ConnLost"
    have w1: "w_db w1 = w_db w" "w_now w1 = w_now w" using take_fault_fields [OF t] by simp_all
    have asc1: "sorted_wrt (<) (map cn_Seq (consent_records (w_db w1)))" using asc w1 by simp
    have e: "consent_records (w_db w1) = [] \<longrightarrow> consent_tail (w_db w1) = GenesisHash" by (simp add: consent_tail_def)
    from tail_read_outcome [OF body q_consent_tail_cases [OF asc1] e] obtain w3 where
      w3: "w_db w3 = w_db w" "w_now w3 = w_now w"
      and go: "sign_and_insert_consent st sg inp (consent_tail (w_db w)) w3 = (Inr x, w2)"
      using w1 by auto
    from sign_and_insert_consent_outcome [OF go] Some w3 r w' show ?thesis
      by (auto simp: next_record_def ConsentSignedPayload_def)
  qed
qed


lemma consent_tail_scan:
  "(\<forall>r \<in> set (consent_records d). cn_RecordHash r = ConsentHash H (scan_consent r)) \<Longrightarrow>
     tail_hash (ConsentHash H) GenesisHash (map scan_consent (consent_records d)) = consent_tail d"
  by (simp add: tail_hash_def consent_tail_def last_map)

lemma consent_appended_inv:
  assumes inv: "consent_inv (sha256 st) edv keys d" and sg: "signer_ok edv keys sg"
    and sig: "SignRaw sg (ConsentSignedPayload (next_record sg inp sig t d)) = Inr sig"
  shows "consent_inv (sha256 st) edv keys (consent_appended (sha256 st) (next_record sg inp sig t d) d)"
proof -
  define r where "r = next_record sg inp sig t d"
  have scan: "scan_consent (consent_row (sha256 st) n r) = r" for n
    by (rule scan_consent_row) (simp add: r_def next_record_def consent_record_def)
  have "consent_good edv keys r"
    using sg sig by (auto simp: consent_good_def signer_ok_def r_def next_record_def consent_record_def)
  moreover have "cr_PrevHash r = consent_tail d"
    by (simp add: r_def next_record_def consent_record_def)
  moreover have "cn_RecordHash (consent_row (sha256 st) n r) = ConsentHash (sha256 st) r"
    "cn_Seq (consent_row (sha256 st) n r) = n" for n
    by (simp_all add: consent_row_def)
  ultimately show ?thesis
    using inv consent_tail_scan [of d "sha256 st"] scan
    by (fastforce simp: consent_inv_def consent_appended_def linked_snoc sorted_wrt_append simp flip: r_def)
qed

lemma tx_safe_consent_inv: "tx_safe (consent_inv H edv keys)"
  by (auto simp: tx_safe_def consent_inv_def rolled_back_def less_max_iff_disj)

lemma unchanged_consent_inv: "consent_inv H edv keys d \<Longrightarrow> unchanged d d' \<Longrightarrow> consent_inv H edv keys d'"
  using tx_safe_consent_inv by (auto simp: tx_safe_def unchanged_def)

lemma keeps_AppendConsent:
  assumes "store_ok edv keys st"
  shows "keeps (consent_inv (sha256 st) edv keys) (AppendConsent st inp)"
proof (rule keepsI)
  fix w :: world assume J: "consent_inv (sha256 st) edv keys (w_db w)"
  obtain r w' where run: "AppendConsent st inp w = (r, w')" by force
  have asc: "sorted_wrt (<) (map cn_Seq (consent_records (w_db w)))"
    using J by (simp add: consent_inv_def)
  from AppendConsent_outcome [OF run asc]
  show "consent_inv (sha256 st) edv keys (w_db (snd (AppendConsent st inp w)))"
    using run J assms unchanged_consent_inv [OF J] consent_appended_inv [OF J]
    by (auto simp: store_ok_def)
qed

lemma quiet_keeps_consent: "quiet s \<Longrightarrow> stmt_keeps (consent_inv H edv keys) s"
  by (auto simp: quiet_def stmt_keeps_def ledgers_def consent_inv_def)

section \<open>The ledger as a map of decisions\<close>

lemma latest_by_snoc:
  assumes "\<forall>q \<in> set rs. k q < k r" and "sorted_wrt (<) (map k rs)"
  shows "latest_by k (rs @ [r]) = Some r"
  using assms latest_by_ascending [of k "rs @ [r]"] by (simp add: sorted_wrt_append)

lemma sorted_wrt_map_filter: "sorted_wrt P (map k rs) \<Longrightarrow> sorted_wrt P (map k (filter Q rs))"
  by (induction rs) auto

lemma effective_appended:
  assumes "consent_inv H edv keys d"
  shows "effective subj sess purp (consent_appended H' r d) =
    (if subj = cr_SubjectID r \<and> sess = cr_SessionID r \<and> purp = cr_Purpose r then cr_Granted r
     else effective subj sess purp d)"
proof -
  define row where "row = consent_row H' (consent_records_seq d) r"
  have key: "consent_key subj sess purp row \<longleftrightarrow> subj = cr_SubjectID r \<and> sess = cr_SessionID r \<and> purp = cr_Purpose r"
    by (auto simp: consent_key_def row_def consent_row_def)
  have records: "consent_records (consent_appended H' r d) = consent_records d @ [row]"
    by (simp add: consent_appended_def row_def)
  show ?thesis
  proof (cases "consent_key subj sess purp row")
    case True
    have "latest_by cn_Seq (filter (consent_key subj sess purp) (consent_records d) @ [row]) = Some row"
      using assms
      by (intro latest_by_snoc) (auto simp: consent_inv_def row_def consent_row_def sorted_wrt_map_filter)
    then show ?thesis
      using True key by (simp add: effective_def records row_def consent_row_def)
  next
    case False
    then show ?thesis using key by (auto simp: effective_def records)
  qed
qed

lemma unchanged_effective: "unchanged d d' \<Longrightarrow> effective subj sess purp d' = effective subj sess purp d"
  by (simp add: effective_def unchanged_tables)

text \<open>C11: the consent ledger implements a map from (subject, session, purpose) to the latest decision.
  Recording a decision either fails and leaves every decision as it was, or sets exactly the one of
  its key to the recorded value and leaves all others; this holds under every connection fault.\<close>
theorem AppendConsent_refines_map:
  assumes "consent_inv (sha256 st) edv keys (w_db w)" and "AppendConsent st inp w = (r, w')"
  shows "(\<exists>e. r = Inl e) \<and> (\<forall>s x p. effective s x p (w_db w') = effective s x p (w_db w)) \<or>
    (r = Inr () \<or> r = Inl ConnLost) \<and>
    (\<forall>s x p. effective s x p (w_db w') =
       (if s = ci_SubjectID inp \<and> x = ci_SessionID inp \<and> p = ci_Purpose inp then ci_Granted inp
        else effective s x p (w_db w)))"
proof -
  have asc: "sorted_wrt (<) (map cn_Seq (consent_records (w_db w)))"
    using assms(1) by (simp add: consent_inv_def)
  from AppendConsent_outcome [OF assms(2) asc] show ?thesis
    by (elim disjE exE conjE)
      (simp_all add: unchanged_effective effective_appended [OF assms(1)] next_record_def consent_record_def)
qed

definition demo_consent :: ConsentInput where
  "demo_consent = \<lparr>ci_ID = ''c1'', ci_SessionID = ''s1'', ci_SubjectID = ''u1'',
     ci_Purpose = ConsentPurposeSessionRecording, ci_Granted = True\<rparr>"

lemma consent_inv_empty: "consent_records d = [] \<Longrightarrow> consent_inv H edv keys d"
  by (simp add: consent_inv_def)

theorem AppendConsent_refines_map_witness:
  "let w = demo_world (empty_db\<lparr>users := [demo_user ''u1'']\<rparr>); (r, w') = AppendConsent demo_store demo_consent w
   in (\<exists>e. r = Inl e) \<and> (\<forall>s x p. effective s x p (w_db w') = effective s x p (w_db w)) \<or>
      (r = Inr () \<or> r = Inl ConnLost) \<and>
      (\<forall>s x p. effective s x p (w_db w') =
         (if s = ci_SubjectID demo_consent \<and> x = ci_SessionID demo_consent \<and> p = ci_Purpose demo_consent
          then ci_Granted demo_consent else effective s x p (w_db w)))"
proof -
  define w where "w = demo_world (empty_db\<lparr>users := [demo_user ''u1'']\<rparr>)"
  obtain r w' where run: "AppendConsent demo_store demo_consent w = (r, w')" by force
  have "consent_inv (sha256 demo_store) demo_edv demo_keys (w_db w)"
    by (rule consent_inv_empty) (simp add: w_def demo_world_def empty_db_def)
  from AppendConsent_refines_map [OF this run] run show ?thesis
    by (simp add: Let_def flip: w_def)
qed

text \<open>C12: the recording gate. Whenever \<^verbatim>\<open>RecordingAllowed\<close> answers, it answers true exactly when at least
  one participant is present and the latest recording decision of every participant present is a
  grant; one participant without a grant, or none present, blocks recording.\<close>
theorem RecordingAllowed_iff:
  assumes "RecordingAllowed session w = (Inr b, w')"
  shows "b \<longleftrightarrow> present session (w_db w) \<noteq> [] \<and>
    (\<forall>p \<in> set (present session (w_db w)). effective (sp_UserID p) session ConsentPurposeSessionRecording (w_db w))"
proof -
  obtain c w1 where c: "pg (q_recording_counts session) w = (Inr c, w1)"
    and b: "b = (fst c > 0 \<and> fst c = snd c)"
    using assms unfolding RecordingAllowed_def by (elim bind_InrD) (auto simp: case_prod_beta)
  define P where "P = (\<lambda>p :: SessionParticipant. effective (sp_UserID p) session ConsentPurposeSessionRecording (w_db w))"
  have "c = (length (present session (w_db w)), length (filter P (present session (w_db w))))"
    using c by (elim pg_InrD) (simp add: q_recording_counts_def Let_def P_def)
  then have "b \<longleftrightarrow> present session (w_db w) \<noteq> []
      \<and> length (filter P (present session (w_db w))) = length (present session (w_db w))"
    using b by auto
  then show ?thesis by (simp add: length_filter_eq_iff P_def)
qed

theorem RecordingAllowed_iff_witness:
  "RecordingAllowed ''s1'' (demo_world empty_db) = (Inr False, demo_world empty_db)
   \<and> (False \<longleftrightarrow> present ''s1'' empty_db \<noteq> [] \<and>
    (\<forall>p \<in> set (present ''s1'' empty_db). effective (sp_UserID p) ''s1'' ConsentPurposeSessionRecording empty_db))"
proof -
  have "RecordingAllowed ''s1'' (demo_world empty_db) = (Inr False, demo_world empty_db)"
    by (simp add: RecordingAllowed_def bind_def calm_def demo_world_def q_recording_counts_def
        present_def empty_db_def ret_def)
  from this RecordingAllowed_iff [OF this] show ?thesis by (simp add: demo_world_def)
qed

end
