(* ===== verification/Token.thy ===== *)
theory Token
  imports Repos
begin

text \<open>
  Access tokens: \<^verbatim>\<open>pkg/token/token.go\<close> (signing and verification of compact EdDSA tokens),
  \<^verbatim>\<open>pkg/token/validate.go\<close> (the full gate, with revocation) and the revocation state of
  \<^verbatim>\<open>internal/store/store.go\<close>. The JSON encoders of \<^verbatim>\<open>encoding/json\<close> are a parameter
  \<open>codec\<close>; a round trip of theirs is a hypothesis where it is needed.
\<close>

section \<open>Signing\<close>

record jwtHeader =
  Alg :: string
  Typ :: string
  Kid :: string

record codec =
  marshalHeader :: "jwtHeader \<Rightarrow> bytes"
  unmarshalHeader :: "bytes \<Rightarrow> jwtHeader option"
  marshalClaims :: "AccessTokenClaims \<Rightarrow> bytes"
  unmarshalClaims :: "bytes \<Rightarrow> AccessTokenClaims option"

definition NewSignerFromKeySigner :: "KeySigner option \<Rightarrow> KeySigner res" where
  "NewSignerFromKeySigner ks =
     (case ks of
        None \<Rightarrow> Inl (Err ''token: key signer required'')
      | Some k \<Rightarrow> if KeyID k = '''' then Inl (Err ''token: kid required'') else Inr k)"

definition Sign :: "codec \<Rightarrow> KeySigner \<Rightarrow> AccessTokenClaims \<Rightarrow> string res" where
  "Sign js ks claims =
     (let hb = marshalHeader js \<lparr>Alg = TokenAlg, Typ = TokenTyp, Kid = KeyID ks\<rparr>;
          pb = marshalClaims js claims;
          signingInput = EncodeToString hb @ ''.'' @ EncodeToString pb
      in case SignRaw ks signingInput of
           Inl err \<Rightarrow> Inl err
         | Inr sig \<Rightarrow> Inr (signingInput @ ''.'' @ EncodeToString sig))"

section \<open>Verification\<close>

abbreviation ErrMalformedToken :: error where "ErrMalformedToken \<equiv> Err ''token: malformed''"
abbreviation ErrUnsupportedAlg :: error where
  "ErrUnsupportedAlg \<equiv> Err ''token: unsupported alg (only EdDSA accepted)''"
abbreviation ErrUnknownKeyID :: error where "ErrUnknownKeyID \<equiv> Err ''token: unknown key id''"
abbreviation ErrBadSignature :: error where "ErrBadSignature \<equiv> Err ''token: signature verification failed''"
abbreviation ErrExpired :: error where "ErrExpired \<equiv> Err ''token: expired''"
abbreviation ErrNotYetValid :: error where "ErrNotYetValid \<equiv> Err ''token: not yet valid''"

text \<open>\<^verbatim>\<open>NewVerifier\<close> fixes the leeway at 30 seconds.\<close>

abbreviation leeway :: duration where "leeway \<equiv> seconds 30"

definition check_times :: "instant \<Rightarrow> AccessTokenClaims \<Rightarrow> AccessTokenClaims res" where
  "check_times now claims =
     (if ExpiresAt claims \<noteq> 0 \<and> now > seconds (ExpiresAt claims) + leeway then Inl ErrExpired
      else if IssuedAt claims \<noteq> 0 \<and> now + leeway < seconds (IssuedAt claims) then Inl ErrNotYetValid
      else Inr claims)"

definition Verify ::
  "codec \<Rightarrow> verify \<Rightarrow> (string \<rightharpoonup> bytes) \<Rightarrow> instant \<Rightarrow> string \<Rightarrow> AccessTokenClaims res" where
  "Verify js edv keys now tok =
     (case split_on CHR ''.'' tok of
        [p0, p1, p2] \<Rightarrow>
          (case DecodeString p0 of
             None \<Rightarrow> Inl ErrMalformedToken
           | Some hb \<Rightarrow>
          (case unmarshalHeader js hb of
             None \<Rightarrow> Inl ErrMalformedToken
           | Some h \<Rightarrow>
             if Alg h \<noteq> TokenAlg then Inl ErrUnsupportedAlg
             else
          (case keys (Kid h) of
             None \<Rightarrow> Inl ErrUnknownKeyID
           | Some pub \<Rightarrow>
             if length pub \<noteq> 32 then Inl ErrUnknownKeyID
             else
          (case DecodeString p2 of
             None \<Rightarrow> Inl ErrMalformedToken
           | Some sig \<Rightarrow>
             if \<not> edv pub (p0 @ ''.'' @ p1) sig then Inl ErrBadSignature
             else
          (case DecodeString p1 of
             None \<Rightarrow> Inl ErrMalformedToken
           | Some pb \<Rightarrow>
          (case unmarshalClaims js pb of
             None \<Rightarrow> Inl ErrMalformedToken
           | Some claims \<Rightarrow> check_times now claims))))))
      | _ \<Rightarrow> Inl ErrMalformedToken)"

section \<open>Revocation state\<close>

definition IsAccessTokenRevoked :: "string \<Rightarrow> bool io" where
  "IsAccessTokenRevoked jti = pg (q_IsAccessTokenRevoked jti)"

definition CurrentTokenVersion :: "string \<Rightarrow> int io" where
  "CurrentTokenVersion uid = pg (q_CurrentTokenVersion uid)"

definition RevokeAccessToken :: "string \<Rightarrow> instant \<Rightarrow> unit io" where
  "RevokeAccessToken jti expiresAt = pg (q_RevokeAccessToken jti expiresAt)"

definition RevokeAllForUser :: "string \<Rightarrow> int io" where
  "RevokeAllForUser uid = pg (q_BumpTokenVersion uid)"

abbreviation ErrRevoked :: error where "ErrRevoked \<equiv> Err ''token: revoked''"
abbreviation ErrTokenSuperseded :: error where
  "ErrTokenSuperseded \<equiv> Err ''token: superseded by token_version bump''"

text \<open>The gate, over any \<^verbatim>\<open>RevocationStore\<close>.\<close>

definition Validate ::
  "codec \<Rightarrow> verify \<Rightarrow> (string \<rightharpoonup> bytes) \<Rightarrow> (string \<Rightarrow> bool io) \<Rightarrow> (string \<Rightarrow> int io) \<Rightarrow> string \<Rightarrow>
   AccessTokenClaims io" where
  "Validate js edv keys isRevoked currentVersion tok =
     bind goNow (\<lambda>now.
       case Verify js edv keys now tok of
         Inl err \<Rightarrow> fail err
       | Inr claims \<Rightarrow>
           bind (isRevoked (TokenID claims)) (\<lambda>revoked.
             if revoked then fail ErrRevoked
             else bind (currentVersion (Subject claims)) (\<lambda>current.
                    if TokenVersion claims \<noteq> current then fail ErrTokenSuperseded
                    else ret claims)))"

section \<open>Lemmas\<close>

lemma split_three:
  assumes "CHR ''.'' \<notin> set a" "CHR ''.'' \<notin> set b" "CHR ''.'' \<notin> set c"
  shows "split_on CHR ''.'' (a @ ''.'' @ b @ ''.'' @ c) = [a, b, c]"
  using assms by (simp add: split_on_append split_on_no_sep)

lemma split_three_cases:
  assumes "split_on CHR ''.'' tok = [p0, p1, p2]"
  shows "tok = p0 @ ''.'' @ p1 @ ''.'' @ p2"
  using join_split [of "CHR ''.''" tok] assms by simp

lemma check_times_InrD:
  assumes "check_times now claims = Inr c"
  shows "c = claims" and "ExpiresAt c \<noteq> 0 \<longrightarrow> now \<le> seconds (ExpiresAt c) + leeway"
    and "IssuedAt c \<noteq> 0 \<longrightarrow> seconds (IssuedAt c) \<le> now + leeway"
  using assms by (auto simp: check_times_def split: if_splits)

lemma Verify_InrD:
  assumes "Verify js edv keys now tok = Inr claims"
  obtains p0 p1 p2 hb h pub sig pb where "tok = p0 @ ''.'' @ p1 @ ''.'' @ p2"
    and "DecodeString p0 = Some hb" "unmarshalHeader js hb = Some h" "Alg h = TokenAlg"
    and "keys (Kid h) = Some pub" "length pub = 32" "DecodeString p2 = Some sig"
    and "edv pub (p0 @ ''.'' @ p1) sig" "DecodeString p1 = Some pb"
    and "unmarshalClaims js pb = Some claims" "check_times now claims = Inr claims"
proof -
  obtain p0 p1 p2 where s: "split_on CHR ''.'' tok = [p0, p1, p2]"
    using assms by (auto simp: Verify_def split: list.splits)
  have eq: "check_times now c = Inr claims \<Longrightarrow> c = claims \<and> check_times now claims = Inr claims" for c
    using check_times_InrD(1) by blast
  obtain hb h pub sig pb where "DecodeString p0 = Some hb" "unmarshalHeader js hb = Some h" "Alg h = TokenAlg"
    "keys (Kid h) = Some pub" "length pub = 32" "DecodeString p2 = Some sig"
    "edv pub (p0 @ ''.'' @ p1) sig" "DecodeString p1 = Some pb"
    "unmarshalClaims js pb = Some claims" "check_times now claims = Inr claims"
    using assms s by (auto simp: Verify_def dest: eq split: option.splits if_splits)
  with split_three_cases [OF s] show ?thesis by (rule that)
qed

lemma Validate_InrD:
  assumes "Validate js edv keys isRevoked currentVersion tok w = (Inr claims, w')"
  obtains w1 w2 where "Verify js edv keys (w_now w) tok = Inr claims"
    and "isRevoked (TokenID claims) w = (Inr False, w1)"
    and "currentVersion (Subject claims) w1 = (Inr (TokenVersion claims), w2)"
proof -
  obtain c where c: "Verify js edv keys (w_now w) tok = Inr c"
    using assms by (auto simp: Validate_def bind_def goNow_def fail_def split: sum.splits)
  then have "bind (isRevoked (TokenID c)) (\<lambda>revoked. if revoked then fail ErrRevoked
             else bind (currentVersion (Subject c)) (\<lambda>current.
                    if TokenVersion c \<noteq> current then fail ErrTokenSuperseded else ret c)) w = (Inr claims, w')"
    using assms by (simp add: Validate_def bind_def [of goNow] goNow_def)
  then show ?thesis
    using that c by (elim bind_InrD) (auto split: if_splits elim!: bind_InrD)
qed

text \<open>A concrete codec, key and token for the witnesses: a header is encoded by its three fields and
  the one set of claims by a fixed string.\<close>

definition demo_claims :: AccessTokenClaims where
  "demo_claims = \<lparr>Issuer = TokenIssuer, Subject = ''u1'', IssuedAt = 100, ExpiresAt = 1000, TokenID = ''t1'',
     ClaimSchema = 1, TokenVersion = 1, IdentityVerification = IdentityVerified, Capabilities = []\<rparr>"

definition demo_codec :: codec where
  "demo_codec = \<lparr>marshalHeader = (\<lambda>h. join_with CHR ''.'' [Alg h, Typ h, Kid h]),
     unmarshalHeader = (\<lambda>b. Some \<lparr>Alg = TokenAlg, Typ = TokenTyp, Kid = drop 10 b\<rparr>),
     marshalClaims = (\<lambda>c. ''claims''), unmarshalClaims = (\<lambda>b. if b = ''claims'' then Some demo_claims else None)\<rparr>"

definition demo_pub :: bytes where
  "demo_pub = replicate 32 (CHR ''p'')"

definition demo_token :: string where
  "demo_token = (case Sign demo_codec demo_signer demo_claims of Inr t \<Rightarrow> t | Inl _ \<Rightarrow> '''')"

lemma demo_Sign: "Sign demo_codec demo_signer demo_claims = Inr demo_token"
  by (simp add: demo_token_def Sign_def demo_signer_def Let_def)

lemma demo_codec_roundtrip:
  "unmarshalHeader demo_codec (marshalHeader demo_codec \<lparr>Alg = TokenAlg, Typ = TokenTyp, Kid = ''k1''\<rparr>)
     = Some \<lparr>Alg = TokenAlg, Typ = TokenTyp, Kid = ''k1''\<rparr>"
  "unmarshalClaims demo_codec (marshalClaims demo_codec demo_claims) = Some demo_claims"
  by (simp_all add: demo_codec_def)

section \<open>Properties\<close>

text \<open>C14: a token that the signer issued verifies to the claims it was issued for, at every instant
  between issue and expiry, provided the header and the claims survive their own JSON encoding and
  the signer's signatures verify under the published 32-byte key.\<close>
theorem Sign_Verify_roundtrip:
  assumes "Sign js ks claims = Inr tok"
    and "keys (KeyID ks) = Some pub" and "length pub = 32"
    and "\<And>m s. SignRaw ks m = Inr s \<Longrightarrow> edv pub m s"
    and "unmarshalHeader js (marshalHeader js \<lparr>Alg = TokenAlg, Typ = TokenTyp, Kid = KeyID ks\<rparr>)
       = Some \<lparr>Alg = TokenAlg, Typ = TokenTyp, Kid = KeyID ks\<rparr>"
    and "unmarshalClaims js (marshalClaims js claims) = Some claims"
    and "seconds (IssuedAt claims) \<le> now" and "now \<le> seconds (ExpiresAt claims)"
  shows "Verify js edv keys now tok = Inr claims"
proof -
  define hb where "hb = marshalHeader js \<lparr>Alg = TokenAlg, Typ = TokenTyp, Kid = KeyID ks\<rparr>"
  define pb where "pb = marshalClaims js claims"
  obtain sig where sig: "SignRaw ks (EncodeToString hb @ ''.'' @ EncodeToString pb) = Inr sig"
    and tok: "tok = EncodeToString hb @ ''.'' @ EncodeToString pb @ ''.'' @ EncodeToString sig"
    using assms(1) by (auto simp: Sign_def Let_def hb_def pb_def split: sum.splits)
  have "split_on CHR ''.'' tok = [EncodeToString hb, EncodeToString pb, EncodeToString sig]"
    unfolding tok by (rule split_three) simp_all
  moreover have "check_times now claims = Inr claims"
    using assms(7,8) by (auto simp: check_times_def seconds_def)
  ultimately show ?thesis
    using assms(2,3,5,6) assms(4) [OF sig] by (simp add: Verify_def hb_def pb_def)
qed

theorem Sign_Verify_roundtrip_witness:
  "Verify demo_codec demo_edv [''k1'' \<mapsto> demo_pub] (seconds 500) demo_token = Inr demo_claims"
proof (rule Sign_Verify_roundtrip [OF demo_Sign])
  show "[''k1'' \<mapsto> demo_pub] (KeyID demo_signer) = Some demo_pub" by (simp add: demo_signer_def)
  show "length demo_pub = 32" by (simp add: demo_pub_def)
  show "SignRaw demo_signer m = Inr s \<Longrightarrow> demo_edv demo_pub m s" for m s
    by (simp add: demo_signer_def demo_edv_def)
qed (use demo_codec_roundtrip in \<open>simp_all add: demo_signer_def demo_claims_def seconds_def\<close>)

text \<open>C13: what acceptance by the gate means. If \<^verbatim>\<open>Validate\<close> returns claims, the token's header named the
  EdDSA algorithm and a trusted key, the signature of that key over header and payload verified,
  the claims are the ones encoded in the signed payload, the token is within its lifetime (up to
  30 seconds), its id is not on the denylist and its version is the account's current one.\<close>
theorem Validate_sound:
  assumes "Validate js edv keys IsAccessTokenRevoked CurrentTokenVersion tok w = (Inr claims, w')"
  shows "\<exists>p0 p1 p2 hb h pub sig pb. tok = p0 @ ''.'' @ p1 @ ''.'' @ p2
    \<and> DecodeString p0 = Some hb \<and> unmarshalHeader js hb = Some h \<and> Alg h = TokenAlg
    \<and> keys (Kid h) = Some pub \<and> length pub = 32
    \<and> DecodeString p2 = Some sig \<and> edv pub (p0 @ ''.'' @ p1) sig
    \<and> DecodeString p1 = Some pb \<and> unmarshalClaims js pb = Some claims
    \<and> (ExpiresAt claims = 0 \<or> w_now w \<le> seconds (ExpiresAt claims) + leeway)
    \<and> (IssuedAt claims = 0 \<or> seconds (IssuedAt claims) \<le> w_now w + leeway)
    \<and> TokenID claims \<notin> rv_Jti ` set (revoked_tokens (w_db w))
    \<and> (\<exists>u \<in> set (users (w_db w)). u_ID u = Subject claims \<and> u_TokenVersion u = TokenVersion claims)"
proof -
  obtain w1 w2 where v: "Verify js edv keys (w_now w) tok = Inr claims"
    and r: "IsAccessTokenRevoked (TokenID claims) w = (Inr False, w1)"
    and c: "CurrentTokenVersion (Subject claims) w1 = (Inr (TokenVersion claims), w2)"
    using assms by (rule Validate_InrD)
  have "w_db w1 = w_db w" and notrev: "TokenID claims \<notin> rv_Jti ` set (revoked_tokens (w_db w))"
    using r unfolding IsAccessTokenRevoked_def
    by (elim pg_InrD; auto simp: q_IsAccessTokenRevoked_def list_ex_iff)+
  with c have u: "\<exists>u \<in> set (users (w_db w)). u_ID u = Subject claims \<and> u_TokenVersion u = TokenVersion claims"
    unfolding CurrentTokenVersion_def
    by (elim pg_InrD) (auto simp: q_CurrentTokenVersion_def dest!: find_SomeD elim!: row.elims)
  from v show ?thesis
    by (rule Verify_InrD) (use notrev u check_times_InrD in blast)
qed


lemma demo_Verify:
  "Verify demo_codec demo_edv [''k1'' \<mapsto> demo_pub] (seconds 500) demo_token = Inr demo_claims"
proof -
  define hb where "hb = marshalHeader demo_codec \<lparr>Alg = TokenAlg, Typ = TokenTyp, Kid = ''k1''\<rparr>"
  define pb where "pb = marshalClaims demo_codec demo_claims"
  define sig where "sig = EncodeToString hb @ ''.'' @ EncodeToString pb"
  have "demo_token = EncodeToString hb @ ''.'' @ EncodeToString pb @ ''.'' @ EncodeToString sig"
    by (simp add: demo_token_def Sign_def demo_signer_def Let_def hb_def pb_def sig_def)
  then have "split_on CHR ''.'' demo_token = [EncodeToString hb, EncodeToString pb, EncodeToString sig]"
    by (metis Encode_no_dot split_three)
  then show ?thesis
    using demo_codec_roundtrip
    by (simp add: Verify_def hb_def pb_def sig_def demo_edv_def demo_pub_def check_times_def demo_claims_def
        seconds_def)
qed

theorem Validate_sound_witness:
  "let w = (demo_world (empty_db\<lparr>users := [demo_user ''u1'']\<rparr>))\<lparr>w_now := seconds 500\<rparr>;
       (r, w') = Validate demo_codec demo_edv [''k1'' \<mapsto> demo_pub] IsAccessTokenRevoked CurrentTokenVersion demo_token w
   in r = Inr demo_claims \<and> TokenID demo_claims \<notin> rv_Jti ` set (revoked_tokens (w_db w))
      \<and> (\<exists>u \<in> set (users (w_db w)). u_ID u = Subject demo_claims \<and> u_TokenVersion u = TokenVersion demo_claims)"
proof -
  define w where "w = (demo_world (empty_db\<lparr>users := [demo_user ''u1'']\<rparr>))\<lparr>w_now := seconds 500\<rparr>"
  have "Validate demo_codec demo_edv [''k1'' \<mapsto> demo_pub] IsAccessTokenRevoked CurrentTokenVersion demo_token w
      = (Inr demo_claims, w)"
    using demo_Verify
    by (simp add: Validate_def bind_def goNow_def IsAccessTokenRevoked_def CurrentTokenVersion_def calm_def w_def
        demo_world_def q_IsAccessTokenRevoked_def q_CurrentTokenVersion_def empty_db_def demo_user_def ret_def
        demo_claims_def)
  from this Validate_sound [OF this] show ?thesis
    unfolding Let_def w_def [symmetric] by (simp only: case_prod_conv) blast
qed

end
