(* ===== verification/AuthService.thy ===== *)
theory AuthService
  imports Token
begin

text \<open>
  Session issuance: refresh-token rotation of \<^verbatim>\<open>internal/store/store.go\<close>, the assurance policy of
  \<^verbatim>\<open>internal/auth/assurance.go\<close>, the access-token minter of \<^verbatim>\<open>internal/auth/minter.go\<close> and the
  session service of \<^verbatim>\<open>internal/auth/service.go\<close>. Random secrets and identifiers are arguments.
\<close>

section \<open>Refresh-token storage\<close>

record NewRefreshToken =
  nt_ID :: string
  nt_Hash :: bytes
  nt_ExpiresAt :: instant

record Rotation =
  ro_UserID :: string
  ro_FamilyID :: string

abbreviation ErrRefreshNotFound :: error where "ErrRefreshNotFound \<equiv> Err ''store: refresh token not found''"
abbreviation ErrRefreshExpired :: error where "ErrRefreshExpired \<equiv> Err ''store: refresh token expired''"
abbreviation ErrRefreshReuse :: error where
  "ErrRefreshReuse \<equiv> Err ''store: refresh token reuse detected; family revoked''"

definition IssueRefreshToken :: "string \<Rightarrow> NewRefreshToken \<Rightarrow> unit io" where
  "IssueRefreshToken uid tok = pg (q_IssueRefreshToken (nt_ID tok) uid (nt_ID tok) (nt_Hash tok) (nt_ExpiresAt tok))"

definition RevokeRefreshFamilyByHash :: "bytes \<Rightarrow> unit io" where
  "RevokeRefreshFamilyByHash presentedHash =
     attempt (pg (q_GetFamilyByHash presentedHash)) (\<lambda>r.
       case r of
         Inl err \<Rightarrow> if err = ErrNoRows then fail ErrRefreshNotFound else fail err
       | Inr family \<Rightarrow> pg (q_RevokeRefreshFamily family))"

text \<open>The body of the rotation transaction. A value ends it with a commit, an error with a rollback;
  reuse is committed (the family is revoked) and only then reported, hence the nested result.\<close>

definition rotate_body :: "bytes \<Rightarrow> NewRefreshToken \<Rightarrow> (Rotation res) io" where
  "rotate_body presentedHash next_tok =
     attempt (pg (q_GetRefreshTokenByHashForUpdate presentedHash)) (\<lambda>r.
       case r of
         Inl err \<Rightarrow> if err = ErrNoRows then fail ErrRefreshNotFound else fail err
       | Inr cur \<Rightarrow>
           if rt_RevokedAt cur \<noteq> None \<or> rt_ReplacedByID cur \<noteq> None then
             bind (pg (q_RevokeRefreshFamily (rt_FamilyID cur))) (\<lambda>_. ret (Inl ErrRefreshReuse))
           else bind goNow (\<lambda>now.
             if \<not> rt_ExpiresAt cur > now then fail ErrRefreshExpired
             else
               bind (pg (q_IssueRefreshToken (nt_ID next_tok) (rt_UserID cur) (rt_FamilyID cur)
                      (nt_Hash next_tok) (nt_ExpiresAt next_tok))) (\<lambda>_.
               bind (pg (q_MarkRefreshTokenReplaced (rt_ID cur) (Some (nt_ID next_tok)))) (\<lambda>_.
               ret (Inr \<lparr>ro_UserID = rt_UserID cur, ro_FamilyID = rt_FamilyID cur\<rparr>)))))"

definition RotateRefreshToken :: "bytes \<Rightarrow> NewRefreshToken \<Rightarrow> Rotation io" where
  "RotateRefreshToken presentedHash next_tok =
     bind (in_tx (rotate_body presentedHash next_tok)) (\<lambda>r.
       case r of Inl err \<Rightarrow> fail err | Inr rot \<Rightarrow> ret rot)"

section \<open>Assurance policy\<close>

abbreviation SignalAdultAttested :: string where "SignalAdultAttested \<equiv> ''adult_attested''"
abbreviation SignalPhoneVerified :: string where "SignalPhoneVerified \<equiv> ''phone_verified''"
abbreviation SignalEKYCVerified :: string where "SignalEKYCVerified \<equiv> ''ekyc_verified''"
abbreviation SignalEKYCPending :: string where "SignalEKYCPending \<equiv> ''ekyc_pending''"

fun HasAll :: "string set \<Rightarrow> string list \<Rightarrow> bool" where
  "HasAll held [] = True"
| "HasAll held (r # rs) = (if r \<notin> held then False else HasAll held rs)"

record tierRule =
  tr_tier :: string
  tr_requires :: "string list"

fun Tier :: "tierRule list \<Rightarrow> string set \<Rightarrow> string" where
  "Tier [] held = IdentityNone"
| "Tier (rule # rules) held = (if HasAll held (tr_requires rule) then tr_tier rule else Tier rules held)"

definition defaultAssurancePolicy :: "tierRule list" where
  "defaultAssurancePolicy =
     [\<lparr>tr_tier = IdentityVerified, tr_requires = [SignalEKYCVerified]\<rparr>,
      \<lparr>tr_tier = IdentityPhoneVerified, tr_requires = [SignalPhoneVerified, SignalAdultAttested]\<rparr>,
      \<lparr>tr_tier = IdentityDeclared, tr_requires = [SignalAdultAttested]\<rparr>,
      \<lparr>tr_tier = IdentityPending, tr_requires = [SignalEKYCPending]\<rparr>]"

definition builtinSignals :: "string \<Rightarrow> bool \<Rightarrow> bool \<Rightarrow> string set" where
  "builtinSignals verificationStatus declaredAdult phoneVerified =
     (if declaredAdult then {SignalAdultAttested} else {})
     \<union> (if phoneVerified then {SignalPhoneVerified} else {})
     \<union> (if verificationStatus = IdentityVerified then {SignalEKYCVerified}
        else if verificationStatus = IdentityPending then {SignalEKYCPending} else {})"

type_synonym signal_source = "string \<Rightarrow> string list io"

fun gatherInto :: "string set \<Rightarrow> signal_source list \<Rightarrow> string \<Rightarrow> string set io" where
  "gatherInto held [] uid = ret held"
| "gatherInto held (src # sources) uid =
     bind (src uid) (\<lambda>sigs. gatherInto (held \<union> set sigs) sources uid)"

definition identityState :: "IdentityVault \<Rightarrow> bool \<Rightarrow> bool \<Rightarrow> string" where
  "identityState idn declaredAdult phoneVerified =
     Tier defaultAssurancePolicy (builtinSignals (iv_VerificationStatus idn) declaredAdult phoneVerified)"

definition capabilities :: "User \<Rightarrow> string list" where
  "capabilities u =
     (if u_CanInstruct u then [CapCanInstruct] else [])
     @ (if u_IsPlatformModerator u then [CapPlatformModerator] else [])"

section \<open>The minter\<close>

record Minter =
  mi_codec :: codec
  mi_signer :: KeySigner
  mi_issuer :: string
  mi_ttl :: duration

definition MaxAccessTTL :: duration where
  "MaxAccessTTL = minutes 15"

definition NewMinter :: "codec \<Rightarrow> KeySigner option \<Rightarrow> string \<Rightarrow> duration \<Rightarrow> Minter res" where
  "NewMinter js signer issuer ttl =
     (case signer of
        None \<Rightarrow> Inl (Err ''auth: signer required'')
      | Some sg \<Rightarrow>
          if issuer = '''' then Inl (Err ''auth: issuer required'')
          else if ttl \<le> 0 \<or> ttl > MaxAccessTTL then Inl (Err ''auth: access TTL out of range'')
          else Inr \<lparr>mi_codec = js, mi_signer = sg, mi_issuer = issuer, mi_ttl = ttl\<rparr>)"

definition MintAccess ::
  "Minter \<Rightarrow> string \<Rightarrow> string \<Rightarrow> int \<Rightarrow> string \<Rightarrow> string list \<Rightarrow> (string \<times> AccessTokenClaims) io" where
  "MintAccess m jti uid tokenVersion idv caps =
     bind goNow (\<lambda>now.
       let claims = \<lparr>Issuer = mi_issuer m, Subject = uid, IssuedAt = unix now,
                     ExpiresAt = unix (now + mi_ttl m), TokenID = jti,
                     ClaimSchema = AccessTokenSchemaVersion, TokenVersion = tokenVersion,
                     IdentityVerification = idv, Capabilities = caps\<rparr>
       in case Sign (mi_codec m) (mi_signer m) claims of
            Inl err \<Rightarrow> fail err
          | Inr tok \<Rightarrow> ret (tok, claims))"

section \<open>The session service\<close>

record AuthSvc =
  as_minter :: Minter
  as_refreshTTL :: duration
  as_hash :: "bytes \<Rightarrow> bytes"
  as_policy :: "tierRule list"
  as_sources :: "signal_source list"

definition NewAuthService ::
  "Minter option \<Rightarrow> duration \<Rightarrow> (bytes \<Rightarrow> bytes) \<Rightarrow> AuthSvc res" where
  "NewAuthService minter refreshTTL H =
     (case minter of
        None \<Rightarrow> Inl (Err ''auth: minter required'')
      | Some m \<Rightarrow>
          if refreshTTL \<le> 0 then Inl (Err ''auth: refresh TTL must be positive'')
          else Inr \<lparr>as_minter = m, as_refreshTTL = refreshTTL, as_hash = H,
                    as_policy = defaultAssurancePolicy, as_sources = []\<rparr>)"

definition RegisterSignalSource :: "AuthSvc \<Rightarrow> signal_source \<Rightarrow> AuthSvc" where
  "RegisterSignalSource s src = s\<lparr>as_sources := as_sources s @ [src]\<rparr>"

record AuthSession =
  se_AccessToken :: string
  se_AccessClaims :: AccessTokenClaims
  se_RefreshToken :: string
  se_RefreshExpiresAt :: instant

abbreviation ErrUnauthenticated :: error where "ErrUnauthenticated \<equiv> Err ''auth: unauthenticated''"
abbreviation ErrAccountNotActive :: error where "ErrAccountNotActive \<equiv> Err ''auth: account not active''"

definition canHoldSession :: "string \<Rightarrow> bool" where
  "canHoldSession status = (status = ''pending'' \<or> status = ''active'')"

definition hashSecret :: "AuthSvc \<Rightarrow> string \<Rightarrow> bytes" where
  "hashSecret s secret = as_hash s secret"

definition mint :: "AuthSvc \<Rightarrow> string \<Rightarrow> User \<Rightarrow> IdentityVault \<Rightarrow> string \<Rightarrow> instant \<Rightarrow> AuthSession io" where
  "mint s jti user identity refreshSecret refreshExp =
     bind (CurrentTokenVersion (u_ID user)) (\<lambda>tv.
     bind (HasAdultAttestation (u_ID user)) (\<lambda>declaredAdult.
     bind (HasVerifiedPhone (u_ID user)) (\<lambda>phoneVerified.
     bind (gatherInto (builtinSignals (iv_VerificationStatus identity) declaredAdult phoneVerified)
             (as_sources s) (u_ID user)) (\<lambda>held.
     bind (MintAccess (as_minter s) jti (u_ID user) tv (Tier (as_policy s) held) (capabilities user))
       (\<lambda>(access, claims).
     ret \<lparr>se_AccessToken = access, se_AccessClaims = claims, se_RefreshToken = refreshSecret,
          se_RefreshExpiresAt = refreshExp\<rparr>)))))"

definition IssueSession :: "AuthSvc \<Rightarrow> string \<Rightarrow> string \<Rightarrow> string \<Rightarrow> string \<Rightarrow> AuthSession io" where
  "IssueSession s secret newid jti uid =
     attempt (GetUser uid) (\<lambda>r.
       case r of
         Inl _ \<Rightarrow> fail ErrUnauthenticated
       | Inr user \<Rightarrow>
           if \<not> canHoldSession (u_Status user) then fail ErrAccountNotActive
           else attempt (GetIdentity uid) (\<lambda>i.
             case i of
               Inl _ \<Rightarrow> fail ErrUnauthenticated
             | Inr identity \<Rightarrow>
                 bind goNow (\<lambda>now.
                   let expiresAt = now + as_refreshTTL s
                   in bind (IssueRefreshToken uid \<lparr>nt_ID = newid, nt_Hash = hashSecret s secret,
                              nt_ExpiresAt = expiresAt\<rparr>) (\<lambda>_.
                      mint s jti user identity secret expiresAt))))"

definition Refresh :: "AuthSvc \<Rightarrow> string \<Rightarrow> string \<Rightarrow> string \<Rightarrow> string \<Rightarrow> AuthSession io" where
  "Refresh s secret newid jti presentedRefresh =
     bind goNow (\<lambda>now.
       let expiresAt = now + as_refreshTTL s
       in attempt (RotateRefreshToken (hashSecret s presentedRefresh)
                     \<lparr>nt_ID = newid, nt_Hash = hashSecret s secret, nt_ExpiresAt = expiresAt\<rparr>) (\<lambda>r.
            case r of
              Inl _ \<Rightarrow> fail ErrUnauthenticated
            | Inr rot \<Rightarrow>
                attempt (GetUser (ro_UserID rot)) (\<lambda>u.
                  case u of
                    Inl _ \<Rightarrow> fail ErrUnauthenticated
                  | Inr user \<Rightarrow>
                      if \<not> canHoldSession (u_Status user) then fail ErrAccountNotActive
                      else attempt (GetIdentity (ro_UserID rot)) (\<lambda>i.
                        case i of
                          Inl _ \<Rightarrow> fail ErrUnauthenticated
                        | Inr identity \<Rightarrow> mint s jti user identity secret expiresAt))))"

definition Logout :: "AuthSvc \<Rightarrow> string \<Rightarrow> string \<Rightarrow> instant \<Rightarrow> unit io" where
  "Logout s presentedRefresh accessJTI accessExpiresAt =
     attempt (RevokeRefreshFamilyByHash (hashSecret s presentedRefresh)) (\<lambda>r.
       case r of
         Inl err \<Rightarrow> if err \<noteq> ErrRefreshNotFound then fail err
                    else if accessJTI \<noteq> '''' then RevokeAccessToken accessJTI accessExpiresAt else ret ()
       | Inr _ \<Rightarrow> if accessJTI \<noteq> '''' then RevokeAccessToken accessJTI accessExpiresAt else ret ())"

section \<open>The assurance ladder\<close>

lemma HasAll_iff [simp]: "HasAll held rs \<longleftrightarrow> set rs \<subseteq> held"
  by (induction rs) auto

text \<open>The tier minted into a token. For the built-in signals the policy gives exactly: verified for
  a verified identity; otherwise phone-verified when the account has both a verified phone and an
  adult attestation; otherwise declared with the attestation alone; otherwise pending for a check in
  flight; otherwise none. A phone alone never lifts the tier.\<close>
lemma identityState_ladder:
  "identityState idn declaredAdult phoneVerified =
     (if iv_VerificationStatus idn = ''verified'' then IdentityVerified
      else if phoneVerified \<and> declaredAdult then IdentityPhoneVerified
      else if declaredAdult then IdentityDeclared
      else if iv_VerificationStatus idn = ''pending'' then IdentityPending
      else IdentityNone)"
  by (simp add: identityState_def defaultAssurancePolicy_def builtinSignals_def)

section \<open>Rotation\<close>

definition find_refresh :: "bytes \<Rightarrow> db \<Rightarrow> RefreshToken option" where
  "find_refresh h d = first_row (\<lambda>r. rt_TokenHash r = h) (refresh_tokens d)"

definition spent :: "RefreshToken \<Rightarrow> bool" where
  "spent r \<longleftrightarrow> rt_RevokedAt r \<noteq> None \<or> rt_ReplacedByID r \<noteq> None"

definition family_revoked :: "string \<Rightarrow> instant \<Rightarrow> db \<Rightarrow> db" where
  "family_revoked fam now d =
     d\<lparr>refresh_tokens := update_rows (\<lambda>r. rt_FamilyID r = fam \<and> rt_RevokedAt r = None)
         (\<lambda>r. r\<lparr>rt_RevokedAt := Some now\<rparr>) (refresh_tokens d)\<rparr>"

definition successor :: "RefreshToken \<Rightarrow> NewRefreshToken \<Rightarrow> instant \<Rightarrow> RefreshToken" where
  "successor cur nt now =
     \<lparr>rt_ID = nt_ID nt, rt_UserID = rt_UserID cur, rt_FamilyID = rt_FamilyID cur,
      rt_TokenHash = nt_Hash nt, rt_ExpiresAt = nt_ExpiresAt nt, rt_RevokedAt = None,
      rt_ReplacedByID = None, rt_CreatedAt = now\<rparr>"

definition rotated :: "RefreshToken \<Rightarrow> NewRefreshToken \<Rightarrow> instant \<Rightarrow> db \<Rightarrow> db" where
  "rotated cur nt now d =
     d\<lparr>refresh_tokens := update_rows (\<lambda>r. rt_ID r = rt_ID cur)
         (\<lambda>r. r\<lparr>rt_RevokedAt := Some now, rt_ReplacedByID := Some (nt_ID nt)\<rparr>)
         (refresh_tokens d @ [successor cur nt now])\<rparr>"

definition fresh_token :: "NewRefreshToken \<Rightarrow> db \<Rightarrow> bool" where
  "fresh_token nt d \<longleftrightarrow>
     (\<forall>r \<in> set (refresh_tokens d). rt_ID r \<noteq> nt_ID nt \<and> rt_TokenHash r \<noteq> nt_Hash nt)"

lemma rotate_body_outcome:
  assumes "rotate_body h nt w = (Inr x, w')"
  shows "\<exists>cur. find_refresh h (w_db w) = Some cur \<and>
    (spent cur \<and> x = Inl ErrRefreshReuse \<and> w_db w' = family_revoked (rt_FamilyID cur) (w_pgnow w) (w_db w) \<or>
     \<not> spent cur \<and> rt_ExpiresAt cur > w_now w \<and> fresh_token nt (w_db w) \<and>
       x = Inr \<lparr>ro_UserID = rt_UserID cur, ro_FamilyID = rt_FamilyID cur\<rparr> \<and>
       w_db w' = rotated cur nt (w_pgnow w) (w_db w))"
proof -
  define cont where "cont = (\<lambda>r. case r of
         Inl err \<Rightarrow> if err = ErrNoRows then fail ErrRefreshNotFound else fail err
       | Inr cur \<Rightarrow>
           if spent cur then
             bind (pg (q_RevokeRefreshFamily (rt_FamilyID cur))) (\<lambda>_. ret (Inl ErrRefreshReuse))
           else bind goNow (\<lambda>now.
             if \<not> rt_ExpiresAt cur > now then fail ErrRefreshExpired
             else
               bind (pg (q_IssueRefreshToken (nt_ID nt) (rt_UserID cur) (rt_FamilyID cur)
                      (nt_Hash nt) (nt_ExpiresAt nt))) (\<lambda>_.
               bind (pg (q_MarkRefreshTokenReplaced (rt_ID cur) (Some (nt_ID nt)))) (\<lambda>_.
               ret (Inr \<lparr>ro_UserID = rt_UserID cur, ro_FamilyID = rt_FamilyID cur\<rparr>)))))"
  have "attempt (pg (q_GetRefreshTokenByHashForUpdate h)) cont w = (Inr x, w')"
    using assms unfolding rotate_body_def cont_def spent_def .
  then obtain q w1 where q: "pg (q_GetRefreshTokenByHashForUpdate h) w = (q, w1)" and k: "cont q w1 = (Inr x, w')"
    by (rule attemptD)
  obtain cur where cur: "q = Inr cur" using k by (cases q) (auto simp: cont_def split: if_splits)
  have found: "find_refresh h (w_db w) = Some cur" and w1: "w_db w1 = w_db w" "w_pgnow w1 = w_pgnow w" "w_now w1 = w_now w"
    using q unfolding cur
    by (elim pg_InrD; auto simp: q_GetRefreshTokenByHashForUpdate_def find_refresh_def elim!: row.elims)+
  show ?thesis
  proof (cases "spent cur")
    case True
    then have "bind (pg (q_RevokeRefreshFamily (rt_FamilyID cur))) (\<lambda>_. ret (Inl ErrRefreshReuse)) w1 = (Inr x, w')"
      using k cur by (simp add: cont_def)
    then have "x = Inl ErrRefreshReuse \<and> w_db w' = family_revoked (rt_FamilyID cur) (w_pgnow w) (w_db w)"
      by (elim bind_InrD pg_InrD) (auto simp: q_RevokeRefreshFamily_def family_revoked_def w1)
    with True found show ?thesis by blast
  next
    case False
    then obtain w2 where exp: "rt_ExpiresAt cur > w_now w"
      and i: "pg (q_IssueRefreshToken (nt_ID nt) (rt_UserID cur) (rt_FamilyID cur) (nt_Hash nt) (nt_ExpiresAt nt)) w1 = (Inr (), w2)"
      and m: "pg (q_MarkRefreshTokenReplaced (rt_ID cur) (Some (nt_ID nt))) w2 = (Inr (), w')"
      and x: "x = Inr \<lparr>ro_UserID = rt_UserID cur, ro_FamilyID = rt_FamilyID cur\<rparr>"
      using k cur w1 by (auto simp: cont_def bind_def [of goNow] goNow_def split: if_splits elim!: bind_InrD)
    have w2: "w_db w2 = (w_db w)\<lparr>refresh_tokens := refresh_tokens (w_db w) @ [successor cur nt (w_pgnow w)]\<rparr>"
      and fresh: "fresh_token nt (w_db w)" and "w_pgnow w2 = w_pgnow w"
      using i by (elim pg_InrD; auto simp: q_IssueRefreshToken_def successor_def fresh_token_def list_ex_iff w1
          split: if_splits)+
    then have "w_db w' = rotated cur nt (w_pgnow w) (w_db w)"
      using m by (elim pg_InrD) (auto simp: q_MarkRefreshTokenReplaced_def rotated_def split: if_splits)
    with False found exp fresh x show ?thesis by blast
  qed
qed

lemma RotateRefreshToken_outcome:
  assumes "RotateRefreshToken h nt w = (r, w')"
  shows "(\<exists>e. r = Inl e) \<and> unchanged (w_db w) (w_db w') \<or>
    (\<exists>cur. find_refresh h (w_db w) = Some cur \<and>
      (spent cur \<and> (r = Inl ErrRefreshReuse \<or> r = Inl ConnLost)
         \<and> w_db w' = family_revoked (rt_FamilyID cur) (w_pgnow w) (w_db w) \<or>
       \<not> spent cur \<and> rt_ExpiresAt cur > w_now w \<and> fresh_token nt (w_db w) \<and>
         (r = Inr \<lparr>ro_UserID = rt_UserID cur, ro_FamilyID = rt_FamilyID cur\<rparr> \<or> r = Inl ConnLost) \<and>
         w_db w' = rotated cur nt (w_pgnow w) (w_db w)))"
proof -
  obtain q w1 where q: "in_tx (rotate_body h nt) w = (q, w1)" by force
  then have w': "w' = w1" and r: "r = (case q of Inl e \<Rightarrow> Inl e | Inr x \<Rightarrow> x)"
    using assms by (auto simp: RotateRefreshToken_def bind_def fail_def ret_def split: sum.splits)
  from in_tx_outcome [OF q] show ?thesis
  proof (elim disjE [of "_ \<and> _"] exE conjE)
    fix d e assume "w_db w1 = rolled_back (w_db w) d" "q = Inl e"
    then show ?thesis using w' r by (auto simp: unchanged_def)
  next
    fix w2 x w3
    assume t: "take_fault w = (NoFault, w2)" and b: "rotate_body h nt w2 = (Inr x, w3)"
      and d: "w_db w1 = w_db w3" and q': "q = Inr x \<or> q = Inl ConnLost"
    note w2 = take_fault_fields [OF t]
    from rotate_body_outcome [OF b, unfolded w2] d q' w' r show ?thesis by auto
  qed
qed

text \<open>The rotation invariant: ids and hashes are unique, a family is named after its first token, a
  replaced token is revoked, and a family has at most one live token.\<close>

abbreviation live :: "RefreshToken \<Rightarrow> bool" where
  "live r \<equiv> rt_RevokedAt r = None"

definition refresh_inv :: "db \<Rightarrow> bool" where
  "refresh_inv d \<longleftrightarrow>
     distinct (map rt_ID (refresh_tokens d)) \<and> distinct (map rt_TokenHash (refresh_tokens d))
     \<and> (\<forall>r \<in> set (refresh_tokens d). rt_FamilyID r \<in> set (map rt_ID (refresh_tokens d)))
     \<and> (\<forall>r \<in> set (refresh_tokens d). rt_ReplacedByID r \<noteq> None \<longrightarrow> rt_RevokedAt r \<noteq> None)
     \<and> unique_where live rt_FamilyID (refresh_tokens d)"

lemma refresh_inv_cong: "refresh_tokens d' = refresh_tokens d \<Longrightarrow> refresh_inv d' = refresh_inv d"
  by (simp add: refresh_inv_def)

lemma find_refreshD:
  assumes "find_refresh h d = Some cur"
  shows "cur \<in> set (refresh_tokens d)" "rt_TokenHash cur = h"
  using assms by (auto simp: find_refresh_def dest: find_SomeD)

lemma refresh_inv_issue:
  assumes "refresh_inv d" and "fresh_token \<lparr>nt_ID = rt_ID t, nt_Hash = rt_TokenHash t, nt_ExpiresAt = x\<rparr> d"
    and "rt_FamilyID t = rt_ID t" and "rt_ReplacedByID t = None"
  shows "refresh_inv (d\<lparr>refresh_tokens := refresh_tokens d @ [t]\<rparr>)"
  using assms by (auto simp: refresh_inv_def fresh_token_def unique_where_snoc image_iff)

lemma refresh_inv_revoke:
  assumes "refresh_inv d"
  shows "refresh_inv (d\<lparr>refresh_tokens := update_rows (\<lambda>r. P r \<and> rt_RevokedAt r = None)
           (\<lambda>r. r\<lparr>rt_RevokedAt := Some now\<rparr>) (refresh_tokens d)\<rparr>)"
  using assms by (auto simp: refresh_inv_def intro: unique_where_update)

lemma refresh_inv_rotated:
  assumes inv: "refresh_inv d" and cur: "find_refresh h d = Some cur" "\<not> spent cur"
    and fresh: "fresh_token nt d"
  shows "refresh_inv (rotated cur nt now d)"
proof -
  define new where "new = successor cur nt now"
  define mark where "mark = update_rows (\<lambda>r. rt_ID r = rt_ID cur)
      (\<lambda>r. r\<lparr>rt_RevokedAt := Some now, rt_ReplacedByID := Some (nt_ID nt)\<rparr>) (refresh_tokens d)"
  have c: "cur \<in> set (refresh_tokens d)" "live cur" using find_refreshD [OF cur(1)] cur(2) by (auto simp: spent_def)
  then have "rt_ID new \<noteq> rt_ID cur" using fresh by (auto simp: new_def successor_def fresh_token_def)
  then have rows: "refresh_tokens (rotated cur nt now d) = mark @ [new]"
    by (simp add: rotated_def mark_def new_def)
  have ids: "map rt_ID mark = map rt_ID (refresh_tokens d)" "map rt_TokenHash mark = map rt_TokenHash (refresh_tokens d)"
    "map rt_FamilyID mark = map rt_FamilyID (refresh_tokens d)"
    by (simp_all add: mark_def)
  have "unique_where live rt_FamilyID mark"
    unfolding mark_def using inv by (intro unique_where_update) (auto simp: refresh_inv_def)
  moreover have "rt_FamilyID q \<noteq> rt_FamilyID cur" if "q \<in> set mark" "live q" for q
  proof -
    have q: "q \<in> set (refresh_tokens d)" "rt_ID q \<noteq> rt_ID cur" using that by (auto simp: mark_def in_set_update_rows)
    then show ?thesis using inv c that(2) unique_whereD [of live rt_FamilyID "refresh_tokens d" q cur]
      by (auto simp: refresh_inv_def)
  qed
  ultimately have "unique_where live rt_FamilyID (mark @ [new])"
    by (auto simp: unique_where_snoc new_def successor_def)
  moreover have "distinct (map rt_ID (mark @ [new]))" "distinct (map rt_TokenHash (mark @ [new]))"
    using inv fresh by (auto simp: refresh_inv_def new_def successor_def fresh_token_def ids simp del: set_map)
      (auto simp: fresh_token_def)
  moreover have "\<forall>r \<in> set (mark @ [new]). rt_FamilyID r \<in> set (map rt_ID (mark @ [new]))"
    using inv c by (auto simp: refresh_inv_def mark_def new_def successor_def simp flip: set_map)
  moreover have "\<forall>r \<in> set (mark @ [new]). rt_ReplacedByID r \<noteq> None \<longrightarrow> rt_RevokedAt r \<noteq> None"
    using inv by (auto simp: refresh_inv_def mark_def new_def successor_def)
  ultimately show ?thesis by (simp add: refresh_inv_def rows)
qed

lemma keeps_refreshI:
  assumes "\<And>w r w'. refresh_inv (w_db w) \<Longrightarrow> m w = (r, w') \<Longrightarrow> refresh_inv (w_db w')"
  shows "keeps refresh_inv m"
  by (rule keepsI) (metis assms prod.collapse)

lemma tx_safe_refresh: "tx_safe refresh_inv"
  by (simp add: tx_safe_def refresh_inv_def rolled_back_def)

lemma keeps_rotate: "keeps refresh_inv (RotateRefreshToken h nt)"
proof (rule keeps_refreshI)
  fix w r w' assume inv: "refresh_inv (w_db w)" and run: "RotateRefreshToken h nt w = (r, w')"
  from RotateRefreshToken_outcome [OF run] show "refresh_inv (w_db w')"
  proof (elim disjE [of "_ \<and> _"] exE conjE)
    assume "unchanged (w_db w) (w_db w')"
    then show ?thesis using inv refresh_inv_cong unchanged_tables(2) by blast
  qed (use inv in \<open>auto simp: family_revoked_def refresh_inv_revoke refresh_inv_rotated\<close>)
qed

lemma refresh_inv_other [simp]:
  "refresh_inv (d\<lparr>users := us\<rparr>) = refresh_inv d" "refresh_inv (d\<lparr>audit_log_seq := n\<rparr>) = refresh_inv d"
  "refresh_inv (d\<lparr>audit_log := l\<rparr>) = refresh_inv d"
  by (simp_all add: refresh_inv_def)

lemma refresh_stmts:
  "stmt_keeps refresh_inv (q_RevokeRefreshFamily fam)"
  "stmt_keeps refresh_inv (q_RevokeAllRefreshTokens uid)"
  "stmt_keeps refresh_inv (q_BumpTokenVersion uid)"
  "stmt_keeps refresh_inv (q_SuspendUser uid)"
  "stmt_keeps refresh_inv (q_GetFamilyByHash h)"
  "stmt_keeps refresh_inv (q_audit_tail)"
  "stmt_keeps refresh_inv (advisory_lock k)"
  "stmt_keeps refresh_inv (q_insert_audit js e)"
  unfolding stmt_keeps_def
  by (auto simp: q_RevokeRefreshFamily_def q_RevokeAllRefreshTokens_def q_BumpTokenVersion_def
      q_SuspendUser_def update_user_def q_GetFamilyByHash_def q_audit_tail_def advisory_lock_def q_insert_audit_def
      split: option.splits if_splits dest!: row_InrD intro: refresh_inv_revoke)

lemma stmt_keeps_issue: "stmt_keeps refresh_inv (q_IssueRefreshToken tid uid tid h x)"
  by (auto simp: stmt_keeps_def q_IssueRefreshToken_def fresh_token_def list_ex_iff intro!: refresh_inv_issue
      split: if_splits)

lemma keeps_refresh_append: "keeps refresh_inv (appendAuditTx st inp)"
  unfolding appendAuditTx_def sign_and_insert_def Let_def
  by (intro keeps_rules refresh_stmts)

text \<open>At most one live refresh token per family, in every reachable state. Issuing, rotating,
  revoking a family, logging out everywhere and suspending an account all preserve it, together with
  the uniqueness of token ids and hashes, whatever faults the connection shows.\<close>
lemma refresh_inv_preserved:
  "keeps refresh_inv (IssueRefreshToken uid tok) \<and> keeps refresh_inv (RotateRefreshToken h nt)
   \<and> keeps refresh_inv (RevokeRefreshFamilyByHash h) \<and> keeps refresh_inv (RevokeAllSessions uid)
   \<and> keeps refresh_inv (SuspendUserAudited st inp)"
proof (intro conjI)
  show "keeps refresh_inv (RotateRefreshToken h nt)" by (rule keeps_rotate)
  show "keeps refresh_inv (SuspendUserAudited st inp)"
    unfolding SuspendUserAudited_def inAuditTx_def
    by (intro keeps_rules keeps_in_tx tx_safe_refresh refresh_stmts keeps_refresh_append)
qed (unfold IssueRefreshToken_def RevokeRefreshFamilyByHash_def RevokeAllSessions_def,
    intro keeps_rules refresh_stmts stmt_keeps_issue, intro keeps_rules refresh_stmts, intro keeps_rules refresh_stmts)

text \<open>A rotation leaves the presented token's row spent. Presenting a token whose row is spent fails; without a fault the reuse is
  reported and every token of the family is revoked.\<close>

definition spent_token :: "bytes \<Rightarrow> string \<Rightarrow> RefreshToken list \<Rightarrow> bool" where
  "spent_token h fam ts \<longleftrightarrow> (\<exists>t \<in> set ts. rt_TokenHash t = h \<and> rt_FamilyID t = fam \<and> spent t)"

lemma rotate_spends:
  assumes "RotateRefreshToken h nt w = (Inr rot, w1)"
  shows "spent_token h (ro_FamilyID rot) (refresh_tokens (w_db w1))"
proof -
  obtain cur where cur: "find_refresh h (w_db w) = Some cur" "rot = \<lparr>ro_UserID = rt_UserID cur, ro_FamilyID = rt_FamilyID cur\<rparr>"
    and d1: "w_db w1 = rotated cur nt (w_pgnow w) (w_db w)"
    using RotateRefreshToken_outcome [OF assms] by auto
  define cur' where "cur' = cur\<lparr>rt_RevokedAt := Some (w_pgnow w), rt_ReplacedByID := Some (nt_ID nt)\<rparr>"
  have "cur' \<in> set (refresh_tokens (w_db w1))"
    using find_refreshD [OF cur(1)] by (auto simp: d1 rotated_def in_set_update_rows cur'_def)
  moreover have "rt_TokenHash cur' = h" "rt_FamilyID cur' = ro_FamilyID rot" "spent cur'"
    using find_refreshD [OF cur(1)] cur(2) by (simp_all add: cur'_def spent_def)
  ultimately show ?thesis unfolding spent_token_def by blast
qed

lemma rotate_spent_fails:
  assumes "refresh_inv (w_db w)" "spent_token h fam (refresh_tokens (w_db w))" "RotateRefreshToken h nt w = (r, w')"
  shows "(\<exists>e. r = Inl e)
    \<and> (calm w \<longrightarrow> r = Inl ErrRefreshReuse
        \<and> (\<forall>t \<in> set (refresh_tokens (w_db w')). rt_FamilyID t = fam \<longrightarrow> rt_RevokedAt t \<noteq> None))"
proof -
  obtain cur where cur: "cur \<in> set (refresh_tokens (w_db w))" "rt_TokenHash cur = h" "rt_FamilyID cur = fam" "spent cur"
    using assms(2) unfolding spent_token_def by blast
  have found: "find_refresh h (w_db w) = Some cur"
    using find_key_SomeI [of rt_TokenHash "refresh_tokens (w_db w)" cur] assms(1) cur(1,2) by (simp add: find_refresh_def refresh_inv_def)
  have "\<exists>e. r = Inl e" using RotateRefreshToken_outcome [OF assms(3)] found cur(4) by auto
  moreover have "r = Inl ErrRefreshReuse \<and> w_db w' = family_revoked fam (w_pgnow w) (w_db w)" if "calm w"
    using that assms(3) found cur(3,4)
    by (auto simp: RotateRefreshToken_def in_tx_def rotate_body_def attempt_def bind_def ret_def fail_def
        q_GetRefreshTokenByHashForUpdate_def find_refresh_def q_RevokeRefreshFamily_def family_revoked_def spent_def)
  ultimately show ?thesis by (auto simp: family_revoked_def)
qed

definition demo_refresh_db :: db where
  "demo_refresh_db = empty_db\<lparr>users := [demo_user ''u1''],
     refresh_tokens := [\<lparr>rt_ID = ''r1'', rt_UserID = ''u1'', rt_FamilyID = ''r1'', rt_TokenHash = ''h1'',
        rt_ExpiresAt = 100, rt_RevokedAt = None, rt_ReplacedByID = None, rt_CreatedAt = 0\<rparr>]\<rparr>"

definition demo_next :: "string \<Rightarrow> string \<Rightarrow> NewRefreshToken" where
  "demo_next i h = \<lparr>nt_ID = i, nt_Hash = h, nt_ExpiresAt = 200\<rparr>"

end
