(* ===== verification/LiveSession.thy ===== *)
theory LiveSession
  imports Livekit Consent AuthService
begin

text \<open>
  \<^verbatim>\<open>internal/session/session.go\<close>: creating class and direct sessions, admitting participants and
  minting their room grants, starting, ending and leaving. \<^verbatim>\<open>NewID()\<close> is an argument of the operation
  that calls it. The interface \<^verbatim>\<open>Repo\<close> is the store of theory \<open>Repos\<close>; what the service needs of it to
  preserve a property of the database is the locale \<open>session_repo\<close>, interpreted for the invariant of
  the sessions themselves, for the two ledgers and for the refresh tokens.
\<close>

section \<open>The service\<close>

abbreviation RoleHost :: string where "RoleHost \<equiv> ''host''"
abbreviation RoleParticipant :: string where "RoleParticipant \<equiv> ''participant''"
abbreviation presenceJoin :: string where "presenceJoin \<equiv> ''join''"
abbreviation presenceLeave :: string where "presenceLeave \<equiv> ''leave''"

abbreviation session_ErrForbidden :: error where
  "session_ErrForbidden \<equiv> Err ''session: forbidden for this assurance tier or role''"
abbreviation session_ErrNotFound :: error where "session_ErrNotFound \<equiv> Err ''session: not found''"
abbreviation ErrSessionEnded :: error where "ErrSessionEnded \<equiv> Err ''session: already ended''"
abbreviation ErrInvalidKind :: error where "ErrInvalidKind \<equiv> Err ''session: kind must be class or direct''"
abbreviation ErrClassRequired :: error where
  "ErrClassRequired \<equiv> Err ''session: class id required for a class session''"

record SessionSvc =
  ss_granter :: Granter
  ss_wsURL :: string

definition NewSessionService :: "Granter option \<Rightarrow> string \<Rightarrow> SessionSvc res" where
  "NewSessionService granter wsURL =
     (case granter of
        None \<Rightarrow> Inl (Err ''session: repo and granter are required'')
      | Some g \<Rightarrow>
          if wsURL = '''' then Inl (Err ''session: livekit ws url is required'')
          else Inr \<lparr>ss_granter = g, ss_wsURL = wsURL\<rparr>)"

text \<open>The class a new session belongs to: checked for a class session, dropped for a direct one.\<close>

definition session_class :: "AccessTokenClaims \<Rightarrow> string \<Rightarrow> string option \<Rightarrow> string option io" where
  "session_class claims kind classID =
     (if kind = ''class'' then
        if \<not> HasCapability claims CapCanInstruct then fail session_ErrForbidden
        else case classID of
               None \<Rightarrow> fail ErrClassRequired
             | Some c \<Rightarrow>
                 if c = '''' then fail ErrClassRequired
                 else attempt (GetClass c) (\<lambda>r. case r of
                        Inl _ \<Rightarrow> fail ErrClassRequired
                      | Inr cl \<Rightarrow> if c_InstructorID cl \<noteq> Subject claims then fail session_ErrForbidden
                                 else ret (Some c))
      else ret None)"

definition session_CreateSession ::
  "string \<Rightarrow> AccessTokenClaims \<Rightarrow> string \<Rightarrow> string option \<Rightarrow> instant option \<Rightarrow> Session io" where
  "session_CreateSession nid claims kind classID scheduledStart =
     (if kind \<noteq> ''class'' \<and> kind \<noteq> ''direct'' then fail ErrInvalidKind
      else if \<not> MeetsPhoneVerification claims then fail session_ErrForbidden
      else bind (session_class claims kind classID) (\<lambda>cid.
           bind (store_CreateSession nid kind cid (''ses_'' @ nid) scheduledStart) (\<lambda>sess.
           bind (AddParticipant nid (Subject claims) RoleHost) (\<lambda>_. ret sess))))"

record JoinResult =
  jr_SessionID :: string
  jr_Room :: string
  jr_Role :: string
  jr_Token :: string
  jr_WSURL :: string

definition roleFor :: "Session \<Rightarrow> string \<Rightarrow> string io" where
  "roleFor sess userID =
     bind (ListActiveParticipants (s_ID sess)) (\<lambda>parts.
       case first_row (\<lambda>p. sp_UserID p = userID) parts of
         Some p \<Rightarrow> ret (sp_Role p)
       | None \<Rightarrow> bind (AddParticipant (s_ID sess) userID RoleParticipant) (\<lambda>_. ret RoleParticipant))"

definition join_grant :: "Session \<Rightarrow> string \<Rightarrow> LkVideoGrant" where
  "join_grant sess role =
     \<lparr>vg_Room = s_LivekitRoom sess, vg_RoomJoin = True,
      vg_CanPublish = (role = RoleHost \<or> s_Kind sess = ''direct''),
      vg_CanSubscribe = True, vg_CanPublishData = True\<rparr>"

definition Join :: "SessionSvc \<Rightarrow> string \<Rightarrow> AccessTokenClaims \<Rightarrow> string \<Rightarrow> JoinResult io" where
  "Join svc eid claims sessionID =
     (if \<not> MeetsPhoneVerification claims then fail session_ErrForbidden
      else attempt (GetSession sessionID) (\<lambda>r. case r of
        Inl _ \<Rightarrow> fail session_ErrNotFound
      | Inr sess \<Rightarrow>
          if s_Status sess = ''ended'' then fail ErrSessionEnded
          else bind (roleFor sess (Subject claims)) (\<lambda>role.
               bind (Granter_Token (ss_granter svc) (Subject claims) '''' (join_grant sess role)) (\<lambda>tok.
               bind (AppendPresenceEvent eid (s_ID sess) (Subject claims) presenceJoin role) (\<lambda>_.
               ret \<lparr>jr_SessionID = s_ID sess, jr_Room = s_LivekitRoom sess, jr_Role = role, jr_Token = tok,
                    jr_WSURL = ss_wsURL svc\<rparr>)))))"

definition requireHost :: "string \<Rightarrow> string \<Rightarrow> unit io" where
  "requireHost userID sessionID =
     bind (ListActiveParticipants sessionID) (\<lambda>parts.
       case first_row (\<lambda>p. sp_UserID p = userID) parts of
         Some p \<Rightarrow> if sp_Role p \<noteq> RoleHost then fail session_ErrForbidden else ret ()
       | None \<Rightarrow> fail session_ErrForbidden)"

definition session_Start :: "AccessTokenClaims \<Rightarrow> string \<Rightarrow> unit io" where
  "session_Start claims sessionID = bind (requireHost (Subject claims) sessionID) (\<lambda>_. StartSession sessionID)"

definition session_End :: "AccessTokenClaims \<Rightarrow> string \<Rightarrow> unit io" where
  "session_End claims sessionID = bind (requireHost (Subject claims) sessionID) (\<lambda>_. EndSession sessionID)"

definition ListForClass :: "AccessTokenClaims \<Rightarrow> string \<Rightarrow> Session list io" where
  "ListForClass claims classID =
     (if \<not> MeetsAdultDeclaration claims then fail session_ErrForbidden else ListSessionsByClass classID)"

definition session_Detail :: "AccessTokenClaims \<Rightarrow> string \<Rightarrow> (Session \<times> SessionParticipant list) io" where
  "session_Detail claims sessionID =
     (if \<not> MeetsAdultDeclaration claims then fail session_ErrForbidden
      else attempt (GetSession sessionID) (\<lambda>r. case r of
        Inl _ \<Rightarrow> fail session_ErrNotFound
      | Inr sess \<Rightarrow> bind (ListActiveParticipants sessionID) (\<lambda>parts. ret (sess, parts))))"

definition Leave :: "string \<Rightarrow> AccessTokenClaims \<Rightarrow> string \<Rightarrow> unit io" where
  "Leave eid claims sessionID =
     bind (ListActiveParticipants sessionID) (\<lambda>parts.
     bind (case first_row (\<lambda>p. sp_UserID p = Subject claims) parts of
             Some p \<Rightarrow> AppendPresenceEvent eid sessionID (Subject claims) presenceLeave (sp_Role p)
           | None \<Rightarrow> ret ()) (\<lambda>_.
     RemoveParticipant sessionID (Subject claims)))"

section \<open>What the service preserves\<close>

text \<open>The contract of the repository towards a property \<open>J\<close> of the database: every call of the
  interface keeps it. Then every operation of the service does.\<close>

locale session_repo =
  fixes J :: "db \<Rightarrow> bool"
  assumes repo_create: "keeps J (store_CreateSession nid kind cid room start)"
    and repo_start: "keeps J (StartSession sid)"
    and repo_end: "keeps J (EndSession sid)"
    and repo_add: "keeps J (AddParticipant sid uid role)"
    and repo_remove: "keeps J (RemoveParticipant sid uid)"
    and repo_event: "keeps J (AppendPresenceEvent eid sid uid action role)"
begin

lemma reads_keep:
  "keeps J (GetSession sid)" "keeps J (GetClass cid)" "keeps J (ListActiveParticipants sid)"
  "keeps J (ListSessionsByClass cid)"
  unfolding GetSession_def GetClass_def ListActiveParticipants_def ListSessionsByClass_def
  by (rule keeps_pg; auto simp: stmt_keeps_def q_GetSession_def q_GetClass_def q_ListActiveParticipants_def
      q_ListSessionsByClass_def Let_def dest: row_InrD)+

lemmas repo_keeps = repo_create repo_start repo_end repo_add repo_remove repo_event reads_keep

lemma keeps_token: "keeps J (Granter_Token g ident name grant)"
  unfolding Granter_Token_def Let_def by (intro keeps_rules)

lemma keeps_session_service:
  "keeps J (session_CreateSession nid claims kind classID start)"
  "keeps J (Join svc eid claims sid)"
  "keeps J (session_Start claims sid)"
  "keeps J (session_End claims sid)"
  "keeps J (Leave eid claims sid)"
  unfolding session_CreateSession_def session_class_def Join_def roleFor_def session_Start_def session_End_def
    requireHost_def Leave_def
  by (intro keeps_rules repo_keeps keeps_token)+

end

text \<open>The invariant of the session tables: the primary keys, the foreign key of the participants, the
  coherence of kind and class, and the cap of two present participants in a direct session.\<close>

definition participant_key :: "SessionParticipant \<Rightarrow> string \<times> string" where
  "participant_key p = (sp_SessionID p, sp_UserID p)"

definition session_inv :: "db \<Rightarrow> bool" where
  "session_inv d \<longleftrightarrow> distinct (map s_ID (sessions d))
     \<and> distinct (map participant_key (session_participants d))
     \<and> (\<forall>p \<in> set (session_participants d). sp_SessionID p \<in> s_ID ` set (sessions d))
     \<and> (\<forall>s \<in> set (sessions d). (s_Kind s = ''direct'') = (s_ClassID s = None))
     \<and> (\<forall>s \<in> set (sessions d). s_Kind s = ''direct'' \<longrightarrow> length (present (s_ID s) d) \<le> 2)"

lemma session_inv_other:
  "sessions d' = sessions d \<Longrightarrow> session_participants d' = session_participants d \<Longrightarrow> session_inv d' = session_inv d"
  by (simp add: session_inv_def present_def)

lemma session_inv_update:
  assumes "session_inv d" and f: "\<And>s. s_ID (f s) = s_ID s \<and> s_Kind (f s) = s_Kind s \<and> s_ClassID (f s) = s_ClassID s"
  shows "session_inv (d\<lparr>sessions := update_rows P f (sessions d)\<rparr>)"
proof -
  let ?ss = "update_rows P f (sessions d)" and ?d = "d\<lparr>sessions := update_rows P f (sessions d)\<rparr>"
  have ids: "map s_ID ?ss = map s_ID (sessions d)" using f by simp
  then have img: "s_ID ` set ?ss = s_ID ` set (sessions d)" by (metis list.set_map)
  have pres: "present i ?d = present i d" for i by (simp add: present_def)
  have rows: "\<exists>q \<in> set (sessions d). s_ID q = s_ID s \<and> s_Kind q = s_Kind s \<and> s_ClassID q = s_ClassID s"
    if "s \<in> set ?ss" for s
    using that f unfolding in_set_update_rows by (metis (no_types))
  have "(s_Kind s = ''direct'') = (s_ClassID s = None) \<and>
      (s_Kind s = ''direct'' \<longrightarrow> length (present (s_ID s) d) \<le> 2)" if "s \<in> set ?ss" for s
    using rows [OF that] assms(1) unfolding session_inv_def by (metis (no_types))
  then show ?thesis using assms(1) unfolding session_inv_def by (simp add: ids img pres)
qed

lemma session_inv_create:
  assumes "session_inv d" "q_CreateSession sid kind cid room start now d = Inr (x, d')"
  shows "session_inv d'"
proof -
  define s where "s = \<lparr>s_ID = sid, s_Kind = kind, s_ClassID = cid, s_LivekitRoom = room, s_Status = ''scheduled'',
    s_ScheduledStart = start, s_StartedAt = None, s_EndedAt = None, s_CreatedAt = now\<rparr>"
  have fresh: "sid \<notin> s_ID ` set (sessions d)"
    and d': "d' = d\<lparr>sessions := sessions d @ [s]\<rparr>" and kc: "(kind = ''direct'') = (cid = None)"
    using assms(2) by (auto simp: q_CreateSession_def Let_def list_ex_iff s_def split: if_splits)
  have none: "present sid d = []"
    using fresh assms(1) by (auto simp: present_def session_inv_def filter_empty_conv)
  have s: "s_ID s = sid" "(s_Kind s = ''direct'') = (s_ClassID s = None)" using kc by (simp_all add: s_def)
  have "present i d' = present i d" for i by (simp add: d' present_def)
  with assms(1) fresh none s show ?thesis by (simp add: session_inv_def d' ball_Un)
qed

lemma session_inv_add:
  assumes "session_inv d" "q_AddParticipant sid uid role now d = Inr (x, d')"
  shows "session_inv d'"
proof -
  define p where "p = \<lparr>sp_SessionID = sid, sp_UserID = uid, sp_Role = role, sp_JoinedAt = now, sp_LeftAt = None\<rparr>"
  have d': "d' = d\<lparr>session_participants := session_participants d @ [p]\<rparr>"
    and new: "participant_key p \<notin> participant_key ` set (session_participants d)"
    and fk: "sid \<in> s_ID ` set (sessions d)"
    and cap: "\<And>s. s \<in> set (sessions d) \<Longrightarrow> s_ID s = sid \<Longrightarrow> s_Kind s = ''direct'' \<Longrightarrow> length (present sid d) < 2"
    using assms(2) by (auto simp: q_AddParticipant_def p_def participant_key_def list_ex_iff split: if_splits)
  have len: "length (present i d') = length (present i d) + (if i = sid then 1 else 0)" for i
    by (simp add: present_def d' p_def)
  have "length (present (s_ID s) d') \<le> 2" if "s \<in> set (sessions d)" "s_Kind s = ''direct''" for s
    using assms(1) cap [OF that(1) _ that(2)] that unfolding len by (auto simp: session_inv_def)
  with assms(1) new fk show ?thesis by (auto simp: session_inv_def d' p_def)
qed

lemma session_inv_remove:
  assumes "session_inv d" and f: "\<And>p. participant_key (f p) = participant_key p \<and> sp_LeftAt (f p) \<noteq> None"
  shows "session_inv (d\<lparr>session_participants := update_rows P f (session_participants d)\<rparr>)"
proof -
  let ?ps = "update_rows P f (session_participants d)"
  have key: "sp_SessionID (f p) = sp_SessionID p" for p using f by (simp add: participant_key_def)
  have gone: "sp_LeftAt (f p) \<noteq> None" for p using f by simp
  have "length (filter (\<lambda>p. sp_SessionID p = i \<and> sp_LeftAt p = None) (update_rows P f ps))
      \<le> length (filter (\<lambda>p. sp_SessionID p = i \<and> sp_LeftAt p = None) ps)" for i ps
    by (induction ps) (simp_all add: gone)
  then have less: "length (present i (d\<lparr>session_participants := ?ps\<rparr>)) \<le> length (present i d)" for i
    by (simp add: present_def)
  have "map participant_key ?ps = map participant_key (session_participants d)" using f by simp
  moreover have "length (present (s_ID s) (d\<lparr>session_participants := ?ps\<rparr>)) \<le> 2"
    if "s \<in> set (sessions d)" "s_Kind s = ''direct''" for s
    using assms(1) that order_trans [OF less] unfolding session_inv_def by blast
  ultimately show ?thesis using assms(1) by (simp add: session_inv_def key)
qed

lemma repo_statements:
  "stmt_keeps session_inv (q_CreateSession nid kind cid room start)"
  "stmt_keeps session_inv (q_StartSession sid)"
  "stmt_keeps session_inv (q_EndSession sid)"
  "stmt_keeps session_inv (q_AddParticipant sid uid role)"
  "stmt_keeps session_inv (q_RemoveParticipant sid uid)"
proof -
  show "stmt_keeps session_inv (q_CreateSession nid kind cid room start)"
    unfolding stmt_keeps_def by (blast intro: session_inv_create)
  show "stmt_keeps session_inv (q_StartSession sid)" "stmt_keeps session_inv (q_EndSession sid)"
    unfolding stmt_keeps_def q_StartSession_def q_EndSession_def by (clarsimp intro!: session_inv_update)+
  show "stmt_keeps session_inv (q_AddParticipant sid uid role)"
    unfolding stmt_keeps_def by (blast intro: session_inv_add)
  show "stmt_keeps session_inv (q_RemoveParticipant sid uid)"
    unfolding stmt_keeps_def q_RemoveParticipant_def by (clarsimp intro!: session_inv_remove simp: participant_key_def)
qed

lemmas repo_defs = store_CreateSession_def StartSession_def EndSession_def AddParticipant_def
  RemoveParticipant_def AppendPresenceEvent_def

lemma keeps_presence_event:
  assumes "\<And>d es n. J (d\<lparr>presence_events := es, presence_events_seq := n\<rparr>) = J d"
  shows "keeps J (AppendPresenceEvent eid sid uid action role)"
  unfolding AppendPresenceEvent_def
  by (rule keeps_pg) (auto simp: stmt_keeps_def assms split: if_splits)

interpretation sessions: session_repo session_inv
  by (unfold_locales; (rule keeps_presence_event | (unfold repo_defs, rule keeps_pg)); (rule repo_statements)?)
    (rule session_inv_other; simp)

lemma quiet_session_statements [quiet_rules]:
  "quiet (q_CreateSession nid kind cid room start)" "quiet (q_StartSession sid)" "quiet (q_EndSession sid)"
  "quiet (q_AddParticipant sid uid role)" "quiet (q_RemoveParticipant sid uid)"
  by (auto simp: quiet_def ledgers_def q_CreateSession_def q_StartSession_def q_EndSession_def q_AddParticipant_def
      q_RemoveParticipant_def Let_def split: if_splits)

lemma quiet_repo:
  assumes "\<And>s :: Session stmt. quiet s \<Longrightarrow> stmt_keeps J s" and "\<And>s :: unit stmt. quiet s \<Longrightarrow> stmt_keeps J s"
    and "\<And>d es n. J (d\<lparr>presence_events := es, presence_events_seq := n\<rparr>) = J d"
  shows "session_repo J"
  by (unfold_locales; (rule keeps_presence_event | (unfold repo_defs, rule keeps_pg)); (rule assms quiet_rules)+)

interpretation session_audit: session_repo "audit_inv H edv keys" for H edv keys
  by (rule quiet_repo; (rule quiet_keeps_audit)?) (simp_all add: audit_inv_def)

interpretation session_consent: session_repo "consent_inv H edv keys" for H edv keys
  by (rule quiet_repo; (rule quiet_keeps_consent)?) (simp_all add: consent_inv_def)

lemma refresh_session_statements:
  "stmt_keeps refresh_inv (q_CreateSession nid kind cid room start)" "stmt_keeps refresh_inv (q_StartSession sid)"
  "stmt_keeps refresh_inv (q_EndSession sid)" "stmt_keeps refresh_inv (q_AddParticipant sid uid role)"
  "stmt_keeps refresh_inv (q_RemoveParticipant sid uid)"
  by (auto simp: stmt_keeps_def q_CreateSession_def q_StartSession_def q_EndSession_def q_AddParticipant_def
      q_RemoveParticipant_def Let_def refresh_inv_def split: if_splits)

interpretation session_refresh: session_repo refresh_inv
  by (unfold_locales; (rule keeps_presence_event | (unfold repo_defs, rule keeps_pg));
      (rule refresh_session_statements)?) (simp add: refresh_inv_def)

section \<open>Admission\<close>

lemma Granter_Token_run:
  "Granter_Token g ident name grant w = (r, w') \<Longrightarrow> w' = w \<and> (w_now v = w_now w \<longrightarrow> fst (Granter_Token g ident name grant v) = r)"
  by (auto simp: Granter_Token_def io_defs Let_def split: if_splits sum.splits)

text \<open>The role under which a caller enters: the one held by the caller who is already in the room, and
  otherwise that of a participant, with a row appended for it.\<close>

definition enters :: "string \<Rightarrow> string \<Rightarrow> string \<Rightarrow> instant \<Rightarrow> db \<Rightarrow> db \<Rightarrow> bool" where
  "enters sid uid role now d d' \<longleftrightarrow>
     (\<exists>p \<in> set (present sid d). sp_UserID p = uid \<and> sp_Role p = role)
       \<and> session_participants d' = session_participants d
     \<or> (\<forall>p \<in> set (present sid d). sp_UserID p \<noteq> uid) \<and> role = RoleParticipant
       \<and> session_participants d' = session_participants d @
           [\<lparr>sp_SessionID = sid, sp_UserID = uid, sp_Role = role, sp_JoinedAt = now, sp_LeftAt = None\<rparr>]"

lemma list_present_InrD:
  assumes "ListActiveParticipants sid w = (Inr parts, w')"
  shows "set parts = set (present sid (w_db w))" "w_db w' = w_db w" "same_clock w w'"
  using assms unfolding ListActiveParticipants_def
  by (auto elim!: pg_InrD simp: q_ListActiveParticipants_def same_clock_def)

lemma AddParticipant_InrD:
  assumes "AddParticipant sid uid role w = (Inr u, w')"
  shows "w_db w' = (w_db w)\<lparr>session_participants := session_participants (w_db w) @
      [\<lparr>sp_SessionID = sid, sp_UserID = uid, sp_Role = role, sp_JoinedAt = w_pgnow w, sp_LeftAt = None\<rparr>]\<rparr>"
  using pg_runD(1) [OF assms [unfolded AddParticipant_def]] by (simp add: q_AddParticipant_def split: if_splits)

lemma roleFor_InrD:
  assumes "roleFor sess uid w = (Inr role, w')"
  shows "enters (s_ID sess) uid role (w_pgnow w) (w_db w) (w_db w') \<and> same_clock w w'
    \<and> presence_events (w_db w') = presence_events (w_db w) \<and> presence_events_seq (w_db w') = presence_events_seq (w_db w)
    \<and> sessions (w_db w') = sessions (w_db w)"
proof -
  obtain parts w1 where l: "ListActiveParticipants (s_ID sess) w = (Inr parts, w1)"
    and k: "(case List.find (\<lambda>p. sp_UserID p = uid) parts of
        None \<Rightarrow> bind (AddParticipant (s_ID sess) uid RoleParticipant) (\<lambda>_. ret RoleParticipant)
      | Some p \<Rightarrow> ret (sp_Role p)) w1 = (Inr role, w')"
    using assms unfolding roleFor_def by (rule bind_InrD)
  note l = list_present_InrD [OF l]
  show ?thesis
  proof (cases "List.find (\<lambda>p. sp_UserID p = uid) parts")
    case (Some p)
    then have "p \<in> set (present (s_ID sess) (w_db w))" "sp_UserID p = uid" using find_SomeD l by fastforce+
    with k Some l show ?thesis by (auto simp: enters_def)
  next
    case None
    then have none: "\<forall>p \<in> set (present (s_ID sess) (w_db w)). sp_UserID p \<noteq> uid"
      using l by (auto dest: find_NoneD)
    from k None obtain u w2 where a: "AddParticipant (s_ID sess) uid RoleParticipant w1 = (Inr u, w2)"
      and r: "ret RoleParticipant w2 = (Inr role, w')" by (auto elim: bind_InrD)
    note a = AddParticipant_InrD [OF a] pg_runD(2,3) [OF a [unfolded AddParticipant_def]]
    from r none l a show ?thesis by (simp add: enters_def same_clock_def)
  qed
qed

lemma AppendPresenceEvent_InrD:
  assumes "AppendPresenceEvent eid sid uid action role w = (Inr u, w')"
  shows "w_db w' = (w_db w)\<lparr>presence_events := presence_events (w_db w) @
      [\<lparr>pe_Seq = presence_events_seq (w_db w), pe_ID = eid, pe_SessionID = sid, pe_UserID = uid,
        pe_Action = action, pe_Role = role, pe_OccurredAt = w_pgnow w\<rparr>],
      presence_events_seq := presence_events_seq (w_db w) + 1\<rparr>"
  using pg_runD(1) [OF assms [unfolded AppendPresenceEvent_def]] by (simp split: if_splits)

lemma Join_InrD:
  assumes "Join svc eid claims sid w = (Inr j, w')"
  obtains s w1 role w2 tok w3 u where "MeetsPhoneVerification claims"
    "first_row (\<lambda>s. s_ID s = sid) (sessions (w_db w)) = Some s" "s_ID s = sid" "s_Status s \<noteq> ''ended''"
    "w_db w1 = w_db w" "same_clock w w1"
    "roleFor s (Subject claims) w1 = (Inr role, w2)"
    "Granter_Token (ss_granter svc) (Subject claims) '''' (join_grant s role) w2 = (Inr tok, w3)"
    "AppendPresenceEvent eid sid (Subject claims) presenceJoin role w3 = (Inr u, w')"
    "j = \<lparr>jr_SessionID = sid, jr_Room = s_LivekitRoom s, jr_Role = role, jr_Token = tok, jr_WSURL = ss_wsURL svc\<rparr>"
proof -
  have phone: "MeetsPhoneVerification claims" using assms by (auto simp: Join_def split: if_splits)
  with assms obtain q w1 where g: "GetSession sid w = (q, w1)" and k: "(case q of
        Inl _ \<Rightarrow> fail session_ErrNotFound
      | Inr sess \<Rightarrow>
          if s_Status sess = ''ended'' then fail ErrSessionEnded
          else bind (roleFor sess (Subject claims)) (\<lambda>role.
               bind (Granter_Token (ss_granter svc) (Subject claims) '''' (join_grant sess role)) (\<lambda>tok.
               bind (AppendPresenceEvent eid (s_ID sess) (Subject claims) presenceJoin role) (\<lambda>_.
               ret \<lparr>jr_SessionID = s_ID sess, jr_Room = s_LivekitRoom sess, jr_Role = role, jr_Token = tok,
                    jr_WSURL = ss_wsURL svc\<rparr>)))) w1 = (Inr j, w')"
    unfolding Join_def by (auto elim: attemptD)
  from k obtain s where q: "q = Inr s" by (cases q) auto
  with g have s: "first_row (\<lambda>s. s_ID s = sid) (sessions (w_db w)) = Some s" and w1: "w_db w1 = w_db w" "same_clock w w1"
    unfolding GetSession_def by (auto elim!: pg_InrD simp: q_GetSession_def same_clock_def dest!: row_InrD)
  then have sid: "s_ID s = sid" by (auto dest: find_SomeD)
  from k q have live: "s_Status s \<noteq> ''ended''" by (auto split: if_splits)
  from k q live obtain role w2 tok w3 u w4 where r: "roleFor s (Subject claims) w1 = (Inr role, w2)"
    and t: "Granter_Token (ss_granter svc) (Subject claims) '''' (join_grant s role) w2 = (Inr tok, w3)"
    and e: "AppendPresenceEvent eid (s_ID s) (Subject claims) presenceJoin role w3 = (Inr u, w4)"
    and j: "j = \<lparr>jr_SessionID = s_ID s, jr_Room = s_LivekitRoom s, jr_Role = role, jr_Token = tok, jr_WSURL = ss_wsURL svc\<rparr>"
    and w': "w' = w4"
    by (auto elim!: bind_InrD)
  with phone s sid live w1 show ?thesis by (intro that) simp_all
qed

text \<open>C17: what an admission is. A call of \<^verbatim>\<open>Join\<close> that returns a grant was made by a caller of at least
  the phone-verified tier for a session that exists and has not ended; the caller stands among the
  present participants under the role returned; the room token is the one minted for that role, with
  the right to publish exactly for the host and the two peers of a direct call; and the presence trail
  has grown by exactly the matching join event.\<close>
theorem Join_admits:
  assumes "Join svc eid claims sid w = (Inr j, w')"
  shows "MeetsPhoneVerification claims \<and>
    (\<exists>s role tok. first_row (\<lambda>s. s_ID s = sid) (sessions (w_db w)) = Some s \<and> s_Status s \<noteq> ''ended''
      \<and> enters sid (Subject claims) role (w_pgnow w) (w_db w) (w_db w')
      \<and> fst (Granter_Token (ss_granter svc) (Subject claims) ''''
          \<lparr>vg_Room = s_LivekitRoom s, vg_RoomJoin = True, vg_CanPublish = (role = RoleHost \<or> s_Kind s = ''direct''),
           vg_CanSubscribe = True, vg_CanPublishData = True\<rparr> w) = Inr tok
      \<and> presence_events (w_db w') = presence_events (w_db w) @
          [\<lparr>pe_Seq = presence_events_seq (w_db w), pe_ID = eid, pe_SessionID = sid, pe_UserID = Subject claims,
            pe_Action = ''join'', pe_Role = role, pe_OccurredAt = w_pgnow w\<rparr>]
      \<and> j = \<lparr>jr_SessionID = sid, jr_Room = s_LivekitRoom s, jr_Role = role, jr_Token = tok, jr_WSURL = ss_wsURL svc\<rparr>)"
proof -
  from assms obtain s w1 role w2 tok w3 u where phone: "MeetsPhoneVerification claims"
    and s: "first_row (\<lambda>s. s_ID s = sid) (sessions (w_db w)) = Some s" "s_ID s = sid" "s_Status s \<noteq> ''ended''"
    and w1: "w_db w1 = w_db w" "same_clock w w1"
    and r: "roleFor s (Subject claims) w1 = (Inr role, w2)"
    and t: "Granter_Token (ss_granter svc) (Subject claims) '''' (join_grant s role) w2 = (Inr tok, w3)"
    and e: "AppendPresenceEvent eid sid (Subject claims) presenceJoin role w3 = (Inr u, w')"
    and j: "j = \<lparr>jr_SessionID = sid, jr_Room = s_LivekitRoom s, jr_Role = role, jr_Token = tok, jr_WSURL = ss_wsURL svc\<rparr>"
    by (rule Join_InrD)
  note r = roleFor_InrD [OF r]
  have w3: "w3 = w2" using Granter_Token_run [OF t] by blast
  have "w_now w = w_now w2" using r w1 by (auto simp: same_clock_def)
  then have tok: "fst (Granter_Token (ss_granter svc) (Subject claims) '''' (join_grant s role) w) = Inr tok"
    using Granter_Token_run [OF t] by blast
  from AppendPresenceEvent_InrD [OF e] r w1 w3 s tok j phone show ?thesis
    by (intro conjI exI [of _ s] exI [of _ role] exI [of _ tok]) (simp_all add: enters_def same_clock_def join_grant_def)
qed

definition demo_granter :: Granter where
  "demo_granter = \<lparr>gr_apiKey = ''key'', gr_apiSecret = ''secret'', gr_ttl = minutes 10, gr_hmac = (\<lambda>k m. []),
     gr_header = '''', gr_marshal = (\<lambda>c. Inr [])\<rparr>"

definition demo_svc :: SessionSvc where
  "demo_svc = \<lparr>ss_granter = demo_granter, ss_wsURL = ''wss://x''\<rparr>"

definition demo_phone :: "string \<Rightarrow> AccessTokenClaims" where
  "demo_phone uid = \<lparr>Issuer = '''', Subject = uid, IssuedAt = 0, ExpiresAt = 0, TokenID = '''', ClaimSchema = 1,
     TokenVersion = 1, IdentityVerification = IdentityPhoneVerified, Capabilities = []\<rparr>"

definition demo_room :: "string \<Rightarrow> SessionParticipant list \<Rightarrow> world" where
  "demo_room status ps = demo_world (empty_db\<lparr>users := [demo_user ''u1'', demo_user ''u2''],
     sessions := [demo_session ''s1'' status], session_participants := ps\<rparr>)"

definition demo_host :: SessionParticipant where
  "demo_host = \<lparr>sp_SessionID = ''s1'', sp_UserID = ''u1'', sp_Role = RoleHost, sp_JoinedAt = 0, sp_LeftAt = None\<rparr>"

lemmas demo_room_defs = demo_room_def demo_world_def empty_db_def demo_session_def demo_user_def demo_host_def calm_def

theorem Join_admits_witness:
  "let w = demo_room ''live'' [demo_host]; (r, w') = Join demo_svc ''e1'' (demo_phone ''u2'') ''s1'' w
   in \<exists>j s role. r = Inr j \<and> first_row (\<lambda>s. s_ID s = ''s1'') (sessions (w_db w)) = Some s \<and> s_Status s \<noteq> ''ended''
      \<and> enters ''s1'' ''u2'' role (w_pgnow w) (w_db w) (w_db w')
      \<and> presence_events (w_db w') = presence_events (w_db w) @
          [\<lparr>pe_Seq = presence_events_seq (w_db w), pe_ID = ''e1'', pe_SessionID = ''s1'', pe_UserID = ''u2'',
            pe_Action = ''join'', pe_Role = role, pe_OccurredAt = w_pgnow w\<rparr>]"
proof -
  define w where "w = demo_room ''live'' [demo_host]"
  obtain r w' where run: "Join demo_svc ''e1'' (demo_phone ''u2'') ''s1'' w = (r, w')" by force
  have "\<exists>j. r = Inr j"
    using run by (auto simp: w_def demo_room_defs Join_def MeetsPhoneVerification_def demo_phone_def GetSession_def
        q_GetSession_def roleFor_def ListActiveParticipants_def q_ListActiveParticipants_def present_def AddParticipant_def
        q_AddParticipant_def user_exists_def Granter_Token_def demo_svc_def demo_granter_def io_defs
        AppendPresenceEvent_def)
  then obtain j where j: "r = Inr j" by blast
  from Join_admits [OF run [unfolded j]] show ?thesis
    unfolding Let_def w_def [symmetric] run prod.case j by (auto simp: demo_phone_def)
qed

section \<open>Host control\<close>

definition is_host :: "string \<Rightarrow> string \<Rightarrow> db \<Rightarrow> bool" where
  "is_host sid uid d \<longleftrightarrow> (\<exists>p \<in> set (present sid d). sp_UserID p = uid \<and> sp_Role p = RoleHost)"

lemma requireHost_outcome:
  assumes "requireHost uid sid w = (r, w')"
  shows "w_db w' = w_db w \<and> same_clock w w' \<and> (r = Inr () \<longrightarrow> is_host sid uid (w_db w))"
  using assms unfolding requireHost_def
proof (cases rule: bind_outcome)
  case (1 e w1)
  then show ?thesis
    using pg_outcome [of "q_ListActiveParticipants sid" w] by (auto simp: ListActiveParticipants_def q_ListActiveParticipants_def)
next
  case (2 parts w1)
  note l = list_present_InrD [OF 2(1)]
  show ?thesis
  proof (cases "List.find (\<lambda>p. sp_UserID p = uid) parts")
    case None
    then show ?thesis using 2(2) l by (auto simp: fail_def)
  next
    case (Some p)
    then have "p \<in> set (present sid (w_db w)) \<and> sp_UserID p = uid" using l by (auto dest: find_SomeD)
    then show ?thesis using 2(2) l Some by (auto simp: is_host_def fail_def ret_def split: if_splits)
  qed
qed

lemma guarded_by_host:
  assumes "bind (requireHost uid sid) (\<lambda>_. pg s) w = (r, w')" and total: "\<And>now d. s now d = Inr ((), f now d)"
  shows "(\<exists>e. r = Inl e) \<and> w_db w' = w_db w
    \<or> is_host sid uid (w_db w) \<and> w_db w' = f (w_pgnow w) (w_db w) \<and> (r = Inr () \<or> r = Inl ConnLost)"
  using assms(1)
proof (cases rule: bind_outcome)
  case (1 e w1)
  then show ?thesis using requireHost_outcome [OF 1(1)] by simp
next
  case (2 u w1)
  then show ?thesis
    using requireHost_outcome [OF 2(1)] pg_outcome [OF 2(2)] by (auto simp: total same_clock_def)
qed

text \<open>Only a host who is in the room starts or ends a session. Whatever the connection does, an
  attempt either returns an error and changes nothing, or the caller is present as the host and the
  session row is the only thing that changes.\<close>
lemma control_is_host_only:
  "(case session_Start claims sid w of (r, w') \<Rightarrow>
      (\<exists>e. r = Inl e) \<and> w_db w' = w_db w
      \<or> is_host sid (Subject claims) (w_db w)
        \<and> w_db w' = (w_db w)\<lparr>sessions := update_rows (\<lambda>s. s_ID s = sid)
            (\<lambda>s. s\<lparr>s_Status := ''live'', s_StartedAt := Some (w_pgnow w)\<rparr>) (sessions (w_db w))\<rparr>)
   \<and> (case session_End claims sid w of (r, w') \<Rightarrow>
      (\<exists>e. r = Inl e) \<and> w_db w' = w_db w
      \<or> is_host sid (Subject claims) (w_db w)
        \<and> w_db w' = (w_db w)\<lparr>sessions := update_rows (\<lambda>s. s_ID s = sid)
            (\<lambda>s. s\<lparr>s_Status := ''ended'', s_EndedAt := Some (w_pgnow w)\<rparr>) (sessions (w_db w))\<rparr>)"
proof -
  obtain r w1 where a: "session_Start claims sid w = (r, w1)" by force
  obtain q w2 where b: "session_End claims sid w = (q, w2)" by force
  note s = guarded_by_host [OF a [unfolded session_Start_def StartSession_def] q_StartSession_def]
  note e = guarded_by_host [OF b [unfolded session_End_def EndSession_def] q_EndSession_def]
  from s e show ?thesis unfolding a b prod.case by blast
qed

text \<open>Starting is not guarded by the state of the session. When the connection is up, a host who is
  in the room can start a session that has already ended: the row becomes live again and keeps the end
  time it had.\<close>
lemma Start_reopens_ended:
  assumes "calm w" and "distinct (map participant_key (session_participants (w_db w)))"
    and "is_host sid (Subject claims) (w_db w)"
    and "s \<in> set (sessions (w_db w))" "s_ID s = sid" "s_Status s = ''ended''" "s_EndedAt s = Some t"
  shows "\<exists>w' s'. session_Start claims sid w = (Inr (), w') \<and> s' \<in> set (sessions (w_db w'))
    \<and> s_ID s' = sid \<and> s_Status s' = ''live'' \<and> s_EndedAt s' = Some t"
proof -
  let ?ps = "present sid (w_db w)" and ?f = "\<lambda>s. s\<lparr>s_Status := ''live'', s_StartedAt := Some (w_pgnow w)\<rparr>"
  let ?ss = "update_rows (\<lambda>s. s_ID s = sid) ?f (sessions (w_db w))"
  obtain p where p: "p \<in> set ?ps" "sp_UserID p = Subject claims" "sp_Role p = RoleHost"
    using assms(3) by (auto simp: is_host_def)
  have only: "q = p" if "q \<in> set ?ps" "sp_UserID q = Subject claims" for q
    using that p distinct_key_unique [OF assms(2), of q p] by (auto simp: present_def participant_key_def)
  have "List.find (\<lambda>q. sp_UserID q = Subject claims) (sort_key sp_JoinedAt ?ps) = Some p"
  proof (cases "List.find (\<lambda>q. sp_UserID q = Subject claims) (sort_key sp_JoinedAt ?ps)")
    case None
    then show ?thesis using p by (auto simp: find_None_iff)
  next
    case (Some q)
    then show ?thesis using only [of q] by (auto dest: find_SomeD)
  qed
  then have run: "session_Start claims sid w = (Inr (), w\<lparr>w_db := (w_db w)\<lparr>sessions := ?ss\<rparr>\<rparr>)"
    using assms(1) p(3) by (simp add: session_Start_def requireHost_def ListActiveParticipants_def
        q_ListActiveParticipants_def StartSession_def q_StartSession_def bind_def ret_def)
  have "?f s \<in> set ?ss" using assms(4,5) by (auto simp: in_set_update_rows)
  then show ?thesis
    using assms(5,7) unfolding run
    by (intro exI [of _ "w\<lparr>w_db := (w_db w)\<lparr>sessions := ?ss\<rparr>\<rparr>"] exI [of _ "?f s"]) simp
qed

section \<open>Leaving\<close>

lemma enters_departed:
  assumes "distinct (map participant_key (session_participants d))"
    and "p \<in> set (session_participants d)" "participant_key p = (sid, uid)" "sp_LeftAt p \<noteq> None"
  shows "\<forall>q \<in> set (present sid d). sp_UserID q \<noteq> uid"
    and "\<exists>e. q_AddParticipant sid uid role now d = Inl e"
proof -
  show "\<forall>q \<in> set (present sid d). sp_UserID q \<noteq> uid"
  proof
    fix q assume q: "q \<in> set (present sid d)"
    show "sp_UserID q \<noteq> uid"
    proof
      assume "sp_UserID q = uid"
      then have "q = p" using q assms(3) distinct_key_unique [OF assms(1) _ assms(2), of q]
        by (simp add: present_def participant_key_def)
      then show False using q assms(4) by (simp add: present_def)
    qed
  qed
  show "\<exists>e. q_AddParticipant sid uid role now d = Inl e"
    using assms(2,3) by (auto simp: q_AddParticipant_def list_ex_iff participant_key_def)
qed

lemma roleFor_departed:
  assumes "distinct (map participant_key (session_participants (w_db w)))"
    and "p \<in> set (session_participants (w_db w))" "participant_key p = (s_ID sess, uid)" "sp_LeftAt p \<noteq> None"
  shows "roleFor sess uid w \<noteq> (Inr role, w')"
proof
  assume run: "roleFor sess uid w = (Inr role, w')"
  then obtain parts w1 where l: "ListActiveParticipants (s_ID sess) w = (Inr parts, w1)"
    and k: "(case List.find (\<lambda>p. sp_UserID p = uid) parts of
        None \<Rightarrow> bind (AddParticipant (s_ID sess) uid RoleParticipant) (\<lambda>_. ret RoleParticipant)
      | Some p \<Rightarrow> ret (sp_Role p)) w1 = (Inr role, w')"
    unfolding roleFor_def by (rule bind_InrD)
  note l = list_present_InrD [OF l]
  note gone = enters_departed [OF assms]
  have "List.find (\<lambda>p. sp_UserID p = uid) parts = None" using gone(1) l by (auto simp: find_None_iff)
  with k obtain u w2 where "AddParticipant (s_ID sess) uid RoleParticipant w1 = (Inr u, w2)" by (auto elim: bind_InrD)
  from pg_runD(1) [OF this [unfolded AddParticipant_def]] gone(2) l(2) show False by (metis Inl_Inr_False)
qed

lemma Leave_departs:
  assumes "Leave eid claims sid w = (Inr (), w')" and "p \<in> set (present sid (w_db w))" "sp_UserID p = Subject claims"
  shows "\<exists>q \<in> set (session_participants (w_db w')). participant_key q = (sid, Subject claims) \<and> sp_LeftAt q \<noteq> None"
proof -
  obtain parts w1 u w2 where l: "ListActiveParticipants sid w = (Inr parts, w1)"
    and e: "(case List.find (\<lambda>p. sp_UserID p = Subject claims) parts of
        None \<Rightarrow> ret () | Some p \<Rightarrow> AppendPresenceEvent eid sid (Subject claims) presenceLeave (sp_Role p)) w1 = (Inr u, w2)"
    and r: "RemoveParticipant sid (Subject claims) w2 = (Inr (), w')"
    using assms(1) unfolding Leave_def by (auto elim!: bind_InrD)
  note l = list_present_InrD [OF l]
  have "session_participants (w_db w2) = session_participants (w_db w)"
    using e l by (auto split: option.splits dest: AppendPresenceEvent_InrD)
  moreover have "session_participants (w_db w') = update_rows
      (\<lambda>p. sp_SessionID p = sid \<and> sp_UserID p = Subject claims \<and> sp_LeftAt p = None)
      (\<lambda>p. p\<lparr>sp_LeftAt := Some (w_pgnow w2)\<rparr>) (session_participants (w_db w2))"
    using arg_cong [where f = "\<lambda>q. session_participants (snd (projr q))", OF pg_runD(1) [OF r [unfolded RemoveParticipant_def]]]
    by (simp add: q_RemoveParticipant_def)
  moreover have "p \<in> set (session_participants (w_db w))" "sp_SessionID p = sid" "sp_LeftAt p = None"
    using assms(2) by (auto simp: present_def)
  ultimately show ?thesis using assms(3) by (auto simp: participant_key_def intro!: bexI [of _ p])
qed

text \<open>The row of a departed participant still holds the primary key, and \<^verbatim>\<open>AddParticipant\<close> is a plain insert: the departed caller
  is not admitted again.\<close>

definition departed :: "string \<Rightarrow> string \<Rightarrow> SessionParticipant list \<Rightarrow> bool" where
  "departed sid uid ps \<longleftrightarrow> distinct (map participant_key ps) \<and> (\<exists>q \<in> set ps. participant_key q = (sid, uid) \<and> sp_LeftAt q \<noteq> None)"

lemma Join_departed:
  assumes "departed sid (Subject claims) (session_participants (w_db w))"
  shows "\<exists>e w'. Join svc eid claims sid w = (Inl e, w')"
proof -
  obtain r w' where run: "Join svc eid claims sid w = (r, w')" by force
  obtain q where d: "distinct (map participant_key (session_participants (w_db w)))"
    and q: "q \<in> set (session_participants (w_db w))" "participant_key q = (sid, Subject claims)" "sp_LeftAt q \<noteq> None"
    using assms unfolding departed_def by blast
  have "r \<noteq> Inr j" for j
  proof
    assume "r = Inr j"
    with run obtain s v role v' where s: "s_ID s = sid" "w_db v = w_db w"
      and role: "roleFor s (Subject claims) v = (Inr role, v')" by (auto elim: Join_InrD)
    from roleFor_departed [of v q s] q d s role show False by simp
  qed
  then show ?thesis using run by (cases r) auto
qed

section \<open>Creating sessions, and the invariant\<close>

lemma session_class_InrD:
  assumes "session_class claims kind classID w = (Inr cid, w')"
  shows "w_db w' = w_db w \<and> same_clock w w' \<and>
    (if kind = ''class''
     then HasCapability claims CapCanInstruct \<and> cid = classID \<and>
       (\<exists>c cl. classID = Some c \<and> cl \<in> set (classes (w_db w)) \<and> c_ID cl = c \<and> c_InstructorID cl = Subject claims)
     else cid = None)"
proof (cases "kind = ''class''")
  case False
  then show ?thesis using assms by (auto simp: session_class_def)
next
  case True
  with assms obtain c where c: "HasCapability claims CapCanInstruct" "classID = Some c"
    and k: "attempt (GetClass c) (\<lambda>r. case r of
                        Inl _ \<Rightarrow> fail ErrClassRequired
                      | Inr cl \<Rightarrow> if c_InstructorID cl \<noteq> Subject claims then fail session_ErrForbidden
                                 else ret (Some c)) w = (Inr cid, w')"
    by (auto simp: session_class_def split: if_splits option.splits)
  from k obtain q w1 where g: "GetClass c w = (q, w1)" and k: "(case q of
                        Inl _ \<Rightarrow> fail ErrClassRequired
                      | Inr cl \<Rightarrow> if c_InstructorID cl \<noteq> Subject claims then fail session_ErrForbidden
                                 else ret (Some c)) w1 = (Inr cid, w')" by (rule attemptD)
  from k obtain cl where q: "q = Inr cl" "c_InstructorID cl = Subject claims" "cid = Some c" "w' = w1"
    by (cases q) (auto split: if_splits)
  note run = pg_runD [OF g [unfolded q GetClass_def]]
  from row_InrD [OF run(1) [unfolded q_GetClass_def]] have "cl \<in> set (classes (w_db w))" "c_ID cl = c" "w_db w1 = w_db w"
    by (auto dest: find_SomeD)
  with True c q run(2,3) show ?thesis by (auto simp: same_clock_def)
qed

text \<open>What creating a session gives. A successful \<^verbatim>\<open>CreateSession\<close> was made by a phone-verified caller;
  the new row is in state scheduled with its own room, the caller is its only participant, as the host;
  a class session needs the instructor capability and a class the caller owns, and a direct session
  carries no class.\<close>
lemma CreateSession_spec:
  assumes "session_CreateSession nid claims kind classID start w = (Inr s, w')" and "session_inv (w_db w)"
  shows "MeetsPhoneVerification claims
    \<and> s = \<lparr>s_ID = nid, s_Kind = kind, s_ClassID = (if kind = ''class'' then classID else None), s_LivekitRoom = ''ses_'' @ nid,
           s_Status = ''scheduled'', s_ScheduledStart = start, s_StartedAt = None, s_EndedAt = None, s_CreatedAt = w_pgnow w\<rparr>
    \<and> sessions (w_db w') = sessions (w_db w) @ [s]
    \<and> present nid (w_db w') = [\<lparr>sp_SessionID = nid, sp_UserID = Subject claims, sp_Role = RoleHost,
         sp_JoinedAt = w_pgnow w, sp_LeftAt = None\<rparr>]
    \<and> (kind = ''direct'' \<or> kind = ''class'' \<and> HasCapability claims CapCanInstruct \<and>
        (\<exists>cl \<in> set (classes (w_db w)). classID = Some (c_ID cl) \<and> c_InstructorID cl = Subject claims))"
proof -
  from assms(1) have g: "kind = ''class'' \<or> kind = ''direct''" "MeetsPhoneVerification claims"
    by (auto simp: session_CreateSession_def split: if_splits)
  with assms(1) obtain cid w1 w2 u where c: "session_class claims kind classID w = (Inr cid, w1)"
    and n: "store_CreateSession nid kind cid (''ses_'' @ nid) start w1 = (Inr s, w2)"
    and a: "AddParticipant nid (Subject claims) RoleHost w2 = (Inr u, w')"
    unfolding session_CreateSession_def by (auto elim!: bind_InrD)
  note c = session_class_InrD [OF c]
  note n = pg_runD [OF n [unfolded store_CreateSession_def]]
  note a = AddParticipant_InrD [OF a]
  have fresh: "nid \<notin> s_ID ` set (sessions (w_db w))"
    and s: "s = \<lparr>s_ID = nid, s_Kind = kind, s_ClassID = cid, s_LivekitRoom = ''ses_'' @ nid,
           s_Status = ''scheduled'', s_ScheduledStart = start, s_StartedAt = None, s_EndedAt = None, s_CreatedAt = w_pgnow w1\<rparr>"
    and w2: "w_db w2 = (w_db w1)\<lparr>sessions := sessions (w_db w1) @ [s]\<rparr>"
    using n(1) c by (simp_all add: q_CreateSession_def Let_def list_ex_iff split: if_splits) auto
  have "present nid (w_db w) = []"
    using fresh assms(2) by (auto simp: present_def session_inv_def filter_empty_conv)
  then have "present nid (w_db w') = [\<lparr>sp_SessionID = nid, sp_UserID = Subject claims, sp_Role = RoleHost,
         sp_JoinedAt = w_pgnow w, sp_LeftAt = None\<rparr>]"
    using a w2 c n(2) by (simp add: present_def same_clock_def)
  with g s w2 c a show ?thesis by (auto simp: same_clock_def)
qed

lemma CreateSession_spec_witness:
  "let w = demo_world (empty_db\<lparr>users := [demo_user ''u1'']\<rparr>) in
   \<exists>s w'. session_CreateSession ''s1'' (demo_phone ''u1'') ''direct'' None None w = (Inr s, w')
     \<and> present ''s1'' (w_db w') = [\<lparr>sp_SessionID = ''s1'', sp_UserID = ''u1'', sp_Role = RoleHost,
         sp_JoinedAt = w_pgnow w, sp_LeftAt = None\<rparr>]"
proof -
  define w where "w = demo_world (empty_db\<lparr>users := [demo_user ''u1'']\<rparr>)"
  obtain r w' where run: "session_CreateSession ''s1'' (demo_phone ''u1'') ''direct'' None None w = (r, w')" by force
  have "\<exists>s. r = Inr s"
    using run by (auto simp: w_def demo_room_defs session_CreateSession_def demo_phone_def MeetsPhoneVerification_def
        session_class_def store_CreateSession_def q_CreateSession_def Let_def AddParticipant_def q_AddParticipant_def
        present_def user_exists_def io_defs)
  then obtain s where s: "r = Inr s" by blast
  have "session_inv (w_db w)" by (simp add: w_def demo_world_def empty_db_def session_inv_def)
  from CreateSession_spec [OF run [unfolded s] this] run [unfolded s] show ?thesis
    unfolding Let_def w_def [symmetric] by (auto simp: demo_phone_def)
qed

text \<open>The session tables stay well formed. It holds of the empty database, and every operation of the
  service preserves it under every connection fault, that a direct session never has more than two
  participants present, that a session is direct exactly when it has no class, and that sessions and
  participants keep their keys.\<close>
lemma session_inv_preserved:
  "session_inv empty_db
   \<and> keeps session_inv (session_CreateSession nid claims kind classID start)
   \<and> keeps session_inv (Join svc eid claims sid)
   \<and> keeps session_inv (session_Start claims sid)
   \<and> keeps session_inv (session_End claims sid)
   \<and> keeps session_inv (Leave eid claims sid)"
  by (intro conjI sessions.keeps_session_service) (simp add: session_inv_def empty_db_def)

end
