(* ===== verification/Entitlements.thy ===== *)
theory Entitlements
  imports Repos
begin

text \<open>
  Ownership of paid classes: the audited grant and revocation of \<^verbatim>\<open>internal/store/entitlements.go\<close> and
  the service of \<^verbatim>\<open>internal/entitlement/entitlement.go\<close> with the access gates that the enrollment and the
  playback of recordings call.
\<close>

section \<open>The store\<close>

record GrantEntitlementInput =
  gi_ID :: string
  gi_SubjectID :: string
  gi_ResourceType :: string
  gi_ResourceID :: string
  gi_Source :: string
  gi_PriceCents :: int
  gi_ExpiresAt :: "instant option"

abbreviation ErrEntitlementExists :: error where
  "ErrEntitlementExists \<equiv> Err ''store: active entitlement already exists''"

text \<open>The insert with the checks of migration 00020: the enumerations, the price, the primary key, the
  index \<^verbatim>\<open>entitlements_active_unique\<close> on the rows that are not revoked and the foreign key.\<close>

definition ent_key :: "Entitlement \<Rightarrow> string \<times> string \<times> string" where
  "ent_key e = (en_SubjectID e, en_ResourceType e, en_ResourceID e)"

definition new_entitlement :: "GrantEntitlementInput \<Rightarrow> instant \<Rightarrow> Entitlement" where
  "new_entitlement inp now =
     \<lparr>en_ID = gi_ID inp, en_SubjectID = gi_SubjectID inp, en_ResourceType = gi_ResourceType inp,
      en_ResourceID = gi_ResourceID inp, en_Source = gi_Source inp, en_PriceCents = gi_PriceCents inp,
      en_GrantedAt = now, en_ExpiresAt = gi_ExpiresAt inp, en_RevokedAt = None\<rparr>"

definition q_insert_entitlement :: "GrantEntitlementInput \<Rightarrow> Entitlement stmt" where
  "q_insert_entitlement inp now d =
     (let e = new_entitlement inp now
      in if gi_ResourceType inp \<noteq> ''class'' then Inl (CheckViolation ''entitlements_resource_type_check'')
         else if gi_Source inp \<noteq> ''purchase'' \<and> gi_Source inp \<noteq> ''grant''
         then Inl (CheckViolation ''entitlements_source_check'')
         else if gi_PriceCents inp < 0 then Inl (CheckViolation ''entitlements_price_cents_check'')
         else if gi_PriceCents inp > maxint32 then Inl OutOfRange
         else if exists_row (\<lambda>r. en_ID r = gi_ID inp) (entitlements d) then Inl (UniqueViolation ''entitlements_pkey'')
         else if exists_row (\<lambda>r. ent_key r = ent_key e \<and> en_RevokedAt r = None) (entitlements d)
         then Inl (UniqueViolation ''entitlements_active_unique'')
         else if \<not> user_exists (gi_SubjectID inp) d then Inl (ForeignKeyViolation ''entitlements_subject_id_fkey'')
         else Inr (e, d\<lparr>entitlements := entitlements d @ [e]\<rparr>))"

definition grantEntitlementTx :: "GrantEntitlementInput \<Rightarrow> Entitlement io" where
  "grantEntitlementTx inp =
     attempt (pg (q_insert_entitlement inp)) (\<lambda>r. case r of
       Inl err \<Rightarrow> (case err of UniqueViolation _ \<Rightarrow> fail ErrEntitlementExists | _ \<Rightarrow> fail err)
     | Inr e \<Rightarrow> ret e)"

definition GrantEntitlementAudited :: "Store \<Rightarrow> GrantEntitlementInput \<Rightarrow> AuditInput \<Rightarrow> Entitlement io" where
  "GrantEntitlementAudited st inp auditIn =
     (if auditSigner st = None then fail ErrNoAuditSigner
      else in_tx (bind (grantEntitlementTx inp) (\<lambda>e. bind (appendAuditTx st auditIn) (\<lambda>_. ret e))))"

text \<open>The update returns the number of rows it changed.\<close>

definition q_revoke_entitlement :: "string \<Rightarrow> string \<Rightarrow> string \<Rightarrow> nat stmt" where
  "q_revoke_entitlement subject rtype rid now d =
     (let hit = (\<lambda>e. ent_key e = (subject, rtype, rid) \<and> en_RevokedAt e = None)
      in Inr (length (filter hit (entitlements d)),
              d\<lparr>entitlements := update_rows hit (\<lambda>e. e\<lparr>en_RevokedAt := Some now\<rparr>) (entitlements d)\<rparr>))"

text \<open>A transaction whose body may decide to return without a commit (\<open>None\<close>): the deferred rollback runs.\<close>

definition in_tx_unless :: "'a \<Rightarrow> 'a option io \<Rightarrow> 'a io" where
  "in_tx_unless skip body w =
     (case take_fault w of (f, w1) \<Rightarrow>
        if f \<noteq> NoFault then (Inl ConnLost, w1)
        else case body w1 of
               (Inl e, w2) \<Rightarrow> (Inl e, w2\<lparr>w_db := rolled_back (w_db w1) (w_db w2)\<rparr>)
             | (Inr None, w2) \<Rightarrow> (Inr skip, w2\<lparr>w_db := rolled_back (w_db w1) (w_db w2)\<rparr>)
             | (Inr (Some x), w2) \<Rightarrow>
                 (case take_fault w2 of (g, w3) \<Rightarrow>
                    if g = Lost then (Inl ConnLost, w3\<lparr>w_db := rolled_back (w_db w1) (w_db w3)\<rparr>)
                    else (if g = NoFault then Inr x else Inl ConnLost, w3)))"

definition RevokeEntitlementAudited :: "Store \<Rightarrow> string \<Rightarrow> string \<Rightarrow> string \<Rightarrow> AuditInput \<Rightarrow> bool io" where
  "RevokeEntitlementAudited st subject rtype rid auditIn =
     (if auditSigner st = None then fail ErrNoAuditSigner
      else in_tx_unless False
        (bind (pg (q_revoke_entitlement subject rtype rid)) (\<lambda>n.
           if n = 0 then ret None
           else bind (appendAuditTx st auditIn) (\<lambda>_. ret (Some True)))))"

section \<open>The service\<close>

abbreviation ResourceClass :: string where "ResourceClass \<equiv> ''class''"
abbreviation SourcePurchase :: string where "SourcePurchase \<equiv> ''purchase''"
abbreviation SourceGrant :: string where "SourceGrant \<equiv> ''grant''"
abbreviation ErrPaymentRequired :: error where "ErrPaymentRequired \<equiv> Err ''entitlement: payment required''"
abbreviation ErrClassNotFound :: error where "ErrClassNotFound \<equiv> Err ''entitlement: class not found''"
abbreviation ErrSessionNotFound :: error where "ErrSessionNotFound \<equiv> Err ''entitlement: session not found''"
abbreviation ErrBadInput :: error where "ErrBadInput \<equiv> Err ''entitlement: invalid input''"

definition EnsureClassAccess :: "string \<Rightarrow> string \<Rightarrow> unit io" where
  "EnsureClassAccess subjectID classID =
     bind (ClassPriceCents classID) (\<lambda>(price, ok).
       if \<not> ok then fail ErrClassNotFound
       else if price = 0 then ret ()
       else bind (HasActiveEntitlement subjectID ResourceClass classID) (\<lambda>owned.
         if \<not> owned then fail ErrPaymentRequired else ret ()))"

definition EnsureRecordingAccess :: "string \<Rightarrow> string \<Rightarrow> unit io" where
  "EnsureRecordingAccess subjectID sessionID =
     bind (ClassIDForSession sessionID) (\<lambda>(classID, ok).
       if \<not> ok then fail ErrSessionNotFound
       else if classID = '''' then ret ()
       else EnsureClassAccess subjectID classID)"

definition auditInput :: "string \<Rightarrow> string \<Rightarrow> string \<Rightarrow> string \<Rightarrow> string \<Rightarrow> string \<Rightarrow> AuditInput" where
  "auditInput actorID actorRole action subjectID resourceType resourceID =
     \<lparr>ai_ActorID = actorID, ai_ActorRole = actorRole, ai_Action = action, ai_TargetType = ''entitlement'',
      ai_TargetID = subjectID @ '':'' @ resourceType @ '':'' @ resourceID, ai_Metadata = []\<rparr>"

definition entitlement_Grant ::
  "Store \<Rightarrow> string \<Rightarrow> string \<Rightarrow> string \<Rightarrow> string \<Rightarrow> string \<Rightarrow> string \<Rightarrow> string \<Rightarrow> int \<Rightarrow> instant option \<Rightarrow> Entitlement io" where
  "entitlement_Grant st newID actorID actorRole subjectID resourceType resourceID source priceCents expiresAt =
     (if subjectID = '''' \<or> resourceID = '''' then fail ErrBadInput
      else if resourceType \<noteq> ResourceClass then fail ErrBadInput
      else if source \<noteq> SourcePurchase \<and> source \<noteq> SourceGrant then fail ErrBadInput
      else if priceCents < 0 then fail ErrBadInput
      else GrantEntitlementAudited st
        \<lparr>gi_ID = newID, gi_SubjectID = subjectID, gi_ResourceType = resourceType, gi_ResourceID = resourceID,
         gi_Source = source, gi_PriceCents = priceCents, gi_ExpiresAt = expiresAt\<rparr>
        (auditInput actorID actorRole ActionEntitlementGranted subjectID resourceType resourceID))"

definition entitlement_Revoke :: "Store \<Rightarrow> string \<Rightarrow> string \<Rightarrow> string \<Rightarrow> string \<Rightarrow> string \<Rightarrow> bool io" where
  "entitlement_Revoke st actorID actorRole subjectID resourceType resourceID =
     RevokeEntitlementAudited st subjectID resourceType resourceID
       (auditInput actorID actorRole ActionEntitlementRevoked subjectID resourceType resourceID)"

definition entitlement_List :: "string \<Rightarrow> Entitlement list io" where
  "entitlement_List subjectID = ListEntitlements subjectID"

section \<open>The access gate\<close>

definition owns_class :: "string \<Rightarrow> string \<Rightarrow> instant \<Rightarrow> db \<Rightarrow> bool" where
  "owns_class uid cid now d \<longleftrightarrow>
     (\<exists>e \<in> set (entitlements d). ent_key e = (uid, ResourceClass, cid) \<and> en_RevokedAt e = None
        \<and> (case en_ExpiresAt e of None \<Rightarrow> True | Some x \<Rightarrow> x > now))"

definition class_access :: "string \<Rightarrow> string \<Rightarrow> instant \<Rightarrow> db \<Rightarrow> unit res" where
  "class_access uid cid now d =
     (case first_row (\<lambda>c. c_ID c = cid) (classes d) of
        None \<Rightarrow> Inl ErrClassNotFound
      | Some c \<Rightarrow> if c_PriceCents c = 0 \<or> owns_class uid cid now d then Inr () else Inl ErrPaymentRequired)"

definition recording_access :: "string \<Rightarrow> string \<Rightarrow> instant \<Rightarrow> db \<Rightarrow> unit res" where
  "recording_access uid sid now d =
     (case first_row (\<lambda>s. s_ID s = sid) (sessions d) of
        None \<Rightarrow> Inl ErrSessionNotFound
      | Some s \<Rightarrow> (case s_ClassID s of None \<Rightarrow> Inr ()
                 | Some cid \<Rightarrow> if cid = '''' then Inr () else class_access uid cid now d))"

text \<open>A read leaves the tables alone and answers from them or reports the lost connection.\<close>

definition answers :: "'a io \<Rightarrow> (instant \<Rightarrow> db \<Rightarrow> 'a res) \<Rightarrow> bool" where
  "answers m q \<longleftrightarrow> (\<forall>w r w'. m w = (r, w') \<longrightarrow> w_db w' = w_db w \<and> same_clock w w' \<and> (calm w \<longrightarrow> calm w')
     \<and> (r = q (w_pgnow w) (w_db w) \<or> r = Inl ConnLost \<and> \<not> calm w))"

lemma answersD:
  assumes "answers m q" "m w = (r, w')"
  shows "w_db w' = w_db w" "same_clock w w'" "calm w \<longrightarrow> calm w'"
    "r = q (w_pgnow w) (w_db w) \<or> r = Inl ConnLost \<and> \<not> calm w"
  using assms unfolding answers_def by blast+

lemma answers_pg:
  assumes "\<And>now d. s now d = (case q now d of Inl e \<Rightarrow> Inl e | Inr x \<Rightarrow> Inr (x, d))"
  shows "answers (pg s) q"
  unfolding answers_def
proof (intro allI impI)
  fix w r w' assume run: "pg s w = (r, w')"
  obtain f w1 where t: "take_fault w = (f, w1)" by force
  have "calm w \<Longrightarrow> f = NoFault \<and> w1 = w" using t by simp
  then show "w_db w' = w_db w \<and> same_clock w w' \<and> (calm w \<longrightarrow> calm w')
     \<and> (r = q (w_pgnow w) (w_db w) \<or> r = Inl ConnLost \<and> \<not> calm w)"
    using run t take_fault_fields [OF t] assms
    by (cases "q (w_pgnow w) (w_db w)"; cases f) (auto simp: pg_def same_clock_def)
qed

lemma answers_bind:
  assumes "answers m q" and "\<And>x. answers (f x) (g x)"
  shows "answers (bind m f) (\<lambda>now d. case q now d of Inl e \<Rightarrow> Inl e | Inr x \<Rightarrow> g x now d)"
  unfolding answers_def
proof (intro allI impI)
  fix w r w' assume run: "bind m f w = (r, w')"
  show "w_db w' = w_db w \<and> same_clock w w' \<and> (calm w \<longrightarrow> calm w')
     \<and> (r = (case q (w_pgnow w) (w_db w) of Inl e \<Rightarrow> Inl e | Inr x \<Rightarrow> g x (w_pgnow w) (w_db w)) \<or> r = Inl ConnLost \<and> \<not> calm w)"
    using run
  proof (cases rule: bind_outcome)
    case (1 e w1)
    then have "Inl e = q (w_pgnow w) (w_db w) \<or> Inl e = (Inl ConnLost :: 'a res) \<and> \<not> calm w"
      using answersD(4) [OF assms(1) 1(1)] by simp
    then have "q (w_pgnow w) (w_db w) = Inl e \<or> e = ConnLost \<and> \<not> calm w" by auto
    then show ?thesis using answersD(1-3) [OF assms(1) 1(1)] 1(2,3) by auto
  next
    case (2 x w1)
    have m: "w_db w1 = w_db w" "same_clock w w1" "calm w \<longrightarrow> calm w1" "q (w_pgnow w) (w_db w) = Inr x"
      using answersD [OF assms(1) 2(1)] by auto
    have f: "w_db w' = w_db w1" "same_clock w1 w'" "calm w1 \<longrightarrow> calm w'"
      "r = g x (w_pgnow w1) (w_db w1) \<or> r = Inl ConnLost \<and> \<not> calm w1"
      using answersD [OF assms(2) 2(2)] by auto
    from m f show ?thesis by (auto simp: same_clock_def)
  qed
qed

lemma answers_pure: "answers (ret x) (\<lambda>_ _. Inr x)" "answers (fail e) (\<lambda>_ _. Inl e)"
  by (auto simp: answers_def ret_def fail_def)

lemma answers_if: "answers m q \<Longrightarrow> answers n p \<Longrightarrow> answers (if b then m else n) (if b then q else p)"
  by simp

lemma answers_EnsureClassAccess: "answers (EnsureClassAccess uid cid) (class_access uid cid)"
proof -
  have price: "answers (ClassPriceCents cid) (\<lambda>now d. Inr (case first_row (\<lambda>c. c_ID c = cid) (classes d) of
      None \<Rightarrow> (0, False) | Some c \<Rightarrow> (c_PriceCents c, True)))"
    unfolding ClassPriceCents_def by (rule answers_pg) (auto split: option.split)
  have own: "answers (HasActiveEntitlement uid ResourceClass cid) (\<lambda>now d. Inr (owns_class uid cid now d))"
    unfolding HasActiveEntitlement_def
    by (rule answers_pg) (auto simp: owns_class_def ent_key_def list_ex_iff)
  have "answers (EnsureClassAccess uid cid) (\<lambda>now d.
      case Inr (case first_row (\<lambda>c. c_ID c = cid) (classes d) of None \<Rightarrow> (0, False) | Some c \<Rightarrow> (c_PriceCents c, True)) of
        Inl e \<Rightarrow> Inl e
      | Inr x \<Rightarrow> (if \<not> snd x then (\<lambda>_ _. Inl ErrClassNotFound)
                 else if fst x = 0 then (\<lambda>_ _. Inr ())
                 else (\<lambda>now d. case Inr (owns_class uid cid now d) of Inl e \<Rightarrow> Inl e
                         | Inr owned \<Rightarrow> (if \<not> owned then (\<lambda>_ _. Inl ErrPaymentRequired) else (\<lambda>_ _. Inr ())) now d)) now d)"
    unfolding EnsureClassAccess_def
    by (rule answers_bind [OF price], unfold split_beta) (intro answers_if answers_pure answers_bind [OF own])
  then show ?thesis
    by (rule back_subst [where P = "answers _"]) (auto simp: class_access_def fun_eq_iff split: option.split)
qed

lemma answers_EnsureRecordingAccess: "answers (EnsureRecordingAccess uid sid) (recording_access uid sid)"
proof -
  have cls: "answers (ClassIDForSession sid) (\<lambda>now d. Inr (case first_row (\<lambda>s. s_ID s = sid) (sessions d) of
      None \<Rightarrow> ('''', False) | Some s \<Rightarrow> (case s_ClassID s of None \<Rightarrow> ('''', True) | Some c \<Rightarrow> (c, True))))"
    unfolding ClassIDForSession_def by (rule answers_pg) (auto split: option.split)
  have "answers (EnsureRecordingAccess uid sid) (\<lambda>now d.
      case Inr (case first_row (\<lambda>s. s_ID s = sid) (sessions d) of
          None \<Rightarrow> ('''', False) | Some s \<Rightarrow> (case s_ClassID s of None \<Rightarrow> ('''', True) | Some c \<Rightarrow> (c, True))) of
        Inl e \<Rightarrow> Inl e
      | Inr x \<Rightarrow> (if \<not> snd x then (\<lambda>_ _. Inl ErrSessionNotFound)
                 else if fst x = '''' then (\<lambda>_ _. Inr ()) else class_access uid (fst x)) now d)"
    unfolding EnsureRecordingAccess_def
    by (rule answers_bind [OF cls], unfold split_beta) (intro answers_if answers_pure answers_EnsureClassAccess)
  then show ?thesis
    by (rule back_subst [where P = "answers _"]) (auto simp: recording_access_def fun_eq_iff split: option.split)
qed

text \<open>Who may see a recording. The gate lets a viewer pass exactly when the session exists and is
  classless, or belongs to a class that is free or that the viewer owns through an entitlement neither
  revoked nor expired; every other case is the error the code names for it. It changes nothing, and a
  broken connection can only turn an answer into an error, never a refusal into a pass.\<close>
lemma EnsureRecordingAccess_gate:
  assumes "EnsureRecordingAccess uid sid w = (r, w')"
  shows "w_db w' = w_db w
    \<and> (r = (case first_row (\<lambda>s. s_ID s = sid) (sessions (w_db w)) of
              None \<Rightarrow> Inl ErrSessionNotFound
            | Some s \<Rightarrow> (case s_ClassID s of
                None \<Rightarrow> Inr ()
              | Some cid \<Rightarrow> if cid = '''' then Inr () else
                 (case first_row (\<lambda>c. c_ID c = cid) (classes (w_db w)) of
                    None \<Rightarrow> Inl ErrClassNotFound
                  | Some c \<Rightarrow> if c_PriceCents c = 0 \<or> owns_class uid cid (w_pgnow w) (w_db w) then Inr ()
                             else Inl ErrPaymentRequired)))
       \<or> r = Inl ConnLost \<and> \<not> calm w)"
  using answersD [OF answers_EnsureRecordingAccess assms]
  unfolding recording_access_def class_access_def by blast

definition demo_paid :: db where
  "demo_paid = empty_db\<lparr>users := [demo_user ''u1''], classes := [demo_class\<lparr>c_PriceCents := 500\<rparr>],
     sessions := [demo_session ''s1'' ''live'']\<rparr>"

lemma EnsureRecordingAccess_gate_witness:
  "fst (EnsureRecordingAccess ''u1'' ''s1'' (demo_world demo_paid)) = Inl ErrPaymentRequired"
proof -
  obtain r w' where run: "EnsureRecordingAccess ''u1'' ''s1'' (demo_world demo_paid) = (r, w')" by force
  have "calm (demo_world demo_paid)" by (simp add: calm_def demo_world_def)
  with EnsureRecordingAccess_gate [OF run] run show ?thesis
    by (simp add: demo_world_def demo_paid_def demo_session_def demo_class_def owns_class_def empty_db_def)
qed

section \<open>Grants and revocations land with their audit entry\<close>

lemma in_tx_unless_outcome:
  assumes "in_tx_unless skip body w = (r, w')"
  shows "(\<exists>e. r = Inl e) \<and> unchanged (w_db w) (w_db w')
    \<or> r = Inr skip \<and> unchanged (w_db w) (w_db w') \<and> (\<exists>w1 w2. w_db w1 = w_db w \<and> body w1 = (Inr None, w2))
    \<or> (\<exists>w1 x w2. w_db w1 = w_db w \<and> same_clock w w1 \<and> body w1 = (Inr (Some x), w2) \<and> w_db w' = w_db w2
          \<and> (r = Inr x \<or> r = Inl ConnLost))"
proof -
  obtain f w1 where t: "take_fault w = (f, w1)" by force
  obtain q w2 where b: "body w1 = (q, w2)" by force
  obtain g w3 where t2: "take_fault w2 = (g, w3)" by force
  note w1 = take_fault_fields(1-3) [OF t] and w3 = take_fault_fields(1) [OF t2]
  show ?thesis
  proof (cases "f = NoFault")
    case False
    then show ?thesis using assms t w1 by (auto simp: in_tx_unless_def)
  next
    case True
    note run = assms [unfolded in_tx_unless_def t prod.case b]
    show ?thesis
    proof (cases q)
      case (Inl e)
      then show ?thesis using run True w1 by (auto simp: unchanged_def)
    next
      case (Inr o')
      then show ?thesis
      proof (cases o')
        case None
        with Inr run True w1 b show ?thesis by (auto simp: unchanged_def)
      next
        case (Some x)
        have "r = Inl ConnLost \<and> w_db w' = rolled_back (w_db w) (w_db w2) \<or>
            w_db w' = w_db w2 \<and> (r = Inr x \<or> r = Inl ConnLost)"
          using run True Inr Some t2 w1 w3 by (auto split: if_splits)
        then show ?thesis using b Inr Some w1 by (auto simp: unchanged_def same_clock_def)
      qed
    qed
  qed
qed

lemma keeps_in_tx_unless:
  assumes "tx_safe J" and "keeps J body"
  shows "keeps J (in_tx_unless skip body)"
proof (rule keepsI)
  fix w :: world assume J: "J (w_db w)"
  obtain r w' where run: "in_tx_unless skip body w = (r, w')" by force
  have "J (w_db w')" if "unchanged (w_db w) (w_db w')"
    using that assms(1) J by (auto simp: unchanged_def tx_safe_def)
  moreover have "J (w_db w')" if "w_db w1 = w_db w" "body w1 = (q, w2)" "w_db w' = w_db w2" for w1 q w2
    using keepsD [OF assms(2) that(2)] J that by simp
  ultimately show "J (w_db (snd (in_tx_unless skip body w)))"
    using in_tx_unless_outcome [OF run] run by auto
qed

text \<open>The append that follows a mutation which leaves the log alone.\<close>

lemma audited_append:
  assumes "bind (appendAuditTx st inp) (\<lambda>_. ret x) w = (Inr y, w')"
    and "audit_inv (sha256 st) edv keys (w_db w)" and "store_ok edv keys st" and "ai_Metadata inp = []"
  shows "y = x \<and> (\<exists>row. records_action inp row \<and> w_db w' = (w_db w)\<lparr>audit_log := audit_log (w_db w) @ [row],
      audit_log_seq := audit_log_seq (w_db w) + 1\<rparr>)"
proof -
  obtain n w1 where a: "appendAuditTx st inp w = (Inr n, w1)" and "y = x" "w' = w1"
    using assms(1) by (auto elim: bind_InrD)
  have "jsonb st ''{}'' = Some ''{}''" "sorted_wrt (<) (map al_Seq (audit_log (w_db w)))"
    using assms(2,3) by (simp_all add: store_ok_def audit_inv_def)
  from appendAuditTx_outcome [OF a this(1) assms(4) this(2)] \<open>y = x\<close> \<open>w' = w1\<close> show ?thesis
    by (auto simp: appended_def intro: records_next_entry)
qed

lemma grantEntitlementTx_InrD:
  assumes "grantEntitlementTx inp w = (Inr e, w')"
  shows "q_insert_entitlement inp (w_pgnow w) (w_db w) = Inr (e, w_db w')"
proof -
  obtain q w1 where "pg (q_insert_entitlement inp) w = (q, w1)" and k: "(case q of
       Inl err \<Rightarrow> (case err of UniqueViolation _ \<Rightarrow> fail ErrEntitlementExists | _ \<Rightarrow> fail err)
     | Inr e \<Rightarrow> ret e) w1 = (Inr e, w')"
    using assms unfolding grantEntitlementTx_def by (rule attemptD)
  moreover from k have "q = Inr e" "w1 = w'" by (auto split: sum.splits error.splits)
  ultimately show ?thesis using pg_runD(1) by simp
qed

definition ent_active :: "string \<times> string \<times> string \<Rightarrow> db \<Rightarrow> bool" where
  "ent_active k d \<longleftrightarrow> (\<exists>e \<in> set (entitlements d). ent_key e = k \<and> en_RevokedAt e = None)"

lemma insert_entitlement_InrD:
  assumes "q_insert_entitlement inp now d = Inr (e, d')"
  shows "e = new_entitlement inp now \<and> d' = d\<lparr>entitlements := entitlements d @ [e]\<rparr>
    \<and> gi_ID inp \<notin> en_ID ` set (entitlements d) \<and> \<not> ent_active (ent_key e) d \<and> user_exists (gi_SubjectID inp) d"
  using assms by (auto simp: q_insert_entitlement_def Let_def list_ex_iff ent_active_def split: if_splits)

lemma GrantEntitlementAudited_outcome:
  assumes run: "GrantEntitlementAudited st inp auditIn w = (r, w')"
    and inv: "audit_inv (sha256 st) edv keys (w_db w)" "store_ok edv keys st" "ai_Metadata auditIn = []"
  shows "(\<exists>e. r = Inl e) \<and> unchanged (w_db w) (w_db w')
    \<or> (\<exists>e row. e = new_entitlement inp (w_pgnow w) \<and> (r = Inr e \<or> r = Inl ConnLost)
        \<and> entitlements (w_db w') = entitlements (w_db w) @ [e] \<and> \<not> ent_active (ent_key e) (w_db w)
        \<and> audit_log (w_db w') = audit_log (w_db w) @ [row] \<and> records_action auditIn row)"
proof (cases "auditSigner st = None")
  case True
  then show ?thesis using run by (auto simp: GrantEntitlementAudited_def fail_def)
next
  case False
  with run have "in_tx (bind (grantEntitlementTx inp) (\<lambda>e. bind (appendAuditTx st auditIn) (\<lambda>_. ret e))) w = (r, w')"
    by (auto simp: GrantEntitlementAudited_def)
  from in_tx_outcome [OF this] show ?thesis
  proof (elim disjE [of "_ \<and> _"] exE conjE)
    fix e d assume "r = Inl e" "w_db w' = rolled_back (w_db w) d"
    then show ?thesis by (auto simp: unchanged_def)
  next
    fix w1 x w2
    assume t: "take_fault w = (NoFault, w1)" and w': "w_db w' = w_db w2" and r: "r = Inr x \<or> r = Inl ConnLost"
      and "bind (grantEntitlementTx inp) (\<lambda>e. bind (appendAuditTx st auditIn) (\<lambda>_. ret e)) w1 = (Inr x, w2)"
    then obtain e w3 where g: "grantEntitlementTx inp w1 = (Inr e, w3)"
      and a: "bind (appendAuditTx st auditIn) (\<lambda>_. ret e) w3 = (Inr x, w2)" by (auto elim: bind_InrD)
    note w1 = take_fault_fields(1,2) [OF t]
    note ins = insert_entitlement_InrD [OF grantEntitlementTx_InrD [OF g], unfolded w1]
    have "audit_inv (sha256 st) edv keys (w_db w3)"
      using inv(1) ins by (simp add: audit_inv_def)
    from audited_append [OF a this inv(2,3)] ins w' r show ?thesis by auto
  qed
qed

text \<open>C21: a grant is atomic with its audit entry and never doubles an ownership. Whatever the connection
  does, either an error is returned and no table has changed, or the new entitlement, for a subject with
  no unrevoked entitlement to that class, and the log entry that names the grantor, the action and the
  target landed together.\<close>
theorem Grant_atomic:
  assumes "audit_inv (sha256 st) edv keys (w_db w)" and "store_ok edv keys st"
    and "entitlement_Grant st newID actorID actorRole uid rtype rid source price expires w = (r, w')"
  shows "(\<exists>e. r = Inl e) \<and> unchanged (w_db w) (w_db w')
    \<or> (\<exists>e row. e = \<lparr>en_ID = newID, en_SubjectID = uid, en_ResourceType = rtype, en_ResourceID = rid, en_Source = source,
            en_PriceCents = price, en_GrantedAt = w_pgnow w, en_ExpiresAt = expires, en_RevokedAt = None\<rparr>
        \<and> (r = Inr e \<or> r = Inl ConnLost) \<and> entitlements (w_db w') = entitlements (w_db w) @ [e]
        \<and> (\<forall>q \<in> set (entitlements (w_db w)). ent_key q = (uid, rtype, rid) \<longrightarrow> en_RevokedAt q \<noteq> None)
        \<and> audit_log (w_db w') = audit_log (w_db w) @ [row] \<and> al_ActorID row = Some actorID
        \<and> al_Action row = ''entitlement.granted'' \<and> al_TargetID row = uid @ '':'' @ rtype @ '':'' @ rid)"
proof (cases "uid = '''' \<or> rid = '''' \<or> rtype \<noteq> ResourceClass \<or> source \<noteq> SourcePurchase \<and> source \<noteq> SourceGrant \<or> price < 0")
  case True
  then have "r = Inl ErrBadInput \<and> w' = w"
    using assms(3) by (auto simp: entitlement_Grant_def fail_def split: if_splits)
  then show ?thesis by simp
next
  case False
  then have "GrantEntitlementAudited st
        \<lparr>gi_ID = newID, gi_SubjectID = uid, gi_ResourceType = rtype, gi_ResourceID = rid,
         gi_Source = source, gi_PriceCents = price, gi_ExpiresAt = expires\<rparr>
        (auditInput actorID actorRole ActionEntitlementGranted uid rtype rid) w = (r, w')"
    using assms(3) by (auto simp: entitlement_Grant_def)
  from GrantEntitlementAudited_outcome [OF this assms(1,2)] show ?thesis
    by (auto simp: auditInput_def new_entitlement_def records_action_def ent_active_def ent_key_def)
qed

theorem Grant_atomic_witness:
  "let w = demo_world demo_paid; (r, w') = entitlement_Grant demo_store ''e1'' ''mod'' AuditRoleModerator ''u1'' ''class'' ''c1'' ''grant'' 0 None w
   in (\<exists>e. r = Inl e) \<and> unchanged (w_db w) (w_db w')
    \<or> (\<exists>e row. (r = Inr e \<or> r = Inl ConnLost) \<and> entitlements (w_db w') = entitlements (w_db w) @ [e]
        \<and> audit_log (w_db w') = audit_log (w_db w) @ [row] \<and> al_TargetID row = ''u1:class:c1'')"
proof -
  define w where "w = demo_world demo_paid"
  obtain r w' where run: "entitlement_Grant demo_store ''e1'' ''mod'' AuditRoleModerator ''u1'' ''class'' ''c1'' ''grant'' 0 None w = (r, w')"
    by force
  have "audit_inv (sha256 demo_store) demo_edv demo_keys (w_db w)"
    by (rule audit_inv_empty) (simp add: w_def demo_world_def demo_paid_def empty_db_def)
  from Grant_atomic [OF this demo_store_ok run] show ?thesis
    unfolding Let_def w_def [symmetric] run prod.case by auto
qed

lemma revoke_statement:
  assumes "q_revoke_entitlement uid rtype rid now d = Inr (n, d')"
  shows "audit_log d' = audit_log d \<and> ledgers d' = ledgers d \<and> \<not> ent_active (uid, rtype, rid) d'
    \<and> filter (\<lambda>e. ent_key e \<noteq> (uid, rtype, rid)) (entitlements d') = filter (\<lambda>e. ent_key e \<noteq> (uid, rtype, rid)) (entitlements d)
    \<and> (n = 0 \<longleftrightarrow> \<not> ent_active (uid, rtype, rid) d)"
proof -
  let ?hit = "\<lambda>e. ent_key e = (uid, rtype, rid) \<and> en_RevokedAt e = None"
  have d': "d' = d\<lparr>entitlements := update_rows ?hit (\<lambda>e. e\<lparr>en_RevokedAt := Some now\<rparr>) (entitlements d)\<rparr>"
    and n: "n = length (filter ?hit (entitlements d))"
    using assms by (simp_all add: q_revoke_entitlement_def Let_def)
  have key: "ent_key (e\<lparr>en_RevokedAt := x\<rparr>) = ent_key e" for e x by (simp add: ent_key_def)
  have "filter (\<lambda>e. ent_key e \<noteq> (uid, rtype, rid)) (update_rows ?hit (\<lambda>e. e\<lparr>en_RevokedAt := Some now\<rparr>) (entitlements d))
      = filter (\<lambda>e. ent_key e \<noteq> (uid, rtype, rid)) (entitlements d)"
    by (rule filter_update_rows_other) (simp_all add: key)
  moreover have "\<not> ent_active (uid, rtype, rid) d'" by (auto simp: ent_active_def d' in_set_update_rows)
  moreover have "n = 0 \<longleftrightarrow> \<not> ent_active (uid, rtype, rid) d" by (auto simp: n ent_active_def filter_empty_conv)
  ultimately show ?thesis by (simp add: d' ledgers_def)
qed

text \<open>A revocation is atomic with its audit entry and closes the gate. Either an error is returned, or
  \<^verbatim>\<open>false\<close> because nothing unrevoked was there, and no table has changed; or the entry that names the
  revocation is in the log, no entitlement of that subject to that class remains unrevoked (so a priced
  class asks for payment from then on), and no other entitlement was touched.\<close>
lemma Revoke_atomic:
  assumes "audit_inv (sha256 st) edv keys (w_db w)" and "store_ok edv keys st"
    and "entitlement_Revoke st actorID actorRole uid rtype rid w = (r, w')"
  shows "((\<exists>e. r = Inl e) \<or> r = Inr False \<and> \<not> ent_active (uid, rtype, rid) (w_db w)) \<and> unchanged (w_db w) (w_db w')
    \<or> (r = Inr True \<or> r = Inl ConnLost) \<and> ent_active (uid, rtype, rid) (w_db w)
      \<and> \<not> ent_active (uid, rtype, rid) (w_db w')
      \<and> filter (\<lambda>e. ent_key e \<noteq> (uid, rtype, rid)) (entitlements (w_db w'))
          = filter (\<lambda>e. ent_key e \<noteq> (uid, rtype, rid)) (entitlements (w_db w))
      \<and> (\<exists>row. audit_log (w_db w') = audit_log (w_db w) @ [row] \<and> al_ActorID row = Some actorID
           \<and> al_Action row = ''entitlement.revoked'' \<and> al_TargetID row = uid @ '':'' @ rtype @ '':'' @ rid)"
proof (cases "auditSigner st = None")
  case True
  then show ?thesis using assms(3) by (auto simp: entitlement_Revoke_def RevokeEntitlementAudited_def fail_def)
next
  case False
  let ?inp = "auditInput actorID actorRole ActionEntitlementRevoked uid rtype rid"
  let ?body = "bind (pg (q_revoke_entitlement uid rtype rid)) (\<lambda>n.
           if n = 0 then ret None else bind (appendAuditTx st ?inp) (\<lambda>_. ret (Some True)))"
  have "in_tx_unless False ?body w = (r, w')"
    using False assms(3) by (auto simp: entitlement_Revoke_def RevokeEntitlementAudited_def)
  from in_tx_unless_outcome [OF this] show ?thesis
  proof (elim disjE [of "_ \<and> _"] exE conjE)
    fix w1 w2 assume b: "?body w1 = (Inr None, w2)" and w: "w_db w1 = w_db w" and r: "r = Inr False" "unchanged (w_db w) (w_db w')"
    from b obtain n w3 where q: "pg (q_revoke_entitlement uid rtype rid) w1 = (Inr n, w3)"
      and k: "(if n = 0 then ret None else bind (appendAuditTx st ?inp) (\<lambda>_. ret (Some True))) w3 = (Inr None, w2)"
      by (rule bind_InrD)
    from k have "n = 0" by (auto elim!: bind_InrD split: if_splits)
    with revoke_statement [OF pg_runD(1) [OF q]] w r show ?thesis by simp
  next
    fix w1 x w2 assume b: "?body w1 = (Inr (Some x), w2)" and w: "w_db w1 = w_db w" "w_db w' = w_db w2"
      and r: "r = Inr x \<or> r = Inl ConnLost"
    from b obtain n w3 where q: "pg (q_revoke_entitlement uid rtype rid) w1 = (Inr n, w3)"
      and k: "(if n = 0 then ret None else bind (appendAuditTx st ?inp) (\<lambda>_. ret (Some True))) w3 = (Inr (Some x), w2)"
      by (rule bind_InrD)
    from k have n: "n \<noteq> 0" and a: "bind (appendAuditTx st ?inp) (\<lambda>_. ret (Some True)) w3 = (Inr (Some x), w2)"
      by (auto split: if_splits)
    note rev = revoke_statement [OF pg_runD(1) [OF q], unfolded w(1)]
    have "audit_inv (sha256 st) edv keys (w_db w3)"
      using assms(1) rev by (simp add: audit_inv_def ledgers_def)
    from audited_append [OF a this assms(2)] rev n w r show ?thesis
      by (auto simp: auditInput_def records_action_def ent_active_def)
  qed auto
qed

definition demo_owned :: "instant option \<Rightarrow> db" where
  "demo_owned expires = demo_paid\<lparr>entitlements := [\<lparr>en_ID = ''e1'', en_SubjectID = ''u1'', en_ResourceType = ''class'',
     en_ResourceID = ''c1'', en_Source = ''grant'', en_PriceCents = 0, en_GrantedAt = 0, en_ExpiresAt = expires, en_RevokedAt = None\<rparr>]\<rparr>"

lemma Revoke_atomic_witness:
  "let w = demo_world (demo_owned None); (r, w') = entitlement_Revoke demo_store ''mod'' AuditRoleModerator ''u1'' ''class'' ''c1'' w
   in (\<exists>e. r = Inl e) \<and> unchanged (w_db w) (w_db w')
     \<or> (r = Inr True \<or> r = Inl ConnLost) \<and> \<not> ent_active (''u1'', ''class'', ''c1'') (w_db w')
       \<and> (\<exists>row. audit_log (w_db w') = audit_log (w_db w) @ [row])"
proof -
  define w where "w = demo_world (demo_owned None)"
  obtain r w' where run: "entitlement_Revoke demo_store ''mod'' AuditRoleModerator ''u1'' ''class'' ''c1'' w = (r, w')" by force
  have "audit_inv (sha256 demo_store) demo_edv demo_keys (w_db w)"
    by (rule audit_inv_empty) (simp add: w_def demo_world_def demo_owned_def demo_paid_def empty_db_def)
  moreover have "ent_active (''u1'', ''class'', ''c1'') (w_db w)"
    by (simp add: w_def demo_world_def demo_owned_def ent_active_def ent_key_def)
  ultimately show ?thesis
    using Revoke_atomic [OF _ demo_store_ok run] unfolding Let_def w_def [symmetric] run prod.case by blast
qed

section \<open>One live entitlement per subject and resource\<close>

definition ent_inv :: "db \<Rightarrow> bool" where
  "ent_inv d \<longleftrightarrow> distinct (map en_ID (entitlements d)) \<and> unique_where (\<lambda>e. en_RevokedAt e = None) ent_key (entitlements d)"

lemma ent_inv_insert: "stmt_keeps ent_inv (q_insert_entitlement inp)"
proof -
  have "ent_inv d'" if "ent_inv d" "q_insert_entitlement inp now d = Inr (e, d')" for now d e d'
  proof -
    note ins = insert_entitlement_InrD [OF that(2)]
    have "en_ID e = gi_ID inp" using ins by (simp add: new_entitlement_def)
    then show ?thesis
      using that(1) ins by (auto simp: ent_inv_def unique_where_snoc ent_active_def)
  qed
  then show ?thesis by (auto simp: stmt_keeps_def)
qed

lemma ent_inv_revoke: "stmt_keeps ent_inv (q_revoke_entitlement uid rtype rid)"
proof -
  have "ent_inv (d\<lparr>entitlements := update_rows P (\<lambda>e. e\<lparr>en_RevokedAt := Some now\<rparr>) (entitlements d)\<rparr>)"
    if "ent_inv d" for d P and now :: instant
    using that by (auto simp: ent_inv_def intro: unique_where_update)
  then show ?thesis by (auto simp: stmt_keeps_def q_revoke_entitlement_def Let_def)
qed

lemma ent_inv_other: "entitlements d' = entitlements d \<Longrightarrow> ent_inv d \<Longrightarrow> ent_inv d'"
  by (simp add: ent_inv_def)

lemma keeps_ent_append: "keeps ent_inv (appendAuditTx st inp)"
  by (rule keeps_append_frame) (simp add: ent_inv_def)

lemma tx_safe_ent_inv: "tx_safe ent_inv"
  by (auto simp: tx_safe_def rolled_back_def ent_inv_def)

text \<open>No double ownership. Of the entitlements that are not revoked there is at most one for a subject
  and a resource; the empty database has this property and grants and revocations preserve it under
  every connection fault.\<close>
lemma ent_inv_preserved:
  "ent_inv empty_db
   \<and> keeps ent_inv (entitlement_Grant st newID actorID actorRole uid rtype rid source price expires)
   \<and> keeps ent_inv (entitlement_Revoke st actorID actorRole uid rtype rid)"
  unfolding entitlement_Grant_def entitlement_Revoke_def GrantEntitlementAudited_def RevokeEntitlementAudited_def
    grantEntitlementTx_def
proof (intro conjI keeps_rules keeps_in_tx keeps_in_tx_unless tx_safe_ent_inv keeps_ent_append ent_inv_insert ent_inv_revoke)
  show "ent_inv empty_db" by (simp add: ent_inv_def empty_db_def)
  show "keeps ent_inv (case err of UniqueViolation x \<Rightarrow> fail ErrEntitlementExists | _ \<Rightarrow> fail err)" for err :: error
    by (cases err) (simp_all add: keeps_fail)
qed

text \<open>An expired entitlement blocks its own renewal. While the row of an expired entitlement is not
  revoked, a new grant of the same class to the same subject is refused with the error that says an active
  entitlement exists, although the access gate already answers that payment is required.\<close>
lemma expired_blocks_regrant:
  assumes "calm w" and "auditSigner st \<noteq> None"
    and "ent_inv (w_db w)" "e \<in> set (entitlements (w_db w))" "ent_key e = (uid, ''class'', cid)"
    and "en_RevokedAt e = None" "en_ExpiresAt e = Some x" "x \<le> w_pgnow w"
    and "first_row (\<lambda>c. c_ID c = cid) (classes (w_db w)) = Some c" "c_PriceCents c \<noteq> 0"
    and "uid \<noteq> ''''" "cid \<noteq> ''''" "source = ''purchase'' \<or> source = ''grant''" "0 \<le> price" "price \<le> maxint32"
  shows "fst (EnsureClassAccess uid cid w) = Inl ErrPaymentRequired
    \<and> fst (entitlement_Grant st newID actorID actorRole uid ''class'' cid source price expires w) = Inl ErrEntitlementExists"
proof
  obtain r w' where run: "EnsureClassAccess uid cid w = (r, w')" by force
  have "\<not> owns_class uid cid (w_pgnow w) (w_db w)"
  proof
    assume "owns_class uid cid (w_pgnow w) (w_db w)"
    then obtain q where q: "q \<in> set (entitlements (w_db w))" "ent_key q = ent_key e" "en_RevokedAt q = None"
      "case en_ExpiresAt q of None \<Rightarrow> True | Some x \<Rightarrow> x > w_pgnow w"
      using assms(5) by (auto simp: owns_class_def)
    have "q = e" using assms(3) q assms(4,6) by (auto simp: ent_inv_def dest: unique_whereD)
    with q(4) assms(7,8) show False by simp
  qed
  with answersD(4) [OF answers_EnsureClassAccess run] assms(1,9,10) run
  show "fst (EnsureClassAccess uid cid w) = Inl ErrPaymentRequired" by (simp add: class_access_def)
next
  let ?inp = "\<lparr>gi_ID = newID, gi_SubjectID = uid, gi_ResourceType = ''class'', gi_ResourceID = cid, gi_Source = source,
    gi_PriceCents = price, gi_ExpiresAt = expires\<rparr>"
  have "list_ex (\<lambda>r. ent_key r = (uid, ''class'', cid) \<and> en_RevokedAt r = None) (entitlements (w_db w))"
    using assms(4-6) by (auto simp: list_ex_iff)
  moreover have "ent_key (new_entitlement ?inp (w_pgnow w)) = (uid, ''class'', cid)" by (simp add: ent_key_def new_entitlement_def)
  ultimately have "\<exists>c. q_insert_entitlement ?inp (w_pgnow w) (w_db w) = Inl (UniqueViolation c)"
    using assms(13-15) by (auto simp: q_insert_entitlement_def Let_def)
  then show "fst (entitlement_Grant st newID actorID actorRole uid ''class'' cid source price expires w) = Inl ErrEntitlementExists"
    using assms(1,2,11-14)
    by (auto simp: entitlement_Grant_def GrantEntitlementAudited_def in_tx_def grantEntitlementTx_def io_defs)
qed

lemma expired_blocks_regrant_witness:
  "let w = demo_world (demo_owned (Some 0)) in
   fst (EnsureClassAccess ''u1'' ''c1'' w) = Inl ErrPaymentRequired
   \<and> fst (entitlement_Grant demo_store ''e2'' ''mod'' AuditRoleModerator ''u1'' ''class'' ''c1'' ''grant'' 0 None w)
       = Inl ErrEntitlementExists"
  unfolding Let_def
  by (rule expired_blocks_regrant [where e = "hd (entitlements (demo_owned (Some 0)))" and x = 0 and c = "demo_class\<lparr>c_PriceCents := 500\<rparr>"])
    (simp_all add: demo_world_def demo_owned_def demo_paid_def demo_class_def calm_def demo_store_def ent_inv_def
      unique_where_def ent_key_def)

end
