(* ===== verification/Recordings.thy ===== *)
theory Recordings
  imports LiveSession Entitlements
begin

text \<open>
  The control of session recordings: \<^verbatim>\<open>internal/recording/recording.go\<close> (start and stop behind the consent
  gate, the reaction to a withdrawal, webhook events), with the egress calls of
  \<^verbatim>\<open>internal/livekit/egress.go\<close>. A call to the media server is appended to the list of calls of the world
  and answered by its next reply; decoding the JSON answer is the parameter \<open>rs_unmarshal\<close> of the service.
  The per-host start limiter is its answer on this call.
\<close>

section \<open>Egress\<close>

fun trim_right_slash :: "string \<Rightarrow> string" where
  "trim_right_slash s = rev (dropWhile (\<lambda>c. c = CHR ''/'') (rev s))"

record EgressClient =
  ec_baseURL :: string
  ec_apiKey :: string
  ec_apiSecret :: bytes
  ec_filePrefix :: string
  ec_unmarshal :: "bytes \<Rightarrow> EgressInfo option"

definition NewEgressClient ::
  "(bytes \<Rightarrow> EgressInfo option) \<Rightarrow> string \<Rightarrow> string \<Rightarrow> string \<Rightarrow> string \<Rightarrow> EgressClient res" where
  "NewEgressClient unmarshal baseURL apiKey apiSecret filePrefix =
     (if baseURL = '''' then Inl (Err ''livekit: egress base url is required'')
      else if apiKey = '''' \<or> apiSecret = '''' then Inl (Err ''livekit: api key and secret are required'')
      else let prefix = (if filePrefix = '''' then ''/out/'' else filePrefix)
           in Inr \<lparr>ec_baseURL = trim_right_slash baseURL, ec_apiKey = apiKey, ec_apiSecret = apiSecret,
                   ec_filePrefix = trim_right_slash prefix @ ''/'', ec_unmarshal = unmarshal\<rparr>)"

definition egress_call :: "EgressClient \<Rightarrow> egress_call \<Rightarrow> EgressInfo io" where
  "egress_call c req =
     bind (call_egress req) (\<lambda>body.
       case ec_unmarshal c body of
         None \<Rightarrow> fail (Err ''livekit: decoding egress response'')
       | Some info \<Rightarrow> ret info)"

definition StartRoomComposite :: "EgressClient \<Rightarrow> string \<Rightarrow> EgressInfo io" where
  "StartRoomComposite c room =
     (if room = '''' then fail (Err ''livekit: room is required'')
      else egress_call c (CallStart room (ec_filePrefix c @ room @ ''-{time}.mp4'')))"

definition StopEgress :: "EgressClient \<Rightarrow> string \<Rightarrow> EgressInfo io" where
  "StopEgress c egressID =
     (if egressID = '''' then fail (Err ''livekit: egress id is required'')
      else egress_call c (CallStop egressID))"

section \<open>The service\<close>

abbreviation StatusStarting :: string where "StatusStarting \<equiv> ''starting''"
abbreviation StatusActive :: string where "StatusActive \<equiv> ''active''"
abbreviation StatusStopping :: string where "StatusStopping \<equiv> ''stopping''"
abbreviation StatusCompleted :: string where "StatusCompleted \<equiv> ''completed''"
abbreviation StatusFailed :: string where "StatusFailed \<equiv> ''failed''"
abbreviation StatusAborted :: string where "StatusAborted \<equiv> ''aborted''"

abbreviation rec_ErrForbidden :: error where "rec_ErrForbidden \<equiv> Err ''recording: host only''"
abbreviation rec_ErrNotFound :: error where "rec_ErrNotFound \<equiv> Err ''recording: session not found''"
abbreviation rec_ErrSessionEnded :: error where "rec_ErrSessionEnded \<equiv> Err ''recording: session already ended''"
abbreviation ErrConsentRequired :: error where
  "ErrConsentRequired \<equiv> Err ''recording: not all present participants have consented''"
abbreviation ErrAlreadyRecording :: error where "ErrAlreadyRecording \<equiv> Err ''recording: a recording is already in flight''"
abbreviation ErrNotRecording :: error where "ErrNotRecording \<equiv> Err ''recording: no recording in flight''"
abbreviation ErrCapacity :: error where "ErrCapacity \<equiv> Err ''recording: concurrent recording capacity reached''"
abbreviation ErrStartRateLimited :: error where
  "ErrStartRateLimited \<equiv> Err ''recording: start rate limit exceeded for this host''"

record RecordingSvc =
  rs_egress :: EgressClient
  rs_maxConcurrent :: int
  rs_startLimiter :: "(string \<Rightarrow> bool) option"

definition mapStatus :: "string \<Rightarrow> string" where
  "mapStatus lk =
     (if lk = ''EGRESS_STARTING'' then StatusStarting
      else if lk = ''EGRESS_ACTIVE'' then StatusActive
      else if lk = ''EGRESS_ENDING'' then StatusStopping
      else if lk = ''EGRESS_COMPLETE'' then StatusCompleted
      else if lk = ''EGRESS_FAILED'' then StatusFailed
      else if lk = ''EGRESS_ABORTED'' \<or> lk = ''EGRESS_LIMIT_REACHED'' then StatusAborted
      else StatusActive)"

definition isTerminal :: "string \<Rightarrow> bool" where
  "isTerminal status = (status = StatusCompleted \<or> status = StatusFailed \<or> status = StatusAborted)"

fun error_text :: "error \<Rightarrow> string" where
  "error_text (Err m) = m"
| "error_text _ = ''database error''"

definition requireHostSession :: "string \<Rightarrow> string \<Rightarrow> Session io" where
  "requireHostSession userID sessionID =
     attempt (GetSession sessionID) (\<lambda>r. case r of
       Inl _ \<Rightarrow> fail rec_ErrNotFound
     | Inr sess \<Rightarrow>
         if s_Status sess = ''ended'' then fail rec_ErrSessionEnded
         else bind (ListActiveParticipants sessionID) (\<lambda>parts.
           case first_row (\<lambda>p. sp_UserID p = userID) parts of
             Some p \<Rightarrow> if sp_Role p \<noteq> ''host'' then fail rec_ErrForbidden else ret sess
           | None \<Rightarrow> fail rec_ErrForbidden))"

definition zero_recording :: Recording where
  "zero_recording = \<lparr>rc_ID = '''', rc_SessionID = '''', rc_EgressID = None, rc_Status = '''', rc_OutputURI = None,
     rc_Error = None, rc_StartedAt = 0, rc_EndedAt = None\<rparr>"

text \<open>The part of \<^verbatim>\<open>Start\<close> after the guards: create the row, call egress, store its answer.\<close>

definition begin_recording :: "RecordingSvc \<Rightarrow> string \<Rightarrow> Session \<Rightarrow> string \<Rightarrow> Recording io" where
  "begin_recording svc nid sess sessionID =
     attempt (CreateRecording nid sessionID StatusStarting) (\<lambda>created. case created of
       Inl err \<Rightarrow> attempt (ActiveRecording sessionID) (\<lambda>a. case a of
                    Inr (Some _) \<Rightarrow> fail ErrAlreadyRecording
                  | _ \<Rightarrow> fail err)
     | Inr _ \<Rightarrow>
         attempt (StartRoomComposite (rs_egress svc) (s_LivekitRoom sess)) (\<lambda>started. case started of
           Inl err \<Rightarrow> attempt (UpdateRecordingStatus nid StatusFailed True None (Some (error_text err))) (\<lambda>_. fail err)
         | Inr info \<Rightarrow>
             bind (SetRecordingEgress nid (eg_EgressID info) (mapStatus (eg_Status info))) (\<lambda>_.
             bind (ActiveRecording sessionID) (\<lambda>rec.
             ret (case rec of None \<Rightarrow> zero_recording | Some r \<Rightarrow> r)))))"

definition recording_Start :: "RecordingSvc \<Rightarrow> string \<Rightarrow> AccessTokenClaims \<Rightarrow> string \<Rightarrow> Recording io" where
  "recording_Start svc nid claims sessionID =
     bind (requireHostSession (Subject claims) sessionID) (\<lambda>sess.
       if (case rs_startLimiter svc of None \<Rightarrow> False | Some allow \<Rightarrow> \<not> allow (Subject claims)) then fail ErrStartRateLimited
       else bind (RecordingAllowed sessionID) (\<lambda>allowed.
         if \<not> allowed then fail ErrConsentRequired
         else bind (if rs_maxConcurrent svc > 0 then
                 bind CountInFlightRecordings (\<lambda>n. if n \<ge> rs_maxConcurrent svc then fail ErrCapacity else ret ())
               else ret ()) (\<lambda>_. begin_recording svc nid sess sessionID)))"

definition output_uri :: "EgressInfo \<Rightarrow> string option" where
  "output_uri info = (if Output info \<noteq> '''' then Some (Output info) else None)"

definition recording_stop :: "RecordingSvc \<Rightarrow> Recording \<Rightarrow> unit io" where
  "recording_stop svc rec =
     (if coalesce (rc_EgressID rec) = '''' then UpdateRecordingStatus (rc_ID rec) StatusAborted True None None
      else bind (StopEgress (rs_egress svc) (coalesce (rc_EgressID rec))) (\<lambda>info.
        let status = mapStatus (eg_Status info)
        in UpdateRecordingStatus (rc_ID rec) status (isTerminal status) (output_uri info) None))"

definition recording_Stop :: "RecordingSvc \<Rightarrow> AccessTokenClaims \<Rightarrow> string \<Rightarrow> unit io" where
  "recording_Stop svc claims sessionID =
     bind (requireHostSession (Subject claims) sessionID) (\<lambda>_.
     bind (ActiveRecording sessionID) (\<lambda>a. case a of
       None \<Rightarrow> fail ErrNotRecording
     | Some rec \<Rightarrow> recording_stop svc rec))"

definition ReconcileForSession :: "RecordingSvc \<Rightarrow> string \<Rightarrow> unit io" where
  "ReconcileForSession svc sessionID =
     bind (ActiveRecording sessionID) (\<lambda>a. case a of
       None \<Rightarrow> ret ()
     | Some rec \<Rightarrow> bind (RecordingAllowed sessionID) (\<lambda>allowed.
         if allowed then ret () else recording_stop svc rec))"

definition recording_List :: "AccessTokenClaims \<Rightarrow> string \<Rightarrow> Recording list io" where
  "recording_List claims sessionID =
     bind (requireHostSession (Subject claims) sessionID) (\<lambda>_. RecordingsBySession sessionID)"

definition HandleWebhookEvent :: "WebhookEvent \<Rightarrow> unit io" where
  "HandleWebhookEvent ev =
     (case we_EgressInfo ev of
        None \<Rightarrow> ret ()
      | Some info \<Rightarrow>
          bind (RecordingByEgress (eg_EgressID info)) (\<lambda>r. case r of
            None \<Rightarrow> ret ()
          | Some rec \<Rightarrow>
              if isTerminal (rc_Status rec) then ret ()
              else let status = mapStatus (eg_Status info)
                   in UpdateRecordingStatus (rc_ID rec) status (isTerminal status) (output_uri info)
                        (if eg_Error info \<noteq> '''' then Some (eg_Error info) else None)))"

definition ListCompleted :: "string \<Rightarrow> Recording list io" where
  "ListCompleted sessionID = CompletedRecordingsBySession sessionID"

definition AuditPlayback :: "Store \<Rightarrow> string \<Rightarrow> Recording \<Rightarrow> unit io" where
  "AuditPlayback st subjectID rec =
     AppendAudit st \<lparr>ai_ActorID = subjectID, ai_ActorRole = AuditRoleSelf, ai_Action = ActionRecordingPlayed,
       ai_TargetType = ''recording'', ai_TargetID = rc_ID rec, ai_Metadata = []\<rparr>"

section \<open>Calls to the media server\<close>

text \<open>\<open>silent\<close>: the operation makes no call to the media server.\<close>

definition silent :: "'a io \<Rightarrow> bool" where
  "silent m \<longleftrightarrow> (\<forall>w. w_calls (snd (m w)) = w_calls w)"

named_theorems silent_rules \<open>structural rules for operations that call nothing\<close>

lemma silentD: "silent m \<Longrightarrow> m w = (r, w') \<Longrightarrow> w_calls w' = w_calls w"
  by (metis silent_def snd_conv)

lemma silent_basic [silent_rules]: "silent (ret x)" "silent (fail e)" "silent goNow"
  by (simp_all add: silent_def io_defs)

lemma silent_pg [silent_rules]: "silent (pg s)"
  unfolding silent_def
proof
  fix w :: world
  obtain f w1 where "take_fault w = (f, w1)" by force
  then show "w_calls (snd (pg s w)) = w_calls w"
    using take_fault_fields(4) by (auto simp: pg_def split: sum.split prod.split)
qed

lemma silent_bind [silent_rules]: "silent m \<Longrightarrow> (\<And>x. silent (f x)) \<Longrightarrow> silent (bind m f)"
  by (auto simp: silent_def bind_def split: prod.split sum.split) (metis snd_conv)+

lemma silent_attempt [silent_rules]: "silent m \<Longrightarrow> (\<And>r. silent (f r)) \<Longrightarrow> silent (attempt m f)"
  by (auto simp: silent_def attempt_def split: prod.split) (metis snd_conv)

lemma silent_branch [silent_rules]:
  "silent m \<Longrightarrow> silent n \<Longrightarrow> silent (if b then m else n)"
  "silent m \<Longrightarrow> (\<And>x. silent (f x)) \<Longrightarrow> silent (case o' of None \<Rightarrow> m | Some x \<Rightarrow> f x)"
  "(\<And>x. silent (g x)) \<Longrightarrow> (\<And>x. silent (h x)) \<Longrightarrow> silent (case s of Inl x \<Rightarrow> g x | Inr x \<Rightarrow> h x)"
  "(\<And>x y. silent (k x y)) \<Longrightarrow> silent (case p of (x, y) \<Rightarrow> k x y)"
  by (auto split: option.split sum.split prod.split)

lemma silent_store [silent_rules]:
  "silent (GetSession sid)" "silent (ListActiveParticipants sid)" "silent (RecordingAllowed sid)"
  "silent CountInFlightRecordings" "silent (CreateRecording rid sid st)" "silent (ActiveRecording sid)"
  "silent (UpdateRecordingStatus rid st t u m)" "silent (SetRecordingEgress rid e st)" "silent (RecordingByEgress e)"
  unfolding GetSession_def ListActiveParticipants_def RecordingAllowed_def CountInFlightRecordings_def CreateRecording_def
    ActiveRecording_def UpdateRecordingStatus_def SetRecordingEgress_def RecordingByEgress_def
  by (intro silent_rules)+

lemma egress_call_outcome:
  assumes "egress_call c req w = (r, w')"
  shows "w_calls w' = w_calls w @ [req] \<and> w_db w' = w_db w"
proof -
  obtain q w1 where "take_reply w = (q, w1)" by force
  then show ?thesis
    using assms take_reply_fields [of w q w1]
    by (auto simp: egress_call_def call_egress_def bind_def fail_def ret_def
        split: egress_reply.splits option.splits)
qed

lemma StartRoomComposite_outcome:
  assumes "StartRoomComposite c room w = (r, w')"
  shows "w_db w' = w_db w \<and> (w_calls w' = w_calls w \<or> w_calls w' = w_calls w @ [CallStart room (ec_filePrefix c @ room @ ''-{time}.mp4'')])"
  using assms egress_call_outcome by (auto simp: StartRoomComposite_def fail_def split: if_splits)

section \<open>No recording without consent\<close>

definition all_consent :: "string \<Rightarrow> db \<Rightarrow> bool" where
  "all_consent sid d \<longleftrightarrow> present sid d \<noteq> [] \<and>
     (\<forall>p \<in> set (present sid d). effective (sp_UserID p) sid ConsentPurposeSessionRecording d)"

lemma RecordingAllowed_outcome:
  assumes "RecordingAllowed sid w = (r, w')"
  shows "w_db w' = w_db w \<and> (r = Inr (all_consent sid (w_db w)) \<or> r = Inl ConnLost)"
  using assms unfolding RecordingAllowed_def
proof (cases rule: bind_outcome)
  case (1 e w1)
  then show ?thesis using pg_outcome [OF 1(1)] by (auto simp: q_recording_counts_def Let_def)
next
  case (2 x w1)
  define P where "P = (\<lambda>p :: SessionParticipant. effective (sp_UserID p) sid ConsentPurposeSessionRecording (w_db w))"
  let ?ps = "present sid (w_db w)"
  have x: "x = (length ?ps, length (filter P ?ps))" and w1: "w_db w1 = w_db w"
    using pg_runD(1) [OF 2(1)] by (auto simp: q_recording_counts_def Let_def P_def)
  have "length ?ps = length (filter P ?ps) \<longleftrightarrow> (\<forall>p \<in> set ?ps. P p)"
    using length_filter_eq_iff [of P ?ps] by (simp add: eq_commute)
  moreover have "r = Inr (0 < length ?ps \<and> length ?ps = length (filter P ?ps))" "w' = w1"
    using 2(2) by (simp_all add: x ret_def)
  ultimately show ?thesis using w1 by (simp add: all_consent_def P_def)
qed

lemma requireHostSession_InrD:
  assumes "requireHostSession uid sid w = (Inr s, w')"
  shows "first_row (\<lambda>s. s_ID s = sid) (sessions (w_db w)) = Some s \<and> s_Status s \<noteq> ''ended'' \<and> is_host sid uid (w_db w)
    \<and> w_db w' = w_db w \<and> same_clock w w'"
proof -
  obtain q w1 where g: "GetSession sid w = (q, w1)" and k: "(case q of
       Inl _ \<Rightarrow> fail rec_ErrNotFound
     | Inr sess \<Rightarrow>
         if s_Status sess = ''ended'' then fail rec_ErrSessionEnded
         else bind (ListActiveParticipants sid) (\<lambda>parts.
           case first_row (\<lambda>p. sp_UserID p = uid) parts of
             Some p \<Rightarrow> if sp_Role p \<noteq> ''host'' then fail rec_ErrForbidden else ret sess
           | None \<Rightarrow> fail rec_ErrForbidden)) w1 = (Inr s, w')"
    using assms unfolding requireHostSession_def by (rule attemptD)
  from k obtain sess where q: "q = Inr sess" "s_Status sess \<noteq> ''ended''" by (cases q) (auto split: if_splits)
  with k obtain parts w2 where l: "ListActiveParticipants sid w1 = (Inr parts, w2)"
    and m: "(case first_row (\<lambda>p. sp_UserID p = uid) parts of
             Some p \<Rightarrow> if sp_Role p \<noteq> ''host'' then fail rec_ErrForbidden else ret sess
           | None \<Rightarrow> fail rec_ErrForbidden) w2 = (Inr s, w')" by (auto elim: bind_InrD)
  from m obtain p where p: "first_row (\<lambda>p. sp_UserID p = uid) parts = Some p" "sp_Role p = ''host''" "s = sess" "w' = w2"
    by (auto split: option.splits if_splits)
  note g = pg_runD [OF g [unfolded q GetSession_def]] and l = list_present_InrD [OF l]
  from row_InrD [OF g(1) [unfolded q_GetSession_def]] g(2,3) l q(2) p show ?thesis
    by (auto simp: is_host_def same_clock_def dest: find_SomeD)
qed

lemma CreateRecording_InrD:
  assumes "CreateRecording rid sid StatusStarting w = (Inr u, w')"
  shows "(\<forall>q \<in> set (recordings (w_db w)). rc_SessionID q = sid \<longrightarrow> \<not> in_flight q) \<and> rid \<notin> rc_ID ` set (recordings (w_db w))
    \<and> w_db w' = (w_db w)\<lparr>recordings := recordings (w_db w) @ [\<lparr>rc_ID = rid, rc_SessionID = sid, rc_EgressID = None,
        rc_Status = StatusStarting, rc_OutputURI = None, rc_Error = None, rc_StartedAt = w_pgnow w, rc_EndedAt = None\<rparr>]\<rparr>"
  using pg_runD(1) [OF assms [unfolded CreateRecording_def]]
  by (auto simp: Let_def list_ex_iff in_flight_def split: if_splits)

lemma begin_recording_calls:
  assumes "begin_recording svc nid sess sid w = (r, w')" and "w_calls w' \<noteq> w_calls w"
  shows "w_calls w' = w_calls w @ [CallStart (s_LivekitRoom sess) (ec_filePrefix (rs_egress svc) @ s_LivekitRoom sess @ ''-{time}.mp4'')]
    \<and> (\<forall>q \<in> set (recordings (w_db w)). rc_SessionID q = sid \<longrightarrow> \<not> in_flight q)"
proof -
  obtain created w1 where c: "CreateRecording nid sid StatusStarting w = (created, w1)"
    and k: "(case created of
       Inl err \<Rightarrow> attempt (ActiveRecording sid) (\<lambda>a. case a of Inr (Some _) \<Rightarrow> fail ErrAlreadyRecording | _ \<Rightarrow> fail err)
     | Inr _ \<Rightarrow>
         attempt (StartRoomComposite (rs_egress svc) (s_LivekitRoom sess)) (\<lambda>started. case started of
           Inl err \<Rightarrow> attempt (UpdateRecordingStatus nid StatusFailed True None (Some (error_text err))) (\<lambda>_. fail err)
         | Inr info \<Rightarrow>
             bind (SetRecordingEgress nid (eg_EgressID info) (mapStatus (eg_Status info))) (\<lambda>_.
             bind (ActiveRecording sid) (\<lambda>rec.
             ret (case rec of None \<Rightarrow> zero_recording | Some r \<Rightarrow> r))))) w1 = (r, w')"
    using assms(1) unfolding begin_recording_def by (rule attemptD)
  have c1: "w_calls w1 = w_calls w" using silentD [OF silent_store(5) c] .
  show ?thesis
  proof (cases created)
    case (Inl err)
    from k Inl have "attempt (ActiveRecording sid) (\<lambda>a. case a of Inr (Some _) \<Rightarrow> fail ErrAlreadyRecording | _ \<Rightarrow> fail err) w1 = (r, w')"
      by simp
    then have "w_calls w' = w_calls w1" by (rule silentD [rotated]) (intro silent_rules)
    with c1 assms(2) show ?thesis by simp
  next
    case (Inr u)
    with k obtain started w2 where st: "StartRoomComposite (rs_egress svc) (s_LivekitRoom sess) w1 = (started, w2)"
      and m: "(case started of
           Inl err \<Rightarrow> attempt (UpdateRecordingStatus nid StatusFailed True None (Some (error_text err))) (\<lambda>_. fail err)
         | Inr info \<Rightarrow>
             bind (SetRecordingEgress nid (eg_EgressID info) (mapStatus (eg_Status info))) (\<lambda>_.
             bind (ActiveRecording sid) (\<lambda>rec.
             ret (case rec of None \<Rightarrow> zero_recording | Some r \<Rightarrow> r)))) w2 = (r, w')"
      by (auto elim: attemptD)
    have "w_calls w' = w_calls w2" using m by (rule silentD [rotated]) (intro silent_rules)
    with StartRoomComposite_outcome [OF st] c1 assms(2) CreateRecording_InrD [OF c [unfolded Inr]]
    show ?thesis by auto
  qed
qed

lemma capacity_check:
  fixes svc :: RecordingSvc
  defines "check \<equiv> if rs_maxConcurrent svc > 0 then
      bind CountInFlightRecordings (\<lambda>n. if n \<ge> rs_maxConcurrent svc then fail ErrCapacity else ret ())
    else ret ()"
  shows "silent check" "keeps J check"
proof -
  show "silent check" unfolding check_def by (intro silent_rules)
  show "keeps J check" unfolding check_def CountInFlightRecordings_def by (intro keeps_rules) (simp add: stmt_keeps_def)
qed

text \<open>C19: nothing is recorded without consent. If a call of \<^verbatim>\<open>Start\<close> reaches the media server at all, the
  caller is present as the host of a session that has not ended, at least one participant is present and
  the latest recording decision of every one of them is a grant, and no recording of the session is in
  flight; and exactly one call was made, for the room of that session.\<close>
theorem Start_needs_consent:
  assumes "recording_Start svc nid claims sid w = (r, w')" and "w_calls w' \<noteq> w_calls w"
  shows "is_host sid (Subject claims) (w_db w) \<and> present sid (w_db w) \<noteq> []
    \<and> (\<forall>p \<in> set (present sid (w_db w)). effective (sp_UserID p) sid ConsentPurposeSessionRecording (w_db w))
    \<and> (\<forall>q \<in> set (recordings (w_db w)). rc_SessionID q = sid \<longrightarrow> \<not> in_flight q)
    \<and> (\<exists>s. first_row (\<lambda>s. s_ID s = sid) (sessions (w_db w)) = Some s \<and> s_Status s \<noteq> ''ended''
        \<and> w_calls w' = w_calls w @ [CallStart (s_LivekitRoom s) (ec_filePrefix (rs_egress svc) @ s_LivekitRoom s @ ''-{time}.mp4'')])"
  using assms(1) unfolding recording_Start_def
proof (cases rule: bind_outcome)
  case (1 e w1)
  have "silent (requireHostSession (Subject claims) sid)" unfolding requireHostSession_def by (intro silent_rules)
  with 1 assms(2) show ?thesis by (auto dest: silentD)
next
  case (2 s w1)
  have sil: "silent (requireHostSession (Subject claims) sid)" unfolding requireHostSession_def by (intro silent_rules)
  note h = requireHostSession_InrD [OF 2(1)] and c1 = silentD [OF sil 2(1)]
  let ?cap = "if rs_maxConcurrent svc > 0 then
                 bind CountInFlightRecordings (\<lambda>n. if n \<ge> rs_maxConcurrent svc then fail ErrCapacity else ret ())
               else ret ()"
  have "\<not> (case rs_startLimiter svc of None \<Rightarrow> False | Some allow \<Rightarrow> \<not> allow (Subject claims))"
    using 2(2) c1 assms(2) by (auto simp: fail_def split: if_splits)
  then have run: "bind (RecordingAllowed sid) (\<lambda>allowed. if \<not> allowed then fail ErrConsentRequired
         else bind ?cap (\<lambda>_. begin_recording svc nid s sid)) w1 = (r, w')" using 2(2) by simp
  then show ?thesis
  proof (cases rule: bind_outcome)
    case (1 e w2)
    with silentD [OF silent_store(3) 1(1)] c1 assms(2) show ?thesis by simp
  next
    case (2 allowed w2)
    note a = RecordingAllowed_outcome [OF 2(1)] and c2 = silentD [OF silent_store(3) 2(1)]
    have ok: allowed using 2(2) c1 c2 assms(2) by (auto simp: fail_def split: if_splits)
    with 2(2) have "bind ?cap (\<lambda>_. begin_recording svc nid s sid) w2 = (r, w')" by simp
    then show ?thesis
    proof (cases rule: bind_outcome)
      case (1 e w3)
      from silentD [OF capacity_check(1) 1(1)] 1(3) c1 c2 assms(2) show ?thesis by simp
    next
      case (2 u w3)
      note c3 = silentD [OF capacity_check(1) 2(1)] and w3 = keepsD [OF capacity_check(2) [where J = "\<lambda>d. d = w_db w2"] 2(1) refl]
      have "w_calls w' \<noteq> w_calls w3" using c1 c2 c3 assms(2) by simp
      note b = begin_recording_calls [OF 2(2) this]
      from a ok h have "all_consent sid (w_db w)" by auto
      with b h a w3 c1 c2 c3 show ?thesis by (auto simp: all_consent_def)
    qed
  qed
qed

definition demo_info :: EgressInfo where
  "demo_info = \<lparr>eg_EgressID = ''EG1'', eg_RoomName = ''s1'', eg_Status = ''EGRESS_STARTING'', eg_Error = '''', eg_File = None, eg_FileList = []\<rparr>"

definition demo_recorder :: RecordingSvc where
  "demo_recorder = \<lparr>rs_egress = \<lparr>ec_baseURL = '''', ec_apiKey = '''', ec_apiSecret = '''', ec_filePrefix = ''/out/'',
     ec_unmarshal = (\<lambda>_. Some demo_info)\<rparr>, rs_maxConcurrent = 0, rs_startLimiter = None\<rparr>"

definition demo_granted :: ConsentRow where
  "demo_granted = \<lparr>cn_Seq = 1, cn_ID = ''c1'', cn_SessionID = ''s1'', cn_SubjectID = ''u1'', cn_Purpose = ConsentPurposeSessionRecording,
     cn_Granted = True, cn_GrantedAt = 0, cn_PrevHash = [], cn_RecordHash = [], cn_SigningKeyID = '''', cn_Signature = []\<rparr>"

theorem Start_needs_consent_witness:
  "let w = demo_world ((w_db (demo_room ''live'' [demo_host]))\<lparr>consent_records := [demo_granted]\<rparr>)\<lparr>w_replies := [ReplyOk '''']\<rparr>;
       w' = snd (recording_Start demo_recorder ''r1'' (demo_phone ''u1'') ''s1'' w)
   in w_calls w' = [CallStart ''s1'' ''/out/s1-{time}.mp4''] \<and> is_host ''s1'' ''u1'' (w_db w)"
proof -
  define w where "w = demo_world ((w_db (demo_room ''live'' [demo_host]))\<lparr>consent_records := [demo_granted]\<rparr>)\<lparr>w_replies := [ReplyOk '''']\<rparr>"
  obtain r w' where run: "recording_Start demo_recorder ''r1'' (demo_phone ''u1'') ''s1'' w = (r, w')" by force
  have calls: "w_calls w = []" by (simp add: w_def demo_world_def)
  have c: "w_calls w' = [CallStart ''s1'' ''/out/s1-{time}.mp4'']"
    using run by (auto simp: w_def demo_room_defs recording_Start_def requireHostSession_def GetSession_def q_GetSession_def
        ListActiveParticipants_def q_ListActiveParticipants_def present_def demo_phone_def demo_recorder_def
        RecordingAllowed_def q_recording_counts_def effective_def latest_by_def order_by_desc_def consent_key_def demo_granted_def
        Let_def begin_recording_def CreateRecording_def recording_status_def in_flight_def StartRoomComposite_def
        egress_call_def call_egress_def take_reply_def SetRecordingEgress_def ActiveRecording_def mapStatus_def demo_info_def
        io_defs head_row_def)
  with run calls Start_needs_consent [OF run] show ?thesis
    unfolding Let_def w_def [symmetric] by (simp add: demo_phone_def)
qed

section \<open>The states of a recording\<close>

text \<open>At most one recording of a session is in flight; ids are keys and the status is one of the six.\<close>

definition rec_inv :: "db \<Rightarrow> bool" where
  "rec_inv d \<longleftrightarrow> distinct (map rc_ID (recordings d)) \<and> unique_where in_flight rc_SessionID (recordings d)
     \<and> (\<forall>r \<in> set (recordings d). recording_status (rc_Status r))"

lemma in_flight_iff: "recording_status (rc_Status r) \<Longrightarrow> in_flight r \<longleftrightarrow> \<not> terminal_status (rc_Status r)"
  by (auto simp: recording_status_def in_flight_def terminal_status_def)

lemma rec_inv_create: "keeps rec_inv (CreateRecording rid sid st)"
  unfolding CreateRecording_def
  by (rule keeps_pg) (auto simp: stmt_keeps_def rec_inv_def unique_where_snoc Let_def list_ex_iff split: if_splits)

lemma rec_inv_rows:
  assumes "rec_inv d" and keep: "\<And>r. rc_ID (f r) = rc_ID r \<and> rc_SessionID (f r) = rc_SessionID r"
    and status: "\<And>r. r \<in> set (recordings d) \<Longrightarrow> P r \<Longrightarrow> recording_status (rc_Status (f r))"
    and uni: "unique_where in_flight rc_SessionID (update_rows P f (recordings d))"
  shows "rec_inv (d\<lparr>recordings := update_rows P f (recordings d)\<rparr>)"
proof -
  have "map rc_ID (update_rows P f (recordings d)) = map rc_ID (recordings d)" using keep by simp
  with assms(1) status uni show ?thesis by (simp add: rec_inv_def)
qed

lemma rec_inv_status: "keeps rec_inv (UpdateRecordingStatus rid st t u m)"
  unfolding UpdateRecordingStatus_def
proof (rule keeps_pg, unfold stmt_keeps_def, intro allI impI)
  fix now :: instant and d d' :: db and x :: unit
  let ?P = "\<lambda>r. rc_ID r = rid \<and> \<not> terminal_status (rc_Status r)"
  let ?f = "\<lambda>r. r\<lparr>rc_Status := st, rc_OutputURI := (case u of None \<Rightarrow> rc_OutputURI r | Some u \<Rightarrow> Some u),
       rc_Error := (case m of None \<Rightarrow> rc_Error r | Some m \<Rightarrow> Some m), rc_EndedAt := (if t then Some now else rc_EndedAt r)\<rparr>"
  assume inv: "rec_inv d" and run: "(if list_ex ?P (recordings d) \<and> \<not> recording_status st
       then Inl (CheckViolation ''recordings_status_check'')
       else Inr ((), d\<lparr>recordings := update_rows ?P ?f (recordings d)\<rparr>)) = Inr (x, d')"
  have d': "d' = d\<lparr>recordings := update_rows ?P ?f (recordings d)\<rparr>"
    and ok: "\<And>r. r \<in> set (recordings d) \<Longrightarrow> ?P r \<Longrightarrow> recording_status st"
    using run by (auto simp: list_ex_iff split: if_splits)
  show "rec_inv d'" unfolding d'
  proof (rule rec_inv_rows [OF inv])
    show "unique_where in_flight rc_SessionID (update_rows ?P ?f (recordings d))"
    proof (rule unique_where_update)
      fix r assume "r \<in> set (recordings d)" "?P r"
      then show "in_flight r \<and> rc_SessionID (?f r) = rc_SessionID r" using inv by (simp add: rec_inv_def in_flight_iff)
    qed (use inv in \<open>simp add: rec_inv_def\<close>)
  qed (use ok in simp_all)
qed

lemma unique_where_key:
  assumes "distinct (map i rs)"
  shows "unique_where P k rs \<longleftrightarrow> (\<forall>r \<in> set rs. \<forall>q \<in> set rs. P r \<and> P q \<and> k r = k q \<longrightarrow> i r = i q)"
proof -
  have "distinct rs" using assms by (simp add: distinct_map)
  moreover have "r = q \<longleftrightarrow> i r = i q" if "r \<in> set rs" "q \<in> set rs" for r q
    using assms that by (auto simp: distinct_map inj_on_def)
  ultimately show ?thesis by (auto simp: unique_where_def distinct_map inj_on_def)
qed

lemma rec_inv_egress: "keeps rec_inv (SetRecordingEgress rid eid st)"
  unfolding SetRecordingEgress_def
proof (rule keeps_pg, unfold stmt_keeps_def, intro allI impI)
  fix now :: instant and d d' :: db and x :: unit
  let ?f = "\<lambda>r. r\<lparr>rc_EgressID := Some eid, rc_Status := st\<rparr>"
  let ?rs = "update_rows (\<lambda>r. rc_ID r = rid) ?f (recordings d)"
  assume inv: "rec_inv d" and run: "(if list_ex (\<lambda>r. rc_ID r = rid) (recordings d) \<and> \<not> recording_status st
     then Inl (CheckViolation ''recordings_status_check'')
     else if st \<in> {''starting'', ''active'', ''stopping''}
       \<and> list_ex (\<lambda>r. rc_ID r = rid \<and>
             list_ex (\<lambda>q. rc_ID q \<noteq> rid \<and> rc_SessionID q = rc_SessionID r \<and> in_flight q) (recordings d)) (recordings d)
     then Inl (UniqueViolation ''recordings_one_active_idx'')
     else Inr ((), d\<lparr>recordings := ?rs\<rparr>)) = Inr (x, d')"
  have d': "d' = d\<lparr>recordings := ?rs\<rparr>"
    and ok: "\<And>r. r \<in> set (recordings d) \<Longrightarrow> rc_ID r = rid \<Longrightarrow> recording_status st"
    and free: "\<And>r q. st \<in> {''starting'', ''active'', ''stopping''} \<Longrightarrow> r \<in> set (recordings d) \<Longrightarrow> rc_ID r = rid \<Longrightarrow>
      q \<in> set (recordings d) \<Longrightarrow> rc_ID q \<noteq> rid \<Longrightarrow> rc_SessionID q = rc_SessionID r \<Longrightarrow> \<not> in_flight q"
    using run by (auto simp: list_ex_iff split: if_splits)
  have ids: "distinct (map rc_ID ?rs)" using inv by (simp add: rec_inv_def)
  have old: "rc_ID r = rc_ID q" if "r \<in> set (recordings d)" "q \<in> set (recordings d)" "in_flight r" "in_flight q"
      "rc_SessionID r = rc_SessionID q" for r q
    using inv that unfolding rec_inv_def by (metis unique_whereD)
  have new: "st \<in> {''starting'', ''active'', ''stopping''}" if "in_flight (?f r)" for r
    using that by (simp add: in_flight_def)
  show "rec_inv d'" unfolding d'
  proof (rule rec_inv_rows [OF inv])
    show "unique_where in_flight rc_SessionID ?rs"
      unfolding unique_where_key [OF ids]
    proof (intro ballI impI, elim conjE)
      fix r q assume mem: "r \<in> set ?rs" "q \<in> set ?rs" and fl: "in_flight r" "in_flight q" and eq: "rc_SessionID r = rc_SessionID q"
      have row: "\<exists>p \<in> set (recordings d). rc_ID p = rc_ID x \<and> rc_SessionID p = rc_SessionID x \<and>
          (if rc_ID p = rid then x = ?f p else x = p)" if "x \<in> set ?rs" for x
        using that unfolding in_set_update_rows by auto
      have clash: False if "p \<in> set (recordings d)" "rc_ID p = rid" "in_flight (?f p)" "p' \<in> set (recordings d)"
          "rc_ID p' \<noteq> rid" "rc_SessionID p' = rc_SessionID p" "in_flight p'" for p p'
        using free [OF new [OF that(3)] that(1,2,4-6)] that(7) by blast
      from row [OF mem(1)] obtain r0 where r0: "r0 \<in> set (recordings d)" "rc_ID r0 = rc_ID r" "rc_SessionID r0 = rc_SessionID r"
        "if rc_ID r0 = rid then r = ?f r0 else r = r0" by blast
      from row [OF mem(2)] obtain q0 where q0: "q0 \<in> set (recordings d)" "rc_ID q0 = rc_ID q" "rc_SessionID q0 = rc_SessionID q"
        "if rc_ID q0 = rid then q = ?f q0 else q = q0" by blast
      show "rc_ID r = rc_ID q"
      proof (cases "rc_ID r0 = rid"; cases "rc_ID q0 = rid")
        assume a: "rc_ID r0 = rid" "rc_ID q0 \<noteq> rid"
        then have "in_flight (?f r0)" "in_flight q0" using r0(4) q0(4) fl by simp_all
        from clash [OF r0(1) a(1) this(1) q0(1) a(2) _ this(2)] show ?thesis using r0(3) q0(3) eq by simp
      next
        assume a: "rc_ID r0 \<noteq> rid" "rc_ID q0 = rid"
        then have "in_flight (?f q0)" "in_flight r0" using r0(4) q0(4) fl by simp_all
        from clash [OF q0(1) a(2) this(1) r0(1) a(1) _ this(2)] show ?thesis using r0(3) q0(3) eq by simp
      next
        assume "rc_ID r0 \<noteq> rid" "rc_ID q0 \<noteq> rid"
        then have "r = r0" "q = q0" using r0(4) q0(4) by simp_all
        then show ?thesis using old [OF r0(1) q0(1)] fl eq by simp
      qed (use r0(2) q0(2) in simp)
    qed
  qed (use ok in simp_all)
qed

text \<open>The repository towards a property \<open>J\<close> of the database, for the recording service: the contract on
  the calls that write, and the preservation of \<open>J\<close> by the service.\<close>

locale recording_repo =
  fixes J :: "db \<Rightarrow> bool"
  assumes rec_create: "keeps J (CreateRecording rid sid st)"
    and rec_egress: "keeps J (SetRecordingEgress rid eid st)"
    and rec_status: "keeps J (UpdateRecordingStatus rid st t u m)"
begin

lemma rec_reads:
  "keeps J (GetSession sid)" "keeps J (ListActiveParticipants sid)" "keeps J (RecordingAllowed sid)"
  "keeps J CountInFlightRecordings" "keeps J (ActiveRecording sid)" "keeps J (RecordingByEgress eid)"
  unfolding GetSession_def ListActiveParticipants_def RecordingAllowed_def CountInFlightRecordings_def
    ActiveRecording_def RecordingByEgress_def
  by (intro keeps_rules; auto simp: stmt_keeps_def q_GetSession_def q_ListActiveParticipants_def
      q_recording_counts_def Let_def dest: row_InrD)+

lemma rec_egress_call: "keeps J (StartRoomComposite c room)" "keeps J (StopEgress c eid)"
  unfolding StartRoomComposite_def StopEgress_def egress_call_def by (intro keeps_rules)+

lemma keeps_recording_service:
  "keeps J (recording_Start svc nid claims sid)"
  "keeps J (recording_Stop svc claims sid)"
  "keeps J (ReconcileForSession svc sid)"
  "keeps J (HandleWebhookEvent ev)"
  unfolding recording_Start_def begin_recording_def requireHostSession_def recording_Stop_def recording_stop_def
    ReconcileForSession_def HandleWebhookEvent_def Let_def
  by (intro keeps_rules rec_create rec_egress rec_status rec_reads rec_egress_call)+

end

interpretation recordings: recording_repo rec_inv
  by unfold_locales (rule rec_inv_create rec_inv_egress rec_inv_status)+

lemma recording_writes_frame:
  assumes "\<And>d rs. J (d\<lparr>recordings := rs\<rparr>) = J d"
  shows "recording_repo J"
  unfolding recording_repo_def CreateRecording_def SetRecordingEgress_def UpdateRecordingStatus_def
  by (intro conjI allI keeps_pg) (auto simp: stmt_keeps_def Let_def assms split: if_splits)

interpretation recording_audit: recording_repo "audit_inv H edv keys" for H edv keys
  by (rule recording_writes_frame) (simp add: audit_inv_def)

interpretation recording_consent: recording_repo "consent_inv H edv keys" for H edv keys
  by (rule recording_writes_frame) (simp add: consent_inv_def)

interpretation recording_sessions: recording_repo session_inv
  by (rule recording_writes_frame) (simp add: session_inv_def present_def)

interpretation recording_refresh: recording_repo refresh_inv
  by (rule recording_writes_frame) (simp add: refresh_inv_def)

interpretation recording_entitlements: recording_repo ent_inv
  by (rule recording_writes_frame) (simp add: ent_inv_def)

text \<open>At most one recording of a session is in flight. The empty database has this property, and
  starting, stopping, reconciling after a withdrawal and applying a webhook event preserve it under
  every connection fault and every answer of the media server.\<close>
lemma rec_inv_preserved:
  "rec_inv empty_db
   \<and> keeps rec_inv (recording_Start svc nid claims sid)
   \<and> keeps rec_inv (recording_Stop svc claims sid)
   \<and> keeps rec_inv (ReconcileForSession svc sid)
   \<and> keeps rec_inv (HandleWebhookEvent ev)"
  by (intro conjI recordings.keeps_recording_service) (simp add: rec_inv_def empty_db_def)

section \<open>Webhooks never reopen a recording\<close>

lemma UpdateRecordingStatus_outcome:
  assumes "UpdateRecordingStatus rid st t u m w = (r, w')"
  shows "\<exists>f. w_db w' = (w_db w)\<lparr>recordings := update_rows (\<lambda>r. rc_ID r = rid \<and> \<not> terminal_status (rc_Status r)) f (recordings (w_db w))\<rparr>"
proof -
  have same: "\<exists>f. d = d\<lparr>recordings := update_rows P f (recordings d)\<rparr>" for P and d :: db
    by (rule exI [of _ "\<lambda>r. r"]) (simp add: update_rows_def)
  let ?P = "\<lambda>r. rc_ID r = rid \<and> \<not> terminal_status (rc_Status r)"
  from pg_outcome [OF assms [unfolded UpdateRecordingStatus_def]] have "w_db w' = w_db w \<or>
      (\<exists>f. (w_db w)\<lparr>recordings := update_rows ?P f (recordings (w_db w))\<rparr> = w_db w')"
    by (auto split: if_splits)
  with same [of "w_db w" ?P] show ?thesis by (metis (no_types, lifting))
qed

text \<open>Webhook deliveries are monotone. Whatever event is applied, replayed or out of order, and
  whatever the connection does, the table keeps its rows; a row that differs afterwards was in flight and
  belongs to the egress the event names, so a completed, failed or aborted recording stays as it is.\<close>
lemma webhook_monotone:
  assumes "HandleWebhookEvent ev w = (r, w')" and "rec_inv (w_db w)"
  shows "length (recordings (w_db w')) = length (recordings (w_db w))
    \<and> (\<forall>i < length (recordings (w_db w)). recordings (w_db w') ! i \<noteq> recordings (w_db w) ! i \<longrightarrow>
        in_flight (recordings (w_db w) ! i)
        \<and> (\<exists>info. we_EgressInfo ev = Some info \<and> rc_EgressID (recordings (w_db w) ! i) = Some (eg_EgressID info)))"
proof -
  let ?rs = "recordings (w_db w)"
  have same: ?thesis if "w_db w' = w_db w" using that by simp
  show ?thesis
  proof (cases "we_EgressInfo ev")
    case None
    then have "w' = w" using assms(1) by (simp add: HandleWebhookEvent_def ret_def)
    then show ?thesis by simp
  next
    case (Some info)
    note run = assms(1) [unfolded HandleWebhookEvent_def Some option.case]
    show ?thesis
      using run
    proof (cases rule: bind_outcome)
      case (1 e w1)
      then show ?thesis using pg_outcome [OF 1(1) [unfolded RecordingByEgress_def]] same by auto
    next
      case (2 x w1)
      have x: "x = List.find (\<lambda>r. rc_EgressID r = Some (eg_EgressID info)) ?rs" and w1: "w_db w1 = w_db w"
        using pg_runD(1) [OF 2(1) [unfolded RecordingByEgress_def]] by auto
      show ?thesis
      proof (cases "\<exists>rec. x = Some rec \<and> \<not> isTerminal (rc_Status rec)")
        case False
        then have "w' = w1" using 2(2) by (auto simp: ret_def split: option.splits if_splits)
        then show ?thesis using same w1 by simp
      next
        case True
        then obtain rec where rec: "x = Some rec" "\<not> isTerminal (rc_Status rec)" by blast
        have row: "rec \<in> set ?rs" "rc_EgressID rec = Some (eg_EgressID info)" using rec(1) x by (auto dest: find_SomeD)
        obtain f where f: "w_db w' = (w_db w)\<lparr>recordings := update_rows (\<lambda>r. rc_ID r = rc_ID rec \<and> \<not> terminal_status (rc_Status r)) f ?rs\<rparr>"
          using 2(2) rec UpdateRecordingStatus_outcome w1 by (fastforce simp: Let_def)
        have "in_flight q \<and> rc_EgressID q = Some (eg_EgressID info)" if "q \<in> set ?rs" "rc_ID q = rc_ID rec" "\<not> terminal_status (rc_Status q)" for q
          using that row assms(2) distinct_key_unique [of rc_ID ?rs q rec] by (auto simp: rec_inv_def in_flight_iff)
        then show ?thesis using Some by (auto simp: f update_rows_def split: if_splits)
      qed
    qed
  qed
qed

definition demo_row :: "string \<Rightarrow> Recording" where
  "demo_row st = \<lparr>rc_ID = ''r1'', rc_SessionID = ''s1'', rc_EgressID = Some ''EG1'', rc_Status = st, rc_OutputURI = None,
     rc_Error = None, rc_StartedAt = 0, rc_EndedAt = None\<rparr>"

definition demo_event :: WebhookEvent where
  "demo_event = \<lparr>we_Event = ''egress_updated'', we_EgressInfo = Some \<lparr>eg_EgressID = ''EG1'', eg_RoomName = ''s1'',
     eg_Status = ''EGRESS_ACTIVE'', eg_Error = '''', eg_File = None, eg_FileList = []\<rparr>, we_DedupKey = ''k''\<rparr>"

lemma rec_inv_demo: "rec_inv (empty_db\<lparr>recordings := [demo_row ''aborted'']\<rparr>)"
  by (simp add: rec_inv_def demo_row_def unique_where_def recording_status_def)

lemma webhook_monotone_witness:
  "recordings (w_db (snd (HandleWebhookEvent demo_event (demo_world (empty_db\<lparr>recordings := [demo_row ''aborted'']\<rparr>)))))
     = [demo_row ''aborted'']"
proof -
  define w where "w = demo_world (empty_db\<lparr>recordings := [demo_row ''aborted'']\<rparr>)"
  obtain r w' where run: "HandleWebhookEvent demo_event w = (r, w')" by force
  have rs: "recordings (w_db w) = [demo_row ''aborted'']" by (simp add: w_def demo_world_def)
  have "rec_inv (w_db w)" using rec_inv_demo by (simp add: w_def demo_world_def)
  from webhook_monotone [OF run this] have "length (recordings (w_db w')) = 1"
    "recordings (w_db w') ! 0 \<noteq> demo_row ''aborted'' \<longrightarrow> in_flight (demo_row ''aborted'')" by (simp_all add: rs)
  then have "recordings (w_db w') = [demo_row ''aborted'']"
    by (cases "recordings (w_db w')") (auto simp: in_flight_def demo_row_def)
  then show ?thesis unfolding w_def [symmetric] run by simp
qed

section \<open>Withdrawal stops an in-flight recording\<close>

text \<open>With no pending faults, none appear.\<close>

definition stays_calm :: "'a io \<Rightarrow> bool" where
  "stays_calm m \<longleftrightarrow> (\<forall>w. calm w \<longrightarrow> calm (snd (m w)))"

named_theorems calm_rules \<open>structural rules for fault-free runs\<close>

lemma stays_calmD: "stays_calm m \<Longrightarrow> m w = (r, w') \<Longrightarrow> calm w \<Longrightarrow> calm w'"
  by (metis stays_calm_def snd_conv)

lemma calm_basic [calm_rules]: "stays_calm (ret x)" "stays_calm (fail e)" "stays_calm goNow" "stays_calm (pg s)"
  by (auto simp: stays_calm_def io_defs split: sum.split)

lemma calm_bind [calm_rules]: "stays_calm m \<Longrightarrow> (\<And>x. stays_calm (f x)) \<Longrightarrow> stays_calm (bind m f)"
  by (force simp: stays_calm_def bind_def split: prod.split sum.split)

lemma calm_attempt [calm_rules]: "stays_calm m \<Longrightarrow> (\<And>r. stays_calm (f r)) \<Longrightarrow> stays_calm (attempt m f)"
  by (force simp: stays_calm_def attempt_def split: prod.split)

lemma calm_branch [calm_rules]:
  "stays_calm m \<Longrightarrow> stays_calm n \<Longrightarrow> stays_calm (if b then m else n)"
  "stays_calm m \<Longrightarrow> (\<And>x. stays_calm (f x)) \<Longrightarrow> stays_calm (case o' of None \<Rightarrow> m | Some x \<Rightarrow> f x)"
  "(\<And>x. stays_calm (g x)) \<Longrightarrow> (\<And>x. stays_calm (h x)) \<Longrightarrow> stays_calm (case s of Inl x \<Rightarrow> g x | Inr x \<Rightarrow> h x)"
  by (auto split: option.split sum.split)

lemma calm_in_tx [calm_rules]:
  assumes "stays_calm body"
  shows "stays_calm (in_tx body)"
  unfolding stays_calm_def
proof (intro allI impI)
  fix w :: world assume w: "calm w"
  obtain r w2 where b: "body w = (r, w2)" by force
  have "calm w2" using stays_calmD [OF assms b w] .
  with w b show "calm (snd (in_tx body w))" by (cases r) (simp_all add: in_tx_def)
qed

lemma calm_AppendConsent: "stays_calm (AppendConsent st inp)"
  unfolding AppendConsent_def sign_and_insert_consent_def Let_def by (intro calm_rules)

lemma ActiveRecording_calm:
  assumes "calm w" and "rec_inv (w_db w)" and "rec \<in> set (recordings (w_db w))" "rc_SessionID rec = sid" "in_flight rec"
  shows "ActiveRecording sid w = (Inr (Some rec), w)"
proof -
  let ?rs = "filter (\<lambda>r. rc_SessionID r = sid \<and> in_flight r) (recordings (w_db w))"
  have "rec \<in> set (order_by_desc rc_StartedAt ?rs)" using assms(3-5) by (simp add: order_by_desc_def)
  then have "order_by_desc rc_StartedAt ?rs \<noteq> []" by (metis empty_iff empty_set)
  moreover have "q = rec" if "q \<in> set (order_by_desc rc_StartedAt ?rs)" for q
    using that assms unfolding rec_inv_def by (auto simp: order_by_desc_def dest: unique_whereD)
  ultimately have "head_row (order_by_desc rc_StartedAt ?rs) = Some rec"
    by (cases "order_by_desc rc_StartedAt ?rs") (auto simp: head_row_def)
  then show ?thesis using assms(1) by (simp add: ActiveRecording_def)
qed

lemma recording_stop_calls:
  assumes "rc_EgressID rec = Some eid" "eid \<noteq> ''''"
  shows "CallStop eid \<in> set (w_calls (snd (recording_stop svc rec w)))"
proof -
  obtain r w' where run: "recording_stop svc rec w = (r, w')" by force
  note body = run [unfolded recording_stop_def coalesce_def assms(1) option.case if_not_P [OF assms(2)] Let_def]
  have calls: "w_calls w1 = w_calls w @ [CallStop eid]" if "StopEgress (rs_egress svc) eid w = (q, w1)" for q w1
    using that egress_call_outcome assms(2) by (simp add: StopEgress_def)
  from body have "CallStop eid \<in> set (w_calls w')"
  proof (cases rule: bind_outcome)
    case (1 e w1)
    then show ?thesis using calls by simp
  next
    case (2 info w1)
    from silentD [OF silent_store(7) 2(2)] calls [OF 2(1)] show ?thesis by simp
  qed
  then show ?thesis using run by simp
qed

text \<open>C20: a withdrawal reaches the media server. When the connection to the database is up and stays up, and the recording service is
  wired as the hook of the consent service, a participant who is present and withdraws consent while a
  recording of the session runs under an egress causes a call that stops that egress. (What the media server makes of the call is its own; and a connection
  that is lost between the withdrawal and the hook leaves the egress running, since the error of the hook is dropped.)\<close>
theorem withdrawal_stops_egress:
  assumes "calm w" and "consent_inv (sha256 st) edv keys (w_db w)" and "rec_inv (w_db w)"
    and "p \<in> set (present sid (w_db w))" "sp_UserID p = uid"
    and "rec \<in> set (recordings (w_db w))" "rc_SessionID rec = sid" "in_flight rec" "rc_EgressID rec = Some eid" "eid \<noteq> ''''"
    and "consent_Withdraw st (Some (ReconcileForSession svc)) nid uid sid w = (Inr (), w')"
  shows "CallStop eid \<in> set (w_calls w')"
proof -
  let ?inp = "\<lparr>ci_ID = nid, ci_SessionID = sid, ci_SubjectID = uid, ci_Purpose = ConsentPurposeSessionRecording, ci_Granted = False\<rparr>"
  from assms(11) obtain u w1 where a: "AppendConsent st ?inp w = (Inr u, w1)"
    and h: "attempt (ReconcileForSession svc sid) (\<lambda>_. ret ()) w1 = (Inr (), w')"
    unfolding consent_Withdraw_def consent_append_def by (auto elim: bind_InrD)
  have asc: "sorted_wrt (<) (map cn_Seq (consent_records (w_db w)))" using assms(2) by (simp add: consent_inv_def)
  from AppendConsent_outcome [OF a asc] obtain sg sig where
    d1: "w_db w1 = consent_appended (sha256 st) (next_record sg ?inp sig (w_now w) (w_db w)) (w_db w)" by auto
  have w1: "calm w1" using stays_calmD [OF calm_AppendConsent a assms(1)] .
  have tabs: "recordings (w_db w1) = recordings (w_db w)" "present sid (w_db w1) = present sid (w_db w)"
    by (simp_all add: d1 consent_appended_def present_def)
  have "\<not> effective uid sid ConsentPurposeSessionRecording (w_db w1)"
    unfolding d1 effective_appended [OF assms(2)] by (simp add: next_record_def consent_record_def)
  then have no: "\<not> all_consent sid (w_db w1)" using assms(4,5) tabs(2) by (auto simp: all_consent_def)
  have act: "ActiveRecording sid w1 = (Inr (Some rec), w1)"
    using assms(3,6-8) w1 tabs(1) by (intro ActiveRecording_calm) (simp_all add: rec_inv_def)
  obtain q w2 where ra: "RecordingAllowed sid w1 = (q, w2)" by force
  have "q = Inr False" and w2: "w2 = w1"
    using ra RecordingAllowed_outcome [OF ra] no w1
    by (auto simp: RecordingAllowed_def bind_def ret_def q_recording_counts_def Let_def)
  then have "ReconcileForSession svc sid w1 = recording_stop svc rec w1"
    using act ra by (simp add: ReconcileForSession_def bind_def)
  with h have "w_calls w' = w_calls (snd (recording_stop svc rec w1))"
    by (auto simp: attempt_def ret_def split: prod.splits)
  with recording_stop_calls [OF assms(9,10)] show ?thesis by simp
qed

definition demo_live :: db where
  "demo_live = (w_db (demo_room ''live'' [demo_host]))\<lparr>recordings := [demo_row ''active'']\<rparr>"

theorem withdrawal_stops_egress_witness:
  "let (r, w') = consent_Withdraw demo_store (Some (ReconcileForSession demo_recorder)) ''c1'' ''u1'' ''s1'' (demo_world demo_live)
   in r = Inr () \<and> CallStop ''EG1'' \<in> set (w_calls w')"
proof -
  let ?inp = "\<lparr>ci_ID = ''c1'', ci_SessionID = ''s1'', ci_SubjectID = ''u1'', ci_Purpose = ConsentPurposeSessionRecording, ci_Granted = False\<rparr>"
  obtain q w1 where a: "AppendConsent demo_store ?inp (demo_world demo_live) = (q, w1)" by force
  have q: "q = Inr ()"
    using a by (auto simp: AppendConsent_def demo_store_def in_tx_def demo_live_def demo_room_defs advisory_lock_def
        q_consent_tail_def latest_by_def order_by_desc_def sign_and_insert_consent_def Let_def demo_signer_def io_defs
        q_insert_consent_def user_exists_def consent_record_def)
  obtain r w' where run: "consent_Withdraw demo_store (Some (ReconcileForSession demo_recorder)) ''c1'' ''u1'' ''s1'' (demo_world demo_live) = (r, w')"
    by force
  have r: "r = Inr ()"
    using run a q by (auto simp: consent_Withdraw_def consent_append_def bind_def attempt_def ret_def split: prod.splits)
  have "consent_inv (sha256 demo_store) demo_edv demo_keys (w_db (demo_world demo_live))"
    by (rule consent_inv_empty) (simp add: demo_live_def demo_room_defs)
  moreover have "rec_inv (w_db (demo_world demo_live))"
    by (simp add: demo_live_def demo_world_def rec_inv_def demo_row_def unique_where_def recording_status_def)
  ultimately have "CallStop ''EG1'' \<in> set (w_calls w')"
    using withdrawal_stops_egress [OF _ _ _ _ _ _ _ _ _ _ run [unfolded r], of demo_edv demo_keys demo_host "demo_row ''active''" "''EG1''"]
    by (simp add: demo_live_def demo_room_defs present_def demo_row_def in_flight_def)
  then show ?thesis using run r by simp
qed

text \<open>Storing the egress is not guarded by the state of the row. When the connection is up, the last
  step of \<^verbatim>\<open>Start\<close> puts a recording that has meanwhile been aborted (by a withdrawal that found no egress to
  stop) back in flight, with the end time it had.\<close>
lemma SetRecordingEgress_reopens:
  assumes "calm w" and "rec_inv (w_db w)" and "rec \<in> set (recordings (w_db w))" "rc_Status rec = ''aborted''"
    and "\<forall>q \<in> set (recordings (w_db w)). rc_SessionID q = rc_SessionID rec \<longrightarrow> \<not> in_flight q"
  shows "\<exists>w'. SetRecordingEgress (rc_ID rec) eid ''active'' w = (Inr (), w')
    \<and> rec\<lparr>rc_EgressID := Some eid, rc_Status := ''active''\<rparr> \<in> set (recordings (w_db w'))"
proof -
  let ?rs = "update_rows (\<lambda>r. rc_ID r = rc_ID rec) (\<lambda>r. r\<lparr>rc_EgressID := Some eid, rc_Status := ''active''\<rparr>) (recordings (w_db w))"
  have "r = rec" if "r \<in> set (recordings (w_db w))" "rc_ID r = rc_ID rec" for r
    using that assms(2,3) by (auto simp: rec_inv_def dest: distinct_key_unique)
  then have free: "\<not> list_ex (\<lambda>r. rc_ID r = rc_ID rec \<and>
      list_ex (\<lambda>q. rc_ID q \<noteq> rc_ID rec \<and> rc_SessionID q = rc_SessionID r \<and> in_flight q) (recordings (w_db w))) (recordings (w_db w))"
    using assms(5) by (auto simp: list_ex_iff)
  have "SetRecordingEgress (rc_ID rec) eid ''active'' w = (Inr (), w\<lparr>w_db := (w_db w)\<lparr>recordings := ?rs\<rparr>\<rparr>)"
    using assms(1) free by (simp add: SetRecordingEgress_def recording_status_def)
  moreover have "rec\<lparr>rc_EgressID := Some eid, rc_Status := ''active''\<rparr> \<in> set ?rs"
    using assms(3) by (auto simp: in_set_update_rows)
  ultimately show ?thesis by simp
qed

lemma SetRecordingEgress_reopens_witness:
  "\<exists>w'. SetRecordingEgress ''r1'' ''EG1'' ''active'' (demo_world (empty_db\<lparr>recordings := [demo_row ''aborted'']\<rparr>)) = (Inr (), w')
    \<and> demo_row ''active'' \<in> set (recordings (w_db w'))"
  using SetRecordingEgress_reopens [of "demo_world (empty_db\<lparr>recordings := [demo_row ''aborted'']\<rparr>)" "demo_row ''aborted''" "''EG1''"]
    rec_inv_demo by (simp add: demo_world_def calm_def demo_row_def in_flight_def)

end
