(* ===== verification/Decimal.thy ===== *)
theory Decimal
  imports Codec
begin

text \<open>
  Decimal text of 64-bit integers as \<^verbatim>\<open>strconv.FormatInt\<close>, \<^verbatim>\<open>strconv.ParseInt\<close> and \<^verbatim>\<open>strconv.Atoi\<close> (base 10,
  64 bits) of the Go library write and read it, for the playback tokens, the checkpoint targets and the
  configuration.
\<close>

definition digit_char :: "nat \<Rightarrow> char" where
  "digit_char n = char_of (48 + n)"

definition digit_val :: "char \<Rightarrow> nat option" where
  "digit_val c = (let n = of_char c :: nat in if 48 \<le> n \<and> n \<le> 57 then Some (n - 48) else None)"

fun format_nat :: "nat \<Rightarrow> string" where
  "format_nat n = (if n < 10 then [digit_char n] else format_nat (n div 10) @ [digit_char (n mod 10)])"

declare format_nat.simps [simp del]

definition FormatInt :: "int \<Rightarrow> string" where
  "FormatInt n = (if n < 0 then CHR ''-'' # format_nat (nat (- n)) else format_nat (nat n))"

fun parse_digits :: "nat \<Rightarrow> string \<Rightarrow> nat option" where
  "parse_digits acc [] = Some acc"
| "parse_digits acc (c # cs) =
     (case digit_val c of None \<Rightarrow> None | Some d \<Rightarrow> parse_digits (10 * acc + d) cs)"

text \<open>An empty numeral, a stray character and a value outside the 64-bit range are errors.\<close>

definition parse_magnitude :: "bool \<Rightarrow> string \<Rightarrow> int option" where
  "parse_magnitude neg ds =
     (if ds = [] then None
      else case parse_digits 0 ds of
             None \<Rightarrow> None
           | Some n \<Rightarrow>
               if neg then (if n > 2 ^ 63 then None else Some (- int n))
               else (if n \<ge> 2 ^ 63 then None else Some (int n)))"

definition ParseInt :: "string \<Rightarrow> int option" where
  "ParseInt s =
     (case s of
        [] \<Rightarrow> None
      | c # cs \<Rightarrow>
          if c = CHR ''+'' then parse_magnitude False cs
          else if c = CHR ''-'' then parse_magnitude True cs
          else parse_magnitude False s)"

section \<open>Printed numbers parse back\<close>

lemma digit_val_char [simp]: "n < 10 \<Longrightarrow> digit_val (digit_char n) = Some n"
  by (simp add: digit_val_def digit_char_def Let_def)

lemma digit_char_range: "n < 10 \<Longrightarrow> of_char (digit_char n) = 48 + n"
  by (simp add: digit_char_def)

lemma parse_digits_snoc:
  "parse_digits acc (ds @ [c]) =
     (case parse_digits acc ds of None \<Rightarrow> None
      | Some n \<Rightarrow> (case digit_val c of None \<Rightarrow> None | Some d \<Rightarrow> Some (10 * n + d)))"
  by (induction ds arbitrary: acc) (auto split: option.splits)

lemma parse_format_nat: "parse_digits 0 (format_nat n) = Some n"
proof (induction n rule: format_nat.induct)
  case (1 n)
  show ?case
  proof (cases "n < 10")
    case True
    then show ?thesis by (simp add: format_nat.simps [of n])
  next
    case False
    then show ?thesis using 1 by (simp add: format_nat.simps [of n] parse_digits_snoc)
  qed
qed

lemma format_nat_digits: "c \<in> set (format_nat n) \<Longrightarrow> 48 \<le> (of_char c :: nat) \<and> (of_char c :: nat) \<le> 57"
proof (induction n rule: format_nat.induct)
  case (1 n)
  then show ?case by (cases "n < 10") (auto simp: format_nat.simps [of n] digit_char_range)
qed

lemma format_nat_nonempty [simp]: "format_nat n \<noteq> []"
  by (simp add: format_nat.simps [of n])

lemma FormatInt_chars: "c \<in> set (FormatInt n) \<Longrightarrow> c = CHR ''-'' \<or> 48 \<le> (of_char c :: nat) \<and> (of_char c :: nat) \<le> 57"
  by (auto simp: FormatInt_def dest: format_nat_digits split: if_splits)

lemma FormatInt_free: "c \<notin> set (FormatInt n)" if "c \<noteq> CHR ''-''" "(of_char c :: nat) < 48 \<or> 57 < (of_char c :: nat)"
  using that FormatInt_chars [of c n] by auto

lemma parse_magnitude_format:
  "parse_magnitude False (format_nat n) = (if n < 2 ^ 63 then Some (int n) else None)"
  "parse_magnitude True (format_nat n) = (if n \<le> 2 ^ 63 then Some (- int n) else None)"
  by (simp_all add: parse_magnitude_def parse_format_nat)

lemma ParseInt_FormatInt:
  assumes "- (2 ^ 63) \<le> n" and "n < 2 ^ 63"
  shows "ParseInt (FormatInt n) = Some n"
proof (cases "n < 0")
  case True
  then show ?thesis using assms by (simp add: FormatInt_def ParseInt_def parse_magnitude_format nat_le_iff)
next
  case False
  obtain c cs where f: "format_nat (nat n) = c # cs" by (cases "format_nat (nat n)") auto
  then have "48 \<le> (of_char c :: nat)" using format_nat_digits [of c "nat n"] by simp
  then have "c \<noteq> CHR ''+''" "c \<noteq> CHR ''-''" by auto
  then have "ParseInt (FormatInt n) = parse_magnitude False (format_nat (nat n))"
    using False f by (simp add: FormatInt_def ParseInt_def)
  then show ?thesis using False assms by (simp add: parse_magnitude_format nat_less_iff)
qed

lemma parse_magnitude_range: "parse_magnitude neg ds = Some n \<Longrightarrow> - (2 ^ 63) \<le> n \<and> n < 2 ^ 63"
  by (auto simp: parse_magnitude_def split: if_splits option.splits)

lemma ParseInt_range: "ParseInt s = Some n \<Longrightarrow> - (2 ^ 63) \<le> n \<and> n < 2 ^ 63"
  by (auto simp: ParseInt_def split: list.splits if_splits dest: parse_magnitude_range)

end
