(* ===== verification/Playback.thy ===== *)
theory Playback
  imports Recordings Decimal
begin

text \<open>
  Watching recordings: the playback tokens of \<^verbatim>\<open>internal/recording/playtoken.go\<close> and the handlers of
  \<^verbatim>\<open>internal/recording/http.go\<close> (control, playback, the serving check behind nginx, the webhook ingest with its
  replay window). A handler answers with an HTTP status; the two in-memory maps of the handler are an explicit
  state. HMAC-SHA256, SHA-256 and JSON decoding are parameters; the result of parsing the forwarded request
  line (\<^verbatim>\<open>url.ParseRequestURI\<close>: path and first query value of \<^verbatim>\<open>t\<close>) is an argument.
\<close>

section \<open>Playback tokens\<close>

abbreviation errBadPlaybackToken :: error where "errBadPlaybackToken \<equiv> Err ''recording: invalid playback token''"

type_synonym mac = "bytes \<Rightarrow> bytes \<Rightarrow> bytes"

definition playbackMAC :: "mac \<Rightarrow> string \<Rightarrow> string \<Rightarrow> bytes" where
  "playbackMAC hmac secret signingInput = hmac secret signingInput"

definition mintPlaybackToken :: "mac \<Rightarrow> string \<Rightarrow> string \<Rightarrow> string \<Rightarrow> instant \<Rightarrow> string" where
  "mintPlaybackToken hmac secret subject recordingID exp =
     (let payload = subject @ ''|'' @ recordingID @ ''|'' @ FormatInt (unix exp);
          p = EncodeToString payload
      in p @ ''.'' @ EncodeToString (playbackMAC hmac secret p))"

text \<open>\<^verbatim>\<open>strings.Cut\<close> at the first occurrence of a character.\<close>

fun cut :: "char \<Rightarrow> string \<Rightarrow> (string \<times> string) option" where
  "cut c [] = None"
| "cut c (x # xs) = (if x = c then Some ([], xs) else map_option (\<lambda>(a, b). (x # a, b)) (cut c xs))"

definition parsePlaybackToken :: "mac \<Rightarrow> string \<Rightarrow> string \<Rightarrow> instant \<Rightarrow> (string \<times> string) res" where
  "parsePlaybackToken hmac tok secret now =
     (case cut CHR ''.'' tok of
        None \<Rightarrow> Inl errBadPlaybackToken
      | Some (p, sig) \<Rightarrow>
          (case DecodeString sig of
             None \<Rightarrow> Inl errBadPlaybackToken
           | Some wantSig \<Rightarrow>
               if wantSig \<noteq> playbackMAC hmac secret p then Inl errBadPlaybackToken
               else case DecodeString p of
                      None \<Rightarrow> Inl errBadPlaybackToken
                    | Some raw \<Rightarrow>
                        (case split_on CHR ''|'' raw of
                           [subject, recordingID, expText] \<Rightarrow>
                             (case ParseInt expText of
                                None \<Rightarrow> Inl errBadPlaybackToken
                              | Some exp \<Rightarrow>
                                  if unix now > exp then Inl errBadPlaybackToken
                                  else if subject = '''' \<or> recordingID = '''' then Inl errBadPlaybackToken
                                  else Inr (subject, recordingID))
                         | _ \<Rightarrow> Inl errBadPlaybackToken)))"

section \<open>The handler\<close>

record RecHandler =
  rh_svc :: RecordingSvc
  rh_store :: Store
  rh_validate :: "string \<Rightarrow> AccessTokenClaims io"
  rh_apiKey :: string
  rh_apiSecret :: string
  rh_recordingsBase :: string
  rh_filePrefix :: string
  rh_recordingsSecret :: string
  rh_playbackTTL :: duration
  rh_entitlements :: bool
  rh_hmac :: mac
  rh_sha256 :: "bytes \<Rightarrow> bytes"
  rh_claims :: "bytes \<Rightarrow> webhookClaims option"
  rh_event :: "bytes \<Rightarrow> WebhookEvent option"

record RecMemory =
  rm_playedSeen :: "string \<rightharpoonup> instant"
  rm_seenWebhook :: "string \<rightharpoonup> instant"

definition bearer :: "string \<Rightarrow> string option" where
  "bearer h =
     (if length h \<le> 7 \<or> \<not> equal_fold (take 7 h) ''Bearer '' then None
      else let tok = trim_space (drop 7 h) in if tok = '''' then None else Some tok)"

text \<open>\<^verbatim>\<open>relPath\<close>: \<^verbatim>\<open>TrimPrefix\<close>, a leading slash, nothing for a path with two dots in a row.\<close>

definition trim_prefix :: "string \<Rightarrow> string \<Rightarrow> string" where
  "trim_prefix s pre = (if take (length pre) s = pre then drop (length pre) s else s)"

fun has_dotdot :: "string \<Rightarrow> bool" where
  "has_dotdot (a # b # xs) = (a = CHR ''.'' \<and> b = CHR ''.'' \<or> has_dotdot (b # xs))"
| "has_dotdot _ = False"

definition relPath :: "string \<Rightarrow> string \<Rightarrow> string" where
  "relPath outputURI filePrefix =
     (let rel = trim_prefix outputURI filePrefix;
          rel' = (if take 1 rel = ''/'' then rel else ''/'' @ rel)
      in if has_dotdot rel' then '''' else rel')"

definition playbackURL :: "RecHandler \<Rightarrow> instant \<Rightarrow> Recording \<Rightarrow> string \<Rightarrow> string" where
  "playbackURL h now rec subject =
     (if rh_recordingsBase h = '''' \<or> coalesce (rc_OutputURI rec) = '''' then ''''
      else let rel = relPath (coalesce (rc_OutputURI rec)) (rh_filePrefix h)
           in if rel = '''' then ''''
              else let base = rh_recordingsBase h @ rel
                   in if rh_recordingsSecret h = '''' then base
                      else base @ ''?t='' @ mintPlaybackToken (rh_hmac h) (rh_recordingsSecret h) subject (rc_ID rec)
                             (now + rh_playbackTTL h))"

definition shouldAuditPlay :: "RecHandler \<Rightarrow> instant \<Rightarrow> string \<Rightarrow> string \<Rightarrow> RecMemory \<Rightarrow> bool \<times> RecMemory" where
  "shouldAuditPlay h now subject recID mem =
     (let key = subject @ ''|'' @ recID; ttl = rh_playbackTTL h; seen = rm_playedSeen mem
      in if (case seen key of None \<Rightarrow> False | Some t0 \<Rightarrow> now - t0 < ttl) then (False, mem)
         else (True, mem\<lparr>rm_playedSeen := (\<lambda>k. case seen k of None \<Rightarrow> None | Some t \<Rightarrow> if now - t \<ge> ttl then None else Some t)(key \<mapsto> now)\<rparr>))"

text \<open>The serving check. 204 lets nginx serve the bytes.\<close>

definition authz :: "RecHandler \<Rightarrow> (string \<times> string) option \<Rightarrow> RecMemory \<Rightarrow> world \<Rightarrow> nat \<times> RecMemory \<times> world" where
  "authz h orig mem w =
     (case orig of
        None \<Rightarrow> (401, mem, w)
      | Some (path, tok) \<Rightarrow>
          if tok = '''' \<or> path = '''' then (401, mem, w)
          else case parsePlaybackToken (rh_hmac h) tok (rh_recordingsSecret h) (w_now w) of
                 Inl _ \<Rightarrow> (401, mem, w)
               | Inr (subject, recID) \<Rightarrow>
                   (case RecordingByID recID w of
                      (Inl _, w1) \<Rightarrow> (500, mem, w1)
                    | (Inr None, w1) \<Rightarrow> (403, mem, w1)
                    | (Inr (Some rec), w1) \<Rightarrow>
                        if relPath (coalesce (rc_OutputURI rec)) (rh_filePrefix h) \<noteq> path then (403, mem, w1)
                        else case (if rh_entitlements h then EnsureRecordingAccess subject (rc_SessionID rec) else ret ()) w1 of
                               (Inl _, w2) \<Rightarrow> (403, mem, w2)
                             | (Inr _, w2) \<Rightarrow>
                                 (case shouldAuditPlay h (w_now w2) subject recID mem of
                                    (False, mem') \<Rightarrow> (204, mem', w2)
                                  | (True, mem') \<Rightarrow> (204, mem', snd (AuditPlayback (rh_store h) subject rec w2)))))"

section \<open>Webhook ingest\<close>

definition webhookDedupeTTL :: duration where "webhookDedupeTTL = minutes 10"

definition webhookDuplicate :: "instant \<Rightarrow> string \<Rightarrow> RecMemory \<Rightarrow> bool \<times> RecMemory" where
  "webhookDuplicate now key mem =
     (if key = '''' then (False, mem)
      else let seen = rm_seenWebhook mem
           in ((case seen key of None \<Rightarrow> False | Some t \<Rightarrow> now - t < webhookDedupeTTL),
               mem\<lparr>rm_seenWebhook := (\<lambda>k. case seen k of None \<Rightarrow> None
                      | Some t \<Rightarrow> if now - t \<ge> webhookDedupeTTL then None else Some t)\<rparr>))"

definition rememberWebhook :: "instant \<Rightarrow> string \<Rightarrow> RecMemory \<Rightarrow> RecMemory" where
  "rememberWebhook now key mem =
     (if key = '''' then mem else mem\<lparr>rm_seenWebhook := (rm_seenWebhook mem)(key \<mapsto> now)\<rparr>)"

definition liveKitWebhook :: "RecHandler \<Rightarrow> bytes \<Rightarrow> string \<Rightarrow> RecMemory \<Rightarrow> world \<Rightarrow> nat \<times> RecMemory \<times> world" where
  "liveKitWebhook h body authorization mem w =
     (case ParseWebhook (rh_hmac h) (rh_sha256 h) (rh_claims h) (rh_event h) body authorization (rh_apiKey h) (rh_apiSecret h) (w_now w) of
        Inl _ \<Rightarrow> (401, mem, w)
      | Inr ev \<Rightarrow>
          (case webhookDuplicate (w_now w) (we_DedupKey ev) mem of
             (True, mem1) \<Rightarrow> (204, mem1, w)
           | (False, mem1) \<Rightarrow>
               (case HandleWebhookEvent ev w of
                  (Inl _, w1) \<Rightarrow> (500, mem1, w1)
                | (Inr _, w1) \<Rightarrow> (204, rememberWebhook (w_now w1) (we_DedupKey ev) mem1, w1))))"

section \<open>Tokens\<close>

lemma cut_append: "c \<notin> set a \<Longrightarrow> cut c (a @ c # b) = Some (a, b)"
  by (induction a) auto

lemma cut_SomeD: "cut c s = Some (a, b) \<Longrightarrow> s = a @ c # b"
  by (induction s arbitrary: a) (auto split: if_splits)

lemma parse_mint:
  assumes "subject \<noteq> ''''" "recID \<noteq> ''''" "CHR ''|'' \<notin> set subject" "CHR ''|'' \<notin> set recID"
    and "- (2 ^ 63) \<le> unix exp" "unix exp < 2 ^ 63"
  shows "parsePlaybackToken hmac (mintPlaybackToken hmac secret subject recID exp) secret now =
    (if unix now \<le> unix exp then Inr (subject, recID) else Inl errBadPlaybackToken)"
proof -
  define payload where "payload = subject @ ''|'' @ recID @ ''|'' @ FormatInt (unix exp)"
  define p where "p = EncodeToString payload"
  have "CHR ''.'' \<notin> set p" by (simp add: p_def Encode_no_dot)
  then have "cut CHR ''.'' (p @ ''.'' @ EncodeToString (playbackMAC hmac secret p)) = Some (p, EncodeToString (playbackMAC hmac secret p))"
    using cut_append by simp
  moreover have "mintPlaybackToken hmac secret subject recID exp = p @ ''.'' @ EncodeToString (playbackMAC hmac secret p)"
    by (simp add: mintPlaybackToken_def Let_def p_def payload_def)
  moreover have "CHR ''|'' \<notin> set (FormatInt (unix exp))" by (rule FormatInt_free) simp_all
  then have "split_on CHR ''|'' payload = [subject, recID, FormatInt (unix exp)]"
    using assms(3,4) by (simp add: payload_def split_on_append split_on_no_sep)
  moreover have "ParseInt (FormatInt (unix exp)) = Some (unix exp)" using assms(5,6) by (rule ParseInt_FormatInt)
  ultimately show ?thesis
    using assms(1,2) by (simp add: parsePlaybackToken_def Decode_Encode p_def)
qed

text \<open>A playback link is good for exactly its lifetime. The link built for a finished recording is its base
  URL followed by a token which the serving check reads back as that viewer and that recording up to the second
  in which the lifetime ends, and rejects afterwards (the ids, opaque in the platform, hold no separator).\<close>
lemma playbackURL_lifetime:
  assumes "subject \<noteq> ''''" "rc_ID rec \<noteq> ''''" "CHR ''|'' \<notin> set subject" "CHR ''|'' \<notin> set (rc_ID rec)"
    and "- (2 ^ 63) \<le> unix (t + rh_playbackTTL h)" "unix (t + rh_playbackTTL h) < 2 ^ 63"
    and "rh_recordingsSecret h \<noteq> ''''" "playbackURL h t rec subject \<noteq> ''''"
  shows "\<exists>tok. playbackURL h t rec subject =
      rh_recordingsBase h @ relPath (coalesce (rc_OutputURI rec)) (rh_filePrefix h) @ ''?t='' @ tok
    \<and> parsePlaybackToken (rh_hmac h) tok (rh_recordingsSecret h) now =
        (if unix now \<le> unix (t + rh_playbackTTL h) then Inr (subject, rc_ID rec) else Inl errBadPlaybackToken)"
  using assms(7,8) parse_mint [OF assms(1-6)]
  by (auto simp: playbackURL_def Let_def split: if_splits)

lemma parsePlaybackToken_InrD:
  assumes "parsePlaybackToken hmac tok secret now = Inr (subject, recID)"
  obtains p sig expText e where "tok = p @ ''.'' @ sig" "DecodeString sig = Some (hmac secret p)"
    "DecodeString p = Some (subject @ ''|'' @ recID @ ''|'' @ expText)" "ParseInt expText = Some e" "unix now \<le> e"
proof -
  obtain p sig where c: "cut CHR ''.'' tok = Some (p, sig)"
    using assms by (auto simp: parsePlaybackToken_def split: option.splits prod.splits)
  obtain raw where d: "DecodeString sig = Some (playbackMAC hmac secret p)" "DecodeString p = Some raw"
    using assms c by (auto simp: parsePlaybackToken_def split: option.splits if_splits)
  obtain a b x where s: "split_on CHR ''|'' raw = [a, b, x]"
    using assms c d by (auto simp: parsePlaybackToken_def split: list.splits)
  obtain e where e: "ParseInt x = Some e" "unix now \<le> e" "a = subject" "b = recID"
    using assms c d s by (auto simp: parsePlaybackToken_def split: option.splits if_splits)
  have "raw = a @ ''|'' @ b @ ''|'' @ x" using join_split [of "CHR ''|''" raw] s by simp
  with that [of p sig x e] cut_SomeD [OF c] d e show ?thesis by (simp add: playbackMAC_def)
qed

section \<open>Serving\<close>

lemma relPath_safe: "relPath u pre = path \<Longrightarrow> path \<noteq> '''' \<Longrightarrow> \<not> has_dotdot path"
  by (auto simp: relPath_def Let_def split: if_splits)

text \<open>C22: what lets a byte of a recording out. The serving check answers 204 only for a token that carries the
  keyed hash of its payload under the shared secret and has not expired, whose recording exists and is stored
  at the requested path (which never climbs out of the directory), and whose viewer may see recordings of that
  session at this moment by the entitlement gate when it is wired.\<close>
theorem authz_allows:
  assumes "authz h orig mem w = (204, mem', w')"
  shows "\<exists>path subject recID p sig expText e rec.
    orig = Some (path, p @ ''.'' @ sig) \<and> DecodeString sig = Some (rh_hmac h (rh_recordingsSecret h) p)
    \<and> DecodeString p = Some (subject @ ''|'' @ recID @ ''|'' @ expText) \<and> ParseInt expText = Some e \<and> unix (w_now w) \<le> e
    \<and> first_row (\<lambda>r. rc_ID r = recID) (recordings (w_db w)) = Some rec
    \<and> relPath (coalesce (rc_OutputURI rec)) (rh_filePrefix h) = path \<and> \<not> has_dotdot path
    \<and> (rh_entitlements h \<longrightarrow> recording_access subject (rc_SessionID rec) (w_pgnow w) (w_db w) = Inr ())"
proof -
  obtain path tok where orig: "orig = Some (path, tok)" "path \<noteq> ''''"
    using assms by (auto simp: authz_def split: option.splits if_splits)
  obtain subject recID where tk: "parsePlaybackToken (rh_hmac h) tok (rh_recordingsSecret h) (w_now w) = Inr (subject, recID)"
    using assms orig by (auto simp: authz_def split: if_splits sum.splits)
  obtain q w1 where q: "RecordingByID recID w = (q, w1)" by force
  obtain rec where rec: "q = Inr (Some rec)" "relPath (coalesce (rc_OutputURI rec)) (rh_filePrefix h) = path"
    using assms orig tk q by (auto simp: authz_def split: if_splits sum.splits option.splits)
  note run = pg_runD [OF q [unfolded rec(1) RecordingByID_def]]
  obtain a w2 where gate: "(if rh_entitlements h then EnsureRecordingAccess subject (rc_SessionID rec) else ret ()) w1 = (a, w2)" by force
  have "\<exists>u. a = Inr u" using assms orig tk q rec gate by (cases a) (auto simp: authz_def split: if_splits)
  then have "rh_entitlements h \<longrightarrow> recording_access subject (rc_SessionID rec) (w_pgnow w1) (w_db w1) = Inr ()"
    using gate answersD(4) [OF answers_EnsureRecordingAccess, of subject "rc_SessionID rec" w1 a w2] by auto
  moreover have "\<not> has_dotdot path" using relPath_safe rec(2) orig(2) by blast
  moreover obtain p sig expText e where "tok = p @ ''.'' @ sig" "DecodeString sig = Some (rh_hmac h (rh_recordingsSecret h) p)"
    "DecodeString p = Some (subject @ ''|'' @ recID @ ''|'' @ expText)" "ParseInt expText = Some e" "unix (w_now w) \<le> e"
    using tk by (rule parsePlaybackToken_InrD)
  moreover have "first_row (\<lambda>r. rc_ID r = recID) (recordings (w_db w)) = Some rec" "w_db w1 = w_db w" "w_pgnow w1 = w_pgnow w"
    using run by auto
  ultimately show ?thesis
    using orig(1) rec(2)
    by (intro exI [of _ path] exI [of _ subject] exI [of _ recID] exI [of _ p] exI [of _ sig] exI [of _ expText]
        exI [of _ e] exI [of _ rec]) simp
qed

definition demo_handler :: RecHandler where
  "demo_handler = \<lparr>rh_svc = demo_recorder, rh_store = demo_store, rh_validate = (\<lambda>_. fail ErrNoRows), rh_apiKey = ''key'',
     rh_apiSecret = ''sec'', rh_recordingsBase = '''', rh_filePrefix = ''/out'', rh_recordingsSecret = ''s'', rh_playbackTTL = minutes 5,
     rh_entitlements = False, rh_hmac = (\<lambda>k m. k @ m), rh_sha256 = pad32, rh_claims = (\<lambda>_. None), rh_event = (\<lambda>_. None)\<rparr>"

definition demo_memory :: RecMemory where
  "demo_memory = \<lparr>rm_playedSeen = Map.empty, rm_seenWebhook = Map.empty\<rparr>"

lemma demo_mint:
  "parsePlaybackToken (\<lambda>k m. k @ m) (mintPlaybackToken (\<lambda>k m. k @ m) ''s'' ''u1'' ''r1'' (minutes 5)) ''s'' 0 = Inr (''u1'', ''r1'')"
  by (subst parse_mint) (simp_all add: unix_def minutes_def seconds_def)

definition demo_file :: Recording where
  "demo_file = (demo_row ''completed'')\<lparr>rc_OutputURI := Some ''/out/a''\<rparr>"

lemma playbackURL_lifetime_witness:
  "\<exists>tok. playbackURL (demo_handler\<lparr>rh_recordingsBase := ''http://x''\<rparr>) 0 demo_file ''u1'' = ''http://x'' @ ''/a'' @ ''?t='' @ tok
    \<and> parsePlaybackToken (\<lambda>k m. k @ m) tok ''s'' 0 = Inr (''u1'', ''r1'')"
  using playbackURL_lifetime [of "''u1''" demo_file 0 "demo_handler\<lparr>rh_recordingsBase := ''http://x''\<rparr>" 0]
  by (simp add: demo_handler_def demo_file_def demo_row_def unix_def minutes_def seconds_def playbackURL_def relPath_def
      trim_prefix_def coalesce_def Let_def)

theorem authz_allows_witness:
  "\<exists>tok mem' w' rec. authz demo_handler (Some (''/a'', tok)) demo_memory (demo_world (empty_db\<lparr>recordings := [demo_file]\<rparr>)) = (204, mem', w')
    \<and> rec \<in> set [demo_file] \<and> relPath (coalesce (rc_OutputURI rec)) ''/out'' = ''/a''"
proof -
  define tok where "tok = mintPlaybackToken (\<lambda>k m. k @ m) ''s'' ''u1'' ''r1'' (minutes 5)"
  define w where "w = demo_world (empty_db\<lparr>recordings := [demo_file]\<rparr>)"
  have "tok \<noteq> ''''" by (simp add: tok_def mintPlaybackToken_def Let_def)
  with demo_mint [folded tok_def] have "fst (authz demo_handler (Some (''/a'', tok)) demo_memory w) = 204"
    by (simp add: authz_def demo_handler_def demo_memory_def w_def demo_world_def calm_def RecordingByID_def demo_file_def
        demo_row_def relPath_def trim_prefix_def coalesce_def Let_def shouldAuditPlay_def ret_def)
  then obtain mem' w' where run: "authz demo_handler (Some (''/a'', tok)) demo_memory w = (204, mem', w')"
    by (metis prod.collapse)
  have "recordings (w_db w) = [demo_file]" by (simp add: w_def demo_world_def)
  with authz_allows [OF run] obtain rec where "rec \<in> set [demo_file]" "relPath (coalesce (rc_OutputURI rec)) (rh_filePrefix demo_handler) = ''/a''"
    by (auto split: if_splits)
  with run show ?thesis unfolding w_def by (auto simp: demo_handler_def)
qed

section \<open>Replayed webhooks\<close>

lemma HandleWebhookEvent_clock: "HandleWebhookEvent ev w = (r, w') \<Longrightarrow> same_clock w w'"
proof -
  have pgc: "same_clock v v'" if "pg s v = (q, v')" for s :: "'b stmt" and v q v' using pg_outcome [OF that] by blast
  assume run: "HandleWebhookEvent ev w = (r, w')"
  show ?thesis
  proof (cases "we_EgressInfo ev")
    case None
    with run show ?thesis by (simp add: HandleWebhookEvent_def ret_def)
  next
    case (Some info)
    note body = run [unfolded HandleWebhookEvent_def Some option.case]
    from body show ?thesis
    proof (cases rule: bind_outcome)
      case (1 e w1)
      then show ?thesis using pg_outcome [OF 1(1) [unfolded RecordingByEgress_def]] by blast
    next
      case (2 x w1)
      have "same_clock w w1" using pg_outcome [OF 2(1) [unfolded RecordingByEgress_def]] by blast
      moreover have "same_clock w1 w'"
        using 2(2) pg_outcome unfolding UpdateRecordingStatus_def Let_def
        by (auto simp: ret_def split: option.splits if_splits)
      ultimately show ?thesis by (rule same_clock_trans)
    qed
  qed
qed

text \<open>A redelivered webhook is not applied twice: after a delivery has been processed, the same delivery
  presented again within ten minutes changes nothing in the database and calls nothing.\<close>
lemma webhook_replay_ignored:
  assumes "ParseWebhook (rh_hmac h) (rh_sha256 h) (rh_claims h) (rh_event h) body auth (rh_apiKey h) (rh_apiSecret h) (w_now w) = Inr ev"
    and "we_DedupKey ev \<noteq> ''''" "rm_seenWebhook mem (we_DedupKey ev) = None"
    and "liveKitWebhook h body auth mem w = (204, mem1, w1)"
    and "w_now w2 - w_now w < minutes 10"
    and "ParseWebhook (rh_hmac h) (rh_sha256 h) (rh_claims h) (rh_event h) body auth (rh_apiKey h) (rh_apiSecret h) (w_now w2) = Inr ev"
  shows "\<exists>mem2. liveKitWebhook h body auth mem1 w2 = (204, mem2, w2)"
proof -
  obtain dup mem0 where d: "webhookDuplicate (w_now w) (we_DedupKey ev) mem = (dup, mem0)" by force
  then have "\<not> dup" using assms(2,3) by (auto simp: webhookDuplicate_def Let_def)
  obtain r w1' where hw: "HandleWebhookEvent ev w = (r, w1')" by force
  have "mem1 = rememberWebhook (w_now w1') (we_DedupKey ev) mem0"
    using assms(1,4) d \<open>\<not> dup\<close> hw by (cases r) (auto simp: liveKitWebhook_def)
  then have "rm_seenWebhook mem1 (we_DedupKey ev) = Some (w_now w)"
    using HandleWebhookEvent_clock [OF hw] assms(2) by (simp add: rememberWebhook_def same_clock_def)
  then have "fst (webhookDuplicate (w_now w2) (we_DedupKey ev) mem1)"
    using assms(2,5) by (simp add: webhookDuplicate_def Let_def webhookDedupeTTL_def)
  then show ?thesis using assms(6) by (auto simp: liveKitWebhook_def split: prod.split)
qed

end
