(* ===== verification/Http.thy ===== *)
theory Http
  imports Playback
begin

text \<open>
  Requests and responses of the HTTP surfaces, the bearer authentication that every handler package repeats, and the
  routing of \<^verbatim>\<open>http.ServeMux\<close>.

  A handler is an operation that answers with a \<open>Response\<close>; it never fails. A body is the JSON value that is written, an
  instant in it stands for its RFC 3339 text (whole seconds). Decoding a request body (\<^verbatim>\<open>json.Decoder\<close> with unknown fields
  refused and the size limit of \<^verbatim>\<open>MaxBytesReader\<close>) is a parameter of the handler that decodes. A request's path is the list
  of its segments, cleaned as the mux cleans it; path values are the segments a pattern leaves open.
\<close>

section \<open>Responses\<close>

datatype json =
    JNull
  | JBool bool
  | JNum int
  | JStr string
  | JTime int
  | JArr "json list"
  | JObj "(string \<times> json) list"

definition jtime :: "instant \<Rightarrow> json" where
  "jtime t = JTime (unix t)"

definition jopt :: "('a \<Rightarrow> json) \<Rightarrow> 'a option \<Rightarrow> json" where
  "jopt f x = (case x of None \<Rightarrow> JNull | Some y \<Rightarrow> f y)"

record Response =
  rp_Status :: nat
  rp_Body :: "json option"
  rp_Location :: string
  rp_Cookies :: "(string \<times> string \<times> int) list"

definition respond :: "nat \<Rightarrow> json option \<Rightarrow> Response" where
  "respond status body = \<lparr>rp_Status = status, rp_Body = body, rp_Location = '''', rp_Cookies = []\<rparr>"

definition writeJSON :: "nat \<Rightarrow> json \<Rightarrow> Response io" where
  "writeJSON status v = ret (respond status (Some v))"

definition writeError :: "nat \<Rightarrow> string \<Rightarrow> Response io" where
  "writeError status msg = writeJSON status (JObj [(''error'', JStr msg)])"

definition writeHeader :: "nat \<Rightarrow> Response io" where
  "writeHeader status = ret (respond status None)"

text \<open>The reply of an operation that returns nothing: 204, or the mapped error.\<close>

definition done_or :: "(error \<Rightarrow> Response io) \<Rightarrow> unit io \<Rightarrow> Response io" where
  "done_or on_err m = attempt m (\<lambda>r. case r of Inl err \<Rightarrow> on_err err | Inr _ \<Rightarrow> writeHeader 204)"

abbreviation internal_error :: "error \<Rightarrow> Response io" where
  "internal_error \<equiv> \<lambda>_. writeError 500 ''internal error''"

section \<open>Requests\<close>

record HttpReq =
  hr_Method :: string
  hr_Path :: "string list"
  hr_Query :: "string \<Rightarrow> string"
  hr_Header :: "string \<Rightarrow> string"
  hr_Cookie :: "string \<Rightarrow> string option"
  hr_Body :: bytes

type_synonym validator = "string \<Rightarrow> AccessTokenClaims io"

definition requireAuth :: "validator \<Rightarrow> HttpReq \<Rightarrow> (AccessTokenClaims \<Rightarrow> Response io) \<Rightarrow> Response io" where
  "requireAuth validate rq next_handler =
     (case bearer (hr_Header rq ''Authorization'') of
        None \<Rightarrow> writeError 401 ''missing bearer token''
      | Some raw \<Rightarrow> attempt (validate raw) (\<lambda>r. case r of
          Inl _ \<Rightarrow> writeError 401 ''invalid token''
        | Inr claims \<Rightarrow> next_handler claims))"

definition decodeJSON :: "(bytes \<Rightarrow> 'r option) \<Rightarrow> HttpReq \<Rightarrow> ('r \<Rightarrow> Response io) \<Rightarrow> Response io" where
  "decodeJSON dec rq next_handler =
     (case dec (hr_Body rq) of
        None \<Rightarrow> writeError 400 ''malformed request body''
      | Some req \<Rightarrow> next_handler req)"

section \<open>Routing\<close>

datatype seg = Lit string | Wild

fun matches :: "seg list \<Rightarrow> string list \<Rightarrow> string list option" where
  "matches [] [] = Some []"
| "matches (Lit l # ps) (s # ss) = (if l = s then matches ps ss else None)"
| "matches (Wild # ps) (s # ss) = (if s = '''' then None else map_option ((#) s) (matches ps ss))"
| "matches _ _ = None"

text \<open>A pattern with the method GET also serves HEAD.\<close>

definition method_ok :: "string \<Rightarrow> string \<Rightarrow> bool" where
  "method_ok pat m \<longleftrightarrow> m = pat \<or> pat = ''GET'' \<and> m = ''HEAD''"

type_synonym route = "string \<times> seg list \<times> (string list \<Rightarrow> HttpReq \<Rightarrow> Response io)"

fun mux :: "route list \<Rightarrow> HttpReq \<Rightarrow> Response io" where
  "mux [] rq = writeHeader 404"
| "mux ((m, p, h) # rest) rq =
     (case matches p (hr_Path rq) of
        None \<Rightarrow> mux rest rq
      | Some vals \<Rightarrow>
          if method_ok m (hr_Method rq) then h vals rq
          else if \<exists>(m', p', h') \<in> set rest. matches p' (hr_Path rq) \<noteq> None \<and> method_ok m' (hr_Method rq) then mux rest rq
          else writeHeader 405)"

section \<open>Lemmas\<close>

lemma keeps_write [keeps_rules]: "keeps J (writeJSON st v)" "keeps J (writeError st msg)" "keeps J (writeHeader st)"
  by (simp_all add: writeJSON_def writeError_def writeHeader_def keeps_ret)

lemma keeps_done_or [keeps_rules]: "(\<And>e. keeps J (on_err e)) \<Longrightarrow> keeps J m \<Longrightarrow> keeps J (done_or on_err m)"
  unfolding done_or_def by (intro keeps_rules)

lemma keeps_requireAuth [keeps_rules]:
  "(\<And>raw. keeps J (validate raw)) \<Longrightarrow> (\<And>c. keeps J (h c)) \<Longrightarrow> keeps J (requireAuth validate rq h)"
  unfolding requireAuth_def by (intro keeps_rules)

lemma keeps_decodeJSON [keeps_rules]: "(\<And>r. keeps J (h r)) \<Longrightarrow> keeps J (decodeJSON dec rq h)"
  unfolding decodeJSON_def by (intro keeps_rules)

lemma keeps_mux:
  assumes "\<And>m p h vals. (m, p, h) \<in> set routes \<Longrightarrow> keeps J (h vals rq)"
  shows "keeps J (mux routes rq)"
  using assms
proof (induction routes)
  case (Cons r rest)
  obtain m p h where r: "r = (m, p, h)" by (cases r)
  have rest: "keeps J (mux rest rq)" using Cons by (meson list.set_intros(2))
  have "keeps J (h vals rq)" for vals using Cons.prems [of m p h] r by simp
  with rest show ?case unfolding r mux.simps by (intro keeps_rules)
qed (simp add: keeps_write)

text \<open>A handler that answers: whatever happens underneath, the client gets a response.\<close>

definition total :: "Response io \<Rightarrow> bool" where
  "total h \<longleftrightarrow> (\<forall>w. \<exists>resp w'. h w = (Inr resp, w'))"

named_theorems total_rules \<open>handlers that answer\<close>

lemma total_write [total_rules]: "total (writeJSON st v)" "total (writeError st msg)" "total (writeHeader st)" "total (ret resp)"
  by (simp_all add: total_def writeJSON_def writeError_def writeHeader_def ret_def)

lemma total_attempt [total_rules]: "(\<And>r. total (f r)) \<Longrightarrow> total (attempt m f)"
  unfolding total_def attempt_def by (metis (no_types, lifting) case_prod_conv surj_pair)

lemma total_if [total_rules]: "total a \<Longrightarrow> total b \<Longrightarrow> total (if c then a else b)"
  by simp

lemma total_option [total_rules]: "total a \<Longrightarrow> (\<And>x. total (f x)) \<Longrightarrow> total (case o' of None \<Rightarrow> a | Some x \<Rightarrow> f x)"
  by (cases o') simp_all

lemma total_sum [total_rules]: "(\<And>e. total (f e)) \<Longrightarrow> (\<And>x. total (g x)) \<Longrightarrow> total (case s of Inl e \<Rightarrow> f e | Inr x \<Rightarrow> g x)"
  by (cases s) simp_all

lemma total_prod [total_rules]: "(\<And>a b. total (f a b)) \<Longrightarrow> total (case p of (a, b) \<Rightarrow> f a b)"
  by (cases p) simp

lemma total_done_or [total_rules]: "(\<And>e. total (on_err e)) \<Longrightarrow> total (done_or on_err m)"
  unfolding done_or_def by (intro total_rules)

lemma total_requireAuth [total_rules]: "(\<And>c. total (h c)) \<Longrightarrow> total (requireAuth validate rq h)"
  unfolding requireAuth_def by (intro total_rules)

lemma total_decodeJSON [total_rules]: "(\<And>r. total (h r)) \<Longrightarrow> total (decodeJSON dec rq h)"
  unfolding decodeJSON_def by (intro total_rules)

lemma total_mux:
  assumes "\<And>m p h vals. (m, p, h) \<in> set routes \<Longrightarrow> total (h vals rq)"
  shows "total (mux routes rq)"
  using assms
proof (induction routes)
  case (Cons r rest)
  obtain m p h where r: "r = (m, p, h)" by (cases r)
  have rest: "total (mux rest rq)" using Cons by (meson list.set_intros(2))
  have "total (h vals rq)" for vals using Cons.prems [of m p h] r by simp
  with rest show ?case unfolding r mux.simps by (intro total_rules)
qed (simp add: total_write)

lemma requireAuth_cases:
  assumes "requireAuth validate rq h w = (Inr resp, w')"
  obtains "rp_Status resp = 401" "w' = w" "bearer (hr_Header rq ''Authorization'') = None"
  | raw e where "rp_Status resp = 401" "bearer (hr_Header rq ''Authorization'') = Some raw" "validate raw w = (Inl e, w')"
  | raw claims w1 where "bearer (hr_Header rq ''Authorization'') = Some raw" "validate raw w = (Inr claims, w1)" "h claims w1 = (Inr resp, w')"
proof (cases "bearer (hr_Header rq ''Authorization'')")
  case None
  then show thesis using assms that(1) by (auto simp: requireAuth_def writeError_def writeJSON_def respond_def ret_def)
next
  case (Some raw)
  obtain r w1 where r: "validate raw w = (r, w1)" by force
  show thesis
  proof (cases r)
    case (Inl e)
    then show thesis using assms Some r that(2) by (auto simp: requireAuth_def attempt_def writeError_def writeJSON_def respond_def ret_def)
  next
    case (Inr c)
    then show thesis using assms Some r that(3) by (auto simp: requireAuth_def attempt_def)
  qed
qed

end
