(* ===== verification/Validate.thy ===== *)
theory Validate
  imports Db
begin

text \<open>
  The input validators of \<^verbatim>\<open>pkg/validate\<close>. A Go string is a byte sequence and \<^verbatim>\<open>for _, r := range s\<close> walks its
  runes: \<open>runes\<close> is that walk, with the UTF-8 table of the language (an ill-formed byte is one replacement rune).
\<close>

section \<open>The runes of a string\<close>

definition byte :: "char \<Rightarrow> nat" where "byte c = of_char c"

definition cont :: "nat \<Rightarrow> nat \<Rightarrow> char \<Rightarrow> bool" where
  "cont lo hi c \<longleftrightarrow> lo \<le> byte c \<and> byte c \<le> hi"

definition RuneError :: nat where "RuneError = 0xFFFD"

text \<open>The bounds of the second byte of a sequence, by its first byte.\<close>

definition accept_low :: "nat \<Rightarrow> nat" where
  "accept_low b = (if b = 0xE0 then 0xA0 else if b = 0xF0 then 0x90 else 0x80)"

definition accept_high :: "nat \<Rightarrow> nat" where
  "accept_high b = (if b = 0xED then 0x9F else if b = 0xF4 then 0x8F else 0xBF)"

fun tail2 :: "nat \<Rightarrow> string \<Rightarrow> (nat \<times> nat) option" where
  "tail2 b (c1 # cs) = (if cont 0x80 0xBF c1 then Some ((b - 0xC0) * 0x40 + (byte c1 - 0x80), 2) else None)"
| "tail2 b [] = None"

fun tail3 :: "nat \<Rightarrow> string \<Rightarrow> (nat \<times> nat) option" where
  "tail3 b (c1 # c2 # cs) = (if cont (accept_low b) (accept_high b) c1 \<and> cont 0x80 0xBF c2
     then Some ((b - 0xE0) * 0x1000 + (byte c1 - 0x80) * 0x40 + (byte c2 - 0x80), 3) else None)"
| "tail3 b _ = None"

fun tail4 :: "nat \<Rightarrow> string \<Rightarrow> (nat \<times> nat) option" where
  "tail4 b (c1 # c2 # c3 # cs) = (if cont (accept_low b) (accept_high b) c1 \<and> cont 0x80 0xBF c2 \<and> cont 0x80 0xBF c3
     then Some ((b - 0xF0) * 0x40000 + (byte c1 - 0x80) * 0x1000 + (byte c2 - 0x80) * 0x40 + (byte c3 - 0x80), 4) else None)"
| "tail4 b _ = None"

definition DecodeRune :: "char \<Rightarrow> string \<Rightarrow> nat \<times> nat" where
  "DecodeRune c cs =
     (let b = byte c in
      if b < 0x80 then (b, 1)
      else case (if 0xC2 \<le> b \<and> b \<le> 0xDF then tail2 b cs
                 else if 0xE0 \<le> b \<and> b \<le> 0xEF then tail3 b cs
                 else if 0xF0 \<le> b \<and> b \<le> 0xF4 then tail4 b cs
                 else None) of
             Some rn \<Rightarrow> rn
           | None \<Rightarrow> (RuneError, 1))"

lemma tail_width:
  "tail2 b cs = Some (r, n) \<Longrightarrow> n = 2 \<and> 2 \<le> Suc (length cs)"
  "tail3 b cs = Some (r, n) \<Longrightarrow> n = 3 \<and> 3 \<le> Suc (length cs)"
  "tail4 b cs = Some (r, n) \<Longrightarrow> n = 4 \<and> 4 \<le> Suc (length cs)"
proof -
  show "tail2 b cs = Some (r, n) \<Longrightarrow> n = 2 \<and> 2 \<le> Suc (length cs)" by (cases cs) (auto split: if_splits)
  show "tail3 b cs = Some (r, n) \<Longrightarrow> n = 3 \<and> 3 \<le> Suc (length cs)" by (cases "(b, cs)" rule: tail3.cases) (auto split: if_splits)
  show "tail4 b cs = Some (r, n) \<Longrightarrow> n = 4 \<and> 4 \<le> Suc (length cs)" by (cases "(b, cs)" rule: tail4.cases) (auto split: if_splits)
qed

lemma DecodeRune_cases:
  obtains "byte c < 0x80" "DecodeRune c cs = (byte c, 1)"
  | "0x80 \<le> byte c" "DecodeRune c cs = (RuneError, 1)"
  | r n where "0xC2 \<le> byte c" "tail2 (byte c) cs = Some (r, n)" "DecodeRune c cs = (r, n)"
  | r n where "0xE0 \<le> byte c" "tail3 (byte c) cs = Some (r, n)" "DecodeRune c cs = (r, n)"
  | r n where "0xF0 \<le> byte c" "tail4 (byte c) cs = Some (r, n)" "DecodeRune c cs = (r, n)"
proof -
  let ?o = "if 0xC2 \<le> byte c \<and> byte c \<le> 0xDF then tail2 (byte c) cs
     else if 0xE0 \<le> byte c \<and> byte c \<le> 0xEF then tail3 (byte c) cs
     else if 0xF0 \<le> byte c \<and> byte c \<le> 0xF4 then tail4 (byte c) cs else None"
  show thesis
  proof (cases "byte c < 0x80")
    case True
    then show ?thesis by (intro that(1)) (simp_all add: DecodeRune_def Let_def)
  next
    case False
    show ?thesis
    proof (cases ?o)
      case None
      then show ?thesis using False by (intro that(2)) (simp_all add: DecodeRune_def Let_def)
    next
      case (Some rn)
      then have "DecodeRune c cs = (fst rn, snd rn)" using False by (simp add: DecodeRune_def Let_def)
      with Some show ?thesis using that(3-5) [of "fst rn" "snd rn"] by (auto split: if_splits)
    qed
  qed
qed

lemma DecodeRune_width: "1 \<le> snd (DecodeRune c cs) \<and> snd (DecodeRune c cs) \<le> 4 \<and> snd (DecodeRune c cs) \<le> Suc (length cs)"
  by (rule DecodeRune_cases [of c cs]) (auto dest!: tail_width)

function runes :: "string \<Rightarrow> nat list" where
  "runes [] = []"
| "runes (c # cs) = fst (DecodeRune c cs) # runes (drop (snd (DecodeRune c cs) - 1) cs)"
  by pat_completeness auto
termination by (relation "measure length") auto

section \<open>The validators\<close>

abbreviation MaxHandleLen :: nat where "MaxHandleLen \<equiv> 32"
abbreviation MinHandleLen :: nat where "MinHandleLen \<equiv> 3"
abbreviation ULIDLen :: nat where "ULIDLen \<equiv> 26"
abbreviation ErrEmpty :: error where "ErrEmpty \<equiv> Err ''validate: empty''"
abbreviation ErrTooLong :: error where "ErrTooLong \<equiv> Err ''validate: too long''"
abbreviation ErrTooShort :: error where "ErrTooShort \<equiv> Err ''validate: too short''"
abbreviation ErrCharset :: error where "ErrCharset \<equiv> Err ''validate: illegal characters''"
abbreviation ErrNotInSet :: error where "ErrNotInSet \<equiv> Err ''validate: value not allowed''"
abbreviation ErrBadID :: error where "ErrBadID \<equiv> Err ''validate: malformed identifier''"

definition rune_in :: "string \<Rightarrow> nat \<Rightarrow> bool" where
  "rune_in s r = list_ex (\<lambda>c. byte c = r) s"

definition crockford :: string where "crockford = ''0123456789ABCDEFGHJKMNPQRSTVWXYZ''"

definition ULID :: "string \<Rightarrow> error option" where
  "ULID s =
     (if s = '''' then Some ErrEmpty
      else if length s \<noteq> ULIDLen then Some ErrBadID
      else if list_ex (\<lambda>r. \<not> rune_in crockford r) (runes s) then Some ErrBadID
      else None)"

definition is_lower :: "nat \<Rightarrow> bool" where "is_lower r \<longleftrightarrow> 97 \<le> r \<and> r \<le> 122"
definition is_upper :: "nat \<Rightarrow> bool" where "is_upper r \<longleftrightarrow> 65 \<le> r \<and> r \<le> 90"
definition is_digit :: "nat \<Rightarrow> bool" where "is_digit r \<longleftrightarrow> 48 \<le> r \<and> r \<le> 57"

definition SubjectToken :: "string \<Rightarrow> error option" where
  "SubjectToken s =
     (if s = '''' then Some ErrEmpty
      else if list_ex (\<lambda>r. \<not> (is_lower r \<or> is_upper r \<or> is_digit r \<or> r = 95 \<or> r = 45)) (runes s) then Some ErrCharset
      else None)"

definition IsControl :: "nat \<Rightarrow> bool" where
  "IsControl r \<longleftrightarrow> r < 0x20 \<or> 0x7F \<le> r \<and> r < 0xA0"

fun bounded_loop :: "nat \<Rightarrow> nat \<Rightarrow> nat list \<Rightarrow> error option" where
  "bounded_loop n maxRunes [] = None"
| "bounded_loop n maxRunes (r # rs) =
     (if Suc n > maxRunes then Some ErrTooLong
      else if IsControl r \<and> r \<noteq> 9 \<and> r \<noteq> 10 \<and> r \<noteq> 13 then Some ErrCharset
      else bounded_loop (Suc n) maxRunes rs)"

definition BoundedText :: "string \<Rightarrow> nat \<Rightarrow> error option" where
  "BoundedText s maxRunes = (if s = '''' then Some ErrEmpty else bounded_loop 0 maxRunes (runes s))"

definition Handle :: "string \<Rightarrow> error option" where
  "Handle s =
     (if length s < MinHandleLen then Some (if s = '''' then ErrEmpty else ErrTooShort)
      else if length s > MaxHandleLen then Some ErrTooLong
      else if list_ex (\<lambda>r. \<not> (is_lower r \<or> is_digit r \<or> r = 95)) (runes s) then Some ErrCharset
      else None)"

fun Enum :: "string \<Rightarrow> string list \<Rightarrow> error option" where
  "Enum s [] = Some ErrNotInSet"
| "Enum s (a # allowed) = (if s = a then None else Enum s allowed)"

section \<open>What they accept\<close>

text \<open>On ASCII input the runes are the bytes, and only ASCII input has nothing but ASCII runes.\<close>

lemma DecodeRune_ascii: "byte c < 0x80 \<Longrightarrow> DecodeRune c cs = (byte c, 1)"
  by (simp add: DecodeRune_def Let_def)

lemma tail_non_ascii:
  "0xC2 \<le> b \<Longrightarrow> tail2 b cs = Some (r, n) \<Longrightarrow> 0x80 \<le> r"
  "0xE0 \<le> b \<Longrightarrow> tail3 b cs = Some (r, n) \<Longrightarrow> 0x80 \<le> r"
  "0xF0 \<le> b \<Longrightarrow> tail4 b cs = Some (r, n) \<Longrightarrow> 0x80 \<le> r"
proof -
  show "0xC2 \<le> b \<Longrightarrow> tail2 b cs = Some (r, n) \<Longrightarrow> 0x80 \<le> r" by (cases cs) (auto split: if_splits)
  show "0xE0 \<le> b \<Longrightarrow> tail3 b cs = Some (r, n) \<Longrightarrow> 0x80 \<le> r"
    by (cases "(b, cs)" rule: tail3.cases) (auto simp: cont_def accept_low_def split: if_splits)
  show "0xF0 \<le> b \<Longrightarrow> tail4 b cs = Some (r, n) \<Longrightarrow> 0x80 \<le> r"
    by (cases "(b, cs)" rule: tail4.cases) (auto simp: cont_def accept_low_def split: if_splits)
qed

lemma DecodeRune_non_ascii: "0x80 \<le> byte c \<Longrightarrow> 0x80 \<le> fst (DecodeRune c cs)"
  by (rule DecodeRune_cases [of c cs]) (simp_all add: RuneError_def tail_non_ascii)

lemma ascii_runes: "\<forall>r \<in> set (runes s). r < 0x80 \<Longrightarrow> runes s = map byte s"
proof (induction s rule: runes.induct)
  case (2 c cs)
  have "byte c < 0x80" using 2(2) DecodeRune_non_ascii [of c cs] by (simp only: runes.simps list.set ball_simps) linarith
  then have dec: "DecodeRune c cs = (byte c, 1)" by (rule DecodeRune_ascii)
  have "runes cs = map byte cs" using 2 by (simp add: dec)
  then show ?case by (simp add: dec)
qed simp

lemma runes_ascii: "\<forall>c \<in> set s. byte c < 0x80 \<Longrightarrow> runes s = map byte s"
  by (induction s) (simp_all add: DecodeRune_ascii)

lemma length_runes: "length s \<le> 4 * length (runes s)"
proof (induction s rule: runes.induct)
  case (2 c cs)
  have "snd (DecodeRune c cs) \<le> 4" using DecodeRune_width by blast
  then show ?case using 2 by simp
qed simp

lemma bounded_loop_None:
  "bounded_loop n m rs = None \<longleftrightarrow> (rs = [] \<or> n + length rs \<le> m) \<and> (\<forall>r \<in> set rs. IsControl r \<longrightarrow> r \<in> {9, 10, 13})"
  by (induction n m rs rule: bounded_loop.induct) auto

text \<open>Accepted free text is non-empty, has at most the given number of runes (so at most four times as many bytes)
  and no control character but tab, newline and carriage return; everything else is rejected.\<close>

lemma BoundedText_iff:
  "BoundedText s m = None \<longleftrightarrow> s \<noteq> [] \<and> length (runes s) \<le> m \<and> (\<forall>r \<in> set (runes s). IsControl r \<longrightarrow> r \<in> {9, 10, 13})"
  by (cases s) (auto simp: BoundedText_def bounded_loop_None simp del: runes.simps)

lemma BoundedText_bytes: "BoundedText s m = None \<Longrightarrow> length s \<le> 4 * m"
  using length_runes [of s] by (auto simp: BoundedText_iff)

lemma byte_less: "byte c < 256"
  by (simp add: byte_def)

lemma byte_char: "byte (char_of n) = n mod 256"
  by (simp add: byte_def)

text \<open>An accepted handle, subject token or id is made of the allowed ASCII characters alone: a separator of a routing key
  (\<^verbatim>\<open>.\<close>, \<^verbatim>\<open>*\<close>, \<^verbatim>\<open>>\<close>), a space or a byte outside ASCII never gets through.\<close>

lemma all_ascii:
  assumes "\<forall>r \<in> set (runes s). P r" "\<And>r. P r \<Longrightarrow> r < 0x80"
  shows "\<forall>c \<in> set s. P (byte c)"
proof -
  have "runes s = map byte s" using assms by (intro ascii_runes) blast
  then show ?thesis using assms(1) by simp
qed

lemma Handle_None: "Handle s = None \<Longrightarrow> 3 \<le> length s \<and> length s \<le> 32 \<and> (\<forall>c \<in> set s. is_lower (byte c) \<or> is_digit (byte c) \<or> c = CHR ''_'')"
proof -
  assume "Handle s = None"
  then have l: "3 \<le> length s" "length s \<le> 32" and r: "\<forall>r \<in> set (runes s). is_lower r \<or> is_digit r \<or> r = 95"
    by (auto simp: Handle_def list_ex_iff split: if_splits)
  have "\<forall>c \<in> set s. is_lower (byte c) \<or> is_digit (byte c) \<or> byte c = 95"
    by (rule all_ascii [OF r]) (auto simp: is_lower_def is_digit_def)
  moreover have "byte c = 95 \<Longrightarrow> c = CHR ''_''" for c
    by (rule of_char_eqI [where ?'a = nat]) (simp add: byte_def)
  ultimately show ?thesis using l by blast
qed

lemma SubjectToken_None:
  assumes "SubjectToken s = None"
  shows "s \<noteq> [] \<and> CHR ''.'' \<notin> set s \<and> CHR ''*'' \<notin> set s \<and> CHR ''>'' \<notin> set s \<and> CHR '' '' \<notin> set s"
proof -
  have n: "s \<noteq> []" and r: "\<forall>r \<in> set (runes s). is_lower r \<or> is_upper r \<or> is_digit r \<or> r = 95 \<or> r = 45"
    using assms by (auto simp: SubjectToken_def list_ex_iff split: if_splits)
  have "\<forall>c \<in> set s. is_lower (byte c) \<or> is_upper (byte c) \<or> is_digit (byte c) \<or> byte c = 95 \<or> byte c = 45"
    by (rule all_ascii [OF r]) (auto simp: is_lower_def is_digit_def is_upper_def)
  then show ?thesis using n by (force simp: is_lower_def is_digit_def is_upper_def byte_def)
qed

lemma Enum_None [simp]: "Enum s allowed = None \<longleftrightarrow> s \<in> set allowed"
  by (induction allowed) auto

end
