(* ===== verification/Accounts.thy ===== *)
theory Accounts
  imports AuthService Validate Livekit
begin

text \<open>
  The life of an account: profile and self-service (\<^verbatim>\<open>internal/auth/profile.go\<close>), adult verification and Terms of
  Service (\<^verbatim>\<open>internal/identity\<close>, \<^verbatim>\<open>internal/ekyc/vn.go\<close>), moderation (\<^verbatim>\<open>internal/moderation\<close>) and the operator's
  bootstrap (\<^verbatim>\<open>internal/admin\<close>).

  A verification vendor and its HMAC and JSON are parameters. A zero \<^verbatim>\<open>time.Time\<close> is \<open>None\<close>.
\<close>

section \<open>Profile and self-service\<close>

abbreviation ErrInvalidProfile :: error where "ErrInvalidProfile \<equiv> Err ''auth: invalid profile''"
abbreviation ErrNotVerified :: error where "ErrNotVerified \<equiv> Err ''auth: requires verified identity''"

definition auth_UpdateProfile :: "string \<Rightarrow> string \<Rightarrow> string \<Rightarrow> string \<Rightarrow> unit io" where
  "auth_UpdateProfile uid handle displayName bio =
     (if Handle handle \<noteq> None then fail ErrInvalidProfile
      else if BoundedText displayName 100 \<noteq> None then fail ErrInvalidProfile
      else if bio \<noteq> '''' \<and> BoundedText bio 500 \<noteq> None then fail ErrInvalidProfile
      else UpdateProfile uid handle displayName bio)"

definition auth_CloseAccount :: "string \<Rightarrow> unit io" where
  "auth_CloseAccount uid = CloseAccount uid"

definition LogoutEverywhere :: "string \<Rightarrow> unit io" where
  "LogoutEverywhere uid = RevokeAllSessions uid"

definition BecomeInstructor :: "Store \<Rightarrow> AccessTokenClaims \<Rightarrow> unit io" where
  "BecomeInstructor st claims =
     (if \<not> IsVerifiedAdult claims then fail ErrNotVerified
      else SetInstructorAudited st \<lparr>ai_ActorID = Subject claims, ai_ActorRole = AuditRoleSelf, ai_Action = ActionInstructorSelfGrant,
             ai_TargetType = ''user'', ai_TargetID = Subject claims, ai_Metadata = []\<rparr> True)"

section \<open>Adult verification\<close>

abbreviation ErrNoProvider :: error where "ErrNoProvider \<equiv> Err ''identity: no verifier for region''"
abbreviation ErrUnderage :: error where "ErrUnderage \<equiv> Err ''identity: subject is not an adult''"
abbreviation ErrNotApproved :: error where "ErrNotApproved \<equiv> Err ''identity: verification not approved''"

definition defaultRetention :: duration where
  "defaultRetention = seconds (24 * 30 * 24 * 60 * 60)"

record StartResult =
  sr_Provider :: string
  sr_Ref :: string
  sr_RedirectURL :: string

record Result =
  re_UserID :: string
  re_ProviderRef :: string
  re_Approved :: bool
  re_IsAdult :: bool
  re_RetainUntil :: "instant option"

text \<open>A verifier's \<^verbatim>\<open>Begin\<close> is a call to a vendor: a parameter that answers or fails.\<close>

type_synonym verifier = "string \<Rightarrow> StartResult res"

record IdentitySvc =
  is_providers :: "string \<rightharpoonup> verifier"

definition NewIdentityService :: "(string \<rightharpoonup> verifier) \<Rightarrow> IdentitySvc res" where
  "NewIdentityService providers =
     (case providers ''default'' of
        None \<Rightarrow> Inl (Err ''identity: a default provider is required'')
      | Some _ \<Rightarrow> Inr \<lparr>is_providers = providers\<rparr>)"

definition providerFor :: "IdentitySvc \<Rightarrow> string \<Rightarrow> verifier option" where
  "providerFor s region =
     (case is_providers s region of Some v \<Rightarrow> Some v | None \<Rightarrow> is_providers s ''default'')"

definition manual_Begin :: verifier where
  "manual_Begin uid = Inr \<lparr>sr_Provider = ''manual'', sr_Ref = ''manual:'' @ uid, sr_RedirectURL = ''''\<rparr>"

definition identity_Begin :: "IdentitySvc \<Rightarrow> string \<Rightarrow> string \<Rightarrow> StartResult io" where
  "identity_Begin s uid region =
     (case providerFor s region of
        None \<Rightarrow> fail ErrNoProvider
      | Some v \<Rightarrow>
          bind (CreateIdentityRecord uid) (\<lambda>_.
            case v uid of
              Inl err \<Rightarrow> fail err
            | Inr res \<Rightarrow> bind (SetIdentityVerificationPending uid) (\<lambda>_. ret res)))"

definition identity_Apply :: "Result \<Rightarrow> unit io" where
  "identity_Apply r =
     (if \<not> re_Approved r then fail ErrNotApproved
      else if \<not> re_IsAdult r then fail ErrUnderage
      else bind goNow (\<lambda>now.
        let retain = (case re_RetainUntil r of None \<Rightarrow> now + defaultRetention | Some t \<Rightarrow> t)
        in bind (VerifyAdultIdentity (re_UserID r) (re_ProviderRef r) retain) (\<lambda>_. ActivateUser (re_UserID r))))"

definition identity_AcceptToS :: "string \<Rightarrow> string \<Rightarrow> bool \<Rightarrow> unit io" where
  "identity_AcceptToS uid version adultAttested =
     (if version = '''' then fail (Err ''identity: tos version required'')
      else bind (AcceptToS uid version adultAttested) (\<lambda>_.
        if \<not> adultAttested then ret () else ActivateUser uid))"

section \<open>The vendor's callback\<close>

definition hex_val :: "char \<Rightarrow> nat option" where
  "hex_val c = (let n = byte c in
     if 48 \<le> n \<and> n \<le> 57 then Some (n - 48)
     else if 97 \<le> n \<and> n \<le> 102 then Some (n - 87)
     else if 65 \<le> n \<and> n \<le> 70 then Some (n - 55) else None)"

fun hex_decode :: "string \<Rightarrow> bytes option" where
  "hex_decode [] = Some []"
| "hex_decode [c] = None"
| "hex_decode (a # b # cs) =
     (case (hex_val a, hex_val b, hex_decode cs) of
        (Some x, Some y, Some rest) \<Rightarrow> Some (char_of (16 * x + y) # rest)
      | _ \<Rightarrow> None)"

record callback =
  cb_CorrelationID :: string
  cb_Reference :: string
  cb_Result :: string
  cb_Over18 :: bool

definition ParseCallback ::
  "(bytes \<Rightarrow> bytes \<Rightarrow> bytes) \<Rightarrow> (bytes \<Rightarrow> callback option) \<Rightarrow> bytes \<Rightarrow> bytes \<Rightarrow> string \<Rightarrow> Result res" where
  "ParseCallback hmac unmarshal secret body signatureHex =
     (case hex_decode signatureHex of
        None \<Rightarrow> Inl (Err ''ekyc: malformed signature'')
      | Some want \<Rightarrow>
          if hmac secret body \<noteq> want then Inl (Err ''ekyc: webhook signature mismatch'')
          else case unmarshal body of
                 None \<Rightarrow> Inl (Err ''ekyc: malformed callback body'')
               | Some c \<Rightarrow>
                   if cb_CorrelationID c = '''' then Inl (Err ''ekyc: callback missing correlation id'')
                   else Inr \<lparr>re_UserID = cb_CorrelationID c, re_ProviderRef = cb_Reference c,
                             re_Approved = (cb_Result c = ''approved''), re_IsAdult = cb_Over18 c, re_RetainUntil = None\<rparr>)"

section \<open>Moderation\<close>

abbreviation mod_ErrForbidden :: error where "mod_ErrForbidden \<equiv> Err ''moderation: requires platform_moderator''"
abbreviation ErrCannotReinstate :: error where
  "ErrCannotReinstate \<equiv> Err ''moderation: cannot reinstate (no verified-adult identity)''"

definition mod_input :: "AccessTokenClaims \<Rightarrow> string \<Rightarrow> string \<Rightarrow> AuditInput" where
  "mod_input claims act target = \<lparr>ai_ActorID = Subject claims, ai_ActorRole = AuditRoleModerator, ai_Action = act,
     ai_TargetType = ''user'', ai_TargetID = target, ai_Metadata = []\<rparr>"

definition Suspend :: "Store \<Rightarrow> AccessTokenClaims \<Rightarrow> string \<Rightarrow> unit io" where
  "Suspend st claims target =
     (if \<not> HasCapability claims CapPlatformModerator then fail mod_ErrForbidden
      else SuspendUserAudited st (mod_input claims ActionUserSuspended target))"

definition Reinstate :: "Store \<Rightarrow> AccessTokenClaims \<Rightarrow> string \<Rightarrow> unit io" where
  "Reinstate st claims target =
     (if \<not> HasCapability claims CapPlatformModerator then fail mod_ErrForbidden
      else attempt (ReinstateUserAudited st (mod_input claims ActionUserReinstated target)) (\<lambda>r.
        case r of Inl _ \<Rightarrow> fail ErrCannotReinstate | Inr _ \<Rightarrow> ret ()))"

definition mod_ListUsers :: "AccessTokenClaims \<Rightarrow> User list io" where
  "mod_ListUsers claims =
     (if \<not> HasCapability claims CapPlatformModerator then fail mod_ErrForbidden else ListUsers 0)"

definition SetInstructor :: "Store \<Rightarrow> AccessTokenClaims \<Rightarrow> string \<Rightarrow> bool \<Rightarrow> unit io" where
  "SetInstructor st claims target grant =
     (if \<not> HasCapability claims CapPlatformModerator then fail mod_ErrForbidden
      else SetInstructorAudited st
             (mod_input claims (if grant then ActionInstructorGranted else ActionInstructorRevoked) target) grant)"

section \<open>The operator's bootstrap\<close>

record BootstrapParams =
  bp_UserID :: string
  bp_Handle :: string
  bp_DisplayName :: string
  bp_ProviderRef :: string
  bp_RetainUntil :: "instant option"

definition Bootstrap :: "string \<Rightarrow> BootstrapParams \<Rightarrow> string io" where
  "Bootstrap newid p =
     (if bp_Handle p = '''' \<or> bp_DisplayName p = '''' then fail (Err ''admin: handle and display name are required'')
      else let uid = if bp_UserID p = '''' then newid else bp_UserID p in
        bind (UserExists uid) (\<lambda>ex.
        bind (if \<not> ex then bind (CreateUser uid (bp_Handle p) (bp_DisplayName p) '''' False) (\<lambda>_. ret ()) else ret ()) (\<lambda>_.
        bind (CreateIdentityRecord uid) (\<lambda>_.
        bind goNow (\<lambda>now.
        let retain = (case bp_RetainUntil p of None \<Rightarrow> now + defaultRetention | Some t \<Rightarrow> t);
            ref = if bp_ProviderRef p = '''' then ''operator-bootstrap'' else bp_ProviderRef p
        in bind (VerifyAdultIdentity uid ref retain) (\<lambda>_.
           bind (PromoteToModerator uid) (\<lambda>_.
           bind (ActivateUser uid) (\<lambda>_. ret uid))))))))"

section \<open>Adults only\<close>

text \<open>Every active account has a basis: a verified adult identity or an attestation of age. Accepting the terms again without the
  attestation takes it back and suspends nobody (\<open>retraction_keeps_active\<close>), so the rule that every operation keeps is weaker by that
  case: an active account without a basis has an acceptance of the terms on record that does not attest.\<close>

definition adult_basis :: "string \<Rightarrow> db \<Rightarrow> bool" where
  "adult_basis uid d \<longleftrightarrow> verified_adult uid d \<or> adult_attested uid d"

definition unattested :: "string \<Rightarrow> db \<Rightarrow> bool" where
  "unattested uid d \<longleftrightarrow> list_ex (\<lambda>t. ta_UserID t = uid \<and> \<not> ta_AdultAttested t) (tos_acceptances d)"

definition grounds :: "string \<Rightarrow> db \<Rightarrow> bool" where
  "grounds uid d \<longleftrightarrow> adult_basis uid d \<or> unattested uid d"

definition adult_inv :: "db \<Rightarrow> bool" where
  "adult_inv d \<longleftrightarrow> distinct (map iv_UserID (identity_vault d)) \<and> (\<forall>u \<in> set (users d). u_Status u = ''active'' \<longrightarrow> grounds (u_ID u) d)"

lemmas grounds_defs = grounds_def unattested_def adult_basis_def verified_adult_def adult_attested_def

lemma grounds_other [simp]:
  "grounds uid (d\<lparr>users := us\<rparr>) = grounds uid d" "grounds uid (d\<lparr>refresh_tokens := rt\<rparr>) = grounds uid d"
  "grounds uid (d\<lparr>audit_log := l\<rparr>) = grounds uid d" "grounds uid (d\<lparr>audit_log_seq := n\<rparr>) = grounds uid d"
  by (simp_all add: grounds_defs)

lemma adult_inv_other [simp]:
  "adult_inv (d\<lparr>refresh_tokens := rt\<rparr>) = adult_inv d" "adult_inv (d\<lparr>audit_log := l\<rparr>) = adult_inv d"
  "adult_inv (d\<lparr>audit_log_seq := n\<rparr>) = adult_inv d"
  by (simp_all add: adult_inv_def)

text \<open>An update of accounts that activates nobody, or only an account with a basis, is harmless.\<close>

lemma adult_inv_update_user:
  assumes "adult_inv d" "\<And>u. u_ID (f u) = u_ID u" "\<And>u. u_ID u = uid \<Longrightarrow> u_Status (f u) = ''active'' \<Longrightarrow> u_Status u = ''active'' \<or> grounds uid d"
  shows "adult_inv (update_user uid f d)"
  using assms by (auto simp: adult_inv_def update_user_def)

lemma stmt_adult_users:
  "stmt_keeps adult_inv (q_PromoteToModerator uid)" "stmt_keeps adult_inv (q_GrantInstructor uid)" "stmt_keeps adult_inv (q_RevokeInstructor uid)"
  "stmt_keeps adult_inv (q_SuspendUser uid)" "stmt_keeps adult_inv (q_CloseAccount uid)" "stmt_keeps adult_inv (q_BumpTokenVersion uid)"
  "stmt_keeps adult_inv (q_UpdateProfile uid h n b)"
  by (auto simp: stmt_keeps_def q_PromoteToModerator_def q_GrantInstructor_def q_RevokeInstructor_def q_SuspendUser_def q_CloseAccount_def
      q_BumpTokenVersion_def q_UpdateProfile_def intro!: adult_inv_update_user split: if_splits option.splits)

lemma stmt_adult_activate: "stmt_keeps adult_inv (q_ActivateUser uid)"
  unfolding stmt_keeps_def
proof (intro allI impI)
  fix now d x d'
  assume J: "adult_inv d" and s: "q_ActivateUser uid now d = Inr (x, d')"
  then have d': "d' = update_user uid (\<lambda>u. u\<lparr>u_Status := ''active''\<rparr>) d" and ok: "\<not> user_exists uid d \<or> grounds uid d"
    by (auto simp: q_ActivateUser_def grounds_def adult_basis_def split: if_splits)
  show "adult_inv d'"
  proof (cases "user_exists uid d")
    case True
    with ok J show ?thesis unfolding d' by (intro adult_inv_update_user) auto
  next
    case False
    then have "users d' = users d" unfolding d' update_user_def
      by (auto simp: user_exists_def list_ex_iff intro!: update_rows_id)
    then show ?thesis using J by (simp add: d' update_user_def)
  qed
qed

lemma stmt_adult_create:
  "stmt_keeps adult_inv (q_CreateUser uid h n l c)" "stmt_keeps adult_inv (q_UserExists uid)"
  by (auto simp: stmt_keeps_def q_CreateUser_def q_UserExists_def adult_inv_def Let_def split: if_splits)

lemma stmt_adult_vault: "stmt_keeps adult_inv (q_CreateIdentityRecord uid)"
  by (auto simp: stmt_keeps_def q_CreateIdentityRecord_def adult_inv_def grounds_defs list_ex_iff
      split: if_splits)

lemma stmt_adult_terms: "stmt_keeps adult_inv (q_AcceptToS uid version attested)"
  unfolding stmt_keeps_def
proof (intro allI impI)
  fix now d x d'
  assume J: "adult_inv d" and s: "q_AcceptToS uid version attested now d = Inr (x, d')"
  have "adult_attested u d' \<or> unattested u d'" if a: "adult_attested u d \<or> unattested u d" for u
  proof -
    obtain t where t: "t \<in> set (tos_acceptances d)" "ta_UserID t = u"
      using a by (auto simp: adult_attested_def unattested_def list_ex_iff)
    define t' where "t' = (if ta_UserID t = uid \<and> ta_TosVersion t = version then t\<lparr>ta_AdultAttested := attested, ta_AcceptedAt := now\<rparr> else t)"
    have "t \<in> set (tos_acceptances d') \<or> t' \<in> set (tos_acceptances d')"
      using s t by (auto simp: q_AcceptToS_def t'_def in_set_update_rows_if split: if_splits)
    moreover have "ta_UserID t' = u" using t by (simp add: t'_def)
    ultimately show ?thesis using t by (auto simp: adult_attested_def unattested_def list_ex_iff)
  qed
  moreover have "users d' = users d" "identity_vault d' = identity_vault d" using s by (auto simp: q_AcceptToS_def split: if_splits)
  ultimately show "adult_inv d'" using J by (auto simp: adult_inv_def grounds_def adult_basis_def verified_adult_def)
qed

text \<open>An update of the vault keeps the invariant by its trigger, whatever it writes.\<close>

lemma verified_adult_update:
  assumes "\<And>v. iv_UserID (f v) = iv_UserID v" "u \<noteq> uid"
  shows "verified_adult u (d\<lparr>identity_vault := update_rows (\<lambda>v. iv_UserID v = uid) f (identity_vault d)\<rparr>) = verified_adult u d"
proof -
  have "(iv_UserID (f q) = u \<and> P) = False" if "iv_UserID q = uid" for q P using assms that by simp
  then show ?thesis using assms by (auto simp: verified_adult_def list_ex_iff)
qed

lemma stmt_adult_identity:
  assumes f: "\<And>v. iv_UserID (f v) = iv_UserID v"
  shows "stmt_keeps adult_inv (update_identity uid f)"
  unfolding stmt_keeps_def
proof (intro allI impI)
  fix now d x d'
  assume J: "adult_inv d" and s: "update_identity uid f now d = Inr (x, d')"
  let ?d = "d\<lparr>identity_vault := update_rows (\<lambda>v. iv_UserID v = uid) f (identity_vault d)\<rparr>"
  show "adult_inv d'"
  proof (cases "List.find (\<lambda>v. iv_UserID v = uid) (identity_vault d)")
    case None
    then show ?thesis using J s by (simp add: update_identity_def)
  next
    case (Some v)
    then have v: "v \<in> set (identity_vault d)" "iv_UserID v = uid" by (auto dest: find_SomeD)
    have t: "downgrade_trigger (f v) ?d = Inr d'" using s Some by (auto simp: update_identity_def split: sum.splits)
    have ids: "map iv_UserID (identity_vault ?d) = map iv_UserID (identity_vault d)"
      by (simp add: update_rows_def f cong: map_cong)
    have others: "grounds u ?d = grounds u d" if "u \<noteq> uid" for u
      using verified_adult_update [of f u uid d] f that by (simp add: grounds_def unattested_def adult_basis_def adult_attested_def)
    have basis: "grounds u d' = grounds u ?d" "identity_vault d' = identity_vault ?d" for u
      using t by (auto simp: downgrade_trigger_def split: if_splits)
    have "grounds (u_ID u) d'" if u: "u \<in> set (users d')" "u_Status u = ''active''" for u
    proof (cases "u_ID u = uid")
      case False
      then have "u \<in> set (users d)" using t u v f by (auto simp: downgrade_trigger_def in_set_update_rows split: if_splits)
      then show ?thesis using J u(2) basis(1) others [OF False] by (simp add: adult_inv_def)
    next
      case True
      have "(iv_IsAdult (f v) \<and> iv_VerificationStatus (f v) = ''verified'') \<or> adult_attested uid ?d"
        using t u v f True by (auto simp: downgrade_trigger_def in_set_update_rows split: if_splits)
      moreover have "f v \<in> set (identity_vault ?d)" using v by (auto simp: in_set_update_rows)
      ultimately show ?thesis using f v True unfolding basis(1)
        by (auto simp: grounds_def adult_basis_def verified_adult_def adult_attested_def list_ex_iff)
    qed
    then show ?thesis using J basis(2) ids by (simp add: adult_inv_def)
  qed
qed

lemma stmt_adult_verification:
  "stmt_keeps adult_inv (q_SetIdentityVerificationPending uid)" "stmt_keeps adult_inv (q_RevokeIdentityVerification uid)"
  "stmt_keeps adult_inv (q_VerifyAdultIdentity uid r t)"
proof -
  show "stmt_keeps adult_inv (q_SetIdentityVerificationPending uid)" "stmt_keeps adult_inv (q_RevokeIdentityVerification uid)"
    unfolding q_SetIdentityVerificationPending_def q_RevokeIdentityVerification_def by (rule stmt_adult_identity; simp)+
  have "stmt_keeps adult_inv (update_identity uid (\<lambda>v. v\<lparr>iv_VerificationStatus := ''verified'', iv_IsAdult := True,
       iv_ProviderRef := r, iv_VerifiedAt := Some now, iv_RetainUntil := t\<rparr>))" for now
    by (rule stmt_adult_identity) simp
  then show "stmt_keeps adult_inv (q_VerifyAdultIdentity uid r t)"
    unfolding stmt_keeps_def q_VerifyAdultIdentity_def by blast
qed

lemma stmt_adult_audit:
  "stmt_keeps adult_inv (q_RevokeAllRefreshTokens uid)" "stmt_keeps adult_inv (q_audit_tail)" "stmt_keeps adult_inv (advisory_lock k)"
  "stmt_keeps adult_inv (q_insert_audit js e)"
  by (auto simp: stmt_keeps_def q_RevokeAllRefreshTokens_def q_audit_tail_def advisory_lock_def q_insert_audit_def split: option.splits if_splits dest!: row_InrD)

lemma tx_safe_adult: "tx_safe adult_inv"
  by (simp add: tx_safe_def rolled_back_def adult_inv_def grounds_defs)

lemmas adult_rules = keeps_rules stmt_adult_users stmt_adult_activate stmt_adult_create stmt_adult_vault stmt_adult_terms
  stmt_adult_verification stmt_adult_audit

lemma keeps_adult_append: "keeps adult_inv (appendAuditTx st inp)"
  unfolding appendAuditTx_def sign_and_insert_def Let_def by (intro adult_rules)

lemma keeps_adult_inAuditTx: "keeps adult_inv m \<Longrightarrow> keeps adult_inv (inAuditTx st inp m)"
  unfolding inAuditTx_def by (intro adult_rules keeps_in_tx tx_safe_adult keeps_adult_append)

lemma keeps_adult_audited:
  "keeps adult_inv (SuspendUserAudited st inp)" "keeps adult_inv (ReinstateUserAudited st inp)" "keeps adult_inv (SetInstructorAudited st inp g)"
  unfolding SuspendUserAudited_def ReinstateUserAudited_def SetInstructorAudited_def
  by (intro keeps_adult_inAuditTx adult_rules)+

text \<open>Adults only. No operation on accounts makes or leaves an account active without a verified adult identity, an
  attestation of age or an acceptance on record that does not attest: not the verification flow, not the acceptance of the terms, not
  moderation nor the operator's bootstrap, whatever vendor, faults or order; a verification that is withdrawn
  suspends the account it was the basis of.\<close>
lemma adult_inv_preserved:
  "keeps adult_inv (identity_Begin s uid region) \<and> keeps adult_inv (identity_Apply r) \<and> keeps adult_inv (identity_AcceptToS uid version attested)
   \<and> keeps adult_inv (RevokeIdentityVerification uid) \<and> keeps adult_inv (Suspend st claims target) \<and> keeps adult_inv (Reinstate st claims target)
   \<and> keeps adult_inv (SetInstructor st claims target grant) \<and> keeps adult_inv (BecomeInstructor st claims)
   \<and> keeps adult_inv (auth_UpdateProfile uid handle name bio) \<and> keeps adult_inv (auth_CloseAccount uid)
   \<and> keeps adult_inv (LogoutEverywhere uid) \<and> keeps adult_inv (Bootstrap newid p)"
proof (intro conjI)
  show "keeps adult_inv (identity_Begin s uid region)"
    unfolding identity_Begin_def CreateIdentityRecord_def SetIdentityVerificationPending_def by (intro adult_rules)
  show "keeps adult_inv (identity_Apply r)"
    unfolding identity_Apply_def VerifyAdultIdentity_def ActivateUser_def Let_def by (intro adult_rules)
  show "keeps adult_inv (identity_AcceptToS uid version attested)"
    unfolding identity_AcceptToS_def AcceptToS_def ActivateUser_def by (intro adult_rules)
  show "keeps adult_inv (RevokeIdentityVerification uid)" unfolding RevokeIdentityVerification_def by (intro adult_rules)
  show "keeps adult_inv (Suspend st claims target)" unfolding Suspend_def by (intro adult_rules keeps_adult_audited)
  show "keeps adult_inv (Reinstate st claims target)" unfolding Reinstate_def by (intro adult_rules keeps_adult_audited)
  show "keeps adult_inv (SetInstructor st claims target grant)" unfolding SetInstructor_def by (intro adult_rules keeps_adult_audited)
  show "keeps adult_inv (BecomeInstructor st claims)" unfolding BecomeInstructor_def by (intro adult_rules keeps_adult_audited)
  show "keeps adult_inv (auth_UpdateProfile uid handle name bio)"
    unfolding auth_UpdateProfile_def UpdateProfile_def by (auto intro!: adult_rules split: error.split)
  show "keeps adult_inv (auth_CloseAccount uid)" unfolding auth_CloseAccount_def CloseAccount_def by (intro adult_rules)
  show "keeps adult_inv (LogoutEverywhere uid)" unfolding LogoutEverywhere_def RevokeAllSessions_def by (intro adult_rules)
  show "keeps adult_inv (Bootstrap newid p)"
    unfolding Bootstrap_def UserExists_def CreateUser_def CreateIdentityRecord_def VerifyAdultIdentity_def PromoteToModerator_def ActivateUser_def Let_def
    by (intro adult_rules)
qed

text \<open>The exception the code leaves: accepting the same version again without the attestation takes it back, and no trigger
  looks at that table, so an account whose only basis it was stays active.\<close>

lemma retraction_keeps_active:
  assumes "calm w" "version \<noteq> ''''" "u \<in> set (users (w_db w))" "u_ID u = uid" "u_Status u = ''active''"
    and "\<not> verified_adult uid (w_db w)" "adult_attested uid (w_db w)"
    and "\<forall>t \<in> set (tos_acceptances (w_db w)). ta_UserID t = uid \<longrightarrow> ta_TosVersion t = version"
  shows "\<exists>w'. identity_AcceptToS uid version False w = (Inr (), w') \<and> u \<in> set (users (w_db w')) \<and> \<not> adult_basis uid (w_db w')"
proof -
  let ?d = "(w_db w)\<lparr>tos_acceptances := update_rows (\<lambda>t. ta_UserID t = uid \<and> ta_TosVersion t = version)
     (\<lambda>t. t\<lparr>ta_AdultAttested := False, ta_AcceptedAt := w_pgnow w\<rparr>) (tos_acceptances (w_db w))\<rparr>"
  have "list_ex (\<lambda>t. ta_UserID t = uid \<and> ta_TosVersion t = version) (tos_acceptances (w_db w))"
    using assms(7,8) by (auto simp: adult_attested_def list_ex_iff)
  then have "identity_AcceptToS uid version False w = (Inr (), w\<lparr>w_db := ?d\<rparr>)"
    using assms(1,2) by (simp add: identity_AcceptToS_def AcceptToS_def q_AcceptToS_def io_defs)
  moreover have "\<not> adult_basis uid ?d"
    using assms(6,8) by (auto simp: adult_basis_def verified_adult_def adult_attested_def list_ex_iff in_set_update_rows)
  ultimately show ?thesis using assms(3) by auto
qed

text \<open>The callback of the verification vendor is believed only with the keyed hash of its body, and only the facts it
  signs reach the account: an approval of a minor, or anything but an approval, activates nobody.\<close>

lemma ParseCallback_authentic:
  "ParseCallback hmac unmarshal secret body sig = Inr r \<Longrightarrow> hex_decode sig = Some (hmac secret body)
     \<and> (\<exists>c. unmarshal body = Some c \<and> re_UserID r = cb_CorrelationID c \<and> re_UserID r \<noteq> '''' \<and> re_Approved r = (cb_Result c = ''approved'')
          \<and> re_IsAdult r = cb_Over18 c)"
  by (auto simp: ParseCallback_def split: option.splits if_splits)

lemma identity_Apply_refuses: "\<not> re_Approved r \<or> \<not> re_IsAdult r \<Longrightarrow> \<exists>e. identity_Apply r w = (Inl e, w)"
  by (auto simp: identity_Apply_def fail_def)

end
