(* ===== verification/Classes.thy ===== *)
theory Classes
  imports Entitlements Livekit
begin

text \<open>
  Classes and enrollment (\<^verbatim>\<open>internal/class/class.go\<close>, \<^verbatim>\<open>enrollment.go\<close>). The entitlement gate is the entitlement
  service of this development, wired or not. The class id is an argument; \<^verbatim>\<open>len\<close> of a title is its bytes.
\<close>

section \<open>The service\<close>

abbreviation class_ErrForbidden :: error where "class_ErrForbidden \<equiv> Err ''class: forbidden for this tier or capability''"
abbreviation class_ErrNotFound :: error where "class_ErrNotFound \<equiv> Err ''class: not found''"
abbreviation ErrBadTitle :: error where "ErrBadTitle \<equiv> Err ''class: title is required''"
abbreviation ErrBadStatus :: error where "ErrBadStatus \<equiv> Err ''class: invalid status transition''"
abbreviation ErrBadCapacity :: error where "ErrBadCapacity \<equiv> Err ''class: capacity must be >= 0''"
abbreviation ErrClassFull :: error where "ErrClassFull \<equiv> Err ''class: enrollment is at capacity''"
abbreviation enroll_ErrClassNotFound :: error where "enroll_ErrClassNotFound \<equiv> Err ''class: not found for enrollment''"

definition maxTitleLen :: nat where "maxTitleLen = 200"

definition validStatuses :: "string set" where "validStatuses = {''draft'', ''published'', ''archived''}"

record ClassSvc =
  cs_entitlements :: bool

definition class_Create :: "string \<Rightarrow> AccessTokenClaims \<Rightarrow> string \<Rightarrow> string \<Rightarrow> Class io" where
  "class_Create newid claims title description =
     (if \<not> MeetsPhoneVerification claims \<or> \<not> HasCapability claims CapCanInstruct then fail class_ErrForbidden
      else let title = trim_space title in
        if title = '''' \<or> length title > maxTitleLen then fail ErrBadTitle
        else store_CreateClass newid (Subject claims) title description)"

definition ListMine :: "AccessTokenClaims \<Rightarrow> Class list io" where
  "ListMine claims = ListClassesByInstructor (Subject claims)"

definition ListPublished :: "Class list io" where
  "ListPublished = ListPublishedClasses"

definition requireOwner :: "string \<Rightarrow> string \<Rightarrow> unit io" where
  "requireOwner uid cid =
     attempt (GetClass cid) (\<lambda>r. case r of
       Inl _ \<Rightarrow> fail class_ErrNotFound
     | Inr c \<Rightarrow> if c_InstructorID c \<noteq> uid then fail class_ErrForbidden else ret ())"

definition SetStatus :: "AccessTokenClaims \<Rightarrow> string \<Rightarrow> string \<Rightarrow> unit io" where
  "SetStatus claims cid status =
     (if status \<notin> validStatuses then fail ErrBadStatus
      else bind (requireOwner (Subject claims) cid) (\<lambda>_. UpdateClassStatus cid status))"

definition SetCapacity :: "AccessTokenClaims \<Rightarrow> string \<Rightarrow> int \<Rightarrow> unit io" where
  "SetCapacity claims cid capacity =
     (if capacity < 0 then fail ErrBadCapacity
      else bind (requireOwner (Subject claims) cid) (\<lambda>_. SetClassCapacity cid capacity))"

section \<open>Enrollment\<close>

definition capacity_gate :: "string \<Rightarrow> string \<Rightarrow> unit io" where
  "capacity_gate cid uid =
     bind (ClassCapacity cid) (\<lambda>(capacity, ok).
       if ok \<and> capacity > 0 then
         bind (IsEnrolled cid uid) (\<lambda>already.
           if \<not> already then
             bind (CountClassMembers cid) (\<lambda>n. if n \<ge> capacity then fail ErrClassFull else ret ())
           else ret ())
       else ret ())"

definition Enroll :: "ClassSvc \<Rightarrow> AccessTokenClaims \<Rightarrow> string \<Rightarrow> unit io" where
  "Enroll s claims cid =
     (if \<not> MeetsAdultDeclaration claims then fail class_ErrForbidden
      else attempt (GetClass cid) (\<lambda>r. case r of
        Inl _ \<Rightarrow> fail enroll_ErrClassNotFound
      | Inr c \<Rightarrow>
          if c_Status c \<noteq> ''published'' then fail enroll_ErrClassNotFound
          else bind (if cs_entitlements s then EnsureClassAccess (Subject claims) cid else ret ()) (\<lambda>_.
               bind (capacity_gate cid (Subject claims)) (\<lambda>_.
               EnrollClass cid (Subject claims)))))"

definition Unenroll :: "AccessTokenClaims \<Rightarrow> string \<Rightarrow> unit io" where
  "Unenroll claims cid = UnenrollClass cid (Subject claims)"

definition ListEnrolled :: "AccessTokenClaims \<Rightarrow> Class list io" where
  "ListEnrolled claims = EnrolledClassesWithDetails (Subject claims)"

definition EnrolledIDs :: "AccessTokenClaims \<Rightarrow> string list io" where
  "EnrolledIDs claims = EnrolledClassIDs (Subject claims)"

section \<open>Who gets on a roster\<close>

definition class_full :: "string \<Rightarrow> string \<Rightarrow> db \<Rightarrow> bool" where
  "class_full cid uid d = (case first_row (\<lambda>c. c_ID c = cid) (classes d) of
     None \<Rightarrow> False
   | Some c \<Rightarrow> c_Capacity c > 0 \<and> \<not> is_enrolled cid uid d \<and> int (length (roster cid d)) \<ge> c_Capacity c)"

lemma answers_capacity_gate:
  "answers (capacity_gate cid uid) (\<lambda>now d. if class_full cid uid d then Inl ErrClassFull else Inr ())"
proof -
  have cap: "answers (ClassCapacity cid) (\<lambda>now d. Inr (case first_row (\<lambda>c. c_ID c = cid) (classes d) of
      None \<Rightarrow> (0, False) | Some c \<Rightarrow> (c_Capacity c, True)))"
    unfolding ClassCapacity_def by (rule answers_pg) (auto split: option.split)
  have enr: "answers (IsEnrolled cid uid) (\<lambda>now d. Inr (is_enrolled cid uid d))"
    unfolding IsEnrolled_def by (rule answers_pg) simp
  have cnt: "answers (CountClassMembers cid) (\<lambda>now d. Inr (int (length (roster cid d))))"
    unfolding CountClassMembers_def by (rule answers_pg) simp
  have "answers (capacity_gate cid uid) (\<lambda>now d.
      case Inr (case first_row (\<lambda>c. c_ID c = cid) (classes d) of None \<Rightarrow> (0, False) | Some c \<Rightarrow> (c_Capacity c, True)) of
        Inl e \<Rightarrow> Inl e
      | Inr x \<Rightarrow> (if snd x \<and> fst x > 0 then (\<lambda>now d. case Inr (is_enrolled cid uid d) of Inl e \<Rightarrow> Inl e
            | Inr already \<Rightarrow> (if \<not> already then (\<lambda>now d. case Inr (int (length (roster cid d))) of Inl e \<Rightarrow> Inl e
                | Inr n \<Rightarrow> (if n \<ge> fst x then (\<lambda>_ _. Inl ErrClassFull) else (\<lambda>_ _. Inr ())) now d)
              else (\<lambda>_ _. Inr ())) now d)
          else (\<lambda>_ _. Inr ())) now d)"
    unfolding capacity_gate_def
    by (rule answers_bind [OF cap], unfold split_beta) (intro answers_if answers_pure answers_bind [OF enr] answers_bind [OF cnt])
  then show ?thesis
    by (rule back_subst [where P = "answers _"]) (auto simp: class_full_def fun_eq_iff split: option.split)
qed

lemma EnrollClassD:
  assumes "EnrollClass cid uid w = (Inr (), w')"
  shows "w_db w' = (if is_enrolled cid uid (w_db w) then w_db w
     else (w_db w)\<lparr>class_members := class_members (w_db w) @ [\<lparr>cm_ClassID = cid, cm_UserID = uid, cm_EnrolledAt = w_pgnow w\<rparr>]\<rparr>)"
  using pg_runD(1) [OF assms [unfolded EnrollClass_def]] by (auto simp: is_enrolled_def split: if_splits dest: sym)

text \<open>C36: who gets on a roster. Enrollment succeeds only for a caller who declared to be an adult, in a published class that
  is free or owned by the caller when the entitlement gate is wired; the caller is then on the roster, which changes
  by that one entry or, for a member, not at all; and a class with a cap never has more members after an
  enrollment that adds one than the cap allows.\<close>
theorem Enroll_admits:
  assumes "Enroll s claims cid w = (Inr (), w')"
  shows "MeetsAdultDeclaration claims \<and> (\<exists>c. first_row (\<lambda>c. c_ID c = cid) (classes (w_db w)) = Some c \<and> c_Status c = ''published''
    \<and> (cs_entitlements s \<longrightarrow> c_PriceCents c = 0 \<or> owns_class (Subject claims) cid (w_pgnow w) (w_db w))
    \<and> is_enrolled cid (Subject claims) (w_db w')
    \<and> (if is_enrolled cid (Subject claims) (w_db w) then w_db w' = w_db w
       else roster cid (w_db w') = roster cid (w_db w) @ [\<lparr>cm_ClassID = cid, cm_UserID = Subject claims, cm_EnrolledAt = w_pgnow w\<rparr>]
         \<and> (c_Capacity c > 0 \<longrightarrow> int (length (roster cid (w_db w'))) \<le> c_Capacity c)))"
proof -
  let ?u = "Subject claims"
  obtain r w1 where g: "GetClass cid w = (r, w1)" by force
  from assms g obtain c where m: "MeetsAdultDeclaration claims" and r: "r = Inr c" and pub: "c_Status c = ''published''"
    and k: "bind (if cs_entitlements s then EnsureClassAccess ?u cid else ret ()) (\<lambda>_.
        bind (capacity_gate cid ?u) (\<lambda>_. EnrollClass cid ?u)) w1 = (Inr (), w')"
    by (cases r) (auto simp: Enroll_def attempt_def fail_def split: if_splits)
  note g1 = pg_runD [OF g [unfolded r GetClass_def q_GetClass_def [abs_def]]]
  have c: "first_row (\<lambda>c. c_ID c = cid) (classes (w_db w)) = Some c" and w1: "w_db w1 = w_db w"
    using row_InrD [OF g1(1)] by simp_all
  from k obtain w2 w3 where a: "(if cs_entitlements s then EnsureClassAccess ?u cid else ret ()) w1 = (Inr (), w2)"
    and q: "capacity_gate cid ?u w2 = (Inr (), w3)" and e: "EnrollClass cid ?u w3 = (Inr (), w')"
    by (auto elim!: bind_InrD)
  have a2: "w_db w2 = w_db w1 \<and> same_clock w1 w2 \<and> (cs_entitlements s \<longrightarrow> class_access ?u cid (w_pgnow w1) (w_db w1) = Inr ())"
  proof (cases "cs_entitlements s")
    case True
    then have "EnsureClassAccess ?u cid w1 = (Inr (), w2)" using a by simp
    from answersD [OF answers_EnsureClassAccess this] show ?thesis by auto
  next
    case False
    then show ?thesis using a by simp
  qed
  note q1 = answersD [OF answers_capacity_gate q]
  have full: "\<not> class_full cid ?u (w_db w)" using q1(4) a2 w1 by (auto split: if_splits)
  have db: "w_db w3 = w_db w" and now: "w_pgnow w3 = w_pgnow w" using q1(1,2) a2 w1 g1(2) by (simp_all add: same_clock_def)
  note en = EnrollClassD [OF e, unfolded db now]
  have "cs_entitlements s \<longrightarrow> c_PriceCents c = 0 \<or> owns_class ?u cid (w_pgnow w) (w_db w)"
    using a2 w1 c g1(2) by (auto simp: class_access_def split: if_splits)
  moreover have "is_enrolled cid ?u (w_db w')" using en by (auto simp: is_enrolled_def)
  moreover have "if is_enrolled cid ?u (w_db w) then w_db w' = w_db w
       else roster cid (w_db w') = roster cid (w_db w) @ [\<lparr>cm_ClassID = cid, cm_UserID = ?u, cm_EnrolledAt = w_pgnow w\<rparr>]
         \<and> (c_Capacity c > 0 \<longrightarrow> int (length (roster cid (w_db w'))) \<le> c_Capacity c)"
    using en full c by (auto simp: roster_def class_full_def)
  ultimately show ?thesis using m c pub by blast
qed

theorem Enroll_admits_witness:
  "let w = demo_world (empty_db\<lparr>users := [demo_user ''u1''], classes := [demo_class\<lparr>c_Status := ''published'', c_Capacity := 1\<rparr>]\<rparr>);
       claims = \<lparr>Issuer = '''', Subject = ''u1'', IssuedAt = 0, ExpiresAt = 0, TokenID = '''', ClaimSchema = 1, TokenVersion = 1,
          IdentityVerification = IdentityDeclared, Capabilities = []\<rparr>;
       (r, w') = Enroll \<lparr>cs_entitlements = True\<rparr> claims ''c1'' w
   in r = Inr () \<and> int (length (roster ''c1'' (w_db w'))) \<le> 1"
proof -
  define w where "w = demo_world (empty_db\<lparr>users := [demo_user ''u1''], classes := [demo_class\<lparr>c_Status := ''published'', c_Capacity := 1\<rparr>]\<rparr>)"
  define claims :: AccessTokenClaims where "claims = \<lparr>Issuer = '''', Subject = ''u1'', IssuedAt = 0, ExpiresAt = 0, TokenID = '''', ClaimSchema = 1, TokenVersion = 1,
          IdentityVerification = IdentityDeclared, Capabilities = []\<rparr>"
  define w' where "w' = snd (Enroll \<lparr>cs_entitlements = True\<rparr> claims ''c1'' w)"
  have run: "Enroll \<lparr>cs_entitlements = True\<rparr> claims ''c1'' w = (Inr (), w')"
    by (simp add: w'_def w_def claims_def Enroll_def MeetsAdultDeclaration_def GetClass_def q_GetClass_def demo_world_def demo_class_def empty_db_def calm_def io_defs
        EnsureClassAccess_def ClassPriceCents_def capacity_gate_def ClassCapacity_def IsEnrolled_def is_enrolled_def CountClassMembers_def roster_def
        EnrollClass_def user_exists_def demo_user_def)
  have "\<not> is_enrolled ''c1'' (Subject claims) (w_db w)" "first_row (\<lambda>c. c_ID c = ''c1'') (classes (w_db w)) = Some (demo_class\<lparr>c_Status := ''published'', c_Capacity := 1\<rparr>)"
    by (simp_all add: w_def demo_world_def empty_db_def is_enrolled_def demo_class_def)
  moreover have "roster ''c1'' (w_db w) = []" by (simp add: w_def demo_world_def empty_db_def roster_def)
  ultimately have "int (length (roster ''c1'' (w_db w'))) \<le> 1" using Enroll_admits [OF run] by simp
  with run show ?thesis by (simp add: w_def claims_def Let_def)
qed

end
