(* ===== verification/Merkle.thy ===== *)
theory Merkle
  imports Prelude "HOL-Library.Word"
begin

text \<open>
  \<^verbatim>\<open>pkg/merkle/merkle.go\<close>: the RFC 6962 tree hash, inclusion proofs and their verification.
  SHA-256 is the parameter \<open>H\<close>; where its output length matters it is a hypothesis
  (\<open>length (H x) = 32\<close>). Collision resistance is stated as injectivity of \<open>H\<close> on the finite
  set of byte strings that the computations in question actually hash (\<open>root_inputs\<close>,
  \<open>proof_inputs\<close>), never on all byte strings.

  The split loop is modelled twice: on 64-bit words as the machine runs it
  (\<open>largestPow2LessThan64\<close>, which may diverge) and on natural numbers
  (\<open>largestPow2LessThan\<close>), with a theorem relating the two.
\<close>

section \<open>Hashes\<close>

type_synonym hash = "bytes \<Rightarrow> bytes"

definition leafHash :: "hash \<Rightarrow> bytes \<Rightarrow> bytes" where
  "leafHash H data = H (CHR 0x00 # data)"

definition nodeHash :: "hash \<Rightarrow> bytes \<Rightarrow> bytes \<Rightarrow> bytes" where
  "nodeHash H left right = H (CHR 0x01 # left @ right)"

section \<open>The split point\<close>

text \<open>The loop \<^verbatim>\<open>for k<<1 < n { k <<= 1 }\<close> on Go's 64-bit \<^verbatim>\<open>int\<close>: the shift wraps, the
  comparison is signed. Not returning is \<^term>\<open>None\<close>.\<close>

partial_function (option) lp2_loop64 :: "64 word \<Rightarrow> 64 word \<Rightarrow> 64 word option" where
  "lp2_loop64 n k =
     (if sint (push_bit 1 k) < sint n then lp2_loop64 n (push_bit 1 k) else Some k)"

definition largestPow2LessThan64 :: "64 word \<Rightarrow> 64 word option" where
  "largestPow2LessThan64 n = lp2_loop64 n 1"

function lp2_loop :: "nat \<Rightarrow> nat \<Rightarrow> nat" where
  "lp2_loop n k = (if 0 < k \<and> 2 * k < n then lp2_loop n (2 * k) else k)"
  by pat_completeness auto
termination
  by (relation "measure (\<lambda>(n, k). n - k)") auto

declare lp2_loop.simps [simp del]

definition largestPow2LessThan :: "nat \<Rightarrow> nat" where
  "largestPow2LessThan n = lp2_loop n 1"

lemma lp2_loop_bounds:
  "0 < k \<Longrightarrow> k < n \<Longrightarrow> k \<le> lp2_loop n k \<and> lp2_loop n k < n \<and> n \<le> 2 * lp2_loop n k"
proof (induction n k rule: lp2_loop.induct)
  case (1 n k)
  show ?case
  proof (cases "2 * k < n")
    case True
    with 1 show ?thesis by (simp add: lp2_loop.simps [of n k])
  next
    case False
    with 1 show ?thesis by (simp add: lp2_loop.simps [of n k])
  qed
qed

lemma lp2_loop_pow2: "\<exists>i. lp2_loop n (2 ^ j) = 2 ^ i"
proof (induction "n - 2 ^ j" arbitrary: j rule: less_induct)
  case less
  show ?case
  proof (cases "2 * 2 ^ j < n")
    case True
    have "(2::nat) ^ j < 2 * 2 ^ j" by simp
    with True have smaller: "n - 2 ^ Suc j < n - 2 ^ j"
      by (simp only: power_Suc)
    from less [OF smaller] show ?thesis
      using True by (simp add: lp2_loop.simps [of n "2 ^ j"])
  next
    case False
    then show ?thesis by (auto simp: lp2_loop.simps [of n "2 ^ j"])
  qed
qed

lemma largestPow2LessThan_bounds:
  assumes "2 \<le> n"
  shows "0 < largestPow2LessThan n" and "largestPow2LessThan n < n"
    and "n \<le> 2 * largestPow2LessThan n"
  using lp2_loop_bounds [of 1 n] assms by (simp_all add: largestPow2LessThan_def)

lemma largestPow2LessThan_pow2: "\<exists>i. largestPow2LessThan n = 2 ^ i"
  using lp2_loop_pow2 [of n 0] by (simp add: largestPow2LessThan_def)

lemmas lp2_bounds = largestPow2LessThan_bounds

lemma split_shrinks:
  assumes "d \<noteq> []" and "length d \<noteq> Suc 0"
  shows "min (length d) (largestPow2LessThan (length d)) < length d"
    and "length d - largestPow2LessThan (length d) < length d"
proof -
  have "2 \<le> length d"
    using assms by (cases d) (auto simp: Suc_le_eq)
  from lp2_bounds [OF this]
  show "min (length d) (largestPow2LessThan (length d)) < length d"
    and "length d - largestPow2LessThan (length d) < length d" by auto
qed

lemma split_shrinks':
  assumes "\<not> length d \<le> Suc 0"
  shows "min (length d) (largestPow2LessThan (length d)) < length d"
    and "length d - largestPow2LessThan (length d) < length d"
  using split_shrinks [of d] assms by (cases d; auto)+

section \<open>Tree hash, proofs, verification\<close>

function Root :: "hash \<Rightarrow> bytes list \<Rightarrow> bytes" where
  "Root H leaves =
     (if length leaves = 0 then H []
      else if length leaves = 1 then leafHash H (leaves ! 0)
      else let k = largestPow2LessThan (length leaves)
           in nodeHash H (Root H (take k leaves)) (Root H (drop k leaves)))"
  by pat_completeness auto
termination
  by (relation "measure (\<lambda>(H, leaves). length leaves)") (auto simp: split_shrinks)

text \<open>\<^verbatim>\<open>path\<close> is reached only through \<^verbatim>\<open>Proof\<close>, whose range check excludes an empty slice (on
  which the Go code would panic); the model returns the empty path there.\<close>

function path :: "hash \<Rightarrow> nat \<Rightarrow> bytes list \<Rightarrow> bytes list" where
  "path H m d =
     (if length d \<le> 1 then []
      else let k = largestPow2LessThan (length d)
           in if m < k then path H m (take k d) @ [Root H (drop k d)]
              else path H (m - k) (drop k d) @ [Root H (take k d)])"
  by pat_completeness auto
termination
  by (relation "measure (\<lambda>(H, m, d). length d)") (auto simp: split_shrinks')

declare Root.simps [simp del] path.simps [simp del]

datatype merkle_error = ErrIndexOutOfRange

definition Proof :: "hash \<Rightarrow> bytes list \<Rightarrow> int \<Rightarrow> merkle_error + bytes list" where
  "Proof H leaves m =
     (if m < 0 \<or> m \<ge> int (length leaves) then Inl ErrIndexOutOfRange
      else Inr (path H (nat m) leaves))"

function rootFromProof :: "hash \<Rightarrow> bytes \<Rightarrow> nat \<Rightarrow> nat \<Rightarrow> bytes list \<Rightarrow> bytes option" where
  "rootFromProof H leafH m n pf =
     (if n = 1 then (if length pf \<noteq> 0 then None else Some leafH)
      else if length pf = 0 then None
      else let sib = last pf; rest = butlast pf; k = largestPow2LessThan n
           in if m < k then
                (case rootFromProof H leafH m k rest of
                   None \<Rightarrow> None | Some left \<Rightarrow> Some (nodeHash H left sib))
              else
                (case rootFromProof H leafH (m - k) (n - k) rest of
                   None \<Rightarrow> None | Some right \<Rightarrow> Some (nodeHash H sib right)))"
  by pat_completeness auto
termination
  by (relation "measure (\<lambda>(H, leafH, m, n, pf). length pf)") auto

declare rootFromProof.simps [simp del]

definition VerifyProof :: "hash \<Rightarrow> bytes \<Rightarrow> int \<Rightarrow> int \<Rightarrow> bytes list \<Rightarrow> bytes \<Rightarrow> bool" where
  "VerifyProof H leaf m n pf root =
     (if m < 0 \<or> m \<ge> n then False
      else case rootFromProof H (leafHash H leaf) (nat m) (nat n) pf of
             None \<Rightarrow> False
           | Some got \<Rightarrow> got = root)"


section \<open>The split loop on 64-bit integers\<close>

lemma sint_of_nat64: "m < 2 ^ 63 \<Longrightarrow> sint (word_of_nat m :: 64 word) = int m"
  by (simp add: signed_of_nat signed_take_bit_int_eq_self)

lemma push_bit_1_of_nat: "push_bit 1 (word_of_nat k :: 64 word) = word_of_nat (2 * k)"
  by (simp add: push_bit_eq_mult ac_simps)

lemma push_bit_pow64:
  "j \<le> 63 \<Longrightarrow> push_bit 1 (2 ^ j :: 64 word) = 0 \<or> (\<exists>i \<le> 63. push_bit 1 (2 ^ j :: 64 word) = 2 ^ i)"
proof (cases "j = 63")
  case True
  then show ?thesis by simp
next
  case False
  assume "j \<le> 63"
  then have "Suc j \<le> 63" and "push_bit 1 (2 ^ j :: 64 word) = 2 ^ Suc j"
    using False by (auto simp: push_bit_eq_mult)
  then show ?thesis by blast
qed

lemma sint_pow64_le: "j \<le> 63 \<Longrightarrow> sint (2 ^ j :: 64 word) \<le> 2 ^ 62"
proof (cases "j = 63")
  case True
  then show ?thesis by simp
next
  case False
  assume "j \<le> 63"
  then have "(2::int) ^ j \<le> 2 ^ 62" and "(2::nat) ^ j < 2 ^ 63"
    using False by (auto intro: power_increasing simp del: power_numeral)
  then show ?thesis using sint_of_nat64 [of "2 ^ j"] by (simp add: of_nat_power)
qed

lemma lp2_loop64_eq:
  "0 < k \<Longrightarrow> k < 2 ^ 62 \<Longrightarrow> n \<le> 2 ^ 62 \<Longrightarrow>
     lp2_loop64 (word_of_nat n) (word_of_nat k) = Some (word_of_nat (lp2_loop n k))"
proof (induction n k rule: lp2_loop.induct)
  case (1 n k)
  have n: "sint (word_of_nat n :: 64 word) = int n"
    using 1 by (intro sint_of_nat64) simp
  have k: "sint (push_bit 1 (word_of_nat k) :: 64 word) = int (2 * k)"
    unfolding push_bit_1_of_nat using 1 by (intro sint_of_nat64) simp
  show ?case
  proof (cases "2 * k < n")
    case True
    then have "lp2_loop64 (word_of_nat n) (word_of_nat (2 * k)) = Some (word_of_nat (lp2_loop n (2 * k)))"
      using 1 by simp
    then show ?thesis
      using True 1 n k
      by (subst lp2_loop64.simps) (simp add: lp2_loop.simps [of n k] push_bit_1_of_nat mult.commute)
  next
    case False
    then show ?thesis
      using n k by (subst lp2_loop64.simps) (simp add: lp2_loop.simps [of n k])
  qed
qed


text \<open>Above \<open>2 ^ 62\<close> the doubled value wraps to a negative number and then to zero: the loop
  started at a power of two never returns.\<close>

lemma pow64_step:
  assumes "2 ^ 62 < sint n" and "k = 0 \<or> (\<exists>j \<le> 63. k = (2 ^ j :: 64 word))"
  shows "sint (push_bit 1 k) < sint n"
    and "push_bit 1 k = 0 \<or> (\<exists>j \<le> 63. push_bit 1 k = 2 ^ j)"
proof -
  show *: "push_bit 1 k = 0 \<or> (\<exists>j \<le> 63. push_bit 1 k = 2 ^ j)"
    using assms(2) push_bit_pow64 by auto
  then show "sint (push_bit 1 k) < sint n"
    using sint_pow64_le assms(1) by fastforce
qed

lemma lp2_loop64_pow_diverges:
  "lp2_loop64 n k = Some y \<Longrightarrow> 2 ^ 62 < sint n \<longrightarrow> \<not> (k = 0 \<or> (\<exists>j \<le> 63. k = 2 ^ j))"
proof (erule lp2_loop64.raw_induct [rotated])
  fix f and n k y :: "64 word"
  assume IH: "\<And>n k y. f n k = Some y \<Longrightarrow> 2 ^ 62 < sint n \<longrightarrow> \<not> (k = 0 \<or> (\<exists>j \<le> 63. k = 2 ^ j))"
    and body: "(if sint (push_bit 1 k) < sint n then f n (push_bit 1 k) else Some k) = Some y"
  show "2 ^ 62 < sint n \<longrightarrow> \<not> (k = 0 \<or> (\<exists>j \<le> 63. k = 2 ^ j))"
  proof (intro impI notI)
    assume "2 ^ 62 < sint n" and "k = 0 \<or> (\<exists>j \<le> 63. k = 2 ^ j)"
    from pow64_step [OF this] IH [of n "push_bit 1 k" y] body \<open>2 ^ 62 < sint n\<close>
    show False by (metis (full_types))
  qed
qed

section \<open>Completeness of proofs\<close>

lemma rootFromProof_path:
  "m < length d \<Longrightarrow>
     rootFromProof H (leafHash H (d ! m)) m (length d) (path H m d) = Some (Root H d)"
proof (induction H m d rule: path.induct)
  case (1 H m d)
  show ?case
  proof (cases "length d \<le> 1")
    case True
    with 1(3) have "length d = 1" "m = 0" by auto
    then show ?thesis
      by (simp add: path.simps [of H 0 d] Root.simps [of H d]
          rootFromProof.simps [of _ _ _ "Suc 0"])
  next
    case False
    define k where "k = largestPow2LessThan (length d)"
    have k: "0 < k" "k < length d" "d \<noteq> []"
      using False lp2_bounds [of "length d"] by (auto simp: k_def)
    show ?thesis
    proof (cases "m < k")
      case True
      have "rootFromProof H (leafHash H (d ! m)) m k (path H m (take k d)) = Some (Root H (take k d))"
        using 1(1) [OF False k_def True] True k by simp
      then show ?thesis
        using True False k
        by (simp add: path.simps [of H m d] Root.simps [of H d]
            rootFromProof.simps [of _ _ _ "length d"] k_def [symmetric])
    next
      case nlt: False
      have "rootFromProof H (leafHash H (d ! m)) (m - k) (length d - k) (path H (m - k) (drop k d))
              = Some (Root H (drop k d))"
        using 1(2) [OF False k_def nlt] nlt k 1(3) by simp
      then show ?thesis
        using nlt False k
        by (simp add: path.simps [of H m d] Root.simps [of H d]
            rootFromProof.simps [of _ _ _ "length d"] k_def [symmetric])
    qed
  qed
qed


section \<open>Soundness and binding\<close>

text \<open>The byte strings hashed by \<^verbatim>\<open>Root\<close> and by \<^verbatim>\<open>VerifyProof\<close>.\<close>

function root_inputs :: "hash \<Rightarrow> bytes list \<Rightarrow> bytes list" where
  "root_inputs H leaves =
     (if length leaves = 0 then [[]]
      else if length leaves = 1 then [CHR 0x00 # leaves ! 0]
      else let k = largestPow2LessThan (length leaves)
           in (CHR 0x01 # Root H (take k leaves) @ Root H (drop k leaves))
              # root_inputs H (take k leaves) @ root_inputs H (drop k leaves))"
  by pat_completeness auto
termination
  by (relation "measure (\<lambda>(H, leaves). length leaves)") (auto simp: split_shrinks)

function proof_inputs :: "hash \<Rightarrow> bytes \<Rightarrow> nat \<Rightarrow> nat \<Rightarrow> bytes list \<Rightarrow> bytes list" where
  "proof_inputs H leafH m n pf =
     (if n = 1 \<or> length pf = 0 then []
      else let sib = last pf; rest = butlast pf; k = largestPow2LessThan n
           in if m < k then
                (case rootFromProof H leafH m k rest of None \<Rightarrow> [] | Some left \<Rightarrow> [CHR 0x01 # left @ sib])
                @ proof_inputs H leafH m k rest
              else
                (case rootFromProof H leafH (m - k) (n - k) rest of None \<Rightarrow> [] | Some right \<Rightarrow> [CHR 0x01 # sib @ right])
                @ proof_inputs H leafH (m - k) (n - k) rest)"
  by pat_completeness auto
termination
  by (relation "measure (\<lambda>(H, leafH, m, n, pf). length pf)") auto

definition verify_inputs :: "hash \<Rightarrow> bytes \<Rightarrow> nat \<Rightarrow> nat \<Rightarrow> bytes list \<Rightarrow> bytes list" where
  "verify_inputs H leaf m n pf = (CHR 0x00 # leaf) # proof_inputs H (leafHash H leaf) m n pf"

declare root_inputs.simps [simp del] proof_inputs.simps [simp del]

lemma length_Root: "(\<And>x. length (H x) = 32) \<Longrightarrow> length (Root H d) = 32"
  by (subst Root.simps) (simp add: leafHash_def nodeHash_def Let_def)

lemma length_rootFromProof:
  "(\<And>x. length (H x) = 32) \<Longrightarrow> rootFromProof H (leafHash H leaf) m n pf = Some r \<Longrightarrow> length r = 32"
  by (subst (asm) rootFromProof.simps)
    (auto simp: leafHash_def nodeHash_def Let_def split: if_splits option.splits)

lemma root_inputs_split:
  assumes "2 \<le> length d" and "k = largestPow2LessThan (length d)"
  shows "root_inputs H d = (CHR 0x01 # Root H (take k d) @ Root H (drop k d))
           # root_inputs H (take k d) @ root_inputs H (drop k d)"
    and "Root H d = H (CHR 0x01 # Root H (take k d) @ Root H (drop k d))"
  using assms by (auto simp: root_inputs.simps [of H d] Root.simps [of H d] nodeHash_def Let_def)

lemma rootFromProof_sound:
  assumes len: "\<And>x. length (H x) = 32"
  shows "rootFromProof H (leafHash H leaf) m (length d) pf = Some (Root H d) \<Longrightarrow> m < length d \<Longrightarrow>
    inj_on H (insert (CHR 0x00 # leaf) (set (root_inputs H d)
       \<union> set (proof_inputs H (leafHash H leaf) m (length d) pf))) \<Longrightarrow>
    leaf = d ! m \<and> pf = path H m d"
proof (induction "length d" arbitrary: d m pf rule: less_induct)
  case less
  show ?case
  proof (cases "length d \<le> 1")
    case True
    then have d: "length d = 1" "m = 0" using less.prems(2) by auto
    have pf: "pf = []" and eq: "H (CHR 0x00 # leaf) = H (CHR 0x00 # d ! 0)"
      using less.prems(1) d
      by (auto simp: rootFromProof.simps [of _ _ _ "Suc 0"] Root.simps [of H d] leafHash_def split: if_splits)
    have "CHR 0x00 # leaf = CHR 0x00 # d ! 0"
      using inj_onD [OF less.prems(3) eq] d by (simp add: root_inputs.simps [of H d])
    then show ?thesis using d pf by (simp add: path.simps [of H 0 d])
  next
    case False
    define k where "k = largestPow2LessThan (length d)"
    have k: "0 < k" "k < length d" "2 \<le> length d"
      using False lp2_bounds [of "length d"] by (auto simp: k_def)
    have ne: "pf \<noteq> []"
      using less.prems(1) False by (auto simp: rootFromProof.simps [of _ _ _ "length d"])
    note split_d = root_inputs_split [OF k(3) k_def, of H]
    show ?thesis
    proof (cases "m < k")
      case True
      obtain left where l: "rootFromProof H (leafHash H leaf) m k (butlast pf) = Some left"
        and eq: "H (CHR 0x01 # left @ last pf) = Root H d"
        using less.prems(1) True False ne
        by (auto simp: rootFromProof.simps [of _ _ _ "length d"] nodeHash_def k_def [symmetric]
            split: option.splits)
      have ins: "proof_inputs H (leafHash H leaf) m (length d) pf
          = (CHR 0x01 # left @ last pf) # proof_inputs H (leafHash H leaf) m k (butlast pf)"
        using True False ne l by (simp add: proof_inputs.simps [of _ _ _ "length d"] k_def [symmetric])
      have "CHR 0x01 # left @ last pf = CHR 0x01 # Root H (take k d) @ Root H (drop k d)"
        using inj_onD [OF less.prems(3) eq [unfolded split_d(2)]] by (simp add: ins split_d(1))
      then have "left = Root H (take k d)" "last pf = Root H (drop k d)"
        using length_rootFromProof [OF len l] length_Root [of H "take k d", OF len] by auto
      moreover have "inj_on H (insert (CHR 0x00 # leaf) (set (root_inputs H (take k d))
          \<union> set (proof_inputs H (leafHash H leaf) m k (butlast pf))))"
        by (rule inj_on_subset [OF less.prems(3)]) (auto simp: ins split_d(1))
      moreover from calculation have "leaf = take k d ! m \<and> butlast pf = path H m (take k d)"
        using less.hyps [of "take k d" m "butlast pf"] l k True by (simp del: inj_on_insert)
      ultimately show ?thesis
        using True False ne append_butlast_last_id [OF ne]
        by (simp add: path.simps [of H m d] k_def [symmetric])
    next
      case nlt: False
      obtain right where r: "rootFromProof H (leafHash H leaf) (m - k) (length d - k) (butlast pf) = Some right"
        and eq: "H (CHR 0x01 # last pf @ right) = Root H d"
        using less.prems(1) nlt False ne
        by (auto simp: rootFromProof.simps [of _ _ _ "length d"] nodeHash_def k_def [symmetric]
            split: option.splits)
      have ins: "proof_inputs H (leafHash H leaf) m (length d) pf
          = (CHR 0x01 # last pf @ right) # proof_inputs H (leafHash H leaf) (m - k) (length d - k) (butlast pf)"
        using nlt False ne r by (simp add: proof_inputs.simps [of _ _ _ "length d"] k_def [symmetric])
      have "CHR 0x01 # last pf @ right = CHR 0x01 # Root H (take k d) @ Root H (drop k d)"
        using inj_onD [OF less.prems(3) eq [unfolded split_d(2)]] by (simp add: ins split_d(1))
      then have "right = Root H (drop k d)" "last pf = Root H (take k d)"
        using length_rootFromProof [OF len r] length_Root [of H "drop k d", OF len] by auto
      moreover have "inj_on H (insert (CHR 0x00 # leaf) (set (root_inputs H (drop k d))
          \<union> set (proof_inputs H (leafHash H leaf) (m - k) (length d - k) (butlast pf))))"
        by (rule inj_on_subset [OF less.prems(3)]) (auto simp: ins split_d(1))
      moreover from calculation have "leaf = drop k d ! (m - k) \<and> butlast pf = path H (m - k) (drop k d)"
        using less.hyps [of "drop k d" "m - k" "butlast pf"] r k nlt less.prems(2)
        by (simp del: inj_on_insert)
      ultimately show ?thesis
        using nlt False ne k append_butlast_last_id [OF ne]
        by (simp add: path.simps [of H m d] k_def [symmetric] nth_drop)
    qed
  qed
qed


definition top_input :: "hash \<Rightarrow> bytes list \<Rightarrow> bytes" where
  "top_input H d =
     (case d of [] \<Rightarrow> [] | [x] \<Rightarrow> CHR 0x00 # x
      | _ \<Rightarrow> let k = largestPow2LessThan (length d) in CHR 0x01 # Root H (take k d) @ Root H (drop k d))"

lemma top_input: "top_input H d \<in> set (root_inputs H d)" "H (top_input H d) = Root H d"
  by (auto simp: top_input_def root_inputs.simps [of H d] Root.simps [of H d] leafHash_def nodeHash_def
      Let_def split: list.split)

lemma Root_inj:
  assumes len: "\<And>x. length (H x) = 32"
  shows "Root H d = Root H e \<Longrightarrow> inj_on H (set (root_inputs H d) \<union> set (root_inputs H e)) \<Longrightarrow> d = e"
proof (induction "length d" arbitrary: d e rule: less_induct)
  case less
  show ?case
  proof (cases "2 \<le> length d \<and> 2 \<le> length e")
    case True
    define k where "k = largestPow2LessThan (length d)"
    define l where "l = largestPow2LessThan (length e)"
    note d = root_inputs_split [of d, OF _ k_def, of H] and e = root_inputs_split [of e, OF _ l_def, of H]
    have "CHR 0x01 # Root H (take k d) @ Root H (drop k d) = CHR 0x01 # Root H (take l e) @ Root H (drop l e)"
      using inj_onD [OF less.prems(2), of "CHR 0x01 # Root H (take k d) @ Root H (drop k d)"
          "CHR 0x01 # Root H (take l e) @ Root H (drop l e)"] less.prems(1) True
      by (simp add: d e)
    then have roots: "Root H (take k d) = Root H (take l e)" "Root H (drop k d) = Root H (drop l e)"
      using length_Root [of H, OF len] by auto
    have k: "0 < k" "k < length d" using lp2_bounds [of "length d"] True by (auto simp: k_def)
    have "take k d = take l e"
    proof (rule less.hyps [OF _ roots(1)])
      show "inj_on H (set (root_inputs H (take k d)) \<union> set (root_inputs H (take l e)))"
        by (rule inj_on_subset [OF less.prems(2)]) (use True in \<open>auto simp: d e\<close>)
    qed (use k in simp)
    moreover have "drop k d = drop l e"
    proof (rule less.hyps [OF _ roots(2)])
      show "inj_on H (set (root_inputs H (drop k d)) \<union> set (root_inputs H (drop l e)))"
        by (rule inj_on_subset [OF less.prems(2)]) (use True in \<open>auto simp: d e\<close>)
    qed (use k in simp)
    ultimately show ?thesis by (metis append_take_drop_id)
  next
    case False
    then have "top_input H d = top_input H e"
      using inj_onD [OF less.prems(2)] less.prems(1) top_input by (metis UnCI)
    with False show ?thesis
      by (cases d; cases e; cases "tl d"; cases "tl e") (auto simp: top_input_def Let_def)
  qed
qed


section \<open>Properties\<close>

text \<open>C39: the split loop of the tree, run on 64-bit integers as the machine does, returns the
  mathematical split point for every size up to \<open>2 ^ 62\<close>; that value is a power of two that is
  below the size and at least half of it.\<close>
theorem largestPow2LessThan64_correct:
  assumes "2 \<le> n" and "n \<le> 2 ^ 62"
  shows "\<exists>i. largestPow2LessThan64 (word_of_nat n) = Some (word_of_nat (2 ^ i))
    \<and> largestPow2LessThan n = 2 ^ i \<and> 2 ^ i < n \<and> n \<le> 2 * 2 ^ i"
proof -
  obtain i where i: "largestPow2LessThan n = 2 ^ i" using largestPow2LessThan_pow2 by blast
  with assms lp2_loop64_eq [of 1 n] lp2_bounds [of n] show ?thesis
    by (auto simp: largestPow2LessThan64_def largestPow2LessThan_def intro!: exI [of _ i])
qed

theorem largestPow2LessThan64_correct_witness:
  "\<exists>i. largestPow2LessThan64 (word_of_nat 5) = Some (word_of_nat (2 ^ i))
    \<and> largestPow2LessThan 5 = 2 ^ i \<and> 2 ^ i < (5::nat) \<and> 5 \<le> 2 * (2::nat) ^ i"
  using largestPow2LessThan64_correct [of 5] by simp

text \<open>C40: for a size above \<open>2 ^ 62\<close> the doubling overflows the signed 64-bit integer and the
  loop never returns.\<close>
theorem largestPow2LessThan64_diverges:
  assumes "2 ^ 62 < sint n"
  shows "largestPow2LessThan64 n = None"
proof (cases "lp2_loop64 n 1")
  case (Some y)
  have "\<exists>j \<le> 63. (1 :: 64 word) = 2 ^ j" by (rule exI [of _ 0]) simp
  then show ?thesis using lp2_loop64_pow_diverges [OF Some] assms by blast
qed (simp add: largestPow2LessThan64_def)

theorem largestPow2LessThan64_diverges_witness:
  "largestPow2LessThan64 (2 ^ 62 + 1) = None"
  by (rule largestPow2LessThan64_diverges) simp

text \<open>C38: every inclusion proof that \<^verbatim>\<open>Proof\<close> produces verifies: \<^verbatim>\<open>Proof\<close> fails exactly on an
  index outside the leaves, and otherwise \<^verbatim>\<open>VerifyProof\<close> accepts its result for that leaf,
  index and size against the tree's root.\<close>
theorem Proof_complete:
  "case Proof H leaves m of
     Inl e \<Rightarrow> \<not> (0 \<le> m \<and> m < int (length leaves))
   | Inr p \<Rightarrow> 0 \<le> m \<and> m < int (length leaves)
       \<and> VerifyProof H (leaves ! nat m) m (int (length leaves)) p (Root H leaves)"
  using rootFromProof_path [of "nat m" leaves H]
  by (auto simp: Proof_def VerifyProof_def)

text \<open>C37: soundness. If the hash has 32-byte outputs and does not collide on the byte strings
  that the two computations hash, then a verified proof is for the leaf that really stands at
  that index, and it is the proof the tree gives: a forged leaf, index or path is rejected.\<close>
theorem VerifyProof_sound:
  assumes "\<And>x. length (H x) = 32"
    and "inj_on H (set (root_inputs H leaves) \<union> set (verify_inputs H leaf (nat m) (length leaves) pf))"
    and "VerifyProof H leaf m (int (length leaves)) pf (Root H leaves)"
  shows "leaf = leaves ! nat m \<and> Proof H leaves m = Inr pf"
proof -
  have "0 \<le> m" "m < int (length leaves)"
    and "rootFromProof H (leafHash H leaf) (nat m) (length leaves) pf = Some (Root H leaves)"
    using assms(3) by (auto simp: VerifyProof_def split: if_splits option.splits)
  then show ?thesis
    using rootFromProof_sound [of H leaf "nat m" leaves pf] assms(1,2)
    by (auto simp: verify_inputs_def Proof_def simp del: inj_on_insert)
qed

theorem VerifyProof_sound_witness:
  "VerifyProof pad32 ''a'' 0 1 [] (Root pad32 [''a'']) \<and> (''a'' :: bytes) = [''a''] ! nat 0
     \<and> Proof pad32 [''a''] 0 = Inr []"
proof -
  have "inj_on pad32 (set (root_inputs pad32 [''a'']) \<union> set (verify_inputs pad32 ''a'' (nat 0) (length [''a'']) []))"
    by (simp add: root_inputs.simps verify_inputs_def proof_inputs.simps)
  moreover have "VerifyProof pad32 ''a'' 0 (int (length [''a''])) [] (Root pad32 [''a''])"
    by (simp add: VerifyProof_def rootFromProof.simps Root.simps)
  ultimately show ?thesis
    using VerifyProof_sound [of pad32 "[''a'']" "''a''" 0 "[]"] by simp
qed

text \<open>The root binds the whole list of leaves. Two lists with the same root are equal, their
  lengths included, when the hash does not collide on what the two tree computations hash.\<close>
lemma Root_binding:
  assumes "\<And>x. length (H x) = 32"
    and "inj_on H (set (root_inputs H leaves) \<union> set (root_inputs H leaves'))"
    and "Root H leaves = Root H leaves'"
  shows "leaves = leaves'"
  using Root_inj assms by blast

lemma Root_binding_witness:
  "Root pad32 [''a'', ''b''] = Root pad32 ([''a''] @ [''b'']) \<and> [''a'', ''b''] = [''a''] @ [''b'']"
proof -
  have "inj_on pad32 (set (root_inputs pad32 [''a'', ''b'']) \<union> set (root_inputs pad32 ([''a''] @ [''b''])))"
    by (simp add: root_inputs.simps Let_def largestPow2LessThan_def lp2_loop.simps Root.simps leafHash_def
        pad32_def)
  then show ?thesis
    using Root_binding [of pad32 "[''a'', ''b'']" "[''a''] @ [''b'']"] by simp
qed

end
