(* ===== verification/Presence.thy ===== *)
theory Presence
  imports LiveSession Decimal Merkle
begin

text \<open>
  Checkpoints of the presence trail: \<^verbatim>\<open>internal/store/presence_checkpoint.go\<close> (the signed commitment in the
  audit entry, the index rows) and \<^verbatim>\<open>internal/presence/presence.go\<close> (\<^verbatim>\<open>Checkpoint\<close>, \<^verbatim>\<open>Verify\<close>, the leaf encoding).
  It brings together the Merkle tree, the audit log and the presence table.
\<close>

section \<open>The commitment\<close>

text \<open>\<^verbatim>\<open>base64.StdEncoding\<close>: the alphabet with \<^verbatim>\<open>+\<close> and \<^verbatim>\<open>/\<close>, and padding to a multiple of four.\<close>

definition std_char :: "char \<Rightarrow> char" where
  "std_char c = (if c = CHR ''-'' then CHR ''+'' else if c = CHR ''_'' then CHR ''/'' else c)"

definition url_char :: "char \<Rightarrow> char" where
  "url_char c = (if c = CHR ''+'' then CHR ''-'' else if c = CHR ''/'' then CHR ''_'' else c)"

definition StdEncode :: "bytes \<Rightarrow> string" where
  "StdEncode x =
     (let s = EncodeToString x in map std_char s @ replicate ((4 - length s mod 4) mod 4) (CHR ''=''))"

definition StdDecode :: "string \<Rightarrow> bytes option" where
  "StdDecode s =
     (let s' = filter (\<lambda>c. c \<noteq> CHR 0x0D \<and> c \<noteq> CHR 0x0A) s;
          body = takeWhile (\<lambda>c. c \<noteq> CHR ''='') s';
          pad = dropWhile (\<lambda>c. c \<noteq> CHR ''='') s'
      in if length s' mod 4 \<noteq> 0 \<or> length pad > 2 \<or> (\<exists>c \<in> set pad. c \<noteq> CHR ''='')
            \<or> CHR ''-'' \<in> set body \<or> CHR ''_'' \<in> set body then None
         else DecodeString (map url_char body))"

record PresenceCheckpointMeta =
  pm_MerkleRoot :: bytes
  pm_FromSeq :: int
  pm_ToSeq :: int
  pm_Count :: int

definition EncodeTarget :: "PresenceCheckpointMeta \<Rightarrow> string" where
  "EncodeTarget m =
     StdEncode (pm_MerkleRoot m) @ '':'' @ FormatInt (pm_FromSeq m) @ '':'' @ FormatInt (pm_ToSeq m) @ '':''
       @ FormatInt (pm_Count m)"

definition ParsePresenceCheckpointTarget :: "string \<Rightarrow> PresenceCheckpointMeta res" where
  "ParsePresenceCheckpointTarget s =
     (case split_on CHR '':'' s of
        [p0, p1, p2, p3] \<Rightarrow>
          (case StdDecode p0 of
             None \<Rightarrow> Inl (Err ''store: bad checkpoint root'')
           | Some root \<Rightarrow>
               (case ParseInt p1 of
                  None \<Rightarrow> Inl (Err ''store: bad checkpoint fromSeq'')
                | Some fromSeq \<Rightarrow>
                    (case ParseInt p2 of
                       None \<Rightarrow> Inl (Err ''store: bad checkpoint toSeq'')
                     | Some toSeq \<Rightarrow>
                         (case ParseInt p3 of
                            None \<Rightarrow> Inl (Err ''store: bad checkpoint count'')
                          | Some count \<Rightarrow>
                              Inr \<lparr>pm_MerkleRoot = root, pm_FromSeq = fromSeq, pm_ToSeq = toSeq, pm_Count = count\<rparr>))))
      | _ \<Rightarrow> Inl (Err ''store: malformed presence checkpoint target''))"

section \<open>The store\<close>

definition LatestPresenceCheckpointSeq :: "int io" where
  "LatestPresenceCheckpointSeq = pg (\<lambda>now d.
     Inr (case map pk_ToSeq (presence_checkpoints d) of [] \<Rightarrow> 0 | t # ts \<Rightarrow> foldl max t ts, d))"

definition PresenceEventsAfter :: "int \<Rightarrow> nat \<Rightarrow> PresenceEvent list io" where
  "PresenceEventsAfter afterSeq limit = pg (\<lambda>now d.
     Inr (take limit (sort_key pe_Seq (select_rows (\<lambda>e. pe_Seq e > afterSeq) (presence_events d))), d))"

definition PresenceEventsInRange :: "int \<Rightarrow> int \<Rightarrow> PresenceEvent list io" where
  "PresenceEventsInRange fromSeq toSeq = pg (\<lambda>now d.
     Inr (sort_key pe_Seq (select_rows (\<lambda>e. pe_Seq e \<ge> fromSeq \<and> pe_Seq e \<le> toSeq) (presence_events d)), d))"

definition q_insert_checkpoint :: "string \<Rightarrow> int \<Rightarrow> int \<Rightarrow> int \<Rightarrow> bytes \<Rightarrow> int \<Rightarrow> unit stmt" where
  "q_insert_checkpoint cid fromSeq toSeq count root auditSeq now d =
     (if count > maxint32 then Inl OutOfRange
      else if exists_row (\<lambda>c. pk_ID c = cid) (presence_checkpoints d) then Inl (UniqueViolation ''presence_checkpoints_pkey'')
      else Inr ((), d\<lparr>presence_checkpoints := presence_checkpoints d
             @ [\<lparr>pk_ID = cid, pk_FromSeq = fromSeq, pk_ToSeq = toSeq, pk_LeafCount = count, pk_MerkleRoot = root,
                 pk_AuditSeq = auditSeq, pk_CreatedAt = now\<rparr>]\<rparr>))"

definition checkpoint_input :: "bytes \<Rightarrow> int \<Rightarrow> int \<Rightarrow> int \<Rightarrow> AuditInput" where
  "checkpoint_input root fromSeq toSeq count =
     \<lparr>ai_ActorID = '''', ai_ActorRole = AuditRoleSystem, ai_Action = ActionPresenceCheckpoint, ai_TargetType = ''presence'',
      ai_TargetID = EncodeTarget \<lparr>pm_MerkleRoot = root, pm_FromSeq = fromSeq, pm_ToSeq = toSeq, pm_Count = count\<rparr>,
      ai_Metadata = []\<rparr>"

definition WritePresenceCheckpoint :: "Store \<Rightarrow> string \<Rightarrow> bytes \<Rightarrow> int \<Rightarrow> int \<Rightarrow> int \<Rightarrow> unit io" where
  "WritePresenceCheckpoint st cid root fromSeq toSeq count =
     (if auditSigner st = None then fail ErrNoAuditSigner
      else in_tx (bind (appendAuditTx st (checkpoint_input root fromSeq toSeq count)) (\<lambda>auditSeq.
                  pg (q_insert_checkpoint cid fromSeq toSeq count root auditSeq))))"

definition PresenceCheckpointCovering :: "int \<Rightarrow> PresenceCheckpoint option io" where
  "PresenceCheckpointCovering seq = pg (\<lambda>now d.
     Inr (head_row (order_by_desc pk_ToSeq
            (select_rows (\<lambda>c. pk_FromSeq c \<le> seq \<and> pk_ToSeq c \<ge> seq) (presence_checkpoints d))), d))"

section \<open>The service\<close>

abbreviation ErrNotCheckpointed :: error where
  "ErrNotCheckpointed \<equiv> Err ''presence: event not yet covered by a checkpoint''"
abbreviation ErrEventNotFound :: error where
  "ErrEventNotFound \<equiv> Err ''presence: event not found in checkpoint range''"
abbreviation ErrNoVerifier :: error where "ErrNoVerifier \<equiv> Err ''presence: no audit verifier configured''"
abbreviation ErrRangeTampered :: error where
  "ErrRangeTampered \<equiv> Err ''presence: rebuilt root does not match checkpoint (range tampered)''"

record PresenceSvc =
  ps_store :: Store
  ps_verifier :: "(verify \<times> (string \<rightharpoonup> bytes)) option"
  ps_batch :: nat

definition NewPresenceService :: "Store \<Rightarrow> (verify \<times> (string \<rightharpoonup> bytes)) option \<Rightarrow> PresenceSvc" where
  "NewPresenceService st verifier = \<lparr>ps_store = st, ps_verifier = verifier, ps_batch = 10000\<rparr>"

definition leafBytes :: "PresenceEvent \<Rightarrow> bytes" where
  "leafBytes e =
     putUint64 (word_of_int (pe_Seq e)) @ putField (pe_ID e) @ putField (pe_SessionID e) @ putField (pe_UserID e)
     @ putField (pe_Action e) @ putField (pe_Role e) @ putUint64 (word_of_int (unix (pe_OccurredAt e)))"

definition Checkpoint :: "PresenceSvc \<Rightarrow> string \<Rightarrow> bool io" where
  "Checkpoint svc nid =
     bind LatestPresenceCheckpointSeq (\<lambda>latest.
     bind (PresenceEventsAfter latest (ps_batch svc)) (\<lambda>evs.
       if length evs = 0 then ret False
       else let root = Root (sha256 (ps_store svc)) (map leafBytes evs)
            in bind (WritePresenceCheckpoint (ps_store svc) nid root (pe_Seq (hd evs)) (pe_Seq (last evs)) (int (length evs)))
                 (\<lambda>_. ret True)))"

text \<open>The index of the last row with the sequence number looked for, as the loop of \<^verbatim>\<open>Verify\<close> leaves it.\<close>

fun last_index :: "int \<Rightarrow> nat \<Rightarrow> int \<Rightarrow> PresenceEvent list \<Rightarrow> int" where
  "last_index seq i idx [] = idx"
| "last_index seq i idx (e # es) = last_index seq (i + 1) (if pe_Seq e = seq then int i else idx) es"

definition rebuild_check :: "hash \<Rightarrow> int \<Rightarrow> PresenceCheckpoint \<Rightarrow> PresenceEvent list \<Rightarrow> unit res" where
  "rebuild_check H seq cp rows =
     (let leaves = map leafBytes rows; idx = last_index seq 0 (- 1) rows
      in if idx < 0 then Inl ErrEventNotFound
         else if Root H leaves \<noteq> pk_MerkleRoot cp then Inl ErrRangeTampered
         else case Proof H leaves idx of
                Inl _ \<Rightarrow> Inl (Err ''merkle: leaf index out of range'')
              | Inr pf \<Rightarrow>
                  if \<not> VerifyProof H (leaves ! nat idx) idx (int (length leaves)) pf (pk_MerkleRoot cp)
                  then Inl (Err ''presence: inclusion proof failed'') else Inr ())"

definition anchor_check :: "hash \<Rightarrow> verify \<Rightarrow> (string \<rightharpoonup> bytes) \<Rightarrow> PresenceCheckpoint \<Rightarrow> AuditEntry \<Rightarrow> unit res" where
  "anchor_check H edv keys cp entry =
     (if VerifyEntry H edv keys entry \<noteq> None then Inl (Err ''audit: entry rejected'')
      else case ParsePresenceCheckpointTarget (ae_TargetID entry) of
             Inl err \<Rightarrow> Inl err
           | Inr m \<Rightarrow>
               if pm_MerkleRoot m \<noteq> pk_MerkleRoot cp
               then Inl (Err ''presence: signed root does not match checkpoint root'') else Inr ())"

definition lift_res :: "'a res \<Rightarrow> 'a io" where
  "lift_res r = (case r of Inl err \<Rightarrow> fail err | Inr x \<Rightarrow> ret x)"

definition presence_Verify :: "PresenceSvc \<Rightarrow> int \<Rightarrow> unit io" where
  "presence_Verify svc seq =
     (case ps_verifier svc of
        None \<Rightarrow> fail ErrNoVerifier
      | Some (edv, keys) \<Rightarrow>
          bind (PresenceCheckpointCovering seq) (\<lambda>found. case found of
            None \<Rightarrow> fail ErrNotCheckpointed
          | Some cp \<Rightarrow>
              bind (PresenceEventsInRange (pk_FromSeq cp) (pk_ToSeq cp)) (\<lambda>rows.
              bind (lift_res (rebuild_check (sha256 (ps_store svc)) seq cp rows)) (\<lambda>_.
              bind (AuditEntryBySeq (pk_AuditSeq cp)) (\<lambda>entry.
              lift_res (anchor_check (sha256 (ps_store svc)) edv keys cp entry))))))"

section \<open>The commitment parses back\<close>

lemma b64_char_set:
  assumes "n < 64"
  shows "std_char (b64_char n) \<notin> {CHR ''='', CHR ''-'', CHR ''_'', CHR 0x0D, CHR 0x0A, CHR '':''}"
    and "url_char (std_char (b64_char n)) = b64_char n"
proof -
  have "\<forall>n \<in> set [0..<64]. std_char (b64_char n) \<notin> {CHR ''='', CHR ''-'', CHR ''_'', CHR 0x0D, CHR 0x0A, CHR '':''}
      \<and> url_char (std_char (b64_char n)) = b64_char n"
    by (simp add: b64_char_def b64_alphabet_def upt_rec std_char_def url_char_def)
  then show "std_char (b64_char n) \<notin> {CHR ''='', CHR ''-'', CHR ''_'', CHR 0x0D, CHR 0x0A, CHR '':''}"
    and "url_char (std_char (b64_char n)) = b64_char n" using assms by simp_all
qed

lemma length_sextets: "length (sextets x) mod 4 \<noteq> 1"
  by (induction x rule: sextets.induct) (simp_all add: Let_def)

lemma Encode_chars:
  assumes "c \<in> set (EncodeToString x)"
  shows "std_char c \<notin> {CHR ''='', CHR ''-'', CHR ''_'', CHR 0x0D, CHR 0x0A, CHR '':''} \<and> url_char (std_char c) = c"
  using assms sextets_less [of x] b64_char_set by (auto simp: Encode_sextets)

lemma StdEncode_no_colon: "CHR '':'' \<notin> set (StdEncode x)"
  using Encode_chars by (fastforce simp: StdEncode_def Let_def)

lemma StdDecode_StdEncode: "StdDecode (StdEncode x) = Some x"
proof -
  define s where "s = EncodeToString x"
  define k where "k = (4 - length s mod 4) mod 4"
  have chars: "\<And>c. c \<in> set s \<Longrightarrow> std_char c \<notin> {CHR ''='', CHR ''-'', CHR ''_'', CHR 0x0D, CHR 0x0A, CHR '':''} \<and> url_char (std_char c) = c"
    using Encode_chars by (simp add: s_def)
  have enc: "StdEncode x = map std_char s @ replicate k (CHR ''='')" by (simp add: StdEncode_def s_def k_def Let_def)
  have "length s mod 4 \<noteq> 1" using length_sextets by (simp add: s_def Encode_sextets)
  moreover have "length s mod 4 < 4" by simp
  ultimately have "length s mod 4 = 0 \<or> length s mod 4 = 2 \<or> length s mod 4 = 3" by linarith
  then have k: "k \<le> 2 \<and> (length s + k) mod 4 = 0"
  proof (elim disjE)
    assume r: "length s mod 4 = 2"
    then have "(length s + 2) mod 4 = 0" by presburger
    with r show ?thesis by (simp add: k_def)
  next
    assume r: "length s mod 4 = 3"
    then have "(length s + 1) mod 4 = 0" by presburger
    with r show ?thesis by (simp add: k_def)
  qed (simp add: k_def)
  have f: "filter (\<lambda>c. c \<noteq> CHR 0x0D \<and> c \<noteq> CHR 0x0A) (StdEncode x) = StdEncode x"
    using chars by (auto simp: enc filter_id_conv)
  have body: "takeWhile (\<lambda>c. c \<noteq> CHR ''='') (StdEncode x) = map std_char s"
    "dropWhile (\<lambda>c. c \<noteq> CHR ''='') (StdEncode x) = replicate k (CHR ''='')"
    using chars by (auto simp: enc takeWhile_append dropWhile_append)
  have url: "map url_char (map std_char s) = s" using chars by (simp add: map_idI)
  have "\<forall>c \<in> set (map std_char s). c \<noteq> CHR ''-'' \<and> c \<noteq> CHR ''_''" using chars by simp
  then have no: "CHR ''-'' \<notin> set (map std_char s)" "CHR ''_'' \<notin> set (map std_char s)" by blast+
  have len: "length (StdEncode x) mod 4 = 0" using k by (simp add: enc)
  have "StdDecode (StdEncode x) = DecodeString (map url_char (map std_char s))"
    unfolding StdDecode_def f Let_def body using no k len by (simp del: map_map set_map)
  then show ?thesis unfolding url by (simp add: s_def)
qed

lemma Parse_EncodeTarget:
  assumes "int_fits 64 (pm_FromSeq m)" "int_fits 64 (pm_ToSeq m)" "int_fits 64 (pm_Count m)"
  shows "ParsePresenceCheckpointTarget (EncodeTarget m) = Inr m"
proof -
  have colon: "CHR '':'' \<notin> set (FormatInt n)" for n by (rule FormatInt_free) simp_all
  have "split_on CHR '':'' (EncodeTarget m) = [StdEncode (pm_MerkleRoot m), FormatInt (pm_FromSeq m), FormatInt (pm_ToSeq m), FormatInt (pm_Count m)]"
    by (simp add: EncodeTarget_def split_on_append split_on_no_sep StdEncode_no_colon colon)
  moreover have "ParseInt (FormatInt n) = Some n" if "int_fits 64 n" for n
    using that by (intro ParseInt_FormatInt) (simp_all add: int_fits_def)
  ultimately show ?thesis using assms by (simp add: ParsePresenceCheckpointTarget_def StdDecode_StdEncode)
qed

section \<open>Leaves are injective\<close>

definition event_wf :: "PresenceEvent \<Rightarrow> bool" where
  "event_wf e \<longleftrightarrow> int_fits 64 (pe_Seq e) \<and> int_fits 64 (unix (pe_OccurredAt e))
     \<and> list_all fits32 [pe_ID e, pe_SessionID e, pe_UserID e, pe_Action e, pe_Role e]"

text \<open>What a leaf commits to: every field, the time to the second.\<close>

definition event_content :: "PresenceEvent \<Rightarrow> PresenceEvent" where
  "event_content e = e\<lparr>pe_OccurredAt := unix (pe_OccurredAt e)\<rparr>"

lemma leafBytes_inj:
  assumes "event_wf e" "event_wf f" "leafBytes e = leafBytes f"
  shows "event_content e = event_content f"
proof -
  have last: "putUint64 a = putUint64 b \<longleftrightarrow> a = b" for a b
    using u64.frame_eq_iff [OF TrueI TrueI, where x = a and y = b and r = "[]" and s = "[]"] by simp
  have field: "putField p = putField q \<longleftrightarrow> p = q" if "fits32 p" "fits32 q" for p q
    using field.frame_eq_iff [OF that, of "[]" "[]"] by simp
  show ?thesis
    using assms unfolding leafBytes_def event_wf_def by (simp add: payload_eqs last field event_content_def)
qed

lemma map_leafBytes_inj:
  assumes "\<forall>e \<in> set es. event_wf e" "\<forall>e \<in> set fs. event_wf e" "map leafBytes es = map leafBytes fs"
  shows "map event_content es = map event_content fs"
proof -
  have "list_all2 (\<lambda>e f. leafBytes e = leafBytes f) es fs"
    using assms(3) by (simp add: list_all2_conv_all_nth list_eq_iff_nth_eq)
  then have "list_all2 (\<lambda>e f. event_content e = event_content f) es fs"
    using assms(1,2) leafBytes_inj by (auto simp: list_all2_conv_all_nth)
  then show ?thesis by (simp add: list_all2_conv_all_nth list_eq_iff_nth_eq)
qed

section \<open>Verification is sound\<close>

lemma last_index_props:
  "last_index seq i idx es = idx' \<Longrightarrow> idx' = idx \<or> (\<exists>j < length es. idx' = int (i + j) \<and> pe_Seq (es ! j) = seq)"
proof (induction es arbitrary: i idx)
  case (Cons e es)
  from Cons.IH [OF Cons.prems [unfolded last_index.simps]] show ?case
  proof (elim disjE exE conjE)
    assume "idx' = (if pe_Seq e = seq then int i else idx)"
    then show ?thesis by (cases "pe_Seq e = seq") (auto intro: exI [of _ 0])
  next
    fix j assume "j < length es" "idx' = int (i + 1 + j)" "pe_Seq (es ! j) = seq"
    then have "Suc j < length (e # es)" "idx' = int (i + Suc j)" "pe_Seq ((e # es) ! Suc j) = seq" by simp_all
    then show ?thesis by blast
  qed
qed simp

definition in_range :: "PresenceCheckpoint \<Rightarrow> db \<Rightarrow> PresenceEvent list" where
  "in_range cp d = sort_key pe_Seq (filter (\<lambda>e. pk_FromSeq cp \<le> pe_Seq e \<and> pe_Seq e \<le> pk_ToSeq cp) (presence_events d))"

lemma pg_readD:
  assumes "pg (\<lambda>now d. Inr (f d, d)) w = (Inr x, w')"
  shows "x = f (w_db w)" "w_db w' = w_db w"
  using pg_runD(1) [OF assms] by auto

lemma head_row_in: "head_row xs = Some x \<Longrightarrow> x \<in> set xs"
  by (cases xs) (auto simp: head_row_def)

text \<open>C23: what a successful presence verification proves. The event is in the table, a checkpoint covers it, and
  the log holds an entry with a valid signature whose text commits to the root of the rows of that range as they
  stand now. If the rows the signer saw had that committed root too, then they are the rows of the table: same
  events, same order, every field (the time to the second), when SHA-256 does not collide on the two trees.\<close>
theorem presence_Verify_sound:
  assumes "presence_Verify svc seq w = (Inr (), w')" and "ps_verifier svc = Some (edv, keys)"
  shows "\<exists>cp entry m. cp \<in> set (presence_checkpoints (w_db w)) \<and> pk_FromSeq cp \<le> seq \<and> seq \<le> pk_ToSeq cp
    \<and> (\<exists>e \<in> set (in_range cp (w_db w)). pe_Seq e = seq)
    \<and> entry \<in> set (audit_entries (w_db w)) \<and> VerifyEntry (sha256 (ps_store svc)) edv keys entry = None
    \<and> ParsePresenceCheckpointTarget (ae_TargetID entry) = Inr m
    \<and> pm_MerkleRoot m = Root (sha256 (ps_store svc)) (map leafBytes (in_range cp (w_db w)))
    \<and> (\<forall>evs. pm_MerkleRoot m = Root (sha256 (ps_store svc)) (map leafBytes evs) \<longrightarrow>
         (\<forall>x. length (sha256 (ps_store svc) x) = 32) \<longrightarrow>
         inj_on (sha256 (ps_store svc)) (set (root_inputs (sha256 (ps_store svc)) (map leafBytes (in_range cp (w_db w))))
            \<union> set (root_inputs (sha256 (ps_store svc)) (map leafBytes evs))) \<longrightarrow>
         (\<forall>e \<in> set evs \<union> set (in_range cp (w_db w)). event_wf e) \<longrightarrow>
         map event_content evs = map event_content (in_range cp (w_db w)))"
proof -
  let ?H = "sha256 (ps_store svc)"
  from assms obtain found cp rows entry w1 w2 w3 w4 where f: "PresenceCheckpointCovering seq w = (Inr found, w1)" "found = Some cp"
    and r: "PresenceEventsInRange (pk_FromSeq cp) (pk_ToSeq cp) w1 = (Inr rows, w2)"
    and c: "lift_res (rebuild_check ?H seq cp rows) w2 = (Inr (), w3)"
    and a: "AuditEntryBySeq (pk_AuditSeq cp) w3 = (Inr entry, w4)"
    and v: "lift_res (anchor_check ?H edv keys cp entry) w4 = (Inr (), w')"
    unfolding presence_Verify_def by (auto elim!: bind_InrD split: option.splits)
  note cov = pg_readD [OF f(1) [unfolded PresenceCheckpointCovering_def]]
  note rng = pg_readD [OF r [unfolded PresenceEventsInRange_def]]
  have rows: "rows = in_range cp (w_db w)" using rng(1) cov(2) by (simp add: in_range_def conj_commute)
  have w3: "w_db w3 = w_db w" using c rng(2) cov(2) by (auto simp: lift_res_def split: sum.splits)
  have "cp \<in> set (order_by_desc pk_ToSeq (filter (\<lambda>c. pk_FromSeq c \<le> seq \<and> pk_ToSeq c \<ge> seq) (presence_checkpoints (w_db w))))"
    using cov(1) f(2) by (intro head_row_in) simp
  then have cp: "cp \<in> set (presence_checkpoints (w_db w))" "pk_FromSeq cp \<le> seq" "seq \<le> pk_ToSeq cp"
    by (simp_all add: order_by_desc_def)
  have rc: "rebuild_check ?H seq cp rows = Inr ()" and ac: "anchor_check ?H edv keys cp entry = Inr ()"
    using c v by (auto simp: lift_res_def split: sum.splits)
  have root: "Root ?H (map leafBytes rows) = pk_MerkleRoot cp" and idx: "0 \<le> last_index seq 0 (- 1) rows"
    using rc by (auto simp: rebuild_check_def Let_def split: if_splits)
  then have "\<exists>e \<in> set rows. pe_Seq e = seq"
    using last_index_props [OF refl, of seq 0 "-1" rows] by (metis nth_mem not_one_le_zero neg_0_le_iff_le)
  moreover obtain m where m: "VerifyEntry ?H edv keys entry = None" "ParsePresenceCheckpointTarget (ae_TargetID entry) = Inr m"
    "pm_MerkleRoot m = pk_MerkleRoot cp"
    using ac by (auto simp: anchor_check_def split: if_splits sum.splits)
  moreover have "entry \<in> set (audit_entries (w_db w))"
    using pg_runD(1) [OF a [unfolded AuditEntryBySeq_def]] w3
    by (auto simp: audit_entries_def dest!: row_InrD find_SomeD)
  moreover have "map event_content evs = map event_content rows"
    if "pm_MerkleRoot m = Root ?H (map leafBytes evs)" "\<forall>x. length (?H x) = 32"
      "inj_on ?H (set (root_inputs ?H (map leafBytes rows)) \<union> set (root_inputs ?H (map leafBytes evs)))"
      "\<forall>e \<in> set evs \<union> set rows. event_wf e" for evs
  proof -
    have "map leafBytes rows = map leafBytes evs" using Root_inj [of ?H] that root m(3) by metis
    then show ?thesis using map_leafBytes_inj [of evs rows] that(4) by simp
  qed
  ultimately show ?thesis using cp root unfolding rows
    by (intro exI [of _ cp] exI [of _ entry] exI [of _ m] conjI allI impI) simp_all
qed

section \<open>A checkpoint verifies\<close>

lemma sorted_last: "sorted_wrt (<) (map k xs) \<Longrightarrow> x \<in> set xs \<Longrightarrow> k x \<le> k (last xs)" for k :: "'r \<Rightarrow> int"
  by (induction xs) (auto intro: less_imp_le)

lemma strict_sorted_iff_distinct: "sorted_wrt (<) (map k xs) \<Longrightarrow> distinct xs" for k :: "'r \<Rightarrow> int"
  by (induction xs) auto

definition latest_covered :: "db \<Rightarrow> int" where
  "latest_covered d = (case map pk_ToSeq (presence_checkpoints d) of [] \<Rightarrow> 0 | t # ts \<Rightarrow> foldl max t ts)"

definition presence_inv :: "db \<Rightarrow> bool" where
  "presence_inv d \<longleftrightarrow> sorted_wrt (<) (map pe_Seq (presence_events d))
     \<and> (\<forall>e \<in> set (presence_events d). pe_Seq e < presence_events_seq d)"

text \<open>The rows the next checkpoint covers.\<close>

definition uncovered :: "nat \<Rightarrow> db \<Rightarrow> PresenceEvent list" where
  "uncovered n d = take n (filter (\<lambda>e. pe_Seq e > latest_covered d) (presence_events d))"

lemma foldl_max_ge: "\<forall>x \<in> set (t # ts). x \<le> foldl max t ts" for t :: int
proof (induction ts arbitrary: t)
  case (Cons s ts)
  from Cons [of "max t s"] show ?case by auto
qed simp

lemma latest_covered_ge: "c \<in> set (presence_checkpoints d) \<Longrightarrow> pk_ToSeq c \<le> latest_covered d"
  using foldl_max_ge by (cases "presence_checkpoints d") (auto simp: latest_covered_def)

lemma filter_take_self: "distinct zs \<Longrightarrow> filter (\<lambda>e. e \<in> set (take n zs)) zs = take n zs"
proof -
  assume d: "distinct zs"
  have "set (take n zs) \<inter> set (drop n zs) = {}" using d by (simp add: set_take_disj_set_drop_if_distinct)
  then have "filter (\<lambda>e. e \<in> set (take n zs)) (take n zs @ drop n zs) = take n zs"
    by (auto simp: filter_id_conv filter_empty_conv simp del: append_take_drop_id)
  then show ?thesis by simp
qed

lemma sorted_events_filter: "presence_inv d \<Longrightarrow> sort_key pe_Seq (filter P (presence_events d)) = filter P (presence_events d)"
proof (rule sort_key_ascending)
  have "sorted_wrt (<) (map pe_Seq es) \<Longrightarrow> sorted_wrt (<) (map pe_Seq (filter P es))" for es by (induction es) auto
  then show "presence_inv d \<Longrightarrow> sorted_wrt (<) (map pe_Seq (filter P (presence_events d)))" by (simp add: presence_inv_def)
qed

lemma range_of_uncovered:
  assumes "presence_inv d" and ne: "uncovered n d \<noteq> []"
  shows "filter (\<lambda>e. pe_Seq (hd (uncovered n d)) \<le> pe_Seq e \<and> pe_Seq e \<le> pe_Seq (last (uncovered n d))) (presence_events d) = uncovered n d"
proof -
  let ?Q = "\<lambda>e. pe_Seq e > latest_covered d"
  define zs where "zs = filter ?Q (presence_events d)"
  have ys: "uncovered n d = take n zs" by (simp add: uncovered_def zs_def)
  have sorted: "sorted_wrt (<) (map pe_Seq zs)"
    unfolding zs_def by (rule sorted_wrt_map_filter) (use assms(1) in \<open>simp add: presence_inv_def\<close>)
  then have dist: "distinct zs" by (rule strict_sorted_iff_distinct)
  have "zs \<noteq> []" "n \<noteq> 0" using ne by (auto simp: ys)
  then have hd: "hd (take n zs) = hd zs" by (cases zs; cases n) simp_all
  have split: "sorted_wrt (<) (map pe_Seq (take n zs @ drop n zs))" using sorted by simp
  have lo: "pe_Seq (hd zs) \<le> pe_Seq e" if "e \<in> set zs" for e
    using sorted that by (cases zs) auto
  have hi: "pe_Seq e \<le> pe_Seq (last (take n zs)) \<longleftrightarrow> e \<in> set (take n zs)" if "e \<in> set zs" for e
  proof
    assume le: "pe_Seq e \<le> pe_Seq (last (take n zs))"
    have "last (take n zs) \<in> set (take n zs)" using ne ys by simp
    then have "e \<notin> set (drop n zs)" using split le unfolding map_append sorted_wrt_append by fastforce
    moreover have "e \<in> set (take n zs @ drop n zs)" using that by simp
    ultimately show "e \<in> set (take n zs)" by (simp del: append_take_drop_id)
  next
    assume "e \<in> set (take n zs)"
    moreover have "sorted_wrt (<) (map pe_Seq (take n zs))" using split by (simp add: sorted_wrt_append del: append_take_drop_id)
    ultimately show "pe_Seq e \<le> pe_Seq (last (take n zs))" using sorted_last [of pe_Seq "take n zs" e] by blast
  qed
  have "(pe_Seq (hd zs) \<le> pe_Seq e \<and> pe_Seq e \<le> pe_Seq (last (take n zs))) \<longleftrightarrow> ?Q e \<and> e \<in> set (take n zs)"
    if "e \<in> set (presence_events d)" for e
  proof -
    have "hd zs \<in> set zs" using \<open>zs \<noteq> []\<close> by simp
    then have "?Q (hd zs)" by (simp add: zs_def)
    then show ?thesis using that lo [of e] hi [of e] by (auto simp: zs_def dest: in_set_takeD)
  qed
  then have "filter (\<lambda>e. pe_Seq (hd zs) \<le> pe_Seq e \<and> pe_Seq e \<le> pe_Seq (last (take n zs))) (presence_events d)
      = filter (\<lambda>e. e \<in> set (take n zs)) zs"
    unfolding zs_def filter_filter by (intro filter_cong) (simp_all add: conj_commute)
  also have "\<dots> = take n zs" using filter_take_self [OF dist] .
  finally show ?thesis by (simp add: ys hd)
qed

lemma WritePresenceCheckpoint_InrD:
  assumes "WritePresenceCheckpoint st cid root a b n w = (Inr (), w')"
    and "audit_inv (sha256 st) edv keys (w_db w)" "store_ok edv keys st"
  obtains sg sig e cp t where "e = next_entry st sg (checkpoint_input root a b n) sig (w_now w) (w_db w)"
    "signer_ok edv keys sg" "SignRaw sg (ae_EntryHash e) = Inr sig"
    "cp = \<lparr>pk_ID = cid, pk_FromSeq = a, pk_ToSeq = b, pk_LeafCount = n, pk_MerkleRoot = root,
       pk_AuditSeq = audit_log_seq (w_db w), pk_CreatedAt = t\<rparr>"
    "w_db w' = (appended e (w_db w))\<lparr>presence_checkpoints := presence_checkpoints (w_db w) @ [cp]\<rparr>" "n \<le> maxint32"
proof -
  have "in_tx (bind (appendAuditTx st (checkpoint_input root a b n)) (\<lambda>auditSeq.
      pg (q_insert_checkpoint cid a b n root auditSeq))) w = (Inr (), w')"
    using assms(1) by (auto simp: WritePresenceCheckpoint_def split: if_splits)
  from in_tx_outcome [OF this] obtain w1 w2 where t: "take_fault w = (NoFault, w1)" "w_db w' = w_db w2"
    and "bind (appendAuditTx st (checkpoint_input root a b n)) (\<lambda>auditSeq. pg (q_insert_checkpoint cid a b n root auditSeq)) w1 = (Inr (), w2)"
    by auto
  then obtain seq w3 where ap: "appendAuditTx st (checkpoint_input root a b n) w1 = (Inr seq, w3)"
    and ins: "pg (q_insert_checkpoint cid a b n root seq) w3 = (Inr (), w2)" by (auto elim: bind_InrD)
  note w1 = take_fault_fields [OF t(1)]
  have pre: "jsonb st ''{}'' = Some ''{}''" "ai_Metadata (checkpoint_input root a b n) = []"
    "sorted_wrt (<) (map al_Seq (audit_log (w_db w1)))"
    using assms(2,3) w1 by (simp_all add: store_ok_def audit_inv_def checkpoint_input_def)
  from appendAuditTx_outcome [OF ap pre] obtain sg sig where sg: "auditSigner st = Some sg"
    "SignRaw sg (ae_EntryHash (next_entry st sg (checkpoint_input root a b n) sig (w_now w) (w_db w))) = Inr sig"
    "w_db w3 = appended (next_entry st sg (checkpoint_input root a b n) sig (w_now w) (w_db w)) (w_db w)"
    "seq = audit_log_seq (w_db w)" unfolding w1 by auto
  from pg_runD(1) [OF ins] sg(3,4) t(2) have "w_db w' = (w_db w3)\<lparr>presence_checkpoints := presence_checkpoints (w_db w3)
      @ [\<lparr>pk_ID = cid, pk_FromSeq = a, pk_ToSeq = b, pk_LeafCount = n, pk_MerkleRoot = root,
       pk_AuditSeq = seq, pk_CreatedAt = w_pgnow w3\<rparr>]\<rparr>" "n \<le> maxint32"
    by (simp_all add: q_insert_checkpoint_def split: if_splits)
  with sg assms(3) show ?thesis
    by (intro that [OF refl _ sg(2) refl]) (simp_all add: store_ok_def appended_def)
qed

lemma last_index_found:
  assumes "e \<in> set es" "pe_Seq e = seq"
  shows "0 \<le> last_index seq i idx es"
proof -
  have nn: "0 \<le> idx \<Longrightarrow> 0 \<le> last_index seq i idx es" for i idx es
    by (induction es arbitrary: i idx) auto
  have "\<forall>i idx. 0 \<le> last_index seq i idx es" using assms(1)
  proof (induction es)
    case (Cons a es)
    then show ?case using assms(2) nn by (cases "a = e") simp_all
  qed simp
  then show ?thesis by blast
qed

lemma rebuild_check_ok:
  assumes "e \<in> set rows" "pe_Seq e = seq" "pk_MerkleRoot cp = Root H (map leafBytes rows)"
  shows "rebuild_check H seq cp rows = Inr ()"
proof -
  define idx where "idx = last_index seq 0 (- 1) rows"
  have "0 \<le> idx" using last_index_found [OF assms(1,2)] by (simp add: idx_def)
  moreover have "idx < int (length rows)"
    using last_index_props [OF refl, of seq 0 "-1" rows] \<open>0 \<le> idx\<close> by (auto simp: idx_def)
  ultimately show ?thesis
    using assms(3) rootFromProof_path [of "nat idx" "map leafBytes rows" H]
    by (simp add: rebuild_check_def Let_def Proof_def VerifyProof_def flip: idx_def)
qed

lemma checkpoint_provable:
  assumes inv: "audit_inv (sha256 (ps_store svc)) edv keys (w_db w)" "store_ok edv keys (ps_store svc)"
    and svc: "ps_verifier svc = Some (edv, keys)" and pinv: "presence_inv (w_db w)"
    and fits: "\<forall>e \<in> set (presence_events (w_db w)). int_fits 64 (pe_Seq e)"
    and run: "Checkpoint svc nid w = (Inr True, w1)" and "calm w2" "w_db w2 = w_db w1"
    and e: "e \<in> set (uncovered (ps_batch svc) (w_db w))"
  shows "presence_Verify svc (pe_Seq e) w2 = (Inr (), w2)"
proof -
  let ?st = "ps_store svc" let ?H = "sha256 (ps_store svc)"
  define evs where "evs = uncovered (ps_batch svc) (w_db w)"
  define root where "root = Root ?H (map leafBytes evs)"
  have ne: "evs \<noteq> []" using e by (auto simp: evs_def)
  obtain v1 v2 v3 where c1: "LatestPresenceCheckpointSeq w = (Inr (latest_covered (w_db w)), v1)"
    and c2: "PresenceEventsAfter (latest_covered (w_db w)) (ps_batch svc) v1 = (Inr evs, v2)"
    and wr: "WritePresenceCheckpoint ?st nid root (pe_Seq (hd evs)) (pe_Seq (last evs)) (int (length evs)) v2 = (Inr (), w1)"
    and v2: "w_db v2 = w_db w"
  proof -
    from run obtain l v1 es v2 where a: "LatestPresenceCheckpointSeq w = (Inr l, v1)"
      and b: "PresenceEventsAfter l (ps_batch svc) v1 = (Inr es, v2)"
      and c: "(if length es = 0 then ret False
         else let root = Root ?H (map leafBytes es)
            in bind (WritePresenceCheckpoint ?st nid root (pe_Seq (hd es)) (pe_Seq (last es)) (int (length es))) (\<lambda>_. ret True)) v2 = (Inr True, w1)"
      unfolding Checkpoint_def by (auto elim!: bind_InrD)
    note a' = pg_readD [OF a [unfolded LatestPresenceCheckpointSeq_def]]
    have l: "l = latest_covered (w_db w)" using a'(1) by (simp add: latest_covered_def)
    note b' = pg_readD [OF b [unfolded PresenceEventsAfter_def]]
    have es: "es = evs" using b'(1) a'(2) sorted_events_filter [OF pinv] by (simp add: evs_def uncovered_def l)
    from c have "WritePresenceCheckpoint ?st nid root (pe_Seq (hd evs)) (pe_Seq (last evs)) (int (length evs)) v2 = (Inr (), w1)"
      using ne unfolding es Let_def root_def by (auto elim!: bind_InrD)
    with that a b l es a'(2) b'(2) show ?thesis by simp
  qed
  obtain sg sig en cp t where en: "en = next_entry ?st sg (checkpoint_input root (pe_Seq (hd evs)) (pe_Seq (last evs)) (int (length evs))) sig (w_now v2) (w_db w)"
    and sg: "signer_ok edv keys sg" "SignRaw sg (ae_EntryHash en) = Inr sig"
    and cp: "cp = \<lparr>pk_ID = nid, pk_FromSeq = pe_Seq (hd evs), pk_ToSeq = pe_Seq (last evs), pk_LeafCount = int (length evs),
       pk_MerkleRoot = root, pk_AuditSeq = audit_log_seq (w_db w), pk_CreatedAt = t\<rparr>"
    and d1: "w_db w1 = (appended en (w_db w))\<lparr>presence_checkpoints := presence_checkpoints (w_db w) @ [cp]\<rparr>"
    and n: "int (length evs) \<le> maxint32"
    using WritePresenceCheckpoint_InrD [OF wr _ inv(2)] inv(1) unfolding v2 by metis
  have sub: "set evs \<subseteq> set (presence_events (w_db w))" "\<forall>e \<in> set evs. latest_covered (w_db w) < pe_Seq e"
    by (auto simp: evs_def uncovered_def dest!: in_set_takeD)
  have mem: "hd evs \<in> set (presence_events (w_db w))" "last evs \<in> set (presence_events (w_db w))"
    using hd_in_set [OF ne] last_in_set [OF ne] sub by auto
  have range: "in_range cp (w_db w2) = evs"
  proof -
    have "in_range cp (w_db w2) = filter (\<lambda>e. pe_Seq (hd evs) \<le> pe_Seq e \<and> pe_Seq e \<le> pe_Seq (last evs)) (presence_events (w_db w))"
      unfolding in_range_def assms(8) d1 by (simp add: cp appended_def sorted_events_filter [OF pinv])
    then show ?thesis using range_of_uncovered [OF pinv] ne by (simp add: evs_def)
  qed
  have "e \<in> set (in_range cp (w_db w2))" using e range by (simp add: evs_def)
  then have cov_e: "pk_FromSeq cp \<le> pe_Seq e" "pe_Seq e \<le> pk_ToSeq cp" by (simp_all add: in_range_def)
  have old: "\<not> (pk_FromSeq c \<le> pe_Seq e \<and> pe_Seq e \<le> pk_ToSeq c)" if "c \<in> set (presence_checkpoints (w_db w))" for c
    using latest_covered_ge [OF that] sub(2) e by (auto simp: evs_def)
  have "filter (\<lambda>c. pk_FromSeq c \<le> pe_Seq e \<and> pk_ToSeq c \<ge> pe_Seq e) (presence_checkpoints (w_db w2)) = [cp]"
    using old cov_e assms(8) by (auto simp: d1 filter_empty_conv)
  then have cov: "PresenceCheckpointCovering (pe_Seq e) w2 = (Inr (Some cp), w2)"
    using assms(7) by (simp add: PresenceCheckpointCovering_def order_by_desc_def head_row_def)
  have ent: "AuditEntryBySeq (pk_AuditSeq cp) w2 = (Inr (en\<lparr>ae_Seq := audit_log_seq (w_db w)\<rparr>), w2)"
  proof -
    have "scan_audit (audit_row (audit_log_seq (w_db w)) en) = en\<lparr>ae_Seq := audit_log_seq (w_db w)\<rparr>"
      by (rule scan_audit_row) (simp add: en next_entry_def audit_entry_def Let_def)
    moreover have "List.find (\<lambda>r. al_Seq r = audit_log_seq (w_db w)) (audit_log (w_db w)) = None"
      using inv(1) by (auto simp: find_None_iff audit_inv_def)
    ultimately show ?thesis
      using assms(7,8) by (simp add: AuditEntryBySeq_def cp d1 appended_def find_append audit_row_def)
  qed
  have target: "ParsePresenceCheckpointTarget (ae_TargetID en) = Inr \<lparr>pm_MerkleRoot = root, pm_FromSeq = pe_Seq (hd evs),
      pm_ToSeq = pe_Seq (last evs), pm_Count = int (length evs)\<rparr>"
  proof -
    have "ae_TargetID en = EncodeTarget \<lparr>pm_MerkleRoot = root, pm_FromSeq = pe_Seq (hd evs), pm_ToSeq = pe_Seq (last evs), pm_Count = int (length evs)\<rparr>"
      by (simp add: en next_entry_def audit_entry_def Let_def checkpoint_input_def)
    moreover have "int_fits 64 (int (length evs))" using n by (simp add: int_fits_def)
    ultimately show ?thesis using Parse_EncodeTarget mem fits by simp
  qed
  have "anchor_check ?H edv keys cp (en\<lparr>ae_Seq := audit_log_seq (w_db w)\<rparr>) = Inr ()"
    using next_entry_good [OF sg(1) sg(2) [unfolded en]] target by (simp add: anchor_check_def cp en)
  moreover have "rebuild_check ?H (pe_Seq e) cp evs = Inr ()"
    using e by (intro rebuild_check_ok [of e]) (simp_all add: evs_def cp root_def)
  moreover have "PresenceEventsInRange (pk_FromSeq cp) (pk_ToSeq cp) w2 = (Inr evs, w2)"
    using assms(7) range by (simp add: PresenceEventsInRange_def in_range_def)
  ultimately show ?thesis
    using cov ent by (simp add: presence_Verify_def svc bind_def lift_res_def ret_def)
qed

text \<open>C24: a checkpoint makes its events provable. After \<^verbatim>\<open>Checkpoint\<close> has reported that it wrote one, \<^verbatim>\<open>Verify\<close>
  succeeds (with the connection up) for every event that was not covered before and fell in the batch: the
  index finds the new checkpoint, the rebuilt root and the inclusion proof match, the signing entry is valid
  and its text carries that root.\<close>
theorem Checkpoint_verifies:
  assumes "audit_inv (sha256 (ps_store svc)) edv keys (w_db w)" "store_ok edv keys (ps_store svc)"
    and "ps_verifier svc = Some (edv, keys)" and "presence_inv (w_db w)"
    and "\<forall>e \<in> set (presence_events (w_db w)). int_fits 64 (pe_Seq e)"
    and "Checkpoint svc nid w = (Inr True, w1)" and "calm w2" "w_db w2 = w_db w1"
    and "e \<in> set (uncovered (ps_batch svc) (w_db w))"
  shows "presence_Verify svc (pe_Seq e) w2 = (Inr (), w2)"
  using assms by (rule checkpoint_provable)

definition demo_event_row :: PresenceEvent where
  "demo_event_row = \<lparr>pe_Seq = 1, pe_ID = ''p1'', pe_SessionID = ''s1'', pe_UserID = ''u1'', pe_Action = ''join'', pe_Role = ''host'', pe_OccurredAt = 0\<rparr>"

definition demo_presence :: PresenceSvc where
  "demo_presence = \<lparr>ps_store = demo_store, ps_verifier = Some (demo_edv, demo_keys), ps_batch = 10\<rparr>"

definition demo_trail :: world where
  "demo_trail = demo_world (empty_db\<lparr>presence_events := [demo_event_row], presence_events_seq := 2\<rparr>)"

lemma demo_Checkpoint: "\<exists>w1. Checkpoint demo_presence ''k1'' demo_trail = (Inr True, w1) \<and> calm w1"
proof -
  obtain r w1 where run: "Checkpoint demo_presence ''k1'' demo_trail = (r, w1)" by force
  then show ?thesis
    by (auto simp: Checkpoint_def demo_trail_def demo_world_def empty_db_def demo_presence_def LatestPresenceCheckpointSeq_def calm_def
        PresenceEventsAfter_def demo_event_row_def WritePresenceCheckpoint_def demo_store_def in_tx_def appendAuditTx_def demo_signer_def
        advisory_lock_def q_audit_tail_def latest_by_def order_by_desc_def sign_and_insert_def Let_def q_insert_audit_def
        q_insert_checkpoint_def io_defs take_fault_def pg_def audit_entry_def checkpoint_input_def)
qed

lemma demo_trail_ok:
  "audit_inv (sha256 (ps_store demo_presence)) demo_edv demo_keys (w_db demo_trail)"
  "store_ok demo_edv demo_keys (ps_store demo_presence)" "ps_verifier demo_presence = Some (demo_edv, demo_keys)"
  "presence_inv (w_db demo_trail)" "\<forall>e \<in> set (presence_events (w_db demo_trail)). int_fits 64 (pe_Seq e)"
  "demo_event_row \<in> set (uncovered (ps_batch demo_presence) (w_db demo_trail))"
  by (simp_all add: demo_presence_def demo_store_ok demo_trail_def demo_world_def presence_inv_def demo_event_row_def int_fits_def
      uncovered_def latest_covered_def empty_db_def audit_inv_empty)

theorem Checkpoint_verifies_witness:
  "\<exists>w1. Checkpoint demo_presence ''k1'' demo_trail = (Inr True, w1) \<and> presence_Verify demo_presence 1 w1 = (Inr (), w1)"
proof -
  obtain w1 where w1: "Checkpoint demo_presence ''k1'' demo_trail = (Inr True, w1)" "calm w1" using demo_Checkpoint by blast
  from Checkpoint_verifies [OF demo_trail_ok(1-5) w1 refl demo_trail_ok(6)] w1 show ?thesis by (auto simp: demo_event_row_def)
qed

theorem presence_Verify_sound_witness:
  "\<exists>w1 cp. presence_Verify demo_presence 1 w1 = (Inr (), w1) \<and> cp \<in> set (presence_checkpoints (w_db w1))
     \<and> (\<exists>e \<in> set (in_range cp (w_db w1)). pe_Seq e = 1)"
proof -
  obtain w1 where w1: "Checkpoint demo_presence ''k1'' demo_trail = (Inr True, w1)" "calm w1" using demo_Checkpoint by blast
  have "presence_Verify demo_presence 1 w1 = (Inr (), w1)"
    using checkpoint_provable [OF demo_trail_ok(1-5) w1 refl demo_trail_ok(6)] by (simp add: demo_event_row_def)
  with presence_Verify_sound [OF this demo_trail_ok(3)] show ?thesis by blast
qed

section \<open>The presence trail keeps its order\<close>

interpretation session_presence: session_repo presence_inv
proof
  show "keeps presence_inv (AppendPresenceEvent eid sid uid action role)" for eid sid uid action role
    unfolding AppendPresenceEvent_def
    by (rule keeps_pg) (auto simp: stmt_keeps_def presence_inv_def sorted_wrt_append split: if_splits)
qed (unfold repo_defs, (rule keeps_pg, auto simp: stmt_keeps_def presence_inv_def q_CreateSession_def q_StartSession_def
      q_EndSession_def q_AddParticipant_def q_RemoveParticipant_def Let_def split: if_splits)+)

end
