(* ===== verification/Otp.thy ===== *)
theory Otp
  imports AuthService Livekit
begin

text \<open>
  One-time codes: the challenge life cycle that the email login (\<^verbatim>\<open>internal/auth/emaillogin.go\<close>), the phone
  login (\<^verbatim>\<open>phonelogin.go\<close>) and the step-up verification (\<^verbatim>\<open>stepup.go\<close>) run, each over its own table.

  The steps the flows repeat are written once: \<open>otp_cooling\<close> (is a fresh code outstanding), \<open>otp_check\<close> (compare
  a presented code, count or consume). The locale \<open>otp_table\<close> states what the flows rely on of a challenge table;
  it is interpreted on the email and the phone challenges of the store.
\<close>

section \<open>Codes\<close>

definition codeTTL :: duration where "codeTTL = minutes 10"

definition maxCodeAttempts :: int where "maxCodeAttempts = 5"

definition resendCooldown :: duration where "resendCooldown = seconds 60"

abbreviation ErrInvalidCode :: error where "ErrInvalidCode \<equiv> Err ''auth: invalid or expired code''"

text \<open>A message handed to a sender is recorded whatever the sender answers; \<open>None\<close> is success.\<close>

type_synonym sender = "string \<Rightarrow> string \<Rightarrow> error option"

definition send_code :: "sender \<Rightarrow> string \<Rightarrow> string \<Rightarrow> unit io" where
  "send_code send addr code w =
     (case send addr code of None \<Rightarrow> Inr () | Some e \<Rightarrow> Inl e, w\<lparr>w_outbox := w_outbox w @ [(addr, code)]\<rparr>)"

lemma keeps_send [keeps_rules]: "keeps J (send_code send a c)"
  by (simp add: keeps_def send_code_def)

definition otp_cooling :: "Challenge io \<Rightarrow> bool io" where
  "otp_cooling get =
     attempt get (\<lambda>r. case r of
       Inr active \<Rightarrow> bind goNow (\<lambda>now. ret (now - ch_CreatedAt active < resendCooldown))
     | Inl err \<Rightarrow> if err = ErrNoRows then ret False else fail err)"

definition otp_check :: "(bytes \<Rightarrow> bytes) \<Rightarrow> Challenge io \<Rightarrow> (string \<Rightarrow> unit io) \<Rightarrow> (string \<Rightarrow> unit io) \<Rightarrow> string \<Rightarrow> unit io" where
  "otp_check H get increment burn code =
     attempt get (\<lambda>r. case r of
       Inl _ \<Rightarrow> fail ErrInvalidCode
     | Inr ch \<Rightarrow>
         if ch_Attempts ch \<ge> maxCodeAttempts then fail ErrInvalidCode
         else if ch_CodeHash ch \<noteq> H code then attempt (increment (ch_ID ch)) (\<lambda>_. fail ErrInvalidCode)
         else burn (ch_ID ch))"

section \<open>The active challenge\<close>

lemma active_challengeD:
  assumes "active_challenge a now cs = Some c"
  shows "c \<in> set cs" "ch_Addr c = a" "ch_ConsumedAt c = None" "now < ch_ExpiresAt c"
proof -
  from assms obtain rest where "order_by_desc ch_CreatedAt
      (select_rows (\<lambda>c. ch_Addr c = a \<and> ch_ConsumedAt c = None \<and> ch_ExpiresAt c > now) cs) = c # rest"
    by (auto simp: active_challenge_def split: list.splits)
  then have "c \<in> set (select_rows (\<lambda>c. ch_Addr c = a \<and> ch_ConsumedAt c = None \<and> ch_ExpiresAt c > now) cs)"
    by (metis list.set_intros(1) set_order_by_desc)
  then show "c \<in> set cs" "ch_Addr c = a" "ch_ConsumedAt c = None" "now < ch_ExpiresAt c"
    by auto
qed

text \<open>Counting an attempt changes no column the selection looks at.\<close>

lemma sort_key_map_same: "(\<And>x. k (f x) = k x) \<Longrightarrow> sort_key k (map f xs) = map f (sort_key k xs)"
proof (induction xs)
  case (Cons x xs)
  have ins: "insort_key k (f y) (map f ys) = map f (insort_key k y ys)" for y ys
    using Cons.prems by (induction ys) auto
  show ?case using Cons by (simp add: ins)
qed simp

lemma count_attempt_map: "count_attempt cid cs = map (\<lambda>c. if ch_ID c = cid then c\<lparr>ch_Attempts := ch_Attempts c + 1\<rparr> else c) cs"
  by (simp add: count_attempt_def update_rows_def)

lemma active_challenge_count:
  "active_challenge a now (count_attempt cid cs) =
     map_option (\<lambda>c. if ch_ID c = cid then c\<lparr>ch_Attempts := ch_Attempts c + 1\<rparr> else c) (active_challenge a now cs)"
proof -
  define f :: "Challenge \<Rightarrow> Challenge" where "f = (\<lambda>c. if ch_ID c = cid then c\<lparr>ch_Attempts := ch_Attempts c + 1\<rparr> else c)"
  let ?P = "\<lambda>c. ch_Addr c = a \<and> ch_ConsumedAt c = None \<and> ch_ExpiresAt c > now"
  have f [simp]: "ch_Addr (f c) = ch_Addr c" "ch_ConsumedAt (f c) = ch_ConsumedAt c" "ch_ExpiresAt (f c) = ch_ExpiresAt c"
    "ch_CreatedAt (f c) = ch_CreatedAt c" for c by (simp_all add: f_def)
  have "filter ?P (map f cs) = map f (filter ?P cs)" by (induction cs) auto
  moreover have "order_by_desc ch_CreatedAt (map f xs) = map f (order_by_desc ch_CreatedAt xs)" for xs
    unfolding order_by_desc_def by (rule sort_key_map_same) simp
  moreover have "count_attempt cid cs = map f cs" by (simp add: count_attempt_map f_def)
  ultimately have "active_challenge a now (count_attempt cid cs) = map_option f (active_challenge a now cs)"
    by (simp add: active_challenge_def split: list.split)
  then show ?thesis unfolding f_def .
qed

lemma count_attempt_ids [simp]: "map ch_ID (count_attempt cid cs) = map ch_ID cs"
  by (simp add: count_attempt_map)

lemma consumed_not_active:
  assumes "active_challenge a now (consume (ch_ID c) t cs) = Some c'"
  shows "ch_ID c' \<noteq> ch_ID c" "c' \<in> set cs"
  using active_challengeD(1,3) [OF assms] by (auto simp: consume_def in_set_update_rows)

text \<open>An exhausted challenge. Nothing that the flows write brings it back.\<close>

definition dead :: "string \<Rightarrow> Challenge list \<Rightarrow> bool" where
  "dead cid cs \<longleftrightarrow> distinct (map ch_ID cs) \<and> (\<exists>c \<in> set cs. ch_ID c = cid \<and> maxCodeAttempts \<le> ch_Attempts c)"

lemma consume_ids [simp]: "map ch_ID (consume cid t cs) = map ch_ID cs"
  by (simp add: consume_def update_rows_def)

lemma dead_count:
  assumes "dead cid cs"
  shows "dead cid (count_attempt i cs)"
proof -
  obtain c where c: "c \<in> set cs" "ch_ID c = cid" "maxCodeAttempts \<le> ch_Attempts c" using assms unfolding dead_def by blast
  let ?c = "if ch_ID c = i then c\<lparr>ch_Attempts := ch_Attempts c + 1\<rparr> else c"
  have "?c \<in> set (count_attempt i cs)" "ch_ID ?c = cid" "maxCodeAttempts \<le> ch_Attempts ?c" using c by (auto simp: count_attempt_map)
  then show ?thesis using assms unfolding dead_def count_attempt_ids by blast
qed

lemma dead_consume: "dead cid cs \<Longrightarrow> dead cid (consume i t cs)"
  unfolding dead_def consume_ids by (auto simp: consume_def in_set_update_rows_if split: if_splits)

lemma dead_new: "dead cid cs \<Longrightarrow> \<not> exists_row (\<lambda>c. ch_ID c = i) cs \<Longrightarrow> dead cid (cs @ [new_challenge i a h e t])"
  by (auto simp: dead_def new_challenge_def list_ex_iff)

lemma dead_not_accepted:
  assumes "dead cid cs" "c \<in> set cs" "ch_Attempts c < maxCodeAttempts"
  shows "ch_ID c \<noteq> cid"
  using assms unfolding dead_def by (metis distinct_map inj_onD not_le)

section \<open>What the flows rely on\<close>

locale otp_table =
  fixes get :: "string \<Rightarrow> Challenge io" and increment burn :: "string \<Rightarrow> unit io"
    and challenges :: "db \<Rightarrow> Challenge list" and put :: "Challenge list \<Rightarrow> db \<Rightarrow> db"
  assumes get: "get a = pg (\<lambda>now d. row (active_challenge a now (challenges d)) d)"
    and increment: "increment cid = pg (\<lambda>now d. if attempts_exhausted cid (challenges d) then Inl OutOfRange
          else Inr ((), put (count_attempt cid (challenges d)) d))"
    and burn: "burn cid = pg (\<lambda>now d. Inr ((), put (consume cid now (challenges d)) d))"
    and challenges_put [simp]: "challenges (put cs d) = cs"
begin

lemma accepted:
  assumes "otp_check H (get a) increment burn code w = (Inr (), w')"
  obtains ch where "active_challenge a (w_pgnow w) (challenges (w_db w)) = Some ch" "ch_Attempts ch < maxCodeAttempts"
    "ch_CodeHash ch = H code" "w_db w' = put (consume (ch_ID ch) (w_pgnow w) (challenges (w_db w))) (w_db w)"
    "same_clock w w'"
proof -
  obtain r w1 where g: "get a w = (r, w1)" by force
  with assms obtain ch where r: "r = Inr ch" "ch_Attempts ch < maxCodeAttempts" "ch_CodeHash ch = H code"
    and b: "burn (ch_ID ch) w1 = (Inr (), w')"
    by (cases r) (auto simp: otp_check_def attempt_def fail_def not_le split: if_splits prod.splits)
  note g1 = pg_runD [OF g [unfolded r(1) get]]
  have act: "active_challenge a (w_pgnow w) (challenges (w_db w)) = Some ch" "w_db w1 = w_db w"
    using row_InrD [OF g1(1)] by simp_all
  note b1 = pg_runD [OF b [unfolded burn]]
  show thesis
    by (rule that [OF act(1) r(2,3)]) (use b1 g1(2,3) act(2) in \<open>simp_all add: same_clock_def\<close>)
qed

text \<open>A used challenge is spent: presenting the same code again succeeds only against another challenge that was
  outstanding all along.\<close>

lemma replay:
  assumes "otp_check H (get a) increment burn code w = (Inr (), w1)"
    and "otp_check H (get a) increment burn code w2 = (Inr (), w3)" "w_db w2 = w_db w1"
  obtains ch ch' where "ch \<in> set (challenges (w_db w))" "ch' \<in> set (challenges (w_db w))" "ch_ID ch' \<noteq> ch_ID ch"
    "ch_CodeHash ch' = ch_CodeHash ch"
proof -
  obtain ch where c: "active_challenge a (w_pgnow w) (challenges (w_db w)) = Some ch" "ch_CodeHash ch = H code"
    "w_db w1 = put (consume (ch_ID ch) (w_pgnow w) (challenges (w_db w))) (w_db w)"
    using accepted [OF assms(1)] by blast
  obtain ch' where c': "active_challenge a (w_pgnow w2) (challenges (w_db w2)) = Some ch'" "ch_CodeHash ch' = H code"
    using accepted [OF assms(2)] by blast
  have "active_challenge a (w_pgnow w2) (consume (ch_ID ch) (w_pgnow w) (challenges (w_db w))) = Some ch'"
    using c'(1) c(3) assms(3) by simp
  note consumed_not_active [OF this] active_challengeD(1) [OF c(1)]
  then show thesis using that c(2) c'(2) by metis
qed

lemma locked:
  assumes "calm w" "active_challenge a (w_pgnow w) (challenges (w_db w)) = Some ch" "maxCodeAttempts \<le> ch_Attempts ch"
  shows "otp_check H (get a) increment burn code w = (Inl ErrInvalidCode, w)"
  using assms by (simp add: otp_check_def get io_defs)

lemma wrong_guess:
  assumes "calm w" "active_challenge a (w_pgnow w) (challenges (w_db w)) = Some ch" "ch_Attempts ch < maxCodeAttempts"
    and "distinct (map ch_ID (challenges (w_db w)))" "H code \<noteq> ch_CodeHash ch"
  shows "otp_check H (get a) increment burn code w =
    (Inl ErrInvalidCode, w\<lparr>w_db := put (count_attempt (ch_ID ch) (challenges (w_db w))) (w_db w)\<rparr>)"
proof -
  have "\<not> attempts_exhausted (ch_ID ch) (challenges (w_db w))"
  proof
    assume "attempts_exhausted (ch_ID ch) (challenges (w_db w))"
    then obtain c where c: "c \<in> set (challenges (w_db w))" "ch_ID c = ch_ID ch" "maxint32 \<le> ch_Attempts c"
      by (auto simp: attempts_exhausted_def list_ex_iff)
    have "c = ch" using assms(4) c(1,2) active_challengeD(1) [OF assms(2)] by (metis distinct_map inj_onD)
    then show False using assms(3) c(3) by (simp add: maxCodeAttempts_def)
  qed
  then show ?thesis using assms by (simp add: otp_check_def get increment io_defs)
qed

text \<open>A flow \<open>verify\<close> that fails with the check: enough wrong guesses exhaust the challenge, which then rejects every code, the right
  one too.\<close>

lemma guesses_exhaust:
  assumes flow: "\<And>c w e w'. otp_check H (get a) increment burn c w = (Inl e, w') \<Longrightarrow> verify_code c w = (Inl e, w')"
    and "calm w" "active_challenge a (w_pgnow w) (challenges (w_db w)) = Some ch"
    and "distinct (map ch_ID (challenges (w_db w)))" "\<forall>c \<in> set cs. H c \<noteq> ch_CodeHash ch"
    and "maxCodeAttempts \<le> ch_Attempts ch + int (length cs)" and "w' = foldl (\<lambda>w c. snd (verify_code c w)) w cs"
  shows "\<exists>ch'. calm w' \<and> active_challenge a (w_pgnow w') (challenges (w_db w')) = Some ch' \<and> ch_ID ch' = ch_ID ch
    \<and> maxCodeAttempts \<le> ch_Attempts ch' \<and> distinct (map ch_ID (challenges (w_db w')))"
  using assms(2-)
proof (induction cs arbitrary: w ch)
  case Nil
  then show ?case by simp
next
  case (Cons c cs)
  show ?case
  proof (cases "maxCodeAttempts \<le> ch_Attempts ch")
    case True
    then have "verify_code c w = (Inl ErrInvalidCode, w)" using flow [OF locked [OF Cons.prems(1,2)]] by simp
    then show ?thesis using Cons.IH [of w ch] Cons.prems True by simp
  next
    case False
    let ?w = "w\<lparr>w_db := put (count_attempt (ch_ID ch) (challenges (w_db w))) (w_db w)\<rparr>"
    have step: "verify_code c w = (Inl ErrInvalidCode, ?w)"
      using flow [OF wrong_guess [OF Cons.prems(1,2) _ Cons.prems(3)]] False Cons.prems(4) by simp
    have "active_challenge a (w_pgnow ?w) (challenges (w_db ?w)) = Some (ch\<lparr>ch_Attempts := ch_Attempts ch + 1\<rparr>)"
      using Cons.prems(2) by (simp add: active_challenge_count)
    from Cons.IH [OF _ this] show ?thesis using Cons.prems step by simp
  qed
qed

end

interpretation email_otp: otp_table GetActiveLoginChallenge IncrementLoginChallengeAttempts ConsumeLoginChallenge
    login_challenges "\<lambda>cs d. d\<lparr>login_challenges := cs\<rparr>"
  by unfold_locales
    (simp_all add: GetActiveLoginChallenge_def IncrementLoginChallengeAttempts_def ConsumeLoginChallenge_def
      q_GetActiveLoginChallenge_def [abs_def] q_IncrementLoginChallengeAttempts_def [abs_def] q_ConsumeLoginChallenge_def [abs_def])

interpretation phone_otp: otp_table GetActivePhoneChallenge IncrementPhoneChallengeAttempts ConsumePhoneChallenge
    phone_challenges "\<lambda>cs d. d\<lparr>phone_challenges := cs\<rparr>"
  by unfold_locales
    (simp_all add: GetActivePhoneChallenge_def IncrementPhoneChallengeAttempts_def ConsumePhoneChallenge_def
      q_GetActivePhoneChallenge_def [abs_def] q_IncrementPhoneChallengeAttempts_def [abs_def] q_ConsumePhoneChallenge_def [abs_def])

end
