(* ===== verification/Login.thy ===== *)
theory Login
  imports Otp
begin

text \<open>
  Logging in: how a proven credential (an email address, a phone number, a subject at an identity provider) is
  linked to an account and a session is issued (\<^verbatim>\<open>internal/auth/authn.go\<close>), and the three flows that prove one
  (\<^verbatim>\<open>emaillogin.go\<close>, \<^verbatim>\<open>phonelogin.go\<close>, \<^verbatim>\<open>federation.go\<close>).

  The ids, handles and secrets the code draws at random are arguments. \<^verbatim>\<open>mail.ParseAddress\<close>, the senders and the
  calls to an identity provider are parameters.
\<close>

section \<open>Principals and resolvers\<close>

datatype PrincipalKind = PrincipalEmail | PrincipalPhone | PrincipalFederated

record Principal =
  pp_Kind :: PrincipalKind
  pp_Provider :: string
  pp_Subject :: string

abbreviation ErrUnknownAuthMethod :: error where "ErrUnknownAuthMethod \<equiv> Err ''auth: no resolver for principal kind''"
abbreviation ErrPhoneConflict :: error where "ErrPhoneConflict \<equiv> Err ''auth: phone already linked to another account''"

record Fresh =
  fr_ID :: string
  fr_Handle :: string
  fr_Secret :: string
  fr_TokenID :: string
  fr_JTI :: string

type_synonym resolver = "Fresh \<Rightarrow> Principal \<Rightarrow> string \<Rightarrow> string io"

definition newPendingUser :: "Fresh \<Rightarrow> string io" where
  "newPendingUser fr =
     bind (CreateUser (fr_ID fr) (fr_Handle fr) ''New User'' '''' False) (\<lambda>_.
     bind (CreateIdentityRecord (fr_ID fr)) (\<lambda>_.
     ret (fr_ID fr)))"

definition emailResolve :: resolver where
  "emailResolve fr p currentUserID =
     attempt (GetEmailIdentity (pp_Subject p)) (\<lambda>r. case r of
       Inr e \<Rightarrow> attempt (TouchEmailLogin (pp_Subject p)) (\<lambda>_. ret (ei_UserID e))
     | Inl err \<Rightarrow>
         if err \<noteq> ErrNoRows then fail err
         else bind (newPendingUser fr) (\<lambda>uid.
              bind (LinkEmailIdentity (pp_Subject p) uid) (\<lambda>_. ret uid)))"

definition phoneResolve :: resolver where
  "phoneResolve fr p currentUserID =
     attempt (GetPhoneIdentity (pp_Subject p)) (\<lambda>r. case r of
       Inr existing \<Rightarrow>
         if currentUserID \<noteq> '''' \<and> currentUserID \<noteq> pi_UserID existing then fail ErrPhoneConflict
         else attempt (TouchPhoneLogin (pp_Subject p)) (\<lambda>_. ret (pi_UserID existing))
     | Inl err \<Rightarrow>
         if err \<noteq> ErrNoRows then fail err
         else if currentUserID \<noteq> '''' then
           bind (LinkPhoneIdentity (pp_Subject p) currentUserID) (\<lambda>_. ret currentUserID)
         else bind (newPendingUser fr) (\<lambda>uid.
              bind (LinkPhoneIdentity (pp_Subject p) uid) (\<lambda>_. ret uid)))"

definition federatedResolve :: resolver where
  "federatedResolve fr p currentUserID =
     attempt (GetFederatedIdentity (pp_Provider p) (pp_Subject p)) (\<lambda>r. case r of
       Inr fed \<Rightarrow> attempt (TouchFederatedLogin (pp_Provider p) (pp_Subject p)) (\<lambda>_. ret (fi_UserID fed))
     | Inl err \<Rightarrow>
         if err \<noteq> ErrNoRows then fail err
         else bind (newPendingUser fr) (\<lambda>uid.
              bind (LinkFederatedIdentity (pp_Provider p) (pp_Subject p) uid) (\<lambda>_. ret uid)))"

section \<open>The authenticator\<close>

record Authenticator =
  au_sessions :: AuthSvc
  au_resolvers :: "PrincipalKind \<rightharpoonup> resolver"

definition NewAuthenticator :: "AuthSvc \<Rightarrow> Authenticator" where
  "NewAuthenticator s = \<lparr>au_sessions = s, au_resolvers = Map.empty\<rparr>"

definition Register :: "Authenticator \<Rightarrow> PrincipalKind \<Rightarrow> resolver \<Rightarrow> Authenticator" where
  "Register a kind r = a\<lparr>au_resolvers := (au_resolvers a)(kind \<mapsto> r)\<rparr>"

definition Authenticate :: "Authenticator \<Rightarrow> Fresh \<Rightarrow> Principal \<Rightarrow> string \<Rightarrow> AuthSession io" where
  "Authenticate a fr p currentUserID =
     (case au_resolvers a (pp_Kind p) of
        None \<Rightarrow> fail ErrUnknownAuthMethod
      | Some resolve \<Rightarrow>
          bind (resolve fr p currentUserID) (\<lambda>uid.
          IssueSession (au_sessions a) (fr_Secret fr) (fr_TokenID fr) (fr_JTI fr) uid))"

section \<open>The email flow\<close>

abbreviation errBadEmail :: error where "errBadEmail \<equiv> Err ''auth: invalid email address''"

record EmailLogin =
  el_authn :: Authenticator
  el_sender :: sender
  el_parseAddress :: "string \<Rightarrow> string option"

definition NewEmailLogin :: "AuthSvc \<Rightarrow> sender \<Rightarrow> (string \<Rightarrow> string option) \<Rightarrow> EmailLogin" where
  "NewEmailLogin svc send parse =
     \<lparr>el_authn = Register (NewAuthenticator svc) PrincipalEmail emailResolve, el_sender = send, el_parseAddress = parse\<rparr>"

definition normalizeEmail :: "(string \<Rightarrow> string option) \<Rightarrow> string \<Rightarrow> string res" where
  "normalizeEmail parse raw = (case parse (trim_space raw) of None \<Rightarrow> Inl errBadEmail | Some addr \<Rightarrow> Inr (lower addr))"

definition email_RequestCode :: "EmailLogin \<Rightarrow> string \<Rightarrow> string \<Rightarrow> string \<Rightarrow> unit io" where
  "email_RequestCode e cid code rawEmail =
     (case normalizeEmail (el_parseAddress e) rawEmail of
        Inl err \<Rightarrow> fail err
      | Inr email \<Rightarrow>
          bind (otp_cooling (GetActiveLoginChallenge email)) (\<lambda>cooling.
            if cooling then ret ()
            else bind goNow (\<lambda>now.
                 bind (CreateLoginChallenge cid email (hashSecret (au_sessions (el_authn e)) code) (now + codeTTL)) (\<lambda>_.
                 send_code (el_sender e) email code))))"

definition email_VerifyCode :: "EmailLogin \<Rightarrow> Fresh \<Rightarrow> string \<Rightarrow> string \<Rightarrow> AuthSession io" where
  "email_VerifyCode e fr rawEmail code =
     (case normalizeEmail (el_parseAddress e) rawEmail of
        Inl _ \<Rightarrow> fail ErrInvalidCode
      | Inr email \<Rightarrow>
          bind (otp_check (hashSecret (au_sessions (el_authn e))) (GetActiveLoginChallenge email)
                  IncrementLoginChallengeAttempts ConsumeLoginChallenge code) (\<lambda>_.
          Authenticate (el_authn e) fr \<lparr>pp_Kind = PrincipalEmail, pp_Provider = '''', pp_Subject = email\<rparr> ''''))"

section \<open>The phone flow\<close>

abbreviation errBadPhone :: error where "errBadPhone \<equiv> Err ''auth: invalid phone number''"

fun strip_phone :: "nat \<Rightarrow> string \<Rightarrow> string option" where
  "strip_phone i [] = Some []"
| "strip_phone i (r # rs) =
     (if r = CHR ''+'' \<and> i = 0 then map_option ((#) r) (strip_phone (Suc i) rs)
      else if r \<in> set ''0123456789'' then map_option ((#) r) (strip_phone (Suc i) rs)
      else if r \<in> set '' -()'' then strip_phone (Suc i) rs
      else None)"

definition normalizeE164 :: "string \<Rightarrow> string res" where
  "normalizeE164 raw =
     (case strip_phone 0 (trim_space raw) of
        None \<Rightarrow> Inl errBadPhone
      | Some s \<Rightarrow>
          if take 1 s \<noteq> ''+'' then Inl errBadPhone
          else if length s - 1 < 8 \<or> length s - 1 > 15 then Inl errBadPhone
          else Inr s)"

record PhoneLogin =
  pl_authn :: Authenticator
  pl_sender :: sender

definition NewPhoneLogin :: "AuthSvc \<Rightarrow> sender \<Rightarrow> PhoneLogin" where
  "NewPhoneLogin svc send =
     \<lparr>pl_authn = Register (NewAuthenticator svc) PrincipalPhone phoneResolve, pl_sender = send\<rparr>"

definition phone_RequestCode :: "PhoneLogin \<Rightarrow> string \<Rightarrow> string \<Rightarrow> string \<Rightarrow> unit io" where
  "phone_RequestCode p cid code rawPhone =
     (case normalizeE164 rawPhone of
        Inl err \<Rightarrow> fail err
      | Inr phone \<Rightarrow>
          bind (otp_cooling (GetActivePhoneChallenge phone)) (\<lambda>cooling.
            if cooling then ret ()
            else bind goNow (\<lambda>now.
                 bind (CreatePhoneChallenge cid phone (hashSecret (au_sessions (pl_authn p)) code) (now + codeTTL)) (\<lambda>_.
                 send_code (pl_sender p) phone code))))"

definition phone_VerifyCode :: "PhoneLogin \<Rightarrow> Fresh \<Rightarrow> string \<Rightarrow> string \<Rightarrow> string \<Rightarrow> AuthSession io" where
  "phone_VerifyCode p fr rawPhone code currentUserID =
     (case normalizeE164 rawPhone of
        Inl _ \<Rightarrow> fail ErrInvalidCode
      | Inr phone \<Rightarrow>
          bind (otp_check (hashSecret (au_sessions (pl_authn p))) (GetActivePhoneChallenge phone)
                  IncrementPhoneChallengeAttempts ConsumePhoneChallenge code) (\<lambda>_.
          Authenticate (pl_authn p) fr \<lparr>pp_Kind = PrincipalPhone, pp_Provider = '''', pp_Subject = phone\<rparr> currentUserID))"

section \<open>The federated flow\<close>

abbreviation ErrUnknownProvider :: error where "ErrUnknownProvider \<equiv> Err ''auth: unknown federated provider''"

text \<open>A connector turns the callback's code and its cleartext binding into a subject at the provider.\<close>

type_synonym connector = "string \<Rightarrow> string \<Rightarrow> string res"

record Federation =
  fd_connectors :: "string \<rightharpoonup> connector"
  fd_authn :: Authenticator

definition NewFederation :: "AuthSvc \<Rightarrow> (string \<rightharpoonup> connector) \<Rightarrow> Federation" where
  "NewFederation svc connectors =
     \<lparr>fd_connectors = connectors, fd_authn = Register (NewAuthenticator svc) PrincipalFederated federatedResolve\<rparr>"

definition Complete :: "Federation \<Rightarrow> Fresh \<Rightarrow> string \<Rightarrow> string \<Rightarrow> string \<Rightarrow> AuthSession io" where
  "Complete f fr provider code secret =
     (case fd_connectors f provider of
        None \<Rightarrow> fail ErrUnknownProvider
      | Some c \<Rightarrow>
          (case c code secret of
             Inl _ \<Rightarrow> fail ErrUnauthenticated
           | Inr subject \<Rightarrow>
               if subject = '''' then fail ErrUnauthenticated
               else Authenticate (fd_authn f) fr
                      \<lparr>pp_Kind = PrincipalFederated, pp_Provider = provider, pp_Subject = subject\<rparr> ''''))"

section \<open>Links\<close>

text \<open>The account a principal is linked to. Links are only ever added: \<open>links_le d d'\<close> says that those of \<open>d\<close> are
  in \<open>d'\<close> unchanged.\<close>

definition link :: "db \<Rightarrow> Principal \<Rightarrow> string option" where
  "link d p = (case pp_Kind p of
     PrincipalEmail \<Rightarrow> map_option ei_UserID (first_row (\<lambda>r. ei_Email r = pp_Subject p) (email_identities d))
   | PrincipalPhone \<Rightarrow> map_option pi_UserID (first_row (\<lambda>r. pi_Phone r = pp_Subject p) (phone_identities d))
   | PrincipalFederated \<Rightarrow> map_option fi_UserID
       (first_row (\<lambda>r. fi_Provider r = pp_Provider p \<and> fi_Subject r = pp_Subject p) (federated_identities d)))"

definition links_le :: "db \<Rightarrow> db \<Rightarrow> bool" where
  "links_le d d' \<longleftrightarrow> (\<forall>p u. link d p = Some u \<longrightarrow> link d' p = Some u)"

lemma find_update_rows:
  "(\<And>r. P (f r) = P r) \<Longrightarrow> List.find P (update_rows Q f rs) = map_option (\<lambda>r. if Q r then f r else r) (List.find P rs)"
  by (induction rs) auto

lemma links_le_refl [simp]: "links_le d d"
  by (simp add: links_le_def)

lemma links_leI:
  fixes d d' :: db
  assumes "email_identities d' = email_identities d" "phone_identities d' = phone_identities d"
    "federated_identities d' = federated_identities d"
  shows "links_le d0 d' \<longleftrightarrow> links_le d0 d"
proof -
  have "link d' = link d" by (rule ext) (simp add: link_def assms split: PrincipalKind.split)
  then show ?thesis by (simp add: links_le_def)
qed

lemma links_le_other [simp]:
  "links_le d0 (d\<lparr>users := us\<rparr>) = links_le d0 d" "links_le d0 (d\<lparr>identity_vault := iv\<rparr>) = links_le d0 d"
  "links_le d0 (d\<lparr>refresh_tokens := rt\<rparr>) = links_le d0 d" "links_le d0 (d\<lparr>login_challenges := cs\<rparr>) = links_le d0 d"
  "links_le d0 (d\<lparr>phone_challenges := cs\<rparr>) = links_le d0 d"
  by (rule links_leI; simp)+

lemma map_option_if_same: "(\<And>r. g (f r) = g r) \<Longrightarrow> map_option g (map_option (\<lambda>r. if Q r then f r else r) x) = map_option g x"
  by (cases x) auto

lemma link_touched [simp]:
  "link (d\<lparr>email_identities := update_rows Q (\<lambda>r. r\<lparr>ei_LastLogin := t\<rparr>) (email_identities d)\<rparr>) p = link d p"
  "link (d\<lparr>phone_identities := update_rows Q' (\<lambda>r. r\<lparr>pi_LastLogin := t\<rparr>) (phone_identities d)\<rparr>) p = link d p"
  "link (d\<lparr>federated_identities := update_rows Q'' (\<lambda>r. r\<lparr>fi_LastLogin := t\<rparr>) (federated_identities d)\<rparr>) p = link d p"
  by (simp_all add: link_def find_update_rows map_option_if_same split: PrincipalKind.split)

lemma link_appended:
  "link d p = Some u \<Longrightarrow> link (d\<lparr>email_identities := email_identities d @ [e]\<rparr>) p = Some u"
  "link d p = Some u \<Longrightarrow> link (d\<lparr>phone_identities := phone_identities d @ [f]\<rparr>) p = Some u"
  "link d p = Some u \<Longrightarrow> link (d\<lparr>federated_identities := federated_identities d @ [g]\<rparr>) p = Some u"
  by (auto simp: link_def find_append split: PrincipalKind.splits option.splits)

lemma stmt_links:
  "stmt_keeps (links_le d0) (q_GetEmailIdentity a)" "stmt_keeps (links_le d0) (q_GetPhoneIdentity a)"
  "stmt_keeps (links_le d0) (q_GetFederatedIdentity b a)" "stmt_keeps (links_le d0) (q_TouchEmailLogin a)"
  "stmt_keeps (links_le d0) (q_TouchPhoneLogin a)" "stmt_keeps (links_le d0) (q_TouchFederatedLogin b a)"
  by (auto simp: stmt_keeps_def q_GetEmailIdentity_def q_GetPhoneIdentity_def q_GetFederatedIdentity_def
      q_TouchEmailLogin_def q_TouchPhoneLogin_def q_TouchFederatedLogin_def links_le_def dest!: row_InrD)

lemma stmt_links_add:
  "stmt_keeps (links_le d0) (q_LinkEmailIdentity a u)" "stmt_keeps (links_le d0) (q_LinkPhoneIdentity a u)"
  "stmt_keeps (links_le d0) (q_LinkFederatedIdentity b a u)"
  by (auto simp: stmt_keeps_def q_LinkEmailIdentity_def q_LinkPhoneIdentity_def q_LinkFederatedIdentity_def links_le_def
      link_appended split: if_splits)

lemma stmt_links_quiet:
  "stmt_keeps (links_le d0) (q_CreateUser a b c e f)" "stmt_keeps (links_le d0) (q_CreateIdentityRecord a)"
  "stmt_keeps (links_le d0) (q_GetUser a)" "stmt_keeps (links_le d0) (q_GetIdentity a)"
  "stmt_keeps (links_le d0) (q_IssueRefreshToken a b c x t)" "stmt_keeps (links_le d0) (q_CurrentTokenVersion a)"
  "stmt_keeps (links_le d0) (q_HasAdultAttestation a)" "stmt_keeps (links_le d0) (q_HasVerifiedPhone a)"
  by (auto simp: stmt_keeps_def q_CreateUser_def q_CreateIdentityRecord_def q_GetUser_def q_GetIdentity_def
      q_IssueRefreshToken_def q_CurrentTokenVersion_def q_HasAdultAttestation_def q_HasVerifiedPhone_def Let_def
      split: if_splits dest!: row_InrD)

lemma stmt_links_challenges:
  "stmt_keeps (links_le d0) (q_GetActiveLoginChallenge a)" "stmt_keeps (links_le d0) (q_GetActivePhoneChallenge a)"
  "stmt_keeps (links_le d0) (q_IncrementLoginChallengeAttempts a)" "stmt_keeps (links_le d0) (q_IncrementPhoneChallengeAttempts a)"
  "stmt_keeps (links_le d0) (q_ConsumeLoginChallenge a)" "stmt_keeps (links_le d0) (q_ConsumePhoneChallenge a)"
  "stmt_keeps (links_le d0) (q_CreateLoginChallenge a b h t)" "stmt_keeps (links_le d0) (q_CreatePhoneChallenge a b h t)"
  by (auto simp: stmt_keeps_def q_GetActiveLoginChallenge_def q_GetActivePhoneChallenge_def q_IncrementLoginChallengeAttempts_def
      q_IncrementPhoneChallengeAttempts_def q_ConsumeLoginChallenge_def q_ConsumePhoneChallenge_def q_CreateLoginChallenge_def
      q_CreatePhoneChallenge_def split: if_splits dest!: row_InrD)

lemmas links_rules = keeps_rules stmt_links stmt_links_add stmt_links_quiet stmt_links_challenges

lemma keeps_resolvers:
  "keeps (links_le d0) (emailResolve fr p cur)" "keeps (links_le d0) (phoneResolve fr p cur)"
  "keeps (links_le d0) (federatedResolve fr p cur)"
  unfolding emailResolve_def phoneResolve_def federatedResolve_def newPendingUser_def GetEmailIdentity_def
    TouchEmailLogin_def LinkEmailIdentity_def GetPhoneIdentity_def TouchPhoneLogin_def LinkPhoneIdentity_def
    GetFederatedIdentity_def TouchFederatedLogin_def LinkFederatedIdentity_def CreateUser_def CreateIdentityRecord_def
  by (intro links_rules)+

section \<open>What a resolver promises\<close>

text \<open>A resolver answers with the account its principal is linked to, makes that link if there was none, and never
  moves a link.\<close>

locale link_resolver =
  fixes kind :: PrincipalKind and resolve :: resolver
  assumes lands: "pp_Kind p = kind \<Longrightarrow> resolve fr p cur w = (Inr uid, w') \<Longrightarrow> link (w_db w') p = Some uid"
    and links_kept: "keeps (links_le d0) (resolve fr p cur)"
begin

lemma found:
  assumes "pp_Kind p = kind" "resolve fr p cur w = (Inr uid, w')" "link (w_db w) p = Some u"
  shows "uid = u"
proof -
  have "links_le (w_db w) (w_db w')" using keepsD [OF links_kept assms(2)] by simp
  then show ?thesis using lands [OF assms(1,2)] assms(3) by (simp add: links_le_def)
qed

lemma again:
  assumes "pp_Kind p = kind" "resolve fr p cur w = (Inr uid, w1)" "links_le (w_db w1) (w_db w2)"
    and "resolve fr' p cur' w2 = (Inr uid', w3)"
  shows "uid' = uid"
  using found [OF assms(1,4)] lands [OF assms(1,2)] assms(3) by (simp add: links_le_def)

end

lemma touched_lands:
  assumes "attempt touch (\<lambda>_. ret u) w1 = (Inr uid, w')" "keeps (links_le (w_db w1)) touch" "link (w_db w1) p = Some u"
  shows "link (w_db w') p = Some uid"
proof -
  have "uid = u" "w' = snd (touch w1)" using assms(1) by (auto simp: attempt_def ret_def split: prod.splits)
  moreover have "links_le (w_db w1) (w_db (snd (touch w1)))" using assms(2) by (simp add: keeps_def)
  ultimately show ?thesis using assms(3) by (simp add: links_le_def)
qed

lemma created_lands:
  assumes "bind (newPendingUser fr) (\<lambda>uid. bind (add uid) (\<lambda>_. ret uid)) w1 = (Inr uid, w')"
  obtains w2 where "add uid w2 = (Inr (), w')"
  using assms by (auto elim!: bind_InrD)

lemma find_pg:
  assumes "pg (\<lambda>now d. row (f d) d) w = (Inr x, w')"
  shows "f (w_db w) = Some x" "w_db w' = w_db w"
  using row_InrD [OF pg_runD(1) [OF assms]] by simp_all

lemma link_after_insert:
  "q_LinkEmailIdentity (pp_Subject p) uid now d = Inr (y, d') \<Longrightarrow> pp_Kind p = PrincipalEmail \<Longrightarrow> link d' p = Some uid"
  "q_LinkPhoneIdentity (pp_Subject p) uid now d = Inr (y, d') \<Longrightarrow> pp_Kind p = PrincipalPhone \<Longrightarrow> link d' p = Some uid"
  "q_LinkFederatedIdentity (pp_Provider p) (pp_Subject p) uid now d = Inr (y, d') \<Longrightarrow> pp_Kind p = PrincipalFederated
     \<Longrightarrow> link d' p = Some uid"
  by (auto simp: q_LinkEmailIdentity_def q_LinkPhoneIdentity_def q_LinkFederatedIdentity_def link_def find_append list_ex_iff
      find_None_iff split: if_splits option.splits dest!: find_SomeD)

interpretation email_links: link_resolver PrincipalEmail emailResolve
proof unfold_locales
  fix p fr cur w uid w'
  assume k: "pp_Kind p = PrincipalEmail" and run: "emailResolve fr p cur w = (Inr uid, w')"
  obtain q w1 where g: "GetEmailIdentity (pp_Subject p) w = (q, w1)" by force
  show "link (w_db w') p = Some uid"
  proof (cases q)
    case (Inl err)
    then have "bind (newPendingUser fr) (\<lambda>uid. bind (LinkEmailIdentity (pp_Subject p) uid) (\<lambda>_. ret uid)) w1 = (Inr uid, w')"
      using run g by (auto simp: emailResolve_def attempt_def split: if_splits)
    then obtain w2 where l: "LinkEmailIdentity (pp_Subject p) uid w2 = (Inr (), w')" by (rule created_lands)
    from pg_runD(1) [OF l [unfolded LinkEmailIdentity_def]] k show ?thesis by (rule link_after_insert)
  next
    case (Inr e)
    then have r: "attempt (TouchEmailLogin (pp_Subject p)) (\<lambda>_. ret (ei_UserID e)) w1 = (Inr uid, w')"
      using run g by (auto simp: emailResolve_def attempt_def split: if_splits)
    note f = find_pg [OF g [unfolded Inr GetEmailIdentity_def q_GetEmailIdentity_def [abs_def]]]
    show ?thesis
      by (rule touched_lands [OF r]) (use f k in \<open>simp_all add: link_def TouchEmailLogin_def keeps_pg stmt_links\<close>)
  qed
qed (rule keeps_resolvers)

interpretation phone_links: link_resolver PrincipalPhone phoneResolve
proof unfold_locales
  fix p fr cur w uid w'
  assume k: "pp_Kind p = PrincipalPhone" and run: "phoneResolve fr p cur w = (Inr uid, w')"
  obtain q w1 where g: "GetPhoneIdentity (pp_Subject p) w = (q, w1)" by force
  show "link (w_db w') p = Some uid"
  proof (cases q)
    case (Inl err)
    then have "if cur \<noteq> '''' then bind (LinkPhoneIdentity (pp_Subject p) cur) (\<lambda>_. ret cur) w1 = (Inr uid, w')
        else bind (newPendingUser fr) (\<lambda>uid. bind (LinkPhoneIdentity (pp_Subject p) uid) (\<lambda>_. ret uid)) w1 = (Inr uid, w')"
      using run g by (auto simp: phoneResolve_def attempt_def split: if_splits)
    then obtain w2 where l: "LinkPhoneIdentity (pp_Subject p) uid w2 = (Inr (), w')"
      by (auto elim!: bind_InrD created_lands split: if_splits)
    from pg_runD(1) [OF l [unfolded LinkPhoneIdentity_def]] k show ?thesis by (rule link_after_insert)
  next
    case (Inr e)
    then have r: "attempt (TouchPhoneLogin (pp_Subject p)) (\<lambda>_. ret (pi_UserID e)) w1 = (Inr uid, w')"
      using run g by (auto simp: phoneResolve_def attempt_def split: if_splits)
    note f = find_pg [OF g [unfolded Inr GetPhoneIdentity_def q_GetPhoneIdentity_def [abs_def]]]
    show ?thesis
      by (rule touched_lands [OF r]) (use f k in \<open>simp_all add: link_def TouchPhoneLogin_def keeps_pg stmt_links\<close>)
  qed
qed (rule keeps_resolvers)

interpretation federated_links: link_resolver PrincipalFederated federatedResolve
proof unfold_locales
  fix p fr cur w uid w'
  assume k: "pp_Kind p = PrincipalFederated" and run: "federatedResolve fr p cur w = (Inr uid, w')"
  obtain q w1 where g: "GetFederatedIdentity (pp_Provider p) (pp_Subject p) w = (q, w1)" by force
  show "link (w_db w') p = Some uid"
  proof (cases q)
    case (Inl err)
    then have "bind (newPendingUser fr) (\<lambda>uid. bind (LinkFederatedIdentity (pp_Provider p) (pp_Subject p) uid) (\<lambda>_. ret uid)) w1 = (Inr uid, w')"
      using run g by (auto simp: federatedResolve_def attempt_def split: if_splits)
    then obtain w2 where l: "LinkFederatedIdentity (pp_Provider p) (pp_Subject p) uid w2 = (Inr (), w')" by (rule created_lands)
    from pg_runD(1) [OF l [unfolded LinkFederatedIdentity_def]] k show ?thesis by (rule link_after_insert)
  next
    case (Inr e)
    then have r: "attempt (TouchFederatedLogin (pp_Provider p) (pp_Subject p)) (\<lambda>_. ret (fi_UserID e)) w1 = (Inr uid, w')"
      using run g by (auto simp: federatedResolve_def attempt_def split: if_splits)
    note f = find_pg [OF g [unfolded Inr GetFederatedIdentity_def q_GetFederatedIdentity_def [abs_def]]]
    show ?thesis
      by (rule touched_lands [OF r]) (use f k in \<open>simp_all add: link_def TouchFederatedLogin_def keeps_pg stmt_links\<close>)
  qed
qed (rule keeps_resolvers)

section \<open>Sessions for the linked account\<close>

definition reading_sources :: "AuthSvc \<Rightarrow> bool" where
  "reading_sources s \<longleftrightarrow> (\<forall>src \<in> set (as_sources s). \<forall>uid w. w_db (snd (src uid w)) = w_db w)"

lemma keeps_gather:
  "(\<forall>src \<in> set sources. \<forall>uid w. w_db (snd (src uid w)) = w_db w) \<Longrightarrow> keeps J (gatherInto held sources uid)"
proof (induction sources arbitrary: held)
  case Nil
  then show ?case by (simp add: keeps_ret)
next
  case (Cons src sources)
  then have "keeps J (src uid)" by (simp add: keeps_def)
  moreover have "keeps J (gatherInto h sources uid)" for h using Cons by simp
  ultimately show ?case by (simp add: keeps_bind)
qed

lemma keeps_MintAccess: "keeps J (MintAccess m jti uid tv idv caps)"
  unfolding MintAccess_def Let_def by (intro keeps_rules)

lemma keeps_links_session: "reading_sources s \<Longrightarrow> keeps (links_le d0) (IssueSession s secret nid jti uid)"
  unfolding IssueSession_def mint_def GetUser_def GetIdentity_def IssueRefreshToken_def CurrentTokenVersion_def
    HasAdultAttestation_def HasVerifiedPhone_def Let_def reading_sources_def
  by (intro links_rules keeps_gather keeps_MintAccess)

lemma MintAccess_subject: "MintAccess m jti uid tv idv caps w = (Inr (tok, claims), w') \<Longrightarrow> Subject claims = uid"
  by (auto simp: MintAccess_def Let_def io_defs split: sum.splits)

lemma mint_subject: "mint s jti user idn secret e w = (Inr ses, w') \<Longrightarrow> Subject (se_AccessClaims ses) = u_ID user"
  unfolding mint_def by (auto elim!: bind_InrD dest!: MintAccess_subject split: prod.splits)

lemma IssueSession_subject:
  assumes "IssueSession s secret nid jti uid w = (Inr ses, w')"
  shows "Subject (se_AccessClaims ses) = uid" "\<exists>u \<in> set (users (w_db w)). u_ID u = uid \<and> canHoldSession (u_Status u)"
proof -
  obtain q w1 where g: "GetUser uid w = (q, w1)" by force
  with assms obtain u where q: "q = Inr u" and ok: "canHoldSession (u_Status u)"
    by (cases q) (auto simp: IssueSession_def attempt_def fail_def split: if_splits)
  note f = find_pg [OF g [unfolded q GetUser_def q_GetUser_def [abs_def]]]
  have u: "u \<in> set (users (w_db w))" "u_ID u = uid" using find_SomeD [OF f(1)] by auto
  show "\<exists>u \<in> set (users (w_db w)). u_ID u = uid \<and> canHoldSession (u_Status u)" using u ok by blast
  show "Subject (se_AccessClaims ses) = uid"
    using assms g q ok u(2) mint_subject
    by (fastforce simp: IssueSession_def attempt_def Let_def fail_def split: prod.splits sum.splits elim!: bind_InrD)
qed

text \<open>The resolver the code registers for each kind.\<close>

fun resolver_of :: "PrincipalKind \<Rightarrow> resolver" where
  "resolver_of PrincipalEmail = emailResolve"
| "resolver_of PrincipalPhone = phoneResolve"
| "resolver_of PrincipalFederated = federatedResolve"

definition wired :: "Authenticator \<Rightarrow> bool" where
  "wired a \<longleftrightarrow> reading_sources (au_sessions a) \<and> (\<forall>k r. au_resolvers a k = Some r \<longrightarrow> r = resolver_of k)"

lemma wired_constructors:
  assumes "reading_sources s"
  shows "wired (el_authn (NewEmailLogin s send parse))" "wired (pl_authn (NewPhoneLogin s send))" "wired (fd_authn (NewFederation s cs))"
  using assms by (auto simp: wired_def NewEmailLogin_def NewPhoneLogin_def NewFederation_def Register_def NewAuthenticator_def
      split: if_splits)

interpretation resolver_of_kind: link_resolver k "resolver_of k" for k
  by (cases k) (simp_all add: email_links.link_resolver_axioms phone_links.link_resolver_axioms federated_links.link_resolver_axioms)

lemma Authenticate_InrD:
  assumes "Authenticate a fr p cur w = (Inr ses, w')" "wired a"
  obtains w1 where "resolver_of (pp_Kind p) fr p cur w = (Inr (Subject (se_AccessClaims ses)), w1)"
    "IssueSession (au_sessions a) (fr_Secret fr) (fr_TokenID fr) (fr_JTI fr) (Subject (se_AccessClaims ses)) w1 = (Inr ses, w')"
proof -
  obtain r where r: "au_resolvers a (pp_Kind p) = Some r"
    using assms(1) by (auto simp: Authenticate_def split: option.splits)
  with assms(2) have "r = resolver_of (pp_Kind p)" by (simp add: wired_def)
  with assms(1) r obtain uid w1 where "resolver_of (pp_Kind p) fr p cur w = (Inr uid, w1)"
    "IssueSession (au_sessions a) (fr_Secret fr) (fr_TokenID fr) (fr_JTI fr) uid w1 = (Inr ses, w')"
    by (auto simp: Authenticate_def elim!: bind_InrD)
  with IssueSession_subject(1) [OF this(2)] show thesis by (intro that) simp_all
qed

lemma Authenticate_links:
  assumes "Authenticate a fr p cur w = (Inr ses, w')" "wired a"
  shows "link (w_db w') p = Some (Subject (se_AccessClaims ses))"
proof -
  obtain w1 where r: "resolver_of (pp_Kind p) fr p cur w = (Inr (Subject (se_AccessClaims ses)), w1)"
    "IssueSession (au_sessions a) (fr_Secret fr) (fr_TokenID fr) (fr_JTI fr) (Subject (se_AccessClaims ses)) w1 = (Inr ses, w')"
    using Authenticate_InrD [OF assms] .
  have "links_le (w_db w1) (w_db w')"
    using keepsD [OF keeps_links_session r(2)] assms(2) by (simp add: wired_def)
  then show ?thesis using resolver_of_kind.lands [OF refl r(1)] by (simp add: links_le_def)
qed

lemma keeps_links_Authenticate: "wired a \<Longrightarrow> keeps (links_le d0) (Authenticate a fr p cur)"
  unfolding Authenticate_def wired_def
  by (cases "au_resolvers a (pp_Kind p)")
    (auto intro!: keeps_rules keeps_links_session resolver_of_kind.links_kept)

lemma keeps_otp_cooling: "keeps J get \<Longrightarrow> keeps J (otp_cooling get)"
  unfolding otp_cooling_def by (intro keeps_rules)

lemma keeps_otp_check: "keeps J get \<Longrightarrow> (\<And>c. keeps J (increment c)) \<Longrightarrow> (\<And>c. keeps J (burn c)) \<Longrightarrow> keeps J (otp_check H get increment burn code)"
  unfolding otp_check_def by (intro keeps_rules)

lemmas challenge_ops = GetActiveLoginChallenge_def GetActivePhoneChallenge_def IncrementLoginChallengeAttempts_def
  IncrementPhoneChallengeAttempts_def ConsumeLoginChallenge_def ConsumePhoneChallenge_def CreateLoginChallenge_def CreatePhoneChallenge_def

lemma keeps_links_requests:
  "keeps (links_le d0) (email_RequestCode e cid code raw)" "keeps (links_le d0) (phone_RequestCode p cid code raw)"
  unfolding email_RequestCode_def phone_RequestCode_def challenge_ops by (intro links_rules keeps_otp_cooling)+

lemma keeps_links_verify_email: "wired (el_authn e) \<Longrightarrow> keeps (links_le d0) (email_VerifyCode e fr raw code)"
  unfolding email_VerifyCode_def challenge_ops by (intro links_rules keeps_otp_check keeps_links_Authenticate)

lemma keeps_links_verify_phone: "wired (pl_authn p) \<Longrightarrow> keeps (links_le d0) (phone_VerifyCode p fr raw code cur)"
  unfolding phone_VerifyCode_def challenge_ops by (intro links_rules keeps_otp_check keeps_links_Authenticate)

lemma keeps_links_federate: "wired (fd_authn f) \<Longrightarrow> keeps (links_le d0) (Complete f fr provider code secret)"
  unfolding Complete_def by (intro links_rules keeps_links_Authenticate)

lemmas keeps_links_flows = keeps_links_requests keeps_links_verify_email keeps_links_verify_phone keeps_links_federate

text \<open>Everything the login flows do between two logins, by any of them and under any faults; time passes too.\<close>

inductive login_step :: "world \<Rightarrow> world \<Rightarrow> bool" where
  request_email: "email_RequestCode e cid code raw w = (r, w') \<Longrightarrow> login_step w w'"
| request_phone: "phone_RequestCode p cid code raw w = (r, w') \<Longrightarrow> login_step w w'"
| verify_email: "wired (el_authn e) \<Longrightarrow> email_VerifyCode e fr raw code w = (r, w') \<Longrightarrow> login_step w w'"
| verify_phone: "wired (pl_authn p) \<Longrightarrow> phone_VerifyCode p fr raw code cur w = (r, w') \<Longrightarrow> login_step w w'"
| federate: "wired (fd_authn f) \<Longrightarrow> Complete f fr provider code secret w = (r, w') \<Longrightarrow> login_step w w'"
| elapse: "w_db w' = w_db w \<Longrightarrow> login_step w w'"

lemma login_step_links: "login_step w w' \<Longrightarrow> links_le d0 (w_db w) \<Longrightarrow> links_le d0 (w_db w')"
  by (induction rule: login_step.induct) (auto dest: keepsD [OF keeps_links_flows(1)] keepsD [OF keeps_links_flows(2)]
      keepsD [OF keeps_links_flows(3)] keepsD [OF keeps_links_flows(4)] keepsD [OF keeps_links_flows(5)])

lemma login_steps_links: "login_step\<^sup>*\<^sup>* w w' \<Longrightarrow> links_le (w_db w) (w_db w')"
  by (induction rule: rtranclp_induct) (auto intro: login_step_links)

text \<open>C28: a credential always logs in to the same account. When an address, a phone number or a provider's subject has
  given a session, then after whatever logins, sign-ups and code requests of anybody, under any faults, the session
  it gives next is for the same account, also when a signed-in user presents it.\<close>
theorem login_same_account:
  assumes "Authenticate a fr p cur w = (Inr ses, w1)" "wired a" and "login_step\<^sup>*\<^sup>* w1 w2"
    and "Authenticate a' fr' p cur' w2 = (Inr ses', w3)" "wired a'"
  shows "Subject (se_AccessClaims ses') = Subject (se_AccessClaims ses)"
proof -
  have "link (w_db w2) p = Some (Subject (se_AccessClaims ses))"
    using Authenticate_links [OF assms(1,2)] login_steps_links [OF assms(3)] by (simp add: links_le_def)
  moreover obtain v where "resolver_of (pp_Kind p) fr' p cur' w2 = (Inr (Subject (se_AccessClaims ses')), v)"
    using Authenticate_InrD [OF assms(4,5)] .
  ultimately show ?thesis using resolver_of_kind.found [OF refl] by simp
qed

section \<open>What a code proves\<close>

lemma phone_VerifyCode_InrD:
  assumes "phone_VerifyCode p fr raw code cur w = (Inr ses, w')"
  obtains phone w1 where "normalizeE164 raw = Inr phone"
    "otp_check (hashSecret (au_sessions (pl_authn p))) (GetActivePhoneChallenge phone)
       IncrementPhoneChallengeAttempts ConsumePhoneChallenge code w = (Inr (), w1)"
    "Authenticate (pl_authn p) fr \<lparr>pp_Kind = PrincipalPhone, pp_Provider = '''', pp_Subject = phone\<rparr> cur w1 = (Inr ses, w')"
  using assms by (auto simp: phone_VerifyCode_def split: sum.splits elim!: bind_InrD)

lemma phoneResolve_current:
  assumes "phoneResolve fr p cur w = (Inr uid, w')" "cur \<noteq> ''''"
  shows "uid = cur"
proof -
  obtain q w1 where g: "GetPhoneIdentity (pp_Subject p) w = (q, w1)" by force
  show ?thesis
  proof (cases q)
    case (Inl e)
    then show ?thesis using assms g by (auto simp: phoneResolve_def attempt_def elim!: bind_InrD split: if_splits)
  next
    case (Inr e)
    then show ?thesis using assms g by (auto simp: phoneResolve_def attempt_def ret_def split: if_splits prod.splits)
  qed
qed

text \<open>C34: what it takes to log in with a phone. A session is issued only for a code whose hash is that of an
  outstanding challenge of the normalized number, neither used nor expired nor locked by wrong guesses; the
  session is for the account the number is linked to; and when a signed-in user verified
  the number, it is that user's account, never another one.\<close>
theorem phone_VerifyCode_sound:
  assumes "phone_VerifyCode p fr raw code cur w = (Inr ses, w')" and "wired (pl_authn p)"
  shows "\<exists>phone ch. normalizeE164 raw = Inr phone \<and> ch \<in> set (phone_challenges (w_db w)) \<and> ch_Addr ch = phone
    \<and> ch_ConsumedAt ch = None \<and> w_pgnow w < ch_ExpiresAt ch \<and> ch_Attempts ch < maxCodeAttempts
    \<and> ch_CodeHash ch = hashSecret (au_sessions (pl_authn p)) code
    \<and> map_option pi_UserID (List.find (\<lambda>r. pi_Phone r = phone) (phone_identities (w_db w')))
        = Some (Subject (se_AccessClaims ses))
    \<and> (cur \<noteq> '''' \<longrightarrow> Subject (se_AccessClaims ses) = cur)"
proof -
  obtain phone w1 where n: "normalizeE164 raw = Inr phone"
    and o: "otp_check (hashSecret (au_sessions (pl_authn p))) (GetActivePhoneChallenge phone)
       IncrementPhoneChallengeAttempts ConsumePhoneChallenge code w = (Inr (), w1)"
    and a: "Authenticate (pl_authn p) fr \<lparr>pp_Kind = PrincipalPhone, pp_Provider = '''', pp_Subject = phone\<rparr> cur w1 = (Inr ses, w')"
    using phone_VerifyCode_InrD [OF assms(1)] .
  obtain ch where c: "active_challenge phone (w_pgnow w) (phone_challenges (w_db w)) = Some ch" "ch_Attempts ch < maxCodeAttempts"
    "ch_CodeHash ch = hashSecret (au_sessions (pl_authn p)) code"
    using phone_otp.accepted [OF o] by blast
  have l: "map_option pi_UserID (List.find (\<lambda>r. pi_Phone r = phone) (phone_identities (w_db w'))) = Some (Subject (se_AccessClaims ses))"
    using Authenticate_links [OF a assms(2)] by (simp add: link_def)
  have u: "cur \<noteq> '''' \<longrightarrow> Subject (se_AccessClaims ses) = cur"
    using Authenticate_InrD [OF a assms(2)] phoneResolve_current by (metis PrincipalKind.simps resolver_of.simps(2) Principal.select_convs(1))
  show ?thesis using n c active_challengeD [OF c(1)] l u by auto
qed

text \<open>Wrong guesses exhaust the challenge of an address.\<close>

lemma email_guesses_exhaust:
  assumes "normalizeEmail (el_parseAddress e) raw = Inr email" "calm w"
    and "active_challenge email (w_pgnow w) (login_challenges (w_db w)) = Some ch"
    and "distinct (map ch_ID (login_challenges (w_db w)))"
    and "\<forall>c \<in> set cs. hashSecret (au_sessions (el_authn e)) c \<noteq> ch_CodeHash ch"
    and "maxCodeAttempts \<le> ch_Attempts ch + int (length cs)"
    and "w' = foldl (\<lambda>w c. snd (email_VerifyCode e fr raw c w)) w cs"
  shows "dead (ch_ID ch) (login_challenges (w_db w'))" "email_VerifyCode e fr raw code w' = (Inl ErrInvalidCode, w')"
proof -
  have flow: "email_VerifyCode e fr raw c v = (Inl e', v')"
    if "otp_check (hashSecret (au_sessions (el_authn e))) (GetActiveLoginChallenge email) IncrementLoginChallengeAttempts ConsumeLoginChallenge c v = (Inl e', v')"
    for c v e' v'
    using that assms(1) by (simp add: email_VerifyCode_def bind_def)
  obtain ch' where ch': "calm w'" "active_challenge email (w_pgnow w') (login_challenges (w_db w')) = Some ch'" "ch_ID ch' = ch_ID ch"
    "maxCodeAttempts \<le> ch_Attempts ch'" "distinct (map ch_ID (login_challenges (w_db w')))"
    using email_otp.guesses_exhaust [OF flow assms(2-7)] by blast
  show "dead (ch_ID ch) (login_challenges (w_db w'))"
    using ch' active_challengeD(1) [OF ch'(2)] unfolding dead_def by blast
  show "email_VerifyCode e fr raw code w' = (Inl ErrInvalidCode, w')"
    by (rule flow [OF email_otp.locked [OF ch'(1,2,4)]])
qed

text \<open>A code that is accepted belongs to a challenge that is not exhausted.\<close>

lemma email_VerifyCode_challenge:
  assumes "email_VerifyCode e fr raw code w = (Inr ses, w')"
  obtains email ch where "normalizeEmail (el_parseAddress e) raw = Inr email" "ch \<in> set (login_challenges (w_db w))" "ch_Addr ch = email"
    "ch_ConsumedAt ch = None" "w_pgnow w < ch_ExpiresAt ch" "ch_Attempts ch < maxCodeAttempts"
    "ch_CodeHash ch = hashSecret (au_sessions (el_authn e)) code"
proof -
  obtain email w1 where n: "normalizeEmail (el_parseAddress e) raw = Inr email"
    and o: "otp_check (hashSecret (au_sessions (el_authn e))) (GetActiveLoginChallenge email) IncrementLoginChallengeAttempts
       ConsumeLoginChallenge code w = (Inr (), w1)"
    using assms by (auto simp: email_VerifyCode_def split: sum.splits elim!: bind_InrD)
  obtain ch where c: "active_challenge email (w_pgnow w) (login_challenges (w_db w)) = Some ch" "ch_Attempts ch < maxCodeAttempts"
    "ch_CodeHash ch = hashSecret (au_sessions (el_authn e)) code"
    using email_otp.accepted [OF o] by blast
  show thesis using that [OF n _ _ _ _ c(2,3)] active_challengeD [OF c(1)] by blast
qed

section \<open>A login\<close>

definition demo_sessions :: AuthSvc where
  "demo_sessions = \<lparr>as_minter = \<lparr>mi_codec = demo_codec, mi_signer = demo_signer, mi_issuer = ''iss'', mi_ttl = minutes 5\<rparr>,
     as_refreshTTL = minutes 60, as_hash = (\<lambda>x. x), as_policy = defaultAssurancePolicy, as_sources = []\<rparr>"

definition demo_vault :: IdentityVault where
  "demo_vault = \<lparr>iv_UserID = ''u1'', iv_VerificationStatus = ''none'', iv_IsAdult = False, iv_ProviderRef = None,
     iv_FullNameEnc = [], iv_DobEnc = [], iv_EmailEnc = [], iv_VerifiedAt = None, iv_RetainUntil = None\<rparr>"

definition demo_login_db :: db where
  "demo_login_db = empty_db\<lparr>users := [demo_user ''u1''], identity_vault := [demo_vault],
     phone_identities := [\<lparr>pi_Phone = ''+8490000001'', pi_UserID = ''u1'', pi_CreatedAt = 0, pi_LastLogin = None\<rparr>],
     phone_challenges := [new_challenge ''c1'' ''+8490000001'' ''123456'' codeTTL 0],
     login_challenges := [new_challenge ''c2'' ''a@x'' ''123456'' codeTTL 0]\<rparr>"

definition demo_fresh :: "string \<Rightarrow> Fresh" where
  "demo_fresh i = \<lparr>fr_ID = i, fr_Handle = i, fr_Secret = i, fr_TokenID = i, fr_JTI = i\<rparr>"

definition demo_phone_login :: PhoneLogin where
  "demo_phone_login = NewPhoneLogin demo_sessions (\<lambda>_ _. None)"

definition demo_email_login :: EmailLogin where
  "demo_email_login = NewEmailLogin demo_sessions (\<lambda>_ _. None) Some"

lemma demo_wired: "wired (pl_authn demo_phone_login)" "wired (el_authn demo_email_login)"
  unfolding demo_phone_login_def demo_email_login_def
  by (rule wired_constructors, simp add: reading_sources_def demo_sessions_def)+

lemmas demo_login_defs = demo_sessions_def demo_login_db_def demo_vault_def demo_fresh_def demo_world_def empty_db_def demo_user_def
  new_challenge_def codeTTL_def minutes_def seconds_def

lemma demo_session_issued:
  assumes "calm w" "users (w_db w) = [demo_user ''u1'']" "identity_vault (w_db w) = [demo_vault]"
    and "\<forall>t \<in> set (refresh_tokens (w_db w)). rt_ID t \<noteq> i \<and> rt_TokenHash t \<noteq> i"
  shows "\<exists>ses w'. IssueSession demo_sessions i i j ''u1'' w = (Inr ses, w') \<and> calm w'
    \<and> users (w_db w') = [demo_user ''u1''] \<and> identity_vault (w_db w') = [demo_vault]
    \<and> set (refresh_tokens (w_db w')) \<subseteq> set (refresh_tokens (w_db w)) \<union> {t. rt_ID t = i \<and> rt_TokenHash t = i}
    \<and> phone_identities (w_db w') = phone_identities (w_db w)"
  using assms
  by (auto simp: IssueSession_def GetUser_def q_GetUser_def GetIdentity_def q_GetIdentity_def io_defs demo_vault_def demo_user_def canHoldSession_def
      IssueRefreshToken_def q_IssueRefreshToken_def list_ex_iff hashSecret_def demo_sessions_def mint_def CurrentTokenVersion_def q_CurrentTokenVersion_def
      HasAdultAttestation_def q_HasAdultAttestation_def HasVerifiedPhone_def q_HasVerifiedPhone_def MintAccess_def Let_def Sign_def demo_signer_def
      user_exists_def)

lemma demo_number: "normalizeE164 '' +84 9000-0001'' = Inr ''+8490000001''"
  by (simp add: normalizeE164_def trim_space_def is_space_def)

abbreviation demo_principal :: Principal where
  "demo_principal \<equiv> \<lparr>pp_Kind = PrincipalPhone, pp_Provider = '''', pp_Subject = ''+8490000001''\<rparr>"

lemma demo_authenticates:
  assumes "calm w" "users (w_db w) = [demo_user ''u1'']" "identity_vault (w_db w) = [demo_vault]"
    and "\<forall>t \<in> set (refresh_tokens (w_db w)). rt_ID t \<noteq> i \<and> rt_TokenHash t \<noteq> i"
    and "List.find (\<lambda>r. pi_Phone r = ''+8490000001'') (phone_identities (w_db w)) = Some e" "pi_UserID e = ''u1''"
  shows "\<exists>ses w'. Authenticate (pl_authn demo_phone_login) (demo_fresh i) demo_principal '''' w = (Inr ses, w') \<and> calm w'
    \<and> users (w_db w') = [demo_user ''u1''] \<and> identity_vault (w_db w') = [demo_vault]
    \<and> set (refresh_tokens (w_db w')) \<subseteq> set (refresh_tokens (w_db w)) \<union> {t. rt_ID t = i \<and> rt_TokenHash t = i}
    \<and> phone_identities (w_db w') = update_rows (\<lambda>r. pi_Phone r = ''+8490000001'') (\<lambda>r. r\<lparr>pi_LastLogin := Some (w_pgnow w)\<rparr>) (phone_identities (w_db w))"
proof -
  let ?w = "w\<lparr>w_db := (w_db w)\<lparr>phone_identities := update_rows (\<lambda>r. pi_Phone r = ''+8490000001'')
     (\<lambda>r. r\<lparr>pi_LastLogin := Some (w_pgnow w)\<rparr>) (phone_identities (w_db w))\<rparr>\<rparr>"
  have "phoneResolve (demo_fresh i) demo_principal '''' w = (Inr ''u1'', ?w)"
    using assms by (simp add: phoneResolve_def GetPhoneIdentity_def q_GetPhoneIdentity_def TouchPhoneLogin_def q_TouchPhoneLogin_def io_defs)
  moreover have "\<exists>ses w'. IssueSession demo_sessions i i i ''u1'' ?w = (Inr ses, w') \<and> calm w'
    \<and> users (w_db w') = [demo_user ''u1''] \<and> identity_vault (w_db w') = [demo_vault]
    \<and> set (refresh_tokens (w_db w')) \<subseteq> set (refresh_tokens (w_db ?w)) \<union> {t. rt_ID t = i \<and> rt_TokenHash t = i}
    \<and> phone_identities (w_db w') = phone_identities (w_db ?w)"
    by (rule demo_session_issued) (use assms in simp_all)
  ultimately show ?thesis
    by (simp add: Authenticate_def demo_phone_login_def NewPhoneLogin_def Register_def NewAuthenticator_def demo_fresh_def bind_def)
qed

lemma demo_phone_verified:
  "\<exists>ses w'. phone_VerifyCode demo_phone_login (demo_fresh ''r1'') '' +84 9000-0001'' ''123456'' '''' (demo_world demo_login_db) = (Inr ses, w')"
proof -
  let ?w = "demo_world (demo_login_db\<lparr>phone_challenges := consume ''c1'' 0 (phone_challenges demo_login_db)\<rparr>)"
  have "otp_check (hashSecret demo_sessions) (GetActivePhoneChallenge ''+8490000001'') IncrementPhoneChallengeAttempts
      ConsumePhoneChallenge ''123456'' (demo_world demo_login_db) = (Inr (), ?w)"
    by (simp add: otp_check_def GetActivePhoneChallenge_def q_GetActivePhoneChallenge_def ConsumePhoneChallenge_def
        q_ConsumePhoneChallenge_def active_challenge_def order_by_desc_def demo_login_defs calm_def io_defs hashSecret_def maxCodeAttempts_def)
  moreover have "\<exists>ses w'. Authenticate (pl_authn demo_phone_login) (demo_fresh ''r1'') demo_principal '''' ?w = (Inr ses, w') \<and> calm w'
    \<and> users (w_db w') = [demo_user ''u1''] \<and> identity_vault (w_db w') = [demo_vault]
    \<and> set (refresh_tokens (w_db w')) \<subseteq> set (refresh_tokens (w_db ?w)) \<union> {t. rt_ID t = ''r1'' \<and> rt_TokenHash t = ''r1''}
    \<and> phone_identities (w_db w') = update_rows (\<lambda>r. pi_Phone r = ''+8490000001'') (\<lambda>r. r\<lparr>pi_LastLogin := Some (w_pgnow ?w)\<rparr>) (phone_identities (w_db ?w))"
    by (rule demo_authenticates [where e = "hd (phone_identities demo_login_db)"]) (simp_all add: demo_login_defs calm_def)
  moreover have "au_sessions (pl_authn demo_phone_login) = demo_sessions"
    by (simp add: demo_phone_login_def NewPhoneLogin_def Register_def NewAuthenticator_def)
  ultimately show ?thesis by (auto simp: phone_VerifyCode_def demo_number bind_def)
qed

theorem phone_VerifyCode_sound_witness:
  "\<exists>ses w' phone. phone_VerifyCode demo_phone_login (demo_fresh ''r1'') '' +84 9000-0001'' ''123456'' '''' (demo_world demo_login_db) = (Inr ses, w')
    \<and> normalizeE164 '' +84 9000-0001'' = Inr phone
    \<and> map_option pi_UserID (List.find (\<lambda>r. pi_Phone r = phone) (phone_identities (w_db w'))) = Some (Subject (se_AccessClaims ses))"
proof -
  obtain ses w' where "phone_VerifyCode demo_phone_login (demo_fresh ''r1'') '' +84 9000-0001'' ''123456'' '''' (demo_world demo_login_db) = (Inr ses, w')"
    using demo_phone_verified by blast
  with phone_VerifyCode_sound [OF this demo_wired(1)] show ?thesis by blast
qed

theorem login_same_account_witness:
  "\<exists>ses w1 ses' w2. Authenticate (pl_authn demo_phone_login) (demo_fresh ''r1'') demo_principal '''' (demo_world demo_login_db) = (Inr ses, w1)
    \<and> Authenticate (pl_authn demo_phone_login) (demo_fresh ''r2'') demo_principal '''' w1 = (Inr ses', w2)
    \<and> Subject (se_AccessClaims ses') = Subject (se_AccessClaims ses)"
proof -
  have "\<exists>ses w1. Authenticate (pl_authn demo_phone_login) (demo_fresh ''r1'') demo_principal '''' (demo_world demo_login_db) = (Inr ses, w1) \<and> calm w1
    \<and> users (w_db w1) = [demo_user ''u1''] \<and> identity_vault (w_db w1) = [demo_vault]
    \<and> set (refresh_tokens (w_db w1)) \<subseteq> set (refresh_tokens (w_db (demo_world demo_login_db))) \<union> {t. rt_ID t = ''r1'' \<and> rt_TokenHash t = ''r1''}
    \<and> phone_identities (w_db w1) = update_rows (\<lambda>r. pi_Phone r = ''+8490000001'')
        (\<lambda>r. r\<lparr>pi_LastLogin := Some (w_pgnow (demo_world demo_login_db))\<rparr>) (phone_identities (w_db (demo_world demo_login_db)))"
    by (rule demo_authenticates [where e = "hd (phone_identities demo_login_db)"]) (simp_all add: demo_login_defs calm_def)
  then obtain ses w1 where a: "Authenticate (pl_authn demo_phone_login) (demo_fresh ''r1'') demo_principal '''' (demo_world demo_login_db) = (Inr ses, w1)"
    and w1: "calm w1" "users (w_db w1) = [demo_user ''u1'']" "identity_vault (w_db w1) = [demo_vault]"
    and t: "set (refresh_tokens (w_db w1)) \<subseteq> set (refresh_tokens (w_db (demo_world demo_login_db))) \<union> {t. rt_ID t = ''r1'' \<and> rt_TokenHash t = ''r1''}"
    and i: "phone_identities (w_db w1) = update_rows (\<lambda>r. pi_Phone r = ''+8490000001'')
        (\<lambda>r. r\<lparr>pi_LastLogin := Some (w_pgnow (demo_world demo_login_db))\<rparr>) (phone_identities (w_db (demo_world demo_login_db)))"
    by blast
  have t2: "\<forall>t \<in> set (refresh_tokens (w_db w1)). rt_ID t \<noteq> ''r2'' \<and> rt_TokenHash t \<noteq> ''r2''"
    using t by (auto simp: demo_world_def demo_login_db_def empty_db_def)
  have i2: "phone_identities (w_db w1) = [\<lparr>pi_Phone = ''+8490000001'', pi_UserID = ''u1'', pi_CreatedAt = 0, pi_LastLogin = Some 0\<rparr>]"
    using i by (simp add: demo_world_def demo_login_db_def)
  obtain ses' w2 where b: "Authenticate (pl_authn demo_phone_login) (demo_fresh ''r2'') demo_principal '''' w1 = (Inr ses', w2)"
    using demo_authenticates [OF w1 t2, of "hd (phone_identities (w_db w1))"] i2 by auto
  from login_same_account [OF a demo_wired(1) rtranclp.rtrancl_refl b demo_wired(1)] a b show ?thesis by blast
qed

end
