(* ===== verification/StepUp.thy ===== *)
theory StepUp
  imports Login Http
begin

text \<open>
  Step-up verification (\<^verbatim>\<open>internal/auth/stepup.go\<close>, \<^verbatim>\<open>http_stepup.go\<close>): a signed-in user proves control of a
  registered factor again and gets a short-lived grant, which the data export asks for. It runs over the challenge
  tables of the login flows.

  \<^verbatim>\<open>time.Format\<close> is a parameter; the bullets of a masked hint are the three UTF-8 encoded characters of the source.
\<close>

section \<open>The service\<close>

definition stepUpTTL :: duration where "stepUpTTL = minutes 5"

abbreviation ErrStepUpUnavailable :: error where
  "ErrStepUpUnavailable \<equiv> Err ''auth: step-up verification unavailable for this account''"

record StepUpSvc =
  su_hash :: "bytes \<Rightarrow> bytes"
  su_sms :: "sender option"
  su_email :: "sender option"
  su_format :: "instant \<Rightarrow> string"

record channel =
  cl_kind :: string
  cl_target :: string

definition pickChannel :: "StepUpSvc \<Rightarrow> IdentityFactors \<Rightarrow> channel option" where
  "pickChannel s f =
     (if if_Phone f \<noteq> None \<and> the (if_Phone f) \<noteq> '''' \<and> su_sms s \<noteq> None
      then Some \<lparr>cl_kind = ''phone'', cl_target = the (if_Phone f)\<rparr>
      else if if_Email f \<noteq> None \<and> the (if_Email f) \<noteq> '''' \<and> su_email s \<noteq> None
      then Some \<lparr>cl_kind = ''email'', cl_target = the (if_Email f)\<rparr>
      else None)"

text \<open>A bullet is the bytes E2 80 A2.\<close>

definition bullets :: string where
  "bullets = concat (replicate 3 [CHR 0xE2, CHR 0x80, CHR 0xA2])"

definition maskPhone :: "string \<Rightarrow> string" where
  "maskPhone p = (if length p \<le> 4 then bullets else take 1 p @ bullets @ drop (length p - 3) p)"

definition maskEmail :: "string \<Rightarrow> string" where
  "maskEmail e =
     (let rest = dropWhile (\<lambda>r. r \<noteq> CHR ''@'') e; at = length e - length rest
      in if rest = [] \<or> at = 0 then bullets else take 1 e @ bullets @ rest)"

record RequestResult =
  rr_Channel :: string
  rr_Hint :: string

definition stepup_RequestCode :: "StepUpSvc \<Rightarrow> string \<Rightarrow> string \<Rightarrow> string \<Rightarrow> RequestResult io" where
  "stepup_RequestCode s cid code uid =
     bind (GetIdentityFactors uid) (\<lambda>factors.
       case pickChannel s factors of
         None \<Rightarrow> fail ErrStepUpUnavailable
       | Some ch \<Rightarrow>
           if cl_kind ch = ''phone'' then
             bind (otp_cooling (GetActivePhoneChallenge (cl_target ch))) (\<lambda>cooling.
               if cooling then ret \<lparr>rr_Channel = cl_kind ch, rr_Hint = maskPhone (cl_target ch)\<rparr>
               else bind goNow (\<lambda>now.
                 bind (CreatePhoneChallenge cid (cl_target ch) (su_hash s code) (now + codeTTL)) (\<lambda>_.
                 bind (send_code (the (su_sms s)) (cl_target ch) code) (\<lambda>_.
                 ret \<lparr>rr_Channel = cl_kind ch, rr_Hint = maskPhone (cl_target ch)\<rparr>))))
           else
             bind (otp_cooling (GetActiveLoginChallenge (cl_target ch))) (\<lambda>cooling.
               if cooling then ret \<lparr>rr_Channel = cl_kind ch, rr_Hint = maskEmail (cl_target ch)\<rparr>
               else bind goNow (\<lambda>now.
                 bind (CreateLoginChallenge cid (cl_target ch) (su_hash s code) (now + codeTTL)) (\<lambda>_.
                 bind (send_code (the (su_email s)) (cl_target ch) code) (\<lambda>_.
                 ret \<lparr>rr_Channel = cl_kind ch, rr_Hint = maskEmail (cl_target ch)\<rparr>)))))"

definition check_channel :: "StepUpSvc \<Rightarrow> channel \<Rightarrow> string \<Rightarrow> unit io" where
  "check_channel s ch code =
     (if cl_kind ch = ''phone''
      then otp_check (su_hash s) (GetActivePhoneChallenge (cl_target ch)) IncrementPhoneChallengeAttempts ConsumePhoneChallenge code
      else otp_check (su_hash s) (GetActiveLoginChallenge (cl_target ch)) IncrementLoginChallengeAttempts ConsumeLoginChallenge code)"

text \<open>\<^verbatim>\<open>raw\<close> and \<^verbatim>\<open>gid\<close> are the fresh grant token and id.\<close>

definition stepup_Verify :: "StepUpSvc \<Rightarrow> string \<Rightarrow> string \<Rightarrow> string \<Rightarrow> string \<Rightarrow> (string \<times> instant) io" where
  "stepup_Verify s raw gid uid code =
     bind (GetIdentityFactors uid) (\<lambda>factors.
       case pickChannel s factors of
         None \<Rightarrow> fail ErrStepUpUnavailable
       | Some ch \<Rightarrow>
           bind (check_channel s ch code) (\<lambda>_.
           bind goNow (\<lambda>now.
           bind (CreateStepUpGrant gid uid (su_hash s raw) (now + stepUpTTL)) (\<lambda>_.
           ret (raw, now + stepUpTTL)))))"

definition ValidGrant :: "StepUpSvc \<Rightarrow> string \<Rightarrow> string \<Rightarrow> bool io" where
  "ValidGrant s uid rawToken =
     (if rawToken = '''' then ret False else StepUpGrantValid uid (su_hash s rawToken))"

section \<open>The export\<close>

record exportProfile =
  ep_UserID :: string
  ep_Handle :: string
  ep_DisplayName :: string
  ep_Bio :: string
  ep_Locale :: string
  ep_Status :: string
  ep_CreatedAt :: string

record exportIdentity =
  ex_VerificationStatus :: string
  ex_IsAdult :: bool
  ex_VerifiedAt :: "string option"
  ex_RetainUntil :: "string option"
  ex_FullNameOnFile :: bool
  ex_DobOnFile :: bool
  ex_EmailOnFile :: bool

record exportClass =
  xc_ID :: string
  xc_Title :: string
  xc_Status :: string

record exportToS =
  xt_Version :: string
  xt_AdultAttested :: bool
  xt_AcceptedAt :: string

record Export =
  xp_Profile :: exportProfile
  xp_Identity :: exportIdentity
  xp_Logins :: IdentityFactors
  xp_Enrolled :: "exportClass list"
  xp_ToS :: "exportToS list"
  xp_SessionCount :: nat
  xp_ConsentCount :: nat

definition assemble :: "(instant \<Rightarrow> string) \<Rightarrow> User \<Rightarrow> IdentityVault \<Rightarrow> IdentityFactors \<Rightarrow> Class list \<Rightarrow> TosAcceptance list \<Rightarrow> nat \<Rightarrow> nat \<Rightarrow> Export" where
  "assemble format user idn factors enrolled tos sessionCount consentCount =
     \<lparr>xp_Profile = \<lparr>ep_UserID = u_ID user, ep_Handle = u_Handle user, ep_DisplayName = u_DisplayName user,
        ep_Bio = (case u_Bio user of None \<Rightarrow> '''' | Some b \<Rightarrow> b), ep_Locale = u_Locale user, ep_Status = u_Status user,
        ep_CreatedAt = format (u_CreatedAt user)\<rparr>,
      xp_Identity = \<lparr>ex_VerificationStatus = iv_VerificationStatus idn, ex_IsAdult = iv_IsAdult idn,
        ex_VerifiedAt = map_option format (iv_VerifiedAt idn), ex_RetainUntil = map_option format (iv_RetainUntil idn),
        ex_FullNameOnFile = (iv_FullNameEnc idn \<noteq> []), ex_DobOnFile = (iv_DobEnc idn \<noteq> []), ex_EmailOnFile = (iv_EmailEnc idn \<noteq> [])\<rparr>,
      xp_Logins = factors,
      xp_Enrolled = map (\<lambda>c. \<lparr>xc_ID = c_ID c, xc_Title = c_Title c, xc_Status = c_Status c\<rparr>) enrolled,
      xp_ToS = map (\<lambda>t. \<lparr>xt_Version = ta_TosVersion t, xt_AdultAttested = ta_AdultAttested t, xt_AcceptedAt = format (ta_AcceptedAt t)\<rparr>) tos,
      xp_SessionCount = sessionCount, xp_ConsentCount = consentCount\<rparr>"

definition stepup_Export :: "StepUpSvc \<Rightarrow> string \<Rightarrow> Export io" where
  "stepup_Export s uid =
     bind (GetUser uid) (\<lambda>user.
     bind (GetIdentity uid) (\<lambda>idn.
     bind (GetIdentityFactors uid) (\<lambda>factors.
     bind (EnrolledClassesWithDetails uid) (\<lambda>enrolled.
     bind (ListToSAcceptances uid) (\<lambda>tos.
     bind (ListSessionHistory uid) (\<lambda>sessions.
     bind (ListConsentHistory uid) (\<lambda>consents.
     ret (assemble (su_format s) user idn factors enrolled tos (length sessions) (length consents)))))))))"

section \<open>The endpoints\<close>

definition exportJSON :: "Export \<Rightarrow> json" where
  "exportJSON x =
     (let p = xp_Profile x; i = xp_Identity x; l = xp_Logins x in
      JObj [(''profile'', JObj [(''userId'', JStr (ep_UserID p)), (''handle'', JStr (ep_Handle p)), (''displayName'', JStr (ep_DisplayName p)),
              (''bio'', JStr (ep_Bio p)), (''locale'', JStr (ep_Locale p)), (''status'', JStr (ep_Status p)), (''createdAt'', JStr (ep_CreatedAt p))]),
            (''identity'', JObj [(''verificationStatus'', JStr (ex_VerificationStatus i)), (''isAdult'', JBool (ex_IsAdult i)),
              (''verifiedAt'', jopt JStr (ex_VerifiedAt i)), (''retainUntil'', jopt JStr (ex_RetainUntil i)),
              (''fullNameOnFile'', JBool (ex_FullNameOnFile i)), (''dobOnFile'', JBool (ex_DobOnFile i)), (''emailOnFile'', JBool (ex_EmailOnFile i))]),
            (''loginMethods'', JObj [(''email'', jopt JStr (if_Email l)), (''phone'', jopt JStr (if_Phone l)),
              (''federated'', JArr (map JStr (if_Federated l)))]),
            (''enrolledClasses'', JArr (map (\<lambda>c. JObj [(''id'', JStr (xc_ID c)), (''title'', JStr (xc_Title c)), (''status'', JStr (xc_Status c))])
              (xp_Enrolled x))),
            (''tosAcceptances'', JArr (map (\<lambda>t. JObj [(''version'', JStr (xt_Version t)), (''adultAttested'', JBool (xt_AdultAttested t)),
              (''acceptedAt'', JStr (xt_AcceptedAt t))]) (xp_ToS x))),
            (''activity'', JObj [(''sessionCount'', JNum (int (xp_SessionCount x))), (''consentCount'', JNum (int (xp_ConsentCount x)))])])"

definition stepUpHeader :: string where "stepUpHeader = ''X-StepUp-Token''"

definition handleStepUpRequest :: "StepUpSvc option \<Rightarrow> string \<Rightarrow> string \<Rightarrow> AccessTokenClaims \<Rightarrow> Response io" where
  "handleStepUpRequest su cid code claims =
     (case su of None \<Rightarrow> writeError 501 ''not configured''
      | Some s \<Rightarrow> attempt (stepup_RequestCode s cid code (Subject claims)) (\<lambda>r. case r of
          Inl err \<Rightarrow>
            if err = ErrStepUpUnavailable then writeError 409 ''no phone or email on file to verify against''
            else writeError 500 ''could not send code''
        | Inr res \<Rightarrow> writeJSON 200 (JObj [(''channel'', JStr (rr_Channel res)), (''hint'', JStr (rr_Hint res))])))"

definition handleStepUpVerify ::
  "StepUpSvc option \<Rightarrow> (bytes \<Rightarrow> string option) \<Rightarrow> string \<Rightarrow> string \<Rightarrow> HttpReq \<Rightarrow> AccessTokenClaims \<Rightarrow> Response io" where
  "handleStepUpVerify su dec raw gid rq claims =
     (case su of None \<Rightarrow> writeError 501 ''not configured''
      | Some s \<Rightarrow> decodeJSON dec rq (\<lambda>code.
          if code = '''' \<or> length code > 16 then writeError 400 ''invalid code''
          else attempt (stepup_Verify s raw gid (Subject claims) code) (\<lambda>r. case r of
            Inl err \<Rightarrow>
              if err = ErrInvalidCode then writeError 401 ''invalid or expired code''
              else if err = ErrStepUpUnavailable then writeError 409 ''no phone or email on file to verify against''
              else writeError 500 ''could not verify code''
          | Inr (tok, expiresAt) \<Rightarrow> writeJSON 200 (JObj [(''token'', JStr tok), (''expiresAt'', JNum (unix expiresAt))]))))"

definition handleDataExport :: "StepUpSvc option \<Rightarrow> HttpReq \<Rightarrow> AccessTokenClaims \<Rightarrow> Response io" where
  "handleDataExport su rq claims =
     (case su of None \<Rightarrow> writeError 501 ''not configured''
      | Some s \<Rightarrow>
          attempt (ValidGrant s (Subject claims) (hr_Header rq stepUpHeader)) (\<lambda>r. case r of
            Inl _ \<Rightarrow> writeError 500 ''could not verify step-up''
          | Inr valid \<Rightarrow>
              if \<not> valid then writeError 403 ''step-up required''
              else attempt (stepup_Export s (Subject claims)) (\<lambda>e. case e of
                Inl _ \<Rightarrow> writeError 500 ''could not assemble export''
              | Inr export \<Rightarrow> writeJSON 200 (exportJSON export))))"

section \<open>What a grant proves\<close>

text \<open>An address registered to an account, and a code that is good for it now.\<close>

definition owns_factor :: "db \<Rightarrow> string \<Rightarrow> string \<Rightarrow> bool" where
  "owns_factor d uid a \<longleftrightarrow> (\<exists>r \<in> set (phone_identities d). pi_UserID r = uid \<and> pi_Phone r = a)
     \<or> (\<exists>r \<in> set (email_identities d). ei_UserID r = uid \<and> ei_Email r = a)"

definition good_code :: "db \<Rightarrow> instant \<Rightarrow> string \<Rightarrow> bytes \<Rightarrow> bool" where
  "good_code d now a h \<longleftrightarrow> (\<exists>ch \<in> set (phone_challenges d) \<union> set (login_challenges d). ch_Addr ch = a
     \<and> ch_ConsumedAt ch = None \<and> now < ch_ExpiresAt ch \<and> ch_Attempts ch < maxCodeAttempts \<and> ch_CodeHash ch = h)"

lemma GetIdentityFactorsD:
  assumes "GetIdentityFactors uid w = (Inr f, w')"
  shows "if_Phone f = map_option pi_Phone (List.find (\<lambda>r. pi_UserID r = uid) (phone_identities (w_db w)))"
    "if_Email f = map_option ei_Email (List.find (\<lambda>r. ei_UserID r = uid) (email_identities (w_db w)))"
    "w_db w' = w_db w" "same_clock w w'"
proof -
  obtain e p w1 fed where a: "pg (\<lambda>now d. Inr ((map_option ei_Email (first_row (\<lambda>r. ei_UserID r = uid) (email_identities d)),
        map_option pi_Phone (first_row (\<lambda>r. pi_UserID r = uid) (phone_identities d))), d)) w = (Inr (e, p), w1)"
    and b: "pg (\<lambda>now d. Inr (sort_strings (map fi_Provider (select_rows (\<lambda>r. fi_UserID r = uid) (federated_identities d))), d)) w1
        = (Inr fed, w')"
    and f: "f = \<lparr>if_Email = e, if_Phone = p, if_Federated = fed\<rparr>"
    using assms unfolding GetIdentityFactors_def by (auto elim!: bind_InrD)
  note a = pg_runD [OF a] and b = pg_runD [OF b]
  show "if_Phone f = map_option pi_Phone (List.find (\<lambda>r. pi_UserID r = uid) (phone_identities (w_db w)))"
    "if_Email f = map_option ei_Email (List.find (\<lambda>r. ei_UserID r = uid) (email_identities (w_db w)))"
    "w_db w' = w_db w" "same_clock w w'"
    using a b f by (auto simp: same_clock_def)
qed

lemma pickChannelD:
  assumes "pickChannel s f = Some ch"
  shows "if_Phone f = Some (cl_target ch) \<and> cl_kind ch = ''phone'' \<or> if_Email f = Some (cl_target ch) \<and> cl_kind ch = ''email''"
  using assms by (auto simp: pickChannel_def split: if_splits)

lemma check_channelD:
  assumes "check_channel s ch code w = (Inr (), w')"
  shows "good_code (w_db w) (w_pgnow w) (cl_target ch) (su_hash s code)" "stepup_grants (w_db w') = stepup_grants (w_db w)" "same_clock w w'"
proof -
  have "good_code (w_db w) (w_pgnow w) (cl_target ch) (su_hash s code) \<and> stepup_grants (w_db w') = stepup_grants (w_db w) \<and> same_clock w w'"
  proof (cases "cl_kind ch = ''phone''")
    case True
    then have "otp_check (su_hash s) (GetActivePhoneChallenge (cl_target ch)) IncrementPhoneChallengeAttempts ConsumePhoneChallenge code w = (Inr (), w')"
      using assms by (simp add: check_channel_def)
    then show ?thesis by (rule phone_otp.accepted) (auto dest: active_challengeD simp: good_code_def)
  next
    case False
    then have "otp_check (su_hash s) (GetActiveLoginChallenge (cl_target ch)) IncrementLoginChallengeAttempts ConsumeLoginChallenge code w = (Inr (), w')"
      using assms by (simp add: check_channel_def)
    then show ?thesis by (rule email_otp.accepted) (auto dest: active_challengeD simp: good_code_def)
  qed
  then show "good_code (w_db w) (w_pgnow w) (cl_target ch) (su_hash s code)" "stepup_grants (w_db w') = stepup_grants (w_db w)" "same_clock w w'"
    by simp_all
qed

lemma stepup_VerifyD:
  assumes "stepup_Verify s raw gid uid code w = (Inr (tok, e), w')"
  shows "tok = raw" "e = w_now w + stepUpTTL" "\<exists>a. owns_factor (w_db w) uid a \<and> good_code (w_db w) (w_pgnow w) a (su_hash s code)"
    "stepup_grants (w_db w') = stepup_grants (w_db w) @ [\<lparr>sg_ID = gid, sg_UserID = uid, sg_TokenHash = su_hash s raw,
        sg_ExpiresAt = e, sg_CreatedAt = w_pgnow w\<rparr>]"
proof -
  from assms obtain f w1 where f: "GetIdentityFactors uid w = (Inr f, w1)"
    and k: "(case pickChannel s f of None \<Rightarrow> fail ErrStepUpUnavailable | Some ch \<Rightarrow>
        bind (check_channel s ch code) (\<lambda>_. bind goNow (\<lambda>now. bind (CreateStepUpGrant gid uid (su_hash s raw) (now + stepUpTTL)) (\<lambda>_.
        ret (raw, now + stepUpTTL))))) w1 = (Inr (tok, e), w')"
    unfolding stepup_Verify_def by (rule bind_InrD)
  from k obtain ch where ch: "pickChannel s f = Some ch" and k2: "bind (check_channel s ch code) (\<lambda>_. bind goNow (\<lambda>now.
      bind (CreateStepUpGrant gid uid (su_hash s raw) (now + stepUpTTL)) (\<lambda>_. ret (raw, now + stepUpTTL)))) w1 = (Inr (tok, e), w')"
    by (cases "pickChannel s f") simp_all
  from k2 obtain w2 where o: "check_channel s ch code w1 = (Inr (), w2)" and k3: "bind goNow (\<lambda>now.
      bind (CreateStepUpGrant gid uid (su_hash s raw) (now + stepUpTTL)) (\<lambda>_. ret (raw, now + stepUpTTL))) w2 = (Inr (tok, e), w')"
    by (auto elim: bind_InrD)
  from k3 obtain now w3 where n: "goNow w2 = (Inr now, w3)"
    and k4: "bind (CreateStepUpGrant gid uid (su_hash s raw) (now + stepUpTTL)) (\<lambda>_. ret (raw, now + stepUpTTL)) w3 = (Inr (tok, e), w')"
    by (rule bind_InrD)
  from k4 have g: "CreateStepUpGrant gid uid (su_hash s raw) (now + stepUpTTL) w3 = (Inr (), w')" and r: "tok = raw" "e = now + stepUpTTL"
    by (auto elim: bind_InrD)
  note fd = GetIdentityFactorsD [OF f] and od = check_channelD [OF o]
  have w3: "w3 = w2" "now = w_now w2" using n by (auto simp: goNow_def)
  have clock: "w_now w2 = w_now w" "w_pgnow w2 = w_pgnow w" using fd(4) od(3) by (simp_all add: same_clock_def)
  show "tok = raw" "e = w_now w + stepUpTTL" using r w3 clock by simp_all
  have "CreateStepUpGrant gid uid (su_hash s raw) e w2 = (Inr (), w')" using g r w3 by simp
  from pg_runD(1) [OF this [unfolded CreateStepUpGrant_def]]
  have "w_db w' = (w_db w2)\<lparr>stepup_grants := stepup_grants (w_db w2) @ [\<lparr>sg_ID = gid, sg_UserID = uid, sg_TokenHash = su_hash s raw,
      sg_ExpiresAt = e, sg_CreatedAt = w_pgnow w2\<rparr>]\<rparr>"
    by (auto split: if_splits dest: sym)
  then show "stepup_grants (w_db w') = stepup_grants (w_db w) @ [\<lparr>sg_ID = gid, sg_UserID = uid, sg_TokenHash = su_hash s raw,
        sg_ExpiresAt = e, sg_CreatedAt = w_pgnow w\<rparr>]"
    using od(2) fd(3) clock by simp
  have "owns_factor (w_db w) uid (cl_target ch)"
    using pickChannelD [OF ch] fd(1,2) by (auto simp: owns_factor_def dest!: find_SomeD)
  moreover have "good_code (w_db w) (w_pgnow w) (cl_target ch) (su_hash s code)"
    using od(1) fd(3,4) by (simp add: same_clock_def)
  ultimately show "\<exists>a. owns_factor (w_db w) uid a \<and> good_code (w_db w) (w_pgnow w) a (su_hash s code)" by blast
qed

text \<open>What a step-up grant proves and how long. The token \<^verbatim>\<open>Verify\<close> returns is the fresh one, given only for a code
  that an outstanding challenge of one of the caller's own registered addresses asked for; the grant is good for
  the caller for five minutes from then on by the clock of the service, and not afterwards (when no other grant
  has that hash), and the grants of other accounts are what they were.\<close>
lemma stepup_Verify_grants:
  assumes "stepup_Verify s raw gid uid code w = (Inr (tok, e), w1)" and "raw \<noteq> ''''"
    and "\<forall>g \<in> set (stepup_grants (w_db w)). sg_TokenHash g \<noteq> su_hash s raw" and "calm w2" "w_db w2 = w_db w1"
  shows "tok = raw \<and> (\<exists>a. owns_factor (w_db w) uid a \<and> good_code (w_db w) (w_pgnow w) a (su_hash s code))
    \<and> ValidGrant s uid raw w2 = (Inr (w_pgnow w2 < w_now w + minutes 5), w2)
    \<and> (\<forall>u. u \<noteq> uid \<longrightarrow> filter (\<lambda>g. sg_UserID g = u) (stepup_grants (w_db w2)) = filter (\<lambda>g. sg_UserID g = u) (stepup_grants (w_db w)))"
proof -
  note d = stepup_VerifyD [OF assms(1)]
  have "ValidGrant s uid raw w2 = (Inr (w_pgnow w2 < w_now w + minutes 5), w2)"
    using assms(2-5) d(2,4) by (auto simp: ValidGrant_def StepUpGrantValid_def list_ex_iff stepUpTTL_def)
  then show ?thesis using d assms(5) by simp
qed

lemma stepup_Verify_grants_witness:
  "let s = \<lparr>su_hash = (\<lambda>x. x), su_sms = Some (\<lambda>_ _. None), su_email = None, su_format = (\<lambda>_. '''')\<rparr>;
       (r, w1) = stepup_Verify s ''tok'' ''g1'' ''u1'' ''123456'' (demo_world demo_login_db)
   in r = Inr (''tok'', minutes 5) \<and> ValidGrant s ''u1'' ''tok'' w1 = (Inr True, w1)"
proof -
  define s where "s = \<lparr>su_hash = (\<lambda>x::string. x), su_sms = Some (\<lambda>(_::string) (_::string). None :: error option), su_email = None, su_format = (\<lambda>_::int. '''' :: string)\<rparr>"
  define w1 where "w1 = snd (stepup_Verify s ''tok'' ''g1'' ''u1'' ''123456'' (demo_world demo_login_db))"
  have run: "stepup_Verify s ''tok'' ''g1'' ''u1'' ''123456'' (demo_world demo_login_db) = (Inr (''tok'', minutes 5), w1)" and c: "calm w1"
    and now: "w_pgnow w1 = 0"
    by (simp_all add: w1_def s_def stepup_Verify_def GetIdentityFactors_def io_defs demo_login_defs calm_def pickChannel_def check_channel_def otp_check_def
        GetActivePhoneChallenge_def q_GetActivePhoneChallenge_def ConsumePhoneChallenge_def q_ConsumePhoneChallenge_def active_challenge_def
        order_by_desc_def maxCodeAttempts_def CreateStepUpGrant_def user_exists_def stepUpTTL_def)
  have "\<forall>g \<in> set (stepup_grants (w_db (demo_world demo_login_db))). sg_TokenHash g \<noteq> su_hash s ''tok''"
    by (simp add: demo_login_defs)
  from stepup_Verify_grants [OF run _ this c refl] now have "ValidGrant s ''u1'' ''tok'' w1 = (Inr True, w1)"
    by (simp add: demo_world_def minutes_def seconds_def)
  with run show ?thesis by (simp add: s_def Let_def)
qed

lemma bind_read_InrD:
  assumes "bind (pg (\<lambda>now d. row (f d) d)) g w = (Inr y, w')"
  obtains x w1 where "f (w_db w) = Some x" "w_db w1 = w_db w" "g x w1 = (Inr y, w')"
proof -
  from assms obtain x w1 where x: "pg (\<lambda>now d. row (f d) d) w = (Inr x, w1)" "g x w1 = (Inr y, w')" by (rule bind_InrD)
  show thesis by (rule that [OF find_pg [OF x(1)] x(2)])
qed

text \<open>The data export is behind a step-up. The endpoint answers 200 only when the presented token is non-empty and its hash
  is that of an unexpired grant of the caller, and the body is an export of the caller's own data.\<close>
lemma data_export_needs_grant:
  assumes "handleDataExport (Some s) rq claims w = (Inr resp, w')" "rp_Status resp = 200"
  shows "hr_Header rq stepUpHeader \<noteq> '''' \<and> (\<exists>g \<in> set (stepup_grants (w_db w)). sg_UserID g = Subject claims
      \<and> sg_TokenHash g = su_hash s (hr_Header rq stepUpHeader) \<and> w_pgnow w < sg_ExpiresAt g)
    \<and> (\<exists>ex. rp_Body resp = Some (exportJSON ex) \<and> ep_UserID (xp_Profile ex) = Subject claims)"
proof -
  define header where "header = hr_Header rq stepUpHeader"
  define caller where "caller = Subject claims"
  note defs = handleDataExport_def attempt_def writeError_def writeJSON_def respond_def ret_def header_def [symmetric] caller_def [symmetric]
  obtain v w1 where v: "ValidGrant s caller header w = (v, w1)" by force
  have valid: "v = Inr True"
    using assms v by (cases v) (auto simp: defs split: if_splits)
  obtain ex' where ex: "stepup_Export s caller w1 = (Inr ex', w')" and body: "rp_Body resp = Some (exportJSON ex')"
    using assms v valid by (auto simp: defs split: sum.splits prod.splits)
  have h: "header \<noteq> ''''" using v valid by (auto simp: ValidGrant_def ret_def)
  have "StepUpGrantValid caller (su_hash s header) w = (Inr True, w1)" using v valid h by (simp add: ValidGrant_def)
  from pg_runD(1) [OF this [unfolded StepUpGrantValid_def]]
  have g: "\<exists>g \<in> set (stepup_grants (w_db w)). sg_UserID g = caller \<and> sg_TokenHash g = su_hash s header \<and> w_pgnow w < sg_ExpiresAt g"
    by (auto simp: list_ex_iff)
  from ex obtain u w2 where u: "List.find (\<lambda>u. u_ID u = caller) (users (w_db w1)) = Some u"
    and "bind (GetIdentity caller) (\<lambda>idn. bind (GetIdentityFactors caller) (\<lambda>factors. bind (EnrolledClassesWithDetails caller) (\<lambda>enrolled.
      bind (ListToSAcceptances caller) (\<lambda>tos. bind (ListSessionHistory caller) (\<lambda>ss. bind (ListConsentHistory caller) (\<lambda>cs.
      ret (assemble (su_format s) u idn factors enrolled tos (length ss) (length cs)))))))) w2 = (Inr ex', w')"
    unfolding stepup_Export_def GetUser_def q_GetUser_def [abs_def] by (rule bind_read_InrD)
  then have "ep_UserID (xp_Profile ex') = u_ID u" by (auto elim!: bind_InrD simp: assemble_def)
  then have "ep_UserID (xp_Profile ex') = caller" using find_SomeD [OF u] by simp
  with h g body show ?thesis unfolding header_def caller_def by blast
qed

definition demo_step_world :: world where
  "demo_step_world = demo_world (demo_login_db\<lparr>stepup_grants := [\<lparr>sg_ID = ''g1'', sg_UserID = ''u1'', sg_TokenHash = ''tok'', sg_ExpiresAt = 5, sg_CreatedAt = 0\<rparr>]\<rparr>)"

lemma data_export_needs_grant_witness:
  "let s = \<lparr>su_hash = (\<lambda>x. x), su_sms = None, su_email = None, su_format = (\<lambda>_. '''')\<rparr>;
       rq = \<lparr>hr_Method = ''GET'', hr_Path = [], hr_Query = (\<lambda>_. ''''), hr_Header = (\<lambda>_. ''tok''), hr_Cookie = (\<lambda>_. None), hr_Body = []\<rparr>
   in \<exists>resp w' ex. handleDataExport (Some s) rq demo_claims demo_step_world = (Inr resp, w') \<and> rp_Status resp = 200
     \<and> rp_Body resp = Some (exportJSON ex) \<and> ep_UserID (xp_Profile ex) = ''u1''"
proof -
  define s where "s = \<lparr>su_hash = (\<lambda>x::string. x), su_sms = None :: sender option, su_email = None, su_format = (\<lambda>_::int. '''' :: string)\<rparr>"
  define rq where "rq = \<lparr>hr_Method = ''GET'', hr_Path = [], hr_Query = (\<lambda>_::string. '''' :: string), hr_Header = (\<lambda>_::string. ''tok''),
    hr_Cookie = (\<lambda>_::string. None :: string option), hr_Body = [] :: bytes\<rparr>"
  have c: "Subject demo_claims = ''u1''" by (simp add: demo_claims_def)
  have "\<exists>resp w'. handleDataExport (Some s) rq demo_claims demo_step_world = (Inr resp, w') \<and> rp_Status resp = 200"
    by (simp add: s_def rq_def demo_step_world_def c handleDataExport_def writeJSON_def respond_def ValidGrant_def StepUpGrantValid_def io_defs demo_login_defs
        calm_def stepup_Export_def GetUser_def q_GetUser_def GetIdentity_def q_GetIdentity_def GetIdentityFactors_def EnrolledClassesWithDetails_def
        ListToSAcceptances_def ListSessionHistory_def ListConsentHistory_def)
  then obtain resp w' where r: "handleDataExport (Some s) rq demo_claims demo_step_world = (Inr resp, w')" "rp_Status resp = 200" by blast
  from data_export_needs_grant [OF this] r show ?thesis unfolding s_def rq_def Let_def c by blast
qed

end
