(* ===== verification/Platform.thy ===== *)
theory Platform
  imports Recordings Accounts Classes Presence StepUp
begin

text \<open>
  The services together. The invariants of the components are properties of different tables; this theory shows that
  the operations of one component keep the invariants of the others, so that all of them hold in every state the
  services reach, in whatever order their operations run and whatever faults the connection shows.

  \<open>same V s\<close> says that a statement leaves a view of the tables alone; an invariant that is a function of the view is
  then kept. The two views split the tables between the account services and the classroom services.
\<close>

section \<open>Views\<close>

definition same :: "(db \<Rightarrow> 'v) \<Rightarrow> 'a stmt \<Rightarrow> bool" where
  "same V s \<longleftrightarrow> (\<forall>now d x d'. s now d = Inr (x, d') \<longrightarrow> V d' = V d)"

lemma same_keeps: "same V s \<Longrightarrow> (\<And>d d'. V d' = V d \<Longrightarrow> J d' = J d) \<Longrightarrow> stmt_keeps J s"
  unfolding same_def stmt_keeps_def by blast

text \<open>What the account services leave alone, and what the classroom services leave alone.\<close>

definition classroom :: "db \<Rightarrow> Session list \<times> SessionParticipant list \<times> Recording list \<times> Entitlement list \<times> PresenceEvent list \<times> int
    \<times> ConsentRow list \<times> int \<times> AuditRow list \<times> int" where
  "classroom d = (sessions d, session_participants d, recordings d, entitlements d, presence_events d, presence_events_seq d,
     consent_records d, consent_records_seq d, audit_log d, audit_log_seq d)"

definition accounts :: "db \<Rightarrow> User list \<times> IdentityVault list \<times> TosAcceptance list \<times> RefreshToken list" where
  "accounts d = (users d, identity_vault d, tos_acceptances d, refresh_tokens d)"

named_theorems view_rules \<open>statements that leave a view alone\<close>

lemma classroom_accounts [view_rules]:
  "same classroom (q_SuspendUser u)" "same classroom (q_RevokeAllRefreshTokens u)" "same classroom (q_BumpTokenVersion u)"
  "same classroom (q_ActivateUser u)" "same classroom (q_GrantInstructor u)" "same classroom (q_RevokeInstructor u)"
  "same classroom (q_CreateIdentityRecord u)" "same classroom (q_AcceptToS u v b)" "same classroom (q_CreateUser u h n l c)"
  "same classroom (q_PromoteToModerator u)" "same classroom (q_UpdateProfile u h n bio)" "same classroom (q_CloseAccount u)"
  by (auto simp: same_def classroom_def q_SuspendUser_def q_RevokeAllRefreshTokens_def q_BumpTokenVersion_def q_ActivateUser_def
      q_GrantInstructor_def q_RevokeInstructor_def q_CreateIdentityRecord_def q_AcceptToS_def update_user_def
      q_CreateUser_def q_PromoteToModerator_def q_UpdateProfile_def q_CloseAccount_def Let_def split: if_splits option.splits)

lemma classroom_identity: "same classroom (update_identity u f)"
  by (auto simp: same_def classroom_def update_identity_def downgrade_trigger_def split: if_splits option.splits sum.splits)

lemma classroom_vault [view_rules]:
  "same classroom (q_SetIdentityVerificationPending u)" "same classroom (q_VerifyAdultIdentity u p t)"
proof -
  show "same classroom (q_SetIdentityVerificationPending u)"
    unfolding q_SetIdentityVerificationPending_def by (rule classroom_identity)
  show "same classroom (q_VerifyAdultIdentity u p t)"
    unfolding same_def q_VerifyAdultIdentity_def using classroom_identity [unfolded same_def] by blast
qed

lemma classroom_tokens [view_rules]:
  "same classroom (q_IssueRefreshToken a b c h t)" "same classroom (q_GetRefreshTokenByHashForUpdate h)"
  "same classroom (q_RevokeRefreshFamily f)" "same classroom (q_MarkRefreshTokenReplaced i n)" "same classroom (q_GetFamilyByHash h)"
  "same classroom (q_RevokeAccessToken j t)" "same classroom (q_GetUser u)" "same classroom (q_GetIdentity u)"
  "same classroom (q_CurrentTokenVersion u)" "same classroom (q_HasAdultAttestation u)" "same classroom (q_HasVerifiedPhone u)"
  by (auto simp: same_def classroom_def q_IssueRefreshToken_def q_GetRefreshTokenByHashForUpdate_def q_RevokeRefreshFamily_def
      q_MarkRefreshTokenReplaced_def q_GetFamilyByHash_def q_RevokeAccessToken_def q_GetUser_def q_GetIdentity_def q_CurrentTokenVersion_def
      q_HasAdultAttestation_def q_HasVerifiedPhone_def split: if_splits option.splits dest!: row_InrD)

lemma accounts_classroom [view_rules]:
  "same accounts (q_CreateSession a b c e f)" "same accounts (q_StartSession s)" "same accounts (q_EndSession s)"
  "same accounts (q_AddParticipant s u r)" "same accounts (q_RemoveParticipant s u)"
  "same accounts (q_insert_entitlement i)" "same accounts (q_revoke_entitlement u r rid)"
  by (auto simp: same_def accounts_def q_CreateSession_def q_StartSession_def q_EndSession_def q_AddParticipant_def q_RemoveParticipant_def
      q_insert_entitlement_def q_revoke_entitlement_def Let_def split: if_splits)

text \<open>What the login, step-up and class services leave alone, but for signing up and the codes sent by email: both views and the email
  challenges. They write the links, the challenges, the grants, the classes and their rosters.\<close>

definition core :: "db \<Rightarrow> (Session list \<times> SessionParticipant list \<times> Recording list \<times> Entitlement list \<times> PresenceEvent list \<times> int
    \<times> ConsentRow list \<times> int \<times> AuditRow list \<times> int) \<times> (User list \<times> IdentityVault list \<times> TosAcceptance list \<times> RefreshToken list)
    \<times> Challenge list" where
  "core d = (classroom d, accounts d, login_challenges d)"

definition core_only :: "(db \<Rightarrow> bool) \<Rightarrow> bool" where
  "core_only J \<longleftrightarrow> (\<forall>d d'. core d' = core d \<longrightarrow> J d' = J d)"

lemma core_only_conj: "core_only J \<Longrightarrow> core_only K \<Longrightarrow> core_only (\<lambda>d. J d \<and> K d)"
  unfolding core_only_def by metis

lemma stmt_keeps_conj: "stmt_keeps J s \<Longrightarrow> stmt_keeps K s \<Longrightarrow> stmt_keeps (\<lambda>d. J d \<and> K d) s"
  unfolding stmt_keeps_def by blast

text \<open>The writes of an email challenge.\<close>

definition keeps_challenges :: "(db \<Rightarrow> bool) \<Rightarrow> bool" where
  "keeps_challenges J \<longleftrightarrow> (\<forall>cid a h t. stmt_keeps J (q_CreateLoginChallenge cid a h t)) \<and> (\<forall>cid. stmt_keeps J (q_IncrementLoginChallengeAttempts cid))
     \<and> (\<forall>cid. stmt_keeps J (q_ConsumeLoginChallenge cid))"

lemma views_challenges:
  assumes "\<And>d d'. classroom d' = classroom d \<Longrightarrow> accounts d' = accounts d \<Longrightarrow> J d' = J d"
  shows "core_only J" "keeps_challenges J"
proof -
  show "core_only J" using assms unfolding core_only_def core_def by blast
  have "stmt_keeps J s" if "same (\<lambda>d. (classroom d, accounts d)) s" for s
    by (rule same_keeps [OF that]) (use assms in blast)
  moreover have "same (\<lambda>d. (classroom d, accounts d)) (q_CreateLoginChallenge cid a h t)" "same (\<lambda>d. (classroom d, accounts d)) (q_IncrementLoginChallengeAttempts cid)"
    "same (\<lambda>d. (classroom d, accounts d)) (q_ConsumeLoginChallenge cid)" for cid a h t
    by (auto simp: same_def classroom_def accounts_def q_CreateLoginChallenge_def q_IncrementLoginChallengeAttempts_def q_ConsumeLoginChallenge_def
        split: if_splits)
  ultimately show "keeps_challenges J" unfolding keeps_challenges_def by blast
qed

lemma keeps_challenges_conj: "keeps_challenges J \<Longrightarrow> keeps_challenges K \<Longrightarrow> keeps_challenges (\<lambda>d. J d \<and> K d)"
  unfolding keeps_challenges_def using stmt_keeps_conj by blast

lemmas core_defs = same_def core_def classroom_def accounts_def

named_theorems core_rules \<open>statements that leave both views alone\<close>

lemma core_links [core_rules]:
  "same core (q_GetEmailIdentity a)" "same core (q_GetPhoneIdentity a)" "same core (q_GetFederatedIdentity b a)" "same core (q_TouchEmailLogin a)"
  "same core (q_TouchPhoneLogin a)" "same core (q_TouchFederatedLogin b a)" "same core (q_LinkEmailIdentity a u)" "same core (q_LinkPhoneIdentity a u)"
  "same core (q_LinkFederatedIdentity b a u)"
  by (auto simp: core_defs q_GetEmailIdentity_def q_GetPhoneIdentity_def q_GetFederatedIdentity_def q_TouchEmailLogin_def q_TouchPhoneLogin_def
      q_TouchFederatedLogin_def q_LinkEmailIdentity_def q_LinkPhoneIdentity_def q_LinkFederatedIdentity_def split: if_splits dest!: row_InrD)

lemma core_challenges [core_rules]:
  "same core (q_GetActiveLoginChallenge a)" "same core (q_GetActivePhoneChallenge a)" "same core (q_IncrementPhoneChallengeAttempts a)"
  "same core (q_ConsumePhoneChallenge a)" "same core (q_CreatePhoneChallenge a b h t)" "same core (q_UserExists u)"
  by (auto simp: core_defs q_GetActiveLoginChallenge_def q_GetActivePhoneChallenge_def q_IncrementPhoneChallengeAttempts_def
      q_ConsumePhoneChallenge_def q_CreatePhoneChallenge_def q_UserExists_def split: if_splits dest!: row_InrD)

lemma core_classes [core_rules]:
  "same core (q_CreateClass c i t e)" "same core (q_GetClass c)" "same core (q_UpdateClassStatus c s)"
  by (auto simp: core_defs q_CreateClass_def q_GetClass_def q_UpdateClassStatus_def Let_def split: if_splits dest!: row_InrD)

text \<open>The invariants as functions of the views.\<close>

lemma of_classroom:
  "classroom d' = classroom d \<Longrightarrow> session_inv d' = session_inv d" "classroom d' = classroom d \<Longrightarrow> rec_inv d' = rec_inv d"
  "classroom d' = classroom d \<Longrightarrow> ent_inv d' = ent_inv d" "classroom d' = classroom d \<Longrightarrow> presence_inv d' = presence_inv d"
  "classroom d' = classroom d \<Longrightarrow> consent_inv H edv keys d' = consent_inv H edv keys d"
  "classroom d' = classroom d \<Longrightarrow> audit_inv H edv keys d' = audit_inv H edv keys d"
  by (auto simp: classroom_def audit_inv_def session_inv_def present_def rec_inv_def ent_inv_def presence_inv_def consent_inv_def)

lemma of_accounts:
  "accounts d' = accounts d \<Longrightarrow> refresh_inv d' = refresh_inv d" "accounts d' = accounts d \<Longrightarrow> adult_inv d' = adult_inv d"
  by (auto simp: accounts_def refresh_inv_def adult_inv_def grounds_defs)

lemma core_only_accounts: "core_only refresh_inv" "core_only adult_inv" "keeps_challenges refresh_inv" "keeps_challenges adult_inv"
  by (rule views_challenges, rule of_accounts, assumption)+

lemma tx_safe_tables:
  "tx_safe session_inv" "tx_safe rec_inv" "tx_safe ent_inv" "tx_safe presence_inv"
  by (auto simp: tx_safe_def rolled_back_def session_inv_def present_def rec_inv_def ent_inv_def presence_inv_def less_max_iff_disj)

section \<open>The invariant of the platform\<close>

text \<open>The integrity of the tables, and with it the rule that active accounts are those of adults, but for those that took their
  attestation back.\<close>

definition integrity_inv :: "Store \<Rightarrow> verify \<Rightarrow> (string \<rightharpoonup> bytes) \<Rightarrow> db \<Rightarrow> bool" where
  "integrity_inv st edv keys d \<longleftrightarrow> audit_inv (sha256 st) edv keys d \<and> consent_inv (sha256 st) edv keys d \<and> session_inv d
     \<and> rec_inv d \<and> ent_inv d \<and> presence_inv d \<and> refresh_inv d"

definition platform_inv :: "Store \<Rightarrow> verify \<Rightarrow> (string \<rightharpoonup> bytes) \<Rightarrow> db \<Rightarrow> bool" where
  "platform_inv st edv keys d \<longleftrightarrow> integrity_inv st edv keys d \<and> adult_inv d"

section \<open>Reading\<close>

text \<open>An operation that only reads keeps every property of the database.\<close>

named_theorems read_rules \<open>operations that leave the database alone\<close>

lemma stmt_read: "(\<And>now d x d'. s now d = Inr (x, d') \<Longrightarrow> d' = d) \<Longrightarrow> stmt_keeps J s"
  unfolding stmt_keeps_def by metis

lemma token_reads [read_rules]: "keeps J (IsAccessTokenRevoked jti)" "keeps J (CurrentTokenVersion uid)"
  unfolding IsAccessTokenRevoked_def CurrentTokenVersion_def
  by (intro keeps_rules stmt_read; auto simp: q_IsAccessTokenRevoked_def q_CurrentTokenVersion_def dest: row_InrD)+

lemma Validate_reads [read_rules]: "keeps J (Validate js edv keys IsAccessTokenRevoked CurrentTokenVersion tok)"
  unfolding Validate_def by (intro keeps_rules read_rules)

lemma account_list_reads [read_rules]:
  "keeps J (GetUser uid)" "keeps J (GetIdentity uid)" "keeps J (GetIdentityFactors uid)" "keeps J (ListSessionHistory uid)"
  "keeps J (ListConsentHistory uid)" "keeps J (ListLoginEvents uid)" "keeps J (ListClassProgress uid)" "keeps J (ListClassCompletions uid)"
  "keeps J (ListToSAcceptances uid)" "keeps J (EnrolledClassesWithDetails uid)" "keeps J (ListUsers n)" "keeps J (StepUpGrantValid uid h)"
  unfolding GetUser_def GetIdentity_def GetIdentityFactors_def ListSessionHistory_def ListConsentHistory_def ListLoginEvents_def
    ListClassProgress_def ListClassCompletions_def ListToSAcceptances_def EnrolledClassesWithDetails_def ListUsers_def StepUpGrantValid_def
  by (intro keeps_rules stmt_read; auto simp: q_GetUser_def q_GetIdentity_def q_ListUsers_def Let_def dest: row_InrD)+

lemma classroom_list_reads [read_rules]:
  "keeps J (GetSession sid)" "keeps J (GetClass cid)" "keeps J (ListActiveParticipants sid)" "keeps J (ListSessionsByClass cid)"
  "keeps J (EffectiveConsent subject sid purpose)" "keeps J (ListClassesByInstructor uid)" "keeps J ListPublishedClasses"
  "keeps J (ListEntitlements uid)" "keeps J (RecordingsBySession sid)" "keeps J (CompletedRecordingsBySession sid)" "keeps J (RecordingByID rid)"
  "keeps J (ClassIDForSession sid)" "keeps J (ClassPriceCents cid)" "keeps J (HasActiveEntitlement uid rtype rid)"
  unfolding GetSession_def GetClass_def ListActiveParticipants_def ListSessionsByClass_def EffectiveConsent_def ListClassesByInstructor_def
    ListPublishedClasses_def ListEntitlements_def RecordingsBySession_def CompletedRecordingsBySession_def RecordingByID_def
    ClassIDForSession_def ClassPriceCents_def HasActiveEntitlement_def
  by (intro keeps_rules stmt_read; auto simp: q_GetSession_def q_GetClass_def q_ListActiveParticipants_def q_ListSessionsByClass_def
      q_ListClassesByInstructor_def q_ListPublishedClasses_def Let_def dest: row_InrD split: option.splits)+

lemma access_reads [read_rules]: "keeps J (EnsureClassAccess uid cid)" "keeps J (EnsureRecordingAccess uid sid)"
  unfolding EnsureRecordingAccess_def EnsureClassAccess_def by (intro keeps_rules read_rules)+

section \<open>The account services\<close>

text \<open>What the account services need of the store towards a property \<open>J\<close>: its statements and the audit append keep it.\<close>

locale account_repo =
  fixes J :: "db \<Rightarrow> bool" and st :: Store
  assumes tx: "tx_safe J"
    and append: "ai_Metadata inp = [] \<Longrightarrow> keeps J (appendAuditTx st inp)"
    and moderation: "stmt_keeps J (q_SuspendUser u)" "stmt_keeps J (q_RevokeAllRefreshTokens u)" "stmt_keeps J (q_BumpTokenVersion u)"
      "stmt_keeps J (q_ActivateUser u)" "stmt_keeps J (q_GrantInstructor u)" "stmt_keeps J (q_RevokeInstructor u)"
    and verification: "stmt_keeps J (q_CreateIdentityRecord u)" "stmt_keeps J (q_SetIdentityVerificationPending u)"
      "stmt_keeps J (q_VerifyAdultIdentity u ref until)" "stmt_keeps J (q_AcceptToS u v b)"
    and tokens: "stmt_keeps J (q_IssueRefreshToken i u i h t)" "stmt_keeps J (q_RevokeRefreshFamily f)" "stmt_keeps J (q_RevokeAccessToken j t)"
    and rotate: "keeps J (RotateRefreshToken h nt)"
    and signup: "stmt_keeps J (q_CreateUser u handle name loc c)" "stmt_keeps J (q_PromoteToModerator u)"
    and self: "stmt_keeps J (q_UpdateProfile u handle name bio)" "stmt_keeps J (q_CloseAccount u)"
    and views: "core_only J"
    and challenges: "keeps_challenges J"
begin

lemma core_stmt: "same core s \<Longrightarrow> stmt_keeps J s"
  by (erule same_keeps) (rule views [unfolded core_only_def, rule_format])

lemmas directory = core_rules [THEN core_stmt]
  challenges [unfolded keeps_challenges_def, THEN conjunct1, rule_format] challenges [unfolded keeps_challenges_def, THEN conjunct2, THEN conjunct1, rule_format]
  challenges [unfolded keeps_challenges_def, THEN conjunct2, THEN conjunct2, rule_format]

lemma inAuditTx_keeps: "ai_Metadata inp = [] \<Longrightarrow> keeps J m \<Longrightarrow> keeps J (inAuditTx st inp m)"
  unfolding inAuditTx_def by (intro keeps_rules keeps_in_tx tx append)

lemma account_reads:
  "stmt_keeps J (q_GetUser u)" "stmt_keeps J (q_GetIdentity u)" "stmt_keeps J (q_CurrentTokenVersion u)" "stmt_keeps J (q_HasAdultAttestation u)"
  "stmt_keeps J (q_HasVerifiedPhone u)" "stmt_keeps J (q_GetFamilyByHash h)"
  by (auto simp: stmt_keeps_def q_GetUser_def q_GetIdentity_def q_CurrentTokenVersion_def q_HasAdultAttestation_def q_HasVerifiedPhone_def
      q_GetFamilyByHash_def dest!: row_InrD)

lemmas account_rules = keeps_rules moderation verification tokens account_reads rotate inAuditTx_keeps

lemma keeps_moderation:
  "keeps J (Suspend st claims target)" "keeps J (Reinstate st claims target)" "keeps J (SetInstructor st claims target g)"
  unfolding Suspend_def Reinstate_def SetInstructor_def SuspendUserAudited_def ReinstateUserAudited_def SetInstructorAudited_def
  by (intro account_rules; simp add: mod_input_def)+

lemma keeps_identity:
  "keeps J (identity_Begin s uid region)" "keeps J (identity_Apply r)" "keeps J (identity_AcceptToS uid version attested)"
  unfolding identity_Begin_def identity_Apply_def identity_AcceptToS_def CreateIdentityRecord_def SetIdentityVerificationPending_def
    VerifyAdultIdentity_def ActivateUser_def AcceptToS_def Let_def
  by (intro account_rules)+

lemma keeps_sessions:
  assumes "reading_sources a"
  shows "keeps J (IssueSession a secret nid jti uid)" "keeps J (Refresh a secret nid jti presented)" "keeps J (Logout a presented jti t)"
  using assms unfolding IssueSession_def Refresh_def Logout_def mint_def GetUser_def GetIdentity_def IssueRefreshToken_def CurrentTokenVersion_def
    HasAdultAttestation_def HasVerifiedPhone_def RevokeRefreshFamilyByHash_def RevokeAccessToken_def Let_def reading_sources_def NewRefreshToken.simps
  by (intro account_rules keeps_gather keeps_MintAccess; assumption)+

lemma keeps_signup: "keeps J (newPendingUser fr)" "keeps J (Bootstrap nid p)"
  unfolding newPendingUser_def Bootstrap_def UserExists_def CreateUser_def CreateIdentityRecord_def VerifyAdultIdentity_def PromoteToModerator_def
    ActivateUser_def Let_def
  by (intro account_rules signup directory)+

lemma keeps_resolver_of: "keeps J (resolver_of k fr p cur)"
proof -
  note defs = GetEmailIdentity_def TouchEmailLogin_def LinkEmailIdentity_def GetPhoneIdentity_def TouchPhoneLogin_def LinkPhoneIdentity_def
    GetFederatedIdentity_def TouchFederatedLogin_def LinkFederatedIdentity_def
  show ?thesis
    by (cases k; simp only: resolver_of.simps emailResolve_def phoneResolve_def federatedResolve_def defs;
        intro keeps_rules keeps_signup directory)
qed

lemma keeps_Authenticate:
  assumes "wired a"
  shows "keeps J (Authenticate a fr p cur)"
proof (cases "au_resolvers a (pp_Kind p)")
  case None
  then show ?thesis by (simp add: Authenticate_def keeps_fail)
next
  case (Some r)
  with assms show ?thesis
    unfolding Authenticate_def wired_def by (auto intro!: keeps_rules keeps_resolver_of keeps_sessions)
qed

lemma keeps_flows:
  "keeps J (email_RequestCode e cid code addr)" "keeps J (phone_RequestCode ph cid code addr)"
  "wired (el_authn e) \<Longrightarrow> keeps J (email_VerifyCode e fr addr code)"
  "wired (pl_authn ph) \<Longrightarrow> keeps J (phone_VerifyCode ph fr addr code cur)"
  "wired (fd_authn f) \<Longrightarrow> keeps J (Complete f fr provider code secret)"
  unfolding email_RequestCode_def phone_RequestCode_def email_VerifyCode_def phone_VerifyCode_def Complete_def otp_cooling_def otp_check_def
    GetActiveLoginChallenge_def GetActivePhoneChallenge_def CreateLoginChallenge_def CreatePhoneChallenge_def IncrementLoginChallengeAttempts_def
    IncrementPhoneChallengeAttempts_def ConsumeLoginChallenge_def ConsumePhoneChallenge_def
  by (intro keeps_rules keeps_Authenticate directory; assumption)+

lemma side_tables: "keeps J (RecordLoginEvent eid uid meth)" "keeps J (CreateStepUpGrant gid uid h t)"
  unfolding RecordLoginEvent_def CreateStepUpGrant_def by (intro keeps_rules core_stmt; auto simp: core_defs split: if_splits)+

lemma keeps_stepup:
  "keeps J (stepup_RequestCode s cid code uid)" "keeps J (stepup_Verify s raw gid uid code)" "keeps J (ValidGrant s uid raw)" "keeps J (stepup_Export s uid)"
  unfolding stepup_RequestCode_def stepup_Verify_def check_channel_def ValidGrant_def stepup_Export_def otp_cooling_def otp_check_def
    GetActiveLoginChallenge_def GetActivePhoneChallenge_def CreateLoginChallenge_def CreatePhoneChallenge_def IncrementLoginChallengeAttempts_def
    IncrementPhoneChallengeAttempts_def ConsumeLoginChallenge_def ConsumePhoneChallenge_def
  by (intro keeps_rules read_rules side_tables directory)+

lemma keeps_AuditPlayback: "keeps J (AuditPlayback st subject rec)"
  unfolding AuditPlayback_def AppendAudit_def by (intro keeps_rules inAuditTx_keeps) simp

lemma keeps_self_service:
  "keeps J (auth_UpdateProfile uid handle name bio)" "keeps J (auth_CloseAccount uid)" "keeps J (LogoutEverywhere uid)"
  "keeps J (BecomeInstructor st claims)"
proof -
  show "keeps J (auth_UpdateProfile uid handle name bio)"
    unfolding auth_UpdateProfile_def UpdateProfile_def by (auto intro!: keeps_rules self split: error.split)
  show "keeps J (auth_CloseAccount uid)" "keeps J (LogoutEverywhere uid)" "keeps J (BecomeInstructor st claims)"
    unfolding auth_CloseAccount_def CloseAccount_def LogoutEverywhere_def RevokeAllSessions_def BecomeInstructor_def SetInstructorAudited_def
    by (intro account_rules self; simp)+
qed

lemma keeps_roster:
  "keeps J (ClassCapacity cid)" "keeps J (IsEnrolled cid uid)" "keeps J (CountClassMembers cid)" "keeps J (ClassPriceCents cid)"
  "keeps J (HasActiveEntitlement uid rtype rid)" "keeps J (GetClass cid)" "keeps J (EnrollClass cid uid)" "keeps J (UnenrollClass cid uid)"
  "keeps J (SetClassCapacity cid capacity)"
  unfolding ClassCapacity_def IsEnrolled_def CountClassMembers_def ClassPriceCents_def HasActiveEntitlement_def GetClass_def EnrollClass_def
    UnenrollClass_def SetClassCapacity_def
  by (intro keeps_rules directory | (intro keeps_rules core_stmt; auto simp: core_defs split: option.splits if_splits))+

lemma keeps_classes:
  "keeps J (class_Create nid claims title description)" "keeps J (SetStatus claims cid status)" "keeps J (SetCapacity claims cid capacity)"
  "keeps J (Enroll cs claims cid)" "keeps J (Unenroll claims cid)"
  unfolding class_Create_def SetStatus_def SetCapacity_def Enroll_def Unenroll_def requireOwner_def capacity_gate_def store_CreateClass_def
    EnsureClassAccess_def UpdateClassStatus_def Let_def
  by (intro keeps_rules keeps_roster directory)+

end

lemma rotate_frame:
  assumes "tx_safe J" "\<And>h. stmt_keeps J (q_GetRefreshTokenByHashForUpdate h)" "\<And>f. stmt_keeps J (q_RevokeRefreshFamily f)"
    "\<And>a b c h t. stmt_keeps J (q_IssueRefreshToken a b c h t)" "\<And>i n. stmt_keeps J (q_MarkRefreshTokenReplaced i n)"
  shows "keeps J (RotateRefreshToken h nt)"
  unfolding RotateRefreshToken_def rotate_body_def by (intro keeps_rules keeps_in_tx assms)

lemma adult_tokens:
  "stmt_keeps adult_inv (q_GetRefreshTokenByHashForUpdate h)" "stmt_keeps adult_inv (q_RevokeRefreshFamily f)"
  "stmt_keeps adult_inv (q_IssueRefreshToken a b c h t)" "stmt_keeps adult_inv (q_MarkRefreshTokenReplaced i n)" "stmt_keeps adult_inv (q_RevokeAccessToken j t)"
  by (auto simp: stmt_keeps_def q_GetRefreshTokenByHashForUpdate_def q_RevokeRefreshFamily_def q_IssueRefreshToken_def q_MarkRefreshTokenReplaced_def
      q_RevokeAccessToken_def adult_inv_def split: if_splits option.splits dest!: row_InrD)
    (simp_all add: grounds_defs)

interpretation adult_accounts: account_repo adult_inv st for st
  by unfold_locales
    (rule tx_safe_adult keeps_adult_append adult_rules adult_tokens rotate_frame core_only_accounts)+

lemma refresh_accounts_stmts:
  "stmt_keeps refresh_inv (q_ActivateUser u)" "stmt_keeps refresh_inv (q_GrantInstructor u)" "stmt_keeps refresh_inv (q_RevokeInstructor u)"
  "stmt_keeps refresh_inv (q_CreateIdentityRecord u)" "stmt_keeps refresh_inv (q_AcceptToS u v b)" "stmt_keeps refresh_inv (q_RevokeAccessToken j t)"
  "stmt_keeps refresh_inv (update_identity u f)" "stmt_keeps refresh_inv (q_CreateUser u h n l c)" "stmt_keeps refresh_inv (q_PromoteToModerator u)"
  "stmt_keeps refresh_inv (q_UpdateProfile u h n bio)" "stmt_keeps refresh_inv (q_CloseAccount u)"
  by (auto simp: stmt_keeps_def q_ActivateUser_def q_GrantInstructor_def q_RevokeInstructor_def q_CreateIdentityRecord_def q_AcceptToS_def
      q_RevokeAccessToken_def update_user_def update_identity_def downgrade_trigger_def refresh_inv_def
      q_CreateUser_def q_PromoteToModerator_def q_UpdateProfile_def q_CloseAccount_def Let_def split: if_splits option.splits sum.splits)

lemma refresh_vault: "stmt_keeps refresh_inv (q_SetIdentityVerificationPending u)" "stmt_keeps refresh_inv (q_VerifyAdultIdentity u ref until)"
proof -
  show "stmt_keeps refresh_inv (q_SetIdentityVerificationPending u)" unfolding q_SetIdentityVerificationPending_def by (rule refresh_accounts_stmts)
  show "stmt_keeps refresh_inv (q_VerifyAdultIdentity u ref until)"
    unfolding stmt_keeps_def q_VerifyAdultIdentity_def using refresh_accounts_stmts(7) [unfolded stmt_keeps_def] by blast
qed

interpretation refresh_accounts: account_repo refresh_inv st for st
  by unfold_locales
    (rule tx_safe_refresh keeps_refresh_append refresh_stmts refresh_accounts_stmts refresh_vault stmt_keeps_issue keeps_rotate core_only_accounts)+

text \<open>Any property that the other tables determine, and that survives the append.\<close>

lemma classroom_account_repo:
  assumes "tx_safe J" "\<And>inp. ai_Metadata inp = [] \<Longrightarrow> keeps J (appendAuditTx st inp)"
    and "\<And>d d'. classroom d' = classroom d \<Longrightarrow> J d' = J d"
  shows "account_repo J st"
proof -
  have "keeps J (RotateRefreshToken h nt)" for h nt
    by (rule rotate_frame [OF assms(1)]; rule same_keeps [OF _ assms(3)], rule view_rules)
  moreover have "core_only J" "keeps_challenges J" by (rule views_challenges, erule assms(3))+
  ultimately show ?thesis
    using assms(1,2) by unfold_locales (assumption | rule same_keeps [OF _ assms(3)], rule view_rules)+
qed

lemma account_repo_conj: "account_repo J st \<Longrightarrow> account_repo K st \<Longrightarrow> account_repo (\<lambda>d. J d \<and> K d) st"
  by (simp add: account_repo_def tx_safe_def keeps_conj stmt_keeps_conj core_only_conj keeps_challenges_conj)

lemma integrity_accounts:
  assumes "store_ok edv keys st"
  shows "account_repo (integrity_inv st edv keys) st"
proof -
  have frame: "account_repo J st"
    if "tx_safe J" "\<And>d l n. J (d\<lparr>audit_log := l, audit_log_seq := n\<rparr>) = J d" "\<And>d d'. classroom d' = classroom d \<Longrightarrow> J d' = J d" for J
    by (rule classroom_account_repo [OF that(1) keeps_append_frame [OF that(2)] that(3)])
  have "account_repo (audit_inv (sha256 st) edv keys) st"
    by (rule classroom_account_repo [OF tx_safe_audit_inv keeps_appendAuditTx [OF assms] of_classroom(6)])
  moreover have "account_repo (consent_inv (sha256 st) edv keys) st"
    by (rule frame [OF tx_safe_consent_inv _ of_classroom(5)]) (simp add: consent_inv_def)
  moreover have "account_repo session_inv st" by (rule frame [OF tx_safe_tables(1) _ of_classroom(1)]) (simp add: session_inv_def present_def)
  moreover have "account_repo rec_inv st" by (rule frame [OF tx_safe_tables(2) _ of_classroom(2)]) (simp add: rec_inv_def)
  moreover have "account_repo ent_inv st" by (rule frame [OF tx_safe_tables(3) _ of_classroom(3)]) (simp add: ent_inv_def)
  moreover have "account_repo presence_inv st" by (rule frame [OF tx_safe_tables(4) _ of_classroom(4)]) (simp add: presence_inv_def)
  ultimately show ?thesis
    unfolding integrity_inv_def [abs_def] by (intro account_repo_conj refresh_accounts.account_repo_axioms)
qed

lemma platform_accounts: "store_ok edv keys st \<Longrightarrow> account_repo (platform_inv st edv keys) st"
  unfolding platform_inv_def [abs_def] by (intro account_repo_conj integrity_accounts adult_accounts.account_repo_axioms)

section \<open>The classroom services\<close>

lemma session_repo_conj: "session_repo J \<Longrightarrow> session_repo K \<Longrightarrow> session_repo (\<lambda>d. J d \<and> K d)"
  by (simp add: session_repo_def keeps_conj)

lemma session_writes_frame:
  assumes "\<And>d x. J (d\<lparr>sessions := x\<rparr>) = J d" "\<And>d x. J (d\<lparr>session_participants := x\<rparr>) = J d"
    "\<And>d es n. J (d\<lparr>presence_events := es, presence_events_seq := n\<rparr>) = J d"
  shows "session_repo J"
  by (unfold_locales; (rule keeps_presence_event | (unfold repo_defs, rule keeps_pg)))
    (auto simp: stmt_keeps_def q_CreateSession_def q_StartSession_def q_EndSession_def q_AddParticipant_def q_RemoveParticipant_def Let_def assms
      split: if_splits)

interpretation integrity_sessions: session_repo "integrity_inv st edv keys" for st edv keys
  unfolding integrity_inv_def [abs_def]
  by (intro session_repo_conj session_audit.session_repo_axioms session_consent.session_repo_axioms sessions.session_repo_axioms
      session_presence.session_repo_axioms session_refresh.session_repo_axioms session_writes_frame)
    (simp_all add: rec_inv_def ent_inv_def)

interpretation platform_sessions: session_repo "platform_inv st edv keys" for st edv keys
  unfolding platform_inv_def [abs_def]
  by (intro session_repo_conj integrity_sessions.session_repo_axioms session_writes_frame)
    (simp_all add: adult_inv_def grounds_defs)

lemma recording_repo_conj: "recording_repo J \<Longrightarrow> recording_repo K \<Longrightarrow> recording_repo (\<lambda>d. J d \<and> K d)"
  by (simp add: recording_repo_def keeps_conj)

interpretation integrity_recordings: recording_repo "integrity_inv st edv keys" for st edv keys
  unfolding integrity_inv_def [abs_def]
  by (intro recording_repo_conj recordings.recording_repo_axioms recording_writes_frame)
    (simp_all add: audit_inv_def consent_inv_def session_inv_def present_def ent_inv_def presence_inv_def refresh_inv_def)

interpretation platform_recordings: recording_repo "platform_inv st edv keys" for st edv keys
  unfolding platform_inv_def [abs_def]
  by (intro recording_repo_conj integrity_recordings.recording_repo_axioms recording_writes_frame)
    (simp_all add: adult_inv_def grounds_defs)

text \<open>The audited services of the classroom, towards a property \<open>J\<close>: entitlements, the consent ledger and the presence
  checkpoints.\<close>

locale ledger_repo =
  fixes J :: "db \<Rightarrow> bool" and st :: Store
  assumes tx: "tx_safe J"
    and append: "ai_Metadata inp = [] \<Longrightarrow> keeps J (appendAuditTx st inp)"
    and entitle: "stmt_keeps J (q_insert_entitlement e)" "stmt_keeps J (q_revoke_entitlement uid rtype rid)"
    and consent_append: "keeps J (AppendConsent st inp')"
    and checkpoint: "stmt_keeps J (q_insert_checkpoint cid f t n root aseq)"
begin

lemma keeps_entitlements:
  "keeps J (entitlement_Grant st newID actorID actorRole uid rtype rid source price expires)"
  "keeps J (entitlement_Revoke st actorID actorRole uid rtype rid)"
proof -
  have err: "keeps J (case e of UniqueViolation x \<Rightarrow> fail ErrEntitlementExists | _ \<Rightarrow> fail e)" for e :: error
    by (cases e) (simp_all add: keeps_fail)
  show "keeps J (entitlement_Grant st newID actorID actorRole uid rtype rid source price expires)"
    "keeps J (entitlement_Revoke st actorID actorRole uid rtype rid)"
    unfolding entitlement_Grant_def entitlement_Revoke_def GrantEntitlementAudited_def RevokeEntitlementAudited_def grantEntitlementTx_def
    by (intro keeps_rules keeps_in_tx keeps_in_tx_unless tx append entitle err; simp add: auditInput_def)+
qed

lemma keeps_consent:
  assumes "\<And>f sid. hook = Some f \<Longrightarrow> keeps J (f sid)"
  shows "keeps J (consent_Grant st hook nid subject session)" "keeps J (consent_Withdraw st hook nid subject session)"
proof -
  show "keeps J (consent_Grant st hook nid subject session)" "keeps J (consent_Withdraw st hook nid subject session)"
    unfolding consent_Grant_def consent_Withdraw_def consent_append_def
    by (cases hook; simp; intro keeps_rules consent_append assms; simp)+
qed

lemma keeps_Checkpoint:
  assumes "ps_store svc = st"
  shows "keeps J (Checkpoint svc nid)"
  unfolding Checkpoint_def LatestPresenceCheckpointSeq_def PresenceEventsAfter_def WritePresenceCheckpoint_def assms Let_def
  by (intro keeps_rules keeps_in_tx tx append checkpoint; simp add: stmt_keeps_def checkpoint_input_def)

end

lemma AppendConsent_frame:
  assumes "tx_safe J" "\<And>d x n. J (d\<lparr>consent_records := x, consent_records_seq := n\<rparr>) = J d"
  shows "keeps J (AppendConsent st inp)"
  unfolding AppendConsent_def sign_and_insert_consent_def Let_def
  by (intro keeps_rules keeps_in_tx assms(1))
    (auto simp: stmt_keeps_def advisory_lock_def q_consent_tail_def q_insert_consent_def assms(2) split: if_splits dest!: row_InrD)

lemma ledger_frame:
  assumes "tx_safe J" "\<And>inp. ai_Metadata inp = [] \<Longrightarrow> keeps J (appendAuditTx st inp)" "\<And>inp. keeps J (AppendConsent st inp)"
    and "\<And>d x. J (d\<lparr>entitlements := x\<rparr>) = J d" "\<And>d x. J (d\<lparr>presence_checkpoints := x\<rparr>) = J d"
  shows "ledger_repo J st"
  using assms(1-3)
  by unfold_locales (auto simp: stmt_keeps_def q_insert_entitlement_def q_revoke_entitlement_def q_insert_checkpoint_def Let_def assms(4,5) split: if_splits)

interpretation entitlement_ledger: ledger_repo ent_inv st for st
proof
  show "keeps ent_inv (AppendConsent st inp)" for st inp by (rule AppendConsent_frame [OF tx_safe_ent_inv]) (simp add: ent_inv_def)
  show "stmt_keeps ent_inv (q_insert_checkpoint cid f t n root aseq)" for cid f t n root aseq
    by (auto simp: stmt_keeps_def q_insert_checkpoint_def ent_inv_def split: if_splits)
qed (rule tx_safe_ent_inv keeps_ent_append ent_inv_insert ent_inv_revoke)+

lemma ledger_repo_conj: "ledger_repo J st \<Longrightarrow> ledger_repo K st \<Longrightarrow> ledger_repo (\<lambda>d. J d \<and> K d) st"
  by (simp add: ledger_repo_def tx_safe_def keeps_conj stmt_keeps_conj)

lemma quiet_ledger:
  assumes "tx_safe J" "\<And>d l n. J (d\<lparr>audit_log := l, audit_log_seq := n\<rparr>) = J d" "\<And>d x n. J (d\<lparr>consent_records := x, consent_records_seq := n\<rparr>) = J d"
    "\<And>d x. J (d\<lparr>entitlements := x\<rparr>) = J d" "\<And>d x. J (d\<lparr>presence_checkpoints := x\<rparr>) = J d"
  shows "ledger_repo J st"
  by (rule ledger_frame [OF assms(1) keeps_append_frame [OF assms(2)] AppendConsent_frame [OF assms(1,3)] assms(4,5)])

interpretation refresh_ledger: ledger_repo refresh_inv st for st
  by (rule quiet_ledger [OF tx_safe_refresh]) (simp_all add: refresh_inv_def)

interpretation adult_ledger: ledger_repo adult_inv st for st
  by (rule quiet_ledger [OF tx_safe_adult]) (simp_all add: adult_inv_def grounds_defs)

lemma integrity_ledgers:
  assumes "store_ok edv keys st"
  shows "ledger_repo (integrity_inv st edv keys) st"
proof -
  note defs = session_inv_def present_def rec_inv_def presence_inv_def
  have "ledger_repo (audit_inv (sha256 st) edv keys) st"
    by (rule ledger_frame [OF tx_safe_audit_inv keeps_appendAuditTx [OF assms] AppendConsent_frame [OF tx_safe_audit_inv]]) (simp_all add: audit_inv_def)
  moreover have "ledger_repo (consent_inv (sha256 st) edv keys) st"
    by (rule ledger_frame [OF tx_safe_consent_inv keeps_append_frame keeps_AppendConsent [OF assms]]) (simp_all add: consent_inv_def)
  moreover have "ledger_repo session_inv st" by (rule quiet_ledger [OF tx_safe_tables(1)]) (simp_all add: defs)
  moreover have "ledger_repo rec_inv st" by (rule quiet_ledger [OF tx_safe_tables(2)]) (simp_all add: defs)
  moreover have "ledger_repo presence_inv st" by (rule quiet_ledger [OF tx_safe_tables(4)]) (simp_all add: defs)
  ultimately show ?thesis
    unfolding integrity_inv_def [abs_def]
    by (intro ledger_repo_conj entitlement_ledger.ledger_repo_axioms refresh_ledger.ledger_repo_axioms)
qed

lemma platform_ledgers: "store_ok edv keys st \<Longrightarrow> ledger_repo (platform_inv st edv keys) st"
  unfolding platform_inv_def [abs_def] by (intro ledger_repo_conj integrity_ledgers adult_ledger.ledger_repo_axioms)

section \<open>The services together\<close>

text \<open>One operation of one service, with any arguments, on any world; or the world around the database moves on (time
  passes, connections fail and recover, the media server answers). The services share one store and are wired as the program wires
  them: the login flows resolve with the resolvers of their kinds, the assurance sources only read, and the hook of the consent service, where
  LiveKit is configured, is the reconciliation of the recording service.\<close>

inductive platform_step :: "Store \<Rightarrow> RecordingSvc \<Rightarrow> world \<Rightarrow> world \<Rightarrow> bool" for st rec where
  create: "session_CreateSession nid claims kind classID start w = (r, w') \<Longrightarrow> platform_step st rec w w'"
| join: "Join svc eid claims sid w = (r', w') \<Longrightarrow> platform_step st rec w w'"
| start: "session_Start claims sid w = (r'', w') \<Longrightarrow> platform_step st rec w w'"
| finish: "session_End claims sid w = (r'', w') \<Longrightarrow> platform_step st rec w w'"
| leave: "Leave eid claims sid w = (r'', w') \<Longrightarrow> platform_step st rec w w'"
| grant: "hook \<in> {None, Some (ReconcileForSession rec)} \<Longrightarrow> consent_Grant st hook nid subject session w = (r'', w') \<Longrightarrow> platform_step st rec w w'"
| withdraw: "hook \<in> {None, Some (ReconcileForSession rec)} \<Longrightarrow> consent_Withdraw st hook nid subject session w = (r'', w') \<Longrightarrow> platform_step st rec w w'"
| begin_recording: "recording_Start rec nid claims sid w = (q, w') \<Longrightarrow> platform_step st rec w w'"
| stop: "recording_Stop rec claims sid w = (r'', w') \<Longrightarrow> platform_step st rec w w'"
| webhook: "HandleWebhookEvent ev w = (r'', w') \<Longrightarrow> platform_step st rec w w'"
| entitle: "entitlement_Grant st nid actor role uid rtype rid source price expires w = (e, w') \<Longrightarrow> platform_step st rec w w'"
| disentitle: "entitlement_Revoke st actor role uid rtype rid w = (r'', w') \<Longrightarrow> platform_step st rec w w'"
| checkpoint: "ps_store psvc = st \<Longrightarrow> Checkpoint psvc nid w = (b, w') \<Longrightarrow> platform_step st rec w w'"
| suspend: "Suspend st claims target w = (r'', w') \<Longrightarrow> platform_step st rec w w'"
| reinstate: "Reinstate st claims target w = (r'', w') \<Longrightarrow> platform_step st rec w w'"
| instructor: "SetInstructor st claims target g w = (r'', w') \<Longrightarrow> platform_step st rec w w'"
| identify: "identity_Begin ids uid region w = (sr, w') \<Longrightarrow> platform_step st rec w w'"
| verified: "identity_Apply res w = (r'', w') \<Longrightarrow> platform_step st rec w w'"
| terms: "identity_AcceptToS uid version attested w = (r'', w') \<Longrightarrow> platform_step st rec w w'"
| login: "reading_sources a \<Longrightarrow> IssueSession a secret nid jti uid w = (ses, w') \<Longrightarrow> platform_step st rec w w'"
| refresh: "reading_sources a \<Longrightarrow> Refresh a secret nid jti presented w = (ses, w') \<Longrightarrow> platform_step st rec w w'"
| logout: "reading_sources a \<Longrightarrow> Logout a presented jti t w = (r'', w') \<Longrightarrow> platform_step st rec w w'"
| authenticate: "wired au \<Longrightarrow> Authenticate au fr p cur w = (ses, w') \<Longrightarrow> platform_step st rec w w'"
| ask_email: "email_RequestCode el cid code addr w = (r'', w') \<Longrightarrow> platform_step st rec w w'"
| ask_phone: "phone_RequestCode pl cid code addr w = (r'', w') \<Longrightarrow> platform_step st rec w w'"
| by_email: "wired (el_authn el) \<Longrightarrow> email_VerifyCode el fr addr code w = (ses, w') \<Longrightarrow> platform_step st rec w w'"
| by_phone: "wired (pl_authn pl) \<Longrightarrow> phone_VerifyCode pl fr addr code cur w = (ses, w') \<Longrightarrow> platform_step st rec w w'"
| by_provider: "wired (fd_authn f) \<Longrightarrow> Complete f fr provider code secret w = (ses, w') \<Longrightarrow> platform_step st rec w w'"
| ask_stepup: "stepup_RequestCode su cid code uid w = (rr, w') \<Longrightarrow> platform_step st rec w w'"
| stepup: "stepup_Verify su raw gid uid code w = (g', w') \<Longrightarrow> platform_step st rec w w'"
| logged_in: "RecordLoginEvent eid uid meth w = (r'', w') \<Longrightarrow> platform_step st rec w w'"
| played: "AuditPlayback st subject recording w = (r'', w') \<Longrightarrow> platform_step st rec w w'"
| bootstrap: "Bootstrap nid bp w = (sid', w') \<Longrightarrow> platform_step st rec w w'"
| profile: "auth_UpdateProfile uid handle name bio w = (r'', w') \<Longrightarrow> platform_step st rec w w'"
| close: "auth_CloseAccount uid w = (r'', w') \<Longrightarrow> platform_step st rec w w'"
| everywhere: "LogoutEverywhere uid w = (r'', w') \<Longrightarrow> platform_step st rec w w'"
| teach: "BecomeInstructor st claims w = (r'', w') \<Longrightarrow> platform_step st rec w w'"
| new_class: "class_Create nid claims title description w = (c, w') \<Longrightarrow> platform_step st rec w w'"
| publish: "SetStatus claims cid status w = (r'', w') \<Longrightarrow> platform_step st rec w w'"
| cap: "SetCapacity claims cid capacity w = (r'', w') \<Longrightarrow> platform_step st rec w w'"
| enroll: "Enroll cs claims cid w = (r'', w') \<Longrightarrow> platform_step st rec w w'"
| unenroll: "Unenroll claims cid w = (r'', w') \<Longrightarrow> platform_step st rec w w'"
| elapse: "w_db w' = w_db w \<Longrightarrow> platform_step st rec w w'"

text \<open>A property of the tables that every service keeps.\<close>

locale platform_repo = accounts: account_repo J st + ledgers: ledger_repo J st + sessions: session_repo J + recordings: recording_repo J
  for J :: "db \<Rightarrow> bool" and st :: Store
begin

lemma hook_keeps: "hook \<in> {None, Some (ReconcileForSession rec)} \<Longrightarrow> hook = Some f \<Longrightarrow> keeps J (f sid)"
  using recordings.keeps_recording_service(3) by auto

lemmas service_keeps = sessions.keeps_session_service recordings.keeps_recording_service accounts.keeps_moderation accounts.keeps_identity
  accounts.keeps_sessions accounts.keeps_signup accounts.keeps_Authenticate accounts.keeps_flows accounts.keeps_self_service accounts.keeps_classes
  accounts.keeps_stepup accounts.side_tables accounts.keeps_AuditPlayback ledgers.keeps_entitlements ledgers.keeps_Checkpoint

lemma step_keeps:
  assumes "platform_step st rec w w'" "J (w_db w)"
  shows "J (w_db w')"
  using assms(1)
proof cases
  case elapse
  then show ?thesis using assms(2) by simp
next
  case (grant hook nid subject session r)
  show ?thesis by (rule keepsD [OF ledgers.keeps_consent(1) grant(2) assms(2)]) (rule hook_keeps [OF grant(1)])
next
  case (withdraw hook nid subject session r)
  show ?thesis by (rule keepsD [OF ledgers.keeps_consent(2) withdraw(2) assms(2)]) (rule hook_keeps [OF withdraw(1)])
qed (rule keepsD [where J = J and w = w, OF _ _ assms(2)], (rule service_keeps; assumption?), assumption)+

lemma steps_keep: "(platform_step st rec)\<^sup>*\<^sup>* w w' \<Longrightarrow> J (w_db w) \<Longrightarrow> J (w_db w')"
  by (induction rule: rtranclp_induct) (auto intro: step_keeps)

end

lemma platform_services: "store_ok edv keys st \<Longrightarrow> platform_repo (platform_inv st edv keys) st"
  by (intro platform_repo.intro platform_accounts platform_ledgers platform_sessions.session_repo_axioms platform_recordings.recording_repo_axioms)

interpretation refresh_services: platform_repo refresh_inv st for st
  by (intro platform_repo.intro refresh_accounts.account_repo_axioms refresh_ledger.ledger_repo_axioms session_refresh.session_repo_axioms
      recording_writes_frame) (simp add: refresh_inv_def)

interpretation adult_services: platform_repo adult_inv st for st
  by (intro platform_repo.intro adult_accounts.account_repo_axioms adult_ledger.ledger_repo_axioms session_writes_frame recording_writes_frame)
    (simp_all add: adult_inv_def grounds_defs)

lemma platform_inv_empty: "platform_inv st edv keys empty_db"
  by (simp add: platform_inv_def integrity_inv_def audit_inv_def consent_inv_def session_inv_def rec_inv_def ent_inv_def presence_inv_def refresh_inv_def adult_inv_def
      empty_db_def unique_where_def)

section \<open>The account's row and the sessions it can hold\<close>

abbreviation account :: "string \<Rightarrow> db \<Rightarrow> User option" where
  "account uid d \<equiv> first_row (\<lambda>u. u_ID u = uid) (users d)"

lemma Verify_payload:
  assumes "Verify js edv keys t tok = Inr c"
  shows "Option.bind (DecodeString (split_on CHR ''.'' tok ! 1)) (unmarshalClaims js) = Some c"
proof -
  obtain p0 p1 p2 where s: "split_on CHR ''.'' tok = [p0, p1, p2]"
    using assms by (auto simp: Verify_def split: list.splits)
  show ?thesis
    using assms by (auto simp: Verify_def s check_times_def split: option.splits if_splits)
qed

lemma Validate_version:
  assumes "Validate js edv keys IsAccessTokenRevoked CurrentTokenVersion tok w = (Inr c, w')"
  shows "Verify js edv keys (w_now w) tok = Inr c" "map_option u_TokenVersion (account (Subject c) (w_db w)) = Some (TokenVersion c)"
proof -
  obtain w1 w2 where v: "Verify js edv keys (w_now w) tok = Inr c" and r: "IsAccessTokenRevoked (TokenID c) w = (Inr False, w1)"
    and n: "CurrentTokenVersion (Subject c) w1 = (Inr (TokenVersion c), w2)"
    using assms by (rule Validate_InrD)
  show "Verify js edv keys (w_now w) tok = Inr c" by (rule v)
  have "w_db w1 = w_db w"
    using r unfolding IsAccessTokenRevoked_def by (elim pg_InrD) (simp add: q_IsAccessTokenRevoked_def)
  then show "map_option u_TokenVersion (account (Subject c) (w_db w)) = Some (TokenVersion c)"
    using find_pg(1) [OF n [unfolded CurrentTokenVersion_def q_CurrentTokenVersion_def [abs_def]]] by simp
qed

lemma IssueSession_account:
  assumes "IssueSession s secret nid jti uid w = (Inr ses, w')"
  obtains u where "account uid (w_db w) = Some u" "canHoldSession (u_Status u)"
proof -
  obtain q w1 where g: "GetUser uid w = (q, w1)" by force
  with assms obtain u where q: "q = Inr u" and ok: "canHoldSession (u_Status u)"
    by (cases q) (auto simp: IssueSession_def attempt_def fail_def split: if_splits)
  with find_pg(1) [OF g [unfolded q GetUser_def q_GetUser_def [abs_def]]] show thesis by (intro that)
qed

lemma rotate_users: "keeps (\<lambda>d. users d = us) (RotateRefreshToken h nt)"
  by (rule rotate_frame)
    (auto simp: tx_safe_def rolled_back_def stmt_keeps_def q_GetRefreshTokenByHashForUpdate_def q_RevokeRefreshFamily_def q_IssueRefreshToken_def
      q_MarkRefreshTokenReplaced_def split: if_splits option.splits dest!: row_InrD)

lemma Refresh_account:
  assumes "Refresh s secret nid jti presented w = (Inr ses, w')"
  obtains u where "account (Subject (se_AccessClaims ses)) (w_db w) = Some u" "canHoldSession (u_Status u)"
proof -
  define nt where "nt = \<lparr>nt_ID = nid, nt_Hash = hashSecret s secret, nt_ExpiresAt = w_now w + as_refreshTTL s\<rparr>"
  obtain q w1 where rot: "RotateRefreshToken (hashSecret s presented) nt w = (q, w1)" by force
  with assms obtain ro where q: "q = Inr ro"
    by (cases q) (auto simp: Refresh_def goNow_def bind_def attempt_def fail_def Let_def nt_def)
  have us: "users (w_db w1) = users (w_db w)" using keepsD [OF rotate_users rot] by blast
  obtain v w2 where g: "GetUser (ro_UserID ro) w1 = (v, w2)" by force
  from assms rot g obtain u where v: "v = Inr u" and ok: "canHoldSession (u_Status u)"
    by (cases v) (auto simp: Refresh_def goNow_def bind_def attempt_def fail_def Let_def nt_def q split: if_splits)
  have u: "account (ro_UserID ro) (w_db w) = Some u"
    using find_pg(1) [OF g [unfolded v GetUser_def q_GetUser_def [abs_def]]] us by simp
  obtain i w3 where idn: "GetIdentity (ro_UserID ro) w2 = (i, w3)" by force
  from assms rot g idn ok obtain idn' where "mint s jti u idn' secret (w_now w + as_refreshTTL s) w3 = (Inr ses, w')"
    by (cases i) (auto simp: Refresh_def goNow_def bind_def attempt_def fail_def Let_def nt_def q v split: if_splits)
  from mint_subject [OF this] u find_SomeD [OF u] show thesis by (intro that [OF _ ok]) simp
qed

lemma find_update_rows_Some:
  "find P rs = Some r \<Longrightarrow> (\<And>q. P q \<Longrightarrow> P (f q)) \<Longrightarrow> find P (update_rows P f rs) = Some (f r)"
  by (induction rs) (auto split: if_splits)

lemma Suspend_account:
  assumes "audit_inv (sha256 st) edv keys (w_db w)" "store_ok edv keys st" "Suspend st claims target w = (Inr (), w')"
  obtains u where "HasCapability claims CapPlatformModerator" "account target (w_db w) = Some u"
    "account target (w_db w') = Some (u\<lparr>u_Status := ''suspended'', u_TokenVersion := u_TokenVersion u + 1\<rparr>)"
proof -
  define inp where "inp = mod_input claims ActionUserSuspended target"
  define mutate where "mutate = bind (pg (q_SuspendUser target)) (\<lambda>_. bind (pg (q_RevokeAllRefreshTokens target)) (\<lambda>_.
      bind (pg (q_BumpTokenVersion target)) (\<lambda>_. ret ())))"
  have cap: "HasCapability claims CapPlatformModerator" using assms(3) by (auto simp: Suspend_def fail_def split: if_splits)
  have run: "inAuditTx st inp mutate w = (Inr (), w')"
    using assms(3) cap by (simp add: Suspend_def SuspendUserAudited_def inp_def mutate_def mod_input_def)
  have js: "jsonb st ''{}'' = Some ''{}''" and meta: "ai_Metadata inp = []" using assms(2) by (simp_all add: store_ok_def inp_def mod_input_def)
  have asc: "sorted_wrt (<) (map al_Seq (audit_log (w_db w2)))" if "mutate w1 = (Inr (), w2)" "w_db w1 = w_db w" for w1 w2
    using suspend_mutation [OF that(1) [unfolded mutate_def]] that(2) assms(1) by (simp add: audit_inv_def)
  obtain w1 w2 where m: "mutate w1 = (Inr (), w2)" and w1: "w_db w1 = w_db w" and w': "users (w_db w') = users (w_db w2)"
    by (rule disjE [OF inAuditTx_outcome [OF run js meta]], erule (1) asc) auto
  have sus: "suspended target (w_db w) (w_db w2)" using suspend_mutation [OF m [unfolded mutate_def]] w1 by simp
  then obtain u where u: "account target (w_db w) = Some u"
    by (cases "account target (w_db w)") (auto simp: suspended_def user_exists_def find_None_iff list_ex_iff)
  have "account target (w_db w') = Some (u\<lparr>u_Status := ''suspended'', u_TokenVersion := u_TokenVersion u + 1\<rparr>)"
    using sus u unfolding w' suspended_def by (simp add: find_update_rows_Some)
  with cap u show thesis by (rule that)
qed

text \<open>An account that cannot hold a session gets none, and a token of an older version is refused.\<close>

lemma refusedI: "(\<And>x w'. m \<noteq> (Inr x, w')) \<Longrightarrow> \<exists>e. fst m = Inl e"
  by (cases m; cases "fst m") auto

lemma IssueSession_barred:
  assumes "account uid (w_db w) = Some u" "\<not> canHoldSession (u_Status u)"
  shows "\<exists>e. fst (IssueSession a secret nid jti uid w) = Inl e"
  by (rule refusedI, rule notI, erule IssueSession_account) (use assms in simp)

lemma Refresh_barred:
  assumes "account uid (w_db w) = Some u" "\<not> canHoldSession (u_Status u)" "Refresh a secret nid jti presented w = (Inr ses, w')"
  shows "Subject (se_AccessClaims ses) \<noteq> uid"
  by (rule notI, rule Refresh_account [OF assms(3)]) (use assms in simp)

lemma Validate_outdated:
  assumes "Validate js edv keys IsAccessTokenRevoked CurrentTokenVersion tok w = (Inr claims, wa)"
    and "map_option u_TokenVersion (account (Subject claims) (w_db w2)) \<noteq> map_option u_TokenVersion (account (Subject claims) (w_db w))"
  shows "\<exists>e. fst (Validate js edv keys IsAccessTokenRevoked CurrentTokenVersion tok w2) = Inl e"
proof (rule refusedI, rule notI)
  fix c w'
  assume v: "Validate js edv keys IsAccessTokenRevoked CurrentTokenVersion tok w2 = (Inr c, w')"
  have "c = claims"
    using Verify_payload [OF Validate_version(1) [OF v]] Verify_payload [OF Validate_version(1) [OF assms(1)]] by simp
  then show False using Validate_version(2) [OF v] Validate_version(2) [OF assms(1)] assms(2) by auto
qed

text \<open>Activation does not look at the status it overwrites: the vendor's approval, applied to an account a moderator has
  suspended, makes it active again without a reinstatement and without an audit entry.\<close>

lemma Apply_lifts_suspension:
  assumes "identity_Apply r w = (Inr (), w')" "account (re_UserID r) (w_db w) = Some u"
  shows "map_option u_Status (account (re_UserID r) (w_db w')) = Some ''active''"
proof -
  obtain retain w1 where v: "VerifyAdultIdentity (re_UserID r) (re_ProviderRef r) retain w = (Inr (), w1)"
    and a: "ActivateUser (re_UserID r) w1 = (Inr (), w')"
    using assms(1) unfolding identity_Apply_def goNow_def Let_def by (auto simp: fail_def split: if_splits elim!: bind_InrD)
  have "users (w_db w1) = users (w_db w)"
    using v unfolding VerifyAdultIdentity_def
    by (elim pg_InrD) (auto simp: q_VerifyAdultIdentity_def update_identity_def downgrade_trigger_def dest: arg_cong [where f = users] split: option.splits)
  moreover have "users (w_db w') = update_rows (\<lambda>u. u_ID u = re_UserID r) (\<lambda>u. u\<lparr>u_Status := ''active''\<rparr>) (users (w_db w1))"
    using a unfolding ActivateUser_def by (elim pg_InrD) (auto simp: q_ActivateUser_def update_user_def dest: arg_cong [where f = users] split: if_splits)
  ultimately show ?thesis using assms(2) by (simp add: find_update_rows_Some)
qed

end
