(* ===== verification/ServiceHttp.thy ===== *)
theory ServiceHttp
  imports Http Platform
begin

text \<open>
  The HTTP surfaces of the classroom services: \<^verbatim>\<open>internal/session/http.go\<close>, \<^verbatim>\<open>internal/consent/http.go\<close>,
  \<^verbatim>\<open>internal/class/http.go\<close>, \<^verbatim>\<open>internal/entitlement/http.go\<close> and \<^verbatim>\<open>internal/moderation/http.go\<close>. Each package has its own copy of
  the bearer check, which is \<open>requireAuth\<close> of theory \<open>Http\<close>, and its own mapping from service errors to statuses.

  Ids that the services draw at random are arguments of the route tables.
\<close>

section \<open>Sessions\<close>

record createBody =
  cb_Kind :: string
  cb_ClassID :: "string option"
  cb_ScheduledStart :: string

record SessionHandler =
  sh_svc :: SessionSvc
  sh_validate :: validator
  sh_decode :: "bytes \<Rightarrow> createBody option"
  sh_parseTime :: "string \<Rightarrow> instant option"

definition session_writeServiceErr :: "error \<Rightarrow> Response io" where
  "session_writeServiceErr err =
     (if err = session_ErrForbidden then writeError 403 ''insufficient assurance or role''
      else if err = session_ErrNotFound then writeError 404 ''session not found''
      else if err = ErrSessionEnded then writeError 409 ''session ended''
      else if err = ErrInvalidKind then writeError 400 ''session: kind must be class or direct''
      else if err = ErrClassRequired then writeError 400 ''session: class id required for a class session''
      else writeError 500 ''internal error'')"

definition session_create :: "SessionHandler \<Rightarrow> string \<Rightarrow> HttpReq \<Rightarrow> AccessTokenClaims \<Rightarrow> Response io" where
  "session_create h nid rq claims =
     decodeJSON (sh_decode h) rq (\<lambda>req.
       let create = (\<lambda>scheduled. attempt (session_CreateSession nid claims (cb_Kind req) (cb_ClassID req) scheduled) (\<lambda>r. case r of
             Inl err \<Rightarrow> session_writeServiceErr err
           | Inr sess \<Rightarrow> writeJSON 201 (JObj [(''sessionId'', JStr (s_ID sess)), (''room'', JStr (s_LivekitRoom sess)), (''kind'', JStr (s_Kind sess))])))
       in if cb_ScheduledStart req \<noteq> '''' then
            (case sh_parseTime h (cb_ScheduledStart req) of
               None \<Rightarrow> writeError 400 ''scheduledStart must be RFC3339''
             | Some ts \<Rightarrow> create (Some ts))
          else create None)"

definition start_field :: "Session \<Rightarrow> (string \<times> json) list" where
  "start_field s = (case s_ScheduledStart s of None \<Rightarrow> [] | Some t \<Rightarrow> [(''scheduledStart'', jtime t)])"

definition session_listForClass :: "SessionHandler \<Rightarrow> HttpReq \<Rightarrow> AccessTokenClaims \<Rightarrow> Response io" where
  "session_listForClass h rq claims =
     (let classID = hr_Query rq ''classId'' in
      if classID = '''' then writeError 400 ''classId query parameter required''
      else attempt (ListForClass claims classID) (\<lambda>r. case r of
        Inl err \<Rightarrow> session_writeServiceErr err
      | Inr ss \<Rightarrow> writeJSON 200 (JObj [(''sessions'', JArr (map (\<lambda>s. JObj ([(''sessionId'', JStr (s_ID s)), (''kind'', JStr (s_Kind s)),
            (''status'', JStr (s_Status s)), (''room'', JStr (s_LivekitRoom s))] @ start_field s)) ss))])))"

definition session_join :: "SessionHandler \<Rightarrow> string \<Rightarrow> string \<Rightarrow> AccessTokenClaims \<Rightarrow> Response io" where
  "session_join h eid sid claims =
     attempt (Join (sh_svc h) eid claims sid) (\<lambda>r. case r of
       Inl err \<Rightarrow> session_writeServiceErr err
     | Inr res \<Rightarrow> writeJSON 200 (JObj [(''sessionId'', JStr (jr_SessionID res)), (''room'', JStr (jr_Room res)), (''role'', JStr (jr_Role res)),
         (''token'', JStr (jr_Token res)), (''wsUrl'', JStr (jr_WSURL res))]))"

definition session_detail :: "SessionHandler \<Rightarrow> string \<Rightarrow> AccessTokenClaims \<Rightarrow> Response io" where
  "session_detail h sid claims =
     attempt (session_Detail claims sid) (\<lambda>r. case r of
       Inl err \<Rightarrow> session_writeServiceErr err
     | Inr (sess, parts) \<Rightarrow> writeJSON 200 (JObj ([(''sessionId'', JStr (s_ID sess)), (''kind'', JStr (s_Kind sess)), (''status'', JStr (s_Status sess)),
         (''room'', JStr (s_LivekitRoom sess)),
         (''participants'', JArr (map (\<lambda>p. JObj [(''userId'', JStr (sp_UserID p)), (''role'', JStr (sp_Role p))]) parts))] @ start_field sess)))"

definition session_start :: "string \<Rightarrow> AccessTokenClaims \<Rightarrow> Response io" where
  "session_start sid claims = done_or session_writeServiceErr (session_Start claims sid)"

definition session_end :: "string \<Rightarrow> AccessTokenClaims \<Rightarrow> Response io" where
  "session_end sid claims = done_or session_writeServiceErr (session_End claims sid)"

definition session_leave :: "string \<Rightarrow> string \<Rightarrow> AccessTokenClaims \<Rightarrow> Response io" where
  "session_leave eid sid claims = done_or session_writeServiceErr (Leave eid claims sid)"

definition session_routes :: "SessionHandler \<Rightarrow> string \<Rightarrow> route list" where
  "session_routes h nid =
     (let v1 = Lit ''v1''; ss = Lit ''sessions''; auth = requireAuth (sh_validate h) in
      [(''POST'', [v1, ss], \<lambda>_ rq. auth rq (session_create h nid rq)),
       (''GET'', [v1, ss], \<lambda>_ rq. auth rq (session_listForClass h rq)),
       (''GET'', [v1, ss, Wild], \<lambda>vs rq. auth rq (session_detail h (vs ! 0))),
       (''POST'', [v1, ss, Wild, Lit ''join''], \<lambda>vs rq. auth rq (session_join h nid (vs ! 0))),
       (''POST'', [v1, ss, Wild, Lit ''start''], \<lambda>vs rq. auth rq (session_start (vs ! 0))),
       (''POST'', [v1, ss, Wild, Lit ''end''], \<lambda>vs rq. auth rq (session_end (vs ! 0))),
       (''POST'', [v1, ss, Wild, Lit ''leave''], \<lambda>vs rq. auth rq (session_leave nid (vs ! 0)))])"

section \<open>Consent\<close>

record ConsentHandler =
  ch_store :: Store
  ch_hook :: "(string \<Rightarrow> unit io) option"
  ch_validate :: validator

definition consent_grant :: "ConsentHandler \<Rightarrow> string \<Rightarrow> string \<Rightarrow> AccessTokenClaims \<Rightarrow> Response io" where
  "consent_grant h nid sid claims = done_or internal_error (consent_Grant (ch_store h) (ch_hook h) nid (Subject claims) sid)"

definition consent_withdraw :: "ConsentHandler \<Rightarrow> string \<Rightarrow> string \<Rightarrow> AccessTokenClaims \<Rightarrow> Response io" where
  "consent_withdraw h nid sid claims = done_or internal_error (consent_Withdraw (ch_store h) (ch_hook h) nid (Subject claims) sid)"

definition consent_status :: "string \<Rightarrow> AccessTokenClaims \<Rightarrow> Response io" where
  "consent_status sid claims =
     attempt (consent_Effective (Subject claims) sid) (\<lambda>r. case r of
       Inl err \<Rightarrow> internal_error err
     | Inr granted \<Rightarrow> writeJSON 200 (JObj [(''granted'', JBool granted)]))"

definition consent_routes :: "ConsentHandler \<Rightarrow> string \<Rightarrow> route list" where
  "consent_routes h nid =
     (let p = [Lit ''v1'', Lit ''consent'', Lit ''sessions'', Wild]; auth = requireAuth (ch_validate h) in
      [(''POST'', p, \<lambda>vs rq. auth rq (consent_grant h nid (vs ! 0))),
       (''DELETE'', p, \<lambda>vs rq. auth rq (consent_withdraw h nid (vs ! 0))),
       (''GET'', p, \<lambda>vs rq. auth rq (consent_status (vs ! 0)))])"

section \<open>Classes\<close>

record ClassHandler =
  ck_svc :: ClassSvc
  ck_validate :: validator
  ck_decodeCreate :: "bytes \<Rightarrow> (string \<times> string) option"
  ck_decodeStatus :: "bytes \<Rightarrow> string option"
  ck_decodeCapacity :: "bytes \<Rightarrow> int option"

definition class_writeServiceErr :: "error \<Rightarrow> Response io" where
  "class_writeServiceErr err =
     (if err = class_ErrForbidden then writeError 403 ''insufficient tier or capability''
      else if err = ErrPaymentRequired then writeError 402 ''this class requires purchase''
      else if err = class_ErrNotFound \<or> err = enroll_ErrClassNotFound then writeError 404 ''class not found''
      else if err = ErrBadTitle then writeError 400 ''class: title is required''
      else if err = ErrBadStatus then writeError 400 ''class: invalid status transition''
      else if err = ErrBadCapacity then writeError 400 ''class: capacity must be >= 0''
      else if err = ErrClassFull then writeError 409 ''class is full''
      else writeError 500 ''internal error'')"

definition classView :: "Class \<Rightarrow> json" where
  "classView c = JObj [(''id'', JStr (c_ID c)), (''title'', JStr (c_Title c)), (''description'', JStr (c_Description c)),
     (''status'', JStr (c_Status c))]"

definition class_list :: "(error \<Rightarrow> Response io) \<Rightarrow> Class list io \<Rightarrow> Response io" where
  "class_list on_err m =
     attempt m (\<lambda>r. case r of
       Inl err \<Rightarrow> on_err err
     | Inr cs \<Rightarrow> writeJSON 200 (JObj [(''classes'', JArr (map classView cs))]))"

definition class_create :: "ClassHandler \<Rightarrow> string \<Rightarrow> HttpReq \<Rightarrow> AccessTokenClaims \<Rightarrow> Response io" where
  "class_create h nid rq claims =
     decodeJSON (ck_decodeCreate h) rq (\<lambda>(title, description).
       attempt (class_Create nid claims title description) (\<lambda>r. case r of
         Inl err \<Rightarrow> class_writeServiceErr err
       | Inr c \<Rightarrow> writeJSON 201 (classView c)))"

definition class_listMine :: "AccessTokenClaims \<Rightarrow> Response io" where
  "class_listMine claims = class_list class_writeServiceErr (ListMine claims)"

definition class_listPublished :: "AccessTokenClaims \<Rightarrow> Response io" where
  "class_listPublished claims = class_list class_writeServiceErr ListPublished"

definition class_listEnrolled :: "AccessTokenClaims \<Rightarrow> Response io" where
  "class_listEnrolled claims = class_list internal_error (ListEnrolled claims)"

definition class_enroll :: "ClassHandler \<Rightarrow> string \<Rightarrow> AccessTokenClaims \<Rightarrow> Response io" where
  "class_enroll h cid claims = done_or class_writeServiceErr (Enroll (ck_svc h) claims cid)"

definition class_unenroll :: "string \<Rightarrow> AccessTokenClaims \<Rightarrow> Response io" where
  "class_unenroll cid claims = done_or class_writeServiceErr (Unenroll claims cid)"

definition class_setStatus :: "ClassHandler \<Rightarrow> string \<Rightarrow> HttpReq \<Rightarrow> AccessTokenClaims \<Rightarrow> Response io" where
  "class_setStatus h cid rq claims =
     decodeJSON (ck_decodeStatus h) rq (\<lambda>status. done_or class_writeServiceErr (SetStatus claims cid status))"

definition class_setCapacity :: "ClassHandler \<Rightarrow> string \<Rightarrow> HttpReq \<Rightarrow> AccessTokenClaims \<Rightarrow> Response io" where
  "class_setCapacity h cid rq claims =
     decodeJSON (ck_decodeCapacity h) rq (\<lambda>capacity. done_or class_writeServiceErr (SetCapacity claims cid capacity))"

definition class_routes :: "ClassHandler \<Rightarrow> string \<Rightarrow> route list" where
  "class_routes h nid =
     (let v1 = Lit ''v1''; cs = Lit ''classes''; auth = requireAuth (ck_validate h) in
      [(''POST'', [v1, cs], \<lambda>_ rq. auth rq (class_create h nid rq)),
       (''GET'', [v1, cs], \<lambda>_ rq. auth rq class_listMine),
       (''GET'', [v1, cs, Lit ''published''], \<lambda>_ rq. auth rq class_listPublished),
       (''GET'', [v1, cs, Lit ''enrolled''], \<lambda>_ rq. auth rq class_listEnrolled),
       (''POST'', [v1, cs, Wild, Lit ''enroll''], \<lambda>vs rq. auth rq (class_enroll h (vs ! 0))),
       (''DELETE'', [v1, cs, Wild, Lit ''enroll''], \<lambda>vs rq. auth rq (class_unenroll (vs ! 0))),
       (''POST'', [v1, cs, Wild, Lit ''status''], \<lambda>vs rq. auth rq (class_setStatus h (vs ! 0) rq)),
       (''POST'', [v1, cs, Wild, Lit ''capacity''], \<lambda>vs rq. auth rq (class_setCapacity h (vs ! 0) rq))])"

section \<open>Entitlements\<close>

record grantReq =
  gq_SubjectID :: string
  gq_ClassID :: string
  gq_PriceCents :: int

record EntitlementHandler =
  eh_store :: Store
  eh_validate :: validator
  eh_decodeGrant :: "bytes \<Rightarrow> grantReq option"
  eh_decodeRevoke :: "bytes \<Rightarrow> (string \<times> string) option"

definition entitlementJSON :: "Entitlement \<Rightarrow> json" where
  "entitlementJSON e = JObj ([(''id'', JStr (en_ID e)), (''subjectId'', JStr (en_SubjectID e)), (''resourceType'', JStr (en_ResourceType e)),
     (''resourceId'', JStr (en_ResourceID e)), (''source'', JStr (en_Source e)), (''priceCents'', JNum (en_PriceCents e)),
     (''grantedAt'', jtime (en_GrantedAt e))]
     @ (case en_ExpiresAt e of None \<Rightarrow> [] | Some t \<Rightarrow> [(''expiresAt'', jtime t)]))"

definition entitlement_listMine :: "AccessTokenClaims \<Rightarrow> Response io" where
  "entitlement_listMine claims =
     attempt (entitlement_List (Subject claims)) (\<lambda>r. case r of
       Inl err \<Rightarrow> internal_error err
     | Inr ents \<Rightarrow> writeJSON 200 (JObj [(''entitlements'', JArr (map entitlementJSON ents))]))"

definition entitlement_grant :: "EntitlementHandler \<Rightarrow> string \<Rightarrow> HttpReq \<Rightarrow> AccessTokenClaims \<Rightarrow> Response io" where
  "entitlement_grant h nid rq claims =
     (if \<not> HasCapability claims CapPlatformModerator then writeError 403 ''requires platform moderator''
      else decodeJSON (eh_decodeGrant h) rq (\<lambda>req.
        attempt (entitlement_Grant (eh_store h) nid (Subject claims) AuditRoleModerator (gq_SubjectID req) ResourceClass (gq_ClassID req)
                   SourceGrant (gq_PriceCents req) None) (\<lambda>r. case r of
          Inr ent \<Rightarrow> writeJSON 201 (entitlementJSON ent)
        | Inl err \<Rightarrow>
            if err = ErrEntitlementExists then writeError 409 ''already entitled''
            else if err = ErrBadInput then writeError 400 ''invalid grant''
            else internal_error err)))"

definition entitlement_revoke :: "EntitlementHandler \<Rightarrow> HttpReq \<Rightarrow> AccessTokenClaims \<Rightarrow> Response io" where
  "entitlement_revoke h rq claims =
     (if \<not> HasCapability claims CapPlatformModerator then writeError 403 ''requires platform moderator''
      else decodeJSON (eh_decodeRevoke h) rq (\<lambda>(subjectID, classID).
        attempt (entitlement_Revoke (eh_store h) (Subject claims) AuditRoleModerator subjectID ResourceClass classID) (\<lambda>r. case r of
          Inl err \<Rightarrow> internal_error err
        | Inr ok \<Rightarrow> if \<not> ok then writeError 404 ''no active entitlement'' else writeHeader 204)))"

definition entitlement_routes :: "EntitlementHandler \<Rightarrow> string \<Rightarrow> route list" where
  "entitlement_routes h nid =
     (let p = [Lit ''v1'', Lit ''entitlements'']; auth = requireAuth (eh_validate h) in
      [(''GET'', p @ [Lit ''me''], \<lambda>_ rq. auth rq entitlement_listMine),
       (''POST'', p, \<lambda>_ rq. auth rq (entitlement_grant h nid rq)),
       (''DELETE'', p, \<lambda>_ rq. auth rq (entitlement_revoke h rq))])"

section \<open>Moderation\<close>

record ModerationHandler =
  mh_store :: Store
  mh_validate :: validator

definition mod_writeServiceErr :: "error \<Rightarrow> Response io" where
  "mod_writeServiceErr err =
     (if err = mod_ErrForbidden then writeError 403 ''requires platform moderator''
      else if err = ErrCannotReinstate then writeError 409 ''cannot reinstate''
      else writeError 500 ''internal error'')"

definition userJSON :: "User \<Rightarrow> json" where
  "userJSON u = JObj [(''id'', JStr (u_ID u)), (''handle'', JStr (u_Handle u)), (''displayName'', JStr (u_DisplayName u)),
     (''status'', JStr (u_Status u)), (''canInstruct'', JBool (u_CanInstruct u)), (''isPlatformModerator'', JBool (u_IsPlatformModerator u))]"

definition mod_listUsers :: "AccessTokenClaims \<Rightarrow> Response io" where
  "mod_listUsers claims =
     attempt (mod_ListUsers claims) (\<lambda>r. case r of
       Inl err \<Rightarrow> mod_writeServiceErr err
     | Inr us \<Rightarrow> writeJSON 200 (JObj [(''users'', JArr (map userJSON us))]))"

definition mod_suspend :: "ModerationHandler \<Rightarrow> string \<Rightarrow> AccessTokenClaims \<Rightarrow> Response io" where
  "mod_suspend h target claims = done_or mod_writeServiceErr (Suspend (mh_store h) claims target)"

definition mod_reinstate :: "ModerationHandler \<Rightarrow> string \<Rightarrow> AccessTokenClaims \<Rightarrow> Response io" where
  "mod_reinstate h target claims = done_or mod_writeServiceErr (Reinstate (mh_store h) claims target)"

definition mod_grantInstructor :: "ModerationHandler \<Rightarrow> string \<Rightarrow> AccessTokenClaims \<Rightarrow> Response io" where
  "mod_grantInstructor h target claims = done_or mod_writeServiceErr (SetInstructor (mh_store h) claims target True)"

definition mod_revokeInstructor :: "ModerationHandler \<Rightarrow> string \<Rightarrow> AccessTokenClaims \<Rightarrow> Response io" where
  "mod_revokeInstructor h target claims = done_or mod_writeServiceErr (SetInstructor (mh_store h) claims target False)"

definition moderation_routes :: "ModerationHandler \<Rightarrow> route list" where
  "moderation_routes h =
     (let us = [Lit ''v1'', Lit ''moderation'', Lit ''users'']; auth = requireAuth (mh_validate h) in
      [(''GET'', us, \<lambda>_ rq. auth rq mod_listUsers),
       (''POST'', us @ [Wild, Lit ''suspend''], \<lambda>vs rq. auth rq (mod_suspend h (vs ! 0))),
       (''POST'', us @ [Wild, Lit ''reinstate''], \<lambda>vs rq. auth rq (mod_reinstate h (vs ! 0))),
       (''POST'', us @ [Wild, Lit ''instructor''], \<lambda>vs rq. auth rq (mod_grantInstructor h (vs ! 0))),
       (''DELETE'', us @ [Wild, Lit ''instructor''], \<lambda>vs rq. auth rq (mod_revokeInstructor h (vs ! 0)))])"

end
