(* ===== verification/Oidc.thy ===== *)
theory Oidc
  imports Livekit Decimal Playback
begin

text \<open>
  Verification of ID tokens of external identity providers: \<^verbatim>\<open>internal/oidc/oidc.go\<close> (the token, its signature and its
  claims, JSON Web Keys) and \<^verbatim>\<open>internal/oidc/remote.go\<close> (the cached key set).

  RSA, ECDSA, SHA-256 and JSON decoding are parameters. A key set is a state transformer, since the remote one fetches and
  caches: the replies its endpoint will give and the instants at which it was asked are part of its state.
\<close>

section \<open>Keys\<close>

datatype PublicKey = RsaKey nat int | EcKey nat nat

record jwk =
  jk_Kty :: string
  jk_Kid :: string
  jk_Alg :: string
  jk_N :: string
  jk_E :: string
  jk_Crv :: string
  jk_X :: string
  jk_Y :: string

text \<open>\<^verbatim>\<open>Int64\<close> of a big integer keeps its low 64 bits.\<close>

definition int64 :: "int \<Rightarrow> int" where
  "int64 n = sint (word_of_int n :: 64 word)"

definition parseJWK :: "jwk \<Rightarrow> (PublicKey \<times> string) res" where
  "parseJWK k =
     (if jk_Kty k = ''RSA'' then
        (case DecodeString (jk_N k) of
           None \<Rightarrow> Inl (Err ''jwk rsa n'')
         | Some n \<Rightarrow>
             (case DecodeString (jk_E k) of
                None \<Rightarrow> Inl (Err ''jwk rsa e'')
              | Some e \<Rightarrow> Inr (RsaKey (be_value n) (int64 (int (be_value e))), ''RS256'')))
      else if jk_Kty k = ''EC'' then
        (if jk_Crv k \<noteq> ''P-256'' then Inl (Err ''jwk ec: unsupported curve'')
         else
           (case DecodeString (jk_X k) of
              None \<Rightarrow> Inl (Err ''jwk ec x'')
            | Some x \<Rightarrow>
                (case DecodeString (jk_Y k) of
                   None \<Rightarrow> Inl (Err ''jwk ec y'')
                 | Some y \<Rightarrow> Inr (EcKey (be_value x) (be_value y), ''ES256''))))
      else Inl (Err ''jwk: unsupported kty''))"

abbreviation oidc_ErrMalformed :: error where "oidc_ErrMalformed \<equiv> Err ''oidc: malformed id token''"
abbreviation oidc_ErrUnsupportedAlg :: error where "oidc_ErrUnsupportedAlg \<equiv> Err ''oidc: unsupported alg''"
abbreviation oidc_ErrUnknownKey :: error where "oidc_ErrUnknownKey \<equiv> Err ''oidc: no verification key for kid''"
abbreviation oidc_ErrBadSignature :: error where "oidc_ErrBadSignature \<equiv> Err ''oidc: signature verification failed''"
abbreviation oidc_ErrClaims :: error where "oidc_ErrClaims \<equiv> Err ''oidc: claim validation failed''"

type_synonym StaticKeySet = "string \<rightharpoonup> PublicKey \<times> string"

text \<open>A later key with the same id replaces an earlier one; the first bad key fails the whole document.\<close>

fun add_keys :: "jwk list \<Rightarrow> StaticKeySet \<Rightarrow> StaticKeySet res" where
  "add_keys [] ks = Inr ks"
| "add_keys (k # rest) ks =
     (case parseJWK k of
        Inl err \<Rightarrow> Inl err
      | Inr e \<Rightarrow> add_keys rest (ks(jk_Kid k \<mapsto> e)))"

definition ParseJWKS :: "(bytes \<Rightarrow> jwk list option) \<Rightarrow> bytes \<Rightarrow> StaticKeySet res" where
  "ParseJWKS unmarshal doc =
     (case unmarshal doc of
        None \<Rightarrow> Inl (Err ''oidc: parse jwks'')
      | Some set_keys \<Rightarrow> add_keys set_keys Map.empty)"

definition static_VerificationKey :: "StaticKeySet \<Rightarrow> string \<Rightarrow> (PublicKey \<times> string) res" where
  "static_VerificationKey s kid = (case s kid of None \<Rightarrow> Inl oidc_ErrUnknownKey | Some e \<Rightarrow> Inr e)"

section \<open>The token\<close>

record joseHeader =
  jh_Alg :: string
  jh_Kid :: string

text \<open>\<open>rw_Aud\<close> is the raw JSON of the audience (empty when absent), \<open>rw_EmailVerified\<close> the raw JSON that the custom
  decoder is given, if the field is there.\<close>

record rawClaims =
  rw_Iss :: string
  rw_Sub :: string
  rw_Aud :: bytes
  rw_Exp :: int
  rw_Iat :: int
  rw_Nonce :: string
  rw_Email :: string
  rw_EmailVerified :: "bytes option"

record OidcClaims =
  oc_Issuer :: string
  oc_Subject :: string
  oc_Email :: string
  oc_EmailVerified :: bool
  oc_Nonce :: string
  oc_IssuedAt :: instant
  oc_Expiry :: instant

text \<open>The crypto and JSON of the Go library that the verification calls.\<close>

record OidcLib =
  ol_sha256 :: "bytes \<Rightarrow> bytes"
  ol_rsa :: "nat \<Rightarrow> int \<Rightarrow> bytes \<Rightarrow> bytes \<Rightarrow> bool"
  ol_ecdsa :: "nat \<Rightarrow> nat \<Rightarrow> bytes \<Rightarrow> nat \<Rightarrow> nat \<Rightarrow> bool"
  ol_header :: "bytes \<Rightarrow> joseHeader option"
  ol_claims :: "bytes \<Rightarrow> rawClaims option"
  ol_string :: "bytes \<Rightarrow> string option"
  ol_strings :: "bytes \<Rightarrow> string list option"

text \<open>\<^verbatim>\<open>strings.Trim\<close> of quotes on both sides.\<close>

definition trim_quotes :: "bytes \<Rightarrow> bytes" where
  "trim_quotes b = rev (dropWhile (\<lambda>c. c = CHR 0x22) (rev (dropWhile (\<lambda>c. c = CHR 0x22) b)))"

definition emailVerified :: "bytes \<Rightarrow> bool" where
  "emailVerified b = (trim_quotes b = ''true'')"

definition verifySignature :: "OidcLib \<Rightarrow> string \<Rightarrow> PublicKey \<Rightarrow> bytes \<Rightarrow> bytes \<Rightarrow> error option" where
  "verifySignature lib alg key signingInput sig =
     (let digest = ol_sha256 lib signingInput in
      if alg = ''RS256'' then
        (case key of
           RsaKey n e \<Rightarrow> if ol_rsa lib n e digest sig then None else Some oidc_ErrBadSignature
         | EcKey _ _ \<Rightarrow> Some oidc_ErrUnsupportedAlg)
      else if alg = ''ES256'' then
        (case key of
           RsaKey _ _ \<Rightarrow> Some oidc_ErrUnsupportedAlg
         | EcKey x y \<Rightarrow>
             if length sig \<noteq> 64 then Some oidc_ErrBadSignature
             else if ol_ecdsa lib x y digest (be_value (take 32 sig)) (be_value (drop 32 sig)) then None
             else Some oidc_ErrBadSignature)
      else Some oidc_ErrUnsupportedAlg)"

definition audienceContains :: "OidcLib \<Rightarrow> bytes \<Rightarrow> string \<Rightarrow> bool" where
  "audienceContains lib raw want =
     (if raw = [] then False
      else case ol_string lib raw of
             Some one \<Rightarrow> one = want
           | None \<Rightarrow> (case ol_strings lib raw of Some many \<Rightarrow> want \<in> set many | None \<Rightarrow> False))"

record 's OidcProvider =
  op_Issuer :: string
  op_Audience :: string
  op_Keys :: "string \<Rightarrow> 's \<Rightarrow> (PublicKey \<times> string) res \<times> 's"
  op_Leeway :: duration

definition oidc_leeway :: "'s OidcProvider \<Rightarrow> duration" where
  "oidc_leeway p = (if op_Leeway p \<noteq> 0 then op_Leeway p else seconds 60)"

text \<open>The claims are 64-bit numbers of seconds, taken here as integers: an issue time so late that \<^verbatim>\<open>time.Unix\<close> wraps (the last 62135596800
  seconds of the range) is rejected by this definition and accepted by the code.\<close>

definition check_claims :: "OidcLib \<Rightarrow> 's OidcProvider \<Rightarrow> instant \<Rightarrow> string \<Rightarrow> rawClaims \<Rightarrow> OidcClaims res" where
  "check_claims lib p now expectedNonce rc =
     (if rw_Iss rc \<noteq> op_Issuer p then Inl oidc_ErrClaims
      else if \<not> audienceContains lib (rw_Aud rc) (op_Audience p) then Inl oidc_ErrClaims
      else if rw_Sub rc = '''' then Inl oidc_ErrClaims
      else if rw_Exp rc = 0 \<or> now > seconds (rw_Exp rc) + oidc_leeway p then Inl oidc_ErrClaims
      else if rw_Iat rc \<noteq> 0 \<and> now + oidc_leeway p < seconds (rw_Iat rc) then Inl oidc_ErrClaims
      else if expectedNonce \<noteq> '''' \<and> rw_Nonce rc \<noteq> expectedNonce then Inl oidc_ErrClaims
      else Inr \<lparr>oc_Issuer = rw_Iss rc, oc_Subject = rw_Sub rc, oc_Email = rw_Email rc,
                oc_EmailVerified = (case rw_EmailVerified rc of None \<Rightarrow> False | Some b \<Rightarrow> emailVerified b),
                oc_Nonce = rw_Nonce rc, oc_IssuedAt = seconds (rw_Iat rc), oc_Expiry = seconds (rw_Exp rc)\<rparr>)"

definition oidc_Verify :: "OidcLib \<Rightarrow> 's OidcProvider \<Rightarrow> instant \<Rightarrow> string \<Rightarrow> string \<Rightarrow> 's \<Rightarrow> OidcClaims res \<times> 's" where
  "oidc_Verify lib p now idToken expectedNonce s =
     (case split_on CHR ''.'' idToken of
        [p0, p1, p2] \<Rightarrow>
          (case DecodeString p0 of
             None \<Rightarrow> (Inl oidc_ErrMalformed, s)
           | Some hb \<Rightarrow>
          (case ol_header lib hb of
             None \<Rightarrow> (Inl oidc_ErrMalformed, s)
           | Some h \<Rightarrow>
          (case op_Keys p (jh_Kid h) s of
             (Inl _, s') \<Rightarrow> (Inl oidc_ErrUnknownKey, s')
           | (Inr (key, alg), s') \<Rightarrow>
               if jh_Alg h \<noteq> alg then (Inl oidc_ErrUnsupportedAlg, s')
               else
          (case DecodeString p2 of
             None \<Rightarrow> (Inl oidc_ErrMalformed, s')
           | Some sig \<Rightarrow>
          (case verifySignature lib alg key (p0 @ ''.'' @ p1) sig of
             Some err \<Rightarrow> (Inl err, s')
           | None \<Rightarrow>
          (case DecodeString p1 of
             None \<Rightarrow> (Inl oidc_ErrMalformed, s')
           | Some pb \<Rightarrow>
          (case ol_claims lib pb of
             None \<Rightarrow> (Inl oidc_ErrMalformed, s')
           | Some rc \<Rightarrow> (check_claims lib p now expectedNonce rc, s'))))))))
      | _ \<Rightarrow> (Inl oidc_ErrMalformed, s))"

section \<open>The cached key set\<close>

text \<open>A reply of the key endpoint: status, body (already cut at one MiB) and the Cache-Control header.\<close>

record JwksReply =
  jr_Status :: nat
  jr_Body :: bytes
  jr_CacheControl :: string

definition defaultJWKSTTL :: duration where "defaultJWKSTTL = minutes 60"
definition minJWKSTTL :: duration where "minJWKSTTL = minutes 5"
definition maxJWKSTTL :: duration where "maxJWKSTTL = minutes (24 * 60)"

record RemoteKeySet =
  rk_minRefresh :: duration
  rk_keys :: "StaticKeySet option"
  rk_expiry :: instant
  rk_lastFetch :: instant
  rk_replies :: "JwksReply res list"
  rk_asked :: "instant list"

text \<open>The product \<^verbatim>\<open>time.Duration(secs) * time.Second\<close> wraps at 64 bits before it is clamped.\<close>

definition clamp_ttl :: "int \<Rightarrow> duration" where
  "clamp_ttl secs =
     (let ttl = int64 (secs * nsec) in
      if ttl < minJWKSTTL then minJWKSTTL else if ttl > maxJWKSTTL then maxJWKSTTL else ttl)"

fun cache_parts :: "string list \<Rightarrow> duration" where
  "cache_parts [] = defaultJWKSTTL"
| "cache_parts (part # rest) =
     (let part = trim_space part in
      if take 8 part = ''max-age='' then
        (case ParseInt (trim_space (drop 8 part)) of
           Some secs \<Rightarrow> if secs > 0 then clamp_ttl secs else cache_parts rest
         | None \<Rightarrow> cache_parts rest)
      else cache_parts rest)"

definition cacheTTL :: "string \<Rightarrow> duration" where
  "cacheTTL cacheControl = cache_parts (split_on CHR '','' cacheControl)"

definition NewRemoteKeySet :: "JwksReply res list \<Rightarrow> RemoteKeySet" where
  "NewRemoteKeySet replies = \<lparr>rk_minRefresh = minutes 1, rk_keys = None, rk_expiry = 0, rk_lastFetch = 0,
     rk_replies = replies, rk_asked = []\<rparr>"

definition next_reply :: "RemoteKeySet \<Rightarrow> JwksReply res" where
  "next_reply r = (case rk_replies r of [] \<Rightarrow> Inl (Err ''oidc: fetch jwks'') | a # _ \<Rightarrow> a)"

definition refresh_keys :: "(bytes \<Rightarrow> jwk list option) \<Rightarrow> instant \<Rightarrow> RemoteKeySet \<Rightarrow> error option \<times> RemoteKeySet" where
  "refresh_keys unmarshal now r =
     (let r' = r\<lparr>rk_replies := tl (rk_replies r), rk_asked := rk_asked r @ [now]\<rparr> in
      case next_reply r of
        Inl err \<Rightarrow> (Some err, r')
      | Inr resp \<Rightarrow>
          if jr_Status resp \<noteq> 200 then (Some (Err ''oidc: fetch jwks: status''), r')
          else case ParseJWKS unmarshal (jr_Body resp) of
                 Inl err \<Rightarrow> (Some err, r')
               | Inr ks \<Rightarrow> (None, r'\<lparr>rk_keys := Some ks, rk_lastFetch := now, rk_expiry := now + cacheTTL (jr_CacheControl resp)\<rparr>))"

definition fetch_key :: "(bytes \<Rightarrow> jwk list option) \<Rightarrow> instant \<Rightarrow> string \<Rightarrow> RemoteKeySet \<Rightarrow> (PublicKey \<times> string) res \<times> RemoteKeySet" where
  "fetch_key unmarshal now kid r =
     (case refresh_keys unmarshal now r of
        (Some err, r') \<Rightarrow> (case rk_keys r' of Some ks \<Rightarrow> static_VerificationKey ks kid | None \<Rightarrow> Inl err, r')
      | (None, r') \<Rightarrow> (case rk_keys r' of Some ks \<Rightarrow> static_VerificationKey ks kid | None \<Rightarrow> Inl oidc_ErrUnknownKey, r'))"

definition remote_VerificationKey ::
  "(bytes \<Rightarrow> jwk list option) \<Rightarrow> instant \<Rightarrow> string \<Rightarrow> RemoteKeySet \<Rightarrow> (PublicKey \<times> string) res \<times> RemoteKeySet" where
  "remote_VerificationKey unmarshal now kid r =
     (case rk_keys r of
        Some ks \<Rightarrow>
          if now < rk_expiry r then
            (case static_VerificationKey ks kid of
               Inr e \<Rightarrow> (Inr e, r)
             | Inl _ \<Rightarrow>
                 if now - rk_lastFetch r < rk_minRefresh r then (Inl oidc_ErrUnknownKey, r)
                 else fetch_key unmarshal now kid r)
          else fetch_key unmarshal now kid r
      | None \<Rightarrow> fetch_key unmarshal now kid r)"

section \<open>What acceptance means\<close>

definition signature_holds :: "OidcLib \<Rightarrow> string \<Rightarrow> PublicKey \<Rightarrow> bytes \<Rightarrow> bytes \<Rightarrow> bool" where
  "signature_holds lib alg key msg sig \<longleftrightarrow>
     (\<exists>n e. alg = ''RS256'' \<and> key = RsaKey n e \<and> ol_rsa lib n e (ol_sha256 lib msg) sig)
     \<or> (\<exists>x y. alg = ''ES256'' \<and> key = EcKey x y \<and> length sig = 64
          \<and> ol_ecdsa lib x y (ol_sha256 lib msg) (be_value (take 32 sig)) (be_value (drop 32 sig)))"

lemma verifySignature_None: "verifySignature lib alg key msg sig = None \<longleftrightarrow> signature_holds lib alg key msg sig"
  by (cases key) (auto simp: verifySignature_def signature_holds_def Let_def)

lemma check_claims_InrD:
  assumes "check_claims lib p now nonce rc = Inr c"
  shows "rw_Iss rc = op_Issuer p" "audienceContains lib (rw_Aud rc) (op_Audience p)" "oc_Subject c = rw_Sub rc" "rw_Sub rc \<noteq> ''''"
    "now \<le> oc_Expiry c + oidc_leeway p" "oc_Expiry c = seconds (rw_Exp rc)" "rw_Exp rc \<noteq> 0"
    "rw_Iat rc = 0 \<or> seconds (rw_Iat rc) \<le> now + oidc_leeway p" "nonce = '''' \<or> rw_Nonce rc = nonce"
  using assms by (auto simp: check_claims_def split: if_splits)

lemma check_claims_nonce: "check_claims lib p now nonce rc = Inr c \<Longrightarrow> nonce \<noteq> '''' \<Longrightarrow> oc_Nonce c = nonce"
  by (auto simp: check_claims_def split: if_splits)

lemma oidc_Verify_InrD:
  assumes "oidc_Verify lib p now tok nonce s = (Inr c, s')"
  obtains p0 p1 p2 hb h key sig pb rc where "tok = p0 @ ''.'' @ p1 @ ''.'' @ p2" "DecodeString p0 = Some hb" "ol_header lib hb = Some h"
    "op_Keys p (jh_Kid h) s = (Inr (key, jh_Alg h), s')" "DecodeString p2 = Some sig"
    "signature_holds lib (jh_Alg h) key (p0 @ ''.'' @ p1) sig" "DecodeString p1 = Some pb" "ol_claims lib pb = Some rc"
    "check_claims lib p now nonce rc = Inr c"
proof -
  obtain p0 p1 p2 where s: "split_on CHR ''.'' tok = [p0, p1, p2]"
    using assms by (auto simp: oidc_Verify_def split: list.splits)
  then have t: "tok = p0 @ ''.'' @ p1 @ ''.'' @ p2" using join_split [of "CHR ''.''" tok] by simp
  obtain hb where hb: "DecodeString p0 = Some hb" using assms by (cases "DecodeString p0") (auto simp: oidc_Verify_def s)
  obtain h where h: "ol_header lib hb = Some h" using assms by (cases "ol_header lib hb") (auto simp: oidc_Verify_def s hb)
  obtain q s1 where q: "op_Keys p (jh_Kid h) s = (q, s1)" by force
  obtain key alg where k: "q = Inr (key, alg)" using assms by (cases q) (auto simp: oidc_Verify_def s hb h q)
  note r = assms [unfolded oidc_Verify_def s hb h q k list.case option.case prod.case sum.case]
  have alg: "jh_Alg h = alg" using r by (auto split: if_splits)
  obtain sig where sig: "DecodeString p2 = Some sig" using r alg by (cases "DecodeString p2") auto
  have v: "verifySignature lib alg key (p0 @ ''.'' @ p1) sig = None"
    using r alg sig by (cases "verifySignature lib alg key (p0 @ ''.'' @ p1) sig") auto
  obtain pb where pb: "DecodeString p1 = Some pb" using r alg sig v by (cases "DecodeString p1") auto
  obtain rc where rc: "ol_claims lib pb = Some rc" using r alg sig v pb by (cases "ol_claims lib pb") auto
  have "check_claims lib p now nonce rc = Inr c" "s1 = s'" using r alg sig v pb rc by auto
  then show thesis using that [OF t hb h _ sig _ pb rc] q k alg v by (simp add: verifySignature_None)
qed

text \<open>C30: what acceptance of an ID token means. If \<^verbatim>\<open>Verify\<close> returns claims, the signature over header and payload holds under
  the key that the provider's key set gives for the key id, with the algorithm that key is registered for (the header cannot
  choose another); the claims are the signed ones, of the expected issuer, for this client, with a subject, within their
  lifetime up to the leeway, and they carry the nonce of the login when one was asked for.\<close>
theorem oidc_Verify_sound:
  assumes "oidc_Verify lib p now tok nonce s = (Inr c, s')"
  shows "\<exists>p0 p1 p2 hb h key sig pb rc. tok = p0 @ ''.'' @ p1 @ ''.'' @ p2 \<and> DecodeString p0 = Some hb \<and> ol_header lib hb = Some h
    \<and> op_Keys p (jh_Kid h) s = (Inr (key, jh_Alg h), s') \<and> DecodeString p2 = Some sig
    \<and> signature_holds lib (jh_Alg h) key (p0 @ ''.'' @ p1) sig
    \<and> DecodeString p1 = Some pb \<and> ol_claims lib pb = Some rc \<and> rw_Iss rc = op_Issuer p \<and> audienceContains lib (rw_Aud rc) (op_Audience p)
    \<and> oc_Subject c = rw_Sub rc \<and> oc_Subject c \<noteq> '''' \<and> now \<le> seconds (rw_Exp rc) + oidc_leeway p
    \<and> (rw_Iat rc = 0 \<or> seconds (rw_Iat rc) \<le> now + oidc_leeway p) \<and> (nonce = '''' \<or> rw_Nonce rc = nonce)"
  using assms by (rule oidc_Verify_InrD) (use check_claims_InrD in \<open>metis\<close>)

definition demo_raw :: rawClaims where
  "demo_raw = \<lparr>rw_Iss = ''https://idp'', rw_Sub = ''s1'', rw_Aud = ''app'', rw_Exp = 1000, rw_Iat = 100, rw_Nonce = ''n'', rw_Email = '''',
     rw_EmailVerified = None\<rparr>"

definition demo_lib :: OidcLib where
  "demo_lib = \<lparr>ol_sha256 = (\<lambda>m. m), ol_rsa = (\<lambda>n e d s. s = d), ol_ecdsa = (\<lambda>x y d r s. False),
     ol_header = (\<lambda>_. Some \<lparr>jh_Alg = ''RS256'', jh_Kid = ''k1''\<rparr>), ol_claims = (\<lambda>_. Some demo_raw), ol_string = Some, ol_strings = (\<lambda>_. None)\<rparr>"

definition demo_provider :: "unit OidcProvider" where
  "demo_provider = \<lparr>op_Issuer = ''https://idp'', op_Audience = ''app'',
     op_Keys = (\<lambda>kid s. (static_VerificationKey [''k1'' \<mapsto> (RsaKey 15 3, ''RS256'')] kid, s)), op_Leeway = 0\<rparr>"

definition demo_id_token :: string where
  "demo_id_token = (let m = EncodeToString ''h'' @ ''.'' @ EncodeToString ''p'' in m @ ''.'' @ EncodeToString m)"

lemma demo_oidc_Verify:
  "oidc_Verify demo_lib demo_provider (seconds 500) demo_id_token ''n'' () =
     (Inr \<lparr>oc_Issuer = ''https://idp'', oc_Subject = ''s1'', oc_Email = '''', oc_EmailVerified = False, oc_Nonce = ''n'',
       oc_IssuedAt = seconds 100, oc_Expiry = seconds 1000\<rparr>, ())"
proof -
  define e1 e2 where "e1 = EncodeToString ''h''" and "e2 = EncodeToString ''p''"
  define e3 where "e3 = EncodeToString (e1 @ ''.'' @ e2)"
  have d: "DecodeString e1 = Some ''h''" "DecodeString e2 = Some ''p''" "DecodeString e3 = Some (e1 @ ''.'' @ e2)"
    unfolding e1_def e2_def e3_def by (rule Decode_Encode)+
  have "demo_id_token = e1 @ ''.'' @ e2 @ ''.'' @ e3"
    unfolding demo_id_token_def Let_def e3_def e1_def e2_def by (simp only: append_assoc)
  moreover have "CHR ''.'' \<notin> set e1" "CHR ''.'' \<notin> set e2" "CHR ''.'' \<notin> set e3"
    unfolding e1_def e2_def e3_def by (rule Encode_no_dot)+
  ultimately have "split_on CHR ''.'' demo_id_token = [e1, e2, e3]" using split_three by metis
  then show ?thesis
    by (simp add: oidc_Verify_def d demo_lib_def demo_provider_def static_VerificationKey_def verifySignature_def check_claims_def demo_raw_def
        audienceContains_def oidc_leeway_def seconds_def)
qed

theorem oidc_Verify_sound_witness:
  "\<exists>c. oidc_Verify demo_lib demo_provider (seconds 500) demo_id_token ''n'' () = (Inr c, ()) \<and> oc_Subject c = ''s1''
    \<and> (\<exists>p0 p1 p2 hb h key sig. demo_id_token = p0 @ ''.'' @ p1 @ ''.'' @ p2 \<and> DecodeString p0 = Some hb \<and> ol_header demo_lib hb = Some h
       \<and> op_Keys demo_provider (jh_Kid h) () = (Inr (key, jh_Alg h), ()) \<and> DecodeString p2 = Some sig
       \<and> signature_holds demo_lib (jh_Alg h) key (p0 @ ''.'' @ p1) sig)"
proof -
  note r = oidc_Verify_sound [OF demo_oidc_Verify]
  show ?thesis by (rule exI, intro conjI, rule demo_oidc_Verify) (simp, use r in blast)
qed

section \<open>The cache is bounded\<close>

lemma ttl_order: "minJWKSTTL \<le> defaultJWKSTTL" "defaultJWKSTTL \<le> maxJWKSTTL" "minutes 1 \<le> minJWKSTTL" "0 \<le> minutes 1"
  by (simp_all add: defaultJWKSTTL_def minJWKSTTL_def maxJWKSTTL_def minutes_def seconds_def)

lemma clamp_ttl_bounds: "minJWKSTTL \<le> clamp_ttl secs" "clamp_ttl secs \<le> maxJWKSTTL"
  using ttl_order by (auto simp: clamp_ttl_def Let_def)

lemma cache_parts_bounds: "minJWKSTTL \<le> cache_parts ps \<and> cache_parts ps \<le> maxJWKSTTL"
  using ttl_order by (induction ps) (auto simp: Let_def clamp_ttl_bounds split: option.splits)

lemma cacheTTL_bounds: "minJWKSTTL \<le> cacheTTL h" "cacheTTL h \<le> maxJWKSTTL"
  using cache_parts_bounds by (auto simp: cacheTTL_def)

definition good_reply :: "(bytes \<Rightarrow> jwk list option) \<Rightarrow> JwksReply res \<Rightarrow> bool" where
  "good_reply u a \<longleftrightarrow> (\<exists>resp ks. a = Inr resp \<and> jr_Status resp = 200 \<and> ParseJWKS u (jr_Body resp) = Inr ks)"

fun lookups :: "(bytes \<Rightarrow> jwk list option) \<Rightarrow> (instant \<times> string) list \<Rightarrow> RemoteKeySet \<Rightarrow> RemoteKeySet" where
  "lookups u [] r = r"
| "lookups u ((now, kid) # rest) r = lookups u rest (snd (remote_VerificationKey u now kid r))"

text \<open>Fetches are a minute apart, the last one is the one remembered, and its keys are good for five minutes.\<close>

definition spaced :: "duration \<Rightarrow> instant list \<Rightarrow> bool" where
  "spaced g ts \<longleftrightarrow> successively (\<lambda>a b. a + g \<le> b) ts"

definition cache_inv :: "RemoteKeySet \<Rightarrow> bool" where
  "cache_inv r \<longleftrightarrow> rk_minRefresh r = minutes 1 \<and> spaced (minutes 1) (rk_asked r)
     \<and> (if rk_asked r = [] then rk_keys r = None
        else rk_keys r \<noteq> None \<and> rk_lastFetch r = last (rk_asked r) \<and> rk_lastFetch r + minJWKSTTL \<le> rk_expiry r)"

lemma refresh_good:
  assumes "good_reply u (next_reply r)" "refresh_keys u now r = (e, r')"
  shows "e = None" "\<exists>ks. rk_keys r' = Some ks" "rk_lastFetch r' = now" "now + minJWKSTTL \<le> rk_expiry r'"
    "rk_asked r' = rk_asked r @ [now]" "rk_minRefresh r' = rk_minRefresh r" "rk_replies r' = tl (rk_replies r)"
  using assms cacheTTL_bounds(1) by (auto simp: good_reply_def refresh_keys_def Let_def)

lemma spaced_snoc: "spaced g ts \<Longrightarrow> \<forall>t \<in> set ts. t + g \<le> now \<Longrightarrow> spaced g (ts @ [now])"
  by (cases "ts = []") (simp_all add: spaced_def successively_append_iff)

lemma fetch_good:
  assumes "good_reply u (next_reply r)" "cache_inv r" "\<forall>t \<in> set (rk_asked r). t + minutes 1 \<le> now" "fetch_key u now kid r = (x, r')"
  shows "cache_inv r' \<and> rk_replies r' = tl (rk_replies r) \<and> rk_asked r' = rk_asked r @ [now]"
proof -
  obtain e q where q: "refresh_keys u now r = (e, q)" by force
  note g = refresh_good [OF assms(1) q]
  have "q = r'" using assms(4) q g(1) by (simp add: fetch_key_def)
  moreover have "spaced (minutes 1) (rk_asked r @ [now])"
    using assms(2,3) by (simp add: cache_inv_def spaced_snoc)
  ultimately show ?thesis using g assms(2) by (auto simp: cache_inv_def)
qed

lemma spaced_last: "spaced g ts \<Longrightarrow> 0 \<le> g \<Longrightarrow> t \<in> set ts \<Longrightarrow> t \<le> last ts"
proof (induction ts rule: rev_induct)
  case (snoc x ts)
  then have "ts = [] \<or> last ts + g \<le> x" "spaced g ts" by (auto simp: spaced_def successively_append_iff)
  then show ?case using snoc by auto
qed simp

lemma lookup_good:
  assumes "cache_inv r" "\<forall>t \<in> set (rk_asked r). t \<le> now" "good_reply u (next_reply r)" "remote_VerificationKey u now kid r = (x, r')"
  shows "cache_inv r' \<and> (r' = r \<or> rk_replies r' = tl (rk_replies r) \<and> rk_asked r' = rk_asked r @ [now])"
proof (cases "rk_keys r")
  case None
  then have "rk_asked r = []" using assms(1) by (auto simp: cache_inv_def split: if_splits)
  moreover have f: "fetch_key u now kid r = (x, r')" using assms(4) None by (simp add: remote_VerificationKey_def)
  ultimately show ?thesis using fetch_good [OF assms(3,1) _ f] by simp
next
  case (Some ks)
  then have ne: "rk_asked r \<noteq> []" and l: "rk_lastFetch r = last (rk_asked r)" "rk_lastFetch r + minJWKSTTL \<le> rk_expiry r"
    and m: "rk_minRefresh r = minutes 1" and sp: "spaced (minutes 1) (rk_asked r)"
    using assms(1) by (auto simp: cache_inv_def split: if_splits)
  have old: "\<forall>t \<in> set (rk_asked r). t + minutes 1 \<le> now" if "rk_lastFetch r + minutes 1 \<le> now"
    using that spaced_last [OF sp ttl_order(4)] l(1) by force
  show ?thesis
  proof (cases "now < rk_expiry r \<and> (ks kid \<noteq> None \<or> now - rk_lastFetch r < minutes 1)")
    case True
    then show ?thesis using assms(1,4) Some m by (auto simp: remote_VerificationKey_def static_VerificationKey_def split: option.splits)
  next
    case False
    then have f: "fetch_key u now kid r = (x, r')"
      using assms(4) Some m by (auto simp: remote_VerificationKey_def static_VerificationKey_def split: option.splits if_splits)
    have "rk_lastFetch r + minutes 1 \<le> now" using False l(2) ttl_order(3) by auto
    then show ?thesis using fetch_good [OF assms(3,1) old f] by blast
  qed
qed

lemma lookups_spaced:
  assumes "cache_inv r" "sorted (map fst reqs)" "\<forall>t \<in> set (rk_asked r). \<forall>q \<in> set reqs. t \<le> fst q"
    and "length reqs \<le> length (rk_replies r)" "\<forall>a \<in> set (rk_replies r). good_reply u a"
  shows "cache_inv (lookups u reqs r)"
  using assms
proof (induction reqs arbitrary: r)
  case (Cons q reqs)
  obtain now kid where q: "q = (now, kid)" by force
  obtain x r' where r': "remote_VerificationKey u now kid r = (x, r')" by force
  obtain a as where a: "rk_replies r = a # as" using Cons.prems(4) by (cases "rk_replies r") auto
  have "good_reply u (next_reply r)" using Cons.prems(5) a by (simp add: next_reply_def)
  moreover have "\<forall>t \<in> set (rk_asked r). t \<le> now" using Cons.prems(3) q by auto
  ultimately have step: "cache_inv r' \<and> (r' = r \<or> rk_replies r' = tl (rk_replies r) \<and> rk_asked r' = rk_asked r @ [now])"
    using lookup_good [OF Cons.prems(1) _ _ r'] by blast
  then have "cache_inv (lookups u reqs r')"
    using Cons.prems(2-5) a q by (intro Cons.IH) (auto, force+)
  then show ?case using q r' by simp
qed simp

text \<open>Requests cannot hammer the key endpoint. Whatever key ids are asked for and however often, while the endpoint answers,
  the fetches of its document are at least a minute apart, and the keys they bring expire within five minutes to a day
  whatever the Cache-Control header says (a lifetime that overflows 64 bits included).\<close>
lemma jwks_fetches_spaced:
  assumes "sorted (map fst reqs)" and "length reqs \<le> length replies" and "\<forall>a \<in> set replies. good_reply u a"
  shows "successively (\<lambda>t t'. t + minutes 1 \<le> t') (rk_asked (lookups u reqs (NewRemoteKeySet replies)))
    \<and> minutes 5 \<le> cacheTTL h \<and> cacheTTL h \<le> minutes (24 * 60)"
proof -
  have "cache_inv (NewRemoteKeySet replies)" by (simp add: NewRemoteKeySet_def cache_inv_def spaced_def)
  then have "cache_inv (lookups u reqs (NewRemoteKeySet replies))"
    by (rule lookups_spaced) (use assms in \<open>simp_all add: NewRemoteKeySet_def\<close>)
  then show ?thesis
    using cacheTTL_bounds by (simp add: cache_inv_def spaced_def minJWKSTTL_def maxJWKSTTL_def)
qed

definition demo_jwks :: "JwksReply res" where
  "demo_jwks = Inr \<lparr>jr_Status = 200, jr_Body = [], jr_CacheControl = ''''\<rparr>"

lemma jwks_fetches_spaced_witness:
  "let asked = rk_asked (lookups (\<lambda>_. Some []) [(0, ''a''), (seconds 1, ''b''), (seconds 61, ''c''), (seconds 62, ''d'')]
       (NewRemoteKeySet (replicate 4 demo_jwks)))
   in asked = [0, seconds 61] \<and> successively (\<lambda>t t'. t + minutes 1 \<le> t') asked"
proof -
  let ?reqs = "[(0, ''a''), (seconds 1, ''b''), (seconds 61, ''c''), (seconds 62, ''d'')] :: (instant \<times> string) list"
  have good: "\<forall>a \<in> set (replicate 4 demo_jwks). good_reply (\<lambda>_. Some []) a"
    by (simp add: demo_jwks_def good_reply_def ParseJWKS_def)
  have "rk_asked (lookups (\<lambda>_. Some []) ?reqs (NewRemoteKeySet (replicate 4 demo_jwks))) = [0, seconds 61]"
    by (simp add: NewRemoteKeySet_def remote_VerificationKey_def fetch_key_def refresh_keys_def next_reply_def demo_jwks_def ParseJWKS_def
        static_VerificationKey_def cacheTTL_def trim_space_def defaultJWKSTTL_def seconds_def minutes_def Let_def eval_nat_numeral)
  with jwks_fetches_spaced [of ?reqs "replicate 4 demo_jwks" "\<lambda>_. Some []", OF _ _ good] show ?thesis
    by (simp add: Let_def seconds_def)
qed

text \<open>The bound needs the endpoint to answer: a failed fetch is not remembered, so while the endpoint is down every lookup of
  an unknown key id asks it again.\<close>

lemma failing_fetch_forgotten:
  assumes "rk_keys r = Some ks" "ks kid = None" "rk_lastFetch r + rk_minRefresh r \<le> now" "next_reply r = Inl err"
  shows "remote_VerificationKey u now kid r =
    (Inl oidc_ErrUnknownKey, r\<lparr>rk_replies := tl (rk_replies r), rk_asked := rk_asked r @ [now]\<rparr>)"
  using assms by (simp add: remote_VerificationKey_def static_VerificationKey_def fetch_key_def refresh_keys_def Let_def)

text \<open>The keys a remote key set answers with stand in a document that its endpoint served.\<close>

definition from_documents :: "(bytes \<Rightarrow> jwk list option) \<Rightarrow> JwksReply res list \<Rightarrow> RemoteKeySet \<Rightarrow> bool" where
  "from_documents u R r \<longleftrightarrow> set (rk_replies r) \<subseteq> set R
     \<and> (\<forall>ks. rk_keys r = Some ks \<longrightarrow> (\<exists>resp. Inr resp \<in> set R \<and> jr_Status resp = 200 \<and> ParseJWKS u (jr_Body resp) = Inr ks))"

lemma refresh_from_documents:
  assumes "from_documents u R r" "refresh_keys u now r = (e, r')"
  shows "from_documents u R r'"
proof -
  have "set (tl (rk_replies r)) \<subseteq> set R" using assms(1) by (cases "rk_replies r") (auto simp: from_documents_def)
  moreover have "next_reply r = Inr resp \<Longrightarrow> Inr resp \<in> set R" for resp
    using assms(1) by (cases "rk_replies r") (auto simp: from_documents_def next_reply_def)
  ultimately show ?thesis
    using assms by (auto simp: from_documents_def refresh_keys_def Let_def split: sum.splits if_splits)
qed

lemma remote_key_origin:
  assumes "from_documents u R r" "remote_VerificationKey u now kid r = (x, r')"
  shows "from_documents u R r'"
    and "x = Inr e \<Longrightarrow> \<exists>resp ks. Inr resp \<in> set R \<and> jr_Status resp = 200 \<and> ParseJWKS u (jr_Body resp) = Inr ks \<and> ks kid = Some e"
proof -
  obtain f q where q: "refresh_keys u now r = (f, q)" by force
  have cases: "r' = r \<and> (\<exists>ks. rk_keys r = Some ks \<and> (x = static_VerificationKey ks kid \<or> x = Inl oidc_ErrUnknownKey))
      \<or> r' = q \<and> (x = Inl oidc_ErrUnknownKey \<or> (\<exists>err. x = Inl err) \<or> (\<exists>ks. rk_keys q = Some ks \<and> x = static_VerificationKey ks kid))"
    using assms(2) q
    by (auto simp: remote_VerificationKey_def fetch_key_def split: option.splits if_splits sum.splits)
  then have "r' = r \<or> r' = q" by blast
  then show inv: "from_documents u R r'" using assms(1) refresh_from_documents [OF assms(1) q] by auto
  assume x: "x = Inr e"
  with cases obtain ks where "rk_keys r' = Some ks" "ks kid = Some e"
    by (auto simp: static_VerificationKey_def split: option.splits)
  then show "\<exists>resp ks. Inr resp \<in> set R \<and> jr_Status resp = 200 \<and> ParseJWKS u (jr_Body resp) = Inr ks \<and> ks kid = Some e"
    using inv by (auto simp: from_documents_def)
qed

end
