(* ===== verification/Outbound.thy ===== *)
theory Outbound
  imports Accounts Http Oidc Presence Otp "HOL-Library.AList"
begin

text \<open>
  The calls the platform makes to others: the form encoding of \<^verbatim>\<open>net/url\<close>, the token exchanges of the identity providers
  (\<^verbatim>\<open>internal/oidcprov/exchange.go\<close>, \<^verbatim>\<open>internal/zalo/zalo.go\<close>), the verification vendor (\<^verbatim>\<open>internal/ekyc/client.go\<close> and
  \<^verbatim>\<open>VNVerifier.Begin\<close>) and the senders of one-time codes (\<^verbatim>\<open>internal/smssend\<close>, \<^verbatim>\<open>internal/emailsend\<close>,
  \<^verbatim>\<open>internal/otpconsole\<close>).

  The remote side is a parameter: what it answers to a request, if it answers. JSON decoding of its replies and the
  signature primitive are parameters too.
\<close>

section \<open>Query strings\<close>

definition unreserved :: "char \<Rightarrow> bool" where
  "unreserved c = (let n = byte c in is_lower n \<or> is_upper n \<or> is_digit n \<or> c \<in> {CHR ''-'', CHR ''_'', CHR ''.'', CHR ''~''})"

definition upper_hex :: "nat \<Rightarrow> char" where
  "upper_hex n = (if n < 10 then char_of (48 + n) else char_of (55 + n))"

definition escape_char :: "char \<Rightarrow> string" where
  "escape_char c =
     (if unreserved c then [c]
      else if c = CHR '' '' then ''+''
      else [CHR ''%'', upper_hex (byte c div 16), upper_hex (byte c mod 16)])"

definition QueryEscape :: "string \<Rightarrow> string" where
  "QueryEscape s = concat (map escape_char s)"

fun QueryUnescape :: "string \<Rightarrow> string option" where
  "QueryUnescape [] = Some []"
| "QueryUnescape (c # cs) =
     (if c = CHR ''%'' then
        (case cs of
           a # b # rest \<Rightarrow>
             (case (hex_val a, hex_val b) of
                (Some x, Some y) \<Rightarrow> map_option ((#) (char_of (16 * x + y))) (QueryUnescape rest)
              | _ \<Rightarrow> None)
         | _ \<Rightarrow> None)
      else map_option ((#) (if c = CHR ''+'' then CHR '' '' else c)) (QueryUnescape cs))"

text \<open>The values of a form, one per key; \<^verbatim>\<open>Encode\<close> writes them in the order of their keys.\<close>

type_synonym url_values = "(string \<times> string) list"

definition form_pair :: "string \<times> string \<Rightarrow> string" where
  "form_pair kv = QueryEscape (fst kv) @ ''='' @ QueryEscape (snd kv)"

definition by_key :: "url_values \<Rightarrow> url_values" where
  "by_key q = map (\<lambda>k. (k, the (map_of q k))) (sort_strings (map fst q))"

definition Encode :: "url_values \<Rightarrow> string" where
  "Encode q = (if q = [] then '''' else join_with CHR ''&'' (map form_pair (by_key q)))"

text \<open>\<^verbatim>\<open>url.ParseQuery\<close>, whose bad pairs \<^verbatim>\<open>URL.Query\<close> drops, and \<^verbatim>\<open>Values.Get\<close>.\<close>

definition query_pair :: "string \<Rightarrow> (string \<times> string) option" where
  "query_pair s =
     (if s = '''' \<or> CHR '';'' \<in> set s then None
      else case (case cut CHR ''='' s of None \<Rightarrow> (s, '''') | Some p \<Rightarrow> p) of
             (k, v) \<Rightarrow> (case (QueryUnescape k, QueryUnescape v) of (Some k', Some v') \<Rightarrow> Some (k', v') | _ \<Rightarrow> None))"

definition ParseQuery :: "string \<Rightarrow> url_values" where
  "ParseQuery s = List.map_filter query_pair (split_on CHR ''&'' s)"

definition query_Get :: "url_values \<Rightarrow> string \<Rightarrow> string" where
  "query_Get q k = (case map_of q k of None \<Rightarrow> '''' | Some v \<Rightarrow> v)"

section \<open>Requests to others\<close>

datatype payload = NoPayload | FormPayload string | JsonPayload json

record OutReq =
  oq_Method :: string
  oq_URL :: string
  oq_Header :: "(string \<times> string) list"
  oq_Body :: payload

record OutReply =
  or_Status :: nat
  or_Body :: bytes

text \<open>\<^verbatim>\<open>http.NewRequest\<close> refuses a URL it cannot parse; \<^verbatim>\<open>Do\<close> may fail.\<close>

record HttpClient =
  hc_ValidURL :: "string \<Rightarrow> bool"
  hc_Do :: "OutReq \<Rightarrow> OutReply option"

definition MiB :: nat where "MiB = 2 ^ 20"

text \<open>Build the request, send it, read at most \<open>limit\<close> bytes of the reply.\<close>

definition send_request :: "HttpClient \<Rightarrow> string \<Rightarrow> nat \<Rightarrow> OutReq \<Rightarrow> (nat \<times> bytes) res" where
  "send_request hc what limit req =
     (if \<not> hc_ValidURL hc (oq_URL req) then Inl (Err ''net/http: invalid request'')
      else case hc_Do hc req of
             None \<Rightarrow> Inl (Err what)
           | Some resp \<Rightarrow> Inr (or_Status resp, take limit (or_Body resp)))"

abbreviation is_2xx :: "nat \<Rightarrow> bool" where
  "is_2xx st \<equiv> 200 \<le> st \<and> st < 300"

definition form_type :: "string \<times> string" where
  "form_type = (''Content-Type'', ''application/x-www-form-urlencoded'')"

definition json_type :: "string \<times> string" where
  "json_type = (''Content-Type'', ''application/json'')"

section \<open>Google and Apple\<close>

definition GoogleTokenURL :: string where "GoogleTokenURL = ''https://oauth2.googleapis.com/token''"
definition AppleTokenURL :: string where "AppleTokenURL = ''https://appleid.apple.com/auth/token''"
definition appleAudience :: string where "appleAudience = ''https://appleid.apple.com''"

record TokenExchanger =
  te_tokenURL :: string
  te_clientID :: string
  te_client :: HttpClient

definition NewGoogle :: "string \<Rightarrow> HttpClient \<Rightarrow> TokenExchanger" where
  "NewGoogle clientID client = \<lparr>te_tokenURL = GoogleTokenURL, te_clientID = clientID, te_client = client\<rparr>"

text \<open>The secret is resolved for each exchange: Google's is fixed, Apple's is below.\<close>

definition oidc_Exchange :: "(bytes \<Rightarrow> string option) \<Rightarrow> TokenExchanger \<Rightarrow> string res \<Rightarrow> string \<Rightarrow> string \<Rightarrow> string res" where
  "oidc_Exchange unmarshal e secret code redirectURI =
     (case secret of
        Inl err \<Rightarrow> Inl err
      | Inr sec \<Rightarrow>
          (case send_request (te_client e) ''oidcprov: token exchange'' MiB
              \<lparr>oq_Method = ''POST'', oq_URL = te_tokenURL e, oq_Header = [form_type, (''Accept'', ''application/json'')],
               oq_Body = FormPayload (Encode [(''grant_type'', ''authorization_code''), (''code'', code), (''client_id'', te_clientID e),
                 (''client_secret'', sec), (''redirect_uri'', redirectURI)])\<rparr> of
             Inl err \<Rightarrow> Inl err
           | Inr (status, body) \<Rightarrow>
               if status \<noteq> 200 then Inl (Err (''oidcprov: token exchange: status '' @ format_nat status))
               else (case unmarshal body of
                       None \<Rightarrow> Inl (Err ''oidcprov: decode token response'')
                     | Some idToken \<Rightarrow>
                         if idToken = '''' then Inl (Err ''oidcprov: token response missing id_token'') else Inr idToken)))"

record AppleConfig =
  ac_ClientID :: string
  ac_TeamID :: string
  ac_KeyID :: string
  ac_PrivateKey :: bytes

text \<open>What parsing the .p8 file finds: no PEM, no PKCS 8 key, another kind of key, or a signing function for digests.\<close>

datatype 'k parsed_key = NotPEM | NotPKCS8 | NotEC | ECKey 'k

definition parseECPrivateKey :: "(bytes \<Rightarrow> 'k parsed_key) \<Rightarrow> bytes \<Rightarrow> 'k res" where
  "parseECPrivateKey parse pem =
     (case parse pem of
        NotPEM \<Rightarrow> Inl (Err ''oidcprov: apple private key is not PEM'')
      | NotPKCS8 \<Rightarrow> Inl (Err ''oidcprov: parse apple key'')
      | NotEC \<Rightarrow> Inl (Err ''oidcprov: apple private key is not an EC key'')
      | ECKey k \<Rightarrow> Inr k)"

type_synonym ec_sign = "bytes \<Rightarrow> (nat \<times> nat) option"

record appleSecret =
  as_cfg :: AppleConfig
  as_key :: ec_sign
  as_cached :: string
  as_expiry :: instant

definition NewApple ::
  "(bytes \<Rightarrow> ec_sign parsed_key) \<Rightarrow> AppleConfig \<Rightarrow> HttpClient \<Rightarrow> (TokenExchanger \<times> appleSecret) res" where
  "NewApple parse cfg client =
     (if ac_ClientID cfg = '''' \<or> ac_TeamID cfg = '''' \<or> ac_KeyID cfg = '''' \<or> ac_PrivateKey cfg = [] then
        Inl (Err ''oidcprov: apple config requires client id, team id, key id, and private key'')
      else case parseECPrivateKey parse (ac_PrivateKey cfg) of
             Inl err \<Rightarrow> Inl err
           | Inr key \<Rightarrow> Inr (\<lparr>te_tokenURL = AppleTokenURL, te_clientID = ac_ClientID cfg, te_client = client\<rparr>,
               \<lparr>as_cfg = cfg, as_key = key, as_cached = '''', as_expiry = 0\<rparr>))"

definition appleSecretTTL :: duration where "appleSecretTTL = minutes 50"

text \<open>A map is marshalled in the order of its keys.\<close>

definition apple_header :: "AppleConfig \<Rightarrow> json" where
  "apple_header cfg = JObj [(''alg'', JStr ''ES256''), (''kid'', JStr (ac_KeyID cfg)), (''typ'', JStr ''JWT'')]"

definition apple_claims :: "AppleConfig \<Rightarrow> instant \<Rightarrow> instant \<Rightarrow> json" where
  "apple_claims cfg iat exp = JObj [(''aud'', JStr appleAudience), (''exp'', JNum (unix exp)), (''iat'', JNum (unix iat)),
     (''iss'', JStr (ac_TeamID cfg)), (''sub'', JStr (ac_ClientID cfg))]"

definition signAppleJWT :: "(json \<Rightarrow> bytes) \<Rightarrow> (bytes \<Rightarrow> bytes) \<Rightarrow> AppleConfig \<Rightarrow> ec_sign \<Rightarrow> instant \<Rightarrow> instant \<Rightarrow> string res" where
  "signAppleJWT marshal H cfg key iat exp =
     (let signingInput = EncodeToString (marshal (apple_header cfg)) @ ''.'' @ EncodeToString (marshal (apple_claims cfg iat exp)) in
      case key (H signingInput) of
        None \<Rightarrow> Inl (Err ''ecdsa: sign'')
      | Some (r, s) \<Rightarrow> Inr (signingInput @ ''.'' @ EncodeToString (be_bytes 32 r @ be_bytes 32 s)))"

definition appleSecret_get :: "(json \<Rightarrow> bytes) \<Rightarrow> (bytes \<Rightarrow> bytes) \<Rightarrow> instant \<Rightarrow> appleSecret \<Rightarrow> string res \<times> appleSecret" where
  "appleSecret_get marshal H now a =
     (if as_cached a \<noteq> '''' \<and> now + minutes 1 < as_expiry a then (Inr (as_cached a), a)
      else let exp = now + appleSecretTTL in
        (case signAppleJWT marshal H (as_cfg a) (as_key a) now exp of
           Inl err \<Rightarrow> (Inl err, a)
         | Inr jwt \<Rightarrow> (Inr jwt, a\<lparr>as_cached := jwt, as_expiry := exp\<rparr>)))"

section \<open>Zalo\<close>

definition zalo_tokenEndpoint :: string where "zalo_tokenEndpoint = ''https://oauth.zaloapp.com/v4/access_token''"
definition zalo_meEndpoint :: string where "zalo_meEndpoint = ''https://graph.zalo.me/v2.0/me''"

record ZaloExchanger =
  ze_tokenURL :: string
  ze_appID :: string
  ze_appSecret :: string
  ze_client :: HttpClient

definition NewExchanger :: "string \<Rightarrow> string \<Rightarrow> HttpClient \<Rightarrow> ZaloExchanger res" where
  "NewExchanger appID appSecret client =
     (if appID = '''' \<or> appSecret = '''' then Inl (Err ''zalo: app id and secret are required'')
      else Inr \<lparr>ze_tokenURL = zalo_tokenEndpoint, ze_appID = appID, ze_appSecret = appSecret, ze_client = client\<rparr>)"

text \<open>The decoded token response: the access token (the error code is decoded and not read).\<close>

definition zalo_Exchange :: "(bytes \<Rightarrow> (string \<times> int) option) \<Rightarrow> ZaloExchanger \<Rightarrow> string \<Rightarrow> string \<Rightarrow> string \<Rightarrow> string res" where
  "zalo_Exchange unmarshal e code redirectURI codeVerifier =
     (case send_request (ze_client e) ''zalo: token exchange'' MiB
         \<lparr>oq_Method = ''POST'', oq_URL = ze_tokenURL e, oq_Header = [form_type, (''secret_key'', ze_appSecret e)],
          oq_Body = FormPayload (Encode [(''code'', code), (''app_id'', ze_appID e), (''grant_type'', ''authorization_code''),
            (''code_verifier'', codeVerifier)])\<rparr> of
        Inl err \<Rightarrow> Inl err
      | Inr (status, body) \<Rightarrow>
          if \<not> is_2xx status then Inl (Err (''zalo: token status '' @ format_nat status))
          else (case unmarshal body of
                  None \<Rightarrow> Inl (Err ''zalo: decode token response'')
                | Some (accessToken, _) \<Rightarrow>
                    if accessToken = '''' then Inl (Err ''zalo: token response missing access_token'') else Inr accessToken))"

record UserInfo =
  ui_meURL :: string
  ui_client :: HttpClient

definition NewUserInfo :: "HttpClient \<Rightarrow> UserInfo" where
  "NewUserInfo client = \<lparr>ui_meURL = zalo_meEndpoint, ui_client = client\<rparr>"

definition zalo_Subject :: "(bytes \<Rightarrow> (string \<times> int) option) \<Rightarrow> UserInfo \<Rightarrow> string \<Rightarrow> string res" where
  "zalo_Subject unmarshal u accessToken =
     (case send_request (ui_client u) ''zalo: userinfo'' MiB
         \<lparr>oq_Method = ''GET'', oq_URL = ui_meURL u @ ''?fields=id'', oq_Header = [(''access_token'', accessToken)], oq_Body = NoPayload\<rparr> of
        Inl err \<Rightarrow> Inl err
      | Inr (status, body) \<Rightarrow>
          if \<not> is_2xx status then Inl (Err (''zalo: userinfo status '' @ format_nat status))
          else (case unmarshal body of
                  None \<Rightarrow> Inl (Err ''zalo: decode userinfo'')
                | Some (i, code) \<Rightarrow> if code \<noteq> 0 \<or> i = '''' then Inl (Err ''zalo: userinfo returned no id'') else Inr i))"

section \<open>The verification vendor\<close>

record EkycClient =
  ek_url :: string
  ek_token :: string
  ek_client :: HttpClient

definition NewHTTPClient :: "string \<Rightarrow> string \<Rightarrow> HttpClient \<Rightarrow> EkycClient res" where
  "NewHTTPClient url token client =
     (if url = '''' then Inl (Err ''ekyc: vendor URL is required'')
      else Inr \<lparr>ek_url = url, ek_token = token, ek_client = client\<rparr>)"

definition CreateVerification :: "(bytes \<Rightarrow> (string \<times> string) option) \<Rightarrow> EkycClient \<Rightarrow> string \<Rightarrow> (string \<times> string) res" where
  "CreateVerification unmarshal c correlationID =
     (case send_request (ek_client c) ''ekyc: create verification'' MiB
         \<lparr>oq_Method = ''POST'', oq_URL = ek_url c,
          oq_Header = json_type # (if ek_token c \<noteq> '''' then [(''Authorization'', ''Bearer '' @ ek_token c)] else []),
          oq_Body = JsonPayload (JObj [(''correlationId'', JStr correlationID)])\<rparr> of
        Inl err \<Rightarrow> Inl err
      | Inr (status, raw) \<Rightarrow>
          if \<not> is_2xx status then Inl (Err (''ekyc: vendor status '' @ format_nat status))
          else (case unmarshal raw of
                  None \<Rightarrow> Inl (Err ''ekyc: decode vendor response'')
                | Some (reference, redirect) \<Rightarrow>
                    if reference = '''' then Inl (Err ''ekyc: vendor response missing reference'') else Inr (reference, redirect)))"

record VNVerifier =
  vn_client :: "string \<Rightarrow> (string \<times> string) res"
  vn_webhookSecret :: bytes

definition NewVN :: "(string \<Rightarrow> (string \<times> string) res) option \<Rightarrow> string \<Rightarrow> VNVerifier res" where
  "NewVN client webhookSecret =
     (case client of
        None \<Rightarrow> Inl (Err ''ekyc: vn verifier requires a client and webhook secret'')
      | Some c \<Rightarrow>
          if webhookSecret = '''' then Inl (Err ''ekyc: vn verifier requires a client and webhook secret'')
          else Inr \<lparr>vn_client = c, vn_webhookSecret = webhookSecret\<rparr>)"

definition vn_Begin :: "VNVerifier \<Rightarrow> verifier" where
  "vn_Begin v uid =
     (case vn_client v uid of
        Inl err \<Rightarrow> Inl err
      | Inr (ref, redirect) \<Rightarrow> Inr \<lparr>sr_Provider = ''vn-ekyc'', sr_Ref = ref, sr_RedirectURL = redirect\<rparr>)"

section \<open>One-time codes by text message\<close>

definition defaultMessageTemplate :: string where
  "defaultMessageTemplate = ''Your laplat sign-in code is {code}. It expires in 10 minutes.''"

text \<open>\<^verbatim>\<open>strings.ReplaceAll\<close> with a nonempty old text: left to right, without overlaps.\<close>

function ReplaceAll :: "string \<Rightarrow> string \<Rightarrow> string \<Rightarrow> string" where
  "ReplaceAll old new [] = []"
| "ReplaceAll old new (c # cs) =
     (if old \<noteq> [] \<and> take (length old) (c # cs) = old then new @ ReplaceAll old new (drop (length old) (c # cs))
      else c # ReplaceAll old new cs)"
  by pat_completeness auto
termination by (relation "measure (\<lambda>(old, new, s). length s)") auto

record GenericConfig =
  gc_URL :: string
  gc_Method :: string
  gc_Encoding :: string
  gc_ToField :: string
  gc_MessageField :: string
  gc_MessageTemplate :: string
  gc_Fields :: url_values
  gc_Headers :: "(string \<times> string) list"

definition or_default :: "string \<Rightarrow> string \<Rightarrow> string" where
  "or_default s d = (if s = '''' then d else s)"

definition NewGeneric :: "GenericConfig \<Rightarrow> GenericConfig res" where
  "NewGeneric cfg =
     (if gc_URL cfg = '''' then Inl (Err ''smssend: generic sender requires a URL'')
      else Inr (cfg\<lparr>gc_Method := or_default (gc_Method cfg) ''POST'', gc_Encoding := or_default (gc_Encoding cfg) ''json'',
        gc_ToField := or_default (gc_ToField cfg) ''to'', gc_MessageField := or_default (gc_MessageField cfg) ''message'',
        gc_MessageTemplate := or_default (gc_MessageTemplate cfg) defaultMessageTemplate\<rparr>))"

text \<open>Later settings of a key replace earlier ones.\<close>

definition generic_fields :: "GenericConfig \<Rightarrow> string \<Rightarrow> string \<Rightarrow> url_values" where
  "generic_fields cfg phone code =
     (let base = AList.update (gc_MessageField cfg) (ReplaceAll ''{code}'' code (gc_MessageTemplate cfg)) [(gc_ToField cfg, phone)]
      in foldl (\<lambda>fs (k, v). AList.update k v fs) base (gc_Fields cfg))"

definition generic_SendLoginCode :: "HttpClient \<Rightarrow> GenericConfig \<Rightarrow> sender" where
  "generic_SendLoginCode hc cfg phone code =
     (let fields = generic_fields cfg phone code;
          (body, ctype) = (if gc_Encoding cfg = ''form'' then (FormPayload (Encode fields), form_type)
                           else (JsonPayload (JObj (map (\<lambda>(k, v). (k, JStr v)) (by_key fields))), json_type))
      in case send_request hc ''smssend: send'' 0
             \<lparr>oq_Method = gc_Method cfg, oq_URL = gc_URL cfg,
              oq_Header = foldl (\<lambda>hs (k, v). AList.update k v hs) [ctype] (gc_Headers cfg), oq_Body = body\<rparr> of
           Inl err \<Rightarrow> Some err
         | Inr (status, _) \<Rightarrow> if \<not> is_2xx status then Some (Err (''smssend: gateway status '' @ format_nat status)) else None)"

record TwilioConfig =
  tw_AccountSID :: string
  tw_AuthToken :: string
  tw_From :: string

definition NewTwilio :: "TwilioConfig \<Rightarrow> TwilioConfig res" where
  "NewTwilio cfg =
     (if tw_AccountSID cfg = '''' \<or> tw_AuthToken cfg = '''' \<or> tw_From cfg = ''''
      then Inl (Err ''smssend: twilio requires account sid, auth token, and from'') else Inr cfg)"

definition basic_auth :: "string \<Rightarrow> string \<Rightarrow> string \<times> string" where
  "basic_auth user pass = (''Authorization'', ''Basic '' @ StdEncode (user @ '':'' @ pass))"

definition twilio_SendLoginCode :: "HttpClient \<Rightarrow> TwilioConfig \<Rightarrow> sender" where
  "twilio_SendLoginCode hc cfg phone code =
     (case send_request hc ''smssend: twilio send'' 0
         \<lparr>oq_Method = ''POST'',
          oq_URL = ''https://api.twilio.com/2010-04-01/Accounts/'' @ tw_AccountSID cfg @ ''/Messages.json'',
          oq_Header = [form_type, basic_auth (tw_AccountSID cfg) (tw_AuthToken cfg)],
          oq_Body = FormPayload (Encode [(''To'', phone), (''From'', tw_From cfg), (''Body'', ReplaceAll ''{code}'' code defaultMessageTemplate)])\<rparr> of
        Inl err \<Rightarrow> Some err
      | Inr (status, _) \<Rightarrow> if \<not> is_2xx status then Some (Err (''smssend: twilio status '' @ format_nat status)) else None)"

record VonageConfig =
  vg_APIKey :: string
  vg_APISecret :: string
  vg_From :: string

definition NewVonage :: "VonageConfig \<Rightarrow> VonageConfig res" where
  "NewVonage cfg =
     (if vg_APIKey cfg = '''' \<or> vg_APISecret cfg = '''' \<or> vg_From cfg = ''''
      then Inl (Err ''smssend: vonage requires api key, api secret, and from'') else Inr cfg)"

text \<open>The decoded reply is the list of message statuses with their error texts; \<^verbatim>\<open>16<<10\<close> bytes of it are read.\<close>

definition vonage_SendLoginCode :: "(bytes \<Rightarrow> (string \<times> string) list option) \<Rightarrow> HttpClient \<Rightarrow> VonageConfig \<Rightarrow> sender" where
  "vonage_SendLoginCode unmarshal hc cfg phone code =
     (case send_request hc ''smssend: vonage send'' (16 * 1024)
         \<lparr>oq_Method = ''POST'', oq_URL = ''https://rest.nexmo.com/sms/json'', oq_Header = [form_type],
          oq_Body = FormPayload (Encode [(''api_key'', vg_APIKey cfg), (''api_secret'', vg_APISecret cfg), (''to'', trim_prefix phone ''+''),
            (''from'', vg_From cfg), (''text'', ReplaceAll ''{code}'' code defaultMessageTemplate)])\<rparr> of
        Inl err \<Rightarrow> Some err
      | Inr (status, body) \<Rightarrow>
          if \<not> is_2xx status then Some (Err (''smssend: vonage status '' @ format_nat status))
          else (case unmarshal body of
                  None \<Rightarrow> Some (Err ''smssend: vonage decode'')
                | Some [] \<Rightarrow> Some (Err ''smssend: vonage returned no message status'')
                | Some ((st, txt) # _) \<Rightarrow>
                    if st \<noteq> ''0'' then Some (Err (''smssend: vonage rejected (status '' @ st @ ''): '' @ txt)) else None))"

section \<open>One-time codes by email and on the console\<close>

record SMTPConfig =
  sm_Host :: string
  sm_Port :: string
  sm_From :: string
  sm_Username :: string
  sm_Password :: string

text \<open>The sender after construction: address, sender of the mails and credentials, if any.\<close>

record SMTPSender =
  ss_addr :: string
  ss_from :: string
  ss_auth :: "(string \<times> string) option"

definition JoinHostPort :: "string \<Rightarrow> string \<Rightarrow> string" where
  "JoinHostPort host port =
     (if CHR '':'' \<in> set host then ''['' @ host @ '']:'' @ port else host @ '':'' @ port)"

definition NewSMTPSender :: "SMTPConfig \<Rightarrow> SMTPSender res" where
  "NewSMTPSender cfg =
     (if sm_Host cfg = '''' \<or> sm_Port cfg = '''' \<or> sm_From cfg = '''' then Inl (Err ''emailsend: smtp host, port, and from are required'')
      else Inr \<lparr>ss_addr = JoinHostPort (sm_Host cfg) (sm_Port cfg), ss_from = sm_From cfg,
        ss_auth = (if sm_Username cfg \<noteq> '''' then Some (sm_Username cfg, sm_Password cfg) else None)\<rparr>)"

definition crlf :: string where "crlf = [CHR 0x0D, CHR 0x0A]"

definition buildMessage :: "string \<Rightarrow> string \<Rightarrow> string \<Rightarrow> bytes" where
  "buildMessage from to code =
     ''From: '' @ from @ crlf @ ''To: '' @ to @ crlf
     @ ''Subject: Your laplat sign-in code'' @ crlf @ ''MIME-Version: 1.0'' @ crlf @ ''Content-Type: text/plain; charset=utf-8'' @ crlf @ crlf
     @ ''Your sign-in code is '' @ code @ ''. It expires in 10 minutes.'' @ crlf
     @ ''If you did not request this, you can ignore this email.'' @ crlf"

text \<open>\<^verbatim>\<open>smtp.SendMail\<close> is a parameter: address, credentials, sender, recipients, message.\<close>

definition smtp_SendLoginCode ::
  "(string \<Rightarrow> (string \<times> string) option \<Rightarrow> string \<Rightarrow> string list \<Rightarrow> bytes \<Rightarrow> bool) \<Rightarrow> SMTPSender \<Rightarrow> sender" where
  "smtp_SendLoginCode sendMail s email code =
     (if sendMail (ss_addr s) (ss_auth s) (ss_from s) [email] (buildMessage (ss_from s) email code) then None
      else Some (Err ''emailsend: send''))"

definition console_SendLoginCode :: sender where
  "console_SendLoginCode dest code = None"

section \<open>What is encoded is what is decoded\<close>

lemma hex_val_upper_hex: "n < 16 \<Longrightarrow> hex_val (upper_hex n) = Some n"
  by (auto simp: hex_val_def upper_hex_def byte_def Let_def)

lemma unreserved_plain: "unreserved c \<Longrightarrow> c \<notin> {CHR ''%'', CHR ''+'', CHR ''&'', CHR ''='', CHR '';''}"
  by (auto simp: unreserved_def byte_def is_lower_def is_upper_def is_digit_def Let_def)

lemma upper_hex_plain: "n < 16 \<Longrightarrow> upper_hex n \<notin> {CHR ''&'', CHR ''='', CHR '';''}"
proof -
  assume n: "n < 16"
  then have "48 \<le> (of_char (upper_hex n) :: nat) \<and> (of_char (upper_hex n) :: nat) \<le> 57
      \<or> 65 \<le> (of_char (upper_hex n) :: nat) \<and> (of_char (upper_hex n) :: nat) \<le> 70"
    by (auto simp: upper_hex_def)
  then show ?thesis by auto
qed

lemma byte_hex_halves: "byte c div 16 < 16" "byte c mod 16 < 16" "char_of (16 * (byte c div 16) + byte c mod 16) = c"
proof -
  have "(of_char c :: nat) < 16 * 16" using of_char_less [of c] by simp
  then show "byte c div 16 < 16" by (simp only: byte_def less_mult_imp_div_less)
qed (simp_all add: byte_def)

lemma char_of_byte [simp]: "char_of (byte c) = c"
  by (simp add: byte_def)

lemma QueryUnescape_escape_char: "QueryUnescape (escape_char c @ s) = map_option ((#) c) (QueryUnescape s)"
  using unreserved_plain [of c] by (auto simp: escape_char_def hex_val_upper_hex byte_hex_halves)

lemma QueryUnescape_QueryEscape [simp]: "QueryUnescape (QueryEscape s) = Some s"
  by (induction s) (simp_all add: QueryEscape_def QueryUnescape_escape_char)

lemma QueryEscape_plain: "c \<in> set (QueryEscape s) \<Longrightarrow> c \<notin> {CHR ''&'', CHR ''='', CHR '';''}"
proof -
  have "c \<notin> {CHR ''&'', CHR ''='', CHR '';''}" if "c \<in> set (escape_char d)" for d
    using that unreserved_plain [of c] upper_hex_plain [OF byte_hex_halves(1) [of d]] upper_hex_plain [OF byte_hex_halves(2) [of d]]
    unfolding escape_char_def by (cases "unreserved d"; cases "d = CHR '' ''") auto
  then show "c \<in> set (QueryEscape s) \<Longrightarrow> c \<notin> {CHR ''&'', CHR ''='', CHR '';''}" by (auto simp: QueryEscape_def)
qed

lemma query_pair_form_pair: "query_pair (form_pair kv) = Some kv"
proof -
  have k: "CHR ''='' \<notin> set (QueryEscape (fst kv))" "CHR '';'' \<notin> set (QueryEscape (fst kv))" "CHR '';'' \<notin> set (QueryEscape (snd kv))"
    using QueryEscape_plain by blast+
  have "cut CHR ''='' (form_pair kv) = Some (QueryEscape (fst kv), QueryEscape (snd kv))"
    using cut_append [OF k(1)] by (simp add: form_pair_def)
  with k show ?thesis by (simp add: query_pair_def) (simp add: form_pair_def)
qed

lemma set_sort_strings: "set (sort_strings xs) = set xs"
proof -
  have "set (insert_sorted x ys) = insert x (set ys)" for x ys by (induction ys) auto
  then show ?thesis by (induction xs) (simp_all add: sort_strings_def)
qed

lemma map_of_by_key: "map_of (by_key q) = map_of q"
proof
  fix k
  show "map_of (by_key q) k = map_of q k"
  proof (cases "map_of q k")
    case None
    then have "k \<notin> fst ` set q" by (simp add: map_of_eq_None_iff)
    then show ?thesis by (simp add: None by_key_def map_of_map_keys map_of_eq_None_iff set_sort_strings image_comp)
  next
    case (Some v)
    then have "k \<in> set (sort_strings (map fst q))" by (auto simp: set_sort_strings dest: map_of_SomeD intro: rev_image_eqI)
    then show ?thesis using Some by (simp add: by_key_def map_of_map_restrict)
  qed
qed

lemma ParseQuery_Encode: "map_of (ParseQuery (Encode q)) = map_of q"
proof (cases "q = []")
  case False
  have "CHR ''&'' \<notin> set (form_pair kv)" for kv using QueryEscape_plain by (auto simp: form_pair_def)
  then have "\<forall>p \<in> set (map form_pair (by_key q)). CHR ''&'' \<notin> set p" by simp
  moreover have "map form_pair (by_key q) \<noteq> []"
    using False set_sort_strings [of "map fst q"] by (cases "sort_strings (map fst q)") (auto simp: by_key_def)
  ultimately have "split_on CHR ''&'' (Encode q) = map form_pair (by_key q)" using False by (simp add: Encode_def split_join)
  moreover have "List.map_filter query_pair (map form_pair kvs) = kvs" for kvs
    by (induction kvs) (simp_all add: query_pair_form_pair List.map_filter_simps)
  ultimately show ?thesis by (simp add: ParseQuery_def map_of_by_key)
qed (simp add: ParseQuery_def Encode_def query_pair_def List.map_filter_simps)

text \<open>What the platform sends in a form or a query is what the other side reads: decoding an encoded form gives every key its
  value and no other key, whatever characters the values have, so a value never adds or changes a parameter.\<close>
lemma form_values_survive: "map_of (ParseQuery (Encode q)) = map_of q"
  by (rule ParseQuery_Encode)

section \<open>Apple's client secret\<close>

text \<open>A key pair: what the key signs, the verification primitive accepts, and the two numbers are those of P-256.\<close>

definition ec_pair :: "OidcLib \<Rightarrow> nat \<Rightarrow> nat \<Rightarrow> ec_sign \<Rightarrow> bool" where
  "ec_pair lib x y key \<longleftrightarrow> (\<forall>d r s. key d = Some (r, s) \<longrightarrow> r < 2 ^ 256 \<and> s < 2 ^ 256 \<and> ol_ecdsa lib x y d r s)"

lemma signAppleJWT_verifies:
  assumes "signAppleJWT marshal (ol_sha256 lib) cfg key iat exp = Inr jwt" "ec_pair lib x y key"
  shows "\<exists>p0 p1 p2 sig. split_on CHR ''.'' jwt = [p0, p1, p2] \<and> DecodeString p0 = Some (marshal (apple_header cfg))
    \<and> DecodeString p1 = Some (marshal (apple_claims cfg iat exp)) \<and> DecodeString p2 = Some sig
    \<and> verifySignature lib ''ES256'' (EcKey x y) (p0 @ ''.'' @ p1) sig = None"
proof -
  define p0 where "p0 = EncodeToString (marshal (apple_header cfg))"
  define p1 where "p1 = EncodeToString (marshal (apple_claims cfg iat exp))"
  obtain r s where k: "key (ol_sha256 lib (p0 @ ''.'' @ p1)) = Some (r, s)"
    and jwt: "jwt = p0 @ ''.'' @ p1 @ ''.'' @ EncodeToString (be_bytes 32 r @ be_bytes 32 s)"
    using assms(1) by (auto simp: signAppleJWT_def Let_def p0_def p1_def split: option.splits)
  define sig where "sig = be_bytes 32 r @ be_bytes 32 s"
  have rs: "r < 2 ^ 256" "s < 2 ^ 256" "ol_ecdsa lib x y (ol_sha256 lib (p0 @ ''.'' @ p1)) r s" using assms(2) k by (auto simp: ec_pair_def)
  have "(256 :: nat) ^ 32 = 2 ^ 256" by simp
  then have "be_value (take 32 sig) = r" "be_value (drop 32 sig) = s" "length sig = 64"
    using rs(1,2) by (simp_all add: sig_def)
  then have v: "verifySignature lib ''ES256'' (EcKey x y) (p0 @ ''.'' @ p1) sig = None" using rs(3) by (simp add: verifySignature_def Let_def)
  have "split_on CHR ''.'' jwt = [p0, p1, EncodeToString sig]"
    using split_join [of "[p0, p1, EncodeToString sig]" "CHR ''.''"] by (simp add: jwt sig_def p0_def p1_def)
  with v show ?thesis by (auto simp: p0_def p1_def)
qed

text \<open>The cache holds a token that was signed for the expiry it remembers.\<close>

definition apple_inv :: "(json \<Rightarrow> bytes) \<Rightarrow> (bytes \<Rightarrow> bytes) \<Rightarrow> appleSecret \<Rightarrow> bool" where
  "apple_inv marshal H a \<longleftrightarrow>
     (as_cached a \<noteq> '''' \<longrightarrow> (\<exists>iat. signAppleJWT marshal H (as_cfg a) (as_key a) iat (as_expiry a) = Inr (as_cached a)))"

lemma NewApple_inv: "NewApple parse cfg client = Inr (e, a) \<Longrightarrow> apple_inv marshal H a"
  by (auto simp: NewApple_def apple_inv_def split: if_splits sum.splits)

text \<open>A secret that is handed out is good for more than another minute, and the cache stays good.\<close>

lemma appleSecret_lasts:
  assumes "apple_inv marshal H a" "appleSecret_get marshal H now a = (Inr jwt, a')"
  shows "\<exists>iat exp. signAppleJWT marshal H (as_cfg a) (as_key a) iat exp = Inr jwt \<and> now + minutes 1 < exp" "apple_inv marshal H a'"
proof -
  have less: "now + minutes 1 < now + appleSecretTTL" by (simp add: appleSecretTTL_def minutes_def seconds_def)
  have "(\<exists>iat exp. signAppleJWT marshal H (as_cfg a) (as_key a) iat exp = Inr jwt \<and> now + minutes 1 < exp) \<and> apple_inv marshal H a'"
  proof (cases "as_cached a \<noteq> '''' \<and> now + minutes 1 < as_expiry a")
    case True
    then have "jwt = as_cached a" "a' = a" using assms(2) by (auto simp: appleSecret_get_def)
    then show ?thesis using True assms(1) unfolding apple_inv_def by metis
  next
    case False
    then have "signAppleJWT marshal H (as_cfg a) (as_key a) now (now + appleSecretTTL) = Inr jwt"
      and a': "a' = a\<lparr>as_cached := jwt, as_expiry := now + appleSecretTTL\<rparr>"
      using assms(2) by (cases "signAppleJWT marshal H (as_cfg a) (as_key a) now (now + appleSecretTTL)"; simp add: appleSecret_get_def Let_def)+
    moreover from this have "apple_inv marshal H a'" by (auto simp: apple_inv_def)
    ultimately show ?thesis using less by blast
  qed
  then show "\<exists>iat exp. signAppleJWT marshal H (as_cfg a) (as_key a) iat exp = Inr jwt \<and> now + minutes 1 < exp" "apple_inv marshal H a'" by blast+
qed

end
