(* ===== verification/Federation.thy ===== *)
theory Federation
  imports Login Outbound
begin

text \<open>
  Login through an identity provider: the connectors of \<^verbatim>\<open>internal/auth/federation.go\<close> and the two redirects of
  \<^verbatim>\<open>internal/auth/http_oidc.go\<close>, over the flow \<^verbatim>\<open>Complete\<close> of theory \<open>Login\<close>, the token verification of theory \<open>Oidc\<close> and
  the exchanges of theory \<open>Outbound\<close>.

  The connectors of a request are those of the instant it is handled at: a connector is built from the clock and the state of
  the provider's key set. The endpoints are pinned URLs without a query, so that adding one is appending it.
\<close>

section \<open>Connectors\<close>

datatype BindingKind = BindingNonce | BindingPKCE

record Connector =
  cn_Binding :: BindingKind
  cn_Authorize :: "string \<Rightarrow> string \<Rightarrow> string res"
  cn_Resolve :: connector

record 's OidcConnector =
  ov_verifier :: "'s OidcProvider"
  ov_exchange :: "string \<Rightarrow> string \<Rightarrow> string res"
  ov_authURL :: string
  ov_clientID :: string
  ov_redirectURL :: string
  ov_scopes :: "string list"

definition oidc_Authorize :: "'s OidcConnector \<Rightarrow> string \<Rightarrow> string \<Rightarrow> string res" where
  "oidc_Authorize c state nonce =
     Inr (ov_authURL c @ ''?'' @ Encode [(''client_id'', ov_clientID c), (''redirect_uri'', ov_redirectURL c), (''response_type'', ''code''),
       (''scope'', join_with CHR '' '' (ov_scopes c)), (''state'', state), (''nonce'', nonce)])"

definition oidc_Resolve :: "OidcLib \<Rightarrow> 's OidcConnector \<Rightarrow> instant \<Rightarrow> string \<Rightarrow> string \<Rightarrow> 's \<Rightarrow> string res \<times> 's" where
  "oidc_Resolve lib c now code nonce s =
     (case ov_exchange c code (ov_redirectURL c) of
        Inl err \<Rightarrow> (Inl err, s)
      | Inr raw \<Rightarrow>
          (case oidc_Verify lib (ov_verifier c) now raw nonce s of
             (Inl err, s') \<Rightarrow> (Inl err, s')
           | (Inr claims, s') \<Rightarrow> (Inr (oc_Subject claims), s')))"

definition NewOIDCConnector :: "OidcLib \<Rightarrow> 's OidcConnector \<Rightarrow> instant \<Rightarrow> 's \<Rightarrow> Connector" where
  "NewOIDCConnector lib c now s =
     \<lparr>cn_Binding = BindingNonce, cn_Authorize = oidc_Authorize c, cn_Resolve = (\<lambda>code nonce. fst (oidc_Resolve lib c now code nonce s))\<rparr>"

record zaloConnector =
  zc_exchange :: "string \<Rightarrow> string \<Rightarrow> string \<Rightarrow> string res"
  zc_userinfo :: "string \<Rightarrow> string res"
  zc_authURL :: string
  zc_appID :: string
  zc_redirectURL :: string

definition zalo_Authorize :: "zaloConnector \<Rightarrow> string \<Rightarrow> string \<Rightarrow> string res" where
  "zalo_Authorize c state codeChallenge =
     Inr (zc_authURL c @ ''?'' @ Encode [(''app_id'', zc_appID c), (''redirect_uri'', zc_redirectURL c), (''state'', state),
       (''code_challenge'', codeChallenge), (''code_challenge_method'', ''S256'')])"

definition zalo_Resolve :: "zaloConnector \<Rightarrow> string \<Rightarrow> string \<Rightarrow> string res" where
  "zalo_Resolve c code codeVerifier =
     (case zc_exchange c code (zc_redirectURL c) codeVerifier of
        Inl err \<Rightarrow> Inl err
      | Inr accessToken \<Rightarrow> zc_userinfo c accessToken)"

definition NewZaloConnector :: "zaloConnector \<Rightarrow> Connector" where
  "NewZaloConnector c = \<lparr>cn_Binding = BindingPKCE, cn_Authorize = zalo_Authorize c, cn_Resolve = zalo_Resolve c\<rparr>"

section \<open>The federation\<close>

type_synonym Connectors = "string \<rightharpoonup> Connector"

definition fed_Binding :: "Connectors \<Rightarrow> string \<Rightarrow> BindingKind option" where
  "fed_Binding cs provider = map_option cn_Binding (cs provider)"

definition fed_Authorize :: "Connectors \<Rightarrow> string \<Rightarrow> string \<Rightarrow> string \<Rightarrow> string res" where
  "fed_Authorize cs provider state challenge =
     (case cs provider of None \<Rightarrow> Inl ErrUnknownProvider | Some c \<Rightarrow> cn_Authorize c state challenge)"

definition federation_of :: "AuthSvc \<Rightarrow> Connectors \<Rightarrow> Federation" where
  "federation_of svc cs = NewFederation svc (\<lambda>p. map_option cn_Resolve (cs p))"

section \<open>Session replies\<close>

definition sessionResponse :: "AuthSession \<Rightarrow> json" where
  "sessionResponse s = JObj [(''accessToken'', JStr (se_AccessToken s)), (''refreshToken'', JStr (se_RefreshToken s)),
     (''accessExpiresAt'', JNum (ExpiresAt (se_AccessClaims s))), (''refreshExpiresAt'', JNum (unix (se_RefreshExpiresAt s)))]"

definition writeSession :: "AuthSession \<Rightarrow> Response io" where
  "writeSession s = writeJSON 200 (sessionResponse s)"

definition writeSessionError :: "error \<Rightarrow> Response io" where
  "writeSessionError err =
     (if err = ErrUnauthenticated then writeError 401 ''invalid credentials''
      else if err = ErrAccountNotActive then writeError 403 ''account not active''
      else writeError 500 ''internal error'')"

text \<open>\<open>profile\<close> tells whether the profile store is wired; \<open>eid\<close> is the fresh id of the row.\<close>

definition recordLogin :: "bool \<Rightarrow> string \<Rightarrow> string \<Rightarrow> string \<Rightarrow> unit io" where
  "recordLogin profile eid uid meth =
     (if \<not> profile \<or> uid = '''' then ret () else attempt (RecordLoginEvent eid uid meth) (\<lambda>_. ret ()))"

text \<open>The end of every login: note the sign-in, best effort, and answer with the session.\<close>

definition signed_in :: "bool \<Rightarrow> string \<Rightarrow> string \<Rightarrow> AuthSession \<Rightarrow> Response io" where
  "signed_in profile eid meth ses =
     bind (recordLogin profile eid (Subject (se_AccessClaims ses)) meth) (\<lambda>_. writeSession ses)"

section \<open>The redirects\<close>

definition stateCookie :: string where "stateCookie = ''laplat_oidc_state''"
definition secretCookie :: string where "secretCookie = ''laplat_oidc_secret''"

definition setOIDCCookie :: "string \<Rightarrow> string \<Rightarrow> string \<times> string \<times> int" where
  "setOIDCCookie name value = (name, value, 600)"

definition clearOIDCCookie :: "string \<Rightarrow> string \<times> string \<times> int" where
  "clearOIDCCookie name = (name, '''', -1)"

definition pkceChallenge :: "(bytes \<Rightarrow> bytes) \<Rightarrow> string \<Rightarrow> string" where
  "pkceChallenge H v = EncodeToString (H v)"

text \<open>\<open>state\<close> and \<open>secret\<close> are the fresh random values of the start.\<close>

definition handleOIDCStart :: "(bytes \<Rightarrow> bytes) \<Rightarrow> Connectors \<Rightarrow> string \<Rightarrow> string \<Rightarrow> string \<Rightarrow> Response io" where
  "handleOIDCStart H cs state secret provider =
     (case fed_Binding cs provider of
        None \<Rightarrow> writeError 404 ''unknown provider''
      | Some binding \<Rightarrow>
          let challenge = (if binding = BindingPKCE then pkceChallenge H secret else secret) in
          (case fed_Authorize cs provider state challenge of
             Inl _ \<Rightarrow> writeError 404 ''unknown provider''
           | Inr authURL \<Rightarrow> ret \<lparr>rp_Status = 302, rp_Body = None, rp_Location = authURL,
               rp_Cookies = [setOIDCCookie stateCookie state, setOIDCCookie secretCookie secret]\<rparr>))"

definition with_cookies :: "(string \<times> string \<times> int) list \<Rightarrow> Response io \<Rightarrow> Response io" where
  "with_cookies cs m = bind m (\<lambda>resp. ret (resp\<lparr>rp_Cookies := cs\<rparr>))"

definition handleOIDCCallback :: "AuthSvc \<Rightarrow> Connectors \<Rightarrow> bool \<Rightarrow> Fresh \<Rightarrow> string \<Rightarrow> string \<Rightarrow> HttpReq \<Rightarrow> Response io" where
  "handleOIDCCallback svc cs profile fr eid provider rq =
     (let code = hr_Query rq ''code''; qState = hr_Query rq ''state'' in
      if code = '''' \<or> qState = '''' \<or> hr_Cookie rq stateCookie \<noteq> Some qState then writeError 401 ''invalid oauth state''
      else case hr_Cookie rq secretCookie of
             None \<Rightarrow> writeError 401 ''missing oauth binding''
           | Some secret \<Rightarrow>
               if secret = '''' then writeError 401 ''missing oauth binding''
               else with_cookies [clearOIDCCookie stateCookie, clearOIDCCookie secretCookie]
                 (attempt (Complete (federation_of svc cs) fr provider code secret) (\<lambda>r. case r of
                    Inl err \<Rightarrow> writeSessionError err
                  | Inr sess \<Rightarrow> signed_in profile eid provider sess)))"

section \<open>What a finished login proves\<close>

lemma wired_federation: "reading_sources svc \<Longrightarrow> wired (fd_authn (federation_of svc cs))"
  by (auto simp: wired_def federation_of_def NewFederation_def Register_def NewAuthenticator_def split: if_splits)

lemma signed_in_reply:
  assumes "signed_in profile eid meth ses w = (Inr resp, w')"
  shows "rp_Status resp = 200" "rp_Body resp = Some (sessionResponse ses)" "link (w_db w') p = link (w_db w) p"
proof -
  obtain u w1 where r: "recordLogin profile eid (Subject (se_AccessClaims ses)) meth w = (Inr u, w1)" and resp: "writeSession ses w1 = (Inr resp, w')"
    using assms unfolding signed_in_def by (rule bind_InrD)
  show "rp_Status resp = 200" "rp_Body resp = Some (sessionResponse ses)" using resp by (auto simp: writeSession_def writeJSON_def respond_def ret_def)
  have w': "w' = w1" using resp by (auto simp: writeSession_def writeJSON_def ret_def)
  have "keeps (\<lambda>d. link d p = link (w_db w) p) (recordLogin profile eid (Subject (se_AccessClaims ses)) meth)"
    unfolding recordLogin_def RecordLoginEvent_def
    by (intro keeps_rules) (auto simp: stmt_keeps_def link_def split: if_splits PrincipalKind.splits)
  from keepsD [OF this r] show "link (w_db w') p = link (w_db w) p" by (simp add: w')
qed

lemma error_reply: "writeError st msg w = (Inr resp, w') \<Longrightarrow> rp_Status resp = st" "writeSessionError e w = (Inr resp, w') \<Longrightarrow> rp_Status resp \<noteq> 200"
  by (auto simp: writeSessionError_def writeError_def writeJSON_def respond_def ret_def split: if_splits)

lemma callback_session:
  assumes "handleOIDCCallback svc cs profile fr eid provider rq w = (Inr resp, w')" "rp_Status resp = 200" "reading_sources svc"
  obtains secret c subject ses where "hr_Query rq ''code'' \<noteq> ''''" "hr_Query rq ''state'' \<noteq> ''''"
    "hr_Cookie rq stateCookie = Some (hr_Query rq ''state'')" "hr_Cookie rq secretCookie = Some secret" "secret \<noteq> ''''"
    "cs provider = Some c" "cn_Resolve c (hr_Query rq ''code'') secret = Inr subject" "subject \<noteq> ''''"
    "rp_Body resp = Some (sessionResponse ses)"
    "link (w_db w') \<lparr>pp_Kind = PrincipalFederated, pp_Provider = provider, pp_Subject = subject\<rparr> = Some (Subject (se_AccessClaims ses))"
proof -
  define code where "code = hr_Query rq ''code''"
  have st: "\<not> (code = '''' \<or> hr_Query rq ''state'' = '''' \<or> hr_Cookie rq stateCookie \<noteq> Some (hr_Query rq ''state''))"
    using assms(1,2) error_reply(1) by (fastforce simp: handleOIDCCallback_def code_def Let_def)
  obtain secret where sec: "hr_Cookie rq secretCookie = Some secret" "secret \<noteq> ''''"
    using assms(1,2) st error_reply(1) by (cases "hr_Cookie rq secretCookie") (fastforce simp: handleOIDCCallback_def code_def Let_def split: if_splits)+
  obtain r w1 where c: "Complete (federation_of svc cs) fr provider code secret w = (r, w1)" by force
  obtain resp0 where k: "(case r of Inl err \<Rightarrow> writeSessionError err | Inr sess \<Rightarrow> signed_in profile eid provider sess) w1 = (Inr resp0, w')"
    and resp: "resp = resp0\<lparr>rp_Cookies := [clearOIDCCookie stateCookie, clearOIDCCookie secretCookie]\<rparr>"
    using assms(1) st sec c
    by (auto simp: handleOIDCCallback_def code_def Let_def with_cookies_def attempt_def ret_def elim!: bind_InrD)
  obtain ses where ses: "r = Inr ses" using k resp assms(2) error_reply(2) by (cases r) auto
  have body: "rp_Body resp = Some (sessionResponse ses)" using signed_in_reply(2) k ses resp by fastforce
  obtain cn subject where cn: "cs provider = Some cn" "cn_Resolve cn code secret = Inr subject" "subject \<noteq> ''''"
    and a: "Authenticate (fd_authn (federation_of svc cs)) fr \<lparr>pp_Kind = PrincipalFederated, pp_Provider = provider, pp_Subject = subject\<rparr> '''' w = (Inr ses, w1)"
    using c ses by (auto simp: Complete_def federation_of_def NewFederation_def fail_def split: option.splits sum.splits if_splits)
  have "link (w_db w1) \<lparr>pp_Kind = PrincipalFederated, pp_Provider = provider, pp_Subject = subject\<rparr> = Some (Subject (se_AccessClaims ses))"
    by (rule Authenticate_links [OF a wired_federation [OF assms(3)]])
  then have l: "link (w_db w') \<lparr>pp_Kind = PrincipalFederated, pp_Provider = provider, pp_Subject = subject\<rparr> = Some (Subject (se_AccessClaims ses))"
    using signed_in_reply(3) k ses by (metis sum.case(2))
  show thesis using that [OF _ _ _ sec cn(1) _ cn(3) body l] st cn(2) code_def by blast
qed

text \<open>What the start sends out: the state and the challenge of the redirect are those of the cookies it sets.\<close>

lemma start_redirect:
  assumes "cs provider = Some (NewOIDCConnector lib c now s)"
  shows "\<exists>resp q. handleOIDCStart H cs state secret provider w = (Inr resp, w) \<and> rp_Status resp = 302 \<and> rp_Location resp = ov_authURL c @ ''?'' @ q
    \<and> query_Get (ParseQuery q) ''state'' = state \<and> query_Get (ParseQuery q) ''nonce'' = secret
    \<and> (stateCookie, state, 600) \<in> set (rp_Cookies resp) \<and> (secretCookie, secret, 600) \<in> set (rp_Cookies resp)"
  using assms
  by (simp add: handleOIDCStart_def fed_Binding_def fed_Authorize_def NewOIDCConnector_def oidc_Authorize_def ret_def setOIDCCookie_def query_Get_def ParseQuery_Encode)

lemma start_redirect_pkce:
  assumes "cs provider = Some (NewZaloConnector c)"
  shows "\<exists>resp q. handleOIDCStart H cs state secret provider w = (Inr resp, w) \<and> rp_Status resp = 302 \<and> rp_Location resp = zc_authURL c @ ''?'' @ q
    \<and> query_Get (ParseQuery q) ''state'' = state \<and> query_Get (ParseQuery q) ''code_challenge'' = EncodeToString (H secret)
    \<and> (stateCookie, state, 600) \<in> set (rp_Cookies resp) \<and> (secretCookie, secret, 600) \<in> set (rp_Cookies resp)"
  using assms
  by (simp add: handleOIDCStart_def fed_Binding_def fed_Authorize_def NewZaloConnector_def zalo_Authorize_def ret_def setOIDCCookie_def query_Get_def
      pkceChallenge_def ParseQuery_Encode)

text \<open>What resolving with an OpenID Connect connector establishes.\<close>

lemma oidc_Resolve_subject:
  assumes "fst (oidc_Resolve lib c now code nonce s) = Inr subject" "nonce \<noteq> ''''"
  shows "\<exists>raw claims s'. ov_exchange c code (ov_redirectURL c) = Inr raw \<and> oidc_Verify lib (ov_verifier c) now raw nonce s = (Inr claims, s')
    \<and> oc_Nonce claims = nonce \<and> oc_Subject claims = subject"
proof -
  obtain raw claims s' where v: "ov_exchange c code (ov_redirectURL c) = Inr raw"
    "oidc_Verify lib (ov_verifier c) now raw nonce s = (Inr claims, s')" "subject = oc_Subject claims"
    using assms(1) by (auto simp: oidc_Resolve_def split: sum.splits prod.splits)
  have "oc_Nonce claims = nonce"
    by (rule oidc_Verify_InrD [OF v(2)]) (rule check_claims_nonce [OF _ assms(2)])
  with v show ?thesis by blast
qed

text \<open>C29: a federated login is bound to the browser that started it. If the callback of a provider answers with a session, the request's state is
  the one in the browser's state cookie, the browser has the secret cookie, the provider's connector resolved the code with that secret to a subject,
  and the session is that of the account linked to the provider and the subject. With an OpenID Connect connector (Google, Apple), the code was exchanged
  for an ID token that verifies under the provider's keys for this client, carries the secret as its nonce and names the subject; with the Zalo
  connector, which has no ID token, the code was exchanged with the secret as the PKCE verifier for an access token that the provider resolves to the subject.\<close>
theorem callback_binds_login:
  assumes "handleOIDCCallback svc cs profile fr eid provider rq w = (Inr resp, w')" "rp_Status resp = 200" "reading_sources svc"
  shows "\<exists>secret cn subject ses. hr_Query rq ''state'' \<noteq> '''' \<and> hr_Cookie rq stateCookie = Some (hr_Query rq ''state'')
    \<and> hr_Cookie rq secretCookie = Some secret \<and> secret \<noteq> '''' \<and> cs provider = Some cn
    \<and> cn_Resolve cn (hr_Query rq ''code'') secret = Inr subject \<and> subject \<noteq> '''' \<and> rp_Body resp = Some (sessionResponse ses)
    \<and> link (w_db w') \<lparr>pp_Kind = PrincipalFederated, pp_Provider = provider, pp_Subject = subject\<rparr> = Some (Subject (se_AccessClaims ses))
    \<and> (\<forall>lib c now s. cn = NewOIDCConnector lib c now s \<longrightarrow>
         (\<exists>raw claims s'. ov_exchange c (hr_Query rq ''code'') (ov_redirectURL c) = Inr raw
            \<and> oidc_Verify lib (ov_verifier c) now raw secret s = (Inr claims, s') \<and> oc_Nonce claims = secret \<and> oc_Subject claims = subject))
    \<and> (\<forall>z. cn = NewZaloConnector z \<longrightarrow>
         (\<exists>tok. zc_exchange z (hr_Query rq ''code'') (zc_redirectURL z) secret = Inr tok \<and> zc_userinfo z tok = Inr subject))"
proof -
  obtain secret cn subject ses where h: "hr_Query rq ''state'' \<noteq> ''''" "hr_Cookie rq stateCookie = Some (hr_Query rq ''state'')"
    "hr_Cookie rq secretCookie = Some secret" "secret \<noteq> ''''" "cs provider = Some cn" "cn_Resolve cn (hr_Query rq ''code'') secret = Inr subject"
    "subject \<noteq> ''''" "rp_Body resp = Some (sessionResponse ses)"
    "link (w_db w') \<lparr>pp_Kind = PrincipalFederated, pp_Provider = provider, pp_Subject = subject\<rparr> = Some (Subject (se_AccessClaims ses))"
    by (rule callback_session [OF assms(1-3)])
  have "\<exists>raw claims s'. ov_exchange c (hr_Query rq ''code'') (ov_redirectURL c) = Inr raw
      \<and> oidc_Verify lib (ov_verifier c) now raw secret s = (Inr claims, s') \<and> oc_Nonce claims = secret \<and> oc_Subject claims = subject"
    if "cn = NewOIDCConnector lib c now s" for lib c now s
    using oidc_Resolve_subject h(4,6) that by (simp add: NewOIDCConnector_def)
  moreover have "\<exists>tok. zc_exchange z (hr_Query rq ''code'') (zc_redirectURL z) secret = Inr tok \<and> zc_userinfo z tok = Inr subject"
    if "cn = NewZaloConnector z" for z
    using h(6) that by (auto simp: NewZaloConnector_def zalo_Resolve_def split: sum.splits)
  ultimately show ?thesis using h by blast
qed

section \<open>A login\<close>

definition demo_connector :: "unit OidcConnector" where
  "demo_connector = \<lparr>ov_verifier = demo_provider, ov_exchange = (\<lambda>_ _. Inr demo_id_token), ov_authURL = ''https://idp/auth'', ov_clientID = ''c'',
     ov_redirectURL = ''https://app/cb'', ov_scopes = [''openid'']\<rparr>"

definition demo_callback :: HttpReq where
  "demo_callback = \<lparr>hr_Method = ''GET'', hr_Path = [], hr_Query = (\<lambda>k. if k = ''code'' then ''x'' else ''st''), hr_Header = (\<lambda>_. ''''),
     hr_Cookie = (\<lambda>k. if k = stateCookie then Some ''st'' else Some ''n''), hr_Body = []\<rparr>"

definition demo_fed_world :: world where
  "demo_fed_world = demo_world (demo_login_db\<lparr>federated_identities :=
     [\<lparr>fi_Provider = ''google'', fi_Subject = ''s1'', fi_UserID = ''u1'', fi_CreatedAt = 0, fi_LastLogin = None\<rparr>]\<rparr>)"

definition demo_connectors :: Connectors where
  "demo_connectors = [''google'' \<mapsto> NewOIDCConnector demo_lib demo_connector (seconds 500) ()]"

lemma demo_Complete:
  "\<exists>ses w'. Complete (federation_of demo_sessions demo_connectors) (demo_fresh ''r1'') ''google'' ''x'' ''n'' demo_fed_world = (Inr ses, w')"
proof -
  let ?p = "\<lparr>pp_Kind = PrincipalFederated, pp_Provider = ''google'', pp_Subject = ''s1''\<rparr>"
  let ?w = "demo_fed_world\<lparr>w_db := (w_db demo_fed_world)\<lparr>federated_identities := update_rows (\<lambda>r. fi_Provider r = ''google'' \<and> fi_Subject r = ''s1'')
     (\<lambda>r. r\<lparr>fi_LastLogin := Some 0\<rparr>) (federated_identities (w_db demo_fed_world))\<rparr>\<rparr>"
  have "fst (oidc_Resolve demo_lib demo_connector (seconds 500) ''x'' ''n'' ()) = Inr ''s1''"
    by (simp add: oidc_Resolve_def demo_connector_def demo_oidc_Verify)
  then have c: "Complete (federation_of demo_sessions demo_connectors) (demo_fresh ''r1'') ''google'' ''x'' ''n''
      = Authenticate (fd_authn (federation_of demo_sessions demo_connectors)) (demo_fresh ''r1'') ?p ''''"
    by (simp add: Complete_def demo_connectors_def federation_of_def NewFederation_def NewOIDCConnector_def)
  have "federatedResolve (demo_fresh ''r1'') ?p '''' demo_fed_world = (Inr ''u1'', ?w)"
    by (simp add: federatedResolve_def GetFederatedIdentity_def q_GetFederatedIdentity_def TouchFederatedLogin_def q_TouchFederatedLogin_def io_defs
        demo_fed_world_def demo_world_def calm_def)
  moreover have "\<exists>ses w'. IssueSession demo_sessions ''r1'' ''r1'' ''r1'' ''u1'' ?w = (Inr ses, w') \<and> calm w'
    \<and> users (w_db w') = [demo_user ''u1''] \<and> identity_vault (w_db w') = [demo_vault]
    \<and> set (refresh_tokens (w_db w')) \<subseteq> set (refresh_tokens (w_db ?w)) \<union> {t. rt_ID t = ''r1'' \<and> rt_TokenHash t = ''r1''}
    \<and> phone_identities (w_db w') = phone_identities (w_db ?w)"
    by (rule demo_session_issued) (simp_all add: demo_fed_world_def demo_world_def demo_login_db_def empty_db_def calm_def)
  ultimately show ?thesis
    unfolding c by (auto simp: Authenticate_def federation_of_def NewFederation_def Register_def NewAuthenticator_def demo_fresh_def bind_def)
qed

theorem callback_binds_login_witness:
  "\<exists>resp w' raw claims. handleOIDCCallback demo_sessions demo_connectors False (demo_fresh ''r1'') ''e1'' ''google'' demo_callback demo_fed_world = (Inr resp, w')
     \<and> rp_Status resp = 200 \<and> ov_exchange demo_connector ''x'' ''https://app/cb'' = Inr raw
     \<and> oidc_Verify demo_lib demo_provider (seconds 500) raw ''n'' () = (Inr claims, ()) \<and> oc_Nonce claims = ''n''"
proof -
  obtain ses w1 where c: "Complete (federation_of demo_sessions demo_connectors) (demo_fresh ''r1'') ''google'' ''x'' ''n'' demo_fed_world = (Inr ses, w1)"
    using demo_Complete by blast
  have n: "stateCookie \<noteq> secretCookie" by (simp add: stateCookie_def secretCookie_def)
  have "\<exists>resp w'. handleOIDCCallback demo_sessions demo_connectors False (demo_fresh ''r1'') ''e1'' ''google'' demo_callback demo_fed_world = (Inr resp, w')
     \<and> rp_Status resp = 200"
    using c n by (simp add: handleOIDCCallback_def demo_callback_def with_cookies_def attempt_def signed_in_def recordLogin_def bind_def
        writeSession_def writeJSON_def respond_def ret_def)
  then obtain resp w' where r: "handleOIDCCallback demo_sessions demo_connectors False (demo_fresh ''r1'') ''e1'' ''google'' demo_callback demo_fed_world = (Inr resp, w')"
     "rp_Status resp = 200" by blast
  have s: "reading_sources demo_sessions" by (simp add: reading_sources_def demo_sessions_def)
  have g: "demo_connectors ''google'' = Some (NewOIDCConnector demo_lib demo_connector (seconds 500) ())" by (simp add: demo_connectors_def)
  obtain secret cn subject where c: "hr_Cookie demo_callback secretCookie = Some secret" "demo_connectors ''google'' = Some cn"
    and o: "\<forall>lib c now s. cn = NewOIDCConnector lib c now (s :: unit) \<longrightarrow> (\<exists>raw claims s'. ov_exchange c (hr_Query demo_callback ''code'') (ov_redirectURL c) = Inr raw
            \<and> oidc_Verify lib (ov_verifier c) now raw secret s = (Inr claims, s') \<and> oc_Nonce claims = secret \<and> oc_Subject claims = subject)"
    by (insert callback_binds_login [OF r s], elim exE conjE, rule that, assumption+)
  have "cn = NewOIDCConnector demo_lib demo_connector (seconds 500) ()" "secret = ''n''" using c g n by (simp_all add: demo_callback_def)
  then show ?thesis using o [rule_format, of demo_lib demo_connector "seconds 500" "()"] r by (auto simp: demo_callback_def demo_connector_def)
qed

end
