(* ===== verification/AuthHttp.thy ===== *)
theory AuthHttp
  imports ServiceHttp Federation StepUp
begin

text \<open>
  The HTTP surface of the authentication service: \<^verbatim>\<open>internal/auth/http.go\<close>, \<^verbatim>\<open>http_email.go\<close>, \<^verbatim>\<open>http_phone.go\<close>,
  \<^verbatim>\<open>http_identity.go\<close>, \<^verbatim>\<open>http_profile.go\<close>, the routes of \<^verbatim>\<open>http_stepup.go\<close> and \<^verbatim>\<open>http_oidc.go\<close>, and the adapter
  \<^verbatim>\<open>cmd/authd/ekyc.go\<close> to the verification vendor.

  A part that was not registered is absent from the record, and its routes from the table. The random values that one request
  draws are the record \<open>Draws\<close>. A request body is there in full; the limit of the callback's reader cuts it.
\<close>

section \<open>The verification bridge\<close>

abbreviation ErrWebhookSignature :: error where "ErrWebhookSignature \<equiv> Err ''auth: ekyc webhook signature invalid''"

definition EKYCSignatureHeader :: string where "EKYCSignatureHeader = ''X-EKYC-Signature''"

record ekycBridge =
  eb_id :: IdentitySvc
  eb_vn :: VNVerifier
  eb_hmac :: "bytes \<Rightarrow> bytes \<Rightarrow> bytes"
  eb_unmarshal :: "bytes \<Rightarrow> callback option"

definition BeginVerification :: "ekycBridge \<Rightarrow> string \<Rightarrow> string \<Rightarrow> (string \<times> string \<times> string) io" where
  "BeginVerification b uid region =
     bind (identity_Begin (eb_id b) uid region) (\<lambda>sr. ret (sr_Provider sr, sr_Ref sr, sr_RedirectURL sr))"

definition ApplyCallback :: "ekycBridge \<Rightarrow> bytes \<Rightarrow> string \<Rightarrow> unit io" where
  "ApplyCallback b body signature =
     (case ParseCallback (eb_hmac b) (eb_unmarshal b) (vn_webhookSecret (eb_vn b)) body signature of
        Inl _ \<Rightarrow> fail ErrWebhookSignature
      | Inr res \<Rightarrow> attempt (identity_Apply res) (\<lambda>r. case r of
          Inl err \<Rightarrow> if err = ErrUnderage \<or> err = ErrNotApproved then ret () else fail err
        | Inr _ \<Rightarrow> ret ()))"

section \<open>The handler\<close>

record AuthDecoders =
  ad_refresh :: "bytes \<Rightarrow> string option"
  ad_profile :: "bytes \<Rightarrow> (string \<times> string \<times> string) option"
  ad_email :: "bytes \<Rightarrow> string option"
  ad_emailVerify :: "bytes \<Rightarrow> (string \<times> string) option"
  ad_phone :: "bytes \<Rightarrow> string option"
  ad_phoneVerify :: "bytes \<Rightarrow> (string \<times> string) option"
  ad_tos :: "bytes \<Rightarrow> bool option"
  ad_begin :: "bytes \<Rightarrow> string option"
  ad_stepup :: "bytes \<Rightarrow> string option"

record AuthHandler =
  ah_svc :: AuthSvc
  ah_store :: Store
  ah_validate :: validator
  ah_sha256 :: "bytes \<Rightarrow> bytes"
  ah_oidc :: "Connectors option"
  ah_email :: "EmailLogin option"
  ah_phone :: "PhoneLogin option"
  ah_identity :: bool
  ah_ekyc :: "ekycBridge option"
  ah_profile :: bool
  ah_stepup :: "StepUpSvc option"
  ah_dec :: AuthDecoders

record Draws =
  dr_ID :: string
  dr_Code :: string
  dr_EventID :: string
  dr_Raw :: string
  dr_State :: string
  dr_Secret :: string
  dr_Fresh :: Fresh

section \<open>Sessions and the account\<close>

definition maxRefreshTokenLen :: nat where "maxRefreshTokenLen = 512"

definition handleRefresh :: "AuthHandler \<Rightarrow> Draws \<Rightarrow> HttpReq \<Rightarrow> Response io" where
  "handleRefresh h dr rq =
     decodeJSON (ad_refresh (ah_dec h)) rq (\<lambda>token.
       if token = '''' \<or> length token > maxRefreshTokenLen then writeError 400 ''invalid refresh token''
       else let fr = dr_Fresh dr in
         attempt (Refresh (ah_svc h) (fr_Secret fr) (fr_TokenID fr) (fr_JTI fr) token) (\<lambda>r. case r of
           Inl err \<Rightarrow> writeSessionError err
         | Inr sess \<Rightarrow> writeSession sess))"

definition handleLogout :: "AuthHandler \<Rightarrow> HttpReq \<Rightarrow> AccessTokenClaims \<Rightarrow> Response io" where
  "handleLogout h rq claims =
     decodeJSON (ad_refresh (ah_dec h)) rq (\<lambda>token.
       if length token > maxRefreshTokenLen then writeError 400 ''invalid refresh token''
       else done_or (\<lambda>_. writeError 500 ''logout failed'') (Logout (ah_svc h) token (TokenID claims) (seconds (ExpiresAt claims))))"

definition handleMe :: "AccessTokenClaims \<Rightarrow> Response io" where
  "handleMe claims =
     writeJSON 200 (JObj [(''userId'', JStr (Subject claims)), (''identityVerification'', JStr (IdentityVerification claims)),
       (''capabilities'', JArr (map JStr (Capabilities claims)))])"

definition handleUpdateProfile :: "AuthHandler \<Rightarrow> HttpReq \<Rightarrow> AccessTokenClaims \<Rightarrow> Response io" where
  "handleUpdateProfile h rq claims =
     decodeJSON (ad_profile (ah_dec h)) rq (\<lambda>(handle, displayName, bio).
       done_or (\<lambda>err.
           if err = ErrInvalidProfile then writeError 400 ''invalid profile''
           else if err = ErrHandleTaken then writeError 409 ''handle already taken''
           else writeError 500 ''could not update profile'')
         (auth_UpdateProfile (Subject claims) handle displayName bio))"

definition handleLogoutAll :: "AccessTokenClaims \<Rightarrow> Response io" where
  "handleLogoutAll claims = done_or (\<lambda>_. writeError 500 ''logout-all failed'') (LogoutEverywhere (Subject claims))"

definition handleBecomeInstructor :: "AuthHandler \<Rightarrow> AccessTokenClaims \<Rightarrow> Response io" where
  "handleBecomeInstructor h claims =
     done_or (\<lambda>err. if err = ErrNotVerified then writeError 403 ''requires verified identity'' else writeError 500 ''could not grant instructor'')
       (BecomeInstructor (ah_store h) claims)"

definition handleCloseAccount :: "AccessTokenClaims \<Rightarrow> Response io" where
  "handleCloseAccount claims = done_or (\<lambda>_. writeError 500 ''could not close account'') (auth_CloseAccount (Subject claims))"

section \<open>Codes by email and by phone\<close>

definition maxEmailLen :: nat where "maxEmailLen = 320"
definition maxPhoneLen :: nat where "maxPhoneLen = 24"

definition handleEmailRequest :: "AuthHandler \<Rightarrow> EmailLogin \<Rightarrow> Draws \<Rightarrow> HttpReq \<Rightarrow> Response io" where
  "handleEmailRequest h el dr rq =
     decodeJSON (ad_email (ah_dec h)) rq (\<lambda>email.
       if email = '''' \<or> length email > maxEmailLen then writeError 400 ''invalid email''
       else attempt (email_RequestCode el (dr_ID dr) (dr_Code dr) email) (\<lambda>r. case r of
         Inl err \<Rightarrow> if err = errBadEmail then writeError 400 ''invalid email'' else writeError 500 ''could not send code''
       | Inr _ \<Rightarrow> writeHeader 202))"

definition handleEmailVerify :: "AuthHandler \<Rightarrow> EmailLogin \<Rightarrow> Draws \<Rightarrow> HttpReq \<Rightarrow> Response io" where
  "handleEmailVerify h el dr rq =
     decodeJSON (ad_emailVerify (ah_dec h)) rq (\<lambda>(email, code).
       if email = '''' \<or> length email > maxEmailLen \<or> code = '''' \<or> length code > 16 then writeError 400 ''invalid request''
       else attempt (email_VerifyCode el (dr_Fresh dr) email code) (\<lambda>r. case r of
         Inl err \<Rightarrow> if err = ErrInvalidCode then writeError 401 ''invalid or expired code'' else writeSessionError err
       | Inr sess \<Rightarrow> signed_in (ah_profile h) (dr_EventID dr) ''email'' sess))"

definition handlePhoneRequest :: "AuthHandler \<Rightarrow> PhoneLogin \<Rightarrow> Draws \<Rightarrow> HttpReq \<Rightarrow> Response io" where
  "handlePhoneRequest h pl dr rq =
     decodeJSON (ad_phone (ah_dec h)) rq (\<lambda>phone.
       if phone = '''' \<or> length phone > maxPhoneLen then writeError 400 ''invalid phone''
       else attempt (phone_RequestCode pl (dr_ID dr) (dr_Code dr) phone) (\<lambda>r. case r of
         Inl err \<Rightarrow> if err = errBadPhone then writeError 400 ''invalid phone'' else writeError 500 ''could not send code''
       | Inr _ \<Rightarrow> writeHeader 202))"

text \<open>The second half of the verification, for the signed-in user \<open>cur\<close> or for nobody.\<close>

definition phone_verify_as :: "AuthHandler \<Rightarrow> PhoneLogin \<Rightarrow> Draws \<Rightarrow> string \<Rightarrow> string \<Rightarrow> string \<Rightarrow> Response io" where
  "phone_verify_as h pl dr phone code cur =
     attempt (phone_VerifyCode pl (dr_Fresh dr) phone code cur) (\<lambda>r. case r of
       Inl err \<Rightarrow>
         if err = ErrInvalidCode then writeError 401 ''invalid or expired code''
         else if err = ErrPhoneConflict then writeError 409 ''phone already in use''
         else writeSessionError err
     | Inr sess \<Rightarrow> signed_in (ah_profile h) (dr_EventID dr) ''phone'' sess)"

definition handlePhoneVerify :: "AuthHandler \<Rightarrow> PhoneLogin \<Rightarrow> Draws \<Rightarrow> HttpReq \<Rightarrow> Response io" where
  "handlePhoneVerify h pl dr rq =
     decodeJSON (ad_phoneVerify (ah_dec h)) rq (\<lambda>(phone, code).
       if phone = '''' \<or> length phone > maxPhoneLen \<or> code = '''' \<or> length code > 16 then writeError 400 ''invalid request''
       else case bearer (hr_Header rq ''Authorization'') of
              Some raw \<Rightarrow> attempt (ah_validate h raw) (\<lambda>v. case v of
                Inl _ \<Rightarrow> writeError 401 ''invalid token''
              | Inr claims \<Rightarrow> phone_verify_as h pl dr phone code (Subject claims))
            | None \<Rightarrow> phone_verify_as h pl dr phone code '''')"

section \<open>Adult verification\<close>

definition handleToSAccept :: "AuthHandler \<Rightarrow> HttpReq \<Rightarrow> AccessTokenClaims \<Rightarrow> Response io" where
  "handleToSAccept h rq claims =
     decodeJSON (ad_tos (ah_dec h)) rq (\<lambda>adultAttested.
       done_or (\<lambda>_. writeError 500 ''could not record acceptance'') (identity_AcceptToS (Subject claims) CurrentToSVersion adultAttested))"

definition handleVerifyBegin :: "AuthHandler \<Rightarrow> ekycBridge \<Rightarrow> HttpReq \<Rightarrow> AccessTokenClaims \<Rightarrow> Response io" where
  "handleVerifyBegin h b rq claims =
     decodeJSON (ad_begin (ah_dec h)) rq (\<lambda>region.
       attempt (BeginVerification b (Subject claims) (if region = '''' then ''default'' else region)) (\<lambda>r. case r of
         Inl _ \<Rightarrow> writeError 500 ''could not start verification''
       | Inr (provider, ref, redirect) \<Rightarrow>
           writeJSON 200 (JObj [(''provider'', JStr provider), (''redirectUrl'', JStr redirect), (''ref'', JStr ref)])))"

definition handleVerifyCallback :: "ekycBridge \<Rightarrow> HttpReq \<Rightarrow> Response io" where
  "handleVerifyCallback b rq =
     done_or (\<lambda>err. if err = ErrWebhookSignature then writeError 401 ''invalid signature'' else writeError 500 ''callback failed'')
       (ApplyCallback b (take MiB (hr_Body rq)) (hr_Header rq EKYCSignatureHeader))"

section \<open>The profile\<close>

text \<open>The frame of the reading endpoints: 501 without the store, 500 with a message when the read fails.\<close>

definition me_read :: "AuthHandler \<Rightarrow> string \<Rightarrow> 'a io \<Rightarrow> ('a \<Rightarrow> json) \<Rightarrow> Response io" where
  "me_read h failed m view =
     (if \<not> ah_profile h then writeError 501 ''not configured''
      else attempt m (\<lambda>r. case r of Inl _ \<Rightarrow> writeError 500 failed | Inr x \<Rightarrow> writeJSON 200 (view x)))"

definition handleMeIdentities :: "AuthHandler \<Rightarrow> AccessTokenClaims \<Rightarrow> Response io" where
  "handleMeIdentities h claims =
     me_read h ''could not load identities'' (GetIdentityFactors (Subject claims)) (\<lambda>f.
       JObj [(''email'', jopt JStr (if_Email f)), (''federated'', JArr (map JStr (if_Federated f))), (''phone'', jopt JStr (if_Phone f))])"

text \<open>Whole minutes between joining and leaving, never negative.\<close>

definition duration_minutes :: "instant \<Rightarrow> instant \<Rightarrow> int" where
  "duration_minutes joined left = max 0 ((left - joined) div minutes 1)"

definition sessionHistoryItem :: "SessionEntry \<Rightarrow> json" where
  "sessionHistoryItem e =
     JObj [(''sessionId'', JStr (se_SessionID e)), (''kind'', JStr (se_Kind e)), (''status'', JStr (se_Status e)), (''role'', JStr (se_Role e)),
       (''joinedAt'', jtime (se_JoinedAt e)), (''leftAt'', jopt jtime (se_LeftAt e)), (''classId'', jopt JStr (se_ClassID e)),
       (''classTitle'', jopt JStr (se_ClassTitle e)), (''scheduledStart'', jopt jtime (se_ScheduledStart e)),
       (''durationMinutes'', jopt (\<lambda>t. JNum (duration_minutes (se_JoinedAt e) t)) (se_LeftAt e))]"

definition handleMeSessions :: "AuthHandler \<Rightarrow> AccessTokenClaims \<Rightarrow> Response io" where
  "handleMeSessions h claims =
     me_read h ''could not load sessions'' (ListSessionHistory (Subject claims)) (\<lambda>es. JObj [(''sessions'', JArr (map sessionHistoryItem es))])"

definition consentHistoryItem :: "ConsentRow \<Rightarrow> json" where
  "consentHistoryItem e = JObj [(''id'', JStr (cn_ID e)), (''sessionId'', JStr (cn_SessionID e)), (''purpose'', JStr (cn_Purpose e)),
     (''granted'', JBool (cn_Granted e)), (''grantedAt'', jtime (cn_GrantedAt e))]"

definition handleMeConsents :: "AuthHandler \<Rightarrow> AccessTokenClaims \<Rightarrow> Response io" where
  "handleMeConsents h claims =
     me_read h ''could not load consents'' (ListConsentHistory (Subject claims)) (\<lambda>es. JObj [(''consents'', JArr (map consentHistoryItem es))])"

definition loginEventItem :: "LoginEvent \<Rightarrow> json" where
  "loginEventItem e = JObj [(''id'', JStr (le_ID e)), (''method'', JStr (le_Method e)), (''createdAt'', jtime (le_CreatedAt e))]"

definition handleMeLoginEvents :: "AuthHandler \<Rightarrow> AccessTokenClaims \<Rightarrow> Response io" where
  "handleMeLoginEvents h claims =
     me_read h ''could not load login events'' (ListLoginEvents (Subject claims)) (\<lambda>es. JObj [(''events'', JArr (map loginEventItem es))])"

definition progressItem :: "ClassProgress \<Rightarrow> json" where
  "progressItem p = JObj [(''classId'', JStr (cp_ClassID p)), (''title'', JStr (cp_Title p)),
     (''totalSessions'', JNum (int (cp_TotalSessions p))), (''attended'', JNum (int (cp_Attended p)))]"

definition handleMeProgress :: "AuthHandler \<Rightarrow> AccessTokenClaims \<Rightarrow> Response io" where
  "handleMeProgress h claims =
     me_read h ''could not load progress'' (ListClassProgress (Subject claims)) (\<lambda>ps. JObj [(''progress'', JArr (map progressItem ps))])"

definition completionItem :: "ClassCompletion \<Rightarrow> json" where
  "completionItem c = JObj [(''classId'', JStr (cc_ClassID c)), (''title'', JStr (cc_Title c)), (''instructorName'', JStr (cc_InstructorName c)),
     (''totalSessions'', JNum (int (cc_TotalSessions c))), (''endedSessions'', JNum (int (cc_EndedSessions c))),
     (''attendedEnded'', JNum (int (cc_AttendedEnded c))), (''complete'', JBool (cc_Complete c)), (''completedAt'', jopt jtime (cc_CompletedAt c))]"

definition handleMeCompletions :: "AuthHandler \<Rightarrow> AccessTokenClaims \<Rightarrow> Response io" where
  "handleMeCompletions h claims =
     (if \<not> ah_profile h then writeError 501 ''not configured''
      else attempt (GetUser (Subject claims)) (\<lambda>r. case r of
        Inl _ \<Rightarrow> writeError 500 ''could not load profile''
      | Inr user \<Rightarrow> me_read h ''could not load completions'' (ListClassCompletions (Subject claims)) (\<lambda>cs.
          JObj [(''completions'', JArr (map completionItem cs)), (''learnerName'', JStr (u_DisplayName user))])))"

section \<open>Routes\<close>

definition core_routes :: "AuthHandler \<Rightarrow> Draws \<Rightarrow> route list" where
  "core_routes h dr =
     (let v1 = Lit ''v1''; me = Lit ''me''; auth = requireAuth (ah_validate h) in
      [(''POST'', [v1, Lit ''token'', Lit ''refresh''], \<lambda>_ rq. handleRefresh h dr rq),
       (''POST'', [v1, Lit ''token'', Lit ''logout''], \<lambda>_ rq. auth rq (handleLogout h rq)),
       (''POST'', [v1, Lit ''token'', Lit ''logout-all''], \<lambda>_ rq. auth rq handleLogoutAll),
       (''GET'', [v1, me], \<lambda>_ rq. auth rq handleMe),
       (''PATCH'', [v1, me], \<lambda>_ rq. auth rq (handleUpdateProfile h rq)),
       (''DELETE'', [v1, me], \<lambda>_ rq. auth rq handleCloseAccount),
       (''POST'', [v1, Lit ''instructor'', Lit ''apply''], \<lambda>_ rq. auth rq (handleBecomeInstructor h)),
       (''GET'', [v1, me, Lit ''identities''], \<lambda>_ rq. auth rq (handleMeIdentities h)),
       (''GET'', [v1, me, Lit ''sessions''], \<lambda>_ rq. auth rq (handleMeSessions h)),
       (''GET'', [v1, me, Lit ''consents''], \<lambda>_ rq. auth rq (handleMeConsents h)),
       (''GET'', [v1, me, Lit ''login-events''], \<lambda>_ rq. auth rq (handleMeLoginEvents h)),
       (''GET'', [v1, me, Lit ''progress''], \<lambda>_ rq. auth rq (handleMeProgress h)),
       (''GET'', [v1, me, Lit ''completions''], \<lambda>_ rq. auth rq (handleMeCompletions h))])"

definition oidc_routes :: "AuthHandler \<Rightarrow> Draws \<Rightarrow> route list" where
  "oidc_routes h dr =
     (case ah_oidc h of None \<Rightarrow> []
      | Some cs \<Rightarrow>
          let p = [Lit ''v1'', Lit ''auth'', Lit ''oidc'', Wild] in
          [(''GET'', p @ [Lit ''start''], \<lambda>vs rq. handleOIDCStart (ah_sha256 h) cs (dr_State dr) (dr_Secret dr) (vs ! 0)),
           (''GET'', p @ [Lit ''callback''], \<lambda>vs rq. handleOIDCCallback (ah_svc h) cs (ah_profile h) (dr_Fresh dr) (dr_EventID dr) (vs ! 0) rq)])"

definition email_routes :: "AuthHandler \<Rightarrow> Draws \<Rightarrow> route list" where
  "email_routes h dr =
     (case ah_email h of None \<Rightarrow> []
      | Some el \<Rightarrow>
          let p = [Lit ''v1'', Lit ''auth'', Lit ''email''] in
          [(''POST'', p @ [Lit ''request''], \<lambda>_ rq. handleEmailRequest h el dr rq),
           (''POST'', p @ [Lit ''verify''], \<lambda>_ rq. handleEmailVerify h el dr rq)])"

definition phone_routes :: "AuthHandler \<Rightarrow> Draws \<Rightarrow> route list" where
  "phone_routes h dr =
     (case ah_phone h of None \<Rightarrow> []
      | Some pl \<Rightarrow>
          let p = [Lit ''v1'', Lit ''auth'', Lit ''phone''] in
          [(''POST'', p @ [Lit ''request''], \<lambda>_ rq. handlePhoneRequest h pl dr rq),
           (''POST'', p @ [Lit ''verify''], \<lambda>_ rq. handlePhoneVerify h pl dr rq)])"

definition identity_routes :: "AuthHandler \<Rightarrow> route list" where
  "identity_routes h =
     (if \<not> ah_identity h then []
      else let p = [Lit ''v1'', Lit ''identity'']; auth = requireAuth (ah_validate h) in
        (''POST'', p @ [Lit ''tos-accept''], \<lambda>_ rq. auth rq (handleToSAccept h rq))
        # (case ah_ekyc h of None \<Rightarrow> []
           | Some b \<Rightarrow>
               [(''POST'', p @ [Lit ''verify'', Lit ''begin''], \<lambda>_ rq. auth rq (handleVerifyBegin h b rq)),
                (''POST'', p @ [Lit ''verify'', Lit ''callback''], \<lambda>_ rq. handleVerifyCallback b rq)]))"

definition stepup_routes :: "AuthHandler \<Rightarrow> Draws \<Rightarrow> route list" where
  "stepup_routes h dr =
     (if ah_stepup h = None then []
      else let p = [Lit ''v1'', Lit ''me'']; auth = requireAuth (ah_validate h) in
        [(''POST'', p @ [Lit ''stepup'', Lit ''request''], \<lambda>_ rq. auth rq (handleStepUpRequest (ah_stepup h) (dr_ID dr) (dr_Code dr))),
         (''POST'', p @ [Lit ''stepup'', Lit ''verify''],
            \<lambda>_ rq. auth rq (handleStepUpVerify (ah_stepup h) (ad_stepup (ah_dec h)) (dr_Raw dr) (dr_ID dr) rq)),
         (''GET'', p @ [Lit ''data-export''], \<lambda>_ rq. auth rq (handleDataExport (ah_stepup h) rq))])"

definition auth_routes :: "AuthHandler \<Rightarrow> Draws \<Rightarrow> route list" where
  "auth_routes h dr = core_routes h dr @ oidc_routes h dr @ email_routes h dr @ phone_routes h dr @ identity_routes h @ stepup_routes h dr"

section \<open>Asking for a code tells nothing about accounts\<close>

text \<open>An operation is blind to a change \<open>g\<close> of the tables when it does the same with and without it.\<close>

abbreviation changed :: "(db \<Rightarrow> db) \<Rightarrow> world \<Rightarrow> world" where
  "changed g w \<equiv> w\<lparr>w_db := g (w_db w)\<rparr>"

definition blind :: "(db \<Rightarrow> db) \<Rightarrow> 'a io \<Rightarrow> bool" where
  "blind g m \<longleftrightarrow> (\<forall>w. m (changed g w) = (fst (m w), changed g (snd (m w))))"

definition blind_stmt :: "(db \<Rightarrow> db) \<Rightarrow> 'a stmt \<Rightarrow> bool" where
  "blind_stmt g s \<longleftrightarrow> (\<forall>now d. s now (g d) = map_sum id (map_prod id g) (s now d))"

named_theorems blind_rules \<open>operations that do not look at the accounts\<close>

lemma blind_basic [blind_rules]:
  "blind g (ret x)" "blind g (fail e)" "blind g goNow" "blind g (send_code send a c)"
  "blind g (writeJSON st v)" "blind g (writeError st msg)" "blind g (writeHeader st)"
  by (simp_all add: blind_def ret_def fail_def goNow_def send_code_def writeJSON_def writeError_def writeHeader_def)

lemma blind_bind [blind_rules]: "blind g m \<Longrightarrow> (\<And>x. blind g (f x)) \<Longrightarrow> blind g (bind m f)"
  by (auto simp: blind_def bind_def split: prod.splits sum.splits)

lemma blind_attempt [blind_rules]: "blind g m \<Longrightarrow> (\<And>r. blind g (f r)) \<Longrightarrow> blind g (attempt m f)"
  by (auto simp: blind_def attempt_def split: prod.splits)

lemma blind_pg [blind_rules]:
  assumes "blind_stmt g s"
  shows "blind g (pg s)"
proof -
  have "take_fault (changed g w) = map_prod id (changed g) (take_fault w)" for w by (cases "w_faults w") (simp_all add: take_fault_def)
  then show ?thesis
    using assms by (auto simp: blind_def blind_stmt_def pg_def split: prod.splits sum.splits)
qed

lemma blind_cases [blind_rules]:
  "blind g a \<Longrightarrow> blind g b \<Longrightarrow> blind g (if c then a else b)"
  "(\<And>e. blind g (p e)) \<Longrightarrow> (\<And>x. blind g (q x)) \<Longrightarrow> blind g (case s of Inl e \<Rightarrow> p e | Inr x \<Rightarrow> q x)"
  "blind g a \<Longrightarrow> (\<And>x. blind g (q x)) \<Longrightarrow> blind g (case o' of None \<Rightarrow> a | Some x \<Rightarrow> q x)"
  by (simp_all split: sum.splits option.splits)

text \<open>Other account tables: users, vault, and the three kinds of links.\<close>

definition with_accounts ::
  "User list \<Rightarrow> IdentityVault list \<Rightarrow> EmailIdentity list \<Rightarrow> PhoneIdentity list \<Rightarrow> FederatedIdentity list \<Rightarrow> db \<Rightarrow> db" where
  "with_accounts us vs es ps fs d =
     d\<lparr>users := us, identity_vault := vs, email_identities := es, phone_identities := ps, federated_identities := fs\<rparr>"

lemma blind_row: "row x (with_accounts us vs es ps fs d) = map_sum id (map_prod id (with_accounts us vs es ps fs)) (row x d)"
  by (cases x) simp_all

lemma blind_challenges [blind_rules]:
  "blind_stmt (with_accounts us vs es ps fs) (q_GetActiveLoginChallenge a)" "blind_stmt (with_accounts us vs es ps fs) (q_GetActivePhoneChallenge a)"
  "blind_stmt (with_accounts us vs es ps fs) (q_CreateLoginChallenge i a h t)" "blind_stmt (with_accounts us vs es ps fs) (q_CreatePhoneChallenge i a h t)"
proof -
  have c: "login_challenges (with_accounts us vs es ps fs d) = login_challenges d" "phone_challenges (with_accounts us vs es ps fs d) = phone_challenges d" for d
    by (simp_all add: with_accounts_def)
  show "blind_stmt (with_accounts us vs es ps fs) (q_GetActiveLoginChallenge a)" "blind_stmt (with_accounts us vs es ps fs) (q_GetActivePhoneChallenge a)"
    by (simp_all add: blind_stmt_def q_GetActiveLoginChallenge_def q_GetActivePhoneChallenge_def c blind_row)
  show "blind_stmt (with_accounts us vs es ps fs) (q_CreateLoginChallenge i a h t)" "blind_stmt (with_accounts us vs es ps fs) (q_CreatePhoneChallenge i a h t)"
    by (simp_all add: blind_stmt_def q_CreateLoginChallenge_def q_CreatePhoneChallenge_def c) (simp_all add: with_accounts_def)
qed

lemma blind_requests:
  "blind (with_accounts us vs es ps fs) (handleEmailRequest h el dr rq)"
  "blind (with_accounts us vs es ps fs) (handlePhoneRequest h pl dr rq)"
  unfolding handleEmailRequest_def handlePhoneRequest_def decodeJSON_def email_RequestCode_def phone_RequestCode_def otp_cooling_def
    GetActiveLoginChallenge_def GetActivePhoneChallenge_def CreateLoginChallenge_def CreatePhoneChallenge_def
  by (intro blind_rules)+

text \<open>C32: asking for a login code does not tell whether an account exists. Whatever users, identity records and linked addresses the
  database holds, the endpoints for email and phone codes give the same response and send the same messages.\<close>
theorem code_requests_reveal_nothing:
  "fst (handleEmailRequest h el dr rq (w\<lparr>w_db := with_accounts us vs es ps fs (w_db w)\<rparr>)) = fst (handleEmailRequest h el dr rq w)
   \<and> w_outbox (snd (handleEmailRequest h el dr rq (w\<lparr>w_db := with_accounts us vs es ps fs (w_db w)\<rparr>))) = w_outbox (snd (handleEmailRequest h el dr rq w))
   \<and> fst (handlePhoneRequest h pl dr rq (w\<lparr>w_db := with_accounts us vs es ps fs (w_db w)\<rparr>)) = fst (handlePhoneRequest h pl dr rq w)
   \<and> w_outbox (snd (handlePhoneRequest h pl dr rq (w\<lparr>w_db := with_accounts us vs es ps fs (w_db w)\<rparr>))) = w_outbox (snd (handlePhoneRequest h pl dr rq w))"
  using blind_requests [unfolded blind_def] by simp

section \<open>The vendor's callback over HTTP\<close>

text \<open>C33: only the verification vendor verifies accounts. If the callback endpoint changes the database, the signature header is the
  keyed hash of the body that was read, and that body is an approval of an adult for the account it names.\<close>
theorem callback_endpoint_authentic:
  assumes "handleVerifyCallback b rq w = (Inr resp, w')" "w_db w' \<noteq> w_db w"
  shows "hex_decode (hr_Header rq EKYCSignatureHeader) = Some (eb_hmac b (vn_webhookSecret (eb_vn b)) (take MiB (hr_Body rq)))
    \<and> (\<exists>c. eb_unmarshal b (take MiB (hr_Body rq)) = Some c \<and> cb_CorrelationID c \<noteq> '''' \<and> cb_Result c = ''approved'' \<and> cb_Over18 c)"
proof -
  define body where "body = take MiB (hr_Body rq)"
  define sig where "sig = hr_Header rq EKYCSignatureHeader"
  obtain r w1 where a: "ApplyCallback b body sig w = (r, w1)" by force
  then have "w_db w1 = w_db w'"
    using assms(1) by (auto simp: handleVerifyCallback_def done_or_def attempt_def body_def sig_def writeError_def writeJSON_def writeHeader_def ret_def
        split: sum.splits if_splits)
  with assms(2) have ch: "w_db w1 \<noteq> w_db w" by simp
  obtain res where p: "ParseCallback (eb_hmac b) (eb_unmarshal b) (vn_webhookSecret (eb_vn b)) body sig = Inr res"
    using a ch by (auto simp: ApplyCallback_def fail_def split: sum.splits)
  have "re_Approved res \<and> re_IsAdult res"
  proof (rule ccontr)
    assume "\<not> ?thesis"
    then obtain e where e: "identity_Apply res w = (Inl e, w)" using identity_Apply_refuses by blast
    have "w1 = w" using a by (auto simp: ApplyCallback_def p attempt_def e ret_def fail_def split: if_splits)
    with ch show False by simp
  qed
  with ParseCallback_authentic [OF p] show ?thesis unfolding body_def sig_def by metis
qed

definition demo_bridge :: ekycBridge where
  "demo_bridge = \<lparr>eb_id = \<lparr>is_providers = Map.empty\<rparr>, eb_vn = \<lparr>vn_client = (\<lambda>_. Inl (Err '''')), vn_webhookSecret = ''k''\<rparr>, eb_hmac = (\<lambda>k b. ''A''),
     eb_unmarshal = (\<lambda>_. Some \<lparr>cb_CorrelationID = ''u1'', cb_Reference = ''ref'', cb_Result = ''approved'', cb_Over18 = True\<rparr>)\<rparr>"

definition demo_vendor_call :: HttpReq where
  "demo_vendor_call = \<lparr>hr_Method = ''POST'', hr_Path = [], hr_Query = (\<lambda>_. ''''), hr_Header = (\<lambda>_. ''41''), hr_Cookie = (\<lambda>_. None), hr_Body = []\<rparr>"

theorem callback_endpoint_authentic_witness:
  "\<exists>resp w'. handleVerifyCallback demo_bridge demo_vendor_call (demo_world demo_login_db) = (Inr resp, w') \<and> w_db w' \<noteq> demo_login_db
    \<and> hex_decode ''41'' = Some (eb_hmac demo_bridge ''k'' [])"
proof -
  let ?w = "demo_world demo_login_db"
  have c: "char_of (65 :: nat) = CHR ''A''" by code_simp
  have "\<exists>resp w'. handleVerifyCallback demo_bridge demo_vendor_call ?w = (Inr resp, w') \<and> map iv_IsAdult (identity_vault (w_db w')) = [True]"
    by (simp add: handleVerifyCallback_def demo_bridge_def demo_vendor_call_def ApplyCallback_def ParseCallback_def hex_val_def byte_def done_or_def
        identity_Apply_def VerifyAdultIdentity_def q_VerifyAdultIdentity_def update_identity_def downgrade_trigger_def ActivateUser_def q_ActivateUser_def update_user_def
        writeHeader_def io_defs demo_login_defs calm_def user_exists_def verified_adult_def c)
  then obtain resp w' where r: "handleVerifyCallback demo_bridge demo_vendor_call ?w = (Inr resp, w')" and "map iv_IsAdult (identity_vault (w_db w')) = [True]" by (elim exE conjE)
  then have d: "w_db w' \<noteq> w_db ?w" by (auto simp: demo_world_def demo_login_db_def demo_vault_def)
  from callback_endpoint_authentic [OF r d] r d show ?thesis
    by (simp add: demo_vendor_call_def demo_world_def) (auto simp: demo_bridge_def)
qed

end
