(* ===== verification/RecordingHttp.thy ===== *)
theory RecordingHttp
  imports Outbound Recordings
begin

text \<open>
  The HTTP surface of the recording service (\<^verbatim>\<open>internal/recording/http.go\<close>): the host's controls, the playback listing, the
  serving check of nginx and the webhook of the media server, the last two over the definitions of theory \<open>Playback\<close>, whose
  process-local memory they carry.

  A request target that does not start with a slash, which nginx does not send, is parsed by a parameter.
\<close>

section \<open>Replies\<close>

definition recordingJSON :: "Recording \<Rightarrow> (string \<times> json) list" where
  "recordingJSON r = [(''id'', JStr (rc_ID r)), (''sessionId'', JStr (rc_SessionID r)), (''status'', JStr (rc_Status r)),
     (''startedAt'', JNum (unix (rc_StartedAt r)))]
     @ (if coalesce (rc_OutputURI r) \<noteq> '''' then [(''outputUri'', JStr (coalesce (rc_OutputURI r)))] else [])
     @ (case rc_EndedAt r of None \<Rightarrow> [] | Some t \<Rightarrow> [(''endedAt'', JNum (unix t))])"

definition rec_writeServiceErr :: "error \<Rightarrow> Response io" where
  "rec_writeServiceErr err =
     (if err = rec_ErrForbidden then writeError 403 ''host only''
      else if err = rec_ErrNotFound then writeError 404 ''session not found''
      else if err = rec_ErrSessionEnded then writeError 409 ''session already ended''
      else if err = ErrConsentRequired then writeError 403 ''not all present participants have consented''
      else if err = ErrAlreadyRecording then writeError 409 ''already recording''
      else if err = ErrNotRecording then writeError 409 ''no recording in flight''
      else if err = ErrCapacity then writeError 503 ''recording capacity reached, try again later''
      else if err = ErrStartRateLimited then writeError 429 ''starting recordings too frequently, slow down''
      else writeError 500 ''internal error'')"

section \<open>Controls and listings\<close>

definition rec_start :: "RecHandler \<Rightarrow> string \<Rightarrow> string \<Rightarrow> AccessTokenClaims \<Rightarrow> Response io" where
  "rec_start h nid sessionID claims =
     attempt (recording_Start (rh_svc h) nid claims sessionID) (\<lambda>r. case r of
       Inl err \<Rightarrow> rec_writeServiceErr err
     | Inr rec \<Rightarrow> writeJSON 202 (JObj (recordingJSON rec)))"

definition rec_stop :: "RecHandler \<Rightarrow> string \<Rightarrow> AccessTokenClaims \<Rightarrow> Response io" where
  "rec_stop h sessionID claims = done_or rec_writeServiceErr (recording_Stop (rh_svc h) claims sessionID)"

definition rec_list :: "string \<Rightarrow> AccessTokenClaims \<Rightarrow> Response io" where
  "rec_list sessionID claims =
     attempt (recording_List claims sessionID) (\<lambda>r. case r of
       Inl err \<Rightarrow> rec_writeServiceErr err
     | Inr recs \<Rightarrow> writeJSON 200 (JObj [(''recordings'', JArr (map (\<lambda>rec. JObj (recordingJSON rec)) recs))]))"

definition playback_item :: "RecHandler \<Rightarrow> instant \<Rightarrow> string \<Rightarrow> Recording \<Rightarrow> json" where
  "playback_item h now subject rec =
     (let u = playbackURL h now rec subject in JObj (recordingJSON rec @ (if u \<noteq> '''' then [(''playbackUrl'', JStr u)] else [])))"

definition rec_playback :: "RecHandler \<Rightarrow> string \<Rightarrow> AccessTokenClaims \<Rightarrow> Response io" where
  "rec_playback h sessionID claims =
     (let listing = attempt (ListCompleted sessionID) (\<lambda>r. case r of
            Inl _ \<Rightarrow> writeError 500 ''internal error''
          | Inr recs \<Rightarrow> bind goNow (\<lambda>now. writeJSON 200 (JObj [(''recordings'', JArr (map (playback_item h now (Subject claims)) recs))])))
      in if rh_entitlements h
         then attempt (EnsureRecordingAccess (Subject claims) sessionID) (\<lambda>r. case r of
                Inr _ \<Rightarrow> listing
              | Inl err \<Rightarrow>
                  if err = ErrPaymentRequired then writeError 402 ''this recording requires purchase''
                  else if err = ErrSessionNotFound then writeError 404 ''session not found''
                  else writeError 500 ''internal error'')
         else listing)"

section \<open>The serving check\<close>

fun PathUnescape :: "string \<Rightarrow> string option" where
  "PathUnescape [] = Some []"
| "PathUnescape (c # cs) =
     (if c = CHR ''%'' then
        (case cs of
           a # b # rest \<Rightarrow>
             (case (hex_val a, hex_val b) of
                (Some x, Some y) \<Rightarrow> map_option ((#) (char_of (16 * x + y))) (PathUnescape rest)
              | _ \<Rightarrow> None)
         | _ \<Rightarrow> None)
      else map_option ((#) c) (PathUnescape cs))"

text \<open>\<^verbatim>\<open>url.ParseRequestURI\<close>: the decoded path and the query. Control characters are refused.\<close>

definition ParseRequestURI :: "(string \<Rightarrow> (string \<times> string) option) \<Rightarrow> string \<Rightarrow> (string \<times> string) option" where
  "ParseRequestURI absolute s =
     (if list_ex (\<lambda>c. byte c < 0x20 \<or> byte c = 0x7F) s then None
      else if s = '''' then None
      else if hd s \<noteq> CHR ''/'' then absolute s
      else case (case cut CHR ''?'' s of None \<Rightarrow> (s, '''') | Some p \<Rightarrow> p) of
             (raw, query) \<Rightarrow> map_option (\<lambda>p. (p, query)) (PathUnescape raw))"

definition original_uri :: "(string \<Rightarrow> (string \<times> string) option) \<Rightarrow> HttpReq \<Rightarrow> (string \<times> string) option" where
  "original_uri absolute rq =
     map_option (\<lambda>(p, query). (p, query_Get (ParseQuery query) ''t'')) (ParseRequestURI absolute (hr_Header rq ''X-Original-URI''))"

section \<open>Routes\<close>

text \<open>Handlers over the process-local memory; a status with no body.\<close>

type_synonym mem_handler = "HttpReq \<Rightarrow> RecMemory \<times> world \<Rightarrow> Response \<times> RecMemory \<times> world"

definition authz_handler :: "RecHandler \<Rightarrow> (string \<Rightarrow> (string \<times> string) option) \<Rightarrow> mem_handler" where
  "authz_handler h absolute rq = (\<lambda>(mem, w). case authz h (original_uri absolute rq) mem w of (st, mem', w') \<Rightarrow> (respond st None, mem', w'))"

definition webhook_handler :: "RecHandler \<Rightarrow> mem_handler" where
  "webhook_handler h rq = (\<lambda>(mem, w). case liveKitWebhook h (take MiB (hr_Body rq)) (hr_Header rq ''Authorization'') mem w of
     (st, mem', w') \<Rightarrow>
       (respond st (if st = 401 then Some (JObj [(''error'', JStr ''webhook verification failed'')])
                    else if st = 500 then Some (JObj [(''error'', JStr ''internal error'')]) else None), mem', w'))"

text \<open>Lift a handler that answers; a failure cannot happen (\<open>total\<close>), and would be a panic, answered with 500.\<close>

definition answered :: "Response io \<Rightarrow> world \<Rightarrow> Response \<times> world" where
  "answered m w = (case m w of (Inr resp, w') \<Rightarrow> (resp, w') | (Inl _, w') \<Rightarrow> (respond 500 None, w'))"

definition recording_routes :: "RecHandler \<Rightarrow> string \<Rightarrow> route list" where
  "recording_routes h nid =
     (let p = [Lit ''v1'', Lit ''recordings'', Lit ''sessions'', Wild]; auth = requireAuth (rh_validate h) in
      [(''POST'', p, \<lambda>vs rq. auth rq (rec_start h nid (vs ! 0))),
       (''DELETE'', p, \<lambda>vs rq. auth rq (rec_stop h (vs ! 0))),
       (''GET'', p, \<lambda>vs rq. auth rq (rec_list (vs ! 0))),
       (''GET'', p @ [Lit ''playback''], \<lambda>vs rq. auth rq (rec_playback h (vs ! 0)))])"

definition recording_mux :: "RecHandler \<Rightarrow> (string \<Rightarrow> (string \<times> string) option) \<Rightarrow> string \<Rightarrow> mem_handler" where
  "recording_mux h absolute nid rq = (\<lambda>(mem, w).
     if hr_Path rq = [''v1'', ''recordings'', ''authz''] then
       (if method_ok ''GET'' (hr_Method rq) then authz_handler h absolute rq (mem, w) else (respond 405 None, mem, w))
     else if hr_Path rq = [''v1'', ''webhooks'', ''livekit''] then
       (if hr_Method rq = ''POST'' then webhook_handler h rq (mem, w) else (respond 405 None, mem, w))
     else (case answered (mux (recording_routes h nid) rq) w of (resp, w') \<Rightarrow> (resp, mem, w')))"

section \<open>Wiring\<close>

text \<open>The constructors apply their options in order; what is not positive leaves the default.\<close>

definition rec_defaultPlaybackTTL :: duration where "rec_defaultPlaybackTTL = minutes 5"

definition WithStartLimiter :: "(string \<Rightarrow> bool) \<Rightarrow> RecordingSvc \<Rightarrow> RecordingSvc" where
  "WithStartLimiter l s = s\<lparr>rs_startLimiter := Some l\<rparr>"

definition WithMaxConcurrent :: "int \<Rightarrow> RecordingSvc \<Rightarrow> RecordingSvc" where
  "WithMaxConcurrent n s = (if n > 0 then s\<lparr>rs_maxConcurrent := n\<rparr> else s)"

definition recording_NewService :: "EgressClient \<Rightarrow> (RecordingSvc \<Rightarrow> RecordingSvc) list \<Rightarrow> RecordingSvc" where
  "recording_NewService egress opts = foldl (\<lambda>s opt. opt s) \<lparr>rs_egress = egress, rs_maxConcurrent = 0, rs_startLimiter = None\<rparr> opts"

definition rec_WithEntitlements :: "RecHandler \<Rightarrow> RecHandler" where
  "rec_WithEntitlements h = h\<lparr>rh_entitlements := True\<rparr>"

definition WithPlaybackTTL :: "duration \<Rightarrow> RecHandler \<Rightarrow> RecHandler" where
  "WithPlaybackTTL d h = (if d > 0 then h\<lparr>rh_playbackTTL := d\<rparr> else h)"

text \<open>The handler without options: no gate on playback, the default lifetime.\<close>

definition recording_NewHandler :: "RecHandler \<Rightarrow> (RecHandler \<Rightarrow> RecHandler) list \<Rightarrow> RecHandler" where
  "recording_NewHandler parts opts = foldl (\<lambda>h opt. opt h) (parts\<lparr>rh_playbackTTL := rec_defaultPlaybackTTL, rh_entitlements := False\<rparr>) opts"

lemmas recording_options = recording_NewService_def recording_NewHandler_def WithStartLimiter_def WithMaxConcurrent_def rec_WithEntitlements_def
  WithPlaybackTTL_def

end
