(* ===== verification/Endpoints.thy ===== *)
theory Endpoints
  imports AuthHttp RecordingHttp
begin

text \<open>
  What every endpoint of the HTTP surfaces shares. Behind the bearer check, a request without a valid access token reads at most
  the token tables and is answered 401; and every endpoint keeps the properties that the operations of the services keep,
  whatever the request (locale \<open>platform_repo\<close>).
\<close>

section \<open>The gate\<close>

text \<open>The endpoints that take no access token: they take a refresh token, a code, a provider's redirect, or a signature.\<close>

definition public_path :: "string list \<Rightarrow> bool" where
  "public_path p \<longleftrightarrow> p = [''v1'', ''token'', ''refresh''] \<or> take 2 p = [''v1'', ''auth''] \<or> p = [''v1'', ''identity'', ''verify'', ''callback'']
     \<or> p = [''v1'', ''recordings'', ''authz''] \<or> p = [''v1'', ''webhooks'', ''livekit'']"

text \<open>The request has no bearer token, or the token is refused.\<close>

definition refused :: "validator \<Rightarrow> HttpReq \<Rightarrow> world \<Rightarrow> bool" where
  "refused validate rq w \<longleftrightarrow> (\<forall>raw. bearer (hr_Header rq ''Authorization'') = Some raw \<longrightarrow> (\<exists>e w'. validate raw w = (Inl e, w') \<and> w_db w' = w_db w))"

definition gated :: "validator \<Rightarrow> route list \<Rightarrow> HttpReq \<Rightarrow> bool" where
  "gated validate routes rq \<longleftrightarrow> (\<forall>(m, p, h) \<in> set routes. \<forall>vals. matches p (hr_Path rq) = Some vals \<longrightarrow> (\<exists>k. h vals rq = requireAuth validate rq k))"

lemma requireAuth_refused:
  assumes "refused validate rq w"
  shows "\<exists>resp w'. requireAuth validate rq k w = (Inr resp, w') \<and> rp_Status resp = 401 \<and> w_db w' = w_db w"
proof (cases "bearer (hr_Header rq ''Authorization'')")
  case None
  then show ?thesis by (simp add: requireAuth_def writeError_def writeJSON_def respond_def ret_def)
next
  case (Some raw)
  with assms obtain e w' where "validate raw w = (Inl e, w')" "w_db w' = w_db w" by (auto simp: refused_def)
  then show ?thesis using Some by (simp add: requireAuth_def attempt_def writeError_def writeJSON_def respond_def ret_def)
qed

lemma mux_refused:
  assumes "refused validate rq w" "gated validate routes rq"
  shows "\<exists>resp w'. mux routes rq w = (Inr resp, w') \<and> rp_Status resp \<in> {401, 404, 405} \<and> w_db w' = w_db w"
  using assms(2)
proof (induction routes)
  case Nil
  then show ?case by (simp add: writeHeader_def respond_def ret_def)
next
  case (Cons r rest)
  obtain m p h where r: "r = (m, p, h)" by (cases r)
  have rest: "\<exists>resp w'. mux rest rq w = (Inr resp, w') \<and> rp_Status resp \<in> {401, 404, 405} \<and> w_db w' = w_db w"
    using Cons by (simp add: gated_def)
  show ?case
  proof (cases "matches p (hr_Path rq)")
    case None
    then show ?thesis using rest r by simp
  next
    case (Some vals)
    then obtain k where k: "h vals rq = requireAuth validate rq k" using Cons.prems r by (auto simp: gated_def)
    have "\<exists>resp w'. h vals rq w = (Inr resp, w') \<and> rp_Status resp \<in> {401, 404, 405} \<and> w_db w' = w_db w"
      unfolding k using requireAuth_refused [OF assms(1), of k] by blast
    then show ?thesis using rest r Some by (auto simp: writeHeader_def respond_def ret_def)
  qed
qed

lemma gated_append: "gated validate (as @ bs) rq \<longleftrightarrow> gated validate as rq \<and> gated validate bs rq"
  unfolding gated_def by (simp add: ball_Un)

lemma gated_services:
  "gated (sh_validate sh) (session_routes sh nid) rq" "gated (ch_validate ch) (consent_routes ch nid) rq"
  "gated (ck_validate ck) (class_routes ck nid) rq" "gated (eh_validate eh) (entitlement_routes eh nid) rq"
  "gated (mh_validate mh) (moderation_routes mh) rq" "gated (rh_validate rh) (recording_routes rh nid) rq"
  by (auto simp: gated_def session_routes_def consent_routes_def class_routes_def entitlement_routes_def moderation_routes_def
      recording_routes_def Let_def)

lemma matches_Lit: "matches (Lit l # ps) path' = Some vals \<Longrightarrow> \<exists>ss. path' = l # ss \<and> matches ps ss = Some vals"
  by (cases path') (auto split: if_splits)

lemma matches_Nil: "matches [] path' = Some vals \<Longrightarrow> path' = []"
  by (cases path') auto

lemma gated_auth:
  assumes "\<not> public_path (hr_Path rq)"
  shows "gated (ah_validate h) (auth_routes h dr) rq"
proof -
  have "gated (ah_validate h) (core_routes h dr) rq"
    using assms by (auto simp: gated_def core_routes_def Let_def public_path_def dest!: matches_Lit matches_Nil)
  moreover have "gated (ah_validate h) (oidc_routes h dr) rq" "gated (ah_validate h) (email_routes h dr) rq" "gated (ah_validate h) (phone_routes h dr) rq"
    using assms by (auto simp: gated_def oidc_routes_def email_routes_def phone_routes_def Let_def public_path_def dest!: matches_Lit split: option.splits)
  moreover have "gated (ah_validate h) (identity_routes h) rq"
    using assms by (auto simp: gated_def identity_routes_def Let_def public_path_def dest!: matches_Lit matches_Nil split: option.splits)
  moreover have "gated (ah_validate h) (stepup_routes h dr) rq"
    by (auto simp: gated_def stepup_routes_def Let_def)
  ultimately show ?thesis by (simp add: auth_routes_def gated_append)
qed

section \<open>Properties that the endpoints keep\<close>

text \<open>The authentication surface, wired as the program wires it: over one store, its flows resolve with the resolvers of their kinds.\<close>

definition auth_wired :: "Store \<Rightarrow> AuthHandler \<Rightarrow> bool" where
  "auth_wired st h \<longleftrightarrow> ah_store h = st \<and> reading_sources (ah_svc h) \<and> (\<forall>el. ah_email h = Some el \<longrightarrow> wired (el_authn el))
     \<and> (\<forall>pl. ah_phone h = Some pl \<longrightarrow> wired (pl_authn pl))"

text \<open>The endpoints call the services and nothing else that writes.\<close>

context platform_repo
begin

lemma keeps_error_replies:
  "keeps J (session_writeServiceErr e)" "keeps J (class_writeServiceErr e)" "keeps J (mod_writeServiceErr e)" "keeps J (rec_writeServiceErr e)"
  "keeps J (writeSessionError e)" "keeps J (writeSession ses)" "keeps J (signed_in profile eid meth ses)"
  unfolding session_writeServiceErr_def class_writeServiceErr_def mod_writeServiceErr_def rec_writeServiceErr_def writeSessionError_def
    writeSession_def signed_in_def recordLogin_def
  by (intro keeps_rules accounts.side_tables)+

lemmas endpoint_rules = keeps_rules read_rules keeps_error_replies

lemma session_routes_keep:
  assumes "\<And>raw. keeps J (sh_validate h raw)" "(m, p, g) \<in> set (session_routes h nid)"
  shows "keeps J (g vals rq)"
proof -
  have "keeps J (session_create h nid rq c)" "keeps J (session_listForClass h rq c)" "keeps J (session_detail h sid c)" "keeps J (session_join h nid sid c)"
    "keeps J (session_start sid c)" "keeps J (session_end sid c)" "keeps J (session_leave nid sid c)" for c sid
    unfolding session_create_def session_listForClass_def session_detail_def session_join_def session_start_def session_end_def session_leave_def
      ListForClass_def session_Detail_def Let_def
    by (intro endpoint_rules sessions.keeps_session_service)+
  then show ?thesis using assms by (auto simp: session_routes_def Let_def intro!: keeps_requireAuth)
qed

lemma consent_routes_keep:
  assumes "\<And>raw. keeps J (ch_validate h raw)" "ch_store h = st" "\<And>f sid. ch_hook h = Some f \<Longrightarrow> keeps J (f sid)" "(m, p, g) \<in> set (consent_routes h nid)"
  shows "keeps J (g vals rq)"
proof -
  have "keeps J (consent_grant h nid sid c)" "keeps J (consent_withdraw h nid sid c)" "keeps J (consent_status sid c)" for sid c
    unfolding consent_grant_def consent_withdraw_def consent_status_def consent_Effective_def assms(2)
    by (intro endpoint_rules ledgers.keeps_consent assms(3); assumption)+
  then show ?thesis using assms(1,4) by (auto simp: consent_routes_def Let_def intro!: keeps_requireAuth)
qed

lemma class_routes_keep:
  assumes "\<And>raw. keeps J (ck_validate h raw)" "(m, p, g) \<in> set (class_routes h nid)"
  shows "keeps J (g vals rq)"
proof -
  have "keeps J (class_create h nid rq c)" "keeps J (class_listMine c)" "keeps J (class_listPublished c)" "keeps J (class_listEnrolled c)"
    "keeps J (class_enroll h sid c)" "keeps J (class_unenroll sid c)" "keeps J (class_setStatus h sid rq c)" "keeps J (class_setCapacity h sid rq c)" for sid c
    unfolding class_create_def class_listMine_def class_listPublished_def class_listEnrolled_def class_list_def class_enroll_def class_unenroll_def
      class_setStatus_def class_setCapacity_def ListMine_def ListPublished_def ListEnrolled_def
    by (intro endpoint_rules accounts.keeps_classes)+
  then show ?thesis using assms by (auto simp: class_routes_def Let_def intro!: keeps_requireAuth)
qed

lemma entitlement_routes_keep:
  assumes "\<And>raw. keeps J (eh_validate h raw)" "eh_store h = st" "(m, p, g) \<in> set (entitlement_routes h nid)"
  shows "keeps J (g vals rq)"
proof -
  have "keeps J (entitlement_listMine c)" "keeps J (entitlement_grant h nid rq c)" "keeps J (entitlement_revoke h rq c)" for c
    unfolding entitlement_listMine_def entitlement_grant_def entitlement_revoke_def entitlement_List_def assms(2)
    by (intro endpoint_rules ledgers.keeps_entitlements)+
  then show ?thesis using assms(1,3) by (auto simp: entitlement_routes_def Let_def intro!: keeps_requireAuth)
qed

lemma moderation_routes_keep:
  assumes "\<And>raw. keeps J (mh_validate h raw)" "mh_store h = st" "(m, p, g) \<in> set (moderation_routes h)"
  shows "keeps J (g vals rq)"
proof -
  have "keeps J (mod_listUsers c)" "keeps J (mod_suspend h u c)" "keeps J (mod_reinstate h u c)" "keeps J (mod_grantInstructor h u c)"
    "keeps J (mod_revokeInstructor h u c)" for c u
    unfolding mod_listUsers_def mod_suspend_def mod_reinstate_def mod_grantInstructor_def mod_revokeInstructor_def mod_ListUsers_def assms(2)
    by (intro endpoint_rules accounts.keeps_moderation)+
  then show ?thesis using assms(1,3) by (auto simp: moderation_routes_def Let_def intro!: keeps_requireAuth)
qed

lemma core_routes_keep:
  assumes "\<And>raw. keeps J (ah_validate h raw)" "auth_wired st h" "(m, p, g) \<in> set (core_routes h dr)"
  shows "keeps J (g vals rq)"
proof -
  have s: "ah_store h = st" "reading_sources (ah_svc h)" using assms(2) by (simp_all add: auth_wired_def)
  have "keeps J (handleRefresh h dr rq)" "keeps J (handleLogout h rq c)" "keeps J (handleMe c)" "keeps J (handleUpdateProfile h rq c)"
    "keeps J (handleLogoutAll c)" "keeps J (handleBecomeInstructor h c)" "keeps J (handleCloseAccount c)" for c
    unfolding handleRefresh_def handleLogout_def handleMe_def handleUpdateProfile_def handleLogoutAll_def handleBecomeInstructor_def
      handleCloseAccount_def Let_def s(1)
    by (intro endpoint_rules accounts.keeps_sessions [OF s(2)] accounts.keeps_self_service)+
  moreover have "keeps J (handleMeIdentities h c)" "keeps J (handleMeSessions h c)" "keeps J (handleMeConsents h c)" "keeps J (handleMeLoginEvents h c)"
    "keeps J (handleMeProgress h c)" "keeps J (handleMeCompletions h c)" for c
    unfolding handleMeIdentities_def handleMeSessions_def handleMeConsents_def handleMeLoginEvents_def handleMeProgress_def handleMeCompletions_def me_read_def
    by (intro endpoint_rules)+
  ultimately show ?thesis using assms(1,3) by (auto simp: core_routes_def Let_def intro!: keeps_requireAuth)
qed

lemma login_routes_keep:
  assumes "\<And>raw. keeps J (ah_validate h raw)" "auth_wired st h" "(m, p, g) \<in> set (oidc_routes h dr @ email_routes h dr @ phone_routes h dr)"
  shows "keeps J (g vals rq)"
proof -
  have src: "reading_sources (ah_svc h)" using assms(2) by (simp add: auth_wired_def)
  have "keeps J (handleOIDCStart H cs state secret provider)" for H cs state secret provider
    unfolding handleOIDCStart_def Let_def by (intro endpoint_rules)
  moreover have "keeps J (handleOIDCCallback (ah_svc h) cs profile fr eid provider rq)" for cs profile fr eid provider
    unfolding handleOIDCCallback_def with_cookies_def Let_def
    by (intro endpoint_rules accounts.keeps_flows(5) wired_federation [OF src])
  moreover have "keeps J (handleEmailRequest h el dr rq)" "keeps J (handleEmailVerify h el dr rq)" if "ah_email h = Some el" for el
  proof -
    have w: "wired (el_authn el)" using assms(2) that by (simp add: auth_wired_def)
    show "keeps J (handleEmailRequest h el dr rq)" "keeps J (handleEmailVerify h el dr rq)"
      unfolding handleEmailRequest_def handleEmailVerify_def by (intro endpoint_rules accounts.keeps_flows(1) accounts.keeps_flows(3) [OF w])+
  qed
  moreover have "keeps J (handlePhoneRequest h pl dr rq)" "keeps J (handlePhoneVerify h pl dr rq)" if "ah_phone h = Some pl" for pl
  proof -
    have w: "wired (pl_authn pl)" using assms(2) that by (simp add: auth_wired_def)
    show "keeps J (handlePhoneRequest h pl dr rq)" "keeps J (handlePhoneVerify h pl dr rq)"
      unfolding handlePhoneRequest_def handlePhoneVerify_def phone_verify_as_def
      by (intro endpoint_rules assms(1) accounts.keeps_flows(2) accounts.keeps_flows(4) [OF w])+
  qed
  ultimately show ?thesis using assms(3) by (auto simp: oidc_routes_def email_routes_def phone_routes_def Let_def split: option.splits)
qed

lemma identity_routes_keep:
  assumes "\<And>raw. keeps J (ah_validate h raw)" "(m, p, g) \<in> set (identity_routes h @ stepup_routes h dr)"
  shows "keeps J (g vals rq)"
proof -
  have "keeps J (handleToSAccept h rq c)" "keeps J (handleVerifyBegin h b rq c)" "keeps J (handleVerifyCallback b rq)" for c b
    unfolding handleToSAccept_def handleVerifyBegin_def handleVerifyCallback_def BeginVerification_def ApplyCallback_def
    by (intro endpoint_rules accounts.keeps_identity)+
  moreover have "keeps J (handleStepUpRequest su cid code c)" "keeps J (handleStepUpVerify su dec raw gid rq c)" "keeps J (handleDataExport su rq c)"
    for su cid code raw dec gid c
    unfolding handleStepUpRequest_def handleStepUpVerify_def handleDataExport_def Let_def by (intro endpoint_rules accounts.keeps_stepup)+
  ultimately show ?thesis using assms
    by (auto simp: identity_routes_def stepup_routes_def Let_def intro!: keeps_requireAuth split: option.splits if_splits)
qed

lemma auth_routes_keep:
  assumes "\<And>raw. keeps J (ah_validate h raw)" "auth_wired st h" "(m, p, g) \<in> set (auth_routes h dr)"
  shows "keeps J (g vals rq)"
proof -
  consider "(m, p, g) \<in> set (core_routes h dr)" | "(m, p, g) \<in> set (oidc_routes h dr @ email_routes h dr @ phone_routes h dr)"
    | "(m, p, g) \<in> set (identity_routes h @ stepup_routes h dr)"
    using assms(3) by (auto simp: auth_routes_def)
  then show ?thesis
    by cases (erule core_routes_keep [OF assms(1,2)] login_routes_keep [OF assms(1,2)] identity_routes_keep [OF assms(1)])+
qed

lemma recording_routes_keep:
  assumes "\<And>raw. keeps J (rh_validate h raw)" "(m, p, g) \<in> set (recording_routes h nid)"
  shows "keeps J (g vals rq)"
proof -
  have "keeps J (rec_start h nid sid c)" "keeps J (rec_stop h sid c)" "keeps J (rec_list sid c)" "keeps J (rec_playback h sid c)" for sid c
    unfolding rec_start_def rec_stop_def rec_list_def rec_playback_def recording_List_def requireHostSession_def ListCompleted_def Let_def
    by (intro endpoint_rules recordings.keeps_recording_service)+
  then show ?thesis using assms by (auto simp: recording_routes_def Let_def intro!: keeps_requireAuth)
qed

lemma authz_keeps:
  assumes "rh_store h = st" "authz h orig mem w = (r, mem', w')" "J (w_db w)"
  shows "J (w_db w')"
proof -
  have a: "J (w_db w2)" if "RecordingByID rid w1 = (q, w2)" "J (w_db w1)" for rid w1 q w2
    by (rule keepsD [where J = J and m = "RecordingByID rid", OF _ that]) (rule read_rules)
  have b: "J (w_db w2)" if "EnsureRecordingAccess u sid w1 = (q, w2)" "J (w_db w1)" for u sid w1 q w2
    by (rule keepsD [where J = J and m = "EnsureRecordingAccess u sid", OF _ that]) (rule read_rules)
  have c: "J (w_db (snd (AuditPlayback st u rec w1)))" if "J (w_db w1)" for u rec w1
    using accounts.keeps_AuditPlayback that by (simp add: keeps_def)
  show ?thesis
    using assms(2,3) unfolding authz_def assms(1)
    by (auto simp: ret_def split: option.splits prod.splits if_splits sum.splits bool.splits dest!: a b intro: c)
qed

lemma webhook_keeps:
  assumes "liveKitWebhook h body hdr mem w = (r, mem', w')" "J (w_db w)"
  shows "J (w_db w')"
proof -
  have "J (w_db w1)" if "HandleWebhookEvent ev w = (q, w1)" for ev q w1
    by (rule keepsD [OF recordings.keeps_recording_service(4) that assms(2)])
  then show ?thesis
    using assms unfolding liveKitWebhook_def by (auto split: prod.splits if_splits sum.splits bool.splits)
qed

lemma answered_keeps: "keeps J m \<Longrightarrow> answered m w = (resp, w') \<Longrightarrow> J (w_db w) \<Longrightarrow> J (w_db w')"
  unfolding answered_def keeps_def by (cases "m w") (auto split: sum.splits)

lemma recording_mux_keeps:
  assumes "\<And>raw. keeps J (rh_validate h raw)" "rh_store h = st" "recording_mux h absolute nid rq (mem, w) = (resp, mem', w')" "J (w_db w)"
  shows "J (w_db w')"
proof -
  have m: "J (w_db w1)" if "answered (mux (recording_routes h nid) rq) w = (q, w1)" for q w1
    by (rule answered_keeps [OF _ that assms(4)]) (rule keeps_mux, erule recording_routes_keep [OF assms(1)])
  have a: "J (w_db w1)" if "authz h orig mem w = (q, mem1, w1)" for orig q mem1 w1
    by (rule authz_keeps [OF assms(2) that assms(4)])
  have b: "J (w_db w1)" if "liveKitWebhook h body hdr mem w = (q, mem1, w1)" for body hdr q mem1 w1
    by (rule webhook_keeps [OF that assms(4)])
  show ?thesis
    using assms(3,4) by (auto simp: recording_mux_def authz_handler_def webhook_handler_def split: if_splits prod.splits dest: m a b)
qed

end

end
