(* ===== verification/Config.thy ===== *)
theory Config
  imports Outbound Complex_Main
begin

text \<open>
  The runtime configuration: \<^verbatim>\<open>Load\<close> of \<^verbatim>\<open>internal/config/config.go\<close> and its parsers, over an environment given as a
  function from names to values.

  \<^verbatim>\<open>time.ParseDuration\<close> is modelled in full; the fraction of a number is scaled exactly, where the library multiplies
  floating-point numbers and may be one nanosecond off. The parsing of floating-point text and the public half of an Ed25519
  seed are parameters.
\<close>

section \<open>Names\<close>

named_theorems env_names \<open>the names of the variables\<close>

definition EnvHTTPAddr :: string where [env_names]: "EnvHTTPAddr = ''LAPLAT_HTTP_ADDR''"
definition EnvDBDSN :: string where [env_names]: "EnvDBDSN = ''LAPLAT_DB_DSN''"
definition EnvKid :: string where [env_names]: "EnvKid = ''LAPLAT_TOKEN_KID''"
definition EnvSigningKey :: string where [env_names]: "EnvSigningKey = ''LAPLAT_TOKEN_SIGNING_KEY''"
definition EnvVerifyKeys :: string where [env_names]: "EnvVerifyKeys = ''LAPLAT_TOKEN_VERIFY_KEYS''"
definition EnvAccessTTL :: string where [env_names]: "EnvAccessTTL = ''LAPLAT_ACCESS_TTL''"
definition EnvRefreshTTL :: string where [env_names]: "EnvRefreshTTL = ''LAPLAT_REFRESH_TTL''"
definition EnvPresenceCheckpointInterval :: string where [env_names]: "EnvPresenceCheckpointInterval = ''LAPLAT_PRESENCE_CHECKPOINT_INTERVAL''"
definition EnvVaultAddr :: string where [env_names]: "EnvVaultAddr = ''LAPLAT_VAULT_ADDR''"
definition EnvVaultToken :: string where [env_names]: "EnvVaultToken = ''LAPLAT_VAULT_TOKEN''"
definition EnvVaultTransitMount :: string where [env_names]: "EnvVaultTransitMount = ''LAPLAT_VAULT_TRANSIT_MOUNT''"
definition EnvVaultTransitKey :: string where [env_names]: "EnvVaultTransitKey = ''LAPLAT_VAULT_TRANSIT_KEY''"
definition EnvRateLimitRPS :: string where [env_names]: "EnvRateLimitRPS = ''LAPLAT_RATE_LIMIT_RPS''"
definition EnvRateLimitBurst :: string where [env_names]: "EnvRateLimitBurst = ''LAPLAT_RATE_LIMIT_BURST''"
definition EnvOIDCRedirectBase :: string where [env_names]: "EnvOIDCRedirectBase = ''LAPLAT_OIDC_REDIRECT_BASE''"
definition EnvGoogleClientID :: string where [env_names]: "EnvGoogleClientID = ''LAPLAT_OIDC_GOOGLE_CLIENT_ID''"
definition EnvGoogleClientSecret :: string where [env_names]: "EnvGoogleClientSecret = ''LAPLAT_OIDC_GOOGLE_CLIENT_SECRET''"
definition EnvAppleClientID :: string where [env_names]: "EnvAppleClientID = ''LAPLAT_OIDC_APPLE_CLIENT_ID''"
definition EnvAppleTeamID :: string where [env_names]: "EnvAppleTeamID = ''LAPLAT_OIDC_APPLE_TEAM_ID''"
definition EnvAppleKeyID :: string where [env_names]: "EnvAppleKeyID = ''LAPLAT_OIDC_APPLE_KEY_ID''"
definition EnvApplePrivateKeyB64 :: string where [env_names]: "EnvApplePrivateKeyB64 = ''LAPLAT_OIDC_APPLE_PRIVATE_KEY''"
definition EnvZaloAppID :: string where [env_names]: "EnvZaloAppID = ''LAPLAT_OIDC_ZALO_APP_ID''"
definition EnvZaloAppSecret :: string where [env_names]: "EnvZaloAppSecret = ''LAPLAT_OIDC_ZALO_APP_SECRET''"
definition EnvSMTPHost :: string where [env_names]: "EnvSMTPHost = ''LAPLAT_SMTP_HOST''"
definition EnvSMTPPort :: string where [env_names]: "EnvSMTPPort = ''LAPLAT_SMTP_PORT''"
definition EnvSMTPFrom :: string where [env_names]: "EnvSMTPFrom = ''LAPLAT_SMTP_FROM''"
definition EnvSMTPUsername :: string where [env_names]: "EnvSMTPUsername = ''LAPLAT_SMTP_USERNAME''"
definition EnvSMTPPassword :: string where [env_names]: "EnvSMTPPassword = ''LAPLAT_SMTP_PASSWORD''"
definition EnvSMSProvider :: string where [env_names]: "EnvSMSProvider = ''LAPLAT_SMS_PROVIDER''"
definition EnvSMSFrom :: string where [env_names]: "EnvSMSFrom = ''LAPLAT_SMS_FROM''"
definition EnvSMSGatewayURL :: string where [env_names]: "EnvSMSGatewayURL = ''LAPLAT_SMS_GATEWAY_URL''"
definition EnvSMSGatewayToken :: string where [env_names]: "EnvSMSGatewayToken = ''LAPLAT_SMS_GATEWAY_TOKEN''"
definition EnvSMSTwilioSID :: string where [env_names]: "EnvSMSTwilioSID = ''LAPLAT_SMS_TWILIO_ACCOUNT_SID''"
definition EnvSMSTwilioAuthToken :: string where [env_names]: "EnvSMSTwilioAuthToken = ''LAPLAT_SMS_TWILIO_AUTH_TOKEN''"
definition EnvSMSVonageKey :: string where [env_names]: "EnvSMSVonageKey = ''LAPLAT_SMS_VONAGE_API_KEY''"
definition EnvSMSVonageSecret :: string where [env_names]: "EnvSMSVonageSecret = ''LAPLAT_SMS_VONAGE_API_SECRET''"
definition EnvLiveKitAPIKey :: string where [env_names]: "EnvLiveKitAPIKey = ''LAPLAT_LIVEKIT_API_KEY''"
definition EnvLiveKitAPISecret :: string where [env_names]: "EnvLiveKitAPISecret = ''LAPLAT_LIVEKIT_API_SECRET''"
definition EnvLiveKitURL :: string where [env_names]: "EnvLiveKitURL = ''LAPLAT_LIVEKIT_URL''"
definition EnvLiveKitHTTPURL :: string where [env_names]: "EnvLiveKitHTTPURL = ''LAPLAT_LIVEKIT_HTTP_URL''"
definition EnvLiveKitFilePrefix :: string where [env_names]: "EnvLiveKitFilePrefix = ''LAPLAT_LIVEKIT_FILE_PREFIX''"
definition EnvRecordingsBaseURL :: string where [env_names]: "EnvRecordingsBaseURL = ''LAPLAT_RECORDINGS_BASE_URL''"
definition EnvRecordingsSecret :: string where [env_names]: "EnvRecordingsSecret = ''LAPLAT_RECORDINGS_SECRET''"
definition EnvPlaybackTTL :: string where [env_names]: "EnvPlaybackTTL = ''LAPLAT_PLAYBACK_TTL''"
definition EnvRecordingMaxConcurrent :: string where [env_names]: "EnvRecordingMaxConcurrent = ''LAPLAT_RECORDING_MAX_CONCURRENT''"
definition EnvRecordingStartRPS :: string where [env_names]: "EnvRecordingStartRPS = ''LAPLAT_RECORDING_START_RPS''"
definition EnvRecordingStartBurst :: string where [env_names]: "EnvRecordingStartBurst = ''LAPLAT_RECORDING_START_BURST''"
definition EnvDevOTPConsole :: string where [env_names]: "EnvDevOTPConsole = ''LAPLAT_DEV_OTP_CONSOLE''"
definition EnvEKYCVendorURL :: string where [env_names]: "EnvEKYCVendorURL = ''LAPLAT_EKYC_VENDOR_URL''"
definition EnvEKYCVendorToken :: string where [env_names]: "EnvEKYCVendorToken = ''LAPLAT_EKYC_VENDOR_TOKEN''"
definition EnvEKYCWebhookSecret :: string where [env_names]: "EnvEKYCWebhookSecret = ''LAPLAT_EKYC_WEBHOOK_SECRET''"

section \<open>Durations\<close>

text \<open>\<^verbatim>\<open>leadingInt\<close>: the value of the leading digits, an error above $2^{63}$.\<close>

fun leadingInt :: "nat \<Rightarrow> string \<Rightarrow> (nat \<times> string) option" where
  "leadingInt x [] = Some (x, [])"
| "leadingInt x (c # cs) =
     (case digit_val c of
        None \<Rightarrow> Some (x, c # cs)
      | Some d \<Rightarrow>
          if x > 2 ^ 63 div 10 then None
          else if x * 10 + d > 2 ^ 63 then None
          else leadingInt (x * 10 + d) cs)"

text \<open>\<^verbatim>\<open>leadingFraction\<close>: value, scale and the rest; digits past the range are skipped.\<close>

fun leadingFraction :: "nat \<Rightarrow> nat \<Rightarrow> bool \<Rightarrow> string \<Rightarrow> nat \<times> nat \<times> string" where
  "leadingFraction x scale over [] = (x, scale, [])"
| "leadingFraction x scale over (c # cs) =
     (case digit_val c of
        None \<Rightarrow> (x, scale, c # cs)
      | Some d \<Rightarrow>
          if over then leadingFraction x scale True cs
          else if x > (2 ^ 63 - 1) div 10 then leadingFraction x scale True cs
          else if x * 10 + d > 2 ^ 63 then leadingFraction x scale True cs
          else leadingFraction (x * 10 + d) (scale * 10) False cs)"

text \<open>The micro sign and the Greek letter are two bytes each.\<close>

definition unitMap :: "string \<rightharpoonup> nat" where
  "unitMap = map_of [(''ns'', 1), (''us'', 1000), ([CHR 0xC2, CHR 0xB5, CHR ''s''], 1000), ([CHR 0xCE, CHR 0xBC, CHR ''s''], 1000),
     (''ms'', 1000000), (''s'', 1000000000), (''m'', 60000000000), (''h'', 3600000000000)]"

definition num_char :: "char \<Rightarrow> bool" where
  "num_char c = (c = CHR ''.'' \<or> digit_val c \<noteq> None)"

text \<open>One number with its unit: nanoseconds and the rest.\<close>

definition duration_part :: "string \<Rightarrow> (nat \<times> string) option" where
  "duration_part s =
     (if s = [] \<or> \<not> num_char (hd s) then None
      else case leadingInt 0 s of
        None \<Rightarrow> None
      | Some (v, s1) \<Rightarrow>
          (case (if s1 \<noteq> [] \<and> hd s1 = CHR ''.'' then leadingFraction 0 1 False (tl s1) else (0, 1, s1)) of
             (f, scale, s2) \<Rightarrow>
               let pre = length s1 \<noteq> length s;
                   post = s1 \<noteq> [] \<and> hd s1 = CHR ''.'' \<and> length s2 \<noteq> length (tl s1);
                   u = takeWhile (\<lambda>c. \<not> num_char c) s2;
                   rest = dropWhile (\<lambda>c. \<not> num_char c) s2
               in if \<not> pre \<and> \<not> post then None
                  else if u = [] then None
                  else case unitMap u of
                    None \<Rightarrow> None
                  | Some unit \<Rightarrow>
                      if v > 2 ^ 63 div unit then None
                      else let v' = v * unit + (if f > 0 then f * unit div scale else 0)
                           in if v' > 2 ^ 63 then None else Some (v', rest)))"

lemma leadingInt_length: "leadingInt x s = Some (v, s1) \<Longrightarrow> length s1 \<le> length s"
  by (induction x s rule: leadingInt.induct) (auto split: option.splits if_splits)

lemma leadingFraction_length: "leadingFraction x sc ov s = (f, scale, s2) \<Longrightarrow> length s2 \<le> length s"
  by (induction x sc ov s rule: leadingFraction.induct) (auto split: option.splits if_splits)

lemma duration_part_length:
  assumes "duration_part s = Some (v, rest)"
  shows "length rest < length s"
proof -
  obtain v0 s1 where i: "leadingInt 0 s = Some (v0, s1)" using assms by (auto simp: duration_part_def split: if_splits option.splits)
  obtain f scale s2 where fr: "(if s1 \<noteq> [] \<and> hd s1 = CHR ''.'' then leadingFraction 0 1 False (tl s1) else (0, 1, s1)) = (f, scale, s2)"
    using prod_cases3 by blast
  have "length s2 \<le> length s1" using fr leadingFraction_length [of 0 1 False "tl s1"] by (auto split: if_splits)
  moreover have "length s1 \<le> length s" by (rule leadingInt_length [OF i])
  moreover have "takeWhile (\<lambda>c. \<not> num_char c) s2 \<noteq> []" "rest = dropWhile (\<lambda>c. \<not> num_char c) s2"
    using assms unfolding duration_part_def i option.case prod.case fr by (auto simp: Let_def split: if_splits option.splits)
  moreover have "length s2 = length (takeWhile (\<lambda>c. \<not> num_char c) s2) + length (dropWhile (\<lambda>c. \<not> num_char c) s2)"
    by (metis length_append takeWhile_dropWhile_id)
  ultimately show ?thesis by (cases "takeWhile (\<lambda>c. \<not> num_char c) s2") simp_all
qed

text \<open>The sum is a 64-bit unsigned number.\<close>

function duration_loop :: "nat \<Rightarrow> string \<Rightarrow> nat option" where
  "duration_loop d s =
     (if s = [] then Some d
      else case duration_part s of
        None \<Rightarrow> None
      | Some (v, rest) \<Rightarrow> let d' = (d + v) mod 2 ^ 64 in if d' > 2 ^ 63 then None else duration_loop d' rest)"
  by pat_completeness auto
termination by (relation "measure (\<lambda>(d, s). length s)") (auto dest: duration_part_length)

declare duration_loop.simps [simp del]

definition ParseDuration :: "string \<Rightarrow> duration option" where
  "ParseDuration s =
     (let neg = (s \<noteq> [] \<and> hd s = CHR ''-''); s' = (if s \<noteq> [] \<and> hd s \<in> {CHR ''-'', CHR ''+''} then tl s else s) in
      if s' = ''0'' then Some 0
      else if s' = '''' then None
      else case duration_loop 0 s' of
        None \<Rightarrow> None
      | Some d \<Rightarrow> if neg then Some (- int d) else if d > 2 ^ 63 - 1 then None else Some (int d))"

section \<open>Scalars\<close>

definition orDefault :: "string \<Rightarrow> string \<Rightarrow> string" where
  "orDefault v def = (if trim_space v = '''' then def else v)"

definition missing :: "string \<Rightarrow> error" where
  "missing name = Err (''config: '' @ name @ '' is required'')"

definition parseDuration :: "string \<Rightarrow> duration \<Rightarrow> duration res" where
  "parseDuration s def =
     (if trim_space s = '''' then Inr def
      else case ParseDuration s of
        None \<Rightarrow> Inl (Err ''time: invalid duration'')
      | Some d \<Rightarrow> if d \<le> 0 then Inl (Err ''must be positive'') else Inr d)"

text \<open>A \<^verbatim>\<open>float64\<close>: a number (at its exact value), an infinity or not a number, which is not below or equal to anything.\<close>

datatype gofloat = Fin rat | PosInf | NegInf | NaN

fun le_zero :: "gofloat \<Rightarrow> bool" where
  "le_zero (Fin q) = (q \<le> 0)"
| "le_zero PosInf = False"
| "le_zero NegInf = True"
| "le_zero NaN = False"

definition parsePositiveFloat :: "(string \<Rightarrow> gofloat option) \<Rightarrow> string \<Rightarrow> gofloat \<Rightarrow> gofloat res" where
  "parsePositiveFloat parseFloat s def =
     (if trim_space s = '''' then Inr def
      else case parseFloat (trim_space s) of
        None \<Rightarrow> Inl (Err ''strconv.ParseFloat'')
      | Some v \<Rightarrow> if le_zero v then Inl (Err ''must be positive'') else Inr v)"

definition parsePositiveInt :: "string \<Rightarrow> int \<Rightarrow> int res" where
  "parsePositiveInt s def =
     (if trim_space s = '''' then Inr def
      else case ParseInt (trim_space s) of
        None \<Rightarrow> Inl (Err ''strconv.Atoi'')
      | Some v \<Rightarrow> if v \<le> 0 then Inl (Err ''must be positive'') else Inr v)"

definition truthy :: "string \<Rightarrow> bool" where
  "truthy s = (lower (trim_space s) \<in> {''1'', ''true'', ''yes'', ''on''})"

text \<open>Sequencing of results, and the name in front of an error.\<close>

definition and_then :: "'a res \<Rightarrow> ('a \<Rightarrow> 'b res) \<Rightarrow> 'b res" where
  "and_then r f = (case r of Inl e \<Rightarrow> Inl e | Inr x \<Rightarrow> f x)"

definition named :: "string \<Rightarrow> 'a res \<Rightarrow> 'a res" where
  "named name r = (case r of Inl (Err m) \<Rightarrow> Inl (Err (name @ '': '' @ m)) | Inl e \<Rightarrow> Inl e | Inr x \<Rightarrow> Inr x)"

section \<open>Keys\<close>

text \<open>\<open>pubOf\<close> gives the public key of an Ed25519 seed; the private key is the seed followed by it.\<close>

definition NewKeyFromSeed :: "(bytes \<Rightarrow> bytes) \<Rightarrow> bytes \<Rightarrow> bytes" where
  "NewKeyFromSeed pubOf seed = seed @ pubOf seed"

definition key_Public :: "bytes \<Rightarrow> bytes" where
  "key_Public k = drop 32 k"

definition parseSigningKey :: "(bytes \<Rightarrow> bytes) \<Rightarrow> string \<Rightarrow> bytes res" where
  "parseSigningKey pubOf s =
     (if s = '''' then Inl (missing EnvSigningKey)
      else case StdDecode (trim_space s) of
        None \<Rightarrow> Inl (Err (EnvSigningKey @ '': not valid base64''))
      | Some raw \<Rightarrow>
          if length raw = 32 then Inr (NewKeyFromSeed pubOf raw)
          else if length raw = 64 then Inr raw
          else Inl (Err (EnvSigningKey @ '': expected a 32-byte seed or 64-byte key'')))"

fun verify_pairs :: "string list \<Rightarrow> (string \<rightharpoonup> bytes) \<Rightarrow> (string \<rightharpoonup> bytes) res" where
  "verify_pairs [] keys = Inr keys"
| "verify_pairs (pair # rest) keys =
     (case cut CHR '':'' (trim_space pair) of
        None \<Rightarrow> Inl (Err (EnvVerifyKeys @ '': malformed entry''))
      | Some (kid, b64) \<Rightarrow>
          if kid = '''' then Inl (Err (EnvVerifyKeys @ '': malformed entry''))
          else case StdDecode (trim_space b64) of
            None \<Rightarrow> Inl (Err (EnvVerifyKeys @ '': not valid base64''))
          | Some raw \<Rightarrow>
              if length raw \<noteq> 32 then Inl (Err (EnvVerifyKeys @ '': public key must be 32 bytes''))
              else verify_pairs rest (keys(kid \<mapsto> raw)))"

definition parseVerifyKeys :: "string \<Rightarrow> (string \<rightharpoonup> bytes) res" where
  "parseVerifyKeys s =
     (let s' = trim_space s in if s' = '''' then Inr Map.empty else verify_pairs (split_on CHR '','' s') Map.empty)"

section \<open>Optional parts\<close>

type_synonym getenv = "string \<Rightarrow> string"

abbreviation env_trim :: "getenv \<Rightarrow> string \<Rightarrow> string" where
  "env_trim getenv name \<equiv> trim_space (getenv name)"

record VaultConfig =
  vc_Address :: string
  vc_Token :: string
  vc_Mount :: string
  vc_KeyName :: string

definition parseVault :: "getenv \<Rightarrow> VaultConfig option res" where
  "parseVault getenv =
     (let addr = env_trim getenv EnvVaultAddr; key = env_trim getenv EnvVaultTransitKey; token = env_trim getenv EnvVaultToken;
          mount = env_trim getenv EnvVaultTransitMount
      in if addr = '''' \<and> key = '''' then Inr None
         else if addr = '''' \<or> key = '''' \<or> token = '''' then
           Inl (Err (''config: Vault signing needs '' @ EnvVaultAddr @ '', '' @ EnvVaultToken @ '' and '' @ EnvVaultTransitKey))
         else Inr (Some \<lparr>vc_Address = addr, vc_Token = token, vc_Mount = (if mount = '''' then ''transit'' else mount), vc_KeyName = key\<rparr>))"

record EKYCConfig =
  kc_VendorURL :: string
  kc_VendorToken :: string
  kc_WebhookSecret :: string

definition parseEKYC :: "getenv \<Rightarrow> EKYCConfig option res" where
  "parseEKYC getenv =
     (let url = env_trim getenv EnvEKYCVendorURL; secret = env_trim getenv EnvEKYCWebhookSecret
      in if url = '''' \<and> secret = '''' then Inr None
         else if url = '''' \<or> secret = '''' then
           Inl (Err (''config: eKYC needs both '' @ EnvEKYCVendorURL @ '' and '' @ EnvEKYCWebhookSecret))
         else Inr (Some \<lparr>kc_VendorURL = url, kc_VendorToken = env_trim getenv EnvEKYCVendorToken, kc_WebhookSecret = secret\<rparr>))"

record LiveKitConfig =
  lc_APIKey :: string
  lc_APISecret :: string
  lc_URL :: string
  lc_HTTPURL :: string
  lc_FilePrefix :: string
  lc_RecordingsBaseURL :: string
  lc_RecordingsSecret :: string
  lc_PlaybackTTL :: duration
  lc_RecordingMaxConcurrent :: int
  lc_RecordingStartRPS :: gofloat
  lc_RecordingStartBurst :: int

definition deriveHTTPURL :: "string \<Rightarrow> string" where
  "deriveHTTPURL wsURL =
     (if take 6 wsURL = ''wss://'' then ''https://'' @ trim_prefix wsURL ''wss://''
      else if take 5 wsURL = ''ws://'' then ''http://'' @ trim_prefix wsURL ''ws://''
      else wsURL)"

definition trim_slashes :: "string \<Rightarrow> string" where
  "trim_slashes s = rev (dropWhile (\<lambda>c. c = CHR ''/'') (rev s))"

definition defaultEgressFilePrefix :: string where "defaultEgressFilePrefix = ''/out/''"
definition defaultPlaybackTTL :: duration where "defaultPlaybackTTL = minutes 5"
definition defaultRecordingStartBurst :: int where "defaultRecordingStartBurst = 5"

definition parseLiveKit :: "(string \<Rightarrow> gofloat option) \<Rightarrow> getenv \<Rightarrow> LiveKitConfig option res" where
  "parseLiveKit parseFloat getenv =
     (let key = env_trim getenv EnvLiveKitAPIKey; secret = env_trim getenv EnvLiveKitAPISecret; url = env_trim getenv EnvLiveKitURL;
          httpURL = env_trim getenv EnvLiveKitHTTPURL; filePrefix = env_trim getenv EnvLiveKitFilePrefix
      in if key = '''' \<and> secret = '''' \<and> url = '''' then Inr None
         else if key = '''' \<or> secret = '''' \<or> url = '''' then
           Inl (Err (''config: live sessions need '' @ EnvLiveKitAPIKey @ '', '' @ EnvLiveKitAPISecret @ '' and '' @ EnvLiveKitURL))
         else
           and_then (named EnvPlaybackTTL (parseDuration (getenv EnvPlaybackTTL) defaultPlaybackTTL)) (\<lambda>playbackTTL.
           and_then (named EnvRecordingMaxConcurrent (parsePositiveInt (getenv EnvRecordingMaxConcurrent) 0)) (\<lambda>maxConcurrent.
           and_then (named EnvRecordingStartRPS (parsePositiveFloat parseFloat (getenv EnvRecordingStartRPS) (Fin 0))) (\<lambda>startRPS.
           and_then (named EnvRecordingStartBurst (parsePositiveInt (getenv EnvRecordingStartBurst) defaultRecordingStartBurst)) (\<lambda>startBurst.
           Inr (Some \<lparr>lc_APIKey = key, lc_APISecret = secret, lc_URL = url,
             lc_HTTPURL = (if httpURL = '''' then deriveHTTPURL url else httpURL),
             lc_FilePrefix = (if filePrefix = '''' then defaultEgressFilePrefix else filePrefix),
             lc_RecordingsBaseURL = trim_slashes (env_trim getenv EnvRecordingsBaseURL),
             lc_RecordingsSecret = env_trim getenv EnvRecordingsSecret, lc_PlaybackTTL = playbackTTL,
             lc_RecordingMaxConcurrent = maxConcurrent, lc_RecordingStartRPS = startRPS, lc_RecordingStartBurst = startBurst\<rparr>))))))"

record SMSConfig =
  sc_Provider :: string
  sc_From :: string
  sc_GatewayURL :: string
  sc_GatewayToken :: string
  sc_TwilioSID :: string
  sc_TwilioAuthToken :: string
  sc_VonageKey :: string
  sc_VonageSecret :: string

definition parseSMS :: "getenv \<Rightarrow> SMSConfig option res" where
  "parseSMS getenv =
     (let provider = env_trim getenv EnvSMSProvider;
          sc = \<lparr>sc_Provider = provider, sc_From = env_trim getenv EnvSMSFrom, sc_GatewayURL = '''', sc_GatewayToken = '''', sc_TwilioSID = '''',
            sc_TwilioAuthToken = '''', sc_VonageKey = '''', sc_VonageSecret = ''''\<rparr>
      in if provider = '''' then Inr None
         else if provider = ''generic'' then
           (let sc = sc\<lparr>sc_GatewayURL := env_trim getenv EnvSMSGatewayURL, sc_GatewayToken := getenv EnvSMSGatewayToken\<rparr>
            in if sc_GatewayURL sc = '''' then Inl (Err (''config: sms provider generic needs '' @ EnvSMSGatewayURL)) else Inr (Some sc))
         else if provider = ''twilio'' then
           (let sc = sc\<lparr>sc_TwilioSID := env_trim getenv EnvSMSTwilioSID, sc_TwilioAuthToken := env_trim getenv EnvSMSTwilioAuthToken\<rparr>
            in if sc_TwilioSID sc = '''' \<or> sc_TwilioAuthToken sc = '''' \<or> sc_From sc = '''' then
                 Inl (Err (''config: sms provider twilio needs '' @ EnvSMSTwilioSID @ '', '' @ EnvSMSTwilioAuthToken @ '' and '' @ EnvSMSFrom))
               else Inr (Some sc))
         else if provider = ''vonage'' then
           (let sc = sc\<lparr>sc_VonageKey := env_trim getenv EnvSMSVonageKey, sc_VonageSecret := env_trim getenv EnvSMSVonageSecret\<rparr>
            in if sc_VonageKey sc = '''' \<or> sc_VonageSecret sc = '''' \<or> sc_From sc = '''' then
                 Inl (Err (''config: sms provider vonage needs '' @ EnvSMSVonageKey @ '', '' @ EnvSMSVonageSecret @ '' and '' @ EnvSMSFrom))
               else Inr (Some sc))
         else Inl (Err (''config: unknown '' @ EnvSMSProvider)))"

definition parseSMTP :: "getenv \<Rightarrow> SMTPConfig option res" where
  "parseSMTP getenv =
     (let host = env_trim getenv EnvSMTPHost; port = env_trim getenv EnvSMTPPort; from = env_trim getenv EnvSMTPFrom
      in if host = '''' \<and> port = '''' \<and> from = '''' then Inr None
         else if host = '''' \<or> port = '''' \<or> from = '''' then
           Inl (Err (''config: email login needs '' @ EnvSMTPHost @ '', '' @ EnvSMTPPort @ '' and '' @ EnvSMTPFrom))
         else Inr (Some \<lparr>sm_Host = host, sm_Port = port, sm_From = from, sm_Username = env_trim getenv EnvSMTPUsername, sm_Password = getenv EnvSMTPPassword\<rparr>))"

record OIDCConfig =
  oi_RedirectBase :: string
  oi_Google :: "(string \<times> string) option"
  oi_Apple :: "AppleConfig option"
  oi_Zalo :: "(string \<times> string) option"

definition oidc_Enabled :: "OIDCConfig \<Rightarrow> bool" where
  "oidc_Enabled o' = (oi_Google o' \<noteq> None \<or> oi_Apple o' \<noteq> None \<or> oi_Zalo o' \<noteq> None)"

text \<open>Two credentials that are set together or not at all.\<close>

definition both_or_none :: "string \<Rightarrow> string \<Rightarrow> string \<Rightarrow> (string \<times> string) option res" where
  "both_or_none msg a b =
     (if a \<noteq> '''' \<or> b \<noteq> '''' then (if a = '''' \<or> b = '''' then Inl (Err msg) else Inr (Some (a, b))) else Inr None)"

definition parseApple :: "getenv \<Rightarrow> AppleConfig option res" where
  "parseApple getenv =
     (let aID = env_trim getenv EnvAppleClientID; aTeam = env_trim getenv EnvAppleTeamID; aKey = env_trim getenv EnvAppleKeyID;
          aPriv = env_trim getenv EnvApplePrivateKeyB64
      in if aID \<noteq> '''' \<or> aTeam \<noteq> '''' \<or> aKey \<noteq> '''' \<or> aPriv \<noteq> '''' then
           (if aID = '''' \<or> aTeam = '''' \<or> aKey = '''' \<or> aPriv = '''' then
              Inl (Err (''config: apple oidc needs '' @ EnvAppleClientID @ '', '' @ EnvAppleTeamID @ '', '' @ EnvAppleKeyID @ '' and '' @ EnvApplePrivateKeyB64))
            else case StdDecode aPriv of
              None \<Rightarrow> Inl (Err (EnvApplePrivateKeyB64 @ '': not valid base64''))
            | Some pem \<Rightarrow> Inr (Some \<lparr>ac_ClientID = aID, ac_TeamID = aTeam, ac_KeyID = aKey, ac_PrivateKey = pem\<rparr>))
         else Inr None)"

definition parseOIDC :: "getenv \<Rightarrow> OIDCConfig res" where
  "parseOIDC getenv =
     and_then (both_or_none (''config: google oidc needs both '' @ EnvGoogleClientID @ '' and '' @ EnvGoogleClientSecret)
         (env_trim getenv EnvGoogleClientID) (env_trim getenv EnvGoogleClientSecret)) (\<lambda>google.
     and_then (parseApple getenv) (\<lambda>apple.
     and_then (both_or_none (''config: zalo needs both '' @ EnvZaloAppID @ '' and '' @ EnvZaloAppSecret)
         (env_trim getenv EnvZaloAppID) (env_trim getenv EnvZaloAppSecret)) (\<lambda>zalo.
       let oc = \<lparr>oi_RedirectBase = trim_slashes (env_trim getenv EnvOIDCRedirectBase), oi_Google = google, oi_Apple = apple, oi_Zalo = zalo\<rparr>
       in if oidc_Enabled oc \<and> oi_RedirectBase oc = '''' then
            Inl (Err (''config: '' @ EnvOIDCRedirectBase @ '' is required when an OIDC provider is configured''))
          else Inr oc)))"

section \<open>Load\<close>

definition defaultHTTPAddr :: string where "defaultHTTPAddr = '':8080''"
definition defaultAccessTTL :: duration where "defaultAccessTTL = minutes 15"
definition defaultRefreshTTL :: duration where "defaultRefreshTTL = minutes (30 * 24 * 60)"
definition defaultPresenceCheckpointInterval :: duration where "defaultPresenceCheckpointInterval = seconds 30"
definition defaultRateLimitRPS :: gofloat where "defaultRateLimitRPS = Fin 20"
definition defaultRateLimitBurst :: int where "defaultRateLimitBurst = 40"

record Config =
  cf_HTTPAddr :: string
  cf_DBDSN :: string
  cf_Kid :: string
  cf_SigningKey :: "bytes option"
  cf_VerifyKeys :: "string \<rightharpoonup> bytes"
  cf_Vault :: "VaultConfig option"
  cf_AccessTTL :: duration
  cf_RefreshTTL :: duration
  cf_PresenceCheckpointInterval :: duration
  cf_RateLimitRPS :: gofloat
  cf_RateLimitBurst :: int
  cf_OIDC :: OIDCConfig
  cf_SMTP :: "SMTPConfig option"
  cf_SMS :: "SMSConfig option"
  cf_LiveKit :: "LiveKitConfig option"
  cf_EKYC :: "EKYCConfig option"
  cf_DevOTPConsole :: bool

definition Load :: "(bytes \<Rightarrow> bytes) \<Rightarrow> (string \<Rightarrow> gofloat option) \<Rightarrow> getenv \<Rightarrow> Config res" where
  "Load pubOf parseFloat getenv =
     (let kid = getenv EnvKid; rawKey = getenv EnvSigningKey in
      if getenv EnvDBDSN = '''' then Inl (missing EnvDBDSN)
      else if kid = '''' then Inl (missing EnvKid)
      else
        and_then (parseVault getenv) (\<lambda>vault.
        and_then (if vault = None \<or> rawKey \<noteq> '''' then and_then (parseSigningKey pubOf rawKey) (\<lambda>k. Inr (Some k)) else Inr None) (\<lambda>signing.
        and_then (parseVerifyKeys (getenv EnvVerifyKeys)) (\<lambda>verify.
        let verify = (case signing of Some k \<Rightarrow> if verify kid = None then verify(kid \<mapsto> key_Public k) else verify | None \<Rightarrow> verify) in
        and_then (named EnvAccessTTL (parseDuration (getenv EnvAccessTTL) defaultAccessTTL)) (\<lambda>accessTTL.
        and_then (named EnvRefreshTTL (parseDuration (getenv EnvRefreshTTL) defaultRefreshTTL)) (\<lambda>refreshTTL.
        and_then (named EnvPresenceCheckpointInterval (parseDuration (getenv EnvPresenceCheckpointInterval) defaultPresenceCheckpointInterval)) (\<lambda>interval.
        and_then (named EnvRateLimitRPS (parsePositiveFloat parseFloat (getenv EnvRateLimitRPS) defaultRateLimitRPS)) (\<lambda>rps.
        and_then (named EnvRateLimitBurst (parsePositiveInt (getenv EnvRateLimitBurst) defaultRateLimitBurst)) (\<lambda>burst.
        and_then (parseOIDC getenv) (\<lambda>oidc.
        and_then (parseSMTP getenv) (\<lambda>smtp.
        and_then (parseSMS getenv) (\<lambda>sms.
        and_then (parseLiveKit parseFloat getenv) (\<lambda>livekit.
        and_then (parseEKYC getenv) (\<lambda>ekyc.
        Inr \<lparr>cf_HTTPAddr = orDefault (getenv EnvHTTPAddr) defaultHTTPAddr, cf_DBDSN = getenv EnvDBDSN, cf_Kid = kid, cf_SigningKey = signing,
          cf_VerifyKeys = verify, cf_Vault = vault, cf_AccessTTL = accessTTL, cf_RefreshTTL = refreshTTL, cf_PresenceCheckpointInterval = interval,
          cf_RateLimitRPS = rps, cf_RateLimitBurst = burst, cf_OIDC = oidc, cf_SMTP = smtp, cf_SMS = sms, cf_LiveKit = livekit, cf_EKYC = ekyc,
          cf_DevOTPConsole = truthy (getenv EnvDevOTPConsole)\<rparr>))))))))))))))"

section \<open>What a loaded configuration is\<close>

lemma and_then_Inr [simp]: "and_then r f = Inr y \<longleftrightarrow> (\<exists>x. r = Inr x \<and> f x = Inr y)"
  by (cases r) (simp_all add: and_then_def)

lemma named_Inr [simp]: "named name r = Inr x \<longleftrightarrow> r = Inr x"
  by (auto simp: named_def split: sum.splits error.splits)

lemma parse_positive:
  "parseDuration s d0 = Inr d \<Longrightarrow> 0 < d0 \<Longrightarrow> 0 < d" "parsePositiveInt s i0 = Inr i \<Longrightarrow> 0 < i0 \<Longrightarrow> 0 < i"
  "parsePositiveInt s 0 = Inr i \<Longrightarrow> 0 \<le> i" "parsePositiveFloat pf s f0 = Inr f \<Longrightarrow> \<not> le_zero f0 \<Longrightarrow> \<not> le_zero f"
  by (auto simp: parseDuration_def parsePositiveInt_def parsePositiveFloat_def split: if_splits option.splits)

definition vault_wf :: "VaultConfig \<Rightarrow> bool" where
  "vault_wf v \<longleftrightarrow> vc_Address v \<noteq> '''' \<and> vc_Token v \<noteq> '''' \<and> vc_Mount v \<noteq> '''' \<and> vc_KeyName v \<noteq> ''''"

definition sms_wf :: "SMSConfig \<Rightarrow> bool" where
  "sms_wf c \<longleftrightarrow> sc_Provider c = ''generic'' \<and> sc_GatewayURL c \<noteq> ''''
     \<or> sc_Provider c = ''twilio'' \<and> sc_TwilioSID c \<noteq> '''' \<and> sc_TwilioAuthToken c \<noteq> '''' \<and> sc_From c \<noteq> ''''
     \<or> sc_Provider c = ''vonage'' \<and> sc_VonageKey c \<noteq> '''' \<and> sc_VonageSecret c \<noteq> '''' \<and> sc_From c \<noteq> ''''"

definition livekit_wf :: "LiveKitConfig \<Rightarrow> bool" where
  "livekit_wf c \<longleftrightarrow> lc_APIKey c \<noteq> '''' \<and> lc_APISecret c \<noteq> '''' \<and> lc_URL c \<noteq> '''' \<and> lc_HTTPURL c \<noteq> '''' \<and> lc_FilePrefix c \<noteq> ''''
     \<and> 0 < lc_PlaybackTTL c \<and> 0 \<le> lc_RecordingMaxConcurrent c \<and> 0 < lc_RecordingStartBurst c"

definition oidc_wf :: "OIDCConfig \<Rightarrow> bool" where
  "oidc_wf c \<longleftrightarrow> (oidc_Enabled c \<longrightarrow> oi_RedirectBase c \<noteq> '''')
     \<and> (\<forall>i s. oi_Google c = Some (i, s) \<longrightarrow> i \<noteq> '''' \<and> s \<noteq> '''') \<and> (\<forall>i s. oi_Zalo c = Some (i, s) \<longrightarrow> i \<noteq> '''' \<and> s \<noteq> '''')
     \<and> (\<forall>a. oi_Apple c = Some a \<longrightarrow> ac_ClientID a \<noteq> '''' \<and> ac_TeamID a \<noteq> '''' \<and> ac_KeyID a \<noteq> '''')"

text \<open>The keys: without the vault there is a signing key; a signing key has 64 bytes and its id is in the verify set, all of whose
  keys have 32 bytes.\<close>

definition keys_wf :: "Config \<Rightarrow> bool" where
  "keys_wf c \<longleftrightarrow> cf_Kid c \<noteq> '''' \<and> (cf_Vault c = None \<longrightarrow> cf_SigningKey c \<noteq> None)
     \<and> (\<forall>k. cf_SigningKey c = Some k \<longrightarrow> length k = 64 \<and> cf_Kid c \<in> dom (cf_VerifyKeys c))
     \<and> (\<forall>pk \<in> ran (cf_VerifyKeys c). length pk = 32)"

definition config_wf :: "Config \<Rightarrow> bool" where
  "config_wf c \<longleftrightarrow> cf_DBDSN c \<noteq> '''' \<and> cf_HTTPAddr c \<noteq> '''' \<and> keys_wf c \<and> pred_option vault_wf (cf_Vault c)
     \<and> 0 < cf_AccessTTL c \<and> 0 < cf_RefreshTTL c \<and> 0 < cf_PresenceCheckpointInterval c \<and> \<not> le_zero (cf_RateLimitRPS c) \<and> 0 < cf_RateLimitBurst c
     \<and> oidc_wf (cf_OIDC c) \<and> pred_option (\<lambda>m. sm_Host m \<noteq> '''' \<and> sm_Port m \<noteq> '''' \<and> sm_From m \<noteq> '''') (cf_SMTP c)
     \<and> pred_option sms_wf (cf_SMS c) \<and> pred_option livekit_wf (cf_LiveKit c)
     \<and> pred_option (\<lambda>e. kc_VendorURL e \<noteq> '''' \<and> kc_WebhookSecret e \<noteq> '''') (cf_EKYC c)"

lemma verify_pairs_wf:
  "verify_pairs ps keys = Inr m \<Longrightarrow> \<forall>pk \<in> ran keys. length pk = 32 \<Longrightarrow> \<forall>pk \<in> ran m. length pk = 32"
proof (induction ps keys rule: verify_pairs.induct)
  case (2 pair rest keys)
  obtain kid b64 raw where p: "cut CHR '':'' (trim_space pair) = Some (kid, b64)" "kid \<noteq> ''''" "StdDecode (trim_space b64) = Some raw"
    "length raw = 32" "verify_pairs rest (keys(kid \<mapsto> raw)) = Inr m"
    using 2(2) by (auto split: option.splits if_splits)
  have "\<forall>pk \<in> ran (keys(kid \<mapsto> raw)). length pk = 32" using 2(3) p(4) by (auto simp: ran_def)
  from 2(1) [OF p(1) _ p(2,3) _ p(5) this] p(4) show ?case by simp
qed simp

lemma parse_parts_wf:
  "parseVault env = Inr v \<Longrightarrow> pred_option vault_wf v"
  "parseEKYC env = Inr e \<Longrightarrow> pred_option (\<lambda>e. kc_VendorURL e \<noteq> '''' \<and> kc_WebhookSecret e \<noteq> '''') e"
  "parseSMTP env = Inr m \<Longrightarrow> pred_option (\<lambda>m. sm_Host m \<noteq> '''' \<and> sm_Port m \<noteq> '''' \<and> sm_From m \<noteq> '''') m"
  "parseVerifyKeys s = Inr ks \<Longrightarrow> \<forall>pk \<in> ran ks. length pk = 32"
  using verify_pairs_wf [of _ Map.empty]
  by (auto simp: parseVault_def parseEKYC_def parseSMTP_def parseVerifyKeys_def Let_def vault_wf_def split: if_splits)

lemma parseSMS_wf: "parseSMS env = Inr c \<Longrightarrow> pred_option sms_wf c"
  by (auto simp: parseSMS_def Let_def sms_wf_def split: if_splits)

lemma deriveHTTPURL_nonempty: "s \<noteq> '''' \<Longrightarrow> deriveHTTPURL s \<noteq> ''''"
  by (simp add: deriveHTTPURL_def)

lemma parseLiveKit_wf: "parseLiveKit pf env = Inr c \<Longrightarrow> pred_option livekit_wf c"
  using parse_positive(1) [of _ defaultPlaybackTTL] parse_positive(2) [of _ defaultRecordingStartBurst] parse_positive(3)
  by (auto simp: parseLiveKit_def Let_def livekit_wf_def deriveHTTPURL_nonempty defaultEgressFilePrefix_def defaultPlaybackTTL_def
      defaultRecordingStartBurst_def minutes_def seconds_def split: if_splits)

lemma parseOIDC_wf: "parseOIDC env = Inr c \<Longrightarrow> oidc_wf c"
  by (auto simp: parseOIDC_def Let_def oidc_wf_def both_or_none_def parseApple_def split: if_splits option.splits)

lemma parseSigningKey_wf: "parseSigningKey pubOf s = Inr k \<Longrightarrow> (\<And>seed. length (pubOf seed) = 32) \<Longrightarrow> length k = 64"
  by (auto simp: parseSigningKey_def NewKeyFromSeed_def split: if_splits option.splits)

lemma default_positive: "0 < defaultAccessTTL" "0 < defaultRefreshTTL" "0 < defaultPresenceCheckpointInterval" "0 < defaultRateLimitBurst"
  "\<not> le_zero defaultRateLimitRPS"
  by (simp_all add: defaultAccessTTL_def defaultRefreshTTL_def defaultPresenceCheckpointInterval_def defaultRateLimitBurst_def defaultRateLimitRPS_def
      minutes_def seconds_def)

lemma Load_InrD:
  assumes "Load pubOf pf env = Inr c"
  obtains signing verify where "cf_DBDSN c = env EnvDBDSN" "env EnvDBDSN \<noteq> ''''" "cf_Kid c = env EnvKid" "env EnvKid \<noteq> ''''"
    "cf_HTTPAddr c = orDefault (env EnvHTTPAddr) defaultHTTPAddr" "parseVault env = Inr (cf_Vault c)" "cf_SigningKey c = signing"
    "(cf_Vault c = None \<or> env EnvSigningKey \<noteq> '''') \<and> (\<exists>k. signing = Some k \<and> parseSigningKey pubOf (env EnvSigningKey) = Inr k)
       \<or> cf_Vault c \<noteq> None \<and> env EnvSigningKey = '''' \<and> signing = None"
    "parseVerifyKeys (env EnvVerifyKeys) = Inr verify"
    "cf_VerifyKeys c = (case signing of Some k \<Rightarrow> if verify (env EnvKid) = None then verify(env EnvKid \<mapsto> key_Public k) else verify | None \<Rightarrow> verify)"
    "parseDuration (env EnvAccessTTL) defaultAccessTTL = Inr (cf_AccessTTL c)" "parseDuration (env EnvRefreshTTL) defaultRefreshTTL = Inr (cf_RefreshTTL c)"
    "parseDuration (env EnvPresenceCheckpointInterval) defaultPresenceCheckpointInterval = Inr (cf_PresenceCheckpointInterval c)"
    "parsePositiveFloat pf (env EnvRateLimitRPS) defaultRateLimitRPS = Inr (cf_RateLimitRPS c)"
    "parsePositiveInt (env EnvRateLimitBurst) defaultRateLimitBurst = Inr (cf_RateLimitBurst c)"
    "parseOIDC env = Inr (cf_OIDC c)" "parseSMTP env = Inr (cf_SMTP c)" "parseSMS env = Inr (cf_SMS c)" "parseLiveKit pf env = Inr (cf_LiveKit c)"
    "parseEKYC env = Inr (cf_EKYC c)"
proof -
  have n: "env EnvDBDSN \<noteq> ''''" "env EnvKid \<noteq> ''''" using assms by (auto simp: Load_def Let_def split: if_splits)
  define key where "key vault = (if vault = None \<or> env EnvSigningKey \<noteq> '''' then and_then (parseSigningKey pubOf (env EnvSigningKey)) (\<lambda>k. Inr (Some k))
    else Inr None)" for vault :: "VaultConfig option"
  define own where "own signing verify = (case signing of Some k \<Rightarrow> if verify (env EnvKid) = None then verify(env EnvKid \<mapsto> key_Public k) else verify | None \<Rightarrow> verify)"
    for signing :: "bytes option" and verify :: "string \<rightharpoonup> bytes"
  obtain vault signing verify where e: "parseVault env = Inr vault" "key vault = Inr signing" "parseVerifyKeys (env EnvVerifyKeys) = Inr verify"
    and c: "cf_DBDSN c = env EnvDBDSN" "cf_Kid c = env EnvKid" "cf_HTTPAddr c = orDefault (env EnvHTTPAddr) defaultHTTPAddr" "cf_Vault c = vault"
      "cf_SigningKey c = signing" "cf_VerifyKeys c = own signing verify"
    and r: "parseDuration (env EnvAccessTTL) defaultAccessTTL = Inr (cf_AccessTTL c)" "parseDuration (env EnvRefreshTTL) defaultRefreshTTL = Inr (cf_RefreshTTL c)"
      "parseDuration (env EnvPresenceCheckpointInterval) defaultPresenceCheckpointInterval = Inr (cf_PresenceCheckpointInterval c)"
      "parsePositiveFloat pf (env EnvRateLimitRPS) defaultRateLimitRPS = Inr (cf_RateLimitRPS c)"
      "parsePositiveInt (env EnvRateLimitBurst) defaultRateLimitBurst = Inr (cf_RateLimitBurst c)"
      "parseOIDC env = Inr (cf_OIDC c)" "parseSMTP env = Inr (cf_SMTP c)" "parseSMS env = Inr (cf_SMS c)" "parseLiveKit pf env = Inr (cf_LiveKit c)"
      "parseEKYC env = Inr (cf_EKYC c)"
    using assms n unfolding Load_def Let_def key_def [symmetric] own_def [symmetric] by auto
  have "(cf_Vault c = None \<or> env EnvSigningKey \<noteq> '''') \<and> (\<exists>k. signing = Some k \<and> parseSigningKey pubOf (env EnvSigningKey) = Inr k)
       \<or> cf_Vault c \<noteq> None \<and> env EnvSigningKey = '''' \<and> signing = None"
    using e(2) c(4) by (auto simp: key_def split: if_splits)
  with that [OF c(1) n(1) c(2) n(2) c(3) _ c(5) _ e(3) c(6) [unfolded own_def] r] e(1) c(4) show thesis by simp
qed

lemma loaded_wf:
  assumes "Load pubOf parseFloat getenv = Inr c" "\<And>seed. length (pubOf seed) = 32"
  shows "config_wf c"
proof (rule Load_InrD [OF assms(1)])
  fix signing verify
  assume p: "cf_DBDSN c = getenv EnvDBDSN" "getenv EnvDBDSN \<noteq> ''''" "cf_Kid c = getenv EnvKid" "getenv EnvKid \<noteq> ''''"
    "cf_HTTPAddr c = orDefault (getenv EnvHTTPAddr) defaultHTTPAddr" "parseVault getenv = Inr (cf_Vault c)" "cf_SigningKey c = signing"
    "parseDuration (getenv EnvAccessTTL) defaultAccessTTL = Inr (cf_AccessTTL c)" "parseDuration (getenv EnvRefreshTTL) defaultRefreshTTL = Inr (cf_RefreshTTL c)"
    "parseDuration (getenv EnvPresenceCheckpointInterval) defaultPresenceCheckpointInterval = Inr (cf_PresenceCheckpointInterval c)"
    "parsePositiveFloat parseFloat (getenv EnvRateLimitRPS) defaultRateLimitRPS = Inr (cf_RateLimitRPS c)"
    "parsePositiveInt (getenv EnvRateLimitBurst) defaultRateLimitBurst = Inr (cf_RateLimitBurst c)"
    "parseOIDC getenv = Inr (cf_OIDC c)" "parseSMTP getenv = Inr (cf_SMTP c)" "parseSMS getenv = Inr (cf_SMS c)"
    "parseLiveKit parseFloat getenv = Inr (cf_LiveKit c)" "parseEKYC getenv = Inr (cf_EKYC c)"
    and s: "(cf_Vault c = None \<or> getenv EnvSigningKey \<noteq> '''') \<and> (\<exists>k. signing = Some k \<and> parseSigningKey pubOf (getenv EnvSigningKey) = Inr k)
       \<or> cf_Vault c \<noteq> None \<and> getenv EnvSigningKey = '''' \<and> signing = None"
    and v: "parseVerifyKeys (getenv EnvVerifyKeys) = Inr verify"
      "cf_VerifyKeys c = (case signing of Some k \<Rightarrow> if verify (getenv EnvKid) = None then verify(getenv EnvKid \<mapsto> key_Public k) else verify | None \<Rightarrow> verify)"
  have len: "signing = Some k \<Longrightarrow> length k = 64" for k using s parseSigningKey_wf [OF _ assms(2)] by auto
  then have "\<forall>pk \<in> ran (cf_VerifyKeys c). length pk = 32"
    using parse_parts_wf(4) [OF v(1)] unfolding v(2) by (auto simp: ran_def key_Public_def split: option.splits if_splits)
  moreover have "signing = Some k \<Longrightarrow> getenv EnvKid \<in> dom (cf_VerifyKeys c)" for k unfolding v(2) by auto
  ultimately have "keys_wf c" unfolding keys_wf_def p(3,7) using p(4) s len by auto
  moreover have "cf_HTTPAddr c \<noteq> ''''" unfolding p(5) by (auto simp: orDefault_def defaultHTTPAddr_def trim_space_def)
  ultimately show ?thesis
    unfolding config_wf_def
    using p(1,2) parse_positive(1) [OF p(8) default_positive(1)] parse_positive(1) [OF p(9) default_positive(2)] parse_positive(1) [OF p(10) default_positive(3)]
      parse_positive(4) [OF p(11) default_positive(5)] parse_positive(2) [OF p(12) default_positive(4)] parseOIDC_wf [OF p(13)] parse_parts_wf(3) [OF p(14)]
      parseSMS_wf [OF p(15)] parseLiveKit_wf [OF p(16)] parse_parts_wf(2) [OF p(17)] parse_parts_wf(1) [OF p(6)]
    by (intro conjI) simp_all
qed

text \<open>C27: every configuration that \<^verbatim>\<open>Load\<close> accepts is well formed, whatever the environment: the lifetimes, the interval and the burst
  are positive and the rate is not zero or less (NaN passes); there is a signing key or a complete vault; a signing key of the environment has its id in the
  verify set, whose keys all have the right length (with Vault alone the set may be empty: the key of the vault is added when the server starts); and every
  optional part is complete or absent.\<close>
theorem Load_wf:
  assumes "Load pubOf parseFloat getenv = Inr c" "\<And>seed. length (pubOf seed) = 32"
  shows "config_wf c"
  by (rule loaded_wf [OF assms])

definition demo_env :: getenv where
  "demo_env n = (if n = EnvDBDSN then ''postgres://db'' else if n = EnvKid then ''k1'' else if n = EnvVaultAddr then ''http://v'' else if n = EnvVaultToken then ''t''
     else if n = EnvVaultTransitKey then ''sig'' else if n = EnvAccessTTL then ''10m30s'' else '''')"

lemma demo_duration: "ParseDuration ''10m30s'' = Some (seconds 630)"
  by (simp add: ParseDuration_def duration_loop.simps duration_part_def digit_val_def num_char_def unitMap_def minutes_def seconds_def Let_def)

lemma demo_Load: "\<exists>c. Load pubOf (\<lambda>_. None) demo_env = Inr c \<and> cf_AccessTTL c = seconds 630 \<and> cf_RefreshTTL c = defaultRefreshTTL
    \<and> \<not> oidc_Enabled (cf_OIDC c) \<and> cf_SMTP c = None \<and> cf_SMS c = None \<and> cf_LiveKit c = None \<and> cf_EKYC c = None \<and> \<not> cf_DevOTPConsole c"
proof -
  note names = demo_env_def env_names
  have v: "parseVault demo_env = Inr (Some \<lparr>vc_Address = ''http://v'', vc_Token = ''t'', vc_Mount = ''transit'', vc_KeyName = ''sig''\<rparr>)"
    by (simp add: parseVault_def Let_def names trim_space_def is_space_def)
  have o: "parseOIDC demo_env = Inr \<lparr>oi_RedirectBase = '''', oi_Google = None, oi_Apple = None, oi_Zalo = None\<rparr>" "parseSMTP demo_env = Inr None"
    "parseSMS demo_env = Inr None" "parseLiveKit (\<lambda>_. None) demo_env = Inr None" "parseEKYC demo_env = Inr None"
    by (simp_all add: parseOIDC_def both_or_none_def parseApple_def parseSMTP_def parseSMS_def parseLiveKit_def parseEKYC_def names trim_space_def is_space_def
        and_then_def trim_slashes_def oidc_Enabled_def Let_def)
  have k: "demo_env EnvDBDSN \<noteq> ''''" "demo_env EnvKid \<noteq> ''''" "demo_env EnvSigningKey = ''''" "demo_env EnvVerifyKeys = ''''" "demo_env EnvAccessTTL = ''10m30s''"
    "demo_env EnvRefreshTTL = ''''" "demo_env EnvPresenceCheckpointInterval = ''''" "demo_env EnvRateLimitRPS = ''''" "demo_env EnvRateLimitBurst = ''''"
    by (simp_all add: names)
  have d: "parseDuration ''10m30s'' d0 = Inr (seconds 630)" "parseDuration '''' d0 = Inr d0" for d0
    by (simp_all add: parseDuration_def demo_duration minutes_def seconds_def trim_space_def is_space_def)
  show ?thesis
    by (simp add: Load_def Let_def k v o d and_then_def named_def parseVerifyKeys_def parsePositiveFloat_def parsePositiveInt_def trim_space_def oidc_Enabled_def truthy_def lower_def names)
qed

theorem Load_wf_witness:
  "\<exists>c. Load (\<lambda>_. replicate 32 (CHR 0x00)) (\<lambda>_. None) demo_env = Inr c \<and> cf_AccessTTL c = seconds 630 \<and> config_wf c"
proof -
  obtain c where c: "Load (\<lambda>_. replicate 32 (CHR 0x00)) (\<lambda>_. None) demo_env = Inr c" "cf_AccessTTL c = seconds 630" using demo_Load by blast
  have "config_wf c" by (rule Load_wf [OF c(1)]) simp
  with c show ?thesis by blast
qed

end
