(* ===== verification/Vault.thy ===== *)
theory Vault
  imports Config AuditLog
begin

text \<open>
  Signing keys at startup: the signer that asks Vault's Transit engine (\<^verbatim>\<open>internal/vaultsign/vaultsign.go\<close>) and
  \<^verbatim>\<open>buildSigning\<close> of \<^verbatim>\<open>cmd/authd/main.go\<close>, which picks the signer and the keys that tokens and audit entries are verified with.

  JSON decoding of Vault's replies, PEM and SPKI parsing are parameters.
\<close>

section \<open>Vault's Transit engine\<close>

record VaultSigner =
  vs_Address :: string
  vs_Token :: string
  vs_Mount :: string
  vs_KeyName :: string
  vs_KeyID :: string
  vs_client :: HttpClient

definition vault_New :: "VaultSigner \<Rightarrow> VaultSigner res" where
  "vault_New cfg =
     (if vs_Address cfg = '''' then Inl (Err ''vaultsign: address required'')
      else if vs_Token cfg = '''' then Inl (Err ''vaultsign: token required'')
      else if vs_KeyName cfg = '''' then Inl (Err ''vaultsign: transit key name required'')
      else if vs_KeyID cfg = '''' then Inl (Err ''vaultsign: key id required'')
      else Inr (cfg\<lparr>vs_Mount := (if vs_Mount cfg = '''' then ''transit'' else vs_Mount cfg), vs_Address := trim_slashes (vs_Address cfg)\<rparr>))"

text \<open>What Vault answers with: a signature, or the latest version and the public keys by version.\<close>

record VaultCodec =
  vx_signature :: "bytes \<Rightarrow> string option"
  vx_keys :: "bytes \<Rightarrow> (int \<times> (string \<rightharpoonup> string)) option"
  vx_pem :: "string \<Rightarrow> bytes option"
  vx_pkix :: "bytes \<Rightarrow> bytes option option"

definition after_colon :: "string \<Rightarrow> string" where
  "after_colon s = rev (takeWhile (\<lambda>c. c \<noteq> CHR '':'') (rev s))"

definition parseTransitSignature :: "string \<Rightarrow> bytes res" where
  "parseTransitSignature sig =
     (if sig = '''' then Inl (Err ''vaultsign: empty signature in response'')
      else if CHR '':'' \<notin> set sig \<or> after_colon sig = '''' then Inl (Err ''vaultsign: malformed signature'')
      else case StdDecode (after_colon sig) of
        None \<Rightarrow> Inl (Err ''vaultsign: signature not valid base64'')
      | Some out \<Rightarrow> Inr out)"

definition vault_SignRaw :: "VaultCodec \<Rightarrow> VaultSigner \<Rightarrow> bytes \<Rightarrow> bytes res" where
  "vault_SignRaw vx s message =
     (case send_request (vs_client s) ''vaultsign: request failed'' (2 ^ 16)
         \<lparr>oq_Method = ''POST'', oq_URL = vs_Address s @ ''/v1/'' @ vs_Mount s @ ''/sign/'' @ vs_KeyName s,
          oq_Header = [(''X-Vault-Token'', vs_Token s), json_type], oq_Body = JsonPayload (JObj [(''input'', JStr (StdEncode message))])\<rparr> of
        Inl err \<Rightarrow> Inl err
      | Inr (status, raw) \<Rightarrow>
          if status \<noteq> 200 then Inl (Err (''vaultsign: vault returned '' @ format_nat status @ '': '' @ trim_space raw))
          else (case vx_signature vx raw of
                  None \<Rightarrow> Inl (Err ''vaultsign: bad response'')
                | Some sig \<Rightarrow> parseTransitSignature sig))"

text \<open>\<open>pkix\<close> gives nothing for bad DER, nothing inside for a key of another kind.\<close>

definition ed25519FromPKIX :: "VaultCodec \<Rightarrow> bytes \<Rightarrow> bytes res" where
  "ed25519FromPKIX vx der =
     (case vx_pkix vx der of
        None \<Rightarrow> Inl (Err ''vaultsign: parse public key'')
      | Some None \<Rightarrow> Inl (Err ''vaultsign: transit key is not ed25519'')
      | Some (Some ed) \<Rightarrow> Inr ed)"

fun contains :: "string \<Rightarrow> string \<Rightarrow> bool" where
  "contains [] sub = (sub = [])"
| "contains (c # cs) sub = (take (length sub) (c # cs) = sub \<or> contains cs sub)"

definition parseEd25519PublicKey :: "VaultCodec \<Rightarrow> string \<Rightarrow> bytes res" where
  "parseEd25519PublicKey vx s0 =
     (let s = trim_space s0 in
      if contains s ''-----BEGIN'' then
        (case vx_pem vx s of
           None \<Rightarrow> Inl (Err ''vaultsign: invalid PEM public key'')
         | Some der \<Rightarrow> ed25519FromPKIX vx der)
      else case StdDecode s of
        None \<Rightarrow> Inl (Err ''vaultsign: public key not base64 or PEM'')
      | Some dec \<Rightarrow> if length dec = 32 then Inr dec else ed25519FromPKIX vx dec)"

definition vault_PublicKey :: "VaultCodec \<Rightarrow> VaultSigner \<Rightarrow> bytes res" where
  "vault_PublicKey vx s =
     (case send_request (vs_client s) ''vaultsign: read key failed'' (2 ^ 16)
         \<lparr>oq_Method = ''GET'', oq_URL = vs_Address s @ ''/v1/'' @ vs_Mount s @ ''/keys/'' @ vs_KeyName s,
          oq_Header = [(''X-Vault-Token'', vs_Token s)], oq_Body = NoPayload\<rparr> of
        Inl err \<Rightarrow> Inl err
      | Inr (status, raw) \<Rightarrow>
          if status \<noteq> 200 then Inl (Err (''vaultsign: vault returned '' @ format_nat status @ '' reading key: '' @ trim_space raw))
          else (case vx_keys vx raw of
                  None \<Rightarrow> Inl (Err ''vaultsign: bad key response'')
                | Some (latest, keys) \<Rightarrow>
                    (case keys (FormatInt latest) of
                       None \<Rightarrow> Inl (Err (''vaultsign: no public key for version '' @ FormatInt latest))
                     | Some pk \<Rightarrow>
                         if pk = '''' then Inl (Err (''vaultsign: no public key for version '' @ FormatInt latest))
                         else parseEd25519PublicKey vx pk)))"

section \<open>The signer of the service\<close>

definition vault_KeySigner :: "VaultCodec \<Rightarrow> VaultSigner \<Rightarrow> KeySigner" where
  "vault_KeySigner vx s = \<lparr>KeyID = vs_KeyID s, SignRaw = vault_SignRaw vx s\<rparr>"

definition vault_of :: "HttpClient \<Rightarrow> string \<Rightarrow> VaultConfig \<Rightarrow> VaultSigner" where
  "vault_of hc kid v = \<lparr>vs_Address = vc_Address v, vs_Token = vc_Token v, vs_Mount = vc_Mount v, vs_KeyName = vc_KeyName v, vs_KeyID = kid, vs_client = hc\<rparr>"

text \<open>Without a vault the signing key is there (\<open>[]\<close> stands for Go's nil key, which the constructor refuses).\<close>

definition buildSigning ::
  "(bytes \<Rightarrow> bytes \<Rightarrow> bytes) \<Rightarrow> VaultCodec \<Rightarrow> HttpClient \<Rightarrow> Config \<Rightarrow> (KeySigner \<times> (string \<rightharpoonup> bytes)) res" where
  "buildSigning edsign vx hc cfg =
     (let verify = cf_VerifyKeys cfg in
      case cf_Vault cfg of
        None \<Rightarrow>
          (case NewLocalKeySigner edsign (cf_Kid cfg) (case cf_SigningKey cfg of None \<Rightarrow> [] | Some k \<Rightarrow> k) of
             Inl err \<Rightarrow> Inl err
           | Inr ks \<Rightarrow> Inr (ks, verify))
      | Some v \<Rightarrow>
          (case vault_New (vault_of hc (cf_Kid cfg) v) of
             Inl err \<Rightarrow> Inl err
           | Inr vs \<Rightarrow>
               if verify (cf_Kid cfg) \<noteq> None then Inr (vault_KeySigner vx vs, verify)
               else (case vault_PublicKey vx vs of
                       Inl err \<Rightarrow> Inl err
                     | Inr pub \<Rightarrow> Inr (vault_KeySigner vx vs, verify(cf_Kid cfg \<mapsto> pub)))))"

section \<open>The service verifies what it signs\<close>

lemma after_colon_last: "CHR '':'' \<notin> set b \<Longrightarrow> after_colon (a @ '':'' @ b) = b"
  by (simp add: after_colon_def takeWhile_append takeWhile_eq_all_conv rev_swap)

lemma parse_transit_signature: "sig \<noteq> [] \<Longrightarrow> parseTransitSignature (''vault:v'' @ FormatInt n @ '':'' @ StdEncode sig) = Inr sig"
proof -
  assume n: "sig \<noteq> []"
  have a: "after_colon (''vault:v'' @ FormatInt n @ '':'' @ StdEncode sig) = StdEncode sig"
    using after_colon_last [OF StdEncode_no_colon, of "''vault:v'' @ FormatInt n" sig] by simp
  have "StdEncode sig \<noteq> ''''"
  proof
    assume "StdEncode sig = ''''"
    then have "StdDecode '''' = Some sig" using StdDecode_StdEncode [of sig] by simp
    then show False using n by (simp add: StdDecode_def DecodeString_def)
  qed
  with a show ?thesis by (simp add: parseTransitSignature_def StdDecode_StdEncode)
qed

lemma Load_own_key:
  assumes "Load pubOf pf env = Inr cfg" "parseVerifyKeys (env EnvVerifyKeys) = Inr listed" "listed (cf_Kid cfg) = None"
  shows "cf_VerifyKeys cfg (cf_Kid cfg) = map_option key_Public (cf_SigningKey cfg)"
  by (rule Load_InrD [OF assms(1)]) (use assms(2,3) in \<open>auto split: option.splits\<close>)

text \<open>A service that starts verifies what it signs. If the configuration loads and the signer is built, the environment lists no
  other key under the signer's id and does not give a key and a vault at once, then whatever the signer signs verifies under the key the
  verify set has for the signer's id, which is what the audit chain, the consent ledger and the access tokens rest on.\<close>
lemma buildSigning_verifies_itself:
  assumes "Load pubOf parseFloat getenv = Inr cfg" "buildSigning edsign vx hc cfg = Inr (ks, keys)"
    and "parseVerifyKeys (getenv EnvVerifyKeys) = Inr listed" "listed (cf_Kid cfg) = None"
    and "cf_Vault cfg = None \<or> cf_SigningKey cfg = None"
    and "\<And>k m. cf_SigningKey cfg = Some k \<Longrightarrow> edv (key_Public k) m (edsign k m)"
    and "\<And>vs pub m s. vault_PublicKey vx vs = Inr pub \<Longrightarrow> vault_SignRaw vx vs m = Inr s \<Longrightarrow> edv pub m s"
  shows "KeyID ks = cf_Kid cfg \<and> signer_ok edv keys ks"
proof (cases "cf_Vault cfg")
  case None
  obtain k where k: "cf_SigningKey cfg = Some k" using assms(2) None by (auto simp: buildSigning_def Let_def NewLocalKeySigner_def split: option.splits if_splits)
  have ks: "ks = \<lparr>KeyID = cf_Kid cfg, SignRaw = (\<lambda>m. Inr (edsign k m))\<rparr>" "keys = cf_VerifyKeys cfg"
    using assms(2) None k by (auto simp: buildSigning_def Let_def NewLocalKeySigner_def split: if_splits)
  then show ?thesis using Load_own_key [OF assms(1,3,4)] k assms(6) by (auto simp: signer_ok_def)
next
  case (Some v)
  then have "cf_VerifyKeys cfg (cf_Kid cfg) = None" using Load_own_key [OF assms(1,3,4)] assms(5) by simp
  then obtain vs pub where b: "vault_New (vault_of hc (cf_Kid cfg) v) = Inr vs" "vault_PublicKey vx vs = Inr pub"
    "ks = vault_KeySigner vx vs" "keys = (cf_VerifyKeys cfg)(cf_Kid cfg \<mapsto> pub)"
    using assms(2) Some by (auto simp: buildSigning_def Let_def split: sum.splits)
  have "vs_KeyID vs = cf_Kid cfg" using b(1) by (auto simp: vault_New_def vault_of_def split: if_splits)
  with b(2-4) assms(7) show ?thesis by (auto simp: signer_ok_def vault_KeySigner_def)
qed

text \<open>With a key in the environment as well as a vault, Vault signs and the environment's key is the one that is published: the key
  of the vault is never asked for.\<close>

lemma env_key_shadows_vault:
  assumes "Load pubOf parseFloat getenv = Inr cfg" "parseVerifyKeys (getenv EnvVerifyKeys) = Inr listed" "listed (cf_Kid cfg) = None"
    and "cf_Vault cfg = Some v" "cf_SigningKey cfg = Some k" "buildSigning edsign vx hc cfg = Inr (ks, keys)"
  shows "keys (KeyID ks) = Some (key_Public k) \<and> (\<exists>vs. SignRaw ks = vault_SignRaw vx vs)"
proof -
  have own: "cf_VerifyKeys cfg (cf_Kid cfg) = Some (key_Public k)" using Load_own_key [OF assms(1-3)] assms(5) by simp
  then obtain vs where b: "vault_New (vault_of hc (cf_Kid cfg) v) = Inr vs" "ks = vault_KeySigner vx vs" "keys = cf_VerifyKeys cfg"
    using assms(4,6) by (auto simp: buildSigning_def Let_def split: sum.splits)
  have "vs_KeyID vs = cf_Kid cfg" using b(1) by (auto simp: vault_New_def vault_of_def split: if_splits)
  with own b show ?thesis by (auto simp: vault_KeySigner_def)
qed

definition demo_vault_client :: HttpClient where
  "demo_vault_client = \<lparr>hc_ValidURL = (\<lambda>_. True), hc_Do = (\<lambda>rq. Some \<lparr>or_Status = 200, or_Body = []\<rparr>)\<rparr>"

definition demo_vault_codec :: VaultCodec where
  "demo_vault_codec = \<lparr>vx_signature = (\<lambda>_. Some (''vault:v'' @ FormatInt 1 @ '':'' @ StdEncode ''s'')), vx_keys = (\<lambda>_. Some (1, \<lambda>_. Some ''-----BEGIN'')),
     vx_pem = (\<lambda>_. Some ''pub''), vx_pkix = (\<lambda>der. Some (Some der))\<rparr>"

lemma demo_vault_texts: "parseTransitSignature (''vault:v'' @ FormatInt 1 @ '':'' @ StdEncode ''s'') = Inr ''s''"
    "parseEd25519PublicKey demo_vault_codec ''-----BEGIN'' = Inr ''pub''"
  by (rule parse_transit_signature) (simp_all add: parseEd25519PublicKey_def ed25519FromPKIX_def demo_vault_codec_def trim_space_def is_space_def)

lemma demo_vault_codec_simps: "vx_signature demo_vault_codec raw = Some (''vault:v'' @ FormatInt 1 @ '':'' @ StdEncode ''s'')"
    "vx_keys demo_vault_codec raw = Some (1, \<lambda>_. Some ''-----BEGIN'')"
  by (simp_all add: demo_vault_codec_def)

lemma demo_vault_replies:
  "vault_PublicKey demo_vault_codec vs = Inr pub \<Longrightarrow> pub = ''pub''" "vault_SignRaw demo_vault_codec vs m = Inr sg \<Longrightarrow> sg = ''s''"
  unfolding vault_PublicKey_def vault_SignRaw_def demo_vault_codec_simps option.case prod.case demo_vault_texts
  by (auto split: sum.splits if_splits)

lemma demo_signing:
  assumes c: "Load pubOf (\<lambda>_. None) demo_env = Inr cfg"
  shows "\<exists>ks keys. buildSigning (\<lambda>_ m. m) demo_vault_codec demo_vault_client cfg = Inr (ks, keys)
     \<and> KeyID ks = ''k1'' \<and> signer_ok (\<lambda>pub m s. pub = ''pub'' \<and> s = ''s'') keys ks \<and> cf_Vault cfg \<noteq> None \<and> cf_SigningKey cfg = None
     \<and> parseVerifyKeys (demo_env EnvVerifyKeys) = Inr Map.empty"
proof -
  have v: "parseVault demo_env = Inr (Some \<lparr>vc_Address = ''http://v'', vc_Token = ''t'', vc_Mount = ''transit'', vc_KeyName = ''sig''\<rparr>)"
    by (simp add: parseVault_def Let_def demo_env_def env_names trim_space_def is_space_def)
  have e: "demo_env EnvSigningKey = ''''" "demo_env EnvVerifyKeys = ''''" "demo_env EnvKid = ''k1''" by (simp_all add: demo_env_def env_names)
  have f: "cf_Kid cfg = ''k1''" "cf_SigningKey cfg = None" "cf_Vault cfg = Some \<lparr>vc_Address = ''http://v'', vc_Token = ''t'', vc_Mount = ''transit'', vc_KeyName = ''sig''\<rparr>"
    by (rule Load_InrD [OF c]; use v e in auto)+
  have l: "parseVerifyKeys (demo_env EnvVerifyKeys) = Inr Map.empty" by (simp add: e parseVerifyKeys_def trim_space_def)
  have own: "cf_VerifyKeys cfg ''k1'' = None" using Load_own_key [OF c l] f by simp
  have pk: "vault_PublicKey demo_vault_codec vs = Inr ''pub''" if "vs_client vs = demo_vault_client" for vs
    using that by (simp add: vault_PublicKey_def demo_vault_codec_simps demo_vault_texts(2) send_request_def demo_vault_client_def)
  have t: "trim_slashes ''http://v'' = ''http://v''" by (simp add: trim_slashes_def)
  have "\<exists>ks keys. buildSigning (\<lambda>_ m. m) demo_vault_codec demo_vault_client cfg = Inr (ks, keys)"
    using own pk by (simp add: buildSigning_def f vault_New_def vault_of_def t Let_def)
  then obtain ks keys where b: "buildSigning (\<lambda>_ m. m) demo_vault_codec demo_vault_client cfg = Inr (ks, keys)" by blast
  have "KeyID ks = cf_Kid cfg \<and> signer_ok (\<lambda>pub m s. pub = ''pub'' \<and> s = ''s'') keys ks"
    by (rule buildSigning_verifies_itself [OF c b l]) (use f demo_vault_replies in auto)
  with b f l show ?thesis by auto
qed

end
