(* ===== verification/RateLimit.thy ===== *)
theory RateLimit
  imports Prelude Complex_Main "HOL-Library.AList"
begin

text \<open>
  The token-bucket limiter of \<^verbatim>\<open>internal/httpx/ratelimit.go\<close> and the middleware around it.

  The Go map of buckets is an association list with distinct keys. Token counts are \<^verbatim>\<open>float64\<close> in the code and
  exact rationals here: rounding is the one thing the model leaves out. Every request is one step, since \<^verbatim>\<open>Allow\<close>
  holds the mutex from the sweep to the answer; the instant it reads is an argument.
\<close>

section \<open>The limiter\<close>

record bucket =
  bk_tokens :: rat
  bk_last :: instant

record RateLimiter =
  rl_rate :: rat
  rl_burst :: rat
  rl_buckets :: "(string \<times> bucket) list"

definition maxRetainAge :: duration where "maxRetainAge = minutes 10"

definition sweepEvery :: nat where "sweepEvery = 1024"

definition NewRateLimiter :: "rat \<Rightarrow> int \<Rightarrow> RateLimiter" where
  "NewRateLimiter rps burst =
     (let rps = if rps \<le> 0 then 20 else rps;
          burst = if burst \<le> 0 then \<lfloor>rps\<rfloor> * 2 else burst
      in \<lparr>rl_rate = rps, rl_burst = rat_of_int burst, rl_buckets = []\<rparr>)"

definition elapsed_seconds :: "instant \<Rightarrow> instant \<Rightarrow> rat" where
  "elapsed_seconds now before = rat_of_int (now - before) / 1000000000"

definition sweepLocked :: "instant \<Rightarrow> RateLimiter \<Rightarrow> RateLimiter" where
  "sweepLocked now rl = rl\<lparr>rl_buckets := filter (\<lambda>(k, b). \<not> now - bk_last b > maxRetainAge) (rl_buckets rl)\<rparr>"

definition refill :: "RateLimiter \<Rightarrow> instant \<Rightarrow> bucket \<Rightarrow> rat" where
  "refill rl now b = min (rl_burst rl) (bk_tokens b + elapsed_seconds now (bk_last b) * rl_rate rl)"

definition take_token :: "instant \<Rightarrow> string \<Rightarrow> RateLimiter \<Rightarrow> bool \<times> RateLimiter" where
  "take_token now k rl = (case map_of (rl_buckets rl) k of
     None \<Rightarrow> (True, rl\<lparr>rl_buckets := AList.update k \<lparr>bk_tokens = rl_burst rl - 1, bk_last = now\<rparr> (rl_buckets rl)\<rparr>)
   | Some b \<Rightarrow>
       let tokens = refill rl now b in
       if tokens \<ge> 1
       then (True, rl\<lparr>rl_buckets := AList.update k \<lparr>bk_tokens = tokens - 1, bk_last = now\<rparr> (rl_buckets rl)\<rparr>)
       else (False, rl\<lparr>rl_buckets := AList.update k \<lparr>bk_tokens = tokens, bk_last = now\<rparr> (rl_buckets rl)\<rparr>))"

definition Allow :: "instant \<Rightarrow> string \<Rightarrow> RateLimiter \<Rightarrow> bool \<times> RateLimiter" where
  "Allow now k rl = take_token now k (if length (rl_buckets rl) > sweepEvery then sweepLocked now rl else rl)"

section \<open>The middleware\<close>

text \<open>A handler maps a request and a state to a reply and the state after it; the limiter is a part of that state. \<open>deny\<close> is the
  reply 429 to a request over the limit.\<close>

record request =
  rq_Path :: string
  rq_ClientIP :: string

type_synonym ('r, 's) handler = "request \<Rightarrow> RateLimiter \<times> 's \<Rightarrow> 'r \<times> (RateLimiter \<times> 's)"

definition Chain :: "'h \<Rightarrow> ('h \<Rightarrow> 'h) list \<Rightarrow> 'h" where
  "Chain h mw = foldl (\<lambda>h m. m h) h (rev mw)"

definition Limit :: "instant \<Rightarrow> 'r \<Rightarrow> ('r, 's) handler \<Rightarrow> ('r, 's) handler" where
  "Limit now deny h r = (\<lambda>(rl, s). case Allow now (rq_ClientIP r) rl of
     (ok, rl') \<Rightarrow> if \<not> ok then (deny, (rl', s)) else h r (rl', s))"

definition has_prefix :: "string \<Rightarrow> string \<Rightarrow> bool" where
  "has_prefix s p = (take (length p) s = p)"

fun LimitExcept :: "instant \<Rightarrow> 'r \<Rightarrow> ('r, 's) handler \<Rightarrow> string list \<Rightarrow> ('r, 's) handler" where
  "LimitExcept now deny h [] r st = Limit now deny h r st"
| "LimitExcept now deny h (p # ps) r st = (if has_prefix (rq_Path r) p then h r st else LimitExcept now deny h ps r st)"

section \<open>The limiter's invariant\<close>

definition rl_inv :: "RateLimiter \<Rightarrow> bool" where
  "rl_inv rl \<longleftrightarrow> rl_rate rl > 0 \<and> rl_burst rl \<ge> 1 \<and> distinct (map fst (rl_buckets rl))
     \<and> (\<forall>(k, b) \<in> set (rl_buckets rl). 0 \<le> bk_tokens b \<and> bk_tokens b \<le> rl_burst rl)"

lemma default_burst: "1 \<le> (rps::rat) \<Longrightarrow> 1 \<le> rat_of_int (\<lfloor>rps\<rfloor> * 2)"
proof -
  assume "1 \<le> rps"
  then have "1 \<le> \<lfloor>rps\<rfloor>" by (simp add: le_floor_iff)
  then have "1 \<le> \<lfloor>rps\<rfloor> * 2" by linarith
  then show ?thesis by (simp only: of_int_1_le_iff)
qed

lemma NewRateLimiter_inv: "0 < burst \<or> rps \<le> 0 \<or> 1 \<le> rps \<Longrightarrow> rl_inv (NewRateLimiter rps burst)"
  using default_burst [of rps] by (auto simp: NewRateLimiter_def rl_inv_def Let_def simp del: of_int_mult)

lemma NewRateLimiter_params:
  "rl_rate (NewRateLimiter rps burst) = (if rps \<le> 0 then 20 else rps)"
  "rl_burst (NewRateLimiter rps burst) = (if 0 < burst then rat_of_int burst else if rps \<le> 0 then 40 else rat_of_int (\<lfloor>rps\<rfloor> * 2))"
  "rl_buckets (NewRateLimiter rps burst) = []"
  by (simp_all add: NewRateLimiter_def Let_def)

lemma sweep_params [simp]: "rl_rate (sweepLocked t rl) = rl_rate rl" "rl_burst (sweepLocked t rl) = rl_burst rl"
  by (simp_all add: sweepLocked_def)

lemma Allow_params [simp]: "rl_rate (snd (Allow t k rl)) = rl_rate rl" "rl_burst (snd (Allow t k rl)) = rl_burst rl"
  by (simp_all add: Allow_def take_token_def Let_def split: option.split)

lemma sweep_inv: "rl_inv rl \<Longrightarrow> rl_inv (sweepLocked t rl)"
  by (auto simp: rl_inv_def sweepLocked_def distinct_map_filter)

lemma map_of_filter_value:
  "distinct (map fst xs) \<Longrightarrow> map_of (filter (\<lambda>(k, b). P b) xs) k =
     (case map_of xs k of None \<Rightarrow> None | Some b \<Rightarrow> if P b then Some b else None)"
proof (induction xs)
  case (Cons x xs)
  then have "map_of xs (fst x) = None" by (simp add: map_of_eq_None_iff)
  with Cons show ?case by (cases x) (auto split: option.splits)
qed simp

lemma sweep_map_of:
  "rl_inv rl \<Longrightarrow> map_of (rl_buckets (sweepLocked t rl)) k =
     (case map_of (rl_buckets rl) k of None \<Rightarrow> None | Some b \<Rightarrow> if \<not> t - bk_last b > maxRetainAge then Some b else None)"
  unfolding sweepLocked_def rl_inv_def by (simp add: map_of_filter_value)

lemma rl_inv_iff:
  "rl_inv rl \<longleftrightarrow> rl_rate rl > 0 \<and> rl_burst rl \<ge> 1 \<and> distinct (map fst (rl_buckets rl))
     \<and> (\<forall>k b. map_of (rl_buckets rl) k = Some b \<longrightarrow> 0 \<le> bk_tokens b \<and> bk_tokens b \<le> rl_burst rl)"
  by (auto simp: rl_inv_def map_of_eq_Some_iff dest!: map_of_SomeD)

lemma rl_inv_bucket:
  "rl_inv rl \<Longrightarrow> map_of (rl_buckets rl) k = Some b \<Longrightarrow> 0 \<le> bk_tokens b \<and> bk_tokens b \<le> rl_burst rl"
  by (simp add: rl_inv_iff)

lemma rl_inv_update:
  assumes "rl_inv rl" "0 \<le> x" "x \<le> rl_burst rl"
  shows "rl_inv (rl\<lparr>rl_buckets := AList.update k \<lparr>bk_tokens = x, bk_last = t\<rparr> (rl_buckets rl)\<rparr>)"
  using assms by (auto simp: rl_inv_iff distinct_update update_conv')

section \<open>Credit\<close>

text \<open>What a key could spend at an instant, were its bucket refilled then at the pace \<open>p\<close>. A swept bucket starts full again, as if it had
  been refilled in ten minutes, so the pace that bounds the limiter is the larger one of its rate and of a burst in ten minutes.\<close>

definition credit :: "rat \<Rightarrow> RateLimiter \<Rightarrow> instant \<Rightarrow> string \<Rightarrow> rat" where
  "credit p rl t k = (case map_of (rl_buckets rl) k of None \<Rightarrow> rl_burst rl
     | Some b \<Rightarrow> min (rl_burst rl) (bk_tokens b + elapsed_seconds t (bk_last b) * p))"

definition paced :: "rat \<Rightarrow> RateLimiter \<Rightarrow> bool" where
  "paced p rl \<longleftrightarrow> rl_rate rl \<le> p \<and> rl_burst rl \<le> 600 * p"

text \<open>The instants in the buckets are past ones.\<close>

definition rl_past :: "instant \<Rightarrow> RateLimiter \<Rightarrow> bool" where
  "rl_past t rl \<longleftrightarrow> (\<forall>(k, b) \<in> set (rl_buckets rl). bk_last b \<le> t)"

lemma elapsed_nonneg: "s \<le> t \<Longrightarrow> 0 \<le> elapsed_seconds t s"
  by (simp add: elapsed_seconds_def)

lemma elapsed_split: "elapsed_seconds u s = elapsed_seconds u t + elapsed_seconds t s"
  by (simp add: elapsed_seconds_def field_simps)

lemma rl_past_bucket: "rl_past t rl \<Longrightarrow> map_of (rl_buckets rl) k = Some b \<Longrightarrow> bk_last b \<le> t"
  by (auto simp: rl_past_def dest: map_of_SomeD)

lemma paced_nonneg: "rl_inv rl \<Longrightarrow> paced p rl \<Longrightarrow> 0 \<le> p"
  by (auto simp: rl_inv_def paced_def)

lemma credit_bounds:
  assumes "rl_inv rl" "rl_past t rl" "0 \<le> p"
  shows "0 \<le> credit p rl t k" "credit p rl t k \<le> rl_burst rl"
proof -
  have "0 \<le> bk_tokens b + elapsed_seconds t (bk_last b) * p" if "map_of (rl_buckets rl) k = Some b" for b
    using rl_inv_bucket [OF assms(1) that] elapsed_nonneg [OF rl_past_bucket [OF assms(2) that]] assms(3) by simp
  then show "0 \<le> credit p rl t k" using assms(1) by (auto simp: credit_def rl_inv_def split: option.split)
  show "credit p rl t k \<le> rl_burst rl" by (simp add: credit_def split: option.split)
qed

lemma credit_grows:
  assumes "0 \<le> p" "t \<le> u"
  shows "credit p rl u k \<le> credit p rl t k + elapsed_seconds u t * p"
proof (cases "map_of (rl_buckets rl) k")
  case None
  then show ?thesis using assms elapsed_nonneg [OF assms(2)] by (simp add: credit_def)
next
  case (Some b)
  have "0 \<le> elapsed_seconds u t * p" using assms elapsed_nonneg [OF assms(2)] by simp
  then show ?thesis using Some
    by (simp add: credit_def elapsed_split [of u "bk_last b" t] distrib_right min_def)
qed

lemma credit_swept:
  assumes "rl_inv rl" "paced p rl"
  shows "credit p (sweepLocked t rl) t k = credit p rl t k"
proof (cases "map_of (rl_buckets rl) k")
  case None
  then show ?thesis by (simp add: credit_def sweep_map_of [OF assms(1)])
next
  case (Some b)
  have "rl_burst rl \<le> bk_tokens b + elapsed_seconds t (bk_last b) * p" if "t - bk_last b > maxRetainAge"
  proof -
    have "600 \<le> elapsed_seconds t (bk_last b)" using that
      by (simp add: elapsed_seconds_def maxRetainAge_def minutes_def seconds_def le_divide_eq)
    then have "600 * p \<le> elapsed_seconds t (bk_last b) * p"
      using paced_nonneg [OF assms] by (rule mult_right_mono)
    then show ?thesis using assms(2) rl_inv_bucket [OF assms(1) Some] by (simp add: paced_def)
  qed
  then show ?thesis using Some by (simp add: credit_def sweep_map_of [OF assms(1)])
qed

text \<open>The bucket itself refills at the rate, which is no more than the pace.\<close>

lemma refill_le_credit:
  assumes "rl_past t rl" "paced p rl" "map_of (rl_buckets rl) k = Some b"
  shows "refill rl t b \<le> credit p rl t k"
proof -
  have "elapsed_seconds t (bk_last b) * rl_rate rl \<le> elapsed_seconds t (bk_last b) * p"
    using assms elapsed_nonneg [OF rl_past_bucket [OF assms(1,3)]] by (intro mult_left_mono) (simp_all add: paced_def)
  then show ?thesis using assms(3) by (simp add: refill_def credit_def)
qed

lemma credit_spent:
  assumes "rl_inv rl" "rl_past t rl" "paced p rl"
  shows "credit p (snd (take_token t x rl)) t k \<le> credit p rl t k - (if fst (take_token t x rl) \<and> x = k then 1 else 0)"
proof (cases "x = k")
  case True
  note refill = refill_le_credit [OF assms(2,3), of k]
  show ?thesis
  proof (cases "map_of (rl_buckets rl) k")
    case None
    then show ?thesis using True assms(1) by (simp add: take_token_def credit_def update_conv' elapsed_seconds_def)
  next
    case (Some b)
    then show ?thesis using True refill [OF Some]
      by (auto simp: take_token_def update_conv' elapsed_seconds_def Let_def credit_def [of p "_\<lparr>rl_buckets := _\<rparr>"] min_def)
  qed
next
  case False
  then show ?thesis
    by (auto simp: take_token_def credit_def update_conv' Let_def split: option.split)
qed

lemma sweep_past: "rl_past t rl \<Longrightarrow> rl_past t (sweepLocked u rl)"
  by (auto simp: rl_past_def sweepLocked_def)

lemma sweep_rate: "rl_rate (sweepLocked t rl) = rl_rate rl"
  by (simp add: sweepLocked_def)

lemma sweep_paced: "paced p (sweepLocked t rl) = paced p rl"
  by (simp add: paced_def sweepLocked_def)

lemma Allow_credit:
  assumes "rl_inv rl" "rl_past t rl" "paced p rl"
  shows "credit p (snd (Allow t x rl)) t k \<le> credit p rl t k - (if fst (Allow t x rl) \<and> x = k then 1 else 0)"
proof -
  define rl1 where "rl1 = (if length (rl_buckets rl) > sweepEvery then sweepLocked t rl else rl)"
  have "rl_inv rl1" "rl_past t rl1" "paced p rl1" "credit p rl1 t k = credit p rl t k"
    using assms by (simp_all add: rl1_def sweep_inv sweep_past sweep_paced credit_swept)
  then show ?thesis unfolding Allow_def rl1_def [symmetric] by (metis credit_spent)
qed

lemma take_token_inv:
  assumes "rl_inv rl" "rl_past t rl"
  shows "rl_inv (snd (take_token t k rl))"
proof (cases "map_of (rl_buckets rl) k")
  case None
  then show ?thesis using assms(1) by (auto simp: take_token_def intro!: rl_inv_update) (simp_all add: rl_inv_def)
next
  case (Some b)
  then show ?thesis using assms credit_bounds [OF assms, of "rl_rate rl" k] assms(1) [unfolded rl_inv_def]
    by (auto simp: take_token_def Let_def credit_def refill_def intro!: rl_inv_update)
qed

lemma rl_past_mono: "rl_past t rl \<Longrightarrow> t \<le> u \<Longrightarrow> rl_past u rl"
  by (fastforce simp: rl_past_def)

lemma set_update_subset: "set (AList.update k v xs) \<subseteq> insert (k, v) (set xs)"
  by (induction xs) auto

lemma rl_past_update: "rl_past t rl \<Longrightarrow> rl_past t (rl\<lparr>rl_buckets := AList.update k \<lparr>bk_tokens = x, bk_last = t\<rparr> (rl_buckets rl)\<rparr>)"
  unfolding rl_past_def using set_update_subset by fastforce

lemma take_token_past: "rl_past t rl \<Longrightarrow> rl_past t (snd (take_token t k rl))"
  by (auto simp: take_token_def Let_def rl_past_update split: option.split)

lemma Allow_inv: "rl_inv rl \<Longrightarrow> rl_past t rl \<Longrightarrow> rl_inv (snd (Allow t k rl))"
  by (simp add: Allow_def take_token_inv sweep_inv sweep_past)

lemma Allow_past: "rl_past t rl \<Longrightarrow> rl_past t (snd (Allow t k rl))"
  by (simp add: Allow_def take_token_past sweep_past)

lemma Allow_paced: "paced p rl \<Longrightarrow> paced p (snd (Allow t k rl))"
  by (simp add: paced_def)

lemmas Allow_keeps = Allow_inv Allow_past Allow_paced

text \<open>Where ten minutes refill a burst, a request is admitted exactly when the bucket has a token, swept or not.\<close>

lemma Allow_iff_credit:
  assumes "rl_inv rl" "rl_burst rl \<le> 600 * rl_rate rl"
  shows "fst (Allow t k rl) \<longleftrightarrow> 1 \<le> credit (rl_rate rl) rl t k"
proof -
  define rl1 where "rl1 = (if length (rl_buckets rl) > sweepEvery then sweepLocked t rl else rl)"
  have i: "rl_inv rl1" "rl_rate rl1 = rl_rate rl" "credit (rl_rate rl) rl1 t k = credit (rl_rate rl) rl t k"
    using assms by (simp_all add: rl1_def sweep_inv credit_swept paced_def sweep_rate)
  have "fst (take_token t k rl1) \<longleftrightarrow> 1 \<le> credit (rl_rate rl1) rl1 t k"
    using i(1) by (auto simp: take_token_def credit_def refill_def Let_def rl_inv_def split: option.split)
  then show ?thesis unfolding Allow_def rl1_def [symmetric] i(2,3) .
qed

text \<open>Where they do not, a sweep gives a client its whole burst back before it has refilled.\<close>

lemma sweep_refills_early:
  assumes "rl_inv rl" "map_of (rl_buckets rl) k = Some b" "t - bk_last b > maxRetainAge" "length (rl_buckets rl) > sweepEvery"
  shows "fst (Allow t k rl)" "map_of (rl_buckets (snd (Allow t k rl))) k = Some \<lparr>bk_tokens = rl_burst rl - 1, bk_last = t\<rparr>"
proof -
  have "map_of (rl_buckets (sweepLocked t rl)) k = None" using assms(2,3) by (simp add: sweep_map_of [OF assms(1)])
  moreover have "rl_burst (sweepLocked t rl) = rl_burst rl" by (simp add: sweepLocked_def)
  ultimately show "fst (Allow t k rl)" "map_of (rl_buckets (snd (Allow t k rl))) k = Some \<lparr>bk_tokens = rl_burst rl - 1, bk_last = t\<rparr>"
    using assms(4) by (simp_all add: Allow_def take_token_def update_conv')
qed

text \<open>A limiter built with a rate below one and no burst has capacity 0: it admits the first request of a key and
  rejects the others for as long as the bucket is kept.\<close>

lemma no_capacity_locks_out:
  assumes "map_of (rl_buckets rl) k = Some b" "length (rl_buckets rl) \<le> sweepEvery" "rl_burst rl < 1"
  shows "\<not> fst (Allow t k rl)"
  using assms by (simp add: Allow_def take_token_def refill_def Let_def)

lemma fractional_rate_has_no_capacity: "0 < rps \<Longrightarrow> rps < 1 \<Longrightarrow> rl_burst (NewRateLimiter rps 0) = 0"
  using floor_eq_iff [of rps 0] by (simp add: NewRateLimiter_params)

lemma Chain_outermost_first: "Chain h (m # mw) = m (Chain h mw)"
  by (simp add: Chain_def)

lemma LimitExcept_exempt: "\<exists>p \<in> set ps. has_prefix (rq_Path r) p \<Longrightarrow> LimitExcept now deny h ps r st = h r st"
  by (induction ps) auto

section \<open>Throughput\<close>

text \<open>How many of a sequence of requests are admitted for one key.\<close>

fun admitted :: "string \<Rightarrow> RateLimiter \<Rightarrow> (instant \<times> string) list \<Rightarrow> nat" where
  "admitted k rl [] = 0"
| "admitted k rl ((t, x) # rs) = (if fst (Allow t x rl) \<and> x = k then 1 else 0) + admitted k (snd (Allow t x rl)) rs"

lemma admitted_le_credit:
  assumes "rl_inv rl" "paced p rl" "rl_past t0 rl" "sorted (map fst rs)" "\<forall>r \<in> set rs. t0 \<le> fst r \<and> fst r \<le> T" "t0 \<le> T"
  shows "of_nat (admitted k rl rs) \<le> credit p rl t0 k + elapsed_seconds T t0 * p"
  using assms
proof (induction rs arbitrary: rl t0)
  case Nil
  then show ?case using credit_bounds(1) [of rl t0 p k] paced_nonneg [of rl p] elapsed_nonneg [of t0 T] by simp
next
  case (Cons r rs)
  obtain t x where r: "r = (t, x)" by force
  define rl' where "rl' = snd (Allow t x rl)"
  have t: "t0 \<le> t" "t \<le> T" using Cons.prems(5) r by auto
  have past: "rl_past t rl" by (rule rl_past_mono [OF Cons.prems(3) t(1)])
  have "of_nat (admitted k rl' rs) \<le> credit p rl' t k + elapsed_seconds T t * p"
  proof (rule Cons.IH)
    show "rl_inv rl'" unfolding rl'_def by (rule Allow_inv [OF Cons.prems(1) past])
    show "paced p rl'" unfolding rl'_def by (rule Allow_paced [OF Cons.prems(2)])
    show "rl_past t rl'" unfolding rl'_def by (rule Allow_past [OF past])
  qed (use Cons.prems r t in auto)
  moreover have "credit p rl' t k \<le> credit p rl t k - (if fst (Allow t x rl) \<and> x = k then 1 else 0)"
    unfolding rl'_def by (rule Allow_credit [OF Cons.prems(1) past Cons.prems(2)])
  moreover have "credit p rl t k \<le> credit p rl t0 k + elapsed_seconds t t0 * p"
    by (rule credit_grows [OF paced_nonneg [OF Cons.prems(1,2)] t(1)])
  ultimately show ?case
    by (cases "fst (Allow t x rl) \<and> x = k") (auto simp: r rl'_def elapsed_split [of T t0 t] distrib_right)
qed

text \<open>C25: the limiter bounds the traffic of each client. Whatever requests of whatever clients arrive at a new limiter with a positive burst (or
  with a default one, but for the rates between 0 and 1, where the default is no burst at all), in the order of their instants, the number admitted
  for one client up to any instant \<open>T\<close> is at most the burst plus the seconds elapsed since the first times the larger one of the rate and of
  the burst divided by the 600 seconds after which an idle bucket is swept away and starts full again. Where ten minutes refill the burst, as with the
  defaults, this is the rate.\<close>
theorem Allow_rate_bound:
  assumes "0 < burst \<or> rps \<le> 0 \<or> 1 \<le> rps" and "rl = NewRateLimiter rps burst"
    and "sorted (map fst rs)" and "\<forall>r \<in> set rs. t0 \<le> fst r \<and> fst r \<le> T" and "t0 \<le> T"
  shows "of_nat (admitted k rl rs) \<le> rl_burst rl + max (rl_rate rl) (rl_burst rl / 600) * elapsed_seconds T t0"
proof -
  let ?p = "max (rl_rate rl) (rl_burst rl / 600)"
  have "rl_past t0 rl" by (simp add: rl_past_def assms(2) NewRateLimiter_params)
  moreover have "paced ?p rl" by (simp add: paced_def max_def)
  moreover have "rl_inv rl" using NewRateLimiter_inv [OF assms(1)] assms(2) by simp
  ultimately have "of_nat (admitted k rl rs) \<le> credit ?p rl t0 k + elapsed_seconds T t0 * ?p"
    by (intro admitted_le_credit assms(3-5))
  then show ?thesis by (simp add: credit_def assms(2) NewRateLimiter_params(3) mult.commute)
qed

theorem Allow_rate_bound_witness:
  "admitted ''a'' (NewRateLimiter 1 2) [(0, ''a''), (1, ''a''), (2, ''b''), (3, ''a''), (1000000003, ''a'')] = 3
   \<and> (3::rat) \<le> 2 + 1 * elapsed_seconds 1000000003 0"
  using Allow_rate_bound [OF _ refl, of 2 1 "[(0, ''a''), (1, ''a''), (2, ''b''), (3, ''a''), (1000000003, ''a'')]" 0 1000000003 "''a''"]
  by (simp add: NewRateLimiter_def Allow_def take_token_def refill_def elapsed_seconds_def sweepEvery_def)

end
