(* ===== verification/Ids.thy ===== *)
theory Ids
  imports Validate Livekit
begin

text \<open>
  The generators of ids, handles, secrets and codes: \<^verbatim>\<open>internal/session/id.go\<close> (which class, consent, entitlement, presence,
  recording and admin copy), \<^verbatim>\<open>newOpaqueID\<close> and \<^verbatim>\<open>newRefreshSecret\<close> of \<^verbatim>\<open>internal/auth/service.go\<close>, \<^verbatim>\<open>randJTI\<close>, \<^verbatim>\<open>newHandle\<close>,
  \<^verbatim>\<open>newNumericCode\<close>, and \<^verbatim>\<open>newRequestID\<close> of \<^verbatim>\<open>internal/httpx/middleware.go\<close>.

  The bytes that \<^verbatim>\<open>crypto/rand\<close> gives are the argument. The numeric code reads them one at a time and throws some away, so its
  argument is the stream that has been given so far.
\<close>

section \<open>Ids\<close>

definition newID :: "bytes \<Rightarrow> string" where
  "newID b = map (\<lambda>c. crockford ! (byte c mod length crockford)) b"

definition handle_alpha :: string where "handle_alpha = ''abcdefghijklmnopqrstuvwxyz0123456789''"

definition newHandle :: "bytes \<Rightarrow> string" where
  "newHandle b = ''u'' @ map (\<lambda>c. handle_alpha ! (byte c mod length handle_alpha)) b"

definition newRefreshSecret :: "bytes \<Rightarrow> string" where
  "newRefreshSecret b = EncodeToString b"

definition randJTI :: "bytes \<Rightarrow> string" where
  "randJTI b = hex_encode b"

text \<open>A failing source gives the request a fixed id.\<close>

definition newRequestID :: "bytes option \<Rightarrow> string" where
  "newRequestID r = (case r of None \<Rightarrow> ''req-unknown'' | Some b \<Rightarrow> hex_encode b)"

section \<open>Codes\<close>

definition codeDigits :: nat where "codeDigits = 6"

fun draw_digit :: "bytes \<Rightarrow> (char \<times> bytes) option" where
  "draw_digit [] = None"
| "draw_digit (b # s) = (if byte b < 250 then Some (char_of (48 + byte b mod 10), s) else draw_digit s)"

fun draw_digits :: "nat \<Rightarrow> bytes \<Rightarrow> (string \<times> bytes) option" where
  "draw_digits 0 s = Some ([], s)"
| "draw_digits (Suc n) s =
     (case draw_digit s of
        None \<Rightarrow> None
      | Some (c, s') \<Rightarrow> map_option (\<lambda>(cs, s''). (c # cs, s'')) (draw_digits n s'))"

definition newNumericCode :: "bytes \<Rightarrow> string option" where
  "newNumericCode s = map_option fst (draw_digits codeDigits s)"

section \<open>What they generate\<close>

lemma crockford_in: "n < 32 \<Longrightarrow> crockford ! n \<in> set crockford"
  by (rule nth_mem) (simp add: crockford_def)

lemma newID_in: "set (newID b) \<subseteq> set crockford"
  by (auto simp: newID_def intro!: nth_mem) (simp add: crockford_def)

lemma crockford_ascii: "c \<in> set crockford \<Longrightarrow> byte c < 0x80"
  by (auto simp: crockford_def byte_def)

lemma newID_ULID: "length b = 26 \<Longrightarrow> ULID (newID b) = None"
proof -
  assume "length b = 26"
  then have l: "length (newID b) = 26" by (simp add: newID_def)
  have "\<forall>c \<in> set (newID b). byte c < 0x80" using newID_in crockford_ascii by blast
  then have "runes (newID b) = map byte (newID b)" by (rule runes_ascii)
  then have "\<not> list_ex (\<lambda>r. \<not> rune_in crockford r) (runes (newID b))"
    using newID_in by (auto simp: list_ex_iff rune_in_def)
  then show ?thesis using l by (auto simp: ULID_def)
qed

lemma handle_alpha_chars: "c \<in> set handle_alpha \<Longrightarrow> is_lower (byte c) \<or> is_digit (byte c)"
  by (auto simp: handle_alpha_def byte_def is_lower_def is_digit_def)

lemma newHandle_in: "c \<in> set (newHandle b) \<Longrightarrow> is_lower (byte c) \<or> is_digit (byte c)"
proof -
  assume "c \<in> set (newHandle b)"
  then have "c = CHR ''u'' \<or> c \<in> set handle_alpha"
    by (auto simp: newHandle_def intro!: nth_mem) (simp add: handle_alpha_def)
  then show ?thesis using handle_alpha_chars by (auto simp: is_lower_def byte_def)
qed

lemma newHandle_valid: "length b = 12 \<Longrightarrow> Handle (newHandle b) = None"
proof -
  assume "length b = 12"
  then have l: "length (newHandle b) = 13" by (simp add: newHandle_def)
  have "\<forall>c \<in> set (newHandle b). byte c < 0x80" using newHandle_in by (force simp: is_lower_def is_digit_def)
  then have "runes (newHandle b) = map byte (newHandle b)" by (rule runes_ascii)
  then have "\<not> list_ex (\<lambda>r. \<not> (is_lower r \<or> is_digit r \<or> r = 95)) (runes (newHandle b))"
    using newHandle_in by (auto simp: list_ex_iff)
  then show ?thesis using l by (simp add: Handle_def del: runes.simps)
qed

text \<open>An id drawn for a recording or an account never holds the separator of a playback token.\<close>

lemma newID_no_bar: "CHR ''|'' \<notin> set (newID b)" "CHR ''.'' \<notin> set (newID b)"
  using newID_in [of b] by (auto simp: crockford_def)

section \<open>Uniform codes\<close>

abbreviation digit_of :: "char \<Rightarrow> bool" where
  "digit_of c \<equiv> is_digit (byte c)"

lemma draw_digit_digit: "draw_digit s = Some (c, s') \<Longrightarrow> digit_of c"
  by (induction s) (auto simp: is_digit_def byte_char split: if_splits)

lemma draw_digit_enough:
  "1 \<le> length (filter (\<lambda>b. byte b < 250) s) \<Longrightarrow>
     \<exists>c s'. draw_digit s = Some (c, s') \<and> length (filter (\<lambda>b. byte b < 250) s') = length (filter (\<lambda>b. byte b < 250) s) - 1"
  by (induction s) auto

lemma draw_digits_enough:
  "n \<le> length (filter (\<lambda>b. byte b < 250) s) \<Longrightarrow>
     \<exists>cs s'. draw_digits n s = Some (cs, s') \<and> length cs = n \<and> (\<forall>c \<in> set cs. digit_of c)"
proof (induction n arbitrary: s)
  case (Suc n)
  obtain c s1 where d: "draw_digit s = Some (c, s1)" "length (filter (\<lambda>b. byte b < 250) s1) = length (filter (\<lambda>b. byte b < 250) s) - 1"
    using draw_digit_enough [of s] Suc.prems by auto
  then have "n \<le> length (filter (\<lambda>b. byte b < 250) s1)" using Suc.prems by simp
  with Suc.IH obtain cs s2 where "draw_digits n s1 = Some (cs, s2)" "length cs = n" "\<forall>c \<in> set cs. digit_of c" by blast
  then show ?case using d(1) draw_digit_digit [OF d(1)] by auto
qed simp

lemma draw_digit_shorter: "draw_digit s = Some (c, s') \<Longrightarrow> length s' < length s"
  by (induction s) (auto split: if_splits)

lemma draw_digits_length: "draw_digits n s = Some (cs, s') \<Longrightarrow> length s' + n \<le> length s"
proof (induction n arbitrary: s cs)
  case (Suc n)
  then show ?case by (auto split: option.splits dest!: Suc.IH draw_digit_shorter)
qed simp

text \<open>The bytes that give a digit: a tenth of the 250 that are kept.\<close>

definition giving :: "char \<Rightarrow> char set" where
  "giving c = {b. byte b < 250 \<and> char_of (48 + byte b mod 10) = c}"

lemma card_giving:
  assumes "digit_of c"
  shows "card (giving c) = 25"
proof -
  define d where "d = byte c - 48"
  have d: "d < 10" "byte c = 48 + d" using assms by (auto simp: d_def is_digit_def)
  have c: "c = char_of (48 + d)" using d(2) by (metis byte_def char_of_char)
  have eq: "(char_of (48 + m mod 10) = c) = (m mod 10 = d)" for m :: nat
  proof
    assume "char_of (48 + m mod 10) = c"
    then have "byte (char_of (48 + m mod 10)) = 48 + d" using d(2) by simp
    then show "m mod 10 = d" by (simp add: byte_char)
  qed (simp add: c)
  have "giving c = (\<lambda>q. char_of (10 * q + d)) ` {..<25}"
  proof (intro equalityI subsetI)
    fix b assume "b \<in> giving c"
    then have b: "byte b < 250" "byte b mod 10 = d" by (auto simp: giving_def eq)
    then have "byte b = 10 * (byte b div 10) + d" by (metis mult_div_mod_eq)
    then have "b = char_of (10 * (byte b div 10) + d)" by (metis byte_def char_of_char)
    moreover have "byte b div 10 < 25" using b(1) by linarith
    ultimately show "b \<in> (\<lambda>q. char_of (10 * q + d)) ` {..<25}" by blast
  next
    fix b assume "b \<in> (\<lambda>q. char_of (10 * q + d)) ` {..<25}"
    then obtain q where q: "q < 25" "b = char_of (10 * q + d)" by blast
    then have "byte b = 10 * q + d" using d(1) by (simp add: byte_char)
    then show "b \<in> giving c" using q(1) d(1) by (simp add: giving_def eq)
  qed
  moreover have "inj_on (\<lambda>q. char_of (10 * q + d)) {..<25}"
  proof (rule inj_onI)
    fix p q :: nat assume a: "p \<in> {..<25}" "q \<in> {..<25}" "(char_of (10 * p + d) :: char) = char_of (10 * q + d)"
    from arg_cong [OF a(3), of byte] show "p = q" using a(1,2) d(1) by (simp add: byte_char)
  qed
  ultimately show ?thesis by (simp add: card_image)
qed

lemma exact_supply:
  "{s. length s = Suc n \<and> map_option fst (draw_digits (Suc n) s) = Some (c # cs)}
     = (\<lambda>(b, s). b # s) ` (giving c \<times> {s. length s = n \<and> map_option fst (draw_digits n s) = Some cs})"
proof (intro equalityI subsetI)
  fix s assume "s \<in> {s. length s = Suc n \<and> map_option fst (draw_digits (Suc n) s) = Some (c # cs)}"
  then obtain b t r where s: "s = b # t" "length t = n" and r: "draw_digits (Suc n) (b # t) = Some (c # cs, r)"
    by (cases s) auto
  have "byte b < 250"
  proof (rule ccontr)
    assume "\<not> byte b < 250"
    then have "draw_digits (Suc n) t = Some (c # cs, r)" using r by simp
    then show False using draw_digits_length s(2) by fastforce
  qed
  then show "s \<in> (\<lambda>(b, s). b # s) ` (giving c \<times> {s. length s = n \<and> map_option fst (draw_digits n s) = Some cs})"
    using r s by (auto simp: giving_def image_iff)
qed (auto simp: giving_def)

lemma card_supplies:
  "length cs = n \<Longrightarrow> \<forall>c \<in> set cs. digit_of c \<Longrightarrow>
     card {s. length s = n \<and> map_option fst (draw_digits n s) = Some cs} = 25 ^ n"
proof (induction n arbitrary: cs)
  case 0
  have "{s :: string. length s = 0 \<and> map_option fst (draw_digits 0 s) = Some cs} = {[]}" using 0 by auto
  then show ?case by simp
next
  case (Suc n)
  then obtain c cs' where cs: "cs = c # cs'" "length cs' = n" "digit_of c" "\<forall>c \<in> set cs'. digit_of c" by (cases cs) auto
  have "inj_on (\<lambda>(b :: char, s). b # s) A" for A by (auto intro!: inj_onI)
  then show ?case unfolding cs(1) exact_supply
    by (simp only: card_image card_cartesian_product card_giving [OF cs(3)] Suc.IH [OF cs(2,4)] power_Suc)
qed

text \<open>C31: codes are drawn and uniform. As soon as the random source has given six bytes below 250 the generator returns, with
  six digits; and every one of the million codes comes from the same number of the equally likely runs of six accepted
  bytes, so no code is easier to guess than another.\<close>
theorem newNumericCode_uniform:
  "(6 \<le> length (filter (\<lambda>b. byte b < 250) s) \<longrightarrow> (\<exists>code. newNumericCode s = Some code \<and> length code = 6 \<and> (\<forall>c \<in> set code. digit_of c)))
   \<and> (length code = 6 \<and> (\<forall>c \<in> set code. digit_of c) \<longrightarrow> card {s. length s = 6 \<and> newNumericCode s = Some code} = 25 ^ 6)"
  using draw_digits_enough [of 6 s] card_supplies [of code 6] by (auto simp: newNumericCode_def codeDigits_def)

lemma demo_draw: "newNumericCode (map char_of [255 :: nat, 7, 18, 253, 29, 130, 241, 42, 9]) = Some ''789012''"
  by code_simp

theorem newNumericCode_uniform_witness:
  "newNumericCode (map char_of [255 :: nat, 7, 18, 253, 29, 130, 241, 42, 9]) = Some ''789012''
   \<and> card {s. length s = 6 \<and> newNumericCode s = Some ''789012''} = 25 ^ 6"
  using newNumericCode_uniform [of "[]" "''789012''"] demo_draw by (simp add: byte_def is_digit_def)

end
