(* ===== verification/Server.thy ===== *)
theory Server
  imports Endpoints Vault RateLimit Ids
begin

text \<open>
  The program \<^verbatim>\<open>cmd/authd\<close>: what \<^verbatim>\<open>run\<close> builds from a configuration (\<^verbatim>\<open>main.go\<close>, \<^verbatim>\<open>oidc.go\<close>, \<^verbatim>\<open>sms.go\<close>), the dispatch of its
  muxes, the rate limit, the probes and the middleware around them (\<^verbatim>\<open>internal/httpx/middleware.go\<close>).

  One request is one step on the limiter, the memory of the recording handler and the world. Libraries are the record \<open>ServerLib\<close>.
  The identity providers' key sets and Apple's client secret are those of the instant of the request (\<open>FedState\<close>). The start
  limiter of the recordings answers by a parameter. A rate that is not a finite number is outside the model of the limiter.
\<close>

section \<open>Libraries\<close>

record FedLib =
  fl_oidc :: OidcLib
  fl_jwks :: "bytes \<Rightarrow> jwk list option"
  fl_idToken :: "bytes \<Rightarrow> string option"
  fl_appleKey :: "bytes \<Rightarrow> ec_sign parsed_key"
  fl_marshal :: "json \<Rightarrow> bytes"
  fl_zaloToken :: "bytes \<Rightarrow> (string \<times> int) option"
  fl_zaloMe :: "bytes \<Rightarrow> (string \<times> int) option"

record FedState =
  fs_now :: instant
  fs_google :: RemoteKeySet
  fs_apple :: RemoteKeySet
  fs_cached :: string
  fs_expiry :: instant

record ServerLib =
  lb_edsign :: "bytes \<Rightarrow> bytes \<Rightarrow> bytes"
  lb_edverify :: verify
  lb_vault :: VaultCodec
  lb_codec :: codec
  lb_sha256 :: "bytes \<Rightarrow> bytes"
  lb_hmac :: mac
  lb_jsonb :: "bytes \<Rightarrow> bytes option"
  lb_http :: HttpClient
  lb_fed :: FedLib
  lb_ekycReply :: "bytes \<Rightarrow> (string \<times> string) option"
  lb_callback :: "bytes \<Rightarrow> callback option"
  lb_vonageReply :: "bytes \<Rightarrow> (string \<times> string) list option"
  lb_sendMail :: "string \<Rightarrow> (string \<times> string) option \<Rightarrow> string \<Rightarrow> string list \<Rightarrow> bytes \<Rightarrow> bool"
  lb_parseAddress :: "string \<Rightarrow> string option"
  lb_grantHeader :: bytes
  lb_grantClaims :: "tokenClaims \<Rightarrow> bytes res"
  lb_egress :: "bytes \<Rightarrow> EgressInfo option"
  lb_webhookClaims :: "bytes \<Rightarrow> webhookClaims option"
  lb_webhookEvent :: "bytes \<Rightarrow> WebhookEvent option"
  lb_startAllowed :: "string \<Rightarrow> bool"
  lb_format :: "instant \<Rightarrow> string"
  lb_dec :: AuthDecoders
  lb_createBody :: "bytes \<Rightarrow> createBody option"
  lb_parseTime :: "string \<Rightarrow> instant option"
  lb_classBody :: "bytes \<Rightarrow> (string \<times> string) option"
  lb_statusBody :: "bytes \<Rightarrow> string option"
  lb_capacityBody :: "bytes \<Rightarrow> int option"
  lb_grantBody :: "bytes \<Rightarrow> grantReq option"
  lb_revokeBody :: "bytes \<Rightarrow> (string \<times> string) option"

section \<open>Text messages\<close>

definition buildSMSSender :: "ServerLib \<Rightarrow> SMSConfig \<Rightarrow> sender res" where
  "buildSMSSender lib cfg =
     (if sc_Provider cfg = ''twilio'' then
        and_then (NewTwilio \<lparr>tw_AccountSID = sc_TwilioSID cfg, tw_AuthToken = sc_TwilioAuthToken cfg, tw_From = sc_From cfg\<rparr>)
          (\<lambda>t. Inr (twilio_SendLoginCode (lb_http lib) t))
      else if sc_Provider cfg = ''vonage'' then
        and_then (NewVonage \<lparr>vg_APIKey = sc_VonageKey cfg, vg_APISecret = sc_VonageSecret cfg, vg_From = sc_From cfg\<rparr>)
          (\<lambda>v. Inr (vonage_SendLoginCode (lb_vonageReply lib) (lb_http lib) v))
      else if sc_Provider cfg = ''generic'' then
        and_then (NewGeneric \<lparr>gc_URL = sc_GatewayURL cfg, gc_Method = '''', gc_Encoding = '''', gc_ToField = '''', gc_MessageField = '''',
              gc_MessageTemplate = '''', gc_Fields = (if sc_From cfg \<noteq> '''' then [(''from'', sc_From cfg)] else []),
              gc_Headers = (if sc_GatewayToken cfg \<noteq> '''' then [(''Authorization'', ''Bearer '' @ sc_GatewayToken cfg)] else [])\<rparr>)
          (\<lambda>g. Inr (generic_SendLoginCode (lb_http lib) g))
      else Inl (Err (''authd: unknown sms provider '' @ sc_Provider cfg)))"

section \<open>Identity providers\<close>

definition googleIssuer :: string where "googleIssuer = ''https://accounts.google.com''"
definition googleAuthURL :: string where "googleAuthURL = ''https://accounts.google.com/o/oauth2/v2/auth''"
definition appleIssuer :: string where "appleIssuer = ''https://appleid.apple.com''"
definition appleAuthURL :: string where "appleAuthURL = ''https://appleid.apple.com/auth/authorize''"
definition zaloAuthURL :: string where "zaloAuthURL = ''https://oauth.zaloapp.com/v4/permission''"

definition remote_provider :: "FedLib \<Rightarrow> instant \<Rightarrow> string \<Rightarrow> string \<Rightarrow> RemoteKeySet OidcProvider" where
  "remote_provider lib now issuer audience =
     \<lparr>op_Issuer = issuer, op_Audience = audience, op_Keys = remote_VerificationKey (fl_jwks lib) now, op_Leeway = 0\<rparr>"

definition google_connector :: "ServerLib \<Rightarrow> FedState \<Rightarrow> string \<Rightarrow> string \<times> string \<Rightarrow> Connector" where
  "google_connector lib fs base = (\<lambda>(clientID, clientSecret).
     NewOIDCConnector (fl_oidc (lb_fed lib))
       \<lparr>ov_verifier = remote_provider (lb_fed lib) (fs_now fs) googleIssuer clientID,
        ov_exchange = oidc_Exchange (fl_idToken (lb_fed lib)) (NewGoogle clientID (lb_http lib)) (Inr clientSecret),
        ov_authURL = googleAuthURL, ov_clientID = clientID, ov_redirectURL = base @ ''/v1/auth/oidc/google/callback'',
        ov_scopes = [''openid'', ''email'']\<rparr> (fs_now fs) (fs_google fs))"

text \<open>Apple's client secret is the cached one while it lasts, else signed anew.\<close>

definition apple_connector :: "ServerLib \<Rightarrow> FedState \<Rightarrow> string \<Rightarrow> AppleConfig \<Rightarrow> Connector res" where
  "apple_connector lib fs base a =
     and_then (NewApple (fl_appleKey (lb_fed lib)) a (lb_http lib)) (\<lambda>(exch, sec).
       Inr (NewOIDCConnector (fl_oidc (lb_fed lib))
         \<lparr>ov_verifier = remote_provider (lb_fed lib) (fs_now fs) appleIssuer (ac_ClientID a),
          ov_exchange = oidc_Exchange (fl_idToken (lb_fed lib)) exch
            (fst (appleSecret_get (fl_marshal (lb_fed lib)) (lb_sha256 lib) (fs_now fs) (sec\<lparr>as_cached := fs_cached fs, as_expiry := fs_expiry fs\<rparr>))),
          ov_authURL = appleAuthURL, ov_clientID = ac_ClientID a, ov_redirectURL = base @ ''/v1/auth/oidc/apple/callback'',
          ov_scopes = [''openid'']\<rparr> (fs_now fs) (fs_apple fs)))"

definition zalo_connector :: "ServerLib \<Rightarrow> string \<Rightarrow> string \<times> string \<Rightarrow> Connector res" where
  "zalo_connector lib base = (\<lambda>(appID, appSecret).
     and_then (NewExchanger appID appSecret (lb_http lib)) (\<lambda>exch.
       Inr (NewZaloConnector \<lparr>zc_exchange = zalo_Exchange (fl_zaloToken (lb_fed lib)) exch,
         zc_userinfo = zalo_Subject (fl_zaloMe (lb_fed lib)) (NewUserInfo (lb_http lib)),
         zc_authURL = zaloAuthURL, zc_appID = appID, zc_redirectURL = base @ ''/v1/auth/oidc/zalo/callback''\<rparr>)))"

text \<open>The connectors in the order of the code; every one must be registered in the table of providers.\<close>

definition connector_list :: "ServerLib \<Rightarrow> FedState \<Rightarrow> OIDCConfig \<Rightarrow> (string \<times> Connector) list res" where
  "connector_list lib fs oc =
     (let base = oi_RedirectBase oc in
      and_then (case oi_Google oc of None \<Rightarrow> Inr [] | Some g \<Rightarrow> Inr [(''google'', google_connector lib fs base g)]) (\<lambda>google.
      and_then (case oi_Apple oc of None \<Rightarrow> Inr [] | Some a \<Rightarrow> and_then (apple_connector lib fs base a) (\<lambda>c. Inr [(''apple'', c)])) (\<lambda>apple.
      and_then (case oi_Zalo oc of None \<Rightarrow> Inr [] | Some z \<Rightarrow> and_then (zalo_connector lib base z) (\<lambda>c. Inr [(''zalo'', c)])) (\<lambda>zalo.
      Inr (google @ apple @ zalo)))))"

definition buildFederation :: "ServerLib \<Rightarrow> FedState \<Rightarrow> OIDCConfig \<Rightarrow> Connectors option io" where
  "buildFederation lib fs oc =
     (if \<not> oidc_Enabled oc then ret None
      else bind (lift_res (connector_list lib fs oc)) (\<lambda>cs.
           bind ListAuthProviders (\<lambda>registered.
             if list_ex (\<lambda>(name, _). name \<notin> set registered) cs
             then fail (Err ''auth: provider is configured but not registered in auth_providers'')
             else ret (Some (map_of cs)))))"

section \<open>The services\<close>

definition audit_NewSignerFromKeySigner :: "KeySigner \<Rightarrow> KeySigner res" where
  "audit_NewSignerFromKeySigner ks = (if KeyID ks = '''' then Inl (Err ''audit: signing key id required'') else Inr ks)"

definition newIdentity :: "ServerLib \<Rightarrow> Config \<Rightarrow> (IdentitySvc \<times> ekycBridge option) res" where
  "newIdentity lib cfg =
     (case cf_EKYC cfg of
        Some e \<Rightarrow>
          and_then (NewHTTPClient (kc_VendorURL e) (kc_VendorToken e) (lb_http lib)) (\<lambda>client.
          and_then (NewVN (Some (CreateVerification (lb_ekycReply lib) client)) (kc_WebhookSecret e)) (\<lambda>vn.
          and_then (NewIdentityService [''default'' \<mapsto> manual_Begin, ''VN'' \<mapsto> vn_Begin vn]) (\<lambda>ids.
          Inr (ids, Some \<lparr>eb_id = ids, eb_vn = vn, eb_hmac = lb_hmac lib, eb_unmarshal = lb_callback lib\<rparr>))))
      | None \<Rightarrow> and_then (NewIdentityService [''default'' \<mapsto> manual_Begin]) (\<lambda>ids. Inr (ids, None)))"

text \<open>The senders: the configured one, else the console in development, else none.\<close>

definition emailSender :: "ServerLib \<Rightarrow> Config \<Rightarrow> sender option res" where
  "emailSender lib cfg =
     (case cf_SMTP cfg of
        Some m \<Rightarrow> and_then (NewSMTPSender m) (\<lambda>s. Inr (Some (smtp_SendLoginCode (lb_sendMail lib) s)))
      | None \<Rightarrow> Inr (if cf_DevOTPConsole cfg then Some console_SendLoginCode else None))"

definition smsSender :: "ServerLib \<Rightarrow> Config \<Rightarrow> sender option res" where
  "smsSender lib cfg =
     (case cf_SMS cfg of
        Some c \<Rightarrow> and_then (buildSMSSender lib c) (\<lambda>s. Inr (Some s))
      | None \<Rightarrow> Inr (if cf_DevOTPConsole cfg then Some console_SendLoginCode else None))"

definition newAuthHandler :: "ServerLib \<Rightarrow> FedState \<Rightarrow> Config \<Rightarrow> Store \<Rightarrow> AuthSvc \<Rightarrow> validator \<Rightarrow> AuthHandler io" where
  "newAuthHandler lib fs cfg st svc validate =
     bind (lift_res (newIdentity lib cfg)) (\<lambda>(ids, ekyc).
     bind (buildFederation lib fs (cf_OIDC cfg)) (\<lambda>fed.
     bind (lift_res (emailSender lib cfg)) (\<lambda>email.
     bind (lift_res (smsSender lib cfg)) (\<lambda>sms.
     ret \<lparr>ah_svc = svc, ah_store = st, ah_validate = validate, ah_sha256 = lb_sha256 lib, ah_oidc = fed,
       ah_email = map_option (\<lambda>s. NewEmailLogin svc s (lb_parseAddress lib)) email, ah_phone = map_option (NewPhoneLogin svc) sms,
       ah_identity = True, ah_ekyc = ekyc, ah_profile = True,
       ah_stepup = (if email \<noteq> None \<or> sms \<noteq> None
                    then Some \<lparr>su_hash = lb_sha256 lib, su_sms = sms, su_email = email, su_format = lb_format lib\<rparr> else None),
       ah_dec = lb_dec lib\<rparr>))))"

definition gt_zero :: "gofloat \<Rightarrow> bool" where
  "gt_zero f = (case f of Fin r \<Rightarrow> r > 0 | PosInf \<Rightarrow> True | _ \<Rightarrow> False)"

definition newLive :: "ServerLib \<Rightarrow> Config \<Rightarrow> Store \<Rightarrow> validator \<Rightarrow> (SessionHandler \<times> RecHandler) option res" where
  "newLive lib cfg st validate =
     (case cf_LiveKit cfg of
        None \<Rightarrow> Inr None
      | Some lk \<Rightarrow>
          and_then (NewGranter (lb_hmac lib) (lb_grantHeader lib) (lb_grantClaims lib) (lc_APIKey lk) (lc_APISecret lk) (minutes 10)) (\<lambda>granter.
          and_then (NewSessionService (Some granter) (lc_URL lk)) (\<lambda>svc.
          and_then (NewEgressClient (lb_egress lib) (lc_HTTPURL lk) (lc_APIKey lk) (lc_APISecret lk) (lc_FilePrefix lk)) (\<lambda>egress.
          let rec = recording_NewService egress ([WithMaxConcurrent (lc_RecordingMaxConcurrent lk)]
                @ (if gt_zero (lc_RecordingStartRPS lk) then [WithStartLimiter (lb_startAllowed lib)] else []));
              parts = \<lparr>rh_svc = rec, rh_store = st, rh_validate = validate, rh_apiKey = lc_APIKey lk, rh_apiSecret = lc_APISecret lk,
                rh_recordingsBase = lc_RecordingsBaseURL lk, rh_filePrefix = lc_FilePrefix lk, rh_recordingsSecret = lc_RecordingsSecret lk,
                rh_playbackTTL = 0, rh_entitlements = False, rh_hmac = lb_hmac lib, rh_sha256 = lb_sha256 lib,
                rh_claims = lb_webhookClaims lib, rh_event = lb_webhookEvent lib\<rparr>
          in Inr (Some (\<lparr>sh_svc = svc, sh_validate = validate, sh_decode = lb_createBody lib, sh_parseTime = lb_parseTime lib\<rparr>,
               recording_NewHandler parts [rec_WithEntitlements, WithPlaybackTTL (lc_PlaybackTTL lk)]))))))"

record Handlers =
  hs_store :: Store
  hs_keys :: "string \<rightharpoonup> bytes"
  hs_auth :: AuthHandler
  hs_entitlement :: EntitlementHandler
  hs_class :: ClassHandler
  hs_moderation :: ModerationHandler
  hs_consent :: ConsentHandler
  hs_live :: "(SessionHandler \<times> RecHandler) option"
  hs_presence :: "PresenceSvc option"

definition server_store :: "ServerLib \<Rightarrow> KeySigner \<Rightarrow> Store" where
  "server_store lib k = \<lparr>auditSigner = Some k, sha256 = lb_sha256 lib, jsonb = lb_jsonb lib\<rparr>"

definition server_validator :: "ServerLib \<Rightarrow> (string \<rightharpoonup> bytes) \<Rightarrow> validator" where
  "server_validator lib keys = Validate (lb_codec lib) (lb_edverify lib) keys IsAccessTokenRevoked CurrentTokenVersion"

text \<open>The handlers share the store and the validator. The consent service calls the recorder after every decision when recording is
  configured.\<close>

definition handlers_of ::
  "ServerLib \<Rightarrow> Config \<Rightarrow> Store \<Rightarrow> (string \<rightharpoonup> bytes) \<Rightarrow> AuthHandler \<Rightarrow> (SessionHandler \<times> RecHandler) option \<Rightarrow> Handlers" where
  "handlers_of lib cfg st keys auth lv =
     (let validate = server_validator lib keys in
      \<lparr>hs_store = st, hs_keys = keys, hs_auth = auth,
       hs_entitlement = \<lparr>eh_store = st, eh_validate = validate, eh_decodeGrant = lb_grantBody lib, eh_decodeRevoke = lb_revokeBody lib\<rparr>,
       hs_class = \<lparr>ck_svc = \<lparr>cs_entitlements = True\<rparr>, ck_validate = validate, ck_decodeCreate = lb_classBody lib, ck_decodeStatus = lb_statusBody lib,
         ck_decodeCapacity = lb_capacityBody lib\<rparr>,
       hs_moderation = \<lparr>mh_store = st, mh_validate = validate\<rparr>,
       hs_consent = \<lparr>ch_store = st, ch_hook = map_option (\<lambda>(_, rh). ReconcileForSession (rh_svc rh)) lv, ch_validate = validate\<rparr>,
       hs_live = lv,
       hs_presence = (if cf_PresenceCheckpointInterval cfg > 0 then Some (NewPresenceService st (Some (lb_edverify lib, keys))) else None)\<rparr>)"

definition newServer :: "ServerLib \<Rightarrow> FedState \<Rightarrow> Config \<Rightarrow> Handlers io" where
  "newServer lib fs cfg =
     bind (lift_res (buildSigning (lb_edsign lib) (lb_vault lib) (lb_http lib) cfg)) (\<lambda>(ks, keys).
     bind (lift_res (audit_NewSignerFromKeySigner ks)) (\<lambda>auditKey.
     bind (lift_res (NewSignerFromKeySigner (Some ks))) (\<lambda>signer.
     bind (lift_res (NewMinter (lb_codec lib) (Some signer) TokenIssuer (cf_AccessTTL cfg))) (\<lambda>minter.
     bind (lift_res (NewAuthService (Some minter) (cf_RefreshTTL cfg) (lb_sha256 lib))) (\<lambda>svc.
     bind (newAuthHandler lib fs cfg (server_store lib auditKey) svc (server_validator lib keys)) (\<lambda>auth.
     bind (lift_res (newLive lib cfg (server_store lib auditKey) (server_validator lib keys))) (\<lambda>lv.
     ret (handlers_of lib cfg (server_store lib auditKey) keys auth lv))))))))"

section \<open>The middleware\<close>

text \<open>A request as the server gets it, and a response with the headers that the server adds. The log has one line per request
  (bytes and duration are left out).\<close>

record ServerReq = HttpReq +
  sr_RawQuery :: string
  sr_RemoteAddr :: string
  sr_RequestID :: string

record ServerResp = Response +
  sp_RequestID :: string
  sp_RetryAfter :: string
  sp_Text :: string

record LogLine =
  ll_Method :: string
  ll_Path :: string
  ll_Status :: nat
  ll_IP :: string
  ll_RequestID :: string

definition plain_resp :: "Response \<Rightarrow> ServerResp" where
  "plain_resp r = \<lparr>rp_Status = rp_Status r, rp_Body = rp_Body r, rp_Location = rp_Location r, rp_Cookies = rp_Cookies r,
     sp_RequestID = '''', sp_RetryAfter = '''', sp_Text = ''''\<rparr>"

definition url_path :: "string list \<Rightarrow> string" where
  "url_path segs = concat (map (\<lambda>s. CHR ''/'' # s) segs)"

text \<open>\<^verbatim>\<open>net.SplitHostPort\<close>: the host, or nothing for an address that is not a host and a port.\<close>

definition SplitHost :: "string \<Rightarrow> string option" where
  "SplitHost s =
     (if take 1 s = ''['' then
        (let inner = takeWhile (\<lambda>c. c \<noteq> CHR '']'') (tl s); rest = dropWhile (\<lambda>c. c \<noteq> CHR '']'') (tl s) in
         if rest \<noteq> [] \<and> take 1 (tl rest) = '':'' \<and> CHR '':'' \<notin> set (drop 2 rest) \<and> CHR ''['' \<notin> set inner \<and> CHR ''['' \<notin> set rest
            \<and> CHR '']'' \<notin> set (tl rest)
         then Some inner else None)
      else
        (case cut CHR '':'' s of
           None \<Rightarrow> None
         | Some (host, port) \<Rightarrow> if CHR '':'' \<in> set port \<or> CHR ''['' \<in> set s \<or> CHR '']'' \<in> set s then None else Some host))"

definition ClientIP :: "string \<Rightarrow> string" where
  "ClientIP remote = (case SplitHost remote of None \<Rightarrow> remote | Some host \<Rightarrow> host)"

definition RequestIDHeader :: string where "RequestIDHeader = ''X-Request-Id''"

type_synonym 's server_handler = "ServerReq \<Rightarrow> 's \<Rightarrow> ServerResp \<times> 's"

text \<open>\<open>fresh\<close> is the random id that the request gets when it brings none.\<close>

definition RequestID :: "string \<Rightarrow> 's server_handler \<Rightarrow> 's server_handler" where
  "RequestID fresh next_handler rq st =
     (let rid = (if hr_Header rq RequestIDHeader = '''' then fresh else hr_Header rq RequestIDHeader) in
      case next_handler (rq\<lparr>sr_RequestID := rid\<rparr>) st of (resp, st') \<Rightarrow> (resp\<lparr>sp_RequestID := rid\<rparr>, st'))"

definition AccessLog :: "('s \<times> LogLine list) server_handler \<Rightarrow> ('s \<times> LogLine list) server_handler" where
  "AccessLog next_handler rq st =
     (case next_handler rq st of (resp, st', lines) \<Rightarrow>
        (resp, st', lines @ [\<lparr>ll_Method = hr_Method rq, ll_Path = url_path (hr_Path rq), ll_Status = rp_Status resp,
           ll_IP = ClientIP (sr_RemoteAddr rq), ll_RequestID = sr_RequestID rq\<rparr>]))"

section \<open>Dispatch\<close>

text \<open>A subtree that is registered only with its slash redirects the path without it.\<close>

definition redirect_slash :: "ServerReq \<Rightarrow> Response" where
  "redirect_slash rq = (respond 301 None)\<lparr>rp_Location := url_path (hr_Path rq) @ ''/'' @ (if sr_RawQuery rq = '''' then '''' else ''?'' @ sr_RawQuery rq)\<rparr>"

definition api_mux :: "Handlers \<Rightarrow> (string \<Rightarrow> (string \<times> string) option) \<Rightarrow> Draws \<Rightarrow> string \<Rightarrow> ServerReq \<Rightarrow> RecMemory \<times> world \<Rightarrow> Response \<times> RecMemory \<times> world" where
  "api_mux hs absolute dr nid rq = (\<lambda>(mem, w).
     let r = HttpReq.truncate rq;
         plain = (\<lambda>routes. case answered (mux routes r) w of (resp, w') \<Rightarrow> (resp, mem, w'));
         subtree = (\<lambda>name. take 2 (hr_Path rq) = [''v1'', name]);
         bare = (\<lambda>name. hr_Path rq = [''v1'', name])
     in if subtree ''entitlements'' then plain (entitlement_routes (hs_entitlement hs) nid)
        else if subtree ''classes'' then plain (class_routes (hs_class hs) nid)
        else if bare ''moderation'' \<or> bare ''consent'' then (redirect_slash rq, mem, w)
        else if subtree ''moderation'' then plain (moderation_routes (hs_moderation hs))
        else if subtree ''consent'' then plain (consent_routes (hs_consent hs) nid)
        else case hs_live hs of
               None \<Rightarrow> plain (auth_routes (hs_auth hs) dr)
             | Some (sh, rh) \<Rightarrow>
                 if subtree ''sessions'' then plain (session_routes sh nid)
                 else if bare ''recordings'' \<or> bare ''webhooks'' then (redirect_slash rq, mem, w)
                 else if subtree ''recordings'' \<or> subtree ''webhooks'' then recording_mux rh absolute nid r (mem, w)
                 else plain (auth_routes (hs_auth hs) dr))"

definition too_many :: ServerResp where
  "too_many = (plain_resp (respond 429 None))\<lparr>sp_RetryAfter := ''1'', sp_Text := ''rate limit exceeded''\<rparr>"

type_synonym server = "RateLimiter \<times> RecMemory \<times> world"

definition limitedAPI :: "Handlers \<Rightarrow> (string \<Rightarrow> (string \<times> string) option) \<Rightarrow> Draws \<Rightarrow> string \<Rightarrow> server server_handler" where
  "limitedAPI hs absolute dr nid rq = (\<lambda>(rl, mem, w).
     LimitExcept (w_now w) too_many
       (\<lambda>_ (rl, mem, w). case api_mux hs absolute dr nid rq (mem, w) of (resp, mem', w') \<Rightarrow> (plain_resp resp, rl, mem', w'))
       [''/v1/recordings/authz'', ''/v1/webhooks/''] \<lparr>rq_Path = url_path (hr_Path rq), rq_ClientIP = ClientIP (sr_RemoteAddr rq)\<rparr> (rl, mem, w))"

definition pool_Ping :: "unit io" where
  "pool_Ping = pg (\<lambda>now d. Inr ((), d))"

definition rootHandler :: "server server_handler \<Rightarrow> server server_handler" where
  "rootHandler api rq = (\<lambda>(rl, mem, w).
     if hr_Path rq = [''healthz''] \<and> method_ok ''GET'' (hr_Method rq) then (plain_resp (respond 200 None), rl, mem, w)
     else if hr_Path rq = [''readyz''] \<and> method_ok ''GET'' (hr_Method rq) then
       (case pool_Ping w of
          (Inl _, w') \<Rightarrow> (plain_resp (respond 503 None), rl, mem, w')
        | (Inr _, w') \<Rightarrow> (plain_resp (respond 200 None), rl, mem, w'))
     else api rq (rl, mem, w))"

text \<open>The whole server: the first middleware of the list is the outermost. A panic is answered where a handler answers
  (\<open>answered\<close>), so that the recovering middleware adds nothing here.\<close>

definition serve :: "Handlers \<Rightarrow> (string \<Rightarrow> (string \<times> string) option) \<Rightarrow> Draws \<Rightarrow> string \<Rightarrow> string \<Rightarrow> (server \<times> LogLine list) server_handler" where
  "serve hs absolute dr nid fresh =
     Chain (\<lambda>rq (sv, lines). case rootHandler (limitedAPI hs absolute dr nid) rq sv of (resp, sv') \<Rightarrow> (resp, sv', lines)) [RequestID fresh, AccessLog]"

section \<open>Around the requests\<close>

text \<open>The limiter that the configuration asks for, when its rate is a number.\<close>

definition newLimiter :: "Config \<Rightarrow> RateLimiter option" where
  "newLimiter cfg = (case cf_RateLimitRPS cfg of Fin rps \<Rightarrow> Some (NewRateLimiter rps (cf_RateLimitBurst cfg)) | _ \<Rightarrow> None)"

text \<open>One tick of the checkpoint worker; a failure is logged and the next tick tries again.\<close>

definition checkpoint_tick :: "PresenceSvc \<Rightarrow> string \<Rightarrow> unit io" where
  "checkpoint_tick svc nid = attempt (Checkpoint svc nid) (\<lambda>_. ret ())"

text \<open>\<open>ping t\<close> is the outcome of a ping that starts at \<open>t\<close> and the instant at which it has answered; \<open>cancelled t\<close> says that the
  context is cancelled within the second from \<open>t\<close> on.\<close>

function waitForDB_loop :: "(instant \<Rightarrow> error option \<times> instant) \<Rightarrow> (instant \<Rightarrow> bool) \<Rightarrow> instant \<Rightarrow> instant \<Rightarrow> unit res" where
  "waitForDB_loop ping cancelled deadline now =
     (case ping now of
        (None, t) \<Rightarrow> Inr ()
      | (Some err, t) \<Rightarrow>
          if max now t > deadline then Inl (Err ''database not ready after 30s'')
          else if cancelled (max now t) then Inl (Err ''context canceled'')
          else waitForDB_loop ping cancelled deadline (max now t + seconds 1))"
  by pat_completeness auto
termination
  by (relation "measure (\<lambda>(ping, cancelled, deadline, now). nat (deadline + 1 - now))") (auto simp: seconds_def)

declare waitForDB_loop.simps [simp del]

definition waitForDB :: "(instant \<Rightarrow> error option \<times> instant) \<Rightarrow> (instant \<Rightarrow> bool) \<Rightarrow> instant \<Rightarrow> unit res" where
  "waitForDB ping cancelled now = waitForDB_loop ping cancelled (now + seconds 30) now"

text \<open>A database that answers from some instant within the deadline on is waited for.\<close>

lemma waitForDB_loop_ready:
  assumes "\<And>t. t \<ge> up \<Longrightarrow> fst (ping t) = None" "\<And>t. \<not> cancelled t" "\<And>t. t \<le> snd (ping t) \<and> (fst (ping t) \<noteq> None \<longrightarrow> snd (ping t) \<le> up)" "up \<le> deadline"
  shows "waitForDB_loop ping cancelled deadline now = Inr ()"
  using assms
proof (induction ping cancelled deadline now rule: waitForDB_loop.induct)
  case (1 ping cancelled deadline now)
  show ?case
  proof (cases "fst (ping now)")
    case None
    then show ?thesis by (subst waitForDB_loop.simps, cases "ping now") simp
  next
    case (Some err)
    obtain t where p: "ping now = (Some err, t)" using Some by (metis prod.collapse)
    have t: "now \<le> t" "t \<le> up" using "1.prems"(3) [of now] p by simp_all
    then have "\<not> max now t > deadline" using "1.prems"(4) by simp
    with "1.IH" [OF p [symmetric] refl this "1.prems"(2) "1.prems"] "1.prems"(2) [of "max now t"]
    show ?thesis by (subst waitForDB_loop.simps) (simp add: p)
  qed
qed

section \<open>What the program wires together\<close>

definition assembled :: "validator \<Rightarrow> Handlers \<Rightarrow> bool" where
  "assembled validate hs \<longleftrightarrow> ah_validate (hs_auth hs) = validate \<and> auth_wired (hs_store hs) (hs_auth hs)
     \<and> eh_validate (hs_entitlement hs) = validate \<and> eh_store (hs_entitlement hs) = hs_store hs
     \<and> ck_validate (hs_class hs) = validate
     \<and> mh_validate (hs_moderation hs) = validate \<and> mh_store (hs_moderation hs) = hs_store hs
     \<and> ch_validate (hs_consent hs) = validate \<and> ch_store (hs_consent hs) = hs_store hs
     \<and> (\<forall>f. ch_hook (hs_consent hs) = Some f \<longrightarrow> (\<exists>svc. f = ReconcileForSession svc))
     \<and> (\<forall>sh rh. hs_live hs = Some (sh, rh) \<longrightarrow> sh_validate sh = validate \<and> rh_validate rh = validate \<and> rh_store rh = hs_store hs)
     \<and> (\<forall>ps. hs_presence hs = Some ps \<longrightarrow> ps_store ps = hs_store hs)"

lemma lift_res_InrD: "lift_res r w = (Inr x, w') \<Longrightarrow> r = Inr x \<and> w' = w"
  by (cases r) (simp_all add: lift_res_def fail_def ret_def)

lemma newAuthHandler_InrD:
  assumes "newAuthHandler lib fs cfg st svc validate w = (Inr h, w')" "reading_sources svc"
  shows "ah_validate h = validate \<and> auth_wired st h"
proof -
  obtain fed email sms ekyc su where h: "h = \<lparr>ah_svc = svc, ah_store = st, ah_validate = validate, ah_sha256 = lb_sha256 lib, ah_oidc = fed,
       ah_email = map_option (\<lambda>s. NewEmailLogin svc s (lb_parseAddress lib)) email, ah_phone = map_option (NewPhoneLogin svc) sms,
       ah_identity = True, ah_ekyc = ekyc, ah_profile = True, ah_stepup = su, ah_dec = lb_dec lib\<rparr>"
    using assms(1) unfolding newAuthHandler_def by (elim bind_InrD) (auto simp: ret_def elim!: bind_InrD)
  then show ?thesis using assms(2) wired_constructors [OF assms(2)] by (auto simp: auth_wired_def)
qed

lemma newServer_InrD:
  assumes "newServer lib fs cfg w0 = (Inr hs, w1)"
  obtains ks keys minter svc auth lv wa wb where "buildSigning (lb_edsign lib) (lb_vault lib) (lb_http lib) cfg = Inr (ks, keys)"
    "NewAuthService (Some minter) (cf_RefreshTTL cfg) (lb_sha256 lib) = Inr svc"
    "newAuthHandler lib fs cfg (server_store lib ks) svc (server_validator lib keys) wa = (Inr auth, wb)"
    "newLive lib cfg (server_store lib ks) (server_validator lib keys) = Inr lv"
    "hs = handlers_of lib cfg (server_store lib ks) keys auth lv"
proof -
  obtain p wp where p: "lift_res (buildSigning (lb_edsign lib) (lb_vault lib) (lb_http lib) cfg) w0 = (Inr p, wp)"
    and r0: "(case p of (ks, keys) \<Rightarrow>
     bind (lift_res (audit_NewSignerFromKeySigner ks)) (\<lambda>auditKey.
     bind (lift_res (NewSignerFromKeySigner (Some ks))) (\<lambda>signer.
     bind (lift_res (NewMinter (lb_codec lib) (Some signer) TokenIssuer (cf_AccessTTL cfg))) (\<lambda>minter.
     bind (lift_res (NewAuthService (Some minter) (cf_RefreshTTL cfg) (lb_sha256 lib))) (\<lambda>svc.
     bind (newAuthHandler lib fs cfg (server_store lib auditKey) svc (server_validator lib keys)) (\<lambda>auth.
     bind (lift_res (newLive lib cfg (server_store lib auditKey) (server_validator lib keys))) (\<lambda>lv.
     ret (handlers_of lib cfg (server_store lib auditKey) keys auth lv)))))))) wp = (Inr hs, w1)"
    using assms unfolding newServer_def by (rule bind_InrD)
  obtain ks keys where kk: "p = (ks, keys)" by force
  from r0 [unfolded kk prod.case] obtain ak signer minter svc auth lv wa wb wc wd we wf where
    a: "lift_res (audit_NewSignerFromKeySigner ks) wp = (Inr ak, wc)" and
    s: "lift_res (NewAuthService (Some minter) (cf_RefreshTTL cfg) (lb_sha256 lib)) wd = (Inr svc, wa)" and
    h: "newAuthHandler lib fs cfg (server_store lib ak) svc (server_validator lib keys) wa = (Inr auth, wb)" and
    l: "lift_res (newLive lib cfg (server_store lib ak) (server_validator lib keys)) wb = (Inr lv, we)" and
    hs: "ret (handlers_of lib cfg (server_store lib ak) keys auth lv) we = (Inr hs, w1)"
    by (elim bind_InrD)
  have ak: "ak = ks" using lift_res_InrD [OF a] by (auto simp: audit_NewSignerFromKeySigner_def split: if_splits)
  show thesis
    using that [of ks keys minter svc wa auth wb lv] lift_res_InrD [OF p] lift_res_InrD [OF s] h lift_res_InrD [OF l] hs
    by (simp add: kk ak ret_def)
qed

lemma newServer_assembled:
  assumes "newServer lib fs cfg w0 = (Inr hs, w1)"
  shows "assembled (server_validator lib (hs_keys hs)) hs"
proof -
  obtain ks keys minter svc auth lv wa wb where
    svc: "NewAuthService (Some minter) (cf_RefreshTTL cfg) (lb_sha256 lib) = Inr svc" and
    auth: "newAuthHandler lib fs cfg (server_store lib ks) svc (server_validator lib keys) wa = (Inr auth, wb)" and
    live: "newLive lib cfg (server_store lib ks) (server_validator lib keys) = Inr lv" and
    hs: "hs = handlers_of lib cfg (server_store lib ks) keys auth lv"
    using assms by (rule newServer_InrD)
  have "reading_sources svc" using svc by (auto simp: NewAuthService_def reading_sources_def split: if_splits)
  from newAuthHandler_InrD [OF auth this]
  have a: "ah_validate auth = server_validator lib keys" "auth_wired (server_store lib ks) auth" by simp_all
  have l: "\<forall>sh rh. lv = Some (sh, rh) \<longrightarrow> sh_validate sh = server_validator lib keys \<and> rh_validate rh = server_validator lib keys \<and> rh_store rh = server_store lib ks"
    using live by (auto simp: newLive_def Let_def and_then_def recording_options split: option.splits sum.splits if_splits)
  have hook: "\<forall>f. map_option (\<lambda>(_, rh). ReconcileForSession (rh_svc rh)) lv = Some f \<longrightarrow> (\<exists>svc. f = ReconcileForSession svc)"
    by (cases lv) auto
  have worker: "\<forall>ps. (if 0 < cf_PresenceCheckpointInterval cfg then Some (NewPresenceService (server_store lib ks) (Some (lb_edverify lib, keys))) else None) = Some ps
      \<longrightarrow> ps_store ps = server_store lib ks"
    by (auto simp: NewPresenceService_def)
  show ?thesis
    unfolding assembled_def hs handlers_of_def Let_def Handlers.simps EntitlementHandler.simps ClassHandler.simps ModerationHandler.simps ConsentHandler.simps
    by (intro conjI; (rule refl a l hook worker))
qed

section \<open>The gate of the server\<close>

lemma answered_refused:
  assumes "refused validate r w" "gated validate routes r" "answered (mux routes r) w = (resp, w')"
  shows "rp_Status resp \<in> {401, 404, 405} \<and> w_db w' = w_db w"
proof -
  obtain resp0 w0 where m: "mux routes r w = (Inr resp0, w0)" "rp_Status resp0 \<in> {401, 404, 405}" "w_db w0 = w_db w"
    using mux_refused [OF assms(1,2)] by blast
  then have "resp = resp0" "w' = w0" using assms(3) by (simp_all add: answered_def)
  with m show ?thesis by simp
qed

lemma recording_mux_refused:
  assumes "refused (rh_validate rh) r w" "\<not> public_path (hr_Path r)" "recording_mux rh absolute nid r (mem, w) = (resp, mem', w')"
  shows "rp_Status resp \<in> {401, 404, 405} \<and> mem' = mem \<and> w_db w' = w_db w"
proof -
  have "(case answered (mux (recording_routes rh nid) r) w of (resp, w') \<Rightarrow> (resp, mem, w')) = (resp, mem', w')"
    using assms(2,3) by (simp add: recording_mux_def public_path_def)
  then have "answered (mux (recording_routes rh nid) r) w = (resp, w')" "mem' = mem" by (auto split: prod.splits)
  with answered_refused [OF assms(1) gated_services(6)] show ?thesis by blast
qed

lemma truncate_fields [simp]: "hr_Path (HttpReq.truncate rq) = hr_Path rq" "hr_Header (HttpReq.truncate rq) = hr_Header rq"
  by (simp_all add: HttpReq.truncate_def)

lemma refused_truncate:
  assumes "\<And>raw. bearer (hr_Header rq ''Authorization'') = Some raw \<Longrightarrow> \<exists>e. fst (server_validator lib keys raw w) = Inl e"
  shows "refused (server_validator lib keys) (HttpReq.truncate rq) w"
  unfolding refused_def truncate_fields
proof (intro allI impI)
  fix raw assume "bearer (hr_Header rq ''Authorization'') = Some raw"
  then obtain e w' where v: "server_validator lib keys raw w = (Inl e, w')" using assms by (metis prod.collapse)
  from keepsD [OF Validate_reads [where J = "\<lambda>d. d = w_db w"] v [unfolded server_validator_def]]
  show "\<exists>e w'. server_validator lib keys raw w = (Inl e, w') \<and> w_db w' = w_db w" using v by auto
qed

text \<open>The tables of routes behind the dispatch, and what it does with a request.\<close>

definition api_tables :: "Handlers \<Rightarrow> Draws \<Rightarrow> string \<Rightarrow> route list set" where
  "api_tables hs dr nid = {entitlement_routes (hs_entitlement hs) nid, class_routes (hs_class hs) nid, moderation_routes (hs_moderation hs),
     consent_routes (hs_consent hs) nid, auth_routes (hs_auth hs) dr} \<union> (case hs_live hs of None \<Rightarrow> {} | Some (sh, rh) \<Rightarrow> {session_routes sh nid})"

lemma plain_reply [simp]: "(case p of (resp, w') \<Rightarrow> (resp, m, w')) = (resp, m', w') \<longleftrightarrow> p = (resp, w') \<and> m' = m"
  by (cases p) auto

lemma api_mux_cases:
  assumes "api_mux hs absolute dr nid rq (mem, w) = (resp, mem', w')"
  shows "(resp = redirect_slash rq \<and> mem' = mem \<and> w' = w)
    \<or> (\<exists>routes \<in> api_tables hs dr nid. answered (mux routes (HttpReq.truncate rq)) w = (resp, w') \<and> mem' = mem)
    \<or> (\<exists>sh rh. hs_live hs = Some (sh, rh) \<and> recording_mux rh absolute nid (HttpReq.truncate rq) (mem, w) = (resp, mem', w'))"
proof (cases "hs_live hs")
  case None
  then show ?thesis using assms unfolding api_mux_def Let_def prod.case None option.case
    by (simp add: api_tables_def split: if_splits)
next
  case (Some lv)
  obtain sh rh where lv: "lv = (sh, rh)" by force
  show ?thesis using assms unfolding api_mux_def Let_def prod.case Some lv option.case
    by (simp add: api_tables_def Some lv split: if_splits)
qed

lemma api_tables_gated:
  assumes "assembled validate hs" "\<not> public_path (hr_Path r)" "routes \<in> api_tables hs dr nid"
  shows "gated validate routes r"
proof -
  have "gated validate (entitlement_routes (hs_entitlement hs) nid) r" "gated validate (class_routes (hs_class hs) nid) r"
    "gated validate (moderation_routes (hs_moderation hs)) r" "gated validate (consent_routes (hs_consent hs) nid) r"
    "gated validate (auth_routes (hs_auth hs) dr) r"
    using assms(1) gated_services gated_auth [OF assms(2)] unfolding assembled_def by metis+
  moreover have "gated validate (session_routes sh nid) r" if "hs_live hs = Some (sh, rh)" for sh rh
    using assms(1) gated_services(1) that unfolding assembled_def by metis
  ultimately show ?thesis using assms(3) by (auto simp: api_tables_def split: option.splits)
qed

lemma api_mux_refused:
  assumes a: "assembled validate hs" and r: "refused validate (HttpReq.truncate rq) w" and p: "\<not> public_path (hr_Path rq)"
    and m: "api_mux hs absolute dr nid rq (mem, w) = (resp, mem', w')"
  shows "rp_Status resp \<in> {301, 401, 404, 405} \<and> mem' = mem \<and> w_db w' = w_db w"
  using api_mux_cases [OF m]
proof (elim disjE exE conjE bexE)
  assume "resp = redirect_slash rq" "mem' = mem" "w' = w"
  then show ?thesis by (simp add: redirect_slash_def respond_def)
next
  fix routes assume t: "routes \<in> api_tables hs dr nid" "answered (mux routes (HttpReq.truncate rq)) w = (resp, w')" "mem' = mem"
  have "gated validate routes (HttpReq.truncate rq)" using api_tables_gated [OF a _ t(1)] p by simp
  from answered_refused [OF r this t(2)] t(3) show ?thesis by blast
next
  fix sh rh assume "hs_live hs = Some (sh, rh)" and rec: "recording_mux rh absolute nid (HttpReq.truncate rq) (mem, w) = (resp, mem', w')"
  then have "rh_validate rh = validate" using a by (simp add: assembled_def)
  with recording_mux_refused [OF _ _ rec] r p show ?thesis by simp
qed

lemma LimitExcept_cases:
  "LimitExcept now deny h ps r (rl, s) = (resp, rl', s') \<Longrightarrow> (resp = deny \<and> s' = s) \<or> (\<exists>rl1. h r (rl1, s) = (resp, rl', s'))"
  by (induction ps) (auto simp: Limit_def split: if_splits prod.splits)

lemma limitedAPI_cases:
  assumes "limitedAPI hs absolute dr nid rq (rl, mem, w) = (resp, rl', mem', w')"
  shows "resp = too_many \<and> mem' = mem \<and> w' = w \<or> (\<exists>r0. api_mux hs absolute dr nid rq (mem, w) = (r0, mem', w') \<and> resp = plain_resp r0)"
proof -
  define h where "h = (\<lambda>(_ :: request) (rl :: RateLimiter, mem, w). case api_mux hs absolute dr nid rq (mem, w) of (resp, mem', w') \<Rightarrow> (plain_resp resp, rl, mem', w'))"
  define req where "req = \<lparr>rq_Path = url_path (hr_Path rq), rq_ClientIP = ClientIP (sr_RemoteAddr rq)\<rparr>"
  have "LimitExcept (w_now w) too_many h [''/v1/recordings/authz'', ''/v1/webhooks/''] req (rl, mem, w) = (resp, rl', mem', w')"
    using assms by (simp only: limitedAPI_def h_def req_def prod.case)
  from LimitExcept_cases [OF this] show ?thesis
  proof (elim disjE exE conjE)
    fix rl1 assume "h req (rl1, mem, w) = (resp, rl', mem', w')"
    then show ?thesis by (cases "api_mux hs absolute dr nid rq (mem, w)") (auto simp: h_def)
  qed simp
qed

lemma serve_cases:
  assumes "serve hs absolute dr nid fresh rq ((rl, mem, w), lines) = (resp, ((rl', mem', w'), lines'))"
  shows "\<exists>rid resp0. rootHandler (limitedAPI hs absolute dr nid) (rq\<lparr>sr_RequestID := rid\<rparr>) (rl, mem, w) = (resp0, rl', mem', w')
    \<and> resp = resp0\<lparr>sp_RequestID := rid\<rparr>"
proof -
  define rid where "rid = (if hr_Header rq RequestIDHeader = '''' then fresh else hr_Header rq RequestIDHeader)"
  have "resp = fst (rootHandler (limitedAPI hs absolute dr nid) (rq\<lparr>sr_RequestID := rid\<rparr>) (rl, mem, w))\<lparr>sp_RequestID := rid\<rparr>
      \<and> snd (rootHandler (limitedAPI hs absolute dr nid) (rq\<lparr>sr_RequestID := rid\<rparr>) (rl, mem, w)) = (rl', mem', w')"
    using assms by (simp add: serve_def Chain_def RequestID_def AccessLog_def Let_def rid_def [symmetric] split: prod.splits)
  then show ?thesis by (metis prod.collapse)
qed

section \<open>What it takes to start\<close>

lemma federation_starts:
  assumes "oidc_wf oc" "\<And>a. oi_Apple oc = Some a \<Longrightarrow> ac_PrivateKey a \<noteq> [] \<and> (\<exists>k. fl_appleKey (lb_fed lib) (ac_PrivateKey a) = ECKey k)"
    and "{''google'', ''apple'', ''zalo''} \<subseteq> set (auth_providers (w_db w))" "w_faults w = []"
  shows "\<exists>fed. buildFederation lib fs oc w = (Inr fed, w)"
proof (cases "oidc_Enabled oc")
  case True
  define base where "base = oi_RedirectBase oc"
  obtain a where a: "(case oi_Apple oc of None \<Rightarrow> Inr [] | Some a \<Rightarrow> and_then (apple_connector lib fs base a) (\<lambda>c. Inr [(''apple'', c)])) = Inr a"
    "fst ` set a \<subseteq> {''apple''}"
  proof (cases "oi_Apple oc")
    case (Some x)
    obtain c where "apple_connector lib fs base x = Inr c"
      using assms(1) assms(2) [OF Some] Some by (auto simp: oidc_wf_def apple_connector_def NewApple_def parseECPrivateKey_def and_then_def)
    then show thesis using that [of "[(''apple'', c)]"] Some by (simp add: and_then_def)
  qed (use that [of "[]"] in simp)
  obtain z where z: "(case oi_Zalo oc of None \<Rightarrow> Inr [] | Some z \<Rightarrow> and_then (zalo_connector lib base z) (\<lambda>c. Inr [(''zalo'', c)])) = Inr z"
    "fst ` set z \<subseteq> {''zalo''}"
  proof (cases "oi_Zalo oc")
    case (Some x)
    obtain c where "zalo_connector lib base x = Inr c"
      using assms(1) Some by (cases x) (auto simp: oidc_wf_def zalo_connector_def NewExchanger_def and_then_def)
    then show thesis using that [of "[(''zalo'', c)]"] Some by (simp add: and_then_def)
  qed (use that [of "[]"] in simp)
  obtain g where g: "(case oi_Google oc of None \<Rightarrow> Inr [] | Some g \<Rightarrow> Inr [(''google'', google_connector lib fs base g)]) = Inr g"
    "fst ` set g \<subseteq> {''google''}"
    by (cases "oi_Google oc") auto
  have cs: "connector_list lib fs oc = Inr (g @ a @ z)" "fst ` set (g @ a @ z) \<subseteq> {''google'', ''apple'', ''zalo''}"
    using g a(2) z(2) unfolding connector_list_def Let_def base_def [symmetric] a(1) z(1) by (cases "oi_Google oc"; auto simp: and_then_def)+
  have "ListAuthProviders w = (Inr (sort_strings (auth_providers (w_db w))), w)"
    using assms(4) by (simp add: ListAuthProviders_def pg_def take_fault_def)
  then show ?thesis
    using True cs assms(3) by (auto simp: buildFederation_def lift_res_def bind_def ret_def list_ex_iff set_sort_strings fail_def)
qed (simp add: buildFederation_def ret_def)

lemma handler_starts:
  assumes c: "config_wf cfg" and f: "\<exists>fed. buildFederation lib fs (cf_OIDC cfg) w = (Inr fed, w)"
  shows "\<exists>h. newAuthHandler lib fs cfg st svc v w = (Inr h, w)"
proof -
  obtain ids ekyc where ids: "newIdentity lib cfg = Inr (ids, ekyc)" using c
    by (cases "cf_EKYC cfg") (auto simp: config_wf_def newIdentity_def NewHTTPClient_def NewVN_def NewIdentityService_def and_then_def)
  obtain e where e: "emailSender lib cfg = Inr e" using c
    by (cases "cf_SMTP cfg") (auto simp: config_wf_def emailSender_def NewSMTPSender_def and_then_def)
  obtain s where s: "smsSender lib cfg = Inr s" using c
    by (cases "cf_SMS cfg") (auto simp: config_wf_def sms_wf_def smsSender_def buildSMSSender_def NewTwilio_def NewVonage_def NewGeneric_def and_then_def)
  obtain fed where fed: "buildFederation lib fs (cf_OIDC cfg) w = (Inr fed, w)" using f by blast
  show ?thesis by (simp add: newAuthHandler_def ids e s fed lift_res_def bind_def ret_def)
qed

lemma live_starts: "config_wf cfg \<Longrightarrow> \<exists>l. newLive lib cfg st v = Inr l"
  by (cases "cf_LiveKit cfg")
    (auto simp: config_wf_def livekit_wf_def newLive_def NewGranter_def NewSessionService_def NewEgressClient_def and_then_def minutes_def seconds_def Let_def)

lemma signing_starts:
  assumes "config_wf cfg" "cf_Vault cfg = None"
  shows "\<exists>ks keys. buildSigning edsign vx hc cfg = Inr (ks, keys)"
  using assms by (auto simp: config_wf_def keys_wf_def buildSigning_def NewLocalKeySigner_def)

lemma buildSigning_KeyID: "buildSigning edsign vx hc cfg = Inr (ks, keys) \<Longrightarrow> KeyID ks = cf_Kid cfg"
  by (auto simp: buildSigning_def Let_def NewLocalKeySigner_def vault_New_def vault_of_def vault_KeySigner_def split: option.splits sum.splits if_splits)

definition apple_key_ok :: "FedLib \<Rightarrow> OIDCConfig \<Rightarrow> bool" where
  "apple_key_ok lib oc \<longleftrightarrow> (\<forall>a. oi_Apple oc = Some a \<longrightarrow> ac_PrivateKey a \<noteq> [] \<and> (\<exists>k. fl_appleKey lib (ac_PrivateKey a) = ECKey k))"

lemma lift_res_value: "lift_res r w = (Inr x, w') \<Longrightarrow> r = Inr x \<and> w' = w"
  by (cases r) (simp_all add: lift_res_def fail_def ret_def)

lemma federation_needs_key:
  assumes "buildFederation lib fs oc w = (Inr fed, w')"
  shows "apple_key_ok (lb_fed lib) oc"
  unfolding apple_key_ok_def
proof (intro allI impI)
  fix a assume a: "oi_Apple oc = Some a"
  then have "oidc_Enabled oc" by (simp add: oidc_Enabled_def)
  with assms obtain cs where "connector_list lib fs oc = Inr cs"
    by (auto simp: buildFederation_def elim!: bind_InrD dest!: lift_res_value)
  then obtain c where "apple_connector lib fs (oi_RedirectBase oc) a = Inr c"
    using a by (auto simp: connector_list_def and_then_def Let_def split: sum.splits)
  then show "ac_PrivateKey a \<noteq> [] \<and> (\<exists>k. fl_appleKey (lb_fed lib) (ac_PrivateKey a) = ECKey k)"
    by (auto simp: apple_connector_def NewApple_def parseECPrivateKey_def and_then_def split: sum.splits if_splits parsed_key.splits)
qed

lemma started_server:
  assumes "newServer lib fs cfg w = (Inr hs, w')"
  shows "\<exists>p. buildSigning (lb_edsign lib) (lb_vault lib) (lb_http lib) cfg = Inr p" "cf_AccessTTL cfg \<le> MaxAccessTTL" "apple_key_ok (lb_fed lib) (cf_OIDC cfg)"
proof -
  obtain ks keys auditKey signer minter svc auth w1 w2
    where p: "buildSigning (lb_edsign lib) (lb_vault lib) (lb_http lib) cfg = Inr (ks, keys)"
      and m: "NewMinter (lb_codec lib) (Some signer) TokenIssuer (cf_AccessTTL cfg) = Inr minter"
      and h: "newAuthHandler lib fs cfg (server_store lib auditKey) svc (server_validator lib keys) w1 = (Inr auth, w2)"
    using assms unfolding newServer_def by (auto elim!: bind_InrD dest!: lift_res_value split: prod.splits)
  show "\<exists>p. buildSigning (lb_edsign lib) (lb_vault lib) (lb_http lib) cfg = Inr p" using p by blast
  show "cf_AccessTTL cfg \<le> MaxAccessTTL" using m by (auto simp: NewMinter_def split: if_splits)
  obtain fed w3 w4 where "buildFederation lib fs (cf_OIDC cfg) w3 = (Inr fed, w4)"
    using h unfolding newAuthHandler_def by (auto elim!: bind_InrD dest!: lift_res_value split: prod.splits)
  then show "apple_key_ok (lb_fed lib) (cf_OIDC cfg)" by (rule federation_needs_key)
qed

text \<open>C26: which configurations that load start the server. When the three providers are registered and the connection holds, the server of a loaded
  configuration is built if and only if access tokens live fifteen minutes at most, Vault, if it is configured, answers the query for its public key (or
  need not be asked), and Apple's key, if one is configured, is an EC key. Nothing else that a constructor refuses passes \<^verbatim>\<open>Load\<close>, whatever
  optional parts are configured.\<close>
theorem loaded_server_starts:
  assumes "Load pubOf parseFloat getenv = Inr cfg" "\<And>seed. length (pubOf seed) = 32"
    and "{''google'', ''apple'', ''zalo''} \<subseteq> set (auth_providers (w_db w))" "w_faults w = []"
  shows "(\<exists>hs. newServer lib fs cfg w = (Inr hs, w)) \<longleftrightarrow> cf_AccessTTL cfg \<le> MaxAccessTTL \<and> apple_key_ok (lb_fed lib) (cf_OIDC cfg)
    \<and> (cf_Vault cfg = None \<or> (\<exists>p. buildSigning (lb_edsign lib) (lb_vault lib) (lb_http lib) cfg = Inr p))"
proof
  assume "\<exists>hs. newServer lib fs cfg w = (Inr hs, w)"
  then show "cf_AccessTTL cfg \<le> MaxAccessTTL \<and> apple_key_ok (lb_fed lib) (cf_OIDC cfg)
      \<and> (cf_Vault cfg = None \<or> (\<exists>p. buildSigning (lb_edsign lib) (lb_vault lib) (lb_http lib) cfg = Inr p))"
    using started_server by blast
next
  assume ok: "cf_AccessTTL cfg \<le> MaxAccessTTL \<and> apple_key_ok (lb_fed lib) (cf_OIDC cfg)
      \<and> (cf_Vault cfg = None \<or> (\<exists>p. buildSigning (lb_edsign lib) (lb_vault lib) (lb_http lib) cfg = Inr p))"
  have c: "config_wf cfg" by (rule loaded_wf [OF assms(1,2)])
  obtain ks keys where b: "buildSigning (lb_edsign lib) (lb_vault lib) (lb_http lib) cfg = Inr (ks, keys)"
    using ok signing_starts [OF c] by fastforce
  have k: "KeyID ks \<noteq> ''''" using buildSigning_KeyID [OF b] c by (simp add: config_wf_def keys_wf_def)
  have fed: "\<exists>fed. buildFederation lib fs (cf_OIDC cfg) w = (Inr fed, w)"
    by (rule federation_starts [OF _ _ assms(3,4)]) (use c ok in \<open>simp_all add: config_wf_def apple_key_ok_def\<close>)
  have t: "0 < cf_AccessTTL cfg" "0 < cf_RefreshTTL cfg" using c by (simp_all add: config_wf_def)
  obtain m svc where m: "NewMinter (lb_codec lib) (Some ks) TokenIssuer (cf_AccessTTL cfg) = Inr m"
    and svc: "NewAuthService (Some m) (cf_RefreshTTL cfg) (lb_sha256 lib) = Inr svc"
    using ok t by (simp add: NewMinter_def NewAuthService_def)
  obtain h where h: "newAuthHandler lib fs cfg (server_store lib ks) svc (server_validator lib keys) w = (Inr h, w)"
    using handler_starts [OF c fed] by blast
  obtain l where l: "newLive lib cfg (server_store lib ks) (server_validator lib keys) = Inr l" using live_starts [OF c] by blast
  show "\<exists>hs. newServer lib fs cfg w = (Inr hs, w)"
    by (simp add: newServer_def b audit_NewSignerFromKeySigner_def NewSignerFromKeySigner_def k m svc h l lift_res_def bind_def ret_def)
qed

text \<open>C8: nothing happens without a token. In the server that the program builds from a configuration, a request to any path but the
  public ones and the probes, whose access token is missing or refused, is answered with a redirect, 401, 404, 405 or 429, and neither
  the database nor the memory of the recording handler changes, whatever the method, the body and the other headers are.\<close>
theorem unauthenticated_is_refused:
  assumes "newServer lib fs cfg w0 = (Inr hs, w1)"
    and "\<not> public_path (hr_Path rq)" and "hr_Path rq \<notin> {[''healthz''], [''readyz'']}"
    and "\<And>raw. bearer (hr_Header rq ''Authorization'') = Some raw \<Longrightarrow> \<exists>e. fst (server_validator lib (hs_keys hs) raw w) = Inl e"
    and "serve hs absolute dr nid fresh rq ((rl, mem, w), lines) = (resp, ((rl', mem', w'), lines'))"
  shows "rp_Status resp \<in> {301, 401, 404, 405, 429} \<and> w_db w' = w_db w \<and> mem' = mem"
proof -
  obtain rid resp0 where r: "rootHandler (limitedAPI hs absolute dr nid) (rq\<lparr>sr_RequestID := rid\<rparr>) (rl, mem, w) = (resp0, rl', mem', w')"
    and resp: "resp = resp0\<lparr>sp_RequestID := rid\<rparr>"
    using serve_cases [OF assms(5)] by blast
  define q where "q = rq\<lparr>sr_RequestID := rid\<rparr>"
  have q: "hr_Path q = hr_Path rq" "hr_Header q = hr_Header rq" by (simp_all add: q_def)
  have "limitedAPI hs absolute dr nid q (rl, mem, w) = (resp0, rl', mem', w')"
    using r assms(3) by (simp add: rootHandler_def q_def)
  from limitedAPI_cases [OF this] show ?thesis
  proof (elim disjE exE conjE)
    assume "resp0 = too_many" "mem' = mem" "w' = w"
    then show ?thesis by (simp add: resp too_many_def plain_resp_def respond_def)
  next
    fix r0 assume m: "api_mux hs absolute dr nid q (mem, w) = (r0, mem', w')" and r0: "resp0 = plain_resp r0"
    have "refused (server_validator lib (hs_keys hs)) (HttpReq.truncate q) w" using assms(4) by (intro refused_truncate) (simp add: q)
    from api_mux_refused [OF newServer_assembled [OF assms(1)] this _ m] assms(2) q(1)
    show ?thesis by (auto simp: resp r0 plain_resp_def)
  qed
qed

text \<open>A server with no optional part, started from the environment of the configuration's example, and a request without a token.\<close>

definition demo_fed_lib :: FedLib where
  "demo_fed_lib = \<lparr>fl_oidc = demo_lib, fl_jwks = (\<lambda>_. None), fl_idToken = (\<lambda>_. None), fl_appleKey = (\<lambda>_. NotPEM), fl_marshal = (\<lambda>_. ''''),
     fl_zaloToken = (\<lambda>_. None), fl_zaloMe = (\<lambda>_. None)\<rparr>"

definition demo_decoders :: AuthDecoders where
  "demo_decoders = \<lparr>ad_refresh = (\<lambda>_. None), ad_profile = (\<lambda>_. None), ad_email = (\<lambda>_. None), ad_emailVerify = (\<lambda>_. None), ad_phone = (\<lambda>_. None),
     ad_phoneVerify = (\<lambda>_. None), ad_tos = (\<lambda>_. None), ad_begin = (\<lambda>_. None), ad_stepup = (\<lambda>_. None)\<rparr>"

definition demo_server_lib :: ServerLib where
  "demo_server_lib = \<lparr>lb_edsign = (\<lambda>_ m. m), lb_edverify = (\<lambda>pub m s. pub = ''pub'' \<and> s = ''s''), lb_vault = demo_vault_codec, lb_codec = demo_codec,
     lb_sha256 = (\<lambda>b. b), lb_hmac = (\<lambda>k m. m), lb_jsonb = Some, lb_http = demo_vault_client, lb_fed = demo_fed_lib, lb_ekycReply = (\<lambda>_. None),
     lb_callback = (\<lambda>_. None), lb_vonageReply = (\<lambda>_. None), lb_sendMail = (\<lambda>_ _ _ _ _. True), lb_parseAddress = Some, lb_grantHeader = '''',
     lb_grantClaims = (\<lambda>_. Inr ''''), lb_egress = (\<lambda>_. None), lb_webhookClaims = (\<lambda>_. None), lb_webhookEvent = (\<lambda>_. None), lb_startAllowed = (\<lambda>_. True),
     lb_format = (\<lambda>_. ''''), lb_dec = demo_decoders, lb_createBody = (\<lambda>_. None), lb_parseTime = (\<lambda>_. None), lb_classBody = (\<lambda>_. None),
     lb_statusBody = (\<lambda>_. None), lb_capacityBody = (\<lambda>_. None), lb_grantBody = (\<lambda>_. None), lb_revokeBody = (\<lambda>_. None)\<rparr>"

definition demo_fed_state :: FedState where
  "demo_fed_state = \<lparr>fs_now = 0, fs_google = NewRemoteKeySet [], fs_apple = NewRemoteKeySet [], fs_cached = '''', fs_expiry = 0\<rparr>"

definition demo_request :: ServerReq where
  "demo_request = \<lparr>hr_Method = ''GET'', hr_Path = [''v1'', ''me''], hr_Query = (\<lambda>_. ''''), hr_Header = (\<lambda>_. ''''), hr_Cookie = (\<lambda>_. None), hr_Body = '''',
     sr_RawQuery = '''', sr_RemoteAddr = ''10.0.0.1:5000'', sr_RequestID = ''''\<rparr>"

lemma demo_newServer:
  assumes "Load pubOf (\<lambda>_. None) demo_env = Inr cfg"
  shows "\<exists>hs. newServer demo_server_lib demo_fed_state cfg w = (Inr hs, w)"
proof -
  have f: "cf_AccessTTL cfg = seconds 630" "cf_RefreshTTL cfg = defaultRefreshTTL" "\<not> oidc_Enabled (cf_OIDC cfg)" "cf_SMTP cfg = None" "cf_SMS cfg = None"
    "cf_LiveKit cfg = None" "cf_EKYC cfg = None" "\<not> cf_DevOTPConsole cfg"
    using demo_Load [of pubOf] assms by auto
  obtain ks keys where b: "buildSigning (lb_edsign demo_server_lib) (lb_vault demo_server_lib) (lb_http demo_server_lib) cfg = Inr (ks, keys)" "KeyID ks = ''k1''"
    using demo_signing [OF assms] by (auto simp: demo_server_lib_def)
  have t: "\<not> seconds 630 \<le> 0" "\<not> seconds 630 > MaxAccessTTL" "\<not> defaultRefreshTTL \<le> 0"
    by (simp_all add: seconds_def MaxAccessTTL_def minutes_def defaultRefreshTTL_def)
  obtain m where m: "NewMinter (lb_codec demo_server_lib) (Some ks) TokenIssuer (seconds 630) = Inr m" using t by (simp add: NewMinter_def)
  obtain svc where svc: "NewAuthService (Some m) defaultRefreshTTL (lb_sha256 demo_server_lib) = Inr svc" using t by (simp add: NewAuthService_def)
  have "\<exists>h. newAuthHandler demo_server_lib demo_fed_state cfg st svc v w = (Inr h, w)" for st v
    by (simp add: newAuthHandler_def newIdentity_def f NewIdentityService_def and_then_def buildFederation_def emailSender_def smsSender_def
        lift_res_def bind_def ret_def)
  then obtain h where h: "newAuthHandler demo_server_lib demo_fed_state cfg (server_store demo_server_lib ks) svc (server_validator demo_server_lib keys) w = (Inr h, w)"
    by blast
  show ?thesis
    by (simp add: newServer_def b audit_NewSignerFromKeySigner_def NewSignerFromKeySigner_def f m svc h newLive_def lift_res_def bind_def ret_def)
qed

theorem unauthenticated_is_refused_witness:
  "\<exists>cfg hs. Load (\<lambda>_. []) (\<lambda>_. None) demo_env = Inr cfg \<and> newServer demo_server_lib demo_fed_state cfg (demo_world empty_db) = (Inr hs, demo_world empty_db)
     \<and> (\<forall>absolute dr rl resp rl' mem' w' lines'.
          serve hs absolute dr ''n'' ''r'' demo_request ((rl, demo_memory, demo_world empty_db), []) = (resp, ((rl', mem', w'), lines'))
            \<longrightarrow> rp_Status resp \<in> {301, 401, 404, 405, 429} \<and> w_db w' = empty_db \<and> mem' = demo_memory)"
proof -
  obtain cfg where c: "Load (\<lambda>_. []) (\<lambda>_. None) demo_env = Inr cfg" using demo_Load by blast
  obtain hs where hs: "newServer demo_server_lib demo_fed_state cfg (demo_world empty_db) = (Inr hs, demo_world empty_db)" using demo_newServer [OF c] by blast
  have p: "\<not> public_path (hr_Path demo_request)" "hr_Path demo_request \<notin> {[''healthz''], [''readyz'']}" "bearer (hr_Header demo_request ''Authorization'') = None"
    by (simp_all add: demo_request_def public_path_def bearer_def)
  have "rp_Status resp \<in> {301, 401, 404, 405, 429} \<and> w_db w' = empty_db \<and> mem' = demo_memory"
    if "serve hs absolute dr ''n'' ''r'' demo_request ((rl, demo_memory, demo_world empty_db), []) = (resp, ((rl', mem', w'), lines'))"
    for absolute dr rl resp rl' mem' w' lines'
    using unauthenticated_is_refused [OF hs p(1,2) _ that] p(3) by (simp add: demo_world_def)
  with c hs show ?thesis by blast
qed

theorem loaded_server_starts_witness:
  "\<exists>cfg hs. Load (\<lambda>_. replicate 32 (CHR 0x00)) (\<lambda>_. None) demo_env = Inr cfg \<and> cf_AccessTTL cfg \<le> MaxAccessTTL
     \<and> newServer demo_server_lib demo_fed_state cfg (demo_world (empty_db\<lparr>auth_providers := [''apple'', ''google'', ''zalo'']\<rparr>))
         = (Inr hs, demo_world (empty_db\<lparr>auth_providers := [''apple'', ''google'', ''zalo'']\<rparr>))"
proof -
  obtain cfg where c: "Load (\<lambda>_. replicate 32 (CHR 0x00)) (\<lambda>_. None) demo_env = Inr cfg" and t: "cf_AccessTTL cfg = seconds 630" "\<not> oidc_Enabled (cf_OIDC cfg)"
    using demo_Load by blast
  have v: "\<exists>p. buildSigning (lb_edsign demo_server_lib) (lb_vault demo_server_lib) (lb_http demo_server_lib) cfg = Inr p"
    using demo_signing [OF c] by (auto simp: demo_server_lib_def)
  have "cf_AccessTTL cfg \<le> MaxAccessTTL" using t by (simp add: seconds_def MaxAccessTTL_def minutes_def)
  moreover have "oi_Apple (cf_OIDC cfg) = None" using t(2) by (auto simp: oidc_Enabled_def)
  ultimately show ?thesis
    using loaded_server_starts [OF c, of "demo_world (empty_db\<lparr>auth_providers := [''apple'', ''google'', ''zalo'']\<rparr>)" demo_server_lib demo_fed_state] c v
    by (simp add: demo_world_def apple_key_ok_def)
qed

section \<open>The server keeps the integrity of the tables\<close>

lemma pool_Ping_reads [read_rules]: "keeps J pool_Ping"
  unfolding pool_Ping_def by (intro keeps_rules stmt_read) simp

context platform_repo
begin

lemma api_tables_keep:
  assumes a: "assembled validate hs" "hs_store hs = st" and v: "\<And>raw. keeps J (validate raw)" and t: "routes \<in> api_tables hs dr nid"
  shows "keeps J (mux routes r)"
proof -
  have hook: "keeps J (f sid)" if "ch_hook (hs_consent hs) = Some f" for f sid
    using a(1) that recordings.keeps_recording_service(3) unfolding assembled_def by metis
  have e: "ah_validate (hs_auth hs) = validate" "auth_wired st (hs_auth hs)" "eh_validate (hs_entitlement hs) = validate" "eh_store (hs_entitlement hs) = st"
    "ck_validate (hs_class hs) = validate" "mh_validate (hs_moderation hs) = validate" "mh_store (hs_moderation hs) = st"
    "ch_validate (hs_consent hs) = validate" "ch_store (hs_consent hs) = st"
    using a(1) unfolding assembled_def a(2) by simp_all
  have "keeps J (mux (entitlement_routes (hs_entitlement hs) nid) r)"
    by (rule keeps_mux, erule entitlement_routes_keep [rotated 2]) (simp_all add: e v)
  moreover have "keeps J (mux (class_routes (hs_class hs) nid) r)" by (rule keeps_mux, erule class_routes_keep [rotated]) (simp add: e v)
  moreover have "keeps J (mux (moderation_routes (hs_moderation hs)) r)" by (rule keeps_mux, erule moderation_routes_keep [rotated 2]) (simp_all add: e v)
  moreover have "keeps J (mux (consent_routes (hs_consent hs) nid) r)"
    by (rule keeps_mux, erule consent_routes_keep [rotated 3]) (simp_all add: e v hook)
  moreover have "keeps J (mux (auth_routes (hs_auth hs) dr) r)" by (rule keeps_mux, erule auth_routes_keep [rotated 2]) (simp_all add: e v)
  moreover have "keeps J (mux (session_routes sh nid) r)" if "hs_live hs = Some (sh, rh)" for sh rh
  proof -
    have "sh_validate sh = validate" using a(1) that by (simp add: assembled_def)
    then show ?thesis by (intro keeps_mux, elim session_routes_keep [rotated]) (simp add: v)
  qed
  ultimately show ?thesis using t by (auto simp: api_tables_def split: option.splits)
qed

lemma api_mux_keeps:
  assumes "assembled validate hs" "hs_store hs = st" "\<And>raw. keeps J (validate raw)"
    and m: "api_mux hs absolute dr nid rq (mem, w) = (resp, mem', w')" and J: "J (w_db w)"
  shows "J (w_db w')"
  using api_mux_cases [OF m]
proof (elim disjE exE conjE bexE)
  fix routes assume t: "routes \<in> api_tables hs dr nid" "answered (mux routes (HttpReq.truncate rq)) w = (resp, w')"
  show ?thesis by (rule answered_keeps [OF api_tables_keep [OF assms(1-3) t(1)] t(2) J])
next
  fix sh rh assume l: "hs_live hs = Some (sh, rh)" and rec: "recording_mux rh absolute nid (HttpReq.truncate rq) (mem, w) = (resp, mem', w')"
  have "rh_validate rh = validate" "rh_store rh = st" using assms(1,2) l by (simp_all add: assembled_def)
  with assms(3) show ?thesis by (intro recording_mux_keeps [OF _ _ rec J]) simp_all
qed (use J in simp)

lemma serve_keeps:
  assumes "assembled validate hs" "hs_store hs = st" "\<And>raw. keeps J (validate raw)"
    and s: "serve hs absolute dr nid fresh rq ((rl, mem, w), lines) = (resp, ((rl', mem', w'), lines'))" and J: "J (w_db w)"
  shows "J (w_db w')"
proof -
  obtain q resp0 where r: "rootHandler (limitedAPI hs absolute dr nid) q (rl, mem, w) = (resp0, rl', mem', w')"
    using serve_cases [OF s] by blast
  have ping: "J (w_db w1)" if "pool_Ping w = (x, w1)" for x w1 by (rule keepsD [where J = J, OF pool_Ping_reads that J])
  have api: "J (w_db w')" if "limitedAPI hs absolute dr nid q (rl, mem, w) = (resp0, rl', mem', w')"
    using limitedAPI_cases [OF that] J api_mux_keeps [OF assms(1-3) _ J] by blast
  show ?thesis
    using r J by (auto simp: rootHandler_def split: if_splits prod.splits sum.splits dest: ping intro: api)
qed

lemma checkpoint_tick_keeps: "ps_store svc = st \<Longrightarrow> keeps J (checkpoint_tick svc nid)"
  unfolding checkpoint_tick_def by (intro keeps_rules ledgers.keeps_Checkpoint)

end

end
