(* ===== verification/Adminctl.thy ===== *)
theory Adminctl
  imports Server
begin

text \<open>
  The operator's program \<^verbatim>\<open>cmd/adminctl\<close>: its flags (\<^verbatim>\<open>flag.FlagSet.Parse\<close> for string flags), and the commands that create the first
  moderator, approve an account by hand, and mint a session. It runs on the database of the server with the server's environment.

  A run prints lines or fails. The connection pool opens if \<^verbatim>\<open>pgxpool.New\<close> accepts the data source, a parameter; what a
  run draws at random is the record \<open>AdminDraws\<close>.
\<close>

section \<open>Flags\<close>

text \<open>One argument: the end of the flags, a malformed flag, or a name with the value after the equals sign.\<close>

datatype flag_arg = Stop | Malformed | Flag string "string option"

definition flag_arg :: "string \<Rightarrow> flag_arg" where
  "flag_arg s =
     (if length s < 2 \<or> hd s \<noteq> CHR ''-'' \<or> s = ''--'' then Stop
      else
        (let name = (if s ! 1 = CHR ''-'' then drop 2 s else tl s) in
         if hd name = CHR ''-'' \<or> hd name = CHR ''='' then Malformed
         else case cut CHR ''='' name of None \<Rightarrow> Flag name None | Some (n, v) \<Rightarrow> Flag n (Some v)))"

text \<open>The values of the flags; a later one replaces an earlier one. Arguments after the flags are ignored by every command.\<close>

fun flag_Parse :: "string list \<Rightarrow> (string \<Rightarrow> string) \<Rightarrow> string list \<Rightarrow> (string \<Rightarrow> string) res" where
  "flag_Parse names vals [] = Inr vals"
| "flag_Parse names vals (s # args) =
     (case flag_arg s of
        Stop \<Rightarrow> Inr vals
      | Malformed \<Rightarrow> Inl (Err (''bad flag syntax: '' @ s))
      | Flag name v \<Rightarrow>
          if name \<notin> set names then
            (if name = ''help'' \<or> name = ''h'' then Inl (Err ''flag: help requested'') else Inl (Err (''flag provided but not defined: -'' @ name)))
          else (case v of
                  Some value \<Rightarrow> flag_Parse names (vals(name := value)) args
                | None \<Rightarrow> (case args of
                             [] \<Rightarrow> Inl (Err (''flag needs an argument: -'' @ name))
                           | value # rest \<Rightarrow> flag_Parse names (vals(name := value)) rest)))"

section \<open>Commands\<close>

record AdminDraws =
  dw_newID :: string
  dw_secret :: string
  dw_tokenID :: string
  dw_jti :: string

definition with_flags :: "string list \<Rightarrow> string list \<Rightarrow> ((string \<Rightarrow> string) \<Rightarrow> 'a io) \<Rightarrow> 'a io" where
  "with_flags names args f = bind (lift_res (flag_Parse names (\<lambda>_. '''') args)) f"

definition runVerify :: "string list \<Rightarrow> string list io" where
  "runVerify args = with_flags [''user-id''] args (\<lambda>fs.
     if fs ''user-id'' = '''' then fail (Err ''verify: -user-id is required'')
     else bind (lift_res (NewIdentityService [''default'' \<mapsto> manual_Begin])) (\<lambda>_.
          bind (identity_Apply \<lparr>re_UserID = fs ''user-id'', re_ProviderRef = ''operator-manual'', re_Approved = True, re_IsAdult = True, re_RetainUntil = None\<rparr>) (\<lambda>_.
          ret [''verified (adult) and activated: '' @ fs ''user-id''])))"

definition runBootstrap :: "AdminDraws \<Rightarrow> string list \<Rightarrow> string list io" where
  "runBootstrap dw args = with_flags [''user-id'', ''handle'', ''name''] args (\<lambda>fs.
     bind (Bootstrap (dw_newID dw) \<lparr>bp_UserID = fs ''user-id'', bp_Handle = fs ''handle'', bp_DisplayName = fs ''name'', bp_ProviderRef = '''', bp_RetainUntil = None\<rparr>) (\<lambda>uid.
     ret [''bootstrapped platform moderator: '' @ uid, ''mint an access token with: adminctl mint -user-id '' @ uid]))"

definition token_NewSigner :: "(bytes \<Rightarrow> bytes \<Rightarrow> bytes) \<Rightarrow> string \<Rightarrow> bytes \<Rightarrow> KeySigner res" where
  "token_NewSigner edsign kid key = and_then (NewLocalKeySigner edsign kid key) (\<lambda>ks. Inr ks)"

text \<open>The signing key of the environment signs, never a vault; no key is the empty slice.\<close>

definition runMint :: "ServerLib \<Rightarrow> AdminDraws \<Rightarrow> Config \<Rightarrow> string list \<Rightarrow> string list io" where
  "runMint lib dw cfg args = with_flags [''user-id''] args (\<lambda>fs.
     if fs ''user-id'' = '''' then fail (Err ''mint: -user-id is required'')
     else bind (lift_res (token_NewSigner (lb_edsign lib) (cf_Kid cfg) (case cf_SigningKey cfg of None \<Rightarrow> [] | Some k \<Rightarrow> k))) (\<lambda>signer.
          bind (lift_res (NewMinter (lb_codec lib) (Some signer) TokenIssuer (cf_AccessTTL cfg))) (\<lambda>minter.
          bind (lift_res (NewAuthService (Some minter) (cf_RefreshTTL cfg) (lb_sha256 lib))) (\<lambda>svc.
          bind (IssueSession svc (dw_secret dw) (dw_tokenID dw) (dw_jti dw) (fs ''user-id'')) (\<lambda>sess.
          ret [''access_token:  '' @ se_AccessToken sess, ''refresh_token: '' @ se_RefreshToken sess,
               ''access_exp:    '' @ lb_format lib (seconds (ExpiresAt (se_AccessClaims sess))),
               ''caps:          ['' @ join_with CHR '' '' (Capabilities (se_AccessClaims sess)) @ '']''])))))"

definition adminctl_run ::
  "ServerLib \<Rightarrow> (bytes \<Rightarrow> bytes) \<Rightarrow> (string \<Rightarrow> gofloat option) \<Rightarrow> (string \<Rightarrow> error option) \<Rightarrow> getenv \<Rightarrow> AdminDraws \<Rightarrow> string list \<Rightarrow> string list io" where
  "adminctl_run lib pubOf parseFloat newPool getenv dw args =
     (case args of
        [] \<Rightarrow> fail (Err ''usage: adminctl <bootstrap|mint> [flags]'')
      | cmd # rest \<Rightarrow>
          bind (lift_res (Load pubOf parseFloat getenv)) (\<lambda>cfg.
          case newPool (cf_DBDSN cfg) of
            Some e \<Rightarrow> fail e
          | None \<Rightarrow>
              bind pool_Ping (\<lambda>_.
              if cmd = ''bootstrap'' then runBootstrap dw rest
              else if cmd = ''verify'' then runVerify rest
              else if cmd = ''mint'' then runMint lib dw cfg rest
              else fail (Err (''unknown command '' @ cmd @ '' (want bootstrap|verify|mint)'')))))"

section \<open>Lemmas\<close>

text \<open>The three spellings of a flag.\<close>

lemma cut_None: "c \<notin> set s \<Longrightarrow> cut c s = None"
  by (induction s) auto

lemma flag_spellings:
  assumes "CHR ''='' \<notin> set n" "n \<noteq> []" "hd n \<noteq> CHR ''-''"
  shows "flag_arg (''-'' @ n @ ''='' @ v) = Flag n (Some v)" "flag_arg (''--'' @ n @ ''='' @ v) = Flag n (Some v)" "flag_arg (''-'' @ n) = Flag n None"
proof -
  obtain c cs where n: "n = c # cs" using assms(2) by (cases n) auto
  have c: "c \<noteq> CHR ''-''" "c \<noteq> CHR ''=''" using assms n by auto
  have k: "cut CHR ''='' (n @ ''='' @ v) = Some (n, v)" "cut CHR ''='' n = None" 
    using assms(1) cut_append [of "CHR ''=''" n v] by (auto simp: cut_None)
  show "flag_arg (''-'' @ n @ ''='' @ v) = Flag n (Some v)" "flag_arg (''--'' @ n @ ''='' @ v) = Flag n (Some v)" "flag_arg (''-'' @ n) = Flag n None"
    using k c by (auto simp: flag_arg_def n Let_def)
qed

lemma bind_lift_res: "bind (lift_res r) f = (case r of Inl e \<Rightarrow> fail e | Inr x \<Rightarrow> f x)"
  by (cases r) (auto simp: lift_res_def bind_def fail_def ret_def)

lemma keeps_lift_res: "keeps J (lift_res r)"
  by (cases r) (simp_all add: lift_res_def keeps_fail keeps_ret)

context platform_repo
begin

lemma keeps_runMint: "keeps J (runMint lib dw cfg args)"
proof -
  have "keeps J (IssueSession svc secret nid jti uid)" if "NewAuthService (Some minter) ttl H = Inr svc" for minter ttl H svc secret nid jti uid
    using that by (intro accounts.keeps_sessions) (auto simp: NewAuthService_def reading_sources_def split: if_splits)
  then show ?thesis
    unfolding runMint_def with_flags_def bind_lift_res by (auto split: sum.splits intro!: keeps_rules)
qed

lemma adminctl_keeps: "keeps J (adminctl_run lib pubOf parseFloat newPool getenv dw args)"
proof (cases args)
  case Nil
  then show ?thesis by (simp add: adminctl_run_def keeps_fail)
next
  case (Cons cmd rest)
  show ?thesis
    unfolding Cons adminctl_run_def runBootstrap_def runVerify_def with_flags_def bind_lift_res list.case
    by (intro keeps_rules pool_Ping_reads accounts.keeps_signup accounts.keeps_identity keeps_runMint)
qed

end

text \<open>A session cannot be minted where Vault holds the signing key. With no signing key in the environment, the mint command
  fails whatever its flags are, and leaves the database alone.\<close>
lemma mint_needs_local_key:
  assumes "getenv EnvSigningKey = ''''" "adminctl_run lib pubOf parseFloat newPool getenv dw (''mint'' # args) w = (r, w')"
  shows "(\<exists>e. r = Inl e) \<and> w_db w' = w_db w"
proof -
  have key: "cf_SigningKey cfg = None" if "Load pubOf parseFloat getenv = Inr cfg" for cfg
    using that assms(1) by (auto simp: Load_def Let_def and_then_def parseSigningKey_def split: if_splits sum.splits)
  have mint: "\<exists>e. runMint lib dw cfg args w1 = (Inl e, w1)" if "Load pubOf parseFloat getenv = Inr cfg" for cfg w1
    using key [OF that]
    by (auto simp: runMint_def with_flags_def bind_lift_res token_NewSigner_def NewLocalKeySigner_def and_then_def fail_def split: sum.splits)
  have ping: "w_db w1 = w_db w" if "pool_Ping w = (q, w1)" for q w1
    using keepsD [OF pool_Ping_reads [where J = "\<lambda>d. d = w_db w"] that] by simp
  obtain q w1 where q: "pool_Ping w = (q, w1)" by force
  show ?thesis
  proof (cases "Load pubOf parseFloat getenv")
    case (Inl e)
    then show ?thesis using assms(2) by (auto simp: adminctl_run_def bind_lift_res fail_def)
  next
    case (Inr cfg)
    then show ?thesis
      using assms(2) mint [OF Inr, of w1] ping [OF q] q
      by (auto simp: adminctl_run_def bind_lift_res fail_def bind_def split: option.splits sum.splits)
  qed
qed

definition demo_draws :: AdminDraws where
  "demo_draws = \<lparr>dw_newID = ''u1'', dw_secret = ''s'', dw_tokenID = ''n'', dw_jti = ''j''\<rparr>"

lemma mint_needs_local_key_witness:
  "demo_env EnvSigningKey = '''' \<and> (\<exists>cfg. Load (\<lambda>_. []) (\<lambda>_. None) demo_env = Inr cfg)
   \<and> (\<exists>e. fst (adminctl_run demo_server_lib (\<lambda>_. []) (\<lambda>_. None) (\<lambda>_. None) demo_env demo_draws [''mint'', ''-user-id'', ''u1''] (demo_world empty_db)) = Inl e)"
proof -
  have e: "demo_env EnvSigningKey = ''''" by (simp add: demo_env_def env_names)
  obtain r w where r: "adminctl_run demo_server_lib (\<lambda>_. []) (\<lambda>_. None) (\<lambda>_. None) demo_env demo_draws [''mint'', ''-user-id'', ''u1''] (demo_world empty_db) = (r, w)"
    by force
  from mint_needs_local_key [OF e r] r e demo_Load [of "\<lambda>_. []"] show ?thesis by auto
qed

end
