(* ===== verification/Deployment.thy ===== *)
theory Deployment
  imports Adminctl
begin

text \<open>
  The platform in operation: the server built from the environment answers requests, its worker writes presence checkpoints, the operator runs
  \<^verbatim>\<open>adminctl\<close> on the same database, and the process restarts with fresh memory. Whatever happens in whatever order, the invariants of the platform hold.
\<close>

text \<open>One event. The handlers that answer are those that the program builds from the configuration, with the key sets and the client secret
  of that instant (\<open>fs\<close>). The world around the database moves on by itself.\<close>

inductive server_step :: "ServerLib \<Rightarrow> (bytes \<Rightarrow> bytes) \<Rightarrow> (string \<Rightarrow> gofloat option) \<Rightarrow> getenv \<Rightarrow> server \<Rightarrow> server \<Rightarrow> bool"
  for lib pubOf parseFloat getenv where
  request: "Load pubOf parseFloat getenv = Inr cfg \<Longrightarrow> newServer lib fs cfg w0 = (Inr hs, w1)
     \<Longrightarrow> serve hs absolute dr nid fresh rq (sv, lines) = (resp, (sv', lines')) \<Longrightarrow> server_step lib pubOf parseFloat getenv sv sv'"
| checkpoint: "Load pubOf parseFloat getenv = Inr cfg \<Longrightarrow> newServer lib fs cfg w0 = (Inr hs, w1) \<Longrightarrow> hs_presence hs = Some ps
     \<Longrightarrow> checkpoint_tick ps nid w = (r, w') \<Longrightarrow> server_step lib pubOf parseFloat getenv (rl, mem, w) (rl, mem, w')"
| operator: "adminctl_run lib pubOf parseFloat newPool getenv dw args w = (out, w') \<Longrightarrow> server_step lib pubOf parseFloat getenv (rl, mem, w) (rl, mem, w')"
| restart: "Load pubOf parseFloat getenv = Inr cfg \<Longrightarrow> newServer lib fs cfg w = (Inr hs, w') \<Longrightarrow> newLimiter cfg = Some rl'
     \<Longrightarrow> server_step lib pubOf parseFloat getenv (rl, mem, w) (rl', \<lparr>rm_playedSeen = Map.empty, rm_seenWebhook = Map.empty\<rparr>, w')"
| elapse: "w_db w' = w_db w \<Longrightarrow> server_step lib pubOf parseFloat getenv (rl, mem, w) (rl, mem, w')"

lemma newServer_store:
  assumes "newServer lib fs cfg w0 = (Inr hs, w1)" "buildSigning (lb_edsign lib) (lb_vault lib) (lb_http lib) cfg = Inr (ks, keys)"
  shows "hs_store hs = server_store lib ks \<and> hs_keys hs = keys"
  by (rule newServer_InrD [OF assms(1)]) (simp add: assms(2) handlers_of_def Let_def)

lemma keeps_newServer: "keeps J (newServer lib fs cfg)"
proof -
  have fed: "keeps J (buildFederation lib fs oc)" for oc
    unfolding buildFederation_def ListAuthProviders_def by (intro keeps_rules keeps_lift_res) (auto simp: stmt_keeps_def)
  have auth: "keeps J (newAuthHandler lib fs cfg st svc v)" for st svc v
    unfolding newAuthHandler_def by (auto intro!: keeps_rules keeps_lift_res fed)
  show ?thesis unfolding newServer_def by (auto intro!: keeps_rules keeps_lift_res auth)
qed

context platform_repo
begin

lemma server_step_keeps:
  assumes "server_step lib pubOf parseFloat getenv sv sv'" "Load pubOf parseFloat getenv = Inr cfg"
    "buildSigning (lb_edsign lib) (lb_vault lib) (lb_http lib) cfg = Inr (ks, keys)" "server_store lib ks = st" and J: "J (w_db (snd (snd sv)))"
  shows "J (w_db (snd (snd sv')))"
  using assms(1)
proof cases
  case (request cfg' fs w0 hs w1 absolute dr nid fresh rq lines resp lines')
  obtain rl mem w rl' mem' w' where sv: "sv = (rl, mem, w)" "sv' = (rl', mem', w')" by (cases sv; cases sv')
  have s: "hs_store hs = st" using newServer_store [OF request(2)] request(1) assms(2-4) by auto
  from serve_keeps [OF newServer_assembled [OF request(2)] s _ request(3) [unfolded sv]] J show ?thesis
    by (simp add: sv server_validator_def Validate_reads)
next
  case (checkpoint cfg' fs w0 hs w1 ps nid w r w' rl mem)
  have "ps_store ps = st" using newServer_assembled [OF checkpoint(4)] newServer_store [OF checkpoint(4)] checkpoint(3,5) assms(2-4) by (auto simp: assembled_def)
  from keepsD [OF checkpoint_tick_keeps [OF this] checkpoint(6)] J show ?thesis by (simp add: checkpoint)
next
  case (operator newPool dw args w out w' rl mem)
  then show ?thesis using keepsD [OF adminctl_keeps operator(3)] J by simp
next
  case (restart cfg' fs w hs w' rl' rl mem)
  then show ?thesis using keepsD [OF keeps_newServer restart(4)] J by simp
qed (use J in simp)

end

text \<open>C4: the deployed platform keeps the invariants of the platform. Take an environment from which the server starts, which lists
  no verification key under the signer's own id and does not configure Vault beside a signing key. (Both are accepted as well; but with a different key
  listed under the id, or with both signers, the published key is not the one that signs, and the audit log does not verify.) Let the signature scheme verify what it
  signs. From any database where the invariants hold, such as the empty one, after any sequence of requests to the server (any method, path,
  headers and body, with any faults of the connection and answers of the media server), checkpoints, runs of the operator's tool with any
  arguments, and restarts: the audit log verifies from genesis, the consent ledger is linked and signed, a participant is in a session once and a
  direct session has at most two present, no two recordings of a session are in flight, no ownership is doubled, the presence sequence increases, every
  refresh family has at most one live token, and an active account has a verified adult identity, an attestation of age, or an acceptance of the
  terms on record that does not attest. (Nothing is claimed of the other tables: profiles, classes, links, challenges.)\<close>
theorem deployment_intact:
  assumes "Load pubOf parseFloat getenv = Inr cfg" "buildSigning (lb_edsign lib) (lb_vault lib) (lb_http lib) cfg = Inr (ks, keys)"
    and "parseVerifyKeys (getenv EnvVerifyKeys) = Inr listed" "listed (cf_Kid cfg) = None" "cf_Vault cfg = None \<or> cf_SigningKey cfg = None"
    and "\<And>k m. cf_SigningKey cfg = Some k \<Longrightarrow> lb_edverify lib (key_Public k) m (lb_edsign lib k m)"
    and "\<And>vs pub m s. vault_PublicKey (lb_vault lib) vs = Inr pub \<Longrightarrow> vault_SignRaw (lb_vault lib) vs m = Inr s \<Longrightarrow> lb_edverify lib pub m s"
    and "lb_jsonb lib ''{}'' = Some ''{}''"
    and "platform_inv (server_store lib ks) (lb_edverify lib) keys (w_db w)"
    and "(server_step lib pubOf parseFloat getenv)\<^sup>*\<^sup>* (rl, mem, w) (rl', mem', w')"
  shows "platform_inv (server_store lib ks) (lb_edverify lib) keys (w_db w')
    \<and> VerifyChain (lb_sha256 lib) (lb_edverify lib) keys (audit_entries (w_db w')) = None"
proof -
  have "signer_ok (lb_edverify lib) keys ks" 
    using buildSigning_verifies_itself [where edv = "lb_edverify lib", OF assms(1-5)] assms(6,7) by blast
  then have ok: "store_ok (lb_edverify lib) keys (server_store lib ks)" using assms(8) by (simp add: store_ok_def server_store_def)
  have "platform_inv (server_store lib ks) (lb_edverify lib) keys (w_db (snd (snd (rl', mem', w'))))"
    using assms(10)
  proof (induction rule: rtranclp_induct)
    case base
    then show ?case using assms(9) by simp
  next
    case (step a b)
    show ?case by (rule platform_repo.server_step_keeps [OF platform_services [OF ok] step(2) assms(1,2) refl step(3)])
  qed
  then have inv: "platform_inv (server_store lib ks) (lb_edverify lib) keys (w_db w')" by simp
  then have "audit_linked (lb_sha256 lib) (lb_edverify lib) keys GenesisHash (audit_entries (w_db w'))"
    using audit_entries_eq by (auto simp: platform_inv_def integrity_inv_def audit_inv_def server_store_def)
  with inv show ?thesis by (simp add: VerifyChain_iff)
qed

text \<open>A platform whose operator creates the first moderator, and which then answers a request.\<close>

lemma demo_bootstrapped:
  assumes "Load (\<lambda>_. []) (\<lambda>_. None) demo_env = Inr cfg"
  obtains w1 where "adminctl_run demo_server_lib (\<lambda>_. []) (\<lambda>_. None) (\<lambda>_. None) demo_env demo_draws [''bootstrap'', ''-handle=op'', ''-name'', ''Op''] (demo_world empty_db)
      = (Inr [''bootstrapped platform moderator: u1'', ''mint an access token with: adminctl mint -user-id u1''], w1)"
    "length (users (w_db w1)) = 1"
proof -
  define run where "run = runBootstrap demo_draws [''-handle=op'', ''-name'', ''Op''] (demo_world empty_db)"
  have "fst run = Inr [''bootstrapped platform moderator: u1'', ''mint an access token with: adminctl mint -user-id u1'']" "length (users (w_db (snd run))) = 1"
    unfolding run_def by code_simp+
  moreover have "adminctl_run demo_server_lib (\<lambda>_. []) (\<lambda>_. None) (\<lambda>_. None) demo_env demo_draws [''bootstrap'', ''-handle=op'', ''-name'', ''Op''] (demo_world empty_db) = run"
    by (simp add: adminctl_run_def bind_lift_res assms run_def pool_Ping_def bind_def demo_world_def pg_def take_fault_def)
  ultimately show thesis using that [of "snd run"] by (metis prod.collapse)
qed

theorem deployment_intact_witness:
  "\<exists>cfg ks keys hs w1. Load (\<lambda>_. []) (\<lambda>_. None) demo_env = Inr cfg
     \<and> adminctl_run demo_server_lib (\<lambda>_. []) (\<lambda>_. None) (\<lambda>_. None) demo_env demo_draws [''bootstrap'', ''-handle=op'', ''-name'', ''Op''] (demo_world empty_db)
         = (Inr [''bootstrapped platform moderator: u1'', ''mint an access token with: adminctl mint -user-id u1''], w1)
     \<and> length (users (w_db w1)) = 1 \<and> newServer demo_server_lib demo_fed_state cfg w1 = (Inr hs, w1)
     \<and> (\<forall>dr resp rl' mem' w2 lines'. serve hs (\<lambda>_. None) dr ''n'' ''r'' demo_request ((NewRateLimiter 20 40, demo_memory, w1), []) = (resp, ((rl', mem', w2), lines'))
          \<longrightarrow> platform_inv (server_store demo_server_lib ks) (lb_edverify demo_server_lib) keys (w_db w2)
            \<and> VerifyChain (lb_sha256 demo_server_lib) (lb_edverify demo_server_lib) keys (audit_entries (w_db w2)) = None)"
proof -
  obtain cfg where c: "Load (\<lambda>_. []) (\<lambda>_. None) demo_env = Inr cfg" using demo_Load by blast
  obtain w1 where b: "adminctl_run demo_server_lib (\<lambda>_. []) (\<lambda>_. None) (\<lambda>_. None) demo_env demo_draws [''bootstrap'', ''-handle=op'', ''-name'', ''Op''] (demo_world empty_db)
      = (Inr [''bootstrapped platform moderator: u1'', ''mint an access token with: adminctl mint -user-id u1''], w1)"
    and u: "length (users (w_db w1)) = 1"
    using demo_bootstrapped [OF c] by metis
  obtain hs where h: "newServer demo_server_lib demo_fed_state cfg w1 = (Inr hs, w1)" using demo_newServer [OF c] by blast
  obtain ks keys where s: "buildSigning (lb_edsign demo_server_lib) (lb_vault demo_server_lib) (lb_http demo_server_lib) cfg = Inr (ks, keys)"
    and l: "parseVerifyKeys (demo_env EnvVerifyKeys) = Inr Map.empty" and k: "cf_SigningKey cfg = None"
    using demo_signing [OF c] by (auto simp: demo_server_lib_def)
  have start: "platform_inv (server_store demo_server_lib ks) (lb_edverify demo_server_lib) keys (w_db (demo_world empty_db))"
    using platform_inv_empty by (simp add: demo_world_def)
  have "platform_inv (server_store demo_server_lib ks) (lb_edverify demo_server_lib) keys (w_db w2)
      \<and> VerifyChain (lb_sha256 demo_server_lib) (lb_edverify demo_server_lib) keys (audit_entries (w_db w2)) = None"
    if q: "serve hs (\<lambda>_. None) dr ''n'' ''r'' demo_request ((NewRateLimiter 20 40, demo_memory, w1), []) = (resp, ((rl', mem', w2), lines'))" for dr resp rl' mem' w2 lines'
  proof -
    have "(server_step demo_server_lib (\<lambda>_. []) (\<lambda>_. None) demo_env)\<^sup>*\<^sup>* (NewRateLimiter 20 40, demo_memory, demo_world empty_db) (rl', mem', w2)"
      using server_step.operator [OF b] server_step.request [OF c h q] by (meson r_into_rtranclp rtranclp.rtrancl_into_rtrancl)
    from deployment_intact [OF c s l _ _ _ _ _ start this] show ?thesis
      using k demo_vault_replies by (auto simp: demo_server_lib_def)
  qed
  with c b u h show ?thesis by blast
qed

end
