(* ===== verification/Concurrency.thy ===== *)
theory Concurrency
  imports Effects
begin

text \<open>
  Operations as sequences of atomic actions, and the interleavings of many of them on one database. The server runs every request on a
  goroutine of its own, and a service operation outside a transaction is a sequence of statements between which others run.

  A \<open>prog\<close> is such a sequence: what is left to do may depend on what has been read. \<open>run\<close> is the operation when nobody else moves; a component
  shows that it is the operation of its own theory. \<open>guarded\<close> annotates a running operation with a ghost value, a claim that the other
  operations respect, and the locale \<open>ghost_inv\<close> turns it into an invariant of all interleavings.
\<close>

section \<open>Programs\<close>

text \<open>One atomic action changes the world and decides from the world it finds how to go on.\<close>

datatype 'a prog = Return "'a res" | Step "world \<Rightarrow> world" "world \<Rightarrow> 'a prog"

definition act :: "'a io \<Rightarrow> 'a prog" where
  "act m = Step (\<lambda>w. snd (m w)) (\<lambda>w. Return (fst (m w)))"

abbreviation pret :: "'a \<Rightarrow> 'a prog" where "pret x \<equiv> Return (Inr x)"
abbreviation pfail :: "error \<Rightarrow> 'a prog" where "pfail e \<equiv> Return (Inl e)"

primrec pattempt :: "'a prog \<Rightarrow> ('a res \<Rightarrow> 'b prog) \<Rightarrow> 'b prog" where
  "pattempt (Return r) f = f r"
| "pattempt (Step s k) f = Step s (\<lambda>w. pattempt (k w) f)"

definition pbind :: "'a prog \<Rightarrow> ('a \<Rightarrow> 'b prog) \<Rightarrow> 'b prog" where
  "pbind p f = pattempt p (\<lambda>r. case r of Inl e \<Rightarrow> pfail e | Inr x \<Rightarrow> f x)"

primrec run :: "'a prog \<Rightarrow> 'a io" where
  "run (Return r) = (\<lambda>w. (r, w))"
| "run (Step s k) = (\<lambda>w. run (k w) (s w))"

text \<open>Undisturbed, a program is the operation with the same structure.\<close>

named_theorems run_rules \<open>what a program does undisturbed\<close>

lemma run_act [run_rules]: "run (act m) = m"
  by (simp add: act_def)

lemma run_pret [run_rules]: "run (pret x) = ret x"
  by (simp add: ret_def fun_eq_iff)

lemma run_pfail [run_rules]: "run (pfail e) = fail e"
  by (simp add: fail_def fun_eq_iff)

lemma run_pattempt [run_rules]: "run (pattempt p f) = attempt (run p) (\<lambda>r. run (f r))"
proof
  show "run (pattempt p f) w = attempt (run p) (\<lambda>r. run (f r)) w" for w
    by (induction p arbitrary: w) (simp_all add: attempt_def)
qed

lemma run_pbind [run_rules]: "run (pbind p f) = bind (run p) (\<lambda>x. run (f x))"
  unfolding pbind_def run_pattempt by (auto simp: fun_eq_iff attempt_def bind_def split: sum.splits prod.splits)

lemma run_if [run_rules]: "run (if b then p else q) = (if b then run p else run q)"
  by simp

lemma run_case_option [run_rules]: "run (case x of None \<Rightarrow> p | Some y \<Rightarrow> f y) = (case x of None \<Rightarrow> run p | Some y \<Rightarrow> run (f y))"
  by (simp split: option.split)

lemma run_case_sum [run_rules]: "run (case x of Inl e \<Rightarrow> f e | Inr y \<Rightarrow> g y) = (case x of Inl e \<Rightarrow> run (f e) | Inr y \<Rightarrow> run (g y))"
  by (simp split: sum.split)

lemma run_case_prod [run_rules]: "run (case p of (x, y) \<Rightarrow> f x y) = (case p of (x, y) \<Rightarrow> run (f x y))"
  by (simp split: prod.split)

section \<open>Interleavings\<close>

text \<open>At most \<open>k\<close> operations are under way. One starts, one of them makes a step, one that has ended leaves; or the rest of the world moves:
  the clocks, the faults to come, the answers of the media server.\<close>

type_synonym 'a pool = "'a prog list \<times> world"

inductive conc_step :: "nat \<Rightarrow> 'a prog set \<Rightarrow> 'a pool \<Rightarrow> 'a pool \<Rightarrow> bool" for k ops where
  start: "length xs < k \<Longrightarrow> p \<in> ops \<Longrightarrow> conc_step k ops (xs, w) (xs @ [p], w)"
| move: "conc_step k ops (xs @ Step s c # ys, w) (xs @ c w # ys, s w)"
| leave: "conc_step k ops (xs @ Return r # ys, w) (xs @ ys, w)"
| outside: "w_db w' = w_db w \<Longrightarrow> conc_step k ops (xs, w) (xs, w')"

text \<open>A schedule names the operation that moves next; one that has ended stays.\<close>

fun step_at :: "nat \<Rightarrow> 'a pool \<Rightarrow> 'a pool" where
  "step_at n (ps, w) =
     (if n < length ps then case ps ! n of Return r \<Rightarrow> (ps, w) | Step s c \<Rightarrow> (ps[n := c w], s w) else (ps, w))"

definition schedule :: "nat list \<Rightarrow> 'a pool \<Rightarrow> 'a pool" where
  "schedule ns st = foldl (\<lambda>st n. step_at n st) st ns"

lemma step_at_conc: "(conc_step k ops)\<^sup>*\<^sup>* (ps, w) (step_at n (ps, w))"
proof (cases "n < length ps")
  case True
  then have ps: "ps = take n ps @ ps ! n # drop (Suc n) ps" by (rule id_take_nth_drop)
  show ?thesis
  proof (cases "ps ! n")
    case (Step s c)
    have "conc_step k ops (take n ps @ Step s c # drop (Suc n) ps, w) (take n ps @ c w # drop (Suc n) ps, s w)" by (rule conc_step.move)
    then show ?thesis using True Step ps by (simp add: upd_conv_take_nth_drop)
  qed simp
qed simp

lemma schedule_conc: "(conc_step k ops)\<^sup>*\<^sup>* st (schedule ns st)"
proof (induction ns arbitrary: st)
  case (Cons n ns)
  have "(conc_step k ops)\<^sup>*\<^sup>* st (step_at n st)" using step_at_conc by (cases st) blast
  then show ?case using Cons [of "step_at n st"] by (simp add: schedule_def)
qed (simp add: schedule_def)

text \<open>An operation may run undisturbed: a schedule that lets it alone move does what \<open>run\<close> does.\<close>

lemma run_alone:
  assumes "i < length ps" "run (ps ! i) w = (r, w')"
  shows "\<exists>n. schedule (replicate n i) (ps, w) = (ps[i := Return r], w')"
proof -
  have "i < length ps \<Longrightarrow> ps ! i = p \<Longrightarrow> run p w = (r, w') \<Longrightarrow> \<exists>n. schedule (replicate n i) (ps, w) = (ps[i := Return r], w')" for p
  proof (induction p arbitrary: ps w)
    case (Return q)
    then have "ps[i := Return r] = ps" "w' = w" using list_update_id [of ps i] by simp_all
    then have "schedule (replicate 0 i) (ps, w) = (ps[i := Return r], w')" by (simp add: schedule_def)
    then show ?case by blast
  next
    case (Step s c)
    have "ps[i := c w] ! i = c w" "i < length (ps[i := c w])" "run (c w) (s w) = (r, w')" using Step.prems by simp_all
    from Step.IH [OF rangeI this(2,1,3)] obtain n where "schedule (replicate n i) (ps[i := c w], s w) = (ps[i := Return r], w')" by auto
    then have "schedule (replicate (Suc n) i) (ps, w) = (ps[i := Return r], w')" using Step.prems by (simp add: schedule_def)
    then show ?case by blast
  qed
  with assms show ?thesis by blast
qed

lemma schedule_append: "schedule (ns @ ms) st = schedule ms (schedule ns st)"
  by (simp add: schedule_def)

lemma start_conc:
  assumes "set ps \<subseteq> ops" "length xs + length ps \<le> k"
  shows "(conc_step k ops)\<^sup>*\<^sup>* (xs, w) (xs @ ps, w)"
  using assms
proof (induction ps arbitrary: xs)
  case (Cons p ps)
  have "conc_step k ops (xs, w) (xs @ [p], w)" using Cons.prems by (intro conc_step.start) auto
  with Cons.IH [of "xs @ [p]"] Cons.prems show ?case by (simp add: converse_rtranclp_into_rtranclp)
qed simp

section \<open>Ghosts\<close>

text \<open>\<open>guarded p J g Q\<close>: with the ghost value \<open>g\<close>, every step of the program keeps \<open>J\<close>, whatever the ghosts of the others are, and finds a next
  ghost; at its end the result and the ghost satisfy \<open>Q\<close>. \<open>J\<close> relates the database to the ghosts of all operations under way, of which there
  are at most \<open>k\<close>.\<close>

definition ghost_step :: "nat \<Rightarrow> (db \<Rightarrow> 'g list \<Rightarrow> bool) \<Rightarrow> db \<Rightarrow> 'g \<Rightarrow> db \<Rightarrow> 'g \<Rightarrow> bool" where
  "ghost_step k J d g d' g' \<longleftrightarrow> (\<forall>gs hs. length gs + length hs < k \<longrightarrow> J d (gs @ g # hs) \<longrightarrow> J d' (gs @ g' # hs))"

definition possible :: "nat \<Rightarrow> (db \<Rightarrow> 'g list \<Rightarrow> bool) \<Rightarrow> db \<Rightarrow> 'g \<Rightarrow> bool" where
  "possible k J d g \<longleftrightarrow> (\<exists>gs hs. length gs + length hs < k \<and> J d (gs @ g # hs))"

primrec guarded :: "'a prog \<Rightarrow> nat \<Rightarrow> (db \<Rightarrow> 'g list \<Rightarrow> bool) \<Rightarrow> 'g \<Rightarrow> ('a res \<Rightarrow> 'g \<Rightarrow> bool) \<Rightarrow> bool" where
  "guarded (Return r) k J g Q = Q r g"
| "guarded (Step s c) k J g Q =
     (\<forall>w. possible k J (w_db w) g \<longrightarrow> (\<exists>g'. ghost_step k J (w_db w) g (w_db (s w)) g' \<and> guarded (c w) k J g' Q))"

lemma guarded_mono: "guarded p k J g Q \<Longrightarrow> (\<And>r h. Q r h \<Longrightarrow> R r h) \<Longrightarrow> guarded p k J g R"
proof (induction p arbitrary: g)
  case (Step s c)
  show ?case unfolding guarded.simps
  proof (intro allI impI)
    fix w :: world assume "possible k J (w_db w) g"
    with Step.prems(1) obtain g' where "ghost_step k J (w_db w) g (w_db (s w)) g'" "guarded (c w) k J g' Q" by auto
    with Step.IH [OF rangeI this(2) Step.prems(2)] show "\<exists>g'. ghost_step k J (w_db w) g (w_db (s w)) g' \<and> guarded (c w) k J g' R" by blast
  qed
qed simp

lemma guarded_pattempt: "guarded p k J g (\<lambda>r h. guarded (f r) k J h Q) \<Longrightarrow> guarded (pattempt p f) k J g Q"
proof (induction p arbitrary: g)
  case (Step s c)
  show ?case unfolding guarded.simps pattempt.simps
  proof (intro allI impI)
    fix w :: world assume "possible k J (w_db w) g"
    with Step.prems obtain g' where "ghost_step k J (w_db w) g (w_db (s w)) g'" "guarded (c w) k J g' (\<lambda>r h. guarded (f r) k J h Q)" by auto
    with Step.IH [OF rangeI this(2)]
    show "\<exists>g'. ghost_step k J (w_db w) g (w_db (s w)) g' \<and> guarded (pattempt (c w) f) k J g' Q" by blast
  qed
qed simp

lemma guarded_pbind:
  assumes "guarded p k J g (\<lambda>r h. case r of Inl e \<Rightarrow> Q (Inl e) h | Inr x \<Rightarrow> guarded (f x) k J h Q)"
  shows "guarded (pbind p f) k J g Q"
  unfolding pbind_def by (rule guarded_pattempt, rule guarded_mono [OF assms]) (auto split: sum.splits)

lemma guarded_act:
  assumes "\<And>w r w'. m w = (r, w') \<Longrightarrow> possible k J (w_db w) g \<Longrightarrow> \<exists>g'. ghost_step k J (w_db w) g (w_db w') g' \<and> Q r g'"
  shows "guarded (act m) k J g Q"
  using assms by (auto simp: act_def)

text \<open>An action that keeps \<open>J\<close> with its ghost unchanged.\<close>

lemma guarded_quiet:
  assumes "\<And>gs. keeps (\<lambda>d. J d gs) m" "\<And>w r w'. m w = (r, w') \<Longrightarrow> Q r g"
  shows "guarded (act m) k J g Q"
proof (rule guarded_act)
  fix w r and w' :: world assume m: "m w = (r, w')"
  have "ghost_step k J (w_db w) g (w_db w') g"
    unfolding ghost_step_def using keepsD [OF assms(1) m] by blast
  with assms(2) [OF m] show "\<exists>g'. ghost_step k J (w_db w) g (w_db w') g' \<and> Q r g'" by blast
qed

text \<open>A property of the database alone, which every action keeps.\<close>

lemma guarded_keeps:
  assumes "\<And>r. Q r ()" "keeps J m"
  shows "guarded (act m) k (\<lambda>d _. J d) () Q"
  by (rule guarded_quiet) (use assms in auto)

section \<open>Reading\<close>

lemma guarded_read:
  assumes "\<And>I. keeps I m"
    and "\<And>w r w'. m w = (r, w') \<Longrightarrow> possible k J (w_db w) g \<Longrightarrow> \<exists>g'. ghost_step k J (w_db w) g (w_db w) g' \<and> Q r g'"
  shows "guarded (act m) k J g Q"
proof (rule guarded_act)
  fix w r and w' :: world assume m: "m w = (r, w')" and p: "possible k J (w_db w) g"
  have "w_db w' = w_db w" using keepsD [OF assms(1) [of "\<lambda>d. d = w_db w"] m] by simp
  with assms(2) [OF m p] show "\<exists>g'. ghost_step k J (w_db w) g (w_db w') g' \<and> Q r g'" by simp
qed

lemma ghost_step_refl: "ghost_step k J d g d g"
  by (simp add: ghost_step_def)

lemma guarded_look:
  assumes "\<And>I. keeps I m" "\<And>r. Q r g"
  shows "guarded (act m) k J g Q"
  by (rule guarded_quiet) (use assms in auto)

lemma guarded_then:
  assumes "guarded (act m) k J g (\<lambda>_ h. h = g)" "\<And>e. Q (Inl e) g" "\<And>x. guarded (f x) k J g Q"
  shows "guarded (pbind (act m) f) k J g Q"
  by (rule guarded_pbind, rule guarded_mono [OF assms(1)]) (use assms(2,3) in \<open>simp split: sum.split\<close>)

lemma guarded_attempt_then:
  assumes "guarded (act m) k J g (\<lambda>_ h. h = g)" "\<And>r. guarded (f r) k J g Q"
  shows "guarded (pattempt (act m) f) k J g Q"
  by (rule guarded_pattempt, rule guarded_mono [OF assms(1)]) (use assms(2) in simp)

lemma guarded_look_bind:
  assumes "\<And>I. keeps I m" "\<And>e. Q (Inl e) g" "\<And>x. guarded (f x) k J g Q"
  shows "guarded (pbind (act m) f) k J g Q"
  by (rule guarded_then, rule guarded_look) (use assms in auto)

lemma guarded_look_attempt:
  assumes "\<And>I. keeps I m" "\<And>r. guarded (f r) k J g Q"
  shows "guarded (pattempt (act m) f) k J g Q"
  by (rule guarded_attempt_then, rule guarded_look) (use assms in auto)

lemma guarded_branch:
  "(b \<Longrightarrow> guarded p k J g Q) \<Longrightarrow> (\<not> b \<Longrightarrow> guarded q k J g Q) \<Longrightarrow> guarded (if b then p else q) k J g Q"
  "(\<And>e. guarded (f e) k J g Q) \<Longrightarrow> (\<And>x. guarded (h x) k J g Q) \<Longrightarrow> guarded (case r of Inl e \<Rightarrow> f e | Inr x \<Rightarrow> h x) k J g Q"
  "guarded q k J g Q \<Longrightarrow> (\<And>x. guarded (h x) k J g Q) \<Longrightarrow> guarded (case z of None \<Rightarrow> q | Some x \<Rightarrow> h x) k J g Q"
  by (auto split: sum.split option.split)

section \<open>Programs whose every action keeps a property\<close>

primrec all_keep :: "(db \<Rightarrow> bool) \<Rightarrow> 'a prog \<Rightarrow> bool" where
  "all_keep J (Return r) = True"
| "all_keep J (Step s c) = (\<forall>w. (J (w_db w) \<longrightarrow> J (w_db (s w))) \<and> all_keep J (c w))"

named_theorems all_keep_rules \<open>structural rules\<close>

lemma all_keep_Return [all_keep_rules]: "all_keep J (Return r)"
  by simp

lemma all_keep_act [all_keep_rules]: "keeps J m \<Longrightarrow> all_keep J (act m)"
  unfolding act_def keeps_def by simp

lemma all_keep_pattempt [all_keep_rules]: "all_keep J p \<Longrightarrow> (\<And>r. all_keep J (f r)) \<Longrightarrow> all_keep J (pattempt p f)"
  by (induction p) auto

lemma all_keep_branch [all_keep_rules]:
  "all_keep J p \<Longrightarrow> all_keep J q \<Longrightarrow> all_keep J (if b then p else q)"
  "(\<And>e. all_keep J (f e)) \<Longrightarrow> (\<And>x. all_keep J (h x)) \<Longrightarrow> all_keep J (case r of Inl e \<Rightarrow> f e | Inr x \<Rightarrow> h x)"
  "all_keep J q \<Longrightarrow> (\<And>x. all_keep J (h' x)) \<Longrightarrow> all_keep J (case z of None \<Rightarrow> q | Some x \<Rightarrow> h' x)"
  "(\<And>x y. all_keep J (h'' x y)) \<Longrightarrow> all_keep J (case v of (x, y) \<Rightarrow> h'' x y)"
  by (simp_all split: sum.split option.split prod.split)

lemma all_keep_pbind [all_keep_rules]: "all_keep J p \<Longrightarrow> (\<And>x. all_keep J (f x)) \<Longrightarrow> all_keep J (pbind p f)"
  unfolding pbind_def by (intro all_keep_rules)

text \<open>Whatever the ghosts are, such a program is no threat to them.\<close>

lemma guarded_all_keep: "(\<And>gs. all_keep (\<lambda>d. J d gs) p) \<Longrightarrow> guarded p k J g (\<lambda>_ h. h = g)"
proof (induction p)
  case (Step s c)
  have "guarded (c w) k J g (\<lambda>_ h. h = g)" for w using Step.prems by (intro Step.IH) auto
  moreover have "ghost_step k J (w_db w) g (w_db (s w)) g" for w using Step.prems by (auto simp: ghost_step_def)
  ultimately show ?case by auto
qed simp

section \<open>Claims on a limited resource\<close>

text \<open>An operation that has found room below a cap has a claim, its ghost, until it has used it. What is used and what is claimed together stay
  below the cap plus the number of operations under way.\<close>

definition claimed :: "'x option list \<Rightarrow> 'x set" where
  "claimed gs = {u. Some u \<in> set gs}"

definition room :: "nat \<Rightarrow> int \<Rightarrow> 'x set \<Rightarrow> 'x option list \<Rightarrow> bool" where
  "room k cap used gs \<longleftrightarrow> finite used \<and> int (card (used \<union> claimed gs)) < cap + int k"

lemma claimed_app [simp]: "claimed (gs @ hs) = claimed gs \<union> claimed hs" "claimed (g # gs) = set_option g \<union> claimed gs" "claimed [] = {}"
  by (auto simp: claimed_def)

lemma claimed_image: "claimed gs \<subseteq> the ` set gs"
  by (force simp: claimed_def)

lemma finite_claimed [simp]: "finite (claimed gs)"
  by (rule finite_subset [OF claimed_image]) simp

lemma card_claimed: "card (claimed gs) \<le> length gs"
proof -
  have "card (claimed gs) \<le> card (the ` set gs)" by (rule card_mono [OF _ claimed_image]) simp
  also have "\<dots> \<le> length gs" using card_image_le card_length le_trans by (metis finite_set)
  finally show ?thesis .
qed

lemma room_shrink:
  assumes "room k cap used gs" "used' \<union> claimed hs \<subseteq> used \<union> claimed gs"
  shows "room k cap used' hs"
proof -
  have f: "finite (used \<union> claimed gs)" using assms(1) by (simp add: room_def)
  then have "finite used'" by (rule rev_finite_subset) (use assms(2) in auto)
  moreover have "card (used' \<union> claimed hs) \<le> card (used \<union> claimed gs)" by (rule card_mono [OF f assms(2)])
  ultimately show ?thesis using assms(1) by (simp add: room_def)
qed

text \<open>Room below the cap suffices for one more claim.\<close>

lemma room_claim:
  assumes "room k cap used (gs @ g # hs)" "int (card used) < cap" "length gs + length hs < k"
  shows "room k cap used (gs @ Some u # hs)"
proof -
  have "card (used \<union> claimed (gs @ Some u # hs)) \<le> card used + card (claimed (gs @ Some u # hs))" by (rule card_Un_le)
  also have "card (claimed (gs @ Some u # hs)) \<le> Suc (length gs + length hs)" using card_claimed [of "gs @ Some u # hs"] by simp
  finally show ?thesis using assms by (simp add: room_def)
qed

lemma room_used: "room k cap used gs \<Longrightarrow> int (card used) < cap + int k"
  using card_mono [of "used \<union> claimed gs" used] by (simp add: room_def)

section \<open>Invariants of all interleavings\<close>

text \<open>Operations that are guarded from their first ghost on, towards an assertion that admits a new ghost and releases any.\<close>

locale ghost_inv =
  fixes k :: nat and J :: "db \<Rightarrow> 'g list \<Rightarrow> bool" and first :: 'g and ops :: "'a prog set"
  assumes enter: "J d gs \<Longrightarrow> length gs < k \<Longrightarrow> J d (gs @ [first])"
    and release: "J d (gs @ g # hs) \<Longrightarrow> J d (gs @ hs)"
    and guard: "p \<in> ops \<Longrightarrow> guarded p k J first (\<lambda>_ _. True)"
begin

definition pool_ok :: "'a pool \<Rightarrow> 'g list \<Rightarrow> bool" where
  "pool_ok st gs \<longleftrightarrow> (case st of (ps, w) \<Rightarrow>
     length ps \<le> k \<and> list_all2 (\<lambda>p g. guarded p k J g (\<lambda>_ _. True)) ps gs \<and> J (w_db w) gs)"

lemma pool_ok_step:
  assumes "conc_step k ops st st'" "pool_ok st gs"
  shows "\<exists>gs'. pool_ok st' gs'"
  using assms(1)
proof cases
  case (start xs p w)
  then have "pool_ok st' (gs @ [first])"
    using assms(2) enter guard by (auto simp: pool_ok_def list_all2_lengthD list_all2_appendI)
  then show ?thesis by blast
next
  case (move xs s c ys w)
  obtain us g vs where gs: "gs = us @ g # vs" "list_all2 (\<lambda>p g. guarded p k J g (\<lambda>_ _. True)) xs us"
    "list_all2 (\<lambda>p g. guarded p k J g (\<lambda>_ _. True)) ys vs" "guarded (Step s c) k J g (\<lambda>_ _. True)"
    using assms(2) unfolding pool_ok_def move by (auto simp: list_all2_append1 list_all2_Cons1)
  have len: "length us + length vs < k" "J (w_db w) (us @ g # vs)"
    using assms(2) gs(1-3) by (auto simp: pool_ok_def move dest!: list_all2_lengthD)
  then have "possible k J (w_db w) g" unfolding possible_def by blast
  with gs(4) obtain g' where g': "ghost_step k J (w_db w) g (w_db (s w)) g'" "guarded (c w) k J g' (\<lambda>_ _. True)" by auto
  have "J (w_db (s w)) (us @ g' # vs)" using g'(1) len unfolding ghost_step_def by blast
  then have "pool_ok st' (us @ g' # vs)"
    using assms(2) gs g'(2) by (auto simp: pool_ok_def move intro!: list_all2_appendI)
  then show ?thesis by blast
next
  case (leave xs r ys w)
  obtain us g vs where gs: "gs = us @ g # vs" "list_all2 (\<lambda>p g. guarded p k J g (\<lambda>_ _. True)) xs us"
    "list_all2 (\<lambda>p g. guarded p k J g (\<lambda>_ _. True)) ys vs"
    using assms(2) unfolding pool_ok_def leave by (auto simp: list_all2_append1 list_all2_Cons1)
  then have "pool_ok st' (us @ vs)"
    using assms(2) release by (auto simp: pool_ok_def leave intro!: list_all2_appendI)
  then show ?thesis by blast
next
  case (outside w' w xs)
  then have "pool_ok st' gs" using assms(2) by (simp add: pool_ok_def)
  then show ?thesis by blast
qed

lemma reached:
  assumes "(conc_step k ops)\<^sup>*\<^sup>* ([], w) (ps, w')" "J (w_db w) []"
  obtains gs where "J (w_db w') gs" "length gs = length ps" "length ps \<le> k"
proof -
  have "\<exists>gs. pool_ok (ps, w') gs"
    using assms(1)
  proof (induction "([] :: 'a prog list, w)" "(ps, w')" arbitrary: ps w' rule: rtranclp.induct)
    case rtrancl_refl
    then show ?case using assms(2) by (auto simp: pool_ok_def)
  next
    case (rtrancl_into_rtrancl b)
    then show ?case using pool_ok_step by (cases b) blast
  qed
  then show thesis using that by (auto simp: pool_ok_def dest: list_all2_lengthD)
qed

end

text \<open>Any number of programs whose every action keeps a property.\<close>

lemma interleaved:
  assumes "\<And>p. p \<in> ops \<Longrightarrow> all_keep J p" "(conc_step k ops)\<^sup>*\<^sup>* ([], w) (ps, w')" "J (w_db w)"
  shows "J (w_db w')"
proof -
  have "ghost_inv k (\<lambda>d _. J d) () ops"
  proof
    show "guarded p k (\<lambda>d _. J d) () (\<lambda>_ _. True)" if "p \<in> ops" for p
      by (rule guarded_mono [OF guarded_all_keep]) (use assms(1) [OF that] in simp_all)
  qed simp_all
  from ghost_inv.reached [OF this assms(2)] assms(3) show ?thesis by blast
qed

end
