(* ===== verification/EnrollmentRaces.thy ===== *)
theory EnrollmentRaces
  imports Concurrency Endpoints
begin

text \<open>
  Enrollment (\<^verbatim>\<open>internal/class/enrollment.go\<close>) at the grain of its statements. The comment of the code names the capacity a soft one,
  since the count and the insert are not one statement; here is by how much it is overrun, with at most \<open>k\<close> operations under way: \<open>k - 1\<close>.

  For each operation there is its program and the lemma that undisturbed it is the operation of \<open>Classes\<close>.
\<close>

section \<open>The operations\<close>

definition EnsureClassAccess_prog :: "string \<Rightarrow> string \<Rightarrow> unit prog" where
  "EnsureClassAccess_prog subjectID classID =
     pbind (act (ClassPriceCents classID)) (\<lambda>(price, ok).
       if \<not> ok then pfail ErrClassNotFound
       else if price = 0 then pret ()
       else pbind (act (HasActiveEntitlement subjectID ResourceClass classID)) (\<lambda>owned.
         if \<not> owned then pfail ErrPaymentRequired else pret ()))"

definition capacity_gate_prog :: "string \<Rightarrow> string \<Rightarrow> unit prog" where
  "capacity_gate_prog cid uid =
     pbind (act (ClassCapacity cid)) (\<lambda>(capacity, ok).
       if ok \<and> capacity > 0 then
         pbind (act (IsEnrolled cid uid)) (\<lambda>already.
           if \<not> already then
             pbind (act (CountClassMembers cid)) (\<lambda>n. if n \<ge> capacity then pfail ErrClassFull else pret ())
           else pret ())
       else pret ())"

definition Enroll_prog :: "ClassSvc \<Rightarrow> AccessTokenClaims \<Rightarrow> string \<Rightarrow> unit prog" where
  "Enroll_prog s claims cid =
     (if \<not> MeetsAdultDeclaration claims then pfail class_ErrForbidden
      else pattempt (act (GetClass cid)) (\<lambda>r. case r of
        Inl _ \<Rightarrow> pfail enroll_ErrClassNotFound
      | Inr c \<Rightarrow>
          if c_Status c \<noteq> ''published'' then pfail enroll_ErrClassNotFound
          else pbind (if cs_entitlements s then EnsureClassAccess_prog (Subject claims) cid else pret ()) (\<lambda>_.
               pbind (capacity_gate_prog cid (Subject claims)) (\<lambda>_.
               act (EnrollClass cid (Subject claims))))))"

definition Unenroll_prog :: "AccessTokenClaims \<Rightarrow> string \<Rightarrow> unit prog" where
  "Unenroll_prog claims cid = act (UnenrollClass cid (Subject claims))"

lemma run_enrollment:
  "run (Enroll_prog s claims cid) = Enroll s claims cid" "run (Unenroll_prog claims cid) = Unenroll claims cid"
  unfolding Enroll_prog_def Enroll_def capacity_gate_prog_def capacity_gate_def EnsureClassAccess_prog_def EnsureClassAccess_def
    Unenroll_prog_def Unenroll_def run_rules
  by (rule refl)+

text \<open>Who has a seat, and who has passed the gate and may still take one. The cap and the row of the class stay.\<close>

definition seated :: "string \<Rightarrow> db \<Rightarrow> string set" where
  "seated cid d = cm_UserID ` set (roster cid d)"

definition seats_ok :: "nat \<Rightarrow> string \<Rightarrow> int \<Rightarrow> db \<Rightarrow> string option list \<Rightarrow> bool" where
  "seats_ok k cid cap d gs \<longleftrightarrow> 0 < cap \<and> distinct (map cm_UserID (roster cid d))
     \<and> map_option c_Capacity (first_row (\<lambda>c. c_ID c = cid) (classes d)) = Some cap \<and> room k cap (seated cid d) gs"

lemma seats_weaken:
  assumes "seats_ok k cid cap d gs" "claimed hs \<subseteq> seated cid d \<union> claimed gs"
  shows "seats_ok k cid cap d hs"
proof -
  have "room k cap (seated cid d) hs" by (rule room_shrink [of k cap "seated cid d" gs]) (use assms in \<open>simp_all add: seats_ok_def\<close>)
  with assms(1) show ?thesis by (simp add: seats_ok_def)
qed

lemma keeps_seats_enroll:
  assumes "cid' = cid \<Longrightarrow> uid \<in> claimed gs"
  shows "keeps (\<lambda>d. seats_ok k cid cap d gs) (EnrollClass cid' uid)"
proof -
  have seat: "seats_ok k cid cap (d\<lparr>class_members := class_members d @ [\<lparr>cm_ClassID = cid', cm_UserID = uid, cm_EnrolledAt = t\<rparr>]\<rparr>) gs"
    if ok: "seats_ok k cid cap d gs" and new: "\<not> exists_row (\<lambda>m. cm_ClassID m = cid' \<and> cm_UserID m = uid) (class_members d)" for d t
  proof (cases "cid' = cid")
    case True
    let ?d = "d\<lparr>class_members := class_members d @ [\<lparr>cm_ClassID = cid', cm_UserID = uid, cm_EnrolledAt = t\<rparr>]\<rparr>"
    have r: "roster cid ?d = roster cid d @ [\<lparr>cm_ClassID = cid', cm_UserID = uid, cm_EnrolledAt = t\<rparr>]" using True by (simp add: roster_def)
    have fresh: "uid \<notin> cm_UserID ` set (roster cid d)" using new True by (auto simp: roster_def list_ex_iff)
    have sub: "seated cid ?d \<union> claimed gs \<subseteq> seated cid d \<union> claimed gs" using assms True unfolding seated_def r by auto
    have "room k cap (seated cid d) gs" using ok by (simp add: seats_ok_def)
    from room_shrink [OF this sub] have u: "room k cap (seated cid ?d) gs" .
    have "distinct (map cm_UserID (roster cid ?d))" using ok fresh unfolding r by (simp add: seats_ok_def)
    then show ?thesis using ok u unfolding seats_ok_def by simp
  next
    case False
    then show ?thesis using ok by (simp add: seats_ok_def seated_def roster_def)
  qed
  show ?thesis
    unfolding EnrollClass_def by (rule keeps_pg) (auto simp: stmt_keeps_def split: if_splits intro: seat)
qed

lemma keeps_seats_unenroll: "keeps (\<lambda>d. seats_ok k cid cap d gs) (UnenrollClass cid' uid)"
proof -
  have "seats_ok k cid cap (d\<lparr>class_members := filter P (class_members d)\<rparr>) gs" if ok: "seats_ok k cid cap d gs" for d P
  proof -
    have r: "roster cid (d\<lparr>class_members := filter P (class_members d)\<rparr>) = filter P (roster cid d)"
      by (simp add: roster_def) (metis (no_types, lifting) filter_filter conj_commute filter_cong)
    have "room k cap (seated cid (d\<lparr>class_members := filter P (class_members d)\<rparr>)) gs"
      by (rule room_shrink [of k cap "seated cid d" gs]) (use ok in \<open>auto simp: seats_ok_def seated_def r\<close>)
    with ok show ?thesis by (auto simp: seats_ok_def r distinct_map_filter)
  qed
  then show ?thesis unfolding UnenrollClass_def by (intro keeps_pg) (auto simp: stmt_keeps_def)
qed

lemma claim_seat:
  assumes "seats_ok k cid cap d (gs @ g # hs)" "int (length (roster cid d)) < cap" "length gs + length hs < k"
  shows "seats_ok k cid cap d (gs @ Some u # hs)"
proof -
  have "int (card (seated cid d)) < cap" using assms(2) card_length [of "map cm_UserID (roster cid d)"] by (simp add: seated_def)
  then have "room k cap (seated cid d) (gs @ Some u # hs)" using assms(1,3) by (intro room_claim [where g = g]) (simp_all add: seats_ok_def)
  with assms(1) show ?thesis by (simp add: seats_ok_def)
qed

text \<open>One who has a seat may claim it again.\<close>

lemma claim_own_seat: "seats_ok k cid cap d (gs @ g # hs) \<Longrightarrow> is_enrolled cid u d \<Longrightarrow> seats_ok k cid cap d (gs @ Some u # hs)"
  by (erule seats_weaken) (auto simp: seated_def roster_def is_enrolled_def list_ex_iff)

lemma member_reads: "keeps I (ClassCapacity cid)" "keeps I (IsEnrolled cid uid)" "keeps I (CountClassMembers cid)"
  unfolding ClassCapacity_def IsEnrolled_def CountClassMembers_def by (intro keeps_pg; auto simp: stmt_keeps_def split: option.splits)+

lemma guarded_class_access:
  assumes "\<And>r. Q r g"
  shows "guarded (EnsureClassAccess_prog subject cid) k J g Q"
  unfolding EnsureClassAccess_prog_def
  by (rule guarded_look_bind [OF classroom_list_reads(13)])
    (auto simp: assms intro!: guarded_look_bind [OF classroom_list_reads(14)])

text \<open>The gate ends with a claim, unless it refuses.\<close>

abbreviation passed :: "'g \<Rightarrow> 'a res \<Rightarrow> 'g \<Rightarrow> bool" where
  "passed g \<equiv> \<lambda>r h. case r of Inl _ \<Rightarrow> True | Inr _ \<Rightarrow> h = g"

lemma guarded_gate: "guarded (capacity_gate_prog cid uid) k (seats_ok k cid cap) None (passed (Some uid))"
proof -
  let ?J = "seats_ok k cid cap"
  have count: "guarded (pbind (act (CountClassMembers cid)) (\<lambda>n. if n \<ge> cap then pfail ErrClassFull else pret ())) k ?J None (passed (Some uid))"
  proof (rule guarded_pbind, rule guarded_read [OF member_reads(3)])
    fix w r and w' :: world assume m: "CountClassMembers cid w = (r, w')"
    let ?after = "\<lambda>r h. case r of Inl e \<Rightarrow> passed (Some uid) (Inl e :: unit res) h
      | Inr n \<Rightarrow> guarded (if n \<ge> cap then pfail ErrClassFull else pret ()) k ?J h (passed (Some uid))"
    show "\<exists>g'. ghost_step k ?J (w_db w) None (w_db w) g' \<and> ?after r g'"
    proof (cases "\<exists>n. r = Inr n \<and> n < cap")
      case True
      then obtain n where n: "r = Inr n" "n < cap" by blast
      have "int (length (roster cid (w_db w))) < cap" using pg_runD(1) [OF m [unfolded CountClassMembers_def n(1)]] n(2) by auto
      then have "ghost_step k ?J (w_db w) None (w_db w) (Some uid)" using claim_seat unfolding ghost_step_def by blast
      moreover have "?after r (Some uid)" using n by simp
      ultimately show ?thesis by blast
    next
      case False
      then have "?after r None" by (auto split: sum.split)
      then show ?thesis by (intro exI [of _ None] conjI ghost_step_refl)
    qed
  qed
  have member: "guarded (pbind (act (IsEnrolled cid uid)) (\<lambda>already. if \<not> already then
      pbind (act (CountClassMembers cid)) (\<lambda>n. if n \<ge> cap then pfail ErrClassFull else pret ()) else pret ())) k ?J None (passed (Some uid))"
    (is "guarded (pbind _ ?then) _ _ _ _")
  proof (rule guarded_pbind, rule guarded_read [OF member_reads(2)])
    fix w r and w' :: world assume m: "IsEnrolled cid uid w = (r, w')"
    let ?after = "\<lambda>r h. case r of Inl e \<Rightarrow> passed (Some uid) (Inl e :: unit res) h | Inr x \<Rightarrow> guarded (?then x) k ?J h (passed (Some uid))"
    show "\<exists>g'. ghost_step k ?J (w_db w) None (w_db w) g' \<and> ?after r g'"
    proof (cases "r = Inr True")
      case True
      then have "is_enrolled cid uid (w_db w)" using pg_runD(1) [OF m [unfolded IsEnrolled_def True]] by auto
      then have "ghost_step k ?J (w_db w) None (w_db w) (Some uid)" using claim_own_seat unfolding ghost_step_def by blast
      moreover have "?after r (Some uid)" using True by simp
      ultimately show ?thesis by blast
    next
      case False
      then have "?after r None" using count by (cases r) auto
      then show ?thesis by (intro exI [of _ None] conjI ghost_step_refl)
    qed
  qed
  show ?thesis
    unfolding capacity_gate_prog_def
  proof (rule guarded_pbind, rule guarded_read [OF member_reads(1)])
    fix w r and w' :: world assume m: "ClassCapacity cid w = (r, w')" and "possible k ?J (w_db w) (None :: string option)"
    then obtain c where c: "first_row (\<lambda>c. c_ID c = cid) (classes (w_db w)) = Some c" "c_Capacity c = cap" "0 < cap" by (auto simp: possible_def seats_ok_def)
    have "x = (cap, True)" if "r = Inr x" for x using pg_runD(1) [OF m [unfolded that ClassCapacity_def]] c(1,2) by auto
    then show "\<exists>g'. ghost_step k ?J (w_db w) None (w_db w) g' \<and> (case r of Inl e \<Rightarrow> passed (Some uid) (Inl e :: unit res) g'
        | Inr x \<Rightarrow> guarded (case x of (capacity, ok) \<Rightarrow> if ok \<and> capacity > 0 then
            pbind (act (IsEnrolled cid uid)) (\<lambda>already. if \<not> already then
              pbind (act (CountClassMembers cid)) (\<lambda>n. if n \<ge> capacity then pfail ErrClassFull else pret ()) else pret ())
            else pret ()) k ?J g' (passed (Some uid)))"
      using c(3) member by (intro exI [of _ None] conjI ghost_step_refl) (cases r, simp_all)
  qed
qed

text \<open>The gate of another class.\<close>

lemma guarded_other_gate:
  assumes "\<And>r. Q r g"
  shows "guarded (capacity_gate_prog cid uid) k J g Q"
  unfolding capacity_gate_prog_def
  by (rule guarded_look_bind [OF member_reads(1)])
    (auto simp: assms intro!: guarded_look_bind [OF member_reads(2)] guarded_look_bind [OF member_reads(3)])

lemma guarded_take_seat:
  assumes "cid' = cid \<Longrightarrow> g = Some uid"
  shows "guarded (act (EnrollClass cid' uid)) k (seats_ok k cid cap) g (\<lambda>_ _. True)"
proof (rule guarded_act)
  fix w r and w' :: world assume m: "EnrollClass cid' uid w = (r, w')"
  have "seats_ok k cid cap (w_db w') (gs @ g # hs)" if "seats_ok k cid cap (w_db w) (gs @ g # hs)" for gs hs
    by (rule keepsD [OF keeps_seats_enroll m that]) (use assms in auto)
  then show "\<exists>g'. ghost_step k (seats_ok k cid cap) (w_db w) g (w_db w') g' \<and> True" by (auto simp: ghost_step_def)
qed

lemma guarded_Enroll: "guarded (Enroll_prog s claims cid') k (seats_ok k cid cap) None (\<lambda>_ _. True)"
proof -
  let ?J = "seats_ok k cid cap"
  have seat: "guarded (pbind (capacity_gate_prog cid' (Subject claims)) (\<lambda>_. act (EnrollClass cid' (Subject claims)))) k ?J None (\<lambda>_ _. True)"
  proof (rule guarded_pbind, cases "cid' = cid")
    case True
    show "guarded (capacity_gate_prog cid' (Subject claims)) k ?J None
        (\<lambda>r h. case r of Inl e \<Rightarrow> True | Inr x \<Rightarrow> guarded (act (EnrollClass cid' (Subject claims))) k ?J h (\<lambda>_ _. True))"
      unfolding True by (rule guarded_mono [OF guarded_gate]) (auto simp: guarded_take_seat split: sum.splits)
  next
    case False
    then show "guarded (capacity_gate_prog cid' (Subject claims)) k ?J None
        (\<lambda>r h. case r of Inl e \<Rightarrow> True | Inr x \<Rightarrow> guarded (act (EnrollClass cid' (Subject claims))) k ?J h (\<lambda>_ _. True))"
      using guarded_take_seat [of cid' cid None] by (intro guarded_other_gate) (simp split: sum.split)
  qed
  have paid: "guarded (pbind (if b then EnsureClassAccess_prog (Subject claims) cid' else pret ())
      (\<lambda>_. pbind (capacity_gate_prog cid' (Subject claims)) (\<lambda>_. act (EnrollClass cid' (Subject claims))))) k ?J None (\<lambda>_ _. True)" for b
    using seat by (intro guarded_pbind) (simp add: guarded_class_access split: sum.split)
  show ?thesis
    unfolding Enroll_prog_def
    by (intro guarded_branch guarded_look_attempt [OF classroom_list_reads(2)] paid) simp_all
qed

lemma guarded_Unenroll: "guarded (Unenroll_prog claims cid') k (seats_ok k cid cap) None (\<lambda>_ _. True)"
  unfolding Unenroll_prog_def by (rule guarded_quiet [OF keeps_seats_unenroll]) simp

text \<open>Everyone may enroll and leave at the same time, in this class and in others.\<close>

definition enrollment_ops :: "ClassSvc \<Rightarrow> unit prog set" where
  "enrollment_ops s = {Enroll_prog s claims cid |claims cid. True} \<union> {Unenroll_prog claims cid |claims cid. True}"

interpretation enrolling: ghost_inv k "seats_ok k cid cap" None "enrollment_ops s" for k cid cap s
proof
  fix d and gs :: "string option list" assume "seats_ok k cid cap d gs"
  then show "seats_ok k cid cap d (gs @ [None])" by (rule seats_weaken) simp
next
  fix d g and gs hs :: "string option list" assume "seats_ok k cid cap d (gs @ g # hs)"
  then show "seats_ok k cid cap d (gs @ hs)" by (rule seats_weaken) auto
next
  fix p assume "p \<in> enrollment_ops s"
  then show "guarded p k (seats_ok k cid cap) None (\<lambda>_ _. True)"
    by (auto simp: enrollment_ops_def guarded_Enroll guarded_Unenroll)
qed

text \<open>C7: The count of a class roster and the insert are two statements, so a full class can still admit. The overshoot is bounded: when at most \<open>k\<close>
  enrollments and withdrawals are under way at any time, in any order of their statements and under any loss of connections, a class whose roster
  was within its capacity never has more than capacity plus \<open>k - 1\<close> members, and nobody is on the roster twice.\<close>

theorem roster_overshoot:
  assumes "(conc_step k (enrollment_ops s))\<^sup>*\<^sup>* ([], w) (ps, w')" and "1 \<le> k"
    and "first_row (\<lambda>c. c_ID c = cid) (classes (w_db w)) = Some c" "0 < c_Capacity c"
    and "distinct (map cm_UserID (roster cid (w_db w)))" "int (length (roster cid (w_db w))) \<le> c_Capacity c"
  shows "int (length (roster cid (w_db w'))) \<le> c_Capacity c + int k - 1 \<and> distinct (map cm_UserID (roster cid (w_db w')))"
proof -
  have seats: "int (card (seated cid d)) = int (length (roster cid d))" if "distinct (map cm_UserID (roster cid d))" for d
    using distinct_card [OF that] by (simp add: seated_def)
  have "seats_ok k cid (c_Capacity c) (w_db w) []" using assms(2-6) seats by (simp add: seats_ok_def room_def) (simp add: seated_def)
  from enrolling.reached [OF assms(1) this] obtain gs where ok: "seats_ok k cid (c_Capacity c) (w_db w') gs" by blast
  then show ?thesis using seats [of "w_db w'"] room_used by (fastforce simp: seats_ok_def)
qed

definition demo_race :: world where
  "demo_race = demo_world (empty_db\<lparr>users := [demo_user ''u1'', demo_user ''u2''],
     classes := [demo_class\<lparr>c_Status := ''published'', c_Capacity := 1\<rparr>]\<rparr>)"

definition two_enroll :: "unit prog list" where
  "two_enroll = map (\<lambda>u. Enroll_prog \<lparr>cs_entitlements = False\<rparr> (demo_claims\<lparr>Subject := u, IdentityVerification := IdentityDeclared\<rparr>) ''c1'') [''u1'', ''u2'']"

text \<open>Two who count before either inserts share the last seat, the bound for two.\<close>

lemma last_seat_shared:
  "length (roster ''c1'' (w_db (snd (schedule [0, 0, 0, 0, 1, 1, 1, 1, 0, 1] (two_enroll, demo_race))))) = 2"
  by code_simp

theorem roster_overshoot_witness:
  "\<exists>ps w'. (conc_step 2 (enrollment_ops \<lparr>cs_entitlements = False\<rparr>))\<^sup>*\<^sup>* ([], demo_race) (ps, w') \<and> length (roster ''c1'' (w_db w')) = 2
     \<and> int (length (roster ''c1'' (w_db w'))) \<le> 1 + int 2 - 1"
proof -
  obtain ps w' where e: "schedule [0, 0, 0, 0, 1, 1, 1, 1, 0, 1] (two_enroll, demo_race) = (ps, w')" by force
  have "(conc_step 2 (enrollment_ops \<lparr>cs_entitlements = False\<rparr>))\<^sup>*\<^sup>* ([], demo_race) ([] @ two_enroll, demo_race)"
    by (rule start_conc) (auto simp: two_enroll_def enrollment_ops_def)
  then have r: "(conc_step 2 (enrollment_ops \<lparr>cs_entitlements = False\<rparr>))\<^sup>*\<^sup>* ([], demo_race) (ps, w')"
    using schedule_conc [of 2 "enrollment_ops \<lparr>cs_entitlements = False\<rparr>" "(two_enroll, demo_race)" "[0, 0, 0, 0, 1, 1, 1, 1, 0, 1]"] e by simp
  have "int (length (roster ''c1'' (w_db w'))) \<le> c_Capacity (demo_class\<lparr>c_Status := ''published'', c_Capacity := 1\<rparr>) + int 2 - 1"
    using roster_overshoot [OF r, where cid = "''c1''" and c = "demo_class\<lparr>c_Status := ''published'', c_Capacity := 1\<rparr>"]
    by (simp add: demo_race_def demo_world_def empty_db_def demo_class_def roster_def)
  moreover have "length (roster ''c1'' (w_db w')) = 2" using last_seat_shared e by simp
  ultimately show ?thesis using r by (intro exI [of _ ps] exI [of _ w']) simp
qed

end
