(* ===== verification/AccountRaces.thy ===== *)
theory AccountRaces
  imports Concurrency Endpoints
begin

text \<open>
  Sessions and accounts at the grain of their statements: \<^verbatim>\<open>internal/auth/service.go\<close> and \<^verbatim>\<open>authn.go\<close> (issue, refresh, logout, the resolvers),
  \<^verbatim>\<open>internal/identity\<close>, \<^verbatim>\<open>internal/admin\<close>, and the owner's changes to a class. The rotation of a refresh token and every audited action are
  one transaction, hence one action.

  The status of an account is read before its token version, in another statement; \<open>suspended_mid_login\<close> is what a suspension in between leads to.
\<close>

section \<open>Sessions\<close>

fun gatherInto_prog :: "string set \<Rightarrow> signal_source list \<Rightarrow> string \<Rightarrow> string set prog" where
  "gatherInto_prog held [] uid = pret held"
| "gatherInto_prog held (src # sources) uid =
     pbind (act (src uid)) (\<lambda>sigs. gatherInto_prog (held \<union> set sigs) sources uid)"

definition mint_prog :: "AuthSvc \<Rightarrow> string \<Rightarrow> User \<Rightarrow> IdentityVault \<Rightarrow> string \<Rightarrow> instant \<Rightarrow> AuthSession prog" where
  "mint_prog s jti user identity refreshSecret refreshExp =
     pbind (act (CurrentTokenVersion (u_ID user))) (\<lambda>tv.
     pbind (act (HasAdultAttestation (u_ID user))) (\<lambda>declaredAdult.
     pbind (act (HasVerifiedPhone (u_ID user))) (\<lambda>phoneVerified.
     pbind (gatherInto_prog (builtinSignals (iv_VerificationStatus identity) declaredAdult phoneVerified)
              (as_sources s) (u_ID user)) (\<lambda>held.
     pbind (act (MintAccess (as_minter s) jti (u_ID user) tv (Tier (as_policy s) held) (capabilities user)))
       (\<lambda>(access, claims).
     pret \<lparr>se_AccessToken = access, se_AccessClaims = claims, se_RefreshToken = refreshSecret,
           se_RefreshExpiresAt = refreshExp\<rparr>)))))"

definition IssueSession_prog :: "AuthSvc \<Rightarrow> string \<Rightarrow> string \<Rightarrow> string \<Rightarrow> string \<Rightarrow> AuthSession prog" where
  "IssueSession_prog s secret newid jti uid =
     pattempt (act (GetUser uid)) (\<lambda>r.
       case r of
         Inl _ \<Rightarrow> pfail ErrUnauthenticated
       | Inr user \<Rightarrow>
           if \<not> canHoldSession (u_Status user) then pfail ErrAccountNotActive
           else pattempt (act (GetIdentity uid)) (\<lambda>i.
             case i of
               Inl _ \<Rightarrow> pfail ErrUnauthenticated
             | Inr identity \<Rightarrow>
                 pbind (act goNow) (\<lambda>now.
                   let expiresAt = now + as_refreshTTL s
                   in pbind (act (IssueRefreshToken uid \<lparr>nt_ID = newid, nt_Hash = hashSecret s secret,
                              nt_ExpiresAt = expiresAt\<rparr>)) (\<lambda>_.
                      mint_prog s jti user identity secret expiresAt))))"

definition Refresh_prog :: "AuthSvc \<Rightarrow> string \<Rightarrow> string \<Rightarrow> string \<Rightarrow> string \<Rightarrow> AuthSession prog" where
  "Refresh_prog s secret newid jti presentedRefresh =
     pbind (act goNow) (\<lambda>now.
       let expiresAt = now + as_refreshTTL s
       in pattempt (act (RotateRefreshToken (hashSecret s presentedRefresh)
                     \<lparr>nt_ID = newid, nt_Hash = hashSecret s secret, nt_ExpiresAt = expiresAt\<rparr>)) (\<lambda>r.
            case r of
              Inl _ \<Rightarrow> pfail ErrUnauthenticated
            | Inr rot \<Rightarrow>
                pattempt (act (GetUser (ro_UserID rot))) (\<lambda>u.
                  case u of
                    Inl _ \<Rightarrow> pfail ErrUnauthenticated
                  | Inr user \<Rightarrow>
                      if \<not> canHoldSession (u_Status user) then pfail ErrAccountNotActive
                      else pattempt (act (GetIdentity (ro_UserID rot))) (\<lambda>i.
                        case i of
                          Inl _ \<Rightarrow> pfail ErrUnauthenticated
                        | Inr identity \<Rightarrow> mint_prog s jti user identity secret expiresAt))))"

definition RevokeRefreshFamilyByHash_prog :: "bytes \<Rightarrow> unit prog" where
  "RevokeRefreshFamilyByHash_prog presentedHash =
     pattempt (act (pg (q_GetFamilyByHash presentedHash))) (\<lambda>r.
       case r of
         Inl err \<Rightarrow> if err = ErrNoRows then pfail ErrRefreshNotFound else pfail err
       | Inr family \<Rightarrow> act (pg (q_RevokeRefreshFamily family)))"

definition Logout_prog :: "AuthSvc \<Rightarrow> string \<Rightarrow> string \<Rightarrow> instant \<Rightarrow> unit prog" where
  "Logout_prog s presentedRefresh accessJTI accessExpiresAt =
     pattempt (RevokeRefreshFamilyByHash_prog (hashSecret s presentedRefresh)) (\<lambda>r.
       case r of
         Inl err \<Rightarrow> if err \<noteq> ErrRefreshNotFound then pfail err
                    else if accessJTI \<noteq> '''' then act (RevokeAccessToken accessJTI accessExpiresAt) else pret ()
       | Inr _ \<Rightarrow> if accessJTI \<noteq> '''' then act (RevokeAccessToken accessJTI accessExpiresAt) else pret ())"

lemma run_gather: "run (gatherInto_prog held sources uid) = gatherInto held sources uid"
  by (induction sources arbitrary: held) (simp_all add: run_rules del: run.simps)

lemma run_mint: "run (mint_prog s jti user idn secret e) = mint s jti user idn secret e"
  unfolding mint_prog_def mint_def run_rules run_gather by (rule refl)

lemma run_session_service:
  "run (IssueSession_prog s secret nid jti uid) = IssueSession s secret nid jti uid"
  "run (Refresh_prog s secret nid jti presented) = Refresh s secret nid jti presented"
  "run (Logout_prog s presented jti t) = Logout s presented jti t"
  unfolding IssueSession_prog_def IssueSession_def Refresh_prog_def Refresh_def Logout_prog_def Logout_def RevokeRefreshFamilyByHash_prog_def
    RevokeRefreshFamilyByHash_def Let_def run_rules run_mint
  by (rule refl)+

section \<open>Resolvers\<close>

definition newPendingUser_prog :: "Fresh \<Rightarrow> string prog" where
  "newPendingUser_prog fr =
     pbind (act (CreateUser (fr_ID fr) (fr_Handle fr) ''New User'' '''' False)) (\<lambda>_.
     pbind (act (CreateIdentityRecord (fr_ID fr))) (\<lambda>_.
     pret (fr_ID fr)))"

definition emailResolve_prog :: "Fresh \<Rightarrow> Principal \<Rightarrow> string \<Rightarrow> string prog" where
  "emailResolve_prog fr p currentUserID =
     pattempt (act (GetEmailIdentity (pp_Subject p))) (\<lambda>r. case r of
       Inr e \<Rightarrow> pattempt (act (TouchEmailLogin (pp_Subject p))) (\<lambda>_. pret (ei_UserID e))
     | Inl err \<Rightarrow>
         if err \<noteq> ErrNoRows then pfail err
         else pbind (newPendingUser_prog fr) (\<lambda>uid.
              pbind (act (LinkEmailIdentity (pp_Subject p) uid)) (\<lambda>_. pret uid)))"

definition phoneResolve_prog :: "Fresh \<Rightarrow> Principal \<Rightarrow> string \<Rightarrow> string prog" where
  "phoneResolve_prog fr p currentUserID =
     pattempt (act (GetPhoneIdentity (pp_Subject p))) (\<lambda>r. case r of
       Inr existing \<Rightarrow>
         if currentUserID \<noteq> '''' \<and> currentUserID \<noteq> pi_UserID existing then pfail ErrPhoneConflict
         else pattempt (act (TouchPhoneLogin (pp_Subject p))) (\<lambda>_. pret (pi_UserID existing))
     | Inl err \<Rightarrow>
         if err \<noteq> ErrNoRows then pfail err
         else if currentUserID \<noteq> '''' then
           pbind (act (LinkPhoneIdentity (pp_Subject p) currentUserID)) (\<lambda>_. pret currentUserID)
         else pbind (newPendingUser_prog fr) (\<lambda>uid.
              pbind (act (LinkPhoneIdentity (pp_Subject p) uid)) (\<lambda>_. pret uid)))"

definition federatedResolve_prog :: "Fresh \<Rightarrow> Principal \<Rightarrow> string \<Rightarrow> string prog" where
  "federatedResolve_prog fr p currentUserID =
     pattempt (act (GetFederatedIdentity (pp_Provider p) (pp_Subject p))) (\<lambda>r. case r of
       Inr fed \<Rightarrow> pattempt (act (TouchFederatedLogin (pp_Provider p) (pp_Subject p))) (\<lambda>_. pret (fi_UserID fed))
     | Inl err \<Rightarrow>
         if err \<noteq> ErrNoRows then pfail err
         else pbind (newPendingUser_prog fr) (\<lambda>uid.
              pbind (act (LinkFederatedIdentity (pp_Provider p) (pp_Subject p) uid)) (\<lambda>_. pret uid)))"

fun resolver_prog :: "PrincipalKind \<Rightarrow> Fresh \<Rightarrow> Principal \<Rightarrow> string \<Rightarrow> string prog" where
  "resolver_prog PrincipalEmail = emailResolve_prog"
| "resolver_prog PrincipalPhone = phoneResolve_prog"
| "resolver_prog PrincipalFederated = federatedResolve_prog"

text \<open>For an authenticator with the resolvers the code registers.\<close>

definition Authenticate_prog :: "Authenticator \<Rightarrow> Fresh \<Rightarrow> Principal \<Rightarrow> string \<Rightarrow> AuthSession prog" where
  "Authenticate_prog a fr p currentUserID =
     (case au_resolvers a (pp_Kind p) of
        None \<Rightarrow> pfail ErrUnknownAuthMethod
      | Some _ \<Rightarrow>
          pbind (resolver_prog (pp_Kind p) fr p currentUserID) (\<lambda>uid.
          IssueSession_prog (au_sessions a) (fr_Secret fr) (fr_TokenID fr) (fr_JTI fr) uid))"

definition Complete_prog :: "Federation \<Rightarrow> Fresh \<Rightarrow> string \<Rightarrow> string \<Rightarrow> string \<Rightarrow> AuthSession prog" where
  "Complete_prog f fr provider code secret =
     (case fd_connectors f provider of
        None \<Rightarrow> pfail ErrUnknownProvider
      | Some c \<Rightarrow>
          (case c code secret of
             Inl _ \<Rightarrow> pfail ErrUnauthenticated
           | Inr subject \<Rightarrow>
               if subject = '''' then pfail ErrUnauthenticated
               else Authenticate_prog (fd_authn f) fr
                      \<lparr>pp_Kind = PrincipalFederated, pp_Provider = provider, pp_Subject = subject\<rparr> ''''))"

lemma run_newPendingUser: "run (newPendingUser_prog fr) = newPendingUser fr"
  unfolding newPendingUser_prog_def newPendingUser_def run_rules by (rule refl)

lemma run_resolver: "run (resolver_prog kind fr p cur) = resolver_of kind fr p cur"
  by (cases kind; simp only: resolver_prog.simps resolver_of.simps emailResolve_prog_def emailResolve_def phoneResolve_prog_def phoneResolve_def
      federatedResolve_prog_def federatedResolve_def run_rules run_newPendingUser)

lemma run_Authenticate: "wired a \<Longrightarrow> run (Authenticate_prog a fr p cur) = Authenticate a fr p cur"
  unfolding Authenticate_prog_def Authenticate_def wired_def
  by (cases "au_resolvers a (pp_Kind p)") (auto simp: run_rules run_resolver run_session_service simp del: run.simps)

lemma run_Complete: "wired (fd_authn f) \<Longrightarrow> run (Complete_prog f fr provider code secret) = Complete f fr provider code secret"
  unfolding Complete_prog_def Complete_def by (simp add: run_Authenticate run_rules del: run.simps split: option.split sum.split)

section \<open>Accounts and classes\<close>

definition LogoutEverywhere_prog :: "string \<Rightarrow> unit prog" where
  "LogoutEverywhere_prog uid =
     pbind (act (pg (q_RevokeAllRefreshTokens uid))) (\<lambda>_. pbind (act (pg (q_BumpTokenVersion uid))) (\<lambda>_. pret ()))"

definition identity_Begin_prog :: "IdentitySvc \<Rightarrow> string \<Rightarrow> string \<Rightarrow> StartResult prog" where
  "identity_Begin_prog s uid region =
     (case providerFor s region of
        None \<Rightarrow> pfail ErrNoProvider
      | Some v \<Rightarrow>
          pbind (act (CreateIdentityRecord uid)) (\<lambda>_.
            case v uid of
              Inl err \<Rightarrow> pfail err
            | Inr res \<Rightarrow> pbind (act (SetIdentityVerificationPending uid)) (\<lambda>_. pret res)))"

definition identity_Apply_prog :: "Result \<Rightarrow> unit prog" where
  "identity_Apply_prog r =
     (if \<not> re_Approved r then pfail ErrNotApproved
      else if \<not> re_IsAdult r then pfail ErrUnderage
      else pbind (act goNow) (\<lambda>now.
        let retain = (case re_RetainUntil r of None \<Rightarrow> now + defaultRetention | Some t \<Rightarrow> t)
        in pbind (act (VerifyAdultIdentity (re_UserID r) (re_ProviderRef r) retain)) (\<lambda>_. act (ActivateUser (re_UserID r)))))"

definition identity_AcceptToS_prog :: "string \<Rightarrow> string \<Rightarrow> bool \<Rightarrow> unit prog" where
  "identity_AcceptToS_prog uid version adultAttested =
     (if version = '''' then pfail (Err ''identity: tos version required'')
      else pbind (act (AcceptToS uid version adultAttested)) (\<lambda>_.
        if \<not> adultAttested then pret () else act (ActivateUser uid)))"

definition Bootstrap_prog :: "string \<Rightarrow> BootstrapParams \<Rightarrow> string prog" where
  "Bootstrap_prog newid p =
     (if bp_Handle p = '''' \<or> bp_DisplayName p = '''' then pfail (Err ''admin: handle and display name are required'')
      else let uid = if bp_UserID p = '''' then newid else bp_UserID p in
        pbind (act (UserExists uid)) (\<lambda>ex.
        pbind (if \<not> ex then pbind (act (CreateUser uid (bp_Handle p) (bp_DisplayName p) '''' False)) (\<lambda>_. pret ()) else pret ()) (\<lambda>_.
        pbind (act (CreateIdentityRecord uid)) (\<lambda>_.
        pbind (act goNow) (\<lambda>now.
        let retain = (case bp_RetainUntil p of None \<Rightarrow> now + defaultRetention | Some t \<Rightarrow> t);
            ref = if bp_ProviderRef p = '''' then ''operator-bootstrap'' else bp_ProviderRef p
        in pbind (act (VerifyAdultIdentity uid ref retain)) (\<lambda>_.
           pbind (act (PromoteToModerator uid)) (\<lambda>_.
           pbind (act (ActivateUser uid)) (\<lambda>_. pret uid))))))))"

definition requireOwner_prog :: "string \<Rightarrow> string \<Rightarrow> unit prog" where
  "requireOwner_prog uid cid =
     pattempt (act (GetClass cid)) (\<lambda>r. case r of
       Inl _ \<Rightarrow> pfail class_ErrNotFound
     | Inr c \<Rightarrow> if c_InstructorID c \<noteq> uid then pfail class_ErrForbidden else pret ())"

definition SetStatus_prog :: "AccessTokenClaims \<Rightarrow> string \<Rightarrow> string \<Rightarrow> unit prog" where
  "SetStatus_prog claims cid status =
     (if status \<notin> validStatuses then pfail ErrBadStatus
      else pbind (requireOwner_prog (Subject claims) cid) (\<lambda>_. act (UpdateClassStatus cid status)))"

definition SetCapacity_prog :: "AccessTokenClaims \<Rightarrow> string \<Rightarrow> int \<Rightarrow> unit prog" where
  "SetCapacity_prog claims cid capacity =
     (if capacity < 0 then pfail ErrBadCapacity
      else pbind (requireOwner_prog (Subject claims) cid) (\<lambda>_. act (SetClassCapacity cid capacity)))"

definition Checkpoint_prog :: "PresenceSvc \<Rightarrow> string \<Rightarrow> bool prog" where
  "Checkpoint_prog svc nid =
     pbind (act LatestPresenceCheckpointSeq) (\<lambda>latest.
     pbind (act (PresenceEventsAfter latest (ps_batch svc))) (\<lambda>evs.
       if length evs = 0 then pret False
       else let root = Root (sha256 (ps_store svc)) (map leafBytes evs)
            in pbind (act (WritePresenceCheckpoint (ps_store svc) nid root (pe_Seq (hd evs)) (pe_Seq (last evs)) (int (length evs))))
                 (\<lambda>_. pret True)))"

lemma run_accounts:
  "run (LogoutEverywhere_prog uid) = LogoutEverywhere uid"
  "run (identity_Begin_prog ids uid region) = identity_Begin ids uid region"
  "run (identity_Apply_prog r) = identity_Apply r"
  "run (identity_AcceptToS_prog uid version adult) = identity_AcceptToS uid version adult"
  "run (Bootstrap_prog nid p) = Bootstrap nid p"
  unfolding LogoutEverywhere_prog_def LogoutEverywhere_def RevokeAllSessions_def identity_Begin_prog_def identity_Begin_def
    identity_Apply_prog_def identity_Apply_def identity_AcceptToS_prog_def identity_AcceptToS_def Bootstrap_prog_def Bootstrap_def Let_def run_rules
  by (rule refl)+

lemma run_owner: "run (requireOwner_prog uid cid) = requireOwner uid cid"
  unfolding requireOwner_prog_def requireOwner_def run_rules by (rule refl)

lemma run_classes:
  "run (SetStatus_prog claims cid status) = SetStatus claims cid status"
  "run (SetCapacity_prog claims cid capacity) = SetCapacity claims cid capacity"
  "run (Checkpoint_prog psvc nid) = Checkpoint psvc nid"
  unfolding SetStatus_prog_def SetStatus_def SetCapacity_prog_def SetCapacity_def Checkpoint_prog_def Checkpoint_def Let_def run_rules run_owner
  by (rule refl)+

text \<open>All of them, any number at a time.\<close>

definition account_ops :: "Store \<Rightarrow> unit prog set" where
  "account_ops st = {pbind (IssueSession_prog a secret nid jti uid) (\<lambda>_. pret ()) |a secret nid jti uid. reading_sources a}
     \<union> {pbind (Refresh_prog a secret nid jti presented) (\<lambda>_. pret ()) |a secret nid jti presented. reading_sources a}
     \<union> {Logout_prog a presented jti t |a presented jti t. True}
     \<union> {pbind (Complete_prog f fr provider code secret) (\<lambda>_. pret ()) |f fr provider code secret. wired (fd_authn f)}
     \<union> {LogoutEverywhere_prog uid |uid. True}
     \<union> {pbind (identity_Begin_prog ids uid region) (\<lambda>_. pret ()) |ids uid region. True}
     \<union> {identity_Apply_prog r |r. True} \<union> {identity_AcceptToS_prog uid version attested |uid version attested. True}
     \<union> {pbind (Bootstrap_prog nid bp) (\<lambda>_. pret ()) |nid bp. True}
     \<union> {SetStatus_prog claims cid status |claims cid status. True} \<union> {SetCapacity_prog claims cid capacity |claims cid capacity. True}
     \<union> {pbind (Checkpoint_prog psvc nid) (\<lambda>_. pret ()) |psvc nid. ps_store psvc = st}"

lemma all_keep_gather:
  assumes "\<forall>src \<in> set sources. \<forall>uid w. w_db (snd (src uid w)) = w_db w"
  shows "all_keep J (gatherInto_prog held sources uid)"
  using assms
proof (induction sources arbitrary: held)
  case (Cons src sources)
  then have "keeps J (src uid)" by (simp add: keeps_def)
  then show ?case using Cons by (simp add: all_keep_rules)
qed simp

lemmas login_progs = Authenticate_prog_def IssueSession_prog_def mint_prog_def Let_def
lemmas resolver_progs = resolver_prog.simps emailResolve_prog_def phoneResolve_prog_def federatedResolve_prog_def newPendingUser_prog_def
lemmas login_statements = GetUser_def GetIdentity_def IssueRefreshToken_def CurrentTokenVersion_def HasAdultAttestation_def HasVerifiedPhone_def
lemmas resolver_statements = GetEmailIdentity_def TouchEmailLogin_def LinkEmailIdentity_def GetPhoneIdentity_def TouchPhoneLogin_def
  LinkPhoneIdentity_def GetFederatedIdentity_def TouchFederatedLogin_def LinkFederatedIdentity_def CreateUser_def CreateIdentityRecord_def

section \<open>A suspension during a login\<close>

text \<open>The comments promise that a suspension revokes all sessions of the account immediately. A login that has read the status before, and reads the
  token version after, ends with an access token of the new version: it is current, though the account is suspended.\<close>

lemma suspended_mid_login:
  "let login = pbind (IssueSession_prog demo_sessions ''s'' ''n'' ''j'' ''u1'') (\<lambda>ses. pret (TokenVersion (se_AccessClaims ses)));
       suspend = pbind (act (Suspend demo_store (demo_claims\<lparr>Subject := ''m1'', Capabilities := [CapPlatformModerator]\<rparr>) ''u1'')) (\<lambda>_. pret 0);
       (ps, w) = schedule [0, 1, 0, 0, 0, 0, 0, 0, 0] ([login, suspend], demo_world (empty_db\<lparr>users := [demo_user ''u1''], identity_vault := [demo_vault]\<rparr>))
   in ps = [pret 2, pret 0] \<and> map (\<lambda>u. (u_Status u, u_TokenVersion u)) (users (w_db w)) = [(''suspended'', 2)]"
  by (simp add: schedule_def act_def pbind_def IssueSession_prog_def mint_prog_def demo_world_def empty_db_def demo_user_def demo_vault_def demo_sessions_def
      demo_claims_def GetUser_def q_GetUser_def GetIdentity_def q_GetIdentity_def io_defs canHoldSession_def IssueRefreshToken_def q_IssueRefreshToken_def
      hashSecret_def CurrentTokenVersion_def q_CurrentTokenVersion_def HasAdultAttestation_def q_HasAdultAttestation_def HasVerifiedPhone_def
      q_HasVerifiedPhone_def MintAccess_def Let_def Sign_def demo_signer_def user_exists_def calm_def Suspend_def HasCapability_def SuspendUserAudited_def
      inAuditTx_def in_tx_def demo_store_def mod_input_def q_SuspendUser_def q_RevokeAllRefreshTokens_def q_BumpTokenVersion_def update_user_def
      appendAuditTx_def advisory_lock_def q_audit_tail_def sign_and_insert_def q_insert_audit_def audit_entry_def latest_by_def)

end
