(* ===== verification/CodeRaces.thy ===== *)
theory CodeRaces
  imports AccountRaces
begin

text \<open>
  One-time codes (\<^verbatim>\<open>internal/auth/emaillogin.go\<close>, \<^verbatim>\<open>phonelogin.go\<close>, \<^verbatim>\<open>stepup.go\<close>) at the grain of their statements. A verification reads the challenge,
  compares, and counts or consumes in a later statement, so verifications that run at the same time see one count of attempts. The count is
  overrun by at most \<open>k - 1\<close> with \<open>k\<close> under way; a right code, in contrast, may pass more than once.
\<close>

section \<open>The operations\<close>

definition otp_check_prog :: "(bytes \<Rightarrow> bytes) \<Rightarrow> Challenge io \<Rightarrow> (string \<Rightarrow> unit io) \<Rightarrow> (string \<Rightarrow> unit io) \<Rightarrow> string \<Rightarrow> unit prog" where
  "otp_check_prog H get increment burn code =
     pattempt (act get) (\<lambda>r. case r of
       Inl _ \<Rightarrow> pfail ErrInvalidCode
     | Inr ch \<Rightarrow>
         if ch_Attempts ch \<ge> maxCodeAttempts then pfail ErrInvalidCode
         else if ch_CodeHash ch \<noteq> H code then pattempt (act (increment (ch_ID ch))) (\<lambda>_. pfail ErrInvalidCode)
         else act (burn (ch_ID ch)))"

definition otp_cooling_prog :: "Challenge io \<Rightarrow> bool prog" where
  "otp_cooling_prog get =
     pattempt (act get) (\<lambda>r. case r of
       Inr active \<Rightarrow> pbind (act goNow) (\<lambda>now. pret (now - ch_CreatedAt active < resendCooldown))
     | Inl err \<Rightarrow> if err = ErrNoRows then pret False else pfail err)"

definition email_VerifyCode_prog :: "EmailLogin \<Rightarrow> Fresh \<Rightarrow> string \<Rightarrow> string \<Rightarrow> AuthSession prog" where
  "email_VerifyCode_prog e fr rawEmail code =
     (case normalizeEmail (el_parseAddress e) rawEmail of
        Inl _ \<Rightarrow> pfail ErrInvalidCode
      | Inr email \<Rightarrow>
          pbind (otp_check_prog (hashSecret (au_sessions (el_authn e))) (GetActiveLoginChallenge email)
                   IncrementLoginChallengeAttempts ConsumeLoginChallenge code) (\<lambda>_.
          Authenticate_prog (el_authn e) fr \<lparr>pp_Kind = PrincipalEmail, pp_Provider = '''', pp_Subject = email\<rparr> ''''))"

definition phone_VerifyCode_prog :: "PhoneLogin \<Rightarrow> Fresh \<Rightarrow> string \<Rightarrow> string \<Rightarrow> string \<Rightarrow> AuthSession prog" where
  "phone_VerifyCode_prog p fr rawPhone code currentUserID =
     (case normalizeE164 rawPhone of
        Inl _ \<Rightarrow> pfail ErrInvalidCode
      | Inr phone \<Rightarrow>
          pbind (otp_check_prog (hashSecret (au_sessions (pl_authn p))) (GetActivePhoneChallenge phone)
                   IncrementPhoneChallengeAttempts ConsumePhoneChallenge code) (\<lambda>_.
          Authenticate_prog (pl_authn p) fr \<lparr>pp_Kind = PrincipalPhone, pp_Provider = '''', pp_Subject = phone\<rparr> currentUserID))"

definition email_RequestCode_prog :: "EmailLogin \<Rightarrow> string \<Rightarrow> string \<Rightarrow> string \<Rightarrow> unit prog" where
  "email_RequestCode_prog e cid code rawEmail =
     (case normalizeEmail (el_parseAddress e) rawEmail of
        Inl err \<Rightarrow> pfail err
      | Inr email \<Rightarrow>
          pbind (otp_cooling_prog (GetActiveLoginChallenge email)) (\<lambda>cooling.
            if cooling then pret ()
            else pbind (act goNow) (\<lambda>now.
                 pbind (act (CreateLoginChallenge cid email (hashSecret (au_sessions (el_authn e)) code) (now + codeTTL))) (\<lambda>_.
                 act (send_code (el_sender e) email code)))))"

definition phone_RequestCode_prog :: "PhoneLogin \<Rightarrow> string \<Rightarrow> string \<Rightarrow> string \<Rightarrow> unit prog" where
  "phone_RequestCode_prog p cid code rawPhone =
     (case normalizeE164 rawPhone of
        Inl err \<Rightarrow> pfail err
      | Inr phone \<Rightarrow>
          pbind (otp_cooling_prog (GetActivePhoneChallenge phone)) (\<lambda>cooling.
            if cooling then pret ()
            else pbind (act goNow) (\<lambda>now.
                 pbind (act (CreatePhoneChallenge cid phone (hashSecret (au_sessions (pl_authn p)) code) (now + codeTTL))) (\<lambda>_.
                 act (send_code (pl_sender p) phone code)))))"

text \<open>The step-up flow, over the same challenges.\<close>

definition GetIdentityFactors_prog :: "string \<Rightarrow> IdentityFactors prog" where
  "GetIdentityFactors_prog uid =
     pbind (act (pg (\<lambda>now d. Inr ((map_option ei_Email (first_row (\<lambda>r. ei_UserID r = uid) (email_identities d)),
                                    map_option pi_Phone (first_row (\<lambda>r. pi_UserID r = uid) (phone_identities d))), d))))
       (\<lambda>(email, phone).
     pbind (act (pg (\<lambda>now d. Inr (sort_strings (map fi_Provider
              (select_rows (\<lambda>r. fi_UserID r = uid) (federated_identities d))), d)))) (\<lambda>fed.
     pret \<lparr>if_Email = email, if_Phone = phone, if_Federated = fed\<rparr>))"

definition stepup_RequestCode_prog :: "StepUpSvc \<Rightarrow> string \<Rightarrow> string \<Rightarrow> string \<Rightarrow> RequestResult prog" where
  "stepup_RequestCode_prog s cid code uid =
     pbind (GetIdentityFactors_prog uid) (\<lambda>factors.
       case pickChannel s factors of
         None \<Rightarrow> pfail ErrStepUpUnavailable
       | Some ch \<Rightarrow>
           if cl_kind ch = ''phone'' then
             pbind (otp_cooling_prog (GetActivePhoneChallenge (cl_target ch))) (\<lambda>cooling.
               if cooling then pret \<lparr>rr_Channel = cl_kind ch, rr_Hint = maskPhone (cl_target ch)\<rparr>
               else pbind (act goNow) (\<lambda>now.
                 pbind (act (CreatePhoneChallenge cid (cl_target ch) (su_hash s code) (now + codeTTL))) (\<lambda>_.
                 pbind (act (send_code (the (su_sms s)) (cl_target ch) code)) (\<lambda>_.
                 pret \<lparr>rr_Channel = cl_kind ch, rr_Hint = maskPhone (cl_target ch)\<rparr>))))
           else
             pbind (otp_cooling_prog (GetActiveLoginChallenge (cl_target ch))) (\<lambda>cooling.
               if cooling then pret \<lparr>rr_Channel = cl_kind ch, rr_Hint = maskEmail (cl_target ch)\<rparr>
               else pbind (act goNow) (\<lambda>now.
                 pbind (act (CreateLoginChallenge cid (cl_target ch) (su_hash s code) (now + codeTTL))) (\<lambda>_.
                 pbind (act (send_code (the (su_email s)) (cl_target ch) code)) (\<lambda>_.
                 pret \<lparr>rr_Channel = cl_kind ch, rr_Hint = maskEmail (cl_target ch)\<rparr>)))))"

definition check_channel_prog :: "StepUpSvc \<Rightarrow> channel \<Rightarrow> string \<Rightarrow> unit prog" where
  "check_channel_prog s ch code =
     (if cl_kind ch = ''phone''
      then otp_check_prog (su_hash s) (GetActivePhoneChallenge (cl_target ch)) IncrementPhoneChallengeAttempts ConsumePhoneChallenge code
      else otp_check_prog (su_hash s) (GetActiveLoginChallenge (cl_target ch)) IncrementLoginChallengeAttempts ConsumeLoginChallenge code)"

definition stepup_Verify_prog :: "StepUpSvc \<Rightarrow> string \<Rightarrow> string \<Rightarrow> string \<Rightarrow> string \<Rightarrow> (string \<times> instant) prog" where
  "stepup_Verify_prog s raw gid uid code =
     pbind (GetIdentityFactors_prog uid) (\<lambda>factors.
       case pickChannel s factors of
         None \<Rightarrow> pfail ErrStepUpUnavailable
       | Some ch \<Rightarrow>
           pbind (check_channel_prog s ch code) (\<lambda>_.
           pbind (act goNow) (\<lambda>now.
           pbind (act (CreateStepUpGrant gid uid (su_hash s raw) (now + stepUpTTL))) (\<lambda>_.
           pret (raw, now + stepUpTTL)))))"

lemma run_otp:
  "run (otp_check_prog H get increment burn code) = otp_check H get increment burn code"
  "run (otp_cooling_prog get) = otp_cooling get"
  unfolding otp_check_prog_def otp_check_def otp_cooling_prog_def otp_cooling_def run_rules by (rule refl)+

lemma run_code_requests:
  "run (email_RequestCode_prog e cid code addr) = email_RequestCode e cid code addr"
  "run (phone_RequestCode_prog p cid code num) = phone_RequestCode p cid code num"
  unfolding email_RequestCode_prog_def email_RequestCode_def phone_RequestCode_prog_def phone_RequestCode_def run_rules run_otp by (rule refl)+

lemma run_code_logins:
  "wired (el_authn e) \<Longrightarrow> run (email_VerifyCode_prog e fr addr code) = email_VerifyCode e fr addr code"
  "wired (pl_authn p) \<Longrightarrow> run (phone_VerifyCode_prog p fr num code cur) = phone_VerifyCode p fr num code cur"
  unfolding email_VerifyCode_prog_def email_VerifyCode_def phone_VerifyCode_prog_def phone_VerifyCode_def
  by (simp_all add: run_rules run_otp run_Authenticate del: run.simps split: sum.split)

lemma run_factors: "run (GetIdentityFactors_prog uid) = GetIdentityFactors uid"
  unfolding GetIdentityFactors_prog_def GetIdentityFactors_def run_rules by (rule refl)

lemma run_stepup:
  "run (stepup_RequestCode_prog s cid code uid) = stepup_RequestCode s cid code uid"
  "run (stepup_Verify_prog s raw gid uid code) = stepup_Verify s raw gid uid code"
  unfolding stepup_RequestCode_prog_def stepup_RequestCode_def stepup_Verify_prog_def stepup_Verify_def check_channel_prog_def check_channel_def
    run_rules run_otp run_factors by (rule refl)+

section \<open>Counting attempts\<close>

text \<open>A verification that has read a challenge below its limit has a claim on it, until it has counted.\<close>

definition attempts_ok :: "nat \<Rightarrow> Challenge list \<Rightarrow> string option list \<Rightarrow> bool" where
  "attempts_ok k cs gs \<longleftrightarrow> distinct (map ch_ID cs) \<and> length gs \<le> k
     \<and> (\<forall>c \<in> set cs. ch_Attempts c + int (count_list gs (Some (ch_ID c))) < maxCodeAttempts + int k)"

lemma attempts_weaken:
  assumes "attempts_ok k cs gs" "length hs \<le> k" "\<And>x. count_list hs (Some x) \<le> count_list gs (Some x)"
  shows "attempts_ok k cs hs"
  using assms unfolding attempts_ok_def by (meson add_left_mono le_less_trans of_nat_mono)

lemma attempts_claim:
  assumes "attempts_ok k cs (gs @ g # hs)" "ch \<in> set cs" "ch_Attempts ch < maxCodeAttempts"
  shows "attempts_ok k cs (gs @ Some (ch_ID ch) # hs)"
  unfolding attempts_ok_def
proof (intro conjI ballI)
  show "distinct (map ch_ID cs)" and len: "length (gs @ Some (ch_ID ch) # hs) \<le> k" using assms(1) by (simp_all add: attempts_ok_def)
  fix c assume c: "c \<in> set cs"
  show "ch_Attempts c + int (count_list (gs @ Some (ch_ID ch) # hs) (Some (ch_ID c))) < maxCodeAttempts + int k"
  proof (cases "ch_ID c = ch_ID ch")
    case True
    then have "c = ch" using assms(1,2) c by (metis attempts_ok_def distinct_map inj_onD)
    moreover have "count_list (gs @ Some (ch_ID ch) # hs) (Some (ch_ID c)) \<le> k"
      using count_le_length [of "gs @ Some (ch_ID ch) # hs"] len by (meson le_trans)
    ultimately show ?thesis using assms(3) by fastforce
  next
    case False
    then show ?thesis using assms(1) c by (fastforce simp: attempts_ok_def split: if_splits)
  qed
qed

lemma attempts_count: "attempts_ok k cs (gs @ Some x # hs) \<Longrightarrow> attempts_ok k (count_attempt x cs) (gs @ None # hs)"
  unfolding attempts_ok_def count_attempt_ids by (fastforce simp: count_attempt_map)

lemma attempts_consume: "attempts_ok k cs gs \<Longrightarrow> attempts_ok k (consume x t cs) gs"
  unfolding attempts_ok_def consume_ids by (auto simp: consume_def in_set_update_rows)

lemma attempts_new:
  assumes "attempts_ok k cs gs" "\<not> exists_row (\<lambda>c. ch_ID c = i) cs"
  shows "attempts_ok k (cs @ [new_challenge i a h e t]) gs"
proof -
  have "count_list gs (Some i) \<le> k" using count_le_length [of gs "Some i"] assms(1) by (simp add: attempts_ok_def)
  then show ?thesis using assms by (auto simp: attempts_ok_def new_challenge_def maxCodeAttempts_def list_ex_iff)
qed

section \<open>The check, over any challenge table\<close>

context otp_table begin

lemma get_reads: "keeps I (get a)"
  unfolding get by (rule keeps_pg) (auto simp: stmt_keeps_def dest: row_InrD)

lemma guarded_burn: "guarded (act (burn cid)) k (\<lambda>d. attempts_ok k (challenges d)) g (\<lambda>_ _. True)"
  by (rule guarded_quiet) (auto simp: burn stmt_keeps_def attempts_consume intro!: keeps_pg)

lemma guarded_increment: "guarded (act (increment cid)) k (\<lambda>d. attempts_ok k (challenges d)) (Some cid) (\<lambda>_ _. True)"
proof (rule guarded_act)
  fix w r and w' :: world assume m: "increment cid w = (r, w')"
  have "attempts_ok k (challenges (w_db w')) (gs @ None # hs)" if "attempts_ok k (challenges (w_db w)) (gs @ Some cid # hs)" for gs hs
  proof -
    have weak: "attempts_ok k (challenges (w_db w)) (gs @ None # hs)" using that by (rule attempts_weaken) (use that in \<open>auto simp: attempts_ok_def\<close>)
    have "w_db w' = w_db w \<or> w_db w' = put (count_attempt cid (challenges (w_db w))) (w_db w)"
      using pg_outcome [OF m [unfolded increment]] by (auto split: if_splits)
    then show ?thesis using weak attempts_count [OF that] by auto
  qed
  then show "\<exists>g'. ghost_step k (\<lambda>d. attempts_ok k (challenges d)) (w_db w) (Some cid) (w_db w') g' \<and> True" unfolding ghost_step_def by blast
qed

lemma guarded_otp_check:
  "guarded (otp_check_prog H (get a) increment burn code) k (\<lambda>d. attempts_ok k (challenges d)) None (\<lambda>_ _. True)"
  unfolding otp_check_prog_def
proof (rule guarded_pattempt, rule guarded_read [OF get_reads])
  let ?J = "\<lambda>d. attempts_ok k (challenges d)"
  fix w r and w' :: world assume m: "get a w = (r, w')"
  let ?then = "\<lambda>r. case r of Inl _ \<Rightarrow> pfail ErrInvalidCode
     | Inr ch \<Rightarrow>
         if ch_Attempts ch \<ge> maxCodeAttempts then pfail ErrInvalidCode
         else if ch_CodeHash ch \<noteq> H code then pattempt (act (increment (ch_ID ch))) (\<lambda>_. pfail ErrInvalidCode)
         else act (burn (ch_ID ch))"
  show "\<exists>g'. ghost_step k ?J (w_db w) None (w_db w) g' \<and> guarded (?then r) k ?J g' (\<lambda>_ _. True)"
  proof (cases "\<exists>ch. r = Inr ch \<and> ch_Attempts ch < maxCodeAttempts")
    case True
    then obtain ch where ch: "r = Inr ch" "ch_Attempts ch < maxCodeAttempts" by blast
    have "ch \<in> set (challenges (w_db w))"
      using row_InrD [OF pg_runD(1) [OF m [unfolded get ch(1)]]] active_challengeD(1) by auto
    then have "ghost_step k ?J (w_db w) None (w_db w) (Some (ch_ID ch))" using attempts_claim ch(2) unfolding ghost_step_def by blast
    moreover have "guarded (?then r) k ?J (Some (ch_ID ch)) (\<lambda>_ _. True)"
      using ch by (auto intro!: guarded_burn guarded_pattempt guarded_mono [OF guarded_increment])
    ultimately show ?thesis by blast
  next
    case False
    then have "guarded (?then r) k ?J None (\<lambda>_ _. True)" by (cases r) auto
    then show ?thesis by (intro exI [of _ None] conjI ghost_step_refl)
  qed
qed

end

section \<open>The flows\<close>

text \<open>What authenticates leaves the challenges alone, and each table the other.\<close>

lemma stmt_challenges_quiet:
  "stmt_keeps (\<lambda>d. P (login_challenges d) (phone_challenges d)) (q_GetEmailIdentity a)"
  "stmt_keeps (\<lambda>d. P (login_challenges d) (phone_challenges d)) (q_GetPhoneIdentity a)"
  "stmt_keeps (\<lambda>d. P (login_challenges d) (phone_challenges d)) (q_GetFederatedIdentity b a)"
  "stmt_keeps (\<lambda>d. P (login_challenges d) (phone_challenges d)) (q_TouchEmailLogin a)"
  "stmt_keeps (\<lambda>d. P (login_challenges d) (phone_challenges d)) (q_TouchPhoneLogin a)"
  "stmt_keeps (\<lambda>d. P (login_challenges d) (phone_challenges d)) (q_TouchFederatedLogin b a)"
  "stmt_keeps (\<lambda>d. P (login_challenges d) (phone_challenges d)) (q_LinkEmailIdentity a u)"
  "stmt_keeps (\<lambda>d. P (login_challenges d) (phone_challenges d)) (q_LinkPhoneIdentity a u)"
  "stmt_keeps (\<lambda>d. P (login_challenges d) (phone_challenges d)) (q_LinkFederatedIdentity b a u)"
  "stmt_keeps (\<lambda>d. P (login_challenges d) (phone_challenges d)) (q_CreateUser a b' c e f)"
  "stmt_keeps (\<lambda>d. P (login_challenges d) (phone_challenges d)) (q_CreateIdentityRecord a)"
  "stmt_keeps (\<lambda>d. P (login_challenges d) (phone_challenges d)) (q_GetUser a)"
  "stmt_keeps (\<lambda>d. P (login_challenges d) (phone_challenges d)) (q_GetIdentity a)"
  "stmt_keeps (\<lambda>d. P (login_challenges d) (phone_challenges d)) (q_IssueRefreshToken a b' c x t)"
  "stmt_keeps (\<lambda>d. P (login_challenges d) (phone_challenges d)) (q_CurrentTokenVersion a)"
  "stmt_keeps (\<lambda>d. P (login_challenges d) (phone_challenges d)) (q_HasAdultAttestation a)"
  "stmt_keeps (\<lambda>d. P (login_challenges d) (phone_challenges d)) (q_HasVerifiedPhone a)"
  by (auto simp: stmt_keeps_def q_GetEmailIdentity_def q_GetPhoneIdentity_def q_GetFederatedIdentity_def q_TouchEmailLogin_def
      q_TouchPhoneLogin_def q_TouchFederatedLogin_def q_LinkEmailIdentity_def q_LinkPhoneIdentity_def q_LinkFederatedIdentity_def
      q_CreateUser_def q_CreateIdentityRecord_def q_GetUser_def q_GetIdentity_def q_IssueRefreshToken_def q_CurrentTokenVersion_def
      q_HasAdultAttestation_def q_HasVerifiedPhone_def Let_def split: if_splits dest!: row_InrD)

lemma all_keep_challenges:
  assumes "wired a"
  shows "all_keep (\<lambda>d. P (login_challenges d) (phone_challenges d)) (Authenticate_prog a fr p cur)"
proof -
  note rules = all_keep_rules keeps_rules keeps_MintAccess stmt_challenges_quiet
  have "all_keep (\<lambda>d. P (login_challenges d) (phone_challenges d)) (resolver_prog kind fr p cur)" for kind
    by (cases kind; simp only: resolver_progs resolver_statements; intro rules)
  then show ?thesis
    using assms unfolding login_progs login_statements wired_def reading_sources_def by (intro rules all_keep_gather) auto
qed

lemma guarded_quiet_act: "(\<And>gs. keeps (\<lambda>d. J d gs) m) \<Longrightarrow> guarded (act m) k J g (\<lambda>_ _. True)"
  by (rule guarded_quiet) auto

lemma guarded_quiet_check:
  assumes "\<And>I. keeps I get" "\<And>i gs. keeps (\<lambda>d. J d gs) (increment i)" "\<And>i gs. keeps (\<lambda>d. J d gs) (burn i)"
  shows "guarded (otp_check_prog H get increment burn code) k J g (\<lambda>_ _. True)"
  unfolding otp_check_prog_def
  by (intro guarded_look_attempt [OF assms(1)] guarded_branch guarded_pattempt guarded_mono [OF guarded_quiet_act] assms(2,3)) simp_all

lemma guarded_verify:
  assumes "guarded check k J None (\<lambda>_ _. True)" "\<And>gs. all_keep (\<lambda>d. J d gs) p"
  shows "guarded (pbind (pbind check (\<lambda>_. p)) (\<lambda>_. pret ())) k J None (\<lambda>_ _. True)"
proof -
  have p: "guarded p k J g (\<lambda>_ _. True)" for g by (rule guarded_mono [OF guarded_all_keep [OF assms(2)]]) simp
  have both: "guarded (pbind check (\<lambda>_. p)) k J None (\<lambda>_ _. True)"
    by (rule guarded_pbind, rule guarded_mono [OF assms(1)]) (simp add: p split: sum.split)
  show ?thesis by (rule guarded_pbind, rule guarded_mono [OF both]) (simp split: sum.split)
qed

lemma guarded_code_sent:
  assumes "\<And>I. keeps I get" "\<And>now gs. keeps (\<lambda>d. J d gs) (create now)" "\<And>g. guarded sent k J g (\<lambda>_ _. True)"
  shows "guarded (pbind (otp_cooling_prog get) (\<lambda>cooling. if cooling then pret x else
    pbind (act goNow) (\<lambda>now. pbind (act (create now)) (\<lambda>_. sent)))) k J None (\<lambda>_ _. True)"
proof -
  have new: "guarded (pbind (act goNow) (\<lambda>now. pbind (act (create now)) (\<lambda>_. sent))) k J None (\<lambda>_ _. True)"
    by (intro guarded_look_bind keeps_rules TrueI guarded_pbind, rule guarded_mono [OF guarded_quiet_act [OF assms(2)]])
      (simp add: assms(3) split: sum.split)
  have cool: "guarded (otp_cooling_prog get) k J None (\<lambda>_ h. h = None)"
    unfolding otp_cooling_prog_def
    by (intro guarded_look_attempt [OF assms(1)] guarded_branch guarded_look_bind keeps_rules) simp_all
  show ?thesis by (rule guarded_pbind, rule guarded_mono [OF cool]) (simp add: new split: sum.split)
qed

lemma guarded_send: "guarded (act (send_code sender a code)) k J g (\<lambda>_ _. True)"
  by (rule guarded_quiet_act [OF keeps_send])

lemma guarded_send_reply: "guarded (pbind (act (send_code sender a code)) (\<lambda>_. pret x)) k J g (\<lambda>_ _. True)"
  by (rule guarded_pbind, rule guarded_mono [OF guarded_send]) (simp split: sum.split)

lemmas guarded_request = guarded_code_sent [OF _ _ guarded_send] guarded_code_sent [OF _ _ guarded_send_reply]

text \<open>The step-up flow looks up the factors of the caller first.\<close>

lemma guarded_factors:
  assumes "\<And>f. guarded (p f) k J g (\<lambda>_ _. True)"
  shows "guarded (pbind (GetIdentityFactors_prog uid) p) k J g (\<lambda>_ _. True)"
proof -
  have "guarded (GetIdentityFactors_prog uid) k J g (\<lambda>_ h. h = g)"
    unfolding GetIdentityFactors_prog_def
    by (intro guarded_look_bind guarded_branch keeps_pg) (auto simp: stmt_keeps_def split: prod.split intro!: guarded_look_bind keeps_pg)
  then show ?thesis by (intro guarded_pbind, elim guarded_mono) (simp add: assms split: sum.split)
qed

lemma guarded_grant:
  assumes "\<And>gs. keeps (\<lambda>d. J d gs) (CreateStepUpGrant gid uid h t)"
  shows "guarded (pbind (act (CreateStepUpGrant gid uid h t)) (\<lambda>_. pret x)) k J g (\<lambda>_ _. True)"
  by (rule guarded_pbind, rule guarded_mono [OF guarded_quiet_act [OF assms]]) (simp split: sum.split)

lemma guarded_stepup:
  assumes "guarded check k J None (\<lambda>_ _. True)" "\<And>gs t. keeps (\<lambda>d. J d gs) (CreateStepUpGrant gid uid h t)"
  shows "guarded (pbind check (\<lambda>_. pbind (act goNow) (\<lambda>now. pbind (act (CreateStepUpGrant gid uid h (now + ttl))) (\<lambda>_. pret (raw, now + ttl))))) k J None (\<lambda>_ _. True)"
proof -
  have "guarded (pbind (act goNow) (\<lambda>now. pbind (act (CreateStepUpGrant gid uid h (now + ttl))) (\<lambda>_. pret (raw, now + ttl)))) k J g (\<lambda>_ _. True)" for g
    by (intro guarded_look_bind keeps_rules TrueI guarded_grant assms(2))
  then show ?thesis by (intro guarded_pbind guarded_mono [OF assms(1)]) (simp split: sum.split)
qed

lemma guarded_reply: "guarded p k J g (\<lambda>_ _. True) \<Longrightarrow> guarded (pbind p (\<lambda>_. pret ())) k J g (\<lambda>_ _. True)"
  by (rule guarded_pbind, erule guarded_mono) (simp split: sum.split)

definition code_ops :: "unit prog set" where
  "code_ops = {pbind (email_VerifyCode_prog e fr addr code) (\<lambda>_. pret ()) |e fr addr code. wired (el_authn e)}
     \<union> {pbind (phone_VerifyCode_prog p fr num code cur) (\<lambda>_. pret ()) |p fr num code cur. wired (pl_authn p)}
     \<union> {email_RequestCode_prog e cid code addr |e cid code addr. True}
     \<union> {phone_RequestCode_prog p cid code num |p cid code num. True}
     \<union> {pbind (stepup_RequestCode_prog s cid code uid) (\<lambda>_. pret ()) |s cid code uid. True}
     \<union> {pbind (stepup_Verify_prog s raw gid uid code) (\<lambda>_. pret ()) |s raw gid uid code. True}"

lemma email_verification: "wired (el_authn e) \<Longrightarrow> pbind (email_VerifyCode_prog e fr addr code) (\<lambda>_. pret ()) \<in> code_ops"
  unfolding code_ops_def by ((rule UnI1)+, blast)

lemma keeps_codes:
  "keeps (\<lambda>d. attempts_ok k (login_challenges d) gs) (CreateLoginChallenge i a h e)"
  "keeps (\<lambda>d. attempts_ok k (phone_challenges d) gs) (CreatePhoneChallenge i a h e)"
  "keeps (\<lambda>d. P (phone_challenges d)) (CreateLoginChallenge i a h e)" "keeps (\<lambda>d. P (login_challenges d)) (CreatePhoneChallenge i a h e)"
  "keeps (\<lambda>d. P (phone_challenges d)) (IncrementLoginChallengeAttempts i)" "keeps (\<lambda>d. P (phone_challenges d)) (ConsumeLoginChallenge i)"
  "keeps (\<lambda>d. P (login_challenges d)) (IncrementPhoneChallengeAttempts i)" "keeps (\<lambda>d. P (login_challenges d)) (ConsumePhoneChallenge i)"
  "keeps (\<lambda>d. P (login_challenges d)) (CreateStepUpGrant i a h e)" "keeps (\<lambda>d. P (phone_challenges d)) (CreateStepUpGrant i a h e)"
  unfolding challenge_ops CreateStepUpGrant_def
  by (rule keeps_pg; auto simp: stmt_keeps_def q_CreateLoginChallenge_def q_CreatePhoneChallenge_def q_IncrementLoginChallengeAttempts_def
      q_IncrementPhoneChallengeAttempts_def q_ConsumeLoginChallenge_def q_ConsumePhoneChallenge_def attempts_new split: if_splits)+

lemma all_keep_one:
  assumes "wired a"
  shows "all_keep (\<lambda>d. P (login_challenges d)) (Authenticate_prog a fr p cur)" "all_keep (\<lambda>d. P (phone_challenges d)) (Authenticate_prog a fr p cur)"
  using all_keep_challenges [OF assms, of "\<lambda>l _. P l"] all_keep_challenges [OF assms, of "\<lambda>_ m. P m"] by simp_all

lemmas code_guards = guarded_verify guarded_request email_otp.guarded_otp_check phone_otp.guarded_otp_check guarded_quiet_check
  email_otp.get_reads phone_otp.get_reads keeps_codes all_keep_one

lemma pbind_pfail [simp]: "pbind (pfail e) f = pfail e"
  by (simp add: pbind_def)

lemma guarded_codes:
  assumes "p \<in> code_ops"
  shows "guarded p k (\<lambda>d. attempts_ok k (login_challenges d)) None (\<lambda>_ _. True)" (is "guarded p k ?E None ?T")
    and "guarded p k (\<lambda>d. attempts_ok k (phone_challenges d)) None (\<lambda>_ _. True)" (is "guarded p k ?P None ?T")
proof -
  have email: "guarded (pbind (email_VerifyCode_prog e fr addr code) (\<lambda>_. pret ())) k ?E None ?T"
    "guarded (pbind (email_VerifyCode_prog e fr addr code) (\<lambda>_. pret ())) k ?P None ?T" if "wired (el_authn e)" for e fr addr code
    unfolding email_VerifyCode_prog_def using that
    by (cases "normalizeEmail (el_parseAddress e) addr"; simp only: sum.case pbind_pfail guarded.simps; intro code_guards; assumption)+
  have phone: "guarded (pbind (phone_VerifyCode_prog ph fr num code cur) (\<lambda>_. pret ())) k ?E None ?T"
    "guarded (pbind (phone_VerifyCode_prog ph fr num code cur) (\<lambda>_. pret ())) k ?P None ?T" if "wired (pl_authn ph)" for ph fr num code cur
    unfolding phone_VerifyCode_prog_def using that
    by (cases "normalizeE164 num"; simp only: sum.case pbind_pfail guarded.simps; intro code_guards; assumption)+
  have requests: "guarded (email_RequestCode_prog e cid code addr) k ?E None ?T" "guarded (email_RequestCode_prog e cid code addr) k ?P None ?T"
    "guarded (phone_RequestCode_prog ph cid code num) k ?E None ?T" "guarded (phone_RequestCode_prog ph cid code num) k ?P None ?T"
    for e ph cid code addr num
    unfolding email_RequestCode_prog_def phone_RequestCode_prog_def
    by ((cases "normalizeEmail (el_parseAddress e) addr"; cases "normalizeE164 num"); simp only: sum.case guarded.simps; intro code_guards)+
  have stepup: "guarded (pbind (stepup_RequestCode_prog s cid code uid) (\<lambda>_. pret ())) k ?E None ?T"
    "guarded (pbind (stepup_RequestCode_prog s cid code uid) (\<lambda>_. pret ())) k ?P None ?T"
    "guarded (pbind (stepup_Verify_prog s raw gid uid code) (\<lambda>_. pret ())) k ?E None ?T"
    "guarded (pbind (stepup_Verify_prog s raw gid uid code) (\<lambda>_. pret ())) k ?P None ?T" for s cid code uid raw gid
    unfolding stepup_RequestCode_prog_def stepup_Verify_prog_def check_channel_prog_def
    by (intro guarded_reply guarded_factors guarded_branch guarded_stepup code_guards; simp)+
  show "guarded p k ?E None ?T" "guarded p k ?P None ?T"
    using assms unfolding code_ops_def by (auto simp: email phone requests stepup)
qed

lemma attempts_enter: "attempts_ok k cs gs \<Longrightarrow> length gs < k \<Longrightarrow> attempts_ok k cs (gs @ [None])"
  by (erule attempts_weaken) auto

lemma attempts_release: "attempts_ok k cs (gs @ g # hs) \<Longrightarrow> attempts_ok k cs (gs @ hs)"
  by (rule attempts_weaken, assumption) (auto simp: attempts_ok_def)

interpretation emailing: ghost_inv k "\<lambda>d. attempts_ok k (login_challenges d)" None code_ops for k
  by unfold_locales (erule attempts_enter attempts_release guarded_codes; assumption?)+

interpretation phoning: ghost_inv k "\<lambda>d. attempts_ok k (phone_challenges d)" None code_ops for k
  by unfold_locales (erule attempts_enter attempts_release guarded_codes; assumption?)+

section \<open>How far the counter goes\<close>

text \<open>C6: A challenge is closed after \<open>maxCodeAttempts\<close> wrong codes, but a verification compares before it counts. The overshoot is bounded: when
  at most \<open>k\<close> requests and verifications of codes are under way at any time, for logins and for step-up, by email and by phone, in any order of their statements and under any
  loss of connections, no challenge ever counts more than \<open>maxCodeAttempts + k - 1\<close> attempts, and challenges keep distinct ids.\<close>

theorem attempts_overshoot:
  assumes "(conc_step k code_ops)\<^sup>*\<^sup>* ([], w) (ps, w')" and "1 \<le> k"
    and "distinct (map ch_ID (login_challenges (w_db w)))" "distinct (map ch_ID (phone_challenges (w_db w)))"
    and "\<forall>c \<in> set (login_challenges (w_db w)) \<union> set (phone_challenges (w_db w)). ch_Attempts c \<le> maxCodeAttempts"
  shows "(\<forall>c \<in> set (login_challenges (w_db w')) \<union> set (phone_challenges (w_db w')). ch_Attempts c \<le> maxCodeAttempts + int k - 1)
    \<and> distinct (map ch_ID (login_challenges (w_db w'))) \<and> distinct (map ch_ID (phone_challenges (w_db w')))"
proof -
  have start: "attempts_ok k cs []" if "cs \<in> {login_challenges (w_db w), phone_challenges (w_db w)}" for cs
    using assms(2-4) bspec [OF assms(5)] that by (force simp: attempts_ok_def)
  obtain gs hs where "attempts_ok k (login_challenges (w_db w')) gs" "attempts_ok k (phone_challenges (w_db w')) hs"
    using emailing.reached [OF assms(1) start] phoning.reached [OF assms(1) start] by (metis insertCI)
  then show ?thesis by (fastforce simp: attempts_ok_def)
qed

definition demo_guesses :: "unit prog list" where
  "demo_guesses = map (\<lambda>code. pbind (email_VerifyCode_prog demo_email_login (demo_fresh code) ''a@x'' code) (\<lambda>_. pret ())) [''000000'', ''111111'']"

definition demo_guessed :: world where
  "demo_guessed = demo_world (demo_login_db\<lparr>login_challenges := [(new_challenge ''c2'' ''a@x'' ''123456'' codeTTL 0)\<lparr>ch_Attempts := 4\<rparr>]\<rparr>)"

text \<open>Two guesses at the last attempt, the bound for two.\<close>

lemma last_attempt_shared:
  "map ch_Attempts (login_challenges (w_db (snd (schedule [0, 1, 0, 1] (demo_guesses, demo_guessed))))) = [6]"
  by code_simp

theorem attempts_overshoot_witness:
  "\<exists>ps w'. (conc_step 2 code_ops)\<^sup>*\<^sup>* ([], demo_guessed) (ps, w') \<and> map ch_Attempts (login_challenges (w_db w')) = [6]
     \<and> (\<forall>c \<in> set (login_challenges (w_db w')). ch_Attempts c \<le> maxCodeAttempts + int 2 - 1)"
proof -
  obtain ps w' where e: "schedule [0, 1, 0, 1] (demo_guesses, demo_guessed) = (ps, w')" by force
  have "(conc_step 2 code_ops)\<^sup>*\<^sup>* ([], demo_guessed) ([] @ demo_guesses, demo_guessed)"
    by (rule start_conc) (auto simp: demo_guesses_def intro: email_verification demo_wired)
  then have r: "(conc_step 2 code_ops)\<^sup>*\<^sup>* ([], demo_guessed) (ps, w')"
    using schedule_conc [of 2 code_ops "(demo_guesses, demo_guessed)" "[0, 1, 0, 1]"] e by simp
  have "\<forall>c \<in> set (login_challenges (w_db w')). ch_Attempts c \<le> maxCodeAttempts + int 2 - 1"
    using attempts_overshoot [OF r] by (simp add: demo_guessed_def demo_login_defs maxCodeAttempts_def)
  moreover have "map ch_Attempts (login_challenges (w_db w')) = [6]" using last_attempt_shared e by simp
  ultimately show ?thesis using r by (intro exI [of _ ps] exI [of _ w']) simp
qed

text \<open>A right code is not so limited: the comments call the challenge single-use, but two verifications that both read it before either
  consumes it both log in, each with a session of its own.\<close>

fun succeeded :: "'a prog \<Rightarrow> bool" where
  "succeeded (Return (Inr _)) = True"
| "succeeded _ = False"

lemma same_code_twice:
  defines "p \<equiv> \<lambda>i. phone_VerifyCode_prog demo_phone_login (demo_fresh i) '' +84 9000-0001'' ''123456'' ''''"
  shows "\<exists>ns. list_all succeeded (fst (schedule ns ([p ''r1'', p ''r2''], demo_world demo_login_db)))"
proof -
  let ?login = "\<lambda>i. Authenticate (pl_authn demo_phone_login) (demo_fresh i) demo_principal ''''"
  let ?prog = "\<lambda>i. Authenticate_prog (pl_authn demo_phone_login) (demo_fresh i) demo_principal ''''"
  let ?w = "demo_world (demo_login_db\<lparr>phone_challenges := consume ''c1'' 0 (phone_challenges demo_login_db)\<rparr>)"
  have session: "au_sessions (pl_authn demo_phone_login) = demo_sessions"
    by (simp add: demo_phone_login_def NewPhoneLogin_def Register_def NewAuthenticator_def)
  have both: "schedule [0, 1, 0, 1] ([p ''r1'', p ''r2''], demo_world demo_login_db) = ([?prog ''r1'', ?prog ''r2''], ?w)"
    unfolding p_def phone_VerifyCode_prog_def demo_number session
    by (simp add: schedule_def otp_check_prog_def pbind_def act_def GetActivePhoneChallenge_def q_GetActivePhoneChallenge_def ConsumePhoneChallenge_def
        q_ConsumePhoneChallenge_def active_challenge_def order_by_desc_def demo_login_defs calm_def io_defs hashSecret_def maxCodeAttempts_def consume_def)
  obtain s1 w1 where one: "?login ''r1'' ?w = (Inr s1, w1)" "calm w1" "users (w_db w1) = [demo_user ''u1'']" "identity_vault (w_db w1) = [demo_vault]"
    "set (refresh_tokens (w_db w1)) \<subseteq> {t. rt_ID t = ''r1'' \<and> rt_TokenHash t = ''r1''}"
    "phone_identities (w_db w1) = update_rows (\<lambda>r. pi_Phone r = ''+8490000001'') (\<lambda>r. r\<lparr>pi_LastLogin := Some 0\<rparr>) (phone_identities demo_login_db)"
    using demo_authenticates [of ?w "''r1''" "hd (phone_identities demo_login_db)"] by (auto simp: demo_login_defs calm_def)
  obtain s2 w2 where two: "?login ''r2'' w1 = (Inr s2, w2)"
    using demo_authenticates [of w1 "''r2''" "(hd (phone_identities demo_login_db))\<lparr>pi_LastLogin := Some 0\<rparr>"] one by (fastforce simp: demo_login_db_def update_rows_def)
  obtain n where n: "schedule (replicate n 0) ([?prog ''r1'', ?prog ''r2''], ?w) = ([Return (Inr s1), ?prog ''r2''], w1)"
    using run_alone [of 0 "[?prog ''r1'', ?prog ''r2'']" ?w "Inr s1" w1] one(1) by (auto simp: run_Authenticate demo_wired)
  obtain m where m: "schedule (replicate m 1) ([Return (Inr s1), ?prog ''r2''], w1) = ([Return (Inr s1), Return (Inr s2)], w2)"
    using run_alone [of 1 "[Return (Inr s1), ?prog ''r2'']" w1 "Inr s2" w2] two by (auto simp: run_Authenticate demo_wired)
  show ?thesis
    by (rule exI [of _ "[0, 1, 0, 1] @ replicate n 0 @ replicate m 1"]) (simp only: schedule_append both n m; simp)
qed

end
