(* ===== verification/RecordingRaces.thy ===== *)
theory RecordingRaces
  imports Concurrency Endpoints
begin

text \<open>
  The recording service (\<^verbatim>\<open>internal/recording/recording.go\<close>) and the withdrawal of consent that reconciles it, at the grain of their
  statements. The comments of the code call the single recording in flight per session the hard invariant and the cap on concurrent recordings a
  soft one; the first holds under every interleaving, the second is overrun by at most \<open>k - 1\<close> with \<open>k\<close> operations under way.
\<close>

section \<open>The operations\<close>

definition requireHostSession_prog :: "string \<Rightarrow> string \<Rightarrow> Session prog" where
  "requireHostSession_prog userID sessionID =
     pattempt (act (GetSession sessionID)) (\<lambda>r. case r of
       Inl _ \<Rightarrow> pfail rec_ErrNotFound
     | Inr sess \<Rightarrow>
         if s_Status sess = ''ended'' then pfail rec_ErrSessionEnded
         else pbind (act (ListActiveParticipants sessionID)) (\<lambda>parts.
           case first_row (\<lambda>p. sp_UserID p = userID) parts of
             Some p \<Rightarrow> if sp_Role p \<noteq> ''host'' then pfail rec_ErrForbidden else pret sess
           | None \<Rightarrow> pfail rec_ErrForbidden))"

definition begin_recording_prog :: "RecordingSvc \<Rightarrow> string \<Rightarrow> Session \<Rightarrow> string \<Rightarrow> Recording prog" where
  "begin_recording_prog svc nid sess sessionID =
     pattempt (act (CreateRecording nid sessionID StatusStarting)) (\<lambda>created. case created of
       Inl err \<Rightarrow> pattempt (act (ActiveRecording sessionID)) (\<lambda>a. case a of
                    Inr (Some _) \<Rightarrow> pfail ErrAlreadyRecording
                  | _ \<Rightarrow> pfail err)
     | Inr _ \<Rightarrow>
         pattempt (act (StartRoomComposite (rs_egress svc) (s_LivekitRoom sess))) (\<lambda>started. case started of
           Inl err \<Rightarrow> pattempt (act (UpdateRecordingStatus nid StatusFailed True None (Some (error_text err)))) (\<lambda>_. pfail err)
         | Inr info \<Rightarrow>
             pbind (act (SetRecordingEgress nid (eg_EgressID info) (mapStatus (eg_Status info)))) (\<lambda>_.
             pbind (act (ActiveRecording sessionID)) (\<lambda>rec.
             pret (case rec of None \<Rightarrow> zero_recording | Some r \<Rightarrow> r)))))"

definition recording_Start_prog :: "RecordingSvc \<Rightarrow> string \<Rightarrow> AccessTokenClaims \<Rightarrow> string \<Rightarrow> Recording prog" where
  "recording_Start_prog svc nid claims sessionID =
     pbind (requireHostSession_prog (Subject claims) sessionID) (\<lambda>sess.
       if (case rs_startLimiter svc of None \<Rightarrow> False | Some allow \<Rightarrow> \<not> allow (Subject claims)) then pfail ErrStartRateLimited
       else pbind (act (RecordingAllowed sessionID)) (\<lambda>allowed.
         if \<not> allowed then pfail ErrConsentRequired
         else pbind (if rs_maxConcurrent svc > 0 then
                 pbind (act CountInFlightRecordings) (\<lambda>n. if n \<ge> rs_maxConcurrent svc then pfail ErrCapacity else pret ())
               else pret ()) (\<lambda>_. begin_recording_prog svc nid sess sessionID)))"

definition recording_stop_prog :: "RecordingSvc \<Rightarrow> Recording \<Rightarrow> unit prog" where
  "recording_stop_prog svc rec =
     (if coalesce (rc_EgressID rec) = '''' then act (UpdateRecordingStatus (rc_ID rec) StatusAborted True None None)
      else pbind (act (StopEgress (rs_egress svc) (coalesce (rc_EgressID rec)))) (\<lambda>info.
        let status = mapStatus (eg_Status info)
        in act (UpdateRecordingStatus (rc_ID rec) status (isTerminal status) (output_uri info) None)))"

definition recording_Stop_prog :: "RecordingSvc \<Rightarrow> AccessTokenClaims \<Rightarrow> string \<Rightarrow> unit prog" where
  "recording_Stop_prog svc claims sessionID =
     pbind (requireHostSession_prog (Subject claims) sessionID) (\<lambda>_.
     pbind (act (ActiveRecording sessionID)) (\<lambda>a. case a of
       None \<Rightarrow> pfail ErrNotRecording
     | Some rec \<Rightarrow> recording_stop_prog svc rec))"

definition ReconcileForSession_prog :: "RecordingSvc \<Rightarrow> string \<Rightarrow> unit prog" where
  "ReconcileForSession_prog svc sessionID =
     pbind (act (ActiveRecording sessionID)) (\<lambda>a. case a of
       None \<Rightarrow> pret ()
     | Some rec \<Rightarrow> pbind (act (RecordingAllowed sessionID)) (\<lambda>allowed.
         if allowed then pret () else recording_stop_prog svc rec))"

definition HandleWebhookEvent_prog :: "WebhookEvent \<Rightarrow> unit prog" where
  "HandleWebhookEvent_prog ev =
     (case we_EgressInfo ev of
        None \<Rightarrow> pret ()
      | Some info \<Rightarrow>
          pbind (act (RecordingByEgress (eg_EgressID info))) (\<lambda>r. case r of
            None \<Rightarrow> pret ()
          | Some rec \<Rightarrow>
              if isTerminal (rc_Status rec) then pret ()
              else let status = mapStatus (eg_Status info)
                   in act (UpdateRecordingStatus (rc_ID rec) status (isTerminal status) (output_uri info)
                        (if eg_Error info \<noteq> '''' then Some (eg_Error info) else None))))"

text \<open>A change of consent is one transaction, then the hook.\<close>

definition consent_append_prog :: "Store \<Rightarrow> (string \<Rightarrow> unit prog) option \<Rightarrow> string \<Rightarrow> string \<Rightarrow> string \<Rightarrow> bool \<Rightarrow> unit prog" where
  "consent_append_prog st onChange newID subject session granted =
     pbind (act (AppendConsent st \<lparr>ci_ID = newID, ci_SessionID = session, ci_SubjectID = subject,
             ci_Purpose = ConsentPurposeSessionRecording, ci_Granted = granted\<rparr>)) (\<lambda>_.
       case onChange of
         None \<Rightarrow> pret ()
       | Some hook \<Rightarrow> pattempt (hook session) (\<lambda>_. pret ()))"

lemma run_recordings:
  "run (requireHostSession_prog uid sid) = requireHostSession uid sid"
  "run (begin_recording_prog svc nid sess sid) = begin_recording svc nid sess sid"
  "run (recording_stop_prog svc rec) = recording_stop svc rec"
  unfolding requireHostSession_prog_def requireHostSession_def begin_recording_prog_def begin_recording_def recording_stop_prog_def
    recording_stop_def Let_def run_rules by (rule refl)+

lemma run_recording_service:
  "run (recording_Start_prog svc nid claims sid) = recording_Start svc nid claims sid"
  "run (recording_Stop_prog svc claims sid) = recording_Stop svc claims sid"
  "run (ReconcileForSession_prog svc sid) = ReconcileForSession svc sid"
  "run (HandleWebhookEvent_prog ev) = HandleWebhookEvent ev"
  unfolding recording_Start_prog_def recording_Start_def recording_Stop_prog_def recording_Stop_def ReconcileForSession_prog_def
    ReconcileForSession_def HandleWebhookEvent_prog_def HandleWebhookEvent_def Let_def run_rules run_recordings by (rule refl)+

lemma run_consent:
  "run (consent_append_prog st (Some (ReconcileForSession_prog svc)) nid uid sid granted) =
     consent_append st (Some (ReconcileForSession svc)) nid uid sid granted"
  unfolding consent_append_prog_def consent_append_def option.case run_rules run_recording_service by (rule refl)

section \<open>What they keep\<close>

text \<open>The recordings in flight, and the ids of the starts that have passed the cap. \<open>cap\<close> is the configured one, none when not positive.\<close>

definition running :: "db \<Rightarrow> string set" where
  "running d = rc_ID ` {r \<in> set (recordings d). in_flight r}"

definition recs_ok :: "nat \<Rightarrow> int \<Rightarrow> db \<Rightarrow> string option list \<Rightarrow> bool" where
  "recs_ok k cap d gs \<longleftrightarrow> rec_inv d \<and> (0 < cap \<longrightarrow> room k cap (running d) gs)"

lemma finite_running [simp]: "finite (running d)"
  by (simp add: running_def)

lemma card_running: "card (running d) \<le> length (filter in_flight (recordings d))"
proof -
  have "running d = set (map rc_ID (filter in_flight (recordings d)))" by (simp add: running_def)
  then show ?thesis by (metis card_length length_map)
qed

lemma card_running_eq: "rec_inv d \<Longrightarrow> card (running d) = length (filter in_flight (recordings d))"
proof -
  assume "rec_inv d"
  then have "distinct (map rc_ID (filter in_flight (recordings d)))" by (simp add: rec_inv_def distinct_map_filter)
  from distinct_card [OF this] show ?thesis by (simp add: running_def)
qed

lemma recs_weaken:
  assumes "recs_ok k cap d gs" "rec_inv d'" "0 < cap \<Longrightarrow> running d' \<union> claimed hs \<subseteq> running d \<union> claimed gs"
  shows "recs_ok k cap d' hs"
  unfolding recs_ok_def
proof (intro conjI impI)
  assume c: "0 < cap"
  have "room k cap (running d) gs" using assms(1) c by (simp add: recs_ok_def)
  from room_shrink [OF this assms(3) [OF c]] show "room k cap (running d') hs" .
qed (rule assms(2))

text \<open>A statement that puts in flight at most the recording its operation has a claim on.\<close>

lemma guarded_recs:
  assumes "keeps rec_inv m"
    and "\<And>w r w'. m w = (r, w') \<Longrightarrow> rec_inv (w_db w) \<Longrightarrow> 0 < cap \<Longrightarrow> running (w_db w') \<subseteq> running (w_db w) \<union> set_option g"
  shows "guarded (act m) k (recs_ok k cap) g (\<lambda>_ h. h = g)"
proof (rule guarded_act)
  fix w r and w' :: world assume m: "m w = (r, w')"
  have "recs_ok k cap (w_db w') (gs @ g # hs)" if ok: "recs_ok k cap (w_db w) (gs @ g # hs)" for gs hs
  proof (rule recs_weaken [OF ok])
    have inv: "rec_inv (w_db w)" using ok by (simp add: recs_ok_def)
    then show "rec_inv (w_db w')" by (rule keepsD [OF assms(1) m])
    show "running (w_db w') \<union> claimed (gs @ g # hs) \<subseteq> running (w_db w) \<union> claimed (gs @ g # hs)" if "0 < cap"
      using assms(2) [OF m inv that] by auto
  qed
  then show "\<exists>g'. ghost_step k (recs_ok k cap) (w_db w) g (w_db w') g' \<and> g' = g" by (simp add: ghost_step_def)
qed

lemma pg_reaches:
  assumes "pg s w = (r, w')" "P (w_db w)" "\<And>now x d. s now (w_db w) = Inr (x, d) \<Longrightarrow> P d"
  shows "P (w_db w')"
  using pg_outcome [OF assms(1)] assms(2,3) by auto

lemma running_created: "CreateRecording rid sid st w = (r, w') \<Longrightarrow> running (w_db w') \<subseteq> running (w_db w) \<union> {rid}"
  unfolding CreateRecording_def by (erule pg_reaches) (auto simp: running_def Let_def split: if_splits)

lemma running_egress: "SetRecordingEgress rid eid st w = (r, w') \<Longrightarrow> running (w_db w') \<subseteq> running (w_db w) \<union> {rid}"
  unfolding SetRecordingEgress_def by (erule pg_reaches) (auto simp: running_def in_set_update_rows split: if_splits)

lemma running_status:
  assumes "UpdateRecordingStatus rid st t u m w = (r, w')" "rec_inv (w_db w)"
  shows "running (w_db w') \<subseteq> running (w_db w)"
proof -
  have "in_flight q" if "q \<in> set (recordings (w_db w))" "\<not> terminal_status (rc_Status q)" for q
    using assms(2) that by (simp add: rec_inv_def in_flight_iff)
  then show ?thesis
    using assms(1) unfolding UpdateRecordingStatus_def
    by (elim pg_reaches) (auto simp: running_def in_set_update_rows split: if_splits)
qed

lemma recording_looks:
  "keeps J (RecordingAllowed sid)" "keeps J CountInFlightRecordings" "keeps J (ActiveRecording sid)" "keeps J (RecordingByEgress eid)"
  "keeps J (StartRoomComposite c rm)" "keeps J (StopEgress c eid)"
  unfolding RecordingAllowed_def CountInFlightRecordings_def ActiveRecording_def RecordingByEgress_def StartRoomComposite_def StopEgress_def
    egress_call_def
  by (intro keeps_rules; auto simp: stmt_keeps_def q_recording_counts_def Let_def)+

lemmas recording_view = recording_looks classroom_list_reads(1,3)

text \<open>The writes, by an operation that holds the claim \<open>g\<close>.\<close>

lemma guarded_writes:
  "(0 < cap \<Longrightarrow> g = Some nid) \<Longrightarrow> guarded (act (CreateRecording nid sid st)) k (recs_ok k cap) g (\<lambda>_ h. h = g)"
  "(0 < cap \<Longrightarrow> g = Some nid) \<Longrightarrow> guarded (act (SetRecordingEgress nid eid st)) k (recs_ok k cap) g (\<lambda>_ h. h = g)"
  "guarded (act (UpdateRecordingStatus rid st t u m)) k (recs_ok k cap) g' (\<lambda>_ h. h = g')"
  by (rule guarded_recs, rule rec_inv_create rec_inv_egress rec_inv_status, use running_created running_egress running_status in fastforce)+

lemma guarded_begin:
  assumes "0 < cap \<Longrightarrow> g = Some nid"
  shows "guarded (begin_recording_prog svc nid sess sid) k (recs_ok k cap) g (\<lambda>_ _. True)"
  unfolding begin_recording_prog_def
  by (intro guarded_attempt_then guarded_then guarded_writes guarded_look_attempt guarded_look_bind recording_view guarded_branch assms TrueI)
    (simp_all split: option.split)

lemma guarded_stop: "guarded (recording_stop_prog svc rec) k (recs_ok k cap) g (\<lambda>_ _. True)"
  unfolding recording_stop_prog_def Let_def
  by (intro guarded_branch guarded_look_bind recording_view guarded_mono [OF guarded_writes(3)] TrueI)

lemma guarded_host:
  assumes "\<And>r. Q r g"
  shows "guarded (requireHostSession_prog uid sid) k J g Q"
  unfolding requireHostSession_prog_def
  by (intro guarded_look_attempt guarded_look_bind recording_view guarded_branch assms) (simp_all add: assms)

lemma guarded_capacity:
  assumes "cap = rs_maxConcurrent svc"
  shows "guarded (if rs_maxConcurrent svc > 0 then
                 pbind (act CountInFlightRecordings) (\<lambda>n. if n \<ge> rs_maxConcurrent svc then pfail ErrCapacity else pret ())
               else pret ()) k (recs_ok k cap) None (\<lambda>r h. case r of Inl _ \<Rightarrow> True | Inr _ \<Rightarrow> 0 < cap \<longrightarrow> h = Some nid)"
proof (cases "0 < cap")
  case True
  let ?Q = "\<lambda>r h. case r of Inl _ \<Rightarrow> True | Inr _ \<Rightarrow> 0 < cap \<longrightarrow> h = Some nid"
  let ?then = "\<lambda>n. if n \<ge> cap then pfail ErrCapacity else pret ()"
  have "guarded (pbind (act CountInFlightRecordings) ?then) k (recs_ok k cap) None ?Q"
  proof (rule guarded_pbind, rule guarded_read [OF recording_looks(2)])
    fix w r and w' :: world assume m: "CountInFlightRecordings w = (r, w')"
    let ?after = "\<lambda>r h. case r of Inl e \<Rightarrow> ?Q (Inl e :: unit res) h | Inr n \<Rightarrow> guarded (?then n) k (recs_ok k cap) h ?Q"
    show "\<exists>g'. ghost_step k (recs_ok k cap) (w_db w) None (w_db w) g' \<and> ?after r g'"
    proof (cases "\<exists>n. r = Inr n \<and> n < cap")
      case below: True
      then obtain n where n: "r = Inr n" "n < cap" by blast
      have few: "int (card (running (w_db w))) < cap"
        using pg_runD(1) [OF m [unfolded CountInFlightRecordings_def n(1)]] n(2) card_running [of "w_db w"] by auto
      have "recs_ok k cap (w_db w) (gs @ Some nid # hs)"
        if "recs_ok k cap (w_db w) (gs @ None # hs)" "length gs + length hs < k" for gs hs
        using that(1) room_claim [OF _ few that(2), of None] unfolding recs_ok_def by simp
      then have "ghost_step k (recs_ok k cap) (w_db w) None (w_db w) (Some nid)" by (simp add: ghost_step_def)
      moreover have "?after r (Some nid)" using n by simp
      ultimately show ?thesis by blast
    next
      case False
      then have "?after r None" by (auto split: sum.split)
      then show ?thesis by (intro exI [of _ None] conjI ghost_step_refl)
    qed
  qed
  then show ?thesis using True by (simp add: assms)
qed (simp add: assms)

lemma guarded_Start: "guarded (recording_Start_prog svc nid claims sid) k (recs_ok k (rs_maxConcurrent svc)) None (\<lambda>_ _. True)"
  unfolding recording_Start_prog_def
proof (rule guarded_pbind, rule guarded_mono [OF guarded_host [where Q = "\<lambda>_ h. h = None"]], goal_cases)
  case (2 r h)
  let ?J = "recs_ok k (rs_maxConcurrent svc)"
  have "guarded (pbind (if rs_maxConcurrent svc > 0 then
                 pbind (act CountInFlightRecordings) (\<lambda>n. if n \<ge> rs_maxConcurrent svc then pfail ErrCapacity else pret ())
               else pret ()) (\<lambda>_. begin_recording_prog svc nid sess sid)) k ?J None (\<lambda>_ _. True)" for sess
    by (rule guarded_pbind, rule guarded_mono [OF guarded_capacity [OF refl, where nid = nid]]) (auto simp: guarded_begin split: sum.splits)
  then show ?case
    using 2 by (cases r; simp only: sum.case; intro guarded_branch guarded_look_bind recording_view) simp_all
qed simp

section \<open>Every interleaving\<close>

text \<open>The host starts and stops, the media server reports, participants grant and withdraw, all with one service.\<close>

definition recording_ops :: "RecordingSvc \<Rightarrow> Store \<Rightarrow> unit prog set" where
  "recording_ops svc st = {pbind (recording_Start_prog svc nid claims sid) (\<lambda>_. pret ()) |nid claims sid. True}
     \<union> {recording_Stop_prog svc claims sid |claims sid. True} \<union> {ReconcileForSession_prog svc sid |sid. True}
     \<union> {HandleWebhookEvent_prog ev |ev. True}
     \<union> {consent_append_prog st (Some (ReconcileForSession_prog svc)) nid uid sid granted |nid uid sid granted. True}"

lemma guarded_Reconcile: "guarded (ReconcileForSession_prog svc sid) k (recs_ok k cap) g (\<lambda>_ _. True)"
  unfolding ReconcileForSession_prog_def
  by (intro guarded_look_bind recording_view guarded_branch guarded_stop) simp_all

lemma guarded_Stop: "guarded (recording_Stop_prog svc claims sid) k (recs_ok k cap) None (\<lambda>_ _. True)"
  unfolding recording_Stop_prog_def
proof (rule guarded_pbind, rule guarded_mono [OF guarded_host [where Q = "\<lambda>_ h. h = None"]], goal_cases)
  case (2 r h)
  then show ?case by (cases r; simp only: sum.case; intro guarded_look_bind recording_view guarded_branch guarded_stop) simp_all
qed simp

lemma guarded_webhook: "guarded (HandleWebhookEvent_prog ev) k (recs_ok k cap) None (\<lambda>_ _. True)"
  unfolding HandleWebhookEvent_prog_def Let_def
  by (intro guarded_branch guarded_look_bind recording_view guarded_mono [OF guarded_writes(3)]) simp_all

lemma guarded_consent: "guarded (consent_append_prog st (Some (ReconcileForSession_prog svc)) nid uid sid granted) k (recs_ok k cap) None (\<lambda>_ _. True)"
proof -
  have "keeps (\<lambda>d. recs_ok k cap d gs) (AppendConsent st inp)" for gs inp
    by (rule AppendConsent_frame) (auto simp: tx_safe_def rolled_back_def recs_ok_def rec_inv_def running_def)
  then have "guarded (act (AppendConsent st inp)) k (recs_ok k cap) None (\<lambda>_ h. h = None)" for inp by (rule guarded_quiet) simp
  then show ?thesis
    unfolding consent_append_prog_def option.case
    by (intro guarded_then guarded_pattempt guarded_mono [OF guarded_Reconcile]) simp_all
qed

interpretation recording: ghost_inv k "recs_ok k (rs_maxConcurrent svc)" None "recording_ops svc st" for k svc st
proof
  fix d and gs :: "string option list" assume ok: "recs_ok k (rs_maxConcurrent svc) d gs"
  then have "rec_inv d" by (simp add: recs_ok_def)
  from recs_weaken [OF ok this] show "recs_ok k (rs_maxConcurrent svc) d (gs @ [None])" by simp
next
  fix d g and gs hs :: "string option list" assume ok: "recs_ok k (rs_maxConcurrent svc) d (gs @ g # hs)"
  then have "rec_inv d" by (simp add: recs_ok_def)
  show "recs_ok k (rs_maxConcurrent svc) d (gs @ hs)" by (rule recs_weaken [OF ok \<open>rec_inv d\<close>]) auto
next
  fix p assume "p \<in> recording_ops svc st"
  moreover have "guarded (pbind (recording_Start_prog svc nid claims sid) (\<lambda>_. pret ())) k (recs_ok k (rs_maxConcurrent svc)) None (\<lambda>_ _. True)"
    for nid claims sid
    by (rule guarded_pbind, rule guarded_mono [OF guarded_Start]) (simp split: sum.split)
  ultimately show "guarded p k (recs_ok k (rs_maxConcurrent svc)) None (\<lambda>_ _. True)"
    by (auto simp: recording_ops_def guarded_Stop guarded_Reconcile guarded_webhook guarded_consent)
qed

text \<open>C5: Of the two limits on recordings one is hard and one is soft, as the comments say. When at most \<open>k\<close> starts, stops, reconciliations, webhook
  deliveries and changes of consent are under way at any time, in any order of their statements, under any loss of connections and with any answers
  of the media server: at no time are two recordings of one session in flight; and where the service has a cap on concurrent recordings, and
  started within it, never more than cap plus \<open>k - 1\<close> are in flight, although a recording that was aborted may be taken up again.\<close>

theorem recording_limits:
  assumes "(conc_step k (recording_ops svc st))\<^sup>*\<^sup>* ([], w) (ps, w')" and "1 \<le> k" and "rec_inv (w_db w)"
    and "0 < rs_maxConcurrent svc \<Longrightarrow> int (length (filter in_flight (recordings (w_db w)))) \<le> rs_maxConcurrent svc"
  shows "distinct (map rc_SessionID (filter in_flight (recordings (w_db w'))))
    \<and> (0 < rs_maxConcurrent svc \<longrightarrow> int (length (filter in_flight (recordings (w_db w')))) \<le> rs_maxConcurrent svc + int k - 1)"
proof -
  have "recs_ok k (rs_maxConcurrent svc) (w_db w) []" using assms(2-4) by (simp add: recs_ok_def room_def card_running_eq) linarith
  from recording.reached [OF assms(1) this] obtain gs where ok: "recs_ok k (rs_maxConcurrent svc) (w_db w') gs" by blast
  then have inv: "rec_inv (w_db w')" by (simp add: recs_ok_def)
  have "int (card (running (w_db w'))) < rs_maxConcurrent svc + int k" if "0 < rs_maxConcurrent svc"
    using ok that by (intro room_used [of k _ _ gs]) (simp add: recs_ok_def)
  then show ?thesis using inv by (auto simp: card_running_eq rec_inv_def unique_where_def)
qed

definition demo_rooms :: world where
  "demo_rooms = demo_world ((w_db (demo_room ''live'' []))\<lparr>sessions := [demo_session ''s1'' ''live'', demo_session ''s2'' ''live''],
     session_participants := [demo_host, demo_host\<lparr>sp_SessionID := ''s2'', sp_UserID := ''u2''\<rparr>],
     consent_records := [demo_granted, demo_granted\<lparr>cn_Seq := 2, cn_ID := ''c2'', cn_SessionID := ''s2'', cn_SubjectID := ''u2''\<rparr>]\<rparr>)"

definition demo_capped :: RecordingSvc where
  "demo_capped = demo_recorder\<lparr>rs_maxConcurrent := 1\<rparr>"

definition two_starts :: "unit prog list" where
  "two_starts = map (\<lambda>(u, s). pbind (recording_Start_prog demo_capped s (demo_phone u) s) (\<lambda>_. pret ())) [(''u1'', ''s1''), (''u2'', ''s2'')]"

text \<open>Two starts that count before either creates, the bound for two.\<close>

lemma last_slot_shared:
  "length (filter in_flight (recordings (w_db (snd (schedule [0, 0, 0, 0, 1, 1, 1, 1, 0, 1] (two_starts, demo_rooms)))))) = 2"
  by code_simp

theorem recording_limits_witness:
  "\<exists>ps w'. (conc_step 2 (recording_ops demo_capped demo_store))\<^sup>*\<^sup>* ([], demo_rooms) (ps, w') \<and> length (filter in_flight (recordings (w_db w'))) = 2
     \<and> int (length (filter in_flight (recordings (w_db w')))) \<le> 1 + int 2 - 1"
proof -
  obtain ps w' where e: "schedule [0, 0, 0, 0, 1, 1, 1, 1, 0, 1] (two_starts, demo_rooms) = (ps, w')" by force
  have "(conc_step 2 (recording_ops demo_capped demo_store))\<^sup>*\<^sup>* ([], demo_rooms) ([] @ two_starts, demo_rooms)"
    by (rule start_conc) (auto simp: two_starts_def recording_ops_def)
  then have r: "(conc_step 2 (recording_ops demo_capped demo_store))\<^sup>*\<^sup>* ([], demo_rooms) (ps, w')"
    using schedule_conc [of 2 "recording_ops demo_capped demo_store" "(two_starts, demo_rooms)" "[0, 0, 0, 0, 1, 1, 1, 1, 0, 1]"] e by simp
  have "rs_maxConcurrent demo_capped = 1" by (simp add: demo_capped_def)
  with recording_limits [OF r] have "int (length (filter in_flight (recordings (w_db w')))) \<le> 1 + int 2 - 1"
    by (simp add: demo_rooms_def demo_room_defs rec_inv_def)
  moreover have "length (filter in_flight (recordings (w_db w'))) = 2" using last_slot_shared e by simp
  ultimately show ?thesis using r by (intro exI [of _ ps] exI [of _ w']) simp
qed

text \<open>The consent gate is weaker. \<^verbatim>\<open>Start\<close> reads the gate before it creates the row, and a withdrawal reconciles only rows that exist: when the
  withdrawal falls in between, the recording starts, and after both have ended it runs without the consent of a participant who is present.\<close>

lemma recording_without_consent:
  defines "start \<equiv> pbind (recording_Start_prog demo_recorder ''r1'' (demo_phone ''u1'') ''s1'') (\<lambda>_. pret ())"
    and "withdraw \<equiv> consent_append_prog demo_store (Some (ReconcileForSession_prog demo_recorder)) ''c3'' ''u1'' ''s1'' False"
    and "w0 \<equiv> demo_world ((w_db (demo_room ''live'' [demo_host]))\<lparr>consent_records := [demo_granted], consent_records_seq := 2\<rparr>)\<lparr>w_replies := [ReplyOk '''']\<rparr>"
  shows "let w = snd (schedule [0, 0, 0, 1, 1, 0, 0, 0, 0] ([start, withdraw], w0))
   in w_calls w = [CallStart ''s1'' ''/out/s1-{time}.mp4''] \<and> list_ex in_flight (recordings (w_db w)) \<and> \<not> all_consent ''s1'' (w_db w)"
  unfolding start_def withdraw_def w0_def Let_def schedule_def
  by (simp add: act_def pbind_def recording_Start_prog_def requireHostSession_prog_def begin_recording_prog_def consent_append_prog_def
        ReconcileForSession_prog_def demo_room_defs GetSession_def q_GetSession_def
        ListActiveParticipants_def q_ListActiveParticipants_def present_def demo_phone_def demo_recorder_def
        RecordingAllowed_def q_recording_counts_def effective_def latest_by_def order_by_desc_def consent_key_def demo_granted_def
        CreateRecording_def recording_status_def in_flight_def StartRoomComposite_def
        egress_call_def call_egress_def take_reply_def SetRecordingEgress_def ActiveRecording_def mapStatus_def demo_info_def
        io_defs head_row_def AppendConsent_def demo_store_def in_tx_def advisory_lock_def all_consent_def
        q_consent_tail_def sign_and_insert_consent_def demo_signer_def q_insert_consent_def user_exists_def consent_record_def Let_def)

end
