(* ===== verification/SessionRaces.thy ===== *)
theory SessionRaces
  imports Concurrency Endpoints
begin

text \<open>
  The session service (\<^verbatim>\<open>internal/session/session.go\<close>) at the grain of its statements. The cap on a direct session is checked under a lock of
  the session's row, by the database, and holds; the status is checked by the service before the participant is added, and can change in between.
\<close>

section \<open>The operations\<close>

definition session_class_prog :: "AccessTokenClaims \<Rightarrow> string \<Rightarrow> string option \<Rightarrow> string option prog" where
  "session_class_prog claims kind classID =
     (if kind = ''class'' then
        if \<not> HasCapability claims CapCanInstruct then pfail session_ErrForbidden
        else case classID of
               None \<Rightarrow> pfail ErrClassRequired
             | Some c \<Rightarrow>
                 if c = '''' then pfail ErrClassRequired
                 else pattempt (act (GetClass c)) (\<lambda>r. case r of
                        Inl _ \<Rightarrow> pfail ErrClassRequired
                      | Inr cl \<Rightarrow> if c_InstructorID cl \<noteq> Subject claims then pfail session_ErrForbidden
                                 else pret (Some c))
      else pret None)"

definition session_CreateSession_prog ::
  "string \<Rightarrow> AccessTokenClaims \<Rightarrow> string \<Rightarrow> string option \<Rightarrow> instant option \<Rightarrow> Session prog" where
  "session_CreateSession_prog nid claims kind classID scheduledStart =
     (if kind \<noteq> ''class'' \<and> kind \<noteq> ''direct'' then pfail ErrInvalidKind
      else if \<not> MeetsPhoneVerification claims then pfail session_ErrForbidden
      else pbind (session_class_prog claims kind classID) (\<lambda>cid.
           pbind (act (store_CreateSession nid kind cid (''ses_'' @ nid) scheduledStart)) (\<lambda>sess.
           pbind (act (AddParticipant nid (Subject claims) RoleHost)) (\<lambda>_. pret sess))))"

definition roleFor_prog :: "Session \<Rightarrow> string \<Rightarrow> string prog" where
  "roleFor_prog sess userID =
     pbind (act (ListActiveParticipants (s_ID sess))) (\<lambda>parts.
       case first_row (\<lambda>p. sp_UserID p = userID) parts of
         Some p \<Rightarrow> pret (sp_Role p)
       | None \<Rightarrow> pbind (act (AddParticipant (s_ID sess) userID RoleParticipant)) (\<lambda>_. pret RoleParticipant))"

definition Join_prog :: "SessionSvc \<Rightarrow> string \<Rightarrow> AccessTokenClaims \<Rightarrow> string \<Rightarrow> JoinResult prog" where
  "Join_prog svc eid claims sessionID =
     (if \<not> MeetsPhoneVerification claims then pfail session_ErrForbidden
      else pattempt (act (GetSession sessionID)) (\<lambda>r. case r of
        Inl _ \<Rightarrow> pfail session_ErrNotFound
      | Inr sess \<Rightarrow>
          if s_Status sess = ''ended'' then pfail ErrSessionEnded
          else pbind (roleFor_prog sess (Subject claims)) (\<lambda>role.
               pbind (act (Granter_Token (ss_granter svc) (Subject claims) '''' (join_grant sess role))) (\<lambda>tok.
               pbind (act (AppendPresenceEvent eid (s_ID sess) (Subject claims) presenceJoin role)) (\<lambda>_.
               pret \<lparr>jr_SessionID = s_ID sess, jr_Room = s_LivekitRoom sess, jr_Role = role, jr_Token = tok,
                     jr_WSURL = ss_wsURL svc\<rparr>)))))"

definition requireHost_prog :: "string \<Rightarrow> string \<Rightarrow> unit prog" where
  "requireHost_prog userID sessionID =
     pbind (act (ListActiveParticipants sessionID)) (\<lambda>parts.
       case first_row (\<lambda>p. sp_UserID p = userID) parts of
         Some p \<Rightarrow> if sp_Role p \<noteq> RoleHost then pfail session_ErrForbidden else pret ()
       | None \<Rightarrow> pfail session_ErrForbidden)"

definition session_Start_prog :: "AccessTokenClaims \<Rightarrow> string \<Rightarrow> unit prog" where
  "session_Start_prog claims sessionID = pbind (requireHost_prog (Subject claims) sessionID) (\<lambda>_. act (StartSession sessionID))"

definition session_End_prog :: "AccessTokenClaims \<Rightarrow> string \<Rightarrow> unit prog" where
  "session_End_prog claims sessionID = pbind (requireHost_prog (Subject claims) sessionID) (\<lambda>_. act (EndSession sessionID))"

definition Leave_prog :: "string \<Rightarrow> AccessTokenClaims \<Rightarrow> string \<Rightarrow> unit prog" where
  "Leave_prog eid claims sessionID =
     pbind (act (ListActiveParticipants sessionID)) (\<lambda>parts.
     pbind (case first_row (\<lambda>p. sp_UserID p = Subject claims) parts of
             Some p \<Rightarrow> act (AppendPresenceEvent eid sessionID (Subject claims) presenceLeave (sp_Role p))
           | None \<Rightarrow> pret ()) (\<lambda>_.
     act (RemoveParticipant sessionID (Subject claims))))"

lemma run_session_parts:
  "run (session_class_prog claims kind classID) = session_class claims kind classID"
  "run (roleFor_prog sess uid) = roleFor sess uid"
  "run (requireHost_prog uid sid) = requireHost uid sid"
  unfolding session_class_prog_def session_class_def roleFor_prog_def roleFor_def requireHost_prog_def requireHost_def run_rules
  by (rule refl)+

lemma run_sessions:
  "run (session_CreateSession_prog nid claims kind classID start) = session_CreateSession nid claims kind classID start"
  "run (Join_prog svc eid claims sid) = Join svc eid claims sid"
  "run (session_Start_prog claims sid) = session_Start claims sid"
  "run (session_End_prog claims sid) = session_End claims sid"
  "run (Leave_prog eid claims sid) = Leave eid claims sid"
  unfolding session_CreateSession_prog_def session_CreateSession_def Join_prog_def Join_def session_Start_prog_def session_Start_def
    session_End_prog_def session_End_def Leave_prog_def Leave_def run_rules run_session_parts
  by (rule refl)+

definition session_ops :: "unit prog set" where
  "session_ops = {pbind (session_CreateSession_prog nid claims kind classID start) (\<lambda>_. pret ()) |nid claims kind classID start. True}
     \<union> {pbind (Join_prog svc eid claims sid) (\<lambda>_. pret ()) |svc eid claims sid. True}
     \<union> {session_Start_prog claims sid |claims sid. True} \<union> {session_End_prog claims sid |claims sid. True}
     \<union> {Leave_prog eid claims sid |eid claims sid. True}"

section \<open>Joining an ended session\<close>

text \<open>\<^verbatim>\<open>Join\<close> refuses a session that has ended; one that ends after it was read still admits, with a grant for its room.\<close>

lemma join_after_end:
  "let join = pbind (Join_prog demo_svc ''e1'' (demo_phone ''u2'') ''s1'') (\<lambda>j. pret (jr_Room j));
       finish = pbind (session_End_prog (demo_phone ''u1'') ''s1'') (\<lambda>_. pret '''');
       (ps, w) = schedule [0, 1, 1, 0, 0, 0, 0] ([join, finish], demo_room ''live'' [demo_host])
   in ps = [pret ''s1'', pret ''''] \<and> map s_Status (sessions (w_db w)) = [''ended'']
      \<and> map sp_UserID (present ''s1'' (w_db w)) = [''u1'', ''u2'']"
  by (simp add: schedule_def act_def pbind_def Join_prog_def session_End_prog_def requireHost_prog_def roleFor_prog_def demo_room_defs
      MeetsPhoneVerification_def demo_phone_def GetSession_def q_GetSession_def ListActiveParticipants_def q_ListActiveParticipants_def
      present_def AddParticipant_def q_AddParticipant_def user_exists_def Granter_Token_def demo_svc_def demo_granter_def io_defs
      AppendPresenceEvent_def EndSession_def q_EndSession_def Let_def)

end
