(* ===== verification/Interleavings.thy ===== *)
theory Interleavings
  imports EnrollmentRaces CodeRaces RecordingRaces SessionRaces
begin

text \<open>
  The invariants of the platform under interleavings of statements. The services run statement by statement, in any order and any number at a time;
  what is one transaction or one statement of the database is one action. Every action keeps the invariants, so no interleaving breaks them.
\<close>

section \<open>The services\<close>

context account_repo begin

lemma enrollment_keeps: "p \<in> enrollment_ops cs \<Longrightarrow> all_keep J p"
  unfolding enrollment_ops_def Enroll_prog_def Unenroll_prog_def capacity_gate_prog_def EnsureClassAccess_prog_def
  by (auto intro!: all_keep_rules keeps_roster)

lemma session_progs_keep:
  assumes "reading_sources a"
  shows "all_keep J (IssueSession_prog a secret nid jti uid)" "all_keep J (Refresh_prog a secret nid jti presented)"
  using assms unfolding Refresh_prog_def login_progs login_statements reading_sources_def
  by (intro all_keep_rules account_rules keeps_MintAccess all_keep_gather; assumption)+

lemma authenticate_keeps:
  assumes "wired a"
  shows "all_keep J (Authenticate_prog a fr p cur)"
proof -
  have "all_keep J (resolver_prog kind fr p cur)" for kind
    by (cases kind; simp only: resolver_progs resolver_statements; intro all_keep_rules account_rules signup directory)
  then show ?thesis
    using assms session_progs_keep unfolding Authenticate_prog_def wired_def by (intro all_keep_rules) simp_all
qed

lemma account_progs_keep:
  "wired (fd_authn f) \<Longrightarrow> all_keep J (Complete_prog f fr provider code secret)" "all_keep J (Logout_prog a presented jti t)"
  "all_keep J (LogoutEverywhere_prog uid)" "all_keep J (identity_Begin_prog ids uid region)" "all_keep J (identity_Apply_prog r)"
  "all_keep J (identity_AcceptToS_prog uid version attested)" "all_keep J (Bootstrap_prog nid bp)"
  "all_keep J (SetStatus_prog claims cid status)" "all_keep J (SetCapacity_prog claims cid capacity)"
  unfolding Complete_prog_def Logout_prog_def RevokeRefreshFamilyByHash_prog_def RevokeAccessToken_def LogoutEverywhere_prog_def identity_Begin_prog_def
    identity_Apply_prog_def identity_AcceptToS_prog_def Bootstrap_prog_def SetStatus_prog_def SetCapacity_prog_def requireOwner_prog_def Let_def
    CreateIdentityRecord_def SetIdentityVerificationPending_def VerifyAdultIdentity_def ActivateUser_def AcceptToS_def UserExists_def CreateUser_def
    PromoteToModerator_def UpdateClassStatus_def
  by (intro all_keep_rules authenticate_keeps account_rules signup directory keeps_roster; (assumption | simp))+

lemma codes_keep: "p \<in> code_ops \<Longrightarrow> all_keep J p"
proof -
  note verify = email_VerifyCode_prog_def phone_VerifyCode_prog_def otp_check_prog_def
  note request = email_RequestCode_prog_def phone_RequestCode_prog_def otp_cooling_prog_def
  have "all_keep J (email_VerifyCode_prog e fr addr code)" if "wired (el_authn e)" for e fr addr code
    unfolding verify challenge_ops by (intro all_keep_rules keeps_rules authenticate_keeps directory that)
  moreover have "all_keep J (phone_VerifyCode_prog p fr num code cur)" if "wired (pl_authn p)" for p fr num code cur
    unfolding verify challenge_ops by (intro all_keep_rules keeps_rules authenticate_keeps directory that)
  moreover have "all_keep J (email_RequestCode_prog e cid code addr)" "all_keep J (phone_RequestCode_prog p cid code addr)" for e p cid code addr
    unfolding request challenge_ops by (intro all_keep_rules keeps_rules directory)+
  moreover have "all_keep J (stepup_RequestCode_prog su cid code uid)" "all_keep J (stepup_Verify_prog su raw gid uid code)" for su cid code uid raw gid
  proof -
    have pair: "all_keep J (case z of (x, y) \<Rightarrow> p x y)" if "\<And>x y. all_keep J (p x y)" for z and p :: "string option \<Rightarrow> string option \<Rightarrow> IdentityFactors prog"
      using that by (cases z) simp
    have factors: "all_keep J (GetIdentityFactors_prog uid)"
      unfolding GetIdentityFactors_prog_def by (intro all_keep_rules pair keeps_pg) (auto simp: stmt_keeps_def)
    show "all_keep J (stepup_RequestCode_prog su cid code uid)" "all_keep J (stepup_Verify_prog su raw gid uid code)"
      unfolding stepup_RequestCode_prog_def stepup_Verify_prog_def check_channel_prog_def otp_check_prog_def otp_cooling_prog_def challenge_ops
      by (intro all_keep_rules factors keeps_rules side_tables directory)+
  qed
  ultimately show "all_keep J p" if "p \<in> code_ops" using that by (auto simp: code_ops_def intro!: all_keep_rules)
qed

end

context ledger_repo begin

lemma checkpoint_keeps: "ps_store psvc = st \<Longrightarrow> all_keep J (Checkpoint_prog psvc nid)"
  unfolding Checkpoint_prog_def LatestPresenceCheckpointSeq_def PresenceEventsAfter_def WritePresenceCheckpoint_def Let_def
  by (intro all_keep_rules keeps_rules keeps_in_tx tx append checkpoint; simp add: stmt_keeps_def checkpoint_input_def append)

end

lemma account_ops_keep:
  assumes "account_repo J st" "ledger_repo J st" "p \<in> account_ops st"
  shows "all_keep J p"
  using assms(3) account_repo.session_progs_keep [OF assms(1)] account_repo.account_progs_keep [OF assms(1)] ledger_repo.checkpoint_keeps [OF assms(2)]
  unfolding account_ops_def by (auto intro!: all_keep_rules)

context session_repo begin

lemma sessions_keep: "p \<in> session_ops \<Longrightarrow> all_keep J p"
proof -
  note rules = all_keep_rules repo_keeps keeps_token
  note defs = session_CreateSession_prog_def session_class_prog_def Join_prog_def roleFor_prog_def session_Start_prog_def session_End_prog_def
    requireHost_prog_def Leave_prog_def
  have "all_keep J (session_CreateSession_prog nid claims kind classID start)" "all_keep J (Join_prog svc eid claims sid)"
    "all_keep J (session_Start_prog claims sid)" "all_keep J (session_End_prog claims sid)" "all_keep J (Leave_prog eid claims sid)"
    for nid claims kind classID start svc eid sid
    unfolding defs by (intro rules)+
  then show "all_keep J p" if "p \<in> session_ops" using that by (auto simp: session_ops_def intro!: all_keep_rules)
qed

end

context recording_repo begin

lemma recording_keeps:
  assumes "\<And>inp. keeps J (AppendConsent st inp)" "p \<in> recording_ops svc st"
  shows "all_keep J p"
proof -
  note rules = all_keep_rules rec_create rec_egress rec_status rec_reads rec_egress_call assms(1)
  note defs = recording_Start_prog_def begin_recording_prog_def requireHostSession_prog_def recording_Stop_prog_def recording_stop_prog_def
    ReconcileForSession_prog_def HandleWebhookEvent_prog_def consent_append_prog_def Let_def
  have "all_keep J (recording_Start_prog svc nid claims sid)" "all_keep J (recording_Stop_prog svc claims sid)"
    "all_keep J (ReconcileForSession_prog svc sid)" "all_keep J (HandleWebhookEvent_prog ev)"
    "all_keep J (consent_append_prog st (Some (ReconcileForSession_prog svc)) nid uid sid granted)" for nid claims sid ev uid granted
    unfolding defs option.case by (intro rules)+
  then show ?thesis using assms(2) by (auto simp: recording_ops_def intro!: all_keep_rules)
qed

end

section \<open>The platform\<close>

text \<open>Statements of the services above, and operations that are one statement or one transaction, or that run undisturbed.\<close>

definition statement_ops :: "Store \<Rightarrow> RecordingSvc \<Rightarrow> ClassSvc \<Rightarrow> unit prog set" where
  "statement_ops st svc cs = recording_ops svc st \<union> enrollment_ops cs \<union> code_ops \<union> session_ops \<union> account_ops st
     \<union> {Step s (\<lambda>_. pret ()) |s. \<forall>w. platform_step st svc w (s w)}"

context platform_repo begin

lemma statements_keep:
  assumes "p \<in> statement_ops st svc cs"
  shows "all_keep J p"
proof -
  have "all_keep J (Step s (\<lambda>_. pret ()))" if "\<forall>w. platform_step st svc w (s w)" for s
    using step_keeps [OF that [rule_format]] by simp
  moreover have "all_keep J p" if "p \<in> recording_ops svc st"
    by (rule recordings.recording_keeps [OF ledgers.consent_append that])
  ultimately show ?thesis
    using assms accounts.enrollment_keeps accounts.codes_keep sessions.sessions_keep
      account_ops_keep [OF accounts.account_repo_axioms ledgers.ledger_repo_axioms]
    unfolding statement_ops_def by blast
qed

end

text \<open>C2: The invariants hold between any two statements. Any number of logins, code requests and verifications, step-ups, refreshes, logouts, account,
  identity and class changes, sessions, recordings, changes of consent, enrollments and checkpoints run at the same time, statement by statement in any
  order, beside the operations that are one statement or one transaction (suspension, entitlements and the like), under any faults of the connection.
  Every state keeps the invariants of the platform, and the audit log verifies. The acceptance of the terms is among them with and without the
  attestation of age: an active account has a verified adult identity, an attestation, or an acceptance on record that does not attest.\<close>

theorem platform_inv_interleaved:
  assumes "store_ok edv keys st" and "platform_inv st edv keys (w_db w)"
    and "(conc_step k (statement_ops st svc cs))\<^sup>*\<^sup>* ([], w) (ps, w')"
  shows "platform_inv st edv keys (w_db w') \<and> VerifyChain (sha256 st) edv keys (audit_entries (w_db w')) = None"
proof -
  note keep = platform_repo.statements_keep [OF platform_services [OF assms(1)]]
  have inv: "platform_inv st edv keys (w_db w')" by (rule interleaved [OF keep assms(3,2)])
  then have "audit_inv (sha256 st) edv keys (w_db w')" by (simp add: platform_inv_def integrity_inv_def)
  then have "audit_linked (sha256 st) edv keys GenesisHash (audit_entries (w_db w'))"
    using audit_entries_eq by (auto simp: audit_inv_def)
  with inv show ?thesis by (simp add: VerifyChain_iff)
qed

definition two_requests :: "unit prog list" where
  "two_requests = map (\<lambda>a. email_RequestCode_prog demo_email_login a ''123456'' a) [''a@x'', ''b@x'']"

lemma both_requested:
  "map ch_Addr (login_challenges (w_db (snd (schedule [0, 1, 0, 1, 1, 0] (two_requests, demo_world empty_db))))) = [''b@x'', ''a@x'']"
  by code_simp

theorem platform_inv_interleaved_witness:
  "\<exists>ps w'. (conc_step 2 (statement_ops demo_store demo_recorder \<lparr>cs_entitlements = True\<rparr>))\<^sup>*\<^sup>* ([], demo_world empty_db) (ps, w')
     \<and> map ch_Addr (login_challenges (w_db w')) = [''b@x'', ''a@x''] \<and> platform_inv demo_store demo_edv demo_keys (w_db w')"
proof -
  let ?ops = "statement_ops demo_store demo_recorder \<lparr>cs_entitlements = True\<rparr>"
  obtain ps w' where e: "schedule [0, 1, 0, 1, 1, 0] (two_requests, demo_world empty_db) = (ps, w')" by force
  have "email_RequestCode_prog el cid code addr \<in> ?ops" for el cid code addr unfolding statement_ops_def code_ops_def by blast
  then have "(conc_step 2 ?ops)\<^sup>*\<^sup>* ([], demo_world empty_db) ([] @ two_requests, demo_world empty_db)"
    by (intro start_conc) (simp_all add: two_requests_def)
  then have r: "(conc_step 2 ?ops)\<^sup>*\<^sup>* ([], demo_world empty_db) (ps, w')"
    using schedule_conc [of 2 ?ops "(two_requests, demo_world empty_db)" "[0, 1, 0, 1, 1, 0]"] e by simp
  have "platform_inv demo_store demo_edv demo_keys (w_db w')"
    using platform_inv_interleaved [OF demo_store_ok _ r] platform_inv_empty by (simp add: demo_world_def)
  moreover have "map ch_Addr (login_challenges (w_db w')) = [''b@x'', ''a@x'']" using both_requested e by simp
  ultimately show ?thesis using r by (intro exI [of _ ps] exI [of _ w']) simp
qed

end
