(* ===== verification/Lasting.thy ===== *)
theory Lasting
  imports Platform
begin

text \<open>
  What lasts. Some facts, once established by an operation, are true ever after, whatever the services do next: a rotated refresh token
  stays spent, a participant who left stays departed, an exhausted challenge stays exhausted. Each is a property that every operation of every
  service keeps (locale \<open>platform_repo\<close>), so what follows from it holds after any further steps of the platform, at any later time and under any
  faults.
\<close>

section \<open>Rotated refresh tokens\<close>

lemma spent_update:
  assumes "spent_token h fam ts" "\<And>t. rt_TokenHash (f t) = rt_TokenHash t \<and> rt_FamilyID (f t) = rt_FamilyID t \<and> (spent t \<longrightarrow> spent (f t))"
  shows "spent_token h fam (update_rows P f ts)"
proof -
  obtain t where t: "t \<in> set ts" "rt_TokenHash t = h" "rt_FamilyID t = fam" "spent t" using assms(1) unfolding spent_token_def by blast
  have "(if P t then f t else t) \<in> set (update_rows P f ts)" using t(1) by (auto simp: update_rows_def)
  then show ?thesis using t assms(2) [of t] unfolding spent_token_def by (metis (full_types))
qed

lemma spent_tokens:
  "stmt_keeps (\<lambda>d. spent_token h fam (refresh_tokens d)) (q_RevokeAllRefreshTokens u)"
  "stmt_keeps (\<lambda>d. spent_token h fam (refresh_tokens d)) (q_RevokeRefreshFamily f)"
  "stmt_keeps (\<lambda>d. spent_token h fam (refresh_tokens d)) (q_MarkRefreshTokenReplaced i n)"
  "stmt_keeps (\<lambda>d. spent_token h fam (refresh_tokens d)) (q_IssueRefreshToken a b c x t)"
  "stmt_keeps (\<lambda>d. spent_token h fam (refresh_tokens d)) (q_GetRefreshTokenByHashForUpdate x)"
  by (auto simp: stmt_keeps_def q_RevokeAllRefreshTokens_def q_RevokeRefreshFamily_def q_MarkRefreshTokenReplaced_def q_IssueRefreshToken_def
      q_GetRefreshTokenByHashForUpdate_def spent_def intro!: spent_update split: if_splits option.splits dest!: row_InrD)
    (auto simp: spent_token_def)

lemma same_tokens:
  "same refresh_tokens (q_SuspendUser u)" "same refresh_tokens (q_BumpTokenVersion u)"
  "same refresh_tokens (q_ActivateUser u)" "same refresh_tokens (q_GrantInstructor u)" "same refresh_tokens (q_RevokeInstructor u)"
  "same refresh_tokens (q_CreateIdentityRecord u)" "same refresh_tokens (q_AcceptToS u v b)" "same refresh_tokens (q_CreateUser u hn nm l c)"
  "same refresh_tokens (q_PromoteToModerator u)" "same refresh_tokens (q_UpdateProfile u hn nm bio)" "same refresh_tokens (q_CloseAccount u)"
  "same refresh_tokens (q_RevokeAccessToken j t)"
  by (auto simp: same_def q_SuspendUser_def q_BumpTokenVersion_def q_ActivateUser_def q_RevokeAccessToken_def
      q_GrantInstructor_def q_RevokeInstructor_def q_CreateIdentityRecord_def q_AcceptToS_def update_user_def
      q_CreateUser_def q_PromoteToModerator_def q_UpdateProfile_def q_CloseAccount_def Let_def split: if_splits option.splits)

lemma same_tokens_identity: "same refresh_tokens (update_identity u f)"
  by (auto simp: same_def update_identity_def downgrade_trigger_def split: if_splits option.splits sum.splits)

lemma same_tokens_vault:
  "same refresh_tokens (q_SetIdentityVerificationPending u)" "same refresh_tokens (q_VerifyAdultIdentity u p t)"
proof -
  show "same refresh_tokens (q_SetIdentityVerificationPending u)" unfolding q_SetIdentityVerificationPending_def by (rule same_tokens_identity)
  show "same refresh_tokens (q_VerifyAdultIdentity u p t)"
    unfolding same_def q_VerifyAdultIdentity_def using same_tokens_identity [unfolded same_def] by blast
qed

interpretation spending: platform_repo "\<lambda>d. spent_token h fam (refresh_tokens d)" st for h fam st
proof -
  let ?J = "\<lambda>d. spent_token h fam (refresh_tokens d)"
  have quiet: "stmt_keeps ?J s" if "same refresh_tokens s" for s by (rule same_keeps [OF that]) simp
  have safe: "tx_safe ?J" by (simp add: tx_safe_def rolled_back_def)
  have views: "core_only ?J" "keeps_challenges ?J" by (rule views_challenges, simp add: accounts_def)+
  have "account_repo ?J st"
    by unfold_locales (rule safe keeps_append_frame spent_tokens rotate_frame views, simp?
        | rule quiet, rule same_tokens same_tokens_vault)+
  then show "platform_repo ?J st"
    by (intro platform_repo.intro session_writes_frame recording_writes_frame quiet_ledger safe) simp_all
qed

text \<open>C15: rotation is single-use with reuse detection. Once a refresh token has been rotated, then after any further operations of any
  services, at any later time and under any faults, presenting it again never succeeds; and whenever that presentation reaches the database
  without a fault, it reports reuse and every token of the family, the replacements included, is revoked.\<close>
theorem rotate_single_use:
  assumes "refresh_inv (w_db w)" and "RotateRefreshToken h nt w = (Inr rot, w1)"
    and "(platform_step st rec)\<^sup>*\<^sup>* w1 w2" and "RotateRefreshToken h nt' w2 = (r, w3)"
  shows "(\<exists>e. r = Inl e)
    \<and> (calm w2 \<longrightarrow> r = Inl ErrRefreshReuse
        \<and> (\<forall>t \<in> set (refresh_tokens (w_db w3)). rt_FamilyID t = ro_FamilyID rot \<longrightarrow> rt_RevokedAt t \<noteq> None))"
proof (rule rotate_spent_fails [OF _ _ assms(4)])
  have "refresh_inv (w_db w1)" by (rule keepsD [OF keeps_rotate assms(2,1)])
  then show "refresh_inv (w_db w2)" by (rule refresh_services.steps_keep [OF assms(3)])
  show "spent_token h (ro_FamilyID rot) (refresh_tokens (w_db w2))"
    by (rule spending.steps_keep [OF assms(3) rotate_spends [OF assms(2)]])
qed

text \<open>A token is rotated, its replacement too; a day later the first is presented again.\<close>

theorem rotate_single_use_witness:
  "let w = demo_world demo_refresh_db; (r1, w1) = RotateRefreshToken ''h1'' (demo_next ''r2'' ''h2'') w;
       w2 = w1\<lparr>w_now := w_now w1 + minutes 1440\<rparr>; (r, w3) = RotateRefreshToken ''h1'' (demo_next ''r3'' ''h3'') w2
   in r1 = Inr \<lparr>ro_UserID = ''u1'', ro_FamilyID = ''r1''\<rparr> \<and> calm w1 \<and> r = Inl ErrRefreshReuse
      \<and> (\<forall>t \<in> set (refresh_tokens (w_db w3)). rt_FamilyID t = ''r1'' \<longrightarrow> rt_RevokedAt t \<noteq> None)"
proof -
  define w where "w = demo_world demo_refresh_db"
  define rot where "rot = \<lparr>ro_UserID = ''u1'', ro_FamilyID = ''r1''\<rparr>"
  have inv: "refresh_inv (w_db w)"
    by (simp add: w_def demo_world_def demo_refresh_db_def refresh_inv_def unique_where_def)
  obtain r1 w1 where run: "RotateRefreshToken ''h1'' (demo_next ''r2'' ''h2'') w = (r1, w1)" by force
  then have r1: "r1 = Inr rot" and c: "calm w1"
    by (auto simp: RotateRefreshToken_def in_tx_def rotate_body_def attempt_def bind_def ret_def goNow_def calm_def
        pg_def take_fault_def q_GetRefreshTokenByHashForUpdate_def q_IssueRefreshToken_def
        q_MarkRefreshTokenReplaced_def w_def demo_world_def demo_refresh_db_def demo_next_def user_exists_def
        demo_user_def rot_def)
  define w2 where "w2 = w1\<lparr>w_now := w_now w1 + minutes 1440\<rparr>"
  have steps: "(platform_step demo_store demo_recorder)\<^sup>*\<^sup>* w1 w2"
    by (rule r_into_rtranclp, rule platform_step.elapse) (simp add: w2_def)
  have c2: "calm w2" using c by (simp add: w2_def calm_def)
  obtain r w3 where run2: "RotateRefreshToken ''h1'' (demo_next ''r3'' ''h3'') w2 = (r, w3)" by force
  from rotate_single_use [OF inv run [unfolded r1] steps run2] c c2 run run2 r1 show ?thesis
    by (simp add: Let_def rot_def flip: w_def w2_def)
qed

section \<open>Departed participants\<close>

lemma departed_stmts:
  "stmt_keeps (\<lambda>d. departed sid uid (session_participants d)) (q_AddParticipant s u r)"
  "stmt_keeps (\<lambda>d. departed sid uid (session_participants d)) (q_RemoveParticipant s u)"
proof -
  show "stmt_keeps (\<lambda>d. departed sid uid (session_participants d)) (q_AddParticipant s u r)"
    by (auto simp: stmt_keeps_def q_AddParticipant_def departed_def participant_key_def list_ex_iff split: if_splits)
  show "stmt_keeps (\<lambda>d. departed sid uid (session_participants d)) (q_RemoveParticipant s u)"
    unfolding stmt_keeps_def
  proof (intro allI impI)
    fix now d x d'
    assume J: "departed sid uid (session_participants d)" and s: "q_RemoveParticipant s u now d = Inr (x, d')"
    let ?f = "\<lambda>p. if sp_SessionID p = s \<and> sp_UserID p = u \<and> sp_LeftAt p = None then p\<lparr>sp_LeftAt := Some now\<rparr> else p"
    have d': "session_participants d' = map ?f (session_participants d)" using s by (auto simp: q_RemoveParticipant_def update_rows_def)
    have "map participant_key (session_participants d') = map participant_key (session_participants d)"
      unfolding d' by (simp add: participant_key_def)
    moreover obtain q where "q \<in> set (session_participants d)" "participant_key q = (sid, uid)" "sp_LeftAt q \<noteq> None"
      using J unfolding departed_def by blast
    then have "q \<in> set (session_participants d') \<and> participant_key q = (sid, uid) \<and> sp_LeftAt q \<noteq> None"
      unfolding d' by (auto intro!: image_eqI [of _ _ q])
    ultimately show "departed sid uid (session_participants d')" using J unfolding departed_def by metis
  qed
qed

interpretation departing: platform_repo "\<lambda>d. departed sid uid (session_participants d)" st for sid uid st
proof -
  let ?J = "\<lambda>d. departed sid uid (session_participants d)"
  have safe: "tx_safe ?J" by (simp add: tx_safe_def rolled_back_def)
  have "account_repo ?J st" by (rule classroom_account_repo [OF safe keeps_append_frame]) (simp_all add: classroom_def)
  moreover have "session_repo ?J"
    by (unfold_locales; (rule keeps_presence_event | (unfold repo_defs, rule keeps_pg)))
      (rule departed_stmts | fastforce simp: stmt_keeps_def q_CreateSession_def q_StartSession_def q_EndSession_def Let_def split: if_splits)+
  ultimately show "platform_repo ?J st"
    by (intro platform_repo.intro recording_writes_frame quiet_ledger safe) simp_all
qed

lemma Leave_makes_departed:
  assumes "session_inv (w_db w)" "p \<in> set (present sid (w_db w))" "sp_UserID p = Subject claims" "Leave eid claims sid w = (Inr (), w1)"
  shows "departed sid (Subject claims) (session_participants (w_db w1))"
proof -
  have "session_inv (w_db w1)" by (rule keepsD [OF sessions.keeps_session_service(5) assms(4,1)])
  then show ?thesis using Leave_departs [OF assms(4,2,3)] unfolding departed_def session_inv_def by blast
qed

text \<open>C18: as the code is, leaving is final. Once a present caller has left a session, then after any further operations of any services, at any
  later time and under any faults, no \<^verbatim>\<open>Join\<close> of that session by the same account succeeds, with whatever token and event id. This is not what is
  meant: migration 00004 speaks of re-admission and stops counting the rows of those who left; but such a row still holds the primary
  key and \<^verbatim>\<open>AddParticipant\<close> is a plain insert.\<close>
theorem rejoin_after_leave_fails:
  assumes "session_inv (w_db w)" and "p \<in> set (present sid (w_db w))" "sp_UserID p = Subject claims"
    and "Leave eid claims sid w = (Inr (), w1)" and "(platform_step st rec)\<^sup>*\<^sup>* w1 w2" and "Subject claims' = Subject claims"
  shows "\<exists>e w3. Join svc eid' claims' sid w2 = (Inl e, w3)"
proof (rule Join_departed)
  have "departed sid (Subject claims) (session_participants (w_db w2))"
    by (rule departing.steps_keep [OF assms(5) Leave_makes_departed [OF assms(1-4)]])
  then show "departed sid (Subject claims') (session_participants (w_db w2))" by (simp add: assms(6))
qed

text \<open>The host leaves and tries to come back after an hour.\<close>

theorem rejoin_after_leave_fails_witness:
  "let w = demo_room ''live'' [demo_host] in
   \<exists>w1. Leave ''e1'' (demo_phone ''u1'') ''s1'' w = (Inr (), w1) \<and>
     (\<exists>e w3. Join demo_svc ''e2'' (demo_phone ''u1'') ''s1'' (w1\<lparr>w_now := w_now w1 + minutes 60\<rparr>) = (Inl e, w3))"
proof -
  define w where "w = demo_room ''live'' [demo_host]"
  obtain r w1 where run: "Leave ''e1'' (demo_phone ''u1'') ''s1'' w = (r, w1)" by force
  have r: "r = Inr ()"
    using run by (auto simp: w_def demo_room_defs Leave_def ListActiveParticipants_def q_ListActiveParticipants_def
        present_def demo_phone_def AppendPresenceEvent_def user_exists_def RemoveParticipant_def q_RemoveParticipant_def io_defs)
  have "session_inv (w_db w)" "demo_host \<in> set (present ''s1'' (w_db w))" "sp_UserID demo_host = Subject (demo_phone ''u1'')"
    by (simp_all add: w_def demo_room_defs session_inv_def participant_key_def present_def demo_phone_def)
  moreover have "(platform_step demo_store demo_recorder)\<^sup>*\<^sup>* w1 (w1\<lparr>w_now := w_now w1 + minutes 60\<rparr>)"
    by (rule r_into_rtranclp, rule platform_step.elapse) simp
  ultimately show ?thesis
    using rejoin_after_leave_fails [of w demo_host "''s1''" "demo_phone ''u1''" "''e1''" w1] run [unfolded r]
    unfolding Let_def w_def [symmetric] by blast
qed

section \<open>Exhausted challenges\<close>

text \<open>An email challenge is written by three statements only.\<close>

lemma same_challenges:
  "same login_challenges (q_SuspendUser u)" "same login_challenges (q_BumpTokenVersion u)"
  "same login_challenges (q_ActivateUser u)" "same login_challenges (q_GrantInstructor u)" "same login_challenges (q_RevokeInstructor u)"
  "same login_challenges (q_CreateIdentityRecord u)" "same login_challenges (q_AcceptToS u v b)" "same login_challenges (q_CreateUser u hn nm l c)"
  "same login_challenges (q_PromoteToModerator u)" "same login_challenges (q_UpdateProfile u hn nm bio)" "same login_challenges (q_CloseAccount u)"
  by (auto simp: same_def q_SuspendUser_def q_BumpTokenVersion_def q_ActivateUser_def
      q_GrantInstructor_def q_RevokeInstructor_def q_CreateIdentityRecord_def q_AcceptToS_def update_user_def
      q_CreateUser_def q_PromoteToModerator_def q_UpdateProfile_def q_CloseAccount_def Let_def split: if_splits option.splits)

lemma same_challenges_tokens:
  "same login_challenges (q_RevokeAllRefreshTokens u)" "same login_challenges (q_RevokeRefreshFamily f)" "same login_challenges (q_MarkRefreshTokenReplaced i n)"
  "same login_challenges (q_IssueRefreshToken a b c x t)" "same login_challenges (q_GetRefreshTokenByHashForUpdate x)" "same login_challenges (q_RevokeAccessToken j t')"
  by (auto simp: same_def q_RevokeAllRefreshTokens_def q_RevokeRefreshFamily_def q_MarkRefreshTokenReplaced_def q_IssueRefreshToken_def
      q_GetRefreshTokenByHashForUpdate_def q_RevokeAccessToken_def split: if_splits option.splits dest!: row_InrD)

lemma same_challenges_identity: "same login_challenges (update_identity u f)"
  by (auto simp: same_def update_identity_def downgrade_trigger_def split: if_splits option.splits sum.splits)

lemma same_challenges_vault:
  "same login_challenges (q_SetIdentityVerificationPending u)" "same login_challenges (q_VerifyAdultIdentity u p t)"
proof -
  show "same login_challenges (q_SetIdentityVerificationPending u)" unfolding q_SetIdentityVerificationPending_def by (rule same_challenges_identity)
  show "same login_challenges (q_VerifyAdultIdentity u p t)"
    unfolding same_def q_VerifyAdultIdentity_def using same_challenges_identity [unfolded same_def] by blast
qed

interpretation locking: platform_repo "\<lambda>d. dead cid (login_challenges d)" st for cid st
proof -
  let ?J = "\<lambda>d. dead cid (login_challenges d)"
  have safe: "tx_safe ?J" by (simp add: tx_safe_def rolled_back_def)
  have quiet: "stmt_keeps ?J s" if "same login_challenges s" for s by (rule same_keeps [OF that]) simp
  have views: "core_only ?J" by (simp add: core_only_def core_def)
  have challenges: "keeps_challenges ?J"
    by (auto simp: keeps_challenges_def stmt_keeps_def q_CreateLoginChallenge_def q_IncrementLoginChallengeAttempts_def q_ConsumeLoginChallenge_def
        intro: dead_count dead_consume dead_new split: if_splits)
  have rot: "keeps ?J (RotateRefreshToken h nt)" for h nt by (rule rotate_frame [OF safe]; rule quiet, rule same_challenges_tokens)
  have "account_repo ?J st"
    by unfold_locales (rule safe views challenges rot keeps_append_frame, simp?
        | rule quiet, rule same_challenges same_challenges_tokens same_challenges_vault)+
  then show "platform_repo ?J st"
    by (intro platform_repo.intro session_writes_frame recording_writes_frame quiet_ledger safe) simp_all
qed

text \<open>C35: guessing a code is hopeless after five tries. When five wrong codes (less those already counted) have been presented for an address
  whose challenge is outstanding, without a fault that would lose their count, the next code is rejected, the right one included, and changes
  nothing. And that challenge stays dead: after any further operations of any services, new requests for codes among them, at any later time and
  under any faults, a code that is accepted belongs to another challenge, one for the address it is presented for, not used, not expired and below the limit.\<close>
theorem email_guessing_locks:
  assumes "normalizeEmail (el_parseAddress e) raw = Inr email" "calm w"
    and "active_challenge email (w_pgnow w) (login_challenges (w_db w)) = Some ch"
    and "distinct (map ch_ID (login_challenges (w_db w)))"
    and "\<forall>c \<in> set cs. hashSecret (au_sessions (el_authn e)) c \<noteq> ch_CodeHash ch"
    and "maxCodeAttempts \<le> ch_Attempts ch + int (length cs)"
    and "w1 = foldl (\<lambda>w c. snd (email_VerifyCode e fr raw c w)) w cs"
    and "(platform_step st rec)\<^sup>*\<^sup>* w1 w2"
  shows "email_VerifyCode e fr raw code w1 = (Inl ErrInvalidCode, w1)
    \<and> (email_VerifyCode e' fr' raw' code' w2 = (Inr ses, w3) \<longrightarrow>
         (\<exists>ch' \<in> set (login_challenges (w_db w2)). ch_ID ch' \<noteq> ch_ID ch \<and> normalizeEmail (el_parseAddress e') raw' = Inr (ch_Addr ch')
           \<and> ch_CodeHash ch' = hashSecret (au_sessions (el_authn e')) code' \<and> ch_ConsumedAt ch' = None \<and> w_pgnow w2 < ch_ExpiresAt ch'
           \<and> ch_Attempts ch' < maxCodeAttempts))"
proof (intro conjI impI)
  show "email_VerifyCode e fr raw code w1 = (Inl ErrInvalidCode, w1)" by (rule email_guesses_exhaust(2) [OF assms(1-7)])
  assume run: "email_VerifyCode e' fr' raw' code' w2 = (Inr ses, w3)"
  have "dead (ch_ID ch) (login_challenges (w_db w2))"
    by (rule locking.steps_keep [OF assms(8) email_guesses_exhaust(1) [OF assms(1-7)]])
  note alive = dead_not_accepted [OF this]
  obtain email ch' where "normalizeEmail (el_parseAddress e') raw' = Inr email" "ch' \<in> set (login_challenges (w_db w2))" "ch_Addr ch' = email"
    "ch_ConsumedAt ch' = None" "w_pgnow w2 < ch_ExpiresAt ch'" "ch_Attempts ch' < maxCodeAttempts"
    "ch_CodeHash ch' = hashSecret (au_sessions (el_authn e')) code'"
    using email_VerifyCode_challenge [OF run] .
  with alive [of ch'] show "\<exists>ch' \<in> set (login_challenges (w_db w2)). ch_ID ch' \<noteq> ch_ID ch
      \<and> normalizeEmail (el_parseAddress e') raw' = Inr (ch_Addr ch')
      \<and> ch_CodeHash ch' = hashSecret (au_sessions (el_authn e')) code' \<and> ch_ConsumedAt ch' = None \<and> w_pgnow w2 < ch_ExpiresAt ch'
      \<and> ch_Attempts ch' < maxCodeAttempts" by blast
qed

text \<open>Five wrong guesses; after two minutes a new code is requested, and the new code is accepted where the old one is not.\<close>

definition demo_mailbox :: "Challenge list \<Rightarrow> db" where
  "demo_mailbox cs = demo_login_db\<lparr>email_identities := [\<lparr>ei_Email = ''a@x'', ei_UserID = ''u1'', ei_CreatedAt = 0, ei_LastLogin = None\<rparr>], login_challenges := cs\<rparr>"

definition demo_guessed_n :: "int \<Rightarrow> Challenge" where
  "demo_guessed_n n = (new_challenge ''c2'' ''a@x'' ''123456'' codeTTL 0)\<lparr>ch_Attempts := n\<rparr>"

abbreviation demo_guess :: "string \<Rightarrow> world \<Rightarrow> world" where
  "demo_guess c w \<equiv> snd (email_VerifyCode demo_email_login (demo_fresh ''r1'') ''a@x'' c w)"

lemma demo_address: "normalizeEmail (el_parseAddress demo_email_login) ''a@x'' = Inr ''a@x''"
  by (simp add: normalizeEmail_def demo_email_login_def NewEmailLogin_def trim_space_def is_space_def lower_def to_lower_def)

lemma demo_hash: "hashSecret (au_sessions (el_authn demo_email_login)) x = x" "el_sender demo_email_login a c = None"
  by (simp_all add: demo_email_login_def NewEmailLogin_def Register_def NewAuthenticator_def demo_sessions_def hashSecret_def)

lemmas demo_code_steps = demo_address demo_hash otp_check_def otp_cooling_def GetActiveLoginChallenge_def q_GetActiveLoginChallenge_def active_challenge_def
  order_by_desc_def maxCodeAttempts_def io_defs new_challenge_def demo_world_def calm_def codeTTL_def minutes_def seconds_def demo_mailbox_def demo_guessed_n_def

lemma demo_guess_counts:
  assumes "n < 5" "c \<noteq> ''123456''"
  shows "demo_guess c (demo_world (demo_mailbox [demo_guessed_n n])) = demo_world (demo_mailbox [demo_guessed_n (n + 1)])"
  using assms
  by (simp add: email_VerifyCode_def IncrementLoginChallengeAttempts_def q_IncrementLoginChallengeAttempts_def attempts_exhausted_def count_attempt_def demo_code_steps)

lemma demo_five_guesses:
  "foldl (\<lambda>w c. demo_guess c w) (demo_world (demo_mailbox [demo_guessed_n 0])) [''0'', ''1'', ''2'', ''3'', ''4''] = demo_world (demo_mailbox [demo_guessed_n 5])"
  by (simp add: demo_guess_counts)

definition demo_later :: world where
  "demo_later = (demo_world (demo_mailbox [demo_guessed_n 5]))\<lparr>w_now := minutes 2, w_pgnow := minutes 2\<rparr>"

definition demo_asked :: world where
  "demo_asked = demo_later\<lparr>w_db := demo_mailbox [demo_guessed_n 5, new_challenge ''c9'' ''a@x'' ''654321'' (minutes 12) (minutes 2)], w_outbox := [(''a@x'', ''654321'')]\<rparr>"

lemma demo_ask: "email_RequestCode demo_email_login ''c9'' ''654321'' ''a@x'' demo_later = (Inr (), demo_asked)"
  by (simp add: email_RequestCode_def resendCooldown_def CreateLoginChallenge_def q_CreateLoginChallenge_def send_code_def demo_later_def demo_asked_def demo_code_steps)

lemma demo_new_code: "\<exists>ses w3. email_VerifyCode demo_email_login (demo_fresh ''r1'') ''a@x'' ''654321'' demo_asked = (Inr ses, w3)"
proof -
  let ?w = "demo_asked\<lparr>w_db := demo_mailbox (consume ''c9'' (minutes 2) (login_challenges (w_db demo_asked)))\<rparr>"
  let ?w' = "?w\<lparr>w_db := (w_db ?w)\<lparr>email_identities := update_rows (\<lambda>r. ei_Email r = ''a@x'') (\<lambda>r. r\<lparr>ei_LastLogin := Some (minutes 2)\<rparr>) (email_identities (w_db ?w))\<rparr>\<rparr>"
  let ?p = "\<lparr>pp_Kind = PrincipalEmail, pp_Provider = '''', pp_Subject = ''a@x''\<rparr>"
  have "otp_check (hashSecret (au_sessions (el_authn demo_email_login))) (GetActiveLoginChallenge ''a@x'') IncrementLoginChallengeAttempts
      ConsumeLoginChallenge ''654321'' demo_asked = (Inr (), ?w)"
    by (simp add: ConsumeLoginChallenge_def q_ConsumeLoginChallenge_def consume_def demo_later_def demo_asked_def demo_code_steps)
  moreover have "emailResolve (demo_fresh ''r1'') ?p '''' ?w = (Inr ''u1'', ?w')"
    by (simp add: emailResolve_def GetEmailIdentity_def q_GetEmailIdentity_def TouchEmailLogin_def q_TouchEmailLogin_def demo_asked_def demo_later_def demo_code_steps)
  moreover have "\<exists>ses w'. IssueSession demo_sessions ''r1'' ''r1'' ''r1'' ''u1'' ?w' = (Inr ses, w') \<and> calm w'
    \<and> users (w_db w') = [demo_user ''u1''] \<and> identity_vault (w_db w') = [demo_vault]
    \<and> set (refresh_tokens (w_db w')) \<subseteq> set (refresh_tokens (w_db ?w')) \<union> {t. rt_ID t = ''r1'' \<and> rt_TokenHash t = ''r1''}
    \<and> phone_identities (w_db w') = phone_identities (w_db ?w')"
    by (rule demo_session_issued) (simp_all add: calm_def demo_asked_def demo_later_def demo_mailbox_def demo_world_def demo_login_db_def empty_db_def)
  moreover have "au_resolvers (el_authn demo_email_login) PrincipalEmail = Some emailResolve" "au_sessions (el_authn demo_email_login) = demo_sessions"
    by (simp_all add: demo_email_login_def NewEmailLogin_def Register_def NewAuthenticator_def)
  moreover have "fr_Secret (demo_fresh i) = i" "fr_TokenID (demo_fresh i) = i" "fr_JTI (demo_fresh i) = i" for i by (simp_all add: demo_fresh_def)
  ultimately show ?thesis by (auto simp: email_VerifyCode_def demo_address bind_def Authenticate_def)
qed

theorem email_guessing_locks_witness:
  "demo_guess ''4'' (demo_guess ''3'' (demo_guess ''2'' (demo_guess ''1'' (demo_guess ''0'' (demo_world (demo_mailbox [demo_guessed_n 0]))))))
     = demo_world (demo_mailbox [demo_guessed_n 5])
   \<and> fst (email_VerifyCode demo_email_login (demo_fresh ''r1'') ''a@x'' ''123456'' (demo_world (demo_mailbox [demo_guessed_n 5]))) = Inl ErrInvalidCode
   \<and> (\<exists>ses w3. email_VerifyCode demo_email_login (demo_fresh ''r1'') ''a@x'' ''654321'' demo_asked = (Inr ses, w3))
   \<and> (\<exists>ch' \<in> set (login_challenges (w_db demo_asked)). ch_ID ch' \<noteq> ''c2'' \<and> ch_CodeHash ch' = ''654321'')"
proof -
  let ?w = "demo_world (demo_mailbox [demo_guessed_n 0])" and ?w1 = "demo_world (demo_mailbox [demo_guessed_n 5])"
  have c: "calm ?w" by (simp add: demo_world_def calm_def)
  have a: "active_challenge ''a@x'' (w_pgnow ?w) (login_challenges (w_db ?w)) = Some (demo_guessed_n 0)"
    by (simp add: demo_code_steps)
  have "(platform_step demo_store demo_recorder)\<^sup>*\<^sup>* ?w1 demo_later"
    by (rule r_into_rtranclp, rule platform_step.elapse) (simp add: demo_later_def)
  then have steps: "(platform_step demo_store demo_recorder)\<^sup>*\<^sup>* ?w1 demo_asked"
    by (rule rtranclp.rtrancl_into_rtrancl) (rule platform_step.ask_email [OF demo_ask])
  obtain ses w3 where v: "email_VerifyCode demo_email_login (demo_fresh ''r1'') ''a@x'' ''654321'' demo_asked = (Inr ses, w3)"
    using demo_new_code by blast
  have "distinct (map ch_ID (login_challenges (w_db ?w)))" "\<forall>c \<in> set [''0'', ''1'', ''2'', ''3'', ''4'']. hashSecret (au_sessions (el_authn demo_email_login)) c \<noteq> ch_CodeHash (demo_guessed_n 0)"
    "maxCodeAttempts \<le> ch_Attempts (demo_guessed_n 0) + int (length [''0'', ''1'', ''2'', ''3'', ''4''])"
    by (simp_all add: demo_code_steps)
  from email_guessing_locks [OF demo_address c a this demo_five_guesses [symmetric] steps, of "''123456''" demo_email_login "demo_fresh ''r1''" "''a@x''" "''654321''" ses w3]
  show ?thesis using v demo_five_guesses by (auto simp: demo_hash demo_guessed_n_def new_challenge_def)
qed

end
