(* ===== verification/Spec2Isabelle.thy ===== *)
theory Spec2Isabelle
  imports Deployment Interleavings Lasting
begin

text \<open>
  Verification of laplat, a learning platform for live classes in Go: one server (\<^verbatim>\<open>cmd/authd\<close>) over a PostgreSQL
  database (\<^verbatim>\<open>migrations\<close>) and a LiveKit media server.

  \<^bold>\<open>The program.\<close> People log in with an emailed or texted code or through an identity provider and get a short-lived access
  token and a rotating refresh token (\<^verbatim>\<open>internal/auth\<close>, \<^verbatim>\<open>pkg/token\<close>). An account becomes active with a verified adult
  identity or an attestation of age (\<^verbatim>\<open>internal/identity\<close>, \<^verbatim>\<open>internal/ekyc\<close>), and moderators suspend and reinstate it
  (\<^verbatim>\<open>internal/moderation\<close>). Instructors run classes (\<^verbatim>\<open>internal/class\<close>) and live sessions (\<^verbatim>\<open>internal/session\<close>), whose rooms
  are joined with a grant for the media server (\<^verbatim>\<open>internal/livekit\<close>). A session is recorded only while everyone present
  consents (\<^verbatim>\<open>internal/consent\<close>, \<^verbatim>\<open>internal/recording\<close>); paid classes and their recordings need an entitlement
  (\<^verbatim>\<open>internal/entitlement\<close>). Privileged actions land in a signed, hash-chained audit log (\<^verbatim>\<open>internal/audit\<close>), consent
  decisions in a second such ledger, and joins and leaves are committed to the audit log by Merkle roots
  (\<^verbatim>\<open>internal/presence\<close>, \<^verbatim>\<open>pkg/merkle\<close>). Services call each other in few places, which the model keeps: the consent
  service calls the recorder after every decision, enrollment and playback call the entitlement gate, presence and all
  audited mutations append to the audit log inside their transaction.

  \<^bold>\<open>How code becomes definitions.\<close> A Go string or byte slice is a \<^typ>\<open>string\<close> of bytes, an instant an integer number of
  nanoseconds. Structs are records, returned errors are the left side of a sum with the sentinel errors named as in the code.
  An operation is a function from a \<open>world\<close> to a result and a world (theory \<open>Effects\<close>): database, clocks, the faults the
  connection will show, the replies and calls of the media server, the messages sent. Every statement may be lost before
  it runs or lose its answer after it ran, so the theorems on atomicity range over all connection faults. SQL statements are
  functions on tables with the constraints and triggers of the migrations as guards. Random ids, secrets and codes are
  arguments of the operations that draw them.

  \<^bold>\<open>The theories.\<close>
  \<^item> \<open>Prelude\<close>, \<open>Codec\<close>, \<open>Decimal\<close>: tables as lists of rows, big-endian and length-prefixed encodings (locale \<open>framed\<close>),
    base64, decimal text.
  \<^item> \<open>Merkle\<close>: \<^verbatim>\<open>pkg/merkle\<close>. Proofs are sound, complete and roots binding; the 64-bit split loop equals the
    mathematical one up to \<open>2^62\<close> and runs forever above.
  \<^item> \<open>Contracts\<close>: \<^verbatim>\<open>pkg/contracts\<close>, with injectivity of the canonical payloads.
  \<^item> \<open>Db\<close>, \<open>Queries\<close>, \<open>Effects\<close>, \<open>Repos\<close>: \<^verbatim>\<open>internal/store\<close> and its generated queries. \<open>keeps J m\<close> says that \<open>m\<close> keeps the
    property \<open>J\<close> of the database under every fault; the rules for it carry all invariant proofs.
  \<^item> \<open>Ledger\<close> (locale \<open>ledger\<close>), \<open>AuditLog\<close>, \<open>Consent\<close>: the two hash chains. The tail hash binds the history; a suspension and
    its entry are atomic; the consent ledger refines a map to the latest decision.
  \<^item> \<open>Token\<close>, \<open>AuthService\<close>: \<^verbatim>\<open>pkg/token\<close>, \<^verbatim>\<open>internal/auth/service.go\<close>, \<^verbatim>\<open>minter.go\<close>, \<^verbatim>\<open>assurance.go\<close>. What acceptance of a
    token means, issue and verify as a round trip, single use of refresh tokens.
  \<^item> \<open>Otp\<close> (locale \<open>otp_table\<close>), \<open>Login\<close> (locale \<open>link_resolver\<close>), \<open>StepUp\<close>: one-time codes, the three logins, step-up grants.
    A credential always leads to the same account; wrong guesses are counted and lock a challenge.
  \<^item> \<open>Validate\<close>, \<open>Accounts\<close>: \<^verbatim>\<open>pkg/validate\<close>, profile, identity, eKYC callback, moderation, bootstrap. The adult rule.
  \<^item> \<open>Livekit\<close>, \<open>LiveSession\<close> (locale \<open>session_repo\<close>), \<open>Recordings\<close> (locale \<open>recording_repo\<close>), \<open>Playback\<close>: rooms, sessions,
    recording under consent, playback URLs. Who is admitted, that no recording starts without consent, that a withdrawal
    stops the egress, that webhooks never reopen a finished recording.
  \<^item> \<open>Entitlements\<close>, \<open>Classes\<close>, \<open>Presence\<close>, \<open>RateLimit\<close>: ownership, rosters, checkpoints, the token bucket.
  \<^item> \<open>Platform\<close> (locales \<open>account_repo\<close>, \<open>ledger_repo\<close>, \<open>platform_repo\<close>): the operations of every service keep the invariants of all others;
    the step relation \<open>platform_step\<close> over all of them. A \<open>platform_repo\<close> is a property that every service keeps. The two theorems below span components.
  \<^item> \<open>Lasting\<close>: what stays true after any further steps: a rotated token is spent, a participant who left is out, a challenge guessed at
    too often is dead.
  \<^item> \<open>Oidc\<close>, \<open>Outbound\<close>, \<open>Federation\<close>: \<^verbatim>\<open>internal/oidc\<close>, the clients of the gateways, vendors and identity providers
    (\<^verbatim>\<open>smssend\<close>, \<^verbatim>\<open>emailsend\<close>, \<^verbatim>\<open>otpconsole\<close>, \<^verbatim>\<open>ekyc/client.go\<close>, \<^verbatim>\<open>oidcprov\<close>, \<^verbatim>\<open>zalo\<close>), and the sealed login with its connectors. What
    an accepted ID token means, that a form carries its values, that a callback belongs to the login that started it.
  \<^item> \<open>Http\<close>, \<open>ServiceHttp\<close>, \<open>AuthHttp\<close>, \<open>RecordingHttp\<close>: the \<^verbatim>\<open>http.go\<close> files. A handler is a \<open>Response io\<close>, a surface is a table of
    routes that \<open>mux\<close> interprets. Asking for a code reveals nothing; the vendor's endpoint acts on authentic callbacks only.
  \<^item> \<open>Config\<close>, \<open>Vault\<close>: \<^verbatim>\<open>internal/config\<close>, \<^verbatim>\<open>internal/vaultsign\<close> and the choice of the signer. A configuration that loads is well
    formed; the service verifies what it signs.
  \<^item> \<open>Ids\<close>: the generators of ids, secrets, handles and codes from the bytes drawn. Codes are uniform.
  \<^item> \<open>Endpoints\<close>: every endpoint keeps what the services keep, and behind the bearer check nothing happens
    without a token.
  \<^item> \<open>Server\<close>, \<open>Adminctl\<close>, \<open>Deployment\<close>: \<^verbatim>\<open>cmd/authd\<close> and \<^verbatim>\<open>cmd/adminctl\<close>. \<open>newServer\<close> is what \<^verbatim>\<open>run\<close> wires from a configuration,
    \<open>serve\<close> a request to it through the middleware (\<^verbatim>\<open>internal/httpx\<close>), \<open>adminctl_run\<close> a run of the operator's tool, and \<open>server_step\<close>
    an event of the deployed platform. Which configurations start, that nothing happens without a token, and that from an environment
    to the tables everything stays intact.
  \<^item> \<open>Concurrency\<close> (locale \<open>ghost_inv\<close>), \<open>AccountRaces\<close>, \<open>CodeRaces\<close>, \<open>EnrollmentRaces\<close>, \<open>SessionRaces\<close>, \<open>RecordingRaces\<close>, \<open>Interleavings\<close>:
    operations as sequences of statements that others interleave with. \<open>f_prog\<close> is the program of the operation \<open>f\<close>, and \<open>run\<close> of it is \<open>f\<close>; a
    ghost value per running operation records what it has read and relies on. By how much the soft caps on rosters, attempts and recordings are
    overrun, that one recording per session is a hard limit, and that the invariants hold between any two statements; four schedules that the code
    does not guard against (a code used twice, a recording without consent, a login across a suspension, a join across the end of a session).

  \<^bold>\<open>Parameters and hypotheses.\<close> SHA-256, HMAC, Ed25519, RSA, ECDSA, JSON, PEM, \<^verbatim>\<open>mail.ParseAddress\<close>, the mail transport and the HTTP
  transport to vendors, gateways and identity providers are function parameters (collected in \<open>ServerLib\<close> for the whole server). Collision resistance is injectivity on the finite set of inputs hashed in the
  statement; a signer's signatures verify under its published key. Each theorem with such a hypothesis has a witness with
  concrete functions.

  \<^bold>\<open>Bounds and loops.\<close> Loops of the code are structural recursions; where the recursion is not structural (the parser of
  durations, the wait for the database) a measure shows that it ends, and the 64-bit split loop of the Merkle tree is a \<open>partial_function\<close>
  into \<open>option\<close> because it may not; no definition uses fuel. Durations are parsed at 64 bits. Token versions and capacities keep the
  range of their SQL type; \<^verbatim>\<open>strings.ToLower\<close> and \<^verbatim>\<open>TrimSpace\<close> are modelled on ASCII; \<^verbatim>\<open>float64\<close> in the limiter is exact.
  The sum with the clock skew in a webhook token wraps at 64 bits; that \<^verbatim>\<open>time.Unix\<close> wraps for the issue times of an ID token in the last
  62135596800 seconds of the range is left out, as the comment at \<open>check_claims\<close> says.
  An operation reads each clock at one instant, or, where it is a sequence of statements, one per statement. In the theorems on single operations nobody
  else moves meanwhile; in those of the theories named after races, statements of any number of operations interleave, at most \<open>k\<close> at a time where the
  bound depends on it. There a transaction is one action, as the row and advisory locks make it.

  \<^bold>\<open>Not modelled.\<close> Of \<^verbatim>\<open>cmd/authd\<close> the process around the handler: listening, timeouts, signals, draining, and what is logged
  apart from the access log. The interface declarations of the generated queries (\<^verbatim>\<open>db.go\<close>, \<^verbatim>\<open>querier.go\<close>) and the event
  structs of \<^verbatim>\<open>pkg/contracts/events.go\<close>, which have no behaviour or no user; the test database (\<^verbatim>\<open>internal/dbtest\<close>), which starts a container
  for tests; the web front end. The data export, which only reads, is an operation of its own and is not interleaved with others.
\<close>

section \<open>The services together\<close>

text \<open>C1: the invariants hold in every state the platform reaches. Starting from the empty database, after any sequence of
  operations of the login, step-up, account, identity, moderation, class, session, recording, playback, consent, entitlement and presence
  services, in any order, with any arguments and under any faults of the connection: the audit log verifies from genesis, the
  consent ledger is linked and signed, a participant is in a session once and a direct session has at most two present, no
  two recordings of a session are in flight, no ownership is doubled, the presence sequence is strictly increasing, and every
  refresh family has at most one live token. Every active account has a basis for being an adult, a verified identity or an attestation of age,
  or has on record an acceptance of the terms that does not attest: such an acceptance takes an attestation back and suspends nobody
  (\<open>retraction_keeps_active\<close>).\<close>
theorem platform_inv_reachable:
  assumes "store_ok edv keys st" and "w_db w0 = empty_db" and "(platform_step st rec)\<^sup>*\<^sup>* w0 w"
  shows "platform_inv st edv keys (w_db w) \<and> VerifyChain (sha256 st) edv keys (audit_entries (w_db w)) = None"
proof -
  have inv: "platform_inv st edv keys (w_db w)"
    by (rule platform_repo.steps_keep [OF platform_services [OF assms(1)] assms(3)]) (simp add: assms(2) platform_inv_empty)
  then have "audit_inv (sha256 st) edv keys (w_db w)" by (simp add: platform_inv_def integrity_inv_def)
  then have "audit_linked (sha256 st) edv keys GenesisHash (audit_entries (w_db w))"
    using audit_entries_eq by (auto simp: audit_inv_def)
  with inv show ?thesis by (simp add: VerifyChain_iff)
qed

text \<open>A platform whose operator has signed up, and a moderator's suspension of that account.\<close>

definition demo_operator :: BootstrapParams where
  "demo_operator = \<lparr>bp_UserID = ''u1'', bp_Handle = ''op'', bp_DisplayName = ''Op'', bp_ProviderRef = '''', bp_RetainUntil = None\<rparr>"

definition demo_moderator :: AccessTokenClaims where
  "demo_moderator = demo_claims\<lparr>Subject := ''m1'', Capabilities := [CapPlatformModerator]\<rparr>"

lemma demo_bootstrap:
  "calm (snd (Bootstrap ''x'' demo_operator (demo_world empty_db)))"
  "map_option u_TokenVersion (account ''u1'' (w_db (snd (Bootstrap ''x'' demo_operator (demo_world empty_db))))) = Some 1"
  "audit_log (w_db (snd (Bootstrap ''x'' demo_operator (demo_world empty_db)))) = []"
  by code_simp+

lemma demo_suspension:
  assumes "calm w" "map_option u_TokenVersion (account ''u1'' (w_db w)) = Some 1" "audit_log (w_db w) = []"
  shows "fst (Suspend demo_store demo_moderator ''u1'' w) = Inr () \<and> length (audit_log (w_db (snd (Suspend demo_store demo_moderator ''u1'' w)))) = 1"
proof -
  obtain a where a: "account ''u1'' (w_db w) = Some a" "u_TokenVersion a = 1" using assms(2) by auto
  have u: "find (\<lambda>u. u_ID u = ''u1'') (update_rows (\<lambda>u. u_ID u = ''u1'') (\<lambda>u. u\<lparr>u_Status := ''suspended''\<rparr>) (users (w_db w)))
      = Some (a\<lparr>u_Status := ''suspended''\<rparr>)"
    by (rule find_update_rows_Some [OF a(1)]) simp
  show ?thesis
    using assms(1,3) a u
    by (simp add: Suspend_def demo_moderator_def HasCapability_def SuspendUserAudited_def inAuditTx_def in_tx_def demo_store_def mod_input_def
        bind_def ret_def q_SuspendUser_def q_RevokeAllRefreshTokens_def q_BumpTokenVersion_def update_user_def appendAuditTx_def advisory_lock_def
        attempt_def q_audit_tail_def sign_and_insert_def goNow_def demo_signer_def Let_def q_insert_audit_def audit_entry_def
        latest_by_def)
qed

theorem platform_inv_reachable_witness:
  "let w1 = snd (Bootstrap ''x'' demo_operator (demo_world empty_db)); w2 = snd (Suspend demo_store demo_moderator ''u1'' w1)
   in length (audit_log (w_db w2)) = 1 \<and> platform_inv demo_store demo_edv demo_keys (w_db w2)
      \<and> VerifyChain (sha256 demo_store) demo_edv demo_keys (audit_entries (w_db w2)) = None"
proof -
  define w1 where "w1 = snd (Bootstrap ''x'' demo_operator (demo_world empty_db))"
  define w2 where "w2 = snd (Suspend demo_store demo_moderator ''u1'' w1)"
  obtain r where b: "Bootstrap ''x'' demo_operator (demo_world empty_db) = (r, w1)" unfolding w1_def by (metis prod.collapse)
  obtain q where s: "Suspend demo_store demo_moderator ''u1'' w1 = (q, w2)" unfolding w2_def by (metis prod.collapse)
  have "(platform_step demo_store demo_recorder)\<^sup>*\<^sup>* (demo_world empty_db) w2"
    using platform_step.bootstrap [OF b] platform_step.suspend [OF s] by (meson r_into_rtranclp rtranclp.rtrancl_into_rtrancl)
  moreover have "w_db (demo_world empty_db) = empty_db" by (simp add: demo_world_def)
  ultimately show ?thesis
    using platform_inv_reachable [OF demo_store_ok] demo_suspension [OF demo_bootstrap] unfolding Let_def w1_def w2_def by blast
qed

text \<open>C3: a suspended account is out. Once a moderator's suspension has returned, and as long as nothing rewrites the
  account's row, no access token of the account that was accepted before is accepted again, at whatever time it is
  presented; neither a login nor a refresh token gives the account a new session.\<close>
theorem suspended_is_out:
  assumes "audit_inv (sha256 st) edv keys (w_db w)" and "store_ok edv keys st"
    and "Suspend st moderator target w = (Inr (), w1)"
    and "account target (w_db w2) = account target (w_db w1)"
  shows "HasCapability moderator CapPlatformModerator
    \<and> (\<forall>js edv' keys' tok claims wa. Validate js edv' keys' IsAccessTokenRevoked CurrentTokenVersion tok w = (Inr claims, wa)
         \<longrightarrow> Subject claims = target
         \<longrightarrow> (\<exists>e. fst (Validate js edv' keys' IsAccessTokenRevoked CurrentTokenVersion tok w2) = Inl e))
    \<and> (\<forall>a secret nid jti. \<exists>e. fst (IssueSession a secret nid jti target w2) = Inl e)
    \<and> (\<forall>a secret nid jti presented ses w'. Refresh a secret nid jti presented w2 = (Inr ses, w')
         \<longrightarrow> Subject (se_AccessClaims ses) \<noteq> target)"
proof -
  obtain u where cap: "HasCapability moderator CapPlatformModerator" and u: "account target (w_db w) = Some u"
    and u': "account target (w_db w2) = Some (u\<lparr>u_Status := ''suspended'', u_TokenVersion := u_TokenVersion u + 1\<rparr>)"
    using Suspend_account [OF assms(1-3)] assms(4) by metis
  have barred: "\<not> canHoldSession (u_Status (u\<lparr>u_Status := ''suspended'', u_TokenVersion := u_TokenVersion u + 1\<rparr>))"
    by (simp add: canHoldSession_def)
  have tok: "\<exists>e. fst (Validate js edv' keys' IsAccessTokenRevoked CurrentTokenVersion tok w2) = Inl e"
    if "Validate js edv' keys' IsAccessTokenRevoked CurrentTokenVersion tok w = (Inr claims, wa)" and "Subject claims = target"
    for js edv' keys' tok claims wa
    by (rule Validate_outdated [OF that(1)]) (simp add: that(2) u u')
  show ?thesis
    using cap tok IssueSession_barred [OF u' barred] Refresh_barred [OF u' barred] by blast
qed

theorem suspended_is_out_witness:
  "let w = (demo_world (empty_db\<lparr>users := [demo_user ''u1'']\<rparr>))\<lparr>w_now := seconds 500\<rparr>; w1 = snd (Suspend demo_store demo_moderator ''u1'' w)
   in fst (Validate demo_codec demo_edv [''k1'' \<mapsto> demo_pub] IsAccessTokenRevoked CurrentTokenVersion demo_token w) = Inr demo_claims
      \<and> (\<exists>e. fst (Validate demo_codec demo_edv [''k1'' \<mapsto> demo_pub] IsAccessTokenRevoked CurrentTokenVersion demo_token w1) = Inl e)
      \<and> (\<exists>e. fst (IssueSession demo_sessions ''s'' ''n'' ''j'' ''u1'' w1) = Inl e)"
proof -
  define w where "w = (demo_world (empty_db\<lparr>users := [demo_user ''u1'']\<rparr>))\<lparr>w_now := seconds 500\<rparr>"
  define w1 where "w1 = snd (Suspend demo_store demo_moderator ''u1'' w)"
  have w: "calm w" "map_option u_TokenVersion (account ''u1'' (w_db w)) = Some 1" "audit_log (w_db w) = []"
    by (simp_all add: w_def demo_world_def calm_def demo_user_def empty_db_def)
  then have s: "Suspend demo_store demo_moderator ''u1'' w = (Inr (), w1)"
    using demo_suspension unfolding w1_def by (metis prod.collapse)
  have v: "Validate demo_codec demo_edv [''k1'' \<mapsto> demo_pub] IsAccessTokenRevoked CurrentTokenVersion demo_token w = (Inr demo_claims, w)"
    using demo_Verify
    by (simp add: Validate_def w_def demo_world_def io_defs IsAccessTokenRevoked_def q_IsAccessTokenRevoked_def CurrentTokenVersion_def
        q_CurrentTokenVersion_def demo_user_def demo_claims_def empty_db_def calm_def)
  note out = suspended_is_out [OF audit_inv_empty [OF w(3)] demo_store_ok s refl]
  show ?thesis
    using out v by (auto simp: Let_def demo_claims_def simp flip: w_def w1_def)
qed

end
